(* ===== verification/Prelude.thy ===== *)
theory Prelude
  imports Complex_Main "HOL-Library.Word" "HOL-Library.Code_Target_Nat"
begin

text \<open>
  Shared vocabulary of the development: the machine types of the C++ code, the byte-copy
  primitive behind \<^verbatim>\<open>memcpy\<close>, the C integer conversions the code relies on, and the
  generic list lemmas that several components use.

  Sizes of type \<^verbatim>\<open>size_t\<close> are natural numbers (64 bits never overflow on the sizes the
  program handles); 8, 16, 32 and 64 bit quantities whose width matters are words.  A pointer
  with a length is the list of the bytes it points to.
\<close>

unbundle bit_operations_syntax

section \<open>Machine types\<close>

type_synonym u8 = "8 word"
type_synonym u16 = "16 word"
type_synonym u32 = "32 word"
type_synonym u64 = "64 word"
type_synonym i16 = "16 word"
type_synonym bytes = "8 word list"

text \<open>The definitions of the calls on presenters, which proofs about the session's output unfold together.\<close>

named_theorems presenter_defs \<open>definitions of calls on presenters\<close>

text \<open>The conversion \<^verbatim>\<open>(int)n\<close> of a size: two's complement truncation to 32 bits.\<close>

definition c_int :: "nat \<Rightarrow> int" where
  "c_int n = sint (word_of_nat n :: 32 word)"

lemma c_int_small: "n < 2 ^ 31 \<Longrightarrow> c_int n = int n"
proof -
  assume n: "n < 2 ^ 31"
  have "sint (word_of_nat n :: 32 word) = signed_take_bit 31 (int n)"
    by (simp add: sint_uint unsigned_of_nat of_nat_take_bit signed_take_bit_take_bit)
  also have "\<dots> = int n"
    using n by (intro signed_take_bit_int_eq_self) auto
  finally show ?thesis by (simp add: c_int_def)
qed

lemma c_int_less: "c_int n < 2 ^ 31"
  using sint_lt [of "word_of_nat n :: 32 word"] by (simp add: c_int_def)

text \<open>The conversion of a 64 bit configuration value to a 32 bit \<^verbatim>\<open>int\<close>.\<close>

definition to_int32 :: "int \<Rightarrow> int" where
  "to_int32 i = signed_take_bit 31 i"

lemma to_int32_id: "- (2 ^ 31) \<le> i \<Longrightarrow> i < 2 ^ 31 \<Longrightarrow> to_int32 i = i"
  by (simp add: to_int32_def signed_take_bit_int_eq_self)

lemma to_int32_range: "- (2 ^ 31) \<le> to_int32 i \<and> to_int32 i < 2 ^ 31"
  using signed_take_bit_int_greater_eq_minus_exp [of 31 i] signed_take_bit_int_less_exp [of 31 i]
  by (simp add: to_int32_def)

lemma unat_bound: "unat (w :: 'a::len word) < 2 ^ LENGTH('a)"
  by (rule unsigned_less)

section \<open>Byte copies\<close>

text \<open>
  \<open>splice xs off ys\<close> is the array \<open>xs\<close> after \<^verbatim>\<open>memcpy(xs + off, ys, |ys|)\<close>.  The copy is in
  range when \<open>off + length ys \<le> length xs\<close>.
\<close>

definition splice :: "'a list \<Rightarrow> nat \<Rightarrow> 'a list \<Rightarrow> 'a list" where
  "splice xs off ys = take off xs @ ys @ drop (off + length ys) xs"

lemma length_splice [simp]:
  "off + length ys \<le> length xs \<Longrightarrow> length (splice xs off ys) = length xs"
  by (simp add: splice_def)

lemma nth_splice:
  assumes "off + length ys \<le> length xs" "i < length xs"
  shows "splice xs off ys ! i =
    (if off \<le> i \<and> i < off + length ys then ys ! (i - off) else xs ! i)"
  using assms by (auto simp: splice_def nth_append min_def)

lemma splice_Nil [simp]: "splice xs off [] = xs"
  by (simp add: splice_def)

lemma splice_mid:
  "length a = off \<Longrightarrow> length b = length ys \<Longrightarrow> splice (a @ b @ c) off ys = a @ ys @ c"
  by (simp add: splice_def)

lemma splice_all: "length ys = length xs \<Longrightarrow> splice xs 0 ys = ys"
  by (simp add: splice_def)

text \<open>A sub-array: \<open>len\<close> elements from offset \<open>off\<close>.\<close>

definition segment :: "'a list \<Rightarrow> nat \<Rightarrow> nat \<Rightarrow> 'a list" where
  "segment xs off len = take len (drop off xs)"

lemma length_segment [simp]: "off + len \<le> length xs \<Longrightarrow> length (segment xs off len) = len"
  by (simp add: segment_def)

lemma nth_segment: "off + len \<le> length xs \<Longrightarrow> i < len \<Longrightarrow> segment xs off len ! i = xs ! (off + i)"
  by (simp add: segment_def)

lemma segment_mid: "length a = off \<Longrightarrow> length b = len \<Longrightarrow> segment (a @ b @ c) off len = b"
  by (simp add: segment_def)

section \<open>Lists\<close>

lemma take_drop_split: "m \<le> n \<Longrightarrow> take n xs = take m xs @ segment xs m (n - m)"
  unfolding segment_def by (metis add_diff_inverse_nat linorder_not_less take_add)

lemma drop_segment_split: "drop m xs = segment xs m k @ drop (m + k) xs"
  by (simp add: segment_def) (metis append_take_drop_id drop_drop add.commute)

lemma list_not_empty_last: "xs \<noteq> [] \<Longrightarrow> butlast xs @ [last xs] = xs"
  by simp

lemma take_length_le: "length (take n xs) \<le> n"
  by simp

text \<open>A list glued from chunks of one size.\<close>

lemma length_concat_chunks:
  "(\<And>i. i < m \<Longrightarrow> length (f i) = k) \<Longrightarrow> length (concat (map f [0..<m])) = m * k"
  by (induction m) auto

lemma nth_concat_chunks:
  assumes "\<And>i. i < m \<Longrightarrow> length (f i) = k" "n < m * k"
  shows "concat (map f [0..<m]) ! n = f (n div k) ! (n mod k)"
  using assms
proof (induction m)
  case (Suc m)
  have len: "length (concat (map f [0..<m])) = m * k"
    using Suc.prems(1) by (intro length_concat_chunks) auto
  show ?case
  proof (cases "n < m * k")
    case True
    with Suc len show ?thesis by (simp add: nth_append)
  next
    case False
    define r where "r = n - m * k"
    from False Suc.prems have r: "n = m * k + r" "r < k" by (auto simp: r_def)
    then have "n div k = m" "n mod k = n - m * k" by simp_all
    with False len show ?thesis by (simp add: nth_append)
  qed
qed simp

lemma take_take_append: "take n (take n xs @ ys) = take n (xs @ ys)"
  by (cases "length xs \<le> n") simp_all

text \<open>The newest \<open>n\<close> entries of a history that is oldest first.\<close>

definition keep_last :: "nat \<Rightarrow> 'a list \<Rightarrow> 'a list" where
  "keep_last n xs = drop (length xs - n) xs"

lemma keep_last_short [simp]: "length xs \<le> n \<Longrightarrow> keep_last n xs = xs"
  by (simp add: keep_last_def)

lemma length_keep_last [simp]: "length (keep_last n xs) = min n (length xs)"
  by (simp add: keep_last_def)

lemma keep_last_append:
  "keep_last n (keep_last n xs @ ys) = keep_last n (xs @ ys)"
  by (cases "length xs \<le> n") (simp_all add: keep_last_def add.commute)

lemma keep_last_snoc_full: "length xs = n \<Longrightarrow> keep_last n (xs @ [y]) = tl (xs @ [y])"
  by (cases xs) (auto simp: keep_last_def)

text \<open>The part of a C string before its terminator.\<close>

definition c_str :: "string \<Rightarrow> string" where
  "c_str s = takeWhile (\<lambda>c. c \<noteq> CHR 0x00) s"

lemma c_str_id: "CHR 0x00 \<notin> set s \<Longrightarrow> c_str s = s"
  by (auto simp: c_str_def takeWhile_eq_all_conv)

section \<open>Lines of text\<close>

definition newline :: char where "newline = CHR 0x0A"

text \<open>The completed lines of a text and what follows its last newline.\<close>

fun split_lines :: "string \<Rightarrow> string \<Rightarrow> string list \<times> string" where
  "split_lines cur [] = ([], cur)"
| "split_lines cur (c # cs) =
     (if c = newline then (let (ls, r) = split_lines [] cs in (cur # ls, r))
      else split_lines (cur @ [c]) cs)"

lemma split_lines_append:
  "split_lines cur (s @ t) =
     (fst (split_lines cur s) @ fst (split_lines (snd (split_lines cur s)) t),
      snd (split_lines (snd (split_lines cur s)) t))"
  by (induction cur s rule: split_lines.induct) (auto simp: Let_def split: prod.splits)

lemma split_lines_prefix: "newline \<notin> set p \<Longrightarrow> split_lines cur (p @ t) = split_lines (cur @ p) t"
  by (induction p arbitrary: cur) auto

lemma split_lines_none [simp]: "newline \<notin> set p \<Longrightarrow> split_lines cur p = ([], cur @ p)"
  using split_lines_prefix [of p cur "[]"] by simp

lemma split_lines_rest: "newline \<notin> set cur \<Longrightarrow> newline \<notin> set (snd (split_lines cur t))"
  by (induction cur t rule: split_lines.induct) (auto simp: Let_def split: prod.splits)

lemma split_lines_free: "newline \<notin> set cur \<Longrightarrow> l \<in> set (fst (split_lines cur t)) \<Longrightarrow> newline \<notin> set l"
  by (induction cur t rule: split_lines.induct) (auto simp: Let_def split: prod.splits if_splits)

lemma split_lines_step:
  "newline \<notin> set l \<Longrightarrow> split_lines [] (l @ newline # t) =
     (l # fst (split_lines [] t), snd (split_lines [] t))"
  by (simp add: split_lines_prefix Let_def split: prod.splits)

section \<open>Floating point\<close>

text \<open>
  Floating-point values are the rationals they denote.  Where the result of an operation need not be
  exact, the model rounds with a function \<open>fl\<close>, an argument; \<open>rounds fl\<close> states what IEEE 754
  guarantees of every rounding mode on the range the program uses: rounding is monotone, keeps the
  integers that doubles represent and has a small relative error.
\<close>

definition rounds :: "(rat \<Rightarrow> rat) \<Rightarrow> bool" where
  "rounds fl \<longleftrightarrow>
     (\<forall>x y. x \<le> y \<longrightarrow> fl x \<le> fl y) \<and>
     (\<forall>n. \<bar>n\<bar> \<le> 2 ^ 53 \<longrightarrow> fl (of_int n) = of_int n) \<and>
     (\<forall>x. \<bar>x\<bar> \<le> 2 ^ 53 \<longrightarrow> \<bar>fl x - x\<bar> \<le> (\<bar>x\<bar> + 1) / 2 ^ 50)"

lemma rounds_exact: "rounds (\<lambda>x. x)"
  by (simp add: rounds_def)

lemma rounds_mono: "rounds fl \<Longrightarrow> x \<le> y \<Longrightarrow> fl x \<le> fl y"
  by (simp add: rounds_def)

lemma rounds_int: "rounds fl \<Longrightarrow> \<bar>n\<bar> \<le> 2 ^ 53 \<Longrightarrow> fl (of_int n) = of_int n"
  by (simp add: rounds_def)

lemma rounds_between:
  assumes "rounds fl" "of_int a \<le> x" "x \<le> of_int b" "\<bar>a\<bar> \<le> 2 ^ 53" "\<bar>b\<bar> \<le> 2 ^ 53"
  shows "of_int a \<le> fl x \<and> fl x \<le> of_int b"
  using rounds_mono [OF assms(1,2)] rounds_mono [OF assms(1,3)] rounds_int [OF assms(1,4)]
    rounds_int [OF assms(1,5)] by simp

text \<open>The conversion of a floating-point value to an integer type: truncation.\<close>

definition c_trunc :: "rat \<Rightarrow> int" where
  "c_trunc x = (if x < 0 then - \<lfloor>- x\<rfloor> else \<lfloor>x\<rfloor>)"

lemma c_trunc_int [simp]: "c_trunc (of_int n) = n"
  by (simp add: c_trunc_def flip: of_int_minus)

lemma c_trunc_between: "of_int a \<le> x \<Longrightarrow> x \<le> of_int b \<Longrightarrow> a \<le> c_trunc x \<and> c_trunc x \<le> b"
  by (auto simp: c_trunc_def le_floor_iff floor_le_iff minus_le_iff less_floor_iff)
    linarith+

text \<open>Linear interpolation as the two resamplers do it: between the two samples, whatever the rounding.\<close>

definition lerp :: "(rat \<Rightarrow> rat) \<Rightarrow> int \<Rightarrow> int \<Rightarrow> rat \<Rightarrow> int" where
  "lerp fl a b t = c_trunc (fl (of_int a + fl (of_int (b - a) * t)))"

lemma lerp_between:
  assumes "rounds fl" "0 \<le> t" "t \<le> 1" "\<bar>a\<bar> \<le> 2 ^ 31" "\<bar>b\<bar> \<le> 2 ^ 31"
  shows "min a b \<le> lerp fl a b t \<and> lerp fl a b t \<le> max a b"
proof -
  let ?lo = "min 0 (b - a)" and ?hi = "max 0 (b - a)"
  have big: "\<bar>b - a\<bar> \<le> 2 ^ 53" "\<bar>a\<bar> \<le> 2 ^ 53" "\<bar>b\<bar> \<le> 2 ^ 53" using assms(4,5) by (simp_all add: abs_le_iff)
  have prod: "of_int ?lo \<le> of_int (b - a) * t \<and> of_int (b - a) * t \<le> of_int ?hi"
  proof (cases "0 \<le> b - a")
    case True
    then have "(0::rat) \<le> of_int (b - a)" by simp
    with True assms(2,3) show ?thesis
      using mult_left_le [of t "of_int (b - a)"] by (simp add: min_def max_def del: of_int_diff)
  next
    case False
    then have "of_int (b - a) \<le> (0::rat)" by simp
    with False assms(2,3) show ?thesis
      using mult_left_mono_neg [of t 1 "of_int (b - a)"] mult_nonpos_nonneg [of "of_int (b - a)" t]
      by (simp add: min_def max_def del: of_int_diff)
  qed
  have "of_int ?lo \<le> fl (of_int (b - a) * t) \<and> fl (of_int (b - a) * t) \<le> of_int ?hi"
    using prod big(1) by (intro rounds_between [OF assms(1)]) auto
  then have "of_int (a + ?lo) \<le> of_int a + fl (of_int (b - a) * t) \<and>
      of_int a + fl (of_int (b - a) * t) \<le> of_int (a + ?hi)"
    by (simp only: of_int_add) simp
  moreover have "a + ?lo = min a b" "a + ?hi = max a b" by auto
  ultimately have "of_int (min a b) \<le> of_int a + fl (of_int (b - a) * t) \<and>
      of_int a + fl (of_int (b - a) * t) \<le> of_int (max a b)"
    by simp
  then have "of_int (min a b) \<le> fl (of_int a + fl (of_int (b - a) * t)) \<and>
      fl (of_int a + fl (of_int (b - a) * t)) \<le> of_int (max a b)"
    using big by (intro rounds_between [OF assms(1)]) auto
  then show ?thesis unfolding lerp_def by (intro c_trunc_between) auto
qed

end
