(* ===== verification/Interfaces.thy ===== *)
theory Interfaces
  imports Prelude "HOL-Library.Sublist"
begin

text \<open>
  The contracts between components, as locales.  Each fixes the operations a client calls and
  assumes the laws their provider promises; the lemmas a client needs are proved here once.  The
  theories of the providers interpret them on the definitions of the code.
\<close>

section \<open>A rewind history\<close>

text \<open>
  \<open>pops pop m h\<close> steps back \<open>m\<close> times and collects the restored states; a failing step adds
  nothing.  \<open>push_all push ss h\<close> records the states \<open>ss\<close> one after the other.
\<close>

fun pops :: "('h \<Rightarrow> 'h \<times> bytes option) \<Rightarrow> nat \<Rightarrow> 'h \<Rightarrow> 'h \<times> bytes list" where
  "pops pop 0 h = (h, [])"
| "pops pop (Suc m) h =
     (case pop h of (h', r) \<Rightarrow>
        let (h'', rs) = pops pop m h' in (h'', (case r of None \<Rightarrow> rs | Some s \<Rightarrow> s # rs)))"

definition push_all :: "(bytes \<Rightarrow> nat \<Rightarrow> 'h \<Rightarrow> 'h) \<Rightarrow> bytes list \<Rightarrow> 'h \<Rightarrow> 'h" where
  "push_all push ss h = foldl (\<lambda>h s. push s (length s) h) h ss"

definition valid_state :: "bytes \<Rightarrow> bool" where
  "valid_state s \<longleftrightarrow> 0 < length s \<and> length s < 2 ^ 31"

locale snapshot_history =
  fixes push :: "bytes \<Rightarrow> nat \<Rightarrow> 'h \<Rightarrow> 'h"
    and pop :: "'h \<Rightarrow> 'h \<times> bytes option"
    and clear :: "'h \<Rightarrow> 'h"
    and hist :: "'h \<Rightarrow> bytes list"
    and inv :: "'h \<Rightarrow> bool"
  assumes push_inv: "inv h \<Longrightarrow> valid_state s \<Longrightarrow> inv (push s (length s) h)"
    and push_hist: "inv h \<Longrightarrow> valid_state s \<Longrightarrow>
      \<exists>k \<le> length (hist h). hist (push s (length s) h) = drop k (hist h @ [s])"
    and pop_empty: "inv h \<Longrightarrow> length (hist h) \<le> 1 \<Longrightarrow> pop h = (h, None)"
    and pop_step: "inv h \<Longrightarrow> 1 < length (hist h) \<Longrightarrow>
      \<exists>h'. pop h = (h', Some (last (butlast (hist h)))) \<and> inv h' \<and> hist h' = butlast (hist h)"
    and clear_inv: "inv h \<Longrightarrow> inv (clear h)"
    and clear_hist: "hist (clear h) = []"
begin

text \<open>Stepping back returns the predecessors of the current state, newest first.\<close>

lemma pops_hist:
  assumes "inv h" "m < length (hist h)"
  shows "snd (pops pop m h) = take m (tl (rev (hist h))) \<and>
    hist (fst (pops pop m h)) = take (length (hist h) - m) (hist h) \<and> inv (fst (pops pop m h))"
  using assms
proof (induction m arbitrary: h)
  case (Suc m)
  then obtain h' where h': "pop h = (h', Some (last (butlast (hist h))))" "inv h'"
    "hist h' = butlast (hist h)"
    using pop_step [of h] by auto
  have lt: "m < length (hist h')" using Suc.prems h'(3) by simp
  note IH = Suc.IH [OF h'(2) lt]
  obtain init x y where split: "hist h = init @ [x, y]"
    using Suc.prems(2)
    by (metis append_butlast_last_id append.assoc append_Cons append_Nil length_0_conv
        length_append_singleton less_one linorder_not_less not_less_eq not_less_zero Suc_less_eq)
  have "take (length (hist h) - Suc m) (hist h) = take (length (hist h') - m) (hist h')"
    by (cases m) (simp_all add: h'(3) split butlast_append)
  with IH h'(1,3) show ?case
    by (auto simp: split case_prod_beta Let_def butlast_append)
qed simp

lemma pops_beyond:
  assumes "inv h" "hist h \<noteq> []"
  shows "snd (pops pop (length (hist h) - 1 + m) h) = tl (rev (hist h))"
  using assms
proof (induction "length (hist h) - 1" arbitrary: h)
  case 0
  then have "length (hist h) \<le> 1" by simp
  then have p: "pop h = (h, None)" using pop_empty 0 by blast
  have "snd (pops pop m h) = []" for m by (induction m) (simp_all add: p case_prod_beta)
  moreover have "tl (rev (hist h)) = []" using 0(1,3) by (cases "hist h") auto
  ultimately show ?case using 0 by simp
next
  case (Suc n)
  then have "1 < length (hist h)" by simp
  with Suc.prems obtain h' where h': "pop h = (h', Some (last (butlast (hist h))))" "inv h'"
    "hist h' = butlast (hist h)"
    using pop_step [of h] by auto
  have "hist h' \<noteq> []" "n = length (hist h') - 1"
    using Suc.hyps(2) h'(3) by (auto simp: length_greater_0_conv [symmetric])
  with Suc.hyps(1) h'(2) have "snd (pops pop (n + m) h') = tl (rev (hist h'))" by metis
  moreover obtain init x where "butlast (hist h) = init @ [x]"
    using \<open>hist h' \<noteq> []\<close> h'(3) by (metis append_butlast_last_id)
  moreover have "tl (rev (hist h)) = rev (butlast (hist h))"
    by (cases "hist h" rule: rev_cases) simp_all
  ultimately show ?case
    using h' Suc.hyps(2) [symmetric] by (simp add: case_prod_beta)
qed

text \<open>Recording a series keeps a suffix of it that contains at least its last element.\<close>

lemma push_all_hist:
  assumes "inv h" "\<forall>s \<in> set ss. valid_state s"
  shows "inv (push_all push ss h) \<and>
    (\<exists>k \<le> length (hist h @ ss) - (if ss = [] then 0 else 1). hist (push_all push ss h) = drop k (hist h @ ss))"
  using assms
proof (induction ss rule: rev_induct)
  case (snoc s ss)
  let ?g = "push_all push ss h"
  from snoc obtain k where g: "inv ?g" "hist ?g = drop k (hist h @ ss)" "k \<le> length (hist h @ ss)"
    by (auto split: if_splits)
  have s: "valid_state s" using snoc.prems by simp
  from push_hist [OF g(1) s] obtain j where
    j: "j \<le> length (hist ?g)" "hist (push s (length s) ?g) = drop j (hist ?g @ [s])" by blast
  have "drop k (hist h @ ss) @ [s] = drop k ((hist h @ ss) @ [s])"
    using g(3) by (simp only: drop_append) simp
  then have "drop j (drop k (hist h @ ss) @ [s]) = drop (j + k) (hist h @ ss @ [s])"
    by (simp only: drop_drop append_assoc)
  moreover have "j + k \<le> length (hist h @ ss)" using j(1) g by simp
  moreover have "push_all push (ss @ [s]) h = push s (length s) ?g"
    by (simp add: push_all_def)
  ultimately show ?case
    using push_inv [OF g(1) s] j(2) g(2) by (auto intro!: exI [of _ "j + k"])
qed (auto simp: push_all_def intro!: exI [of _ 0])

end

section \<open>An audio queue\<close>

text \<open>
  A bounded first-in first-out queue between the emulation thread and the audio thread.  The
  providers differ in what they do when it is full: the output queues drop the oldest entry, the
  microphone queue refuses the newest.
\<close>

datatype 'f queue_call = QPut 'f | QGet nat

locale audio_queue =
  fixes put :: "'f \<Rightarrow> 'q \<Rightarrow> 'q"
    and get :: "nat \<Rightarrow> 'q \<Rightarrow> 'q \<times> 'f list"
    and fifo :: "'q \<Rightarrow> 'f list"
    and inv :: "'q \<Rightarrow> bool"
    and cap :: nat
  assumes put_inv: "inv q \<Longrightarrow> inv (put x q)"
    and get_inv: "inv q \<Longrightarrow> inv (fst (get n q))"
    and put_room: "inv q \<Longrightarrow> length (fifo q) < cap \<Longrightarrow> fifo (put x q) = fifo q @ [x]"
    and get_out: "inv q \<Longrightarrow> snd (get n q) = take n (fifo q)"
    and get_rest: "inv q \<Longrightarrow> fifo (fst (get n q)) = drop n (fifo q)"
    and put_subseq: "inv q \<Longrightarrow> subseq (fifo (put x q)) (fifo q @ [x])"
    and fifo_cap: "inv q \<Longrightarrow> length (fifo q) \<le> cap"
begin

text \<open>A run of calls: what was put and what was got, in order.\<close>

fun run :: "'f queue_call list \<Rightarrow> 'q \<Rightarrow> 'q \<times> 'f list" where
  "run [] q = (q, [])"
| "run (QPut x # cs) q = run cs (put x q)"
| "run (QGet n # cs) q = (let (q', out) = get n q; (q'', outs) = run cs q' in (q'', out @ outs))"

fun put_all :: "'f queue_call list \<Rightarrow> 'f list" where
  "put_all [] = []"
| "put_all (QPut x # cs) = x # put_all cs"
| "put_all (QGet n # cs) = put_all cs"

lemma run_inv: "inv q \<Longrightarrow> inv (fst (run cs q))"
proof (induction cs q rule: run.induct)
  case (3 n cs q)
  obtain q' out where g: "get n q = (q', out)" by fastforce
  with "3.IH" [OF g [symmetric] refl] get_inv [OF "3.prems", of n] show ?case
    by (cases "run cs q'") (simp add: Let_def)
qed (simp_all add: put_inv)

text \<open>Nothing is reordered, duplicated or made up.\<close>

lemma run_subseq: "inv q \<Longrightarrow> subseq (snd (run cs q) @ fifo (fst (run cs q))) (fifo q @ put_all cs)"
proof (induction cs q rule: run.induct)
  case (2 x cs q)
  have "subseq (fifo (put x q) @ put_all cs) ((fifo q @ [x]) @ put_all cs)"
    by (intro list_emb_append_mono put_subseq "2.prems" subseq_order.order_refl)
  with "2.IH" put_inv [OF "2.prems"] show ?case
    using subseq_order.order_trans by fastforce
next
  case (3 n cs q)
  obtain q' out where g: "get n q = (q', out)" by fastforce
  obtain q'' outs where r: "run cs q' = (q'', outs)" by fastforce
  have q': "inv q'" "out = take n (fifo q)" "fifo q' = drop n (fifo q)"
    using get_inv [OF "3.prems", of n] get_out [OF "3.prems", of n] get_rest [OF "3.prems", of n] g
    by simp_all
  have "subseq (outs @ fifo q'') (fifo q' @ put_all cs)"
    using "3.IH" [OF g [symmetric] refl] q'(1) r by simp
  then have "subseq (out @ outs @ fifo q'') (out @ fifo q' @ put_all cs)"
    by (rule list_emb_append_mono [OF subseq_order.order_refl])
  then show ?case using g r q'(2,3) by (simp add: Let_def flip: append_assoc)
qed simp

text \<open>As long as there is room, nothing is lost either.\<close>

fun roomy :: "'f queue_call list \<Rightarrow> 'q \<Rightarrow> bool" where
  "roomy [] q = True"
| "roomy (QPut x # cs) q = (length (fifo q) < cap \<and> roomy cs (put x q))"
| "roomy (QGet n # cs) q = roomy cs (fst (get n q))"

lemma run_lossless:
  "inv q \<Longrightarrow> roomy cs q \<Longrightarrow> snd (run cs q) @ fifo (fst (run cs q)) = fifo q @ put_all cs"
proof (induction cs q rule: run.induct)
  case (2 x cs q)
  then show ?case by (simp add: put_inv put_room)
next
  case (3 n cs q)
  obtain q' out where g: "get n q = (q', out)" by fastforce
  have q': "inv q'" "out = take n (fifo q)" "fifo q' = drop n (fifo q)"
    using get_inv [OF "3.prems"(1), of n] get_out [OF "3.prems"(1), of n] get_rest [OF "3.prems"(1), of n] g
    by simp_all
  obtain q'' outs where r: "run cs q' = (q'', outs)" by fastforce
  have "outs @ fifo q'' = drop n (fifo q) @ put_all cs"
    using "3.IH" [OF g [symmetric] refl q'(1)] "3.prems"(2) g r q'(3) by simp
  then have "out @ outs @ fifo q'' = fifo q @ put_all cs"
    unfolding q'(2) by (metis append_assoc append_take_drop_id)
  then show ?case by (simp add: Let_def g r)
qed simp

end

locale drop_oldest_queue = audio_queue +
  assumes put_full: "inv q \<Longrightarrow> length (fifo q) = cap \<Longrightarrow> fifo (put x q) = tl (fifo q @ [x])"
begin

lemma put_keep_last: "inv q \<Longrightarrow> fifo (put x q) = keep_last cap (fifo q @ [x])"
  using put_full [of q x] put_room [of q x] fifo_cap [of q]
  by (cases "length (fifo q) = cap") (simp_all add: keep_last_snoc_full)

text \<open>A batch leaves the newest \<open>cap\<close> entries.\<close>

lemma put_batch: "inv q \<Longrightarrow> inv (fold put xs q) \<and> fifo (fold put xs q) = keep_last cap (fifo q @ xs)"
proof (induction xs arbitrary: q)
  case Nil
  then show ?case using fifo_cap [of q] by simp
next
  case (Cons x xs)
  then show ?case using Cons.IH [OF put_inv [OF Cons.prems]]
    by (simp add: put_keep_last keep_last_append)
qed

end

locale drop_newest_queue = audio_queue +
  assumes put_refuse: "inv q \<Longrightarrow> length (fifo q) = cap \<Longrightarrow> fifo (put x q) = fifo q"
begin

lemma put_take: "inv q \<Longrightarrow> fifo (put x q) = take cap (fifo q @ [x])"
  using put_refuse [of q x] put_room [of q x] fifo_cap [of q]
  by (cases "length (fifo q) = cap") simp_all

lemma put_batch: "inv q \<Longrightarrow> inv (fold put xs q) \<and> fifo (fold put xs q) = take cap (fifo q @ xs)"
proof (induction xs arbitrary: q)
  case Nil
  then show ?case using fifo_cap [of q] by simp
next
  case (Cons x xs)
  have "take cap (take cap (fifo q @ [x]) @ xs) = take cap (fifo q @ x # xs)"
    by (simp add: take_take_append del: take_append)
  with Cons.IH [OF put_inv [OF Cons.prems]] Cons.prems show ?case by (simp add: put_take del: take_append)
qed

end

section \<open>Save states\<close>

text \<open>
  What the session expects of a core's save states: a state saved by a core, or one that failed to
  load, can be put back.  \<open>view\<close> is what a state restores and \<open>ready\<close> holds of a core with a game
  running; it survives a load, also a failed one.
\<close>

locale save_states =
  fixes save :: "'c \<Rightarrow> 'b option"
    and load :: "'b \<Rightarrow> 'c \<Rightarrow> 'c \<times> bool"
    and ready :: "'c \<Rightarrow> 'g \<Rightarrow> bool"
    and view :: "'c \<Rightarrow> 'v"
  assumes load_ready: "ready c g \<Longrightarrow> ready (fst (load b c)) g"
    and load_saved: "ready c g \<Longrightarrow> ready c' g \<Longrightarrow> save c = Some b \<Longrightarrow>
      snd (load b c') \<and> view (fst (load b c')) = view c"
begin

text \<open>Whatever was tried in between, loading the state saved before puts the core back.\<close>

lemma put_back:
  assumes "ready c g" "save c = Some b"
  shows "snd (load b (fold (\<lambda>d c. fst (load d c)) ds c)) \<and>
    view (fst (load b (fold (\<lambda>d c. fst (load d c)) ds c))) = view c"
proof -
  have "ready (fold (\<lambda>d c. fst (load d c)) ds c') g" if "ready c' g" for c'
    using that by (induction ds arbitrary: c') (simp_all add: load_ready)
  with assms show ?thesis using load_saved by blast
qed

end

end
