(* ===== verification/Rewind.thy ===== *)
theory Rewind
  imports Interfaces
begin

text \<open>
  The rewind history, \<^verbatim>\<open>RewindBuffer.h\<close> and \<^verbatim>\<open>RewindBuffer.cpp\<close>: the newest snapshot is kept
  whole, every older one as the compressed XOR of the 4 KB pages in which it differs from its
  successor.

  LZ4 is a library the code only calls: it is the parameter \<open>lz4\<close>, and what the code relies
  on (its documented contract) is \<open>lz4_ok\<close>.  The member \<^verbatim>\<open>scratch\<close> is an allocation kept between calls
  whose content is dead outside a call, so it is a local value here.
\<close>

section \<open>State\<close>

definition kPage :: nat where
  "kPage = 4096"

record delta =
  d_pages :: "u32 list"
  d_packed :: bytes
  d_packedRaw :: nat
  d_rawSize :: nat

record rewind_buffer =
  rb_latest :: bytes
  rb_deltas :: "delta list"
  rb_used :: nat
  rb_budget :: nat

definition rb_new :: rewind_buffer where
  "rb_new = \<lparr>rb_latest = [], rb_deltas = [], rb_used = 0,
     rb_budget = 512 * 1024 * 1024\<rparr>"

text \<open>
  The compressor: \<open>lz_compress src srcSize dstCapacity\<close> is the written bytes, empty when the
  library returns 0 or less; \<open>lz_decompress src srcSize dstCapacity\<close> is the decoded bytes, or
  \<open>None\<close> when the library returns a negative number.
\<close>

record lz4 =
  lz_compress :: "bytes \<Rightarrow> int \<Rightarrow> int \<Rightarrow> bytes"
  lz_decompress :: "bytes \<Rightarrow> int \<Rightarrow> int \<Rightarrow> bytes option"

definition lz4_max_input :: int where
  "lz4_max_input = 0x7E000000"

definition lz4_compressBound :: "int \<Rightarrow> int" where
  "lz4_compressBound n = (if n < 0 \<or> lz4_max_input < n then 0 else n + n div 255 + 16)"

text \<open>What lz4.h documents of the two functions.\<close>

definition lz4_ok :: "lz4 \<Rightarrow> bool" where
  "lz4_ok lz \<longleftrightarrow>
     (\<forall>src n cap. n = int (length src) \<longrightarrow> lz_compress lz src n cap \<noteq> [] \<longrightarrow>
        lz_decompress lz (lz_compress lz src n cap) (int (length (lz_compress lz src n cap))) n
          = Some src \<and> int (length (lz_compress lz src n cap)) \<le> cap)"

section \<open>Operations\<close>

text \<open>\<open>XorInto\<close> works on 64 bit words read through reinterpreted pointers, then on the tail.\<close>

definition load64 :: "bytes \<Rightarrow> u64" where
  "load64 bs = horner_sum of_bool 2 (concat (map (\<lambda>b. map (bit b) [0..<8]) bs))"

definition store64 :: "u64 \<Rightarrow> bytes" where
  "store64 w = map (\<lambda>i. ucast (drop_bit (8 * i) w)) [0..<8]"

definition XorInto :: "bytes \<Rightarrow> bytes \<Rightarrow> nat \<Rightarrow> bytes" where
  "XorInto a b len =
     concat (map (\<lambda>i. store64 (load64 (segment a (8 * i) 8) XOR load64 (segment b (8 * i) 8)))
       [0..<len div 8])
     @ map (\<lambda>i. a ! i XOR b ! i) [len div 8 * 8..<len]"

definition rb_Clear :: "rewind_buffer \<Rightarrow> rewind_buffer" where
  "rb_Clear rb = rb\<lparr>rb_latest := [], rb_deltas := [], rb_used := 0\<rparr>"

definition rb_SetBudget :: "nat \<Rightarrow> rewind_buffer \<Rightarrow> rewind_buffer" where
  "rb_SetBudget n rb = rb\<lparr>rb_budget := n\<rparr>"

definition rb_Count :: "rewind_buffer \<Rightarrow> nat" where
  "rb_Count rb = length (rb_deltas rb) + (if rb_latest rb = [] then 0 else 1)"

definition rb_MemoryUsed :: "rewind_buffer \<Rightarrow> nat" where
  "rb_MemoryUsed rb = rb_used rb + length (rb_latest rb)"

text \<open>One iteration of the page loop of \<open>Push\<close>: changed pages, scratch buffer, \<open>latest\<close>.\<close>

definition push_page :: "bytes \<Rightarrow> nat \<Rightarrow> u32 list \<times> bytes \<times> bytes \<Rightarrow> nat \<Rightarrow> u32 list \<times> bytes \<times> bytes" where
  "push_page state len acc p =
     (case acc of (pages, scratch, latest) \<Rightarrow>
        let off = p * kPage; n = min kPage (len - off) in
        if segment state off n = segment latest off n then (pages, scratch, latest)
        else (pages @ [word_of_nat p],
              scratch @ XorInto (segment state off n) (segment latest off n) n,
              splice latest off (segment state off n)))"

definition delta_size :: "delta \<Rightarrow> nat" where
  "delta_size d = length (d_packed d) + length (d_pages d) * 4"

text \<open>The trimming loop: drop the oldest deltas until the budget is met.\<close>

fun rb_trim :: "nat \<Rightarrow> nat \<Rightarrow> nat \<Rightarrow> delta list \<Rightarrow> nat \<times> delta list" where
  "rb_trim lat budget used [] = (used, [])"
| "rb_trim lat budget used (d # ds) =
     (if used + lat > budget then rb_trim lat budget (used - delta_size d) ds
      else (used, d # ds))"

definition rb_Push :: "lz4 \<Rightarrow> bytes \<Rightarrow> nat \<Rightarrow> rewind_buffer \<Rightarrow> rewind_buffer" where
  "rb_Push lz state len rb0 =
     (let rb = (if rb_latest rb0 \<noteq> [] \<and> length (rb_latest rb0) \<noteq> len then rb_Clear rb0 else rb0) in
      if rb_latest rb = [] then rb\<lparr>rb_latest := take len state\<rparr>
      else
        let pages = (len + kPage - 1) div kPage;
            (pgs, scratch, latest) = foldl (push_page state len) ([], [], rb_latest rb) [0..<pages];
            packed = (if pgs = [] then []
                      else lz_compress lz scratch (c_int (length scratch))
                             (c_int (nat (lz4_compressBound (c_int (length scratch))))));
            rb1 = rb\<lparr>rb_latest := latest\<rparr>
        in if pgs \<noteq> [] \<and> packed = [] then (rb_Clear rb1)\<lparr>rb_latest := take len state\<rparr>
           else
             let d = \<lparr>d_pages = pgs, d_packed = packed, d_packedRaw = length scratch, d_rawSize = len\<rparr>;
                 (used, ds) = rb_trim (length latest) (rb_budget rb) (rb_used rb + delta_size d)
                                (rb_deltas rb @ [d])
             in rb1\<lparr>rb_deltas := ds, rb_used := used\<rparr>)"

text \<open>One iteration of the loop of \<open>Pop\<close>: position in the scratch buffer, \<open>latest\<close>.\<close>

definition pop_page :: "bytes \<Rightarrow> nat \<times> bytes \<Rightarrow> u32 \<Rightarrow> nat \<times> bytes" where
  "pop_page scratch acc p =
     (case acc of (pos, latest) \<Rightarrow>
        let off = unat p * kPage; len = min kPage (length latest - off) in
        (pos + len, splice latest off (XorInto (segment latest off len) (segment scratch pos len) len)))"

text \<open>The state that precedes \<open>latest\<close>, or \<open>None\<close> when the delta cannot be unpacked.\<close>

definition unpack_delta :: "lz4 \<Rightarrow> bytes \<Rightarrow> delta \<Rightarrow> bytes option" where
  "unpack_delta lz latest d =
     (if d_pages d = [] then Some latest
      else case lz_decompress lz (d_packed d) (c_int (length (d_packed d))) (c_int (d_packedRaw d)) of
             None \<Rightarrow> None
           | Some raw \<Rightarrow>
               if int (length raw) \<noteq> c_int (d_packedRaw d) then None
               else Some (snd (foldl (pop_page raw) (0, latest) (d_pages d))))"

definition rb_Pop :: "lz4 \<Rightarrow> rewind_buffer \<Rightarrow> rewind_buffer \<times> bytes option" where
  "rb_Pop lz rb =
     (if rb_deltas rb = [] then (rb, None)
      else let d = last (rb_deltas rb) in
        case unpack_delta lz (rb_latest rb) d of
          None \<Rightarrow> (rb_Clear rb, None)
        | Some older \<Rightarrow>
            (rb\<lparr>rb_latest := older, rb_used := rb_used rb - delta_size d,
               rb_deltas := butlast (rb_deltas rb)\<rparr>, Some older))"

section \<open>Correctness\<close>

subsection \<open>The word-wise XOR is the byte-wise XOR\<close>

lemma bit_load64:
  assumes "length bs = 8"
  shows "bit (load64 bs) n \<longleftrightarrow> n < 64 \<and> bit (bs ! (n div 8)) (n mod 8)"
proof -
  obtain a b c d e f g h where bs: "bs = [a, b, c, d, e, f, g, h]"
    using assms by (auto simp: length_Suc_conv eval_nat_numeral)
  have "n < 64 \<Longrightarrow> concat (map (\<lambda>b. map (bit b) [0..<8]) bs) ! n = bit (bs ! (n div 8)) (n mod 8)"
    for n
  proof -
    have len: "length (concat (map (\<lambda>b. map (bit b) [0..<8]) xs)) = 8 * length xs" for xs :: bytes
      by (induction xs) auto
    have "n < 8 * length xs \<Longrightarrow>
       concat (map (\<lambda>b. map (bit b) [0..<8]) xs) ! n = bit (xs ! (n div 8)) (n mod 8)" for xs :: bytes
    proof (induction xs arbitrary: n)
      case (Cons x xs)
      show ?case
      proof (cases "n < 8")
        case True
        then show ?thesis by (simp add: nth_append)
      next
        case False
        then have "n div 8 = Suc ((n - 8) div 8)" "(n - 8) mod 8 = n mod 8"
          by (auto simp: le_div_geq le_mod_geq not_less)
        with False Cons show ?thesis by (simp add: nth_append)
      qed
    qed simp
    then show "n < 64 \<Longrightarrow> ?thesis" using assms by simp
  qed
  moreover have "length (concat (map (\<lambda>b. map (bit b) [0..<8]) bs)) = 64"
    by (simp add: bs)
  ultimately show ?thesis
    by (auto simp: load64_def bit_horner_sum_bit_word_iff)
qed

lemma store64_xor_load64:
  assumes "length xs = 8" "length ys = 8"
  shows "store64 (load64 xs XOR load64 ys) = map2 (XOR) xs ys"
proof (rule nth_equalityI)
  show "length (store64 (load64 xs XOR load64 ys)) = length (map2 (XOR) xs ys)"
    using assms by (simp add: store64_def)
  fix i assume "i < length (store64 (load64 xs XOR load64 ys))"
  then have i: "i < 8" by (simp add: store64_def)
  show "store64 (load64 xs XOR load64 ys) ! i = map2 (XOR) xs ys ! i"
  proof (rule bit_word_eqI)
    fix n :: nat assume "n < LENGTH(8)"
    then have n: "n < 8" by simp
    then have "(8 * i + n) div 8 = i" "(8 * i + n) mod 8 = n" "8 * i + n < 64"
      using i by auto
    with n i assms show "bit (store64 (load64 xs XOR load64 ys) ! i) n = bit (map2 (XOR) xs ys ! i) n"
      by (simp add: store64_def bit_simps bit_load64)
  qed
qed

theorem XorInto_eq:
  assumes "len \<le> length a" "len \<le> length b"
  shows "XorInto a b len = map2 (XOR) (take len a) (take len b)"
proof -
  define f where "f = (\<lambda>i. store64 (load64 (segment a (8 * i) 8) XOR load64 (segment b (8 * i) 8)))"
  define m where "m = len div 8"
  have m8: "m * 8 \<le> len" by (simp add: m_def)
  have sl: "8 * i + 8 \<le> len" if "i < m" for i
    using that m8 by linarith
  have lf: "length (f i) = 8" for i
    by (simp add: f_def store64_def)
  have fi: "f i = map2 (XOR) (segment a (8 * i) 8) (segment b (8 * i) 8)" if "i < m" for i
    using sl [OF that] assms by (simp add: f_def store64_xor_load64)
  have len: "length (concat (map f [0..<m])) = m * 8"
    using lf by (rule length_concat_chunks)
  have X: "XorInto a b len = concat (map f [0..<m]) @ map (\<lambda>i. a ! i XOR b ! i) [m * 8..<len]"
    by (simp add: XorInto_def f_def m_def)
  show ?thesis
  proof (rule nth_equalityI)
    show "length (XorInto a b len) = length (map2 (XOR) (take len a) (take len b))"
      using assms m8 len by (simp add: X)
    fix n assume "n < length (XorInto a b len)"
    then have n: "n < len" using m8 len by (simp add: X)
    show "XorInto a b len ! n = map2 (XOR) (take len a) (take len b) ! n"
    proof (cases "n < m * 8")
      case True
      then have q: "n div 8 < m" by (simp add: less_mult_imp_div_less)
      have "XorInto a b len ! n = f (n div 8) ! (n mod 8)"
        using True lf len by (simp add: X nth_append nth_concat_chunks)
      also have "\<dots> = a ! n XOR b ! n"
        using sl [OF q] assms by (simp add: fi [OF q] nth_segment)
      finally show ?thesis using n assms by simp
    next
      case False
      have "[m * 8..<len] ! (n - m * 8) = n"
        using False n by (subst nth_upt) auto
      with False n assms len show ?thesis by (simp add: X nth_append)
    qed
  qed
qed

lemma length_XorInto [simp]:
  "len \<le> length a \<Longrightarrow> len \<le> length b \<Longrightarrow> length (XorInto a b len) = len"
  by (simp add: XorInto_eq)

lemma map2_xor_cancel:
  "length xs = length ys \<Longrightarrow> map2 (XOR) xs (map2 (XOR) xs ys) = (ys :: bytes)"
  by (induction xs ys rule: list_induct2) (simp_all flip: xor.assoc)

text \<open>XOR with the stored difference restores the older page.\<close>

lemma XorInto_undo:
  assumes "length s = n" "length l = n" "length pre = pos"
  shows "XorInto s (segment (pre @ XorInto s l n @ post) pos n) n = l"
proof -
  have "segment (pre @ XorInto s l n @ post) pos n = XorInto s l n"
    using assms by (intro segment_mid) auto
  with assms show ?thesis by (simp add: XorInto_eq map2_xor_cancel)
qed

subsection \<open>The page loops\<close>

lemma kPage_pos [simp]: "0 < kPage"
  by (simp add: kPage_def)

lemma page_bounds:
  assumes "p < (len + kPage - 1) div kPage"
  shows "p * kPage < len"
proof -
  have "Suc p * kPage \<le> (len + kPage - 1) div kPage * kPage"
    using assms by (intro mult_le_mono1) simp
  also have "\<dots> \<le> len + kPage - 1" by (rule div_times_less_eq_dividend)
  finally have "p * kPage + kPage \<le> len + kPage - 1" by simp
  then show ?thesis using kPage_pos by linarith
qed

text \<open>
  The loop invariant of \<open>Push\<close> at offset \<open>k\<close>: below \<open>k\<close> the buffer already holds the new state
  \<open>s\<close>, above it still the old state \<open>l\<close>; and running the loop of \<open>Pop\<close> over the pages collected
  so far turns the new state back into the old one below \<open>k\<close>.
\<close>

definition push_inv :: "bytes \<Rightarrow> bytes \<Rightarrow> nat \<Rightarrow> u32 list \<times> bytes \<times> bytes \<Rightarrow> bool" where
  "push_inv s l k acc \<longleftrightarrow>
     (case acc of (pgs, scr, lat) \<Rightarrow>
        k \<le> length s \<and> lat = take k s @ drop k l \<and> length scr \<le> k \<and>
        (\<forall>post Y. length Y = length s - k \<longrightarrow>
           foldl (pop_page (scr @ post)) (0, take k s @ Y) pgs = (length scr, take k l @ Y)))"

lemma push_page_step:
  assumes inv: "push_inv s l (p * kPage) acc"
    and len: "length s = length l" and p: "p * kPage < length s" "p < 2 ^ 32"
  shows "push_inv s l (min (Suc p * kPage) (length s)) (push_page s (length s) acc p)"
proof -
  define off where "off = p * kPage"
  define n where "n = min kPage (length s - off)"
  obtain pgs scr lat where acc: "acc = (pgs, scr, lat)" by (cases acc)
  have q: "min (Suc p * kPage) (length s) = off + n" "off + n \<le> length s" "off < length s"
    using p by (auto simp: off_def n_def)
  have lat: "lat = take off s @ drop off l" and scr: "length scr \<le> off"
    and pop: "\<And>post Y. length Y = length s - off \<Longrightarrow>
       foldl (pop_page (scr @ post)) (0, take off s @ Y) pgs = (length scr, take off l @ Y)"
    using inv by (auto simp: push_inv_def acc off_def)
  have split: "take (off + n) xs = take off xs @ segment xs off n" for xs :: bytes
    by (metis add_diff_cancel_left' le_add1 take_drop_split)
  have sl: "segment lat off n = segment l off n"
    using q len by (simp add: lat segment_def)
  have lens: "length (segment s off n) = n" "length (segment l off n) = n"
    using q len by simp_all
  let ?x = "XorInto (segment s off n) (segment l off n) n"
  show ?thesis
  proof (cases "segment s off n = segment l off n")
    case True
    then have "push_page s (length s) acc p = acc"
      using sl by (simp add: push_page_def acc Let_def flip: off_def n_def)
    moreover have "lat = take (off + n) s @ drop (off + n) l"
      using True by (simp add: lat split drop_segment_split [of off l n])
    moreover have "foldl (pop_page (scr @ post)) (0, take (off + n) s @ Y) pgs
        = (length scr, take (off + n) l @ Y)" if "length Y = length s - (off + n)" for post Y
      using pop [of "segment s off n @ Y" post] that q lens True by (simp add: split)
    ultimately show ?thesis
      using q scr by (simp add: push_inv_def acc del: add_leD1)
  next
    case False
    have "splice lat off (segment s off n) = take off s @ segment s off n @ drop (n + off) l"
      using q lens by (simp add: lat splice_def)
    then have "splice lat off (segment s off n) = take (off + n) s @ drop (off + n) l"
      by (simp add: split add.commute [of n])
    with False have step: "push_page s (length s) acc p
        = (pgs @ [word_of_nat p], scr @ ?x, take (off + n) s @ drop (off + n) l)"
      using sl by (simp add: push_page_def acc Let_def flip: off_def n_def)
    have up: "unat (word_of_nat p :: 32 word) = p"
      using p(2) by (simp add: unat_of_nat)
    have "foldl (pop_page ((scr @ ?x) @ post)) (0, take (off + n) s @ Y) (pgs @ [word_of_nat p])
        = (length (scr @ ?x), take (off + n) l @ Y)" if Y: "length Y = length s - (off + n)" for post Y
    proof -
      have "foldl (pop_page (scr @ (?x @ post))) (0, take off s @ (segment s off n @ Y)) pgs
          = (length scr, take off l @ segment s off n @ Y)"
        using pop [of "segment s off n @ Y" "?x @ post"] Y q lens by simp
      moreover have "min kPage (length (take off l @ segment s off n @ Y) - off) = n"
        using Y q len lens by (simp add: n_def)
      moreover have "segment (take off l @ segment s off n @ Y) off n = segment s off n"
        using q len lens by (intro segment_mid) auto
      moreover have "splice (take off l @ segment s off n @ Y) off (segment l off n)
          = take off l @ segment l off n @ Y"
        using q len lens by (intro splice_mid) auto
      ultimately show ?thesis
        using lens XorInto_undo [of "segment s off n" n "segment l off n" scr "length scr" post]
        by (simp add: pop_page_def up split flip: off_def)
    qed
    moreover have "length (scr @ ?x) \<le> off + n"
      using scr lens by simp
    ultimately show ?thesis
      using q by (simp add: push_inv_def step)
  qed
qed

lemma push_loop_inv:
  assumes len: "length s = length l" and small: "length s < 2 ^ 32"
    and p: "p \<le> (length s + kPage - 1) div kPage"
  shows "push_inv s l (min (p * kPage) (length s))
           (foldl (push_page s (length s)) ([], [], l) [0..<p])"
  using p
proof (induction p)
  case 0
  then show ?case by (simp add: push_inv_def)
next
  case (Suc p)
  then have lt: "p * kPage < length s" by (intro page_bounds) simp
  moreover have "p \<le> p * kPage" by (simp add: kPage_def)
  ultimately have "p < 2 ^ 32" using small by linarith
  with Suc lt have "push_inv s l (p * kPage) (foldl (push_page s (length s)) ([], [], l) [0..<p])"
    by (simp add: min_def split: if_splits)
  from push_page_step [OF this len lt \<open>p < 2 ^ 32\<close>] show ?case by simp
qed

lemma push_loop:
  assumes len: "length s = length l" and small: "length s < 2 ^ 32"
    and fold: "foldl (push_page s (length s)) ([], [], l) [0..<(length s + kPage - 1) div kPage]
      = (pgs, scr, lat)"
  shows "lat = s" "length scr \<le> length s" "foldl (pop_page scr) (0, s) pgs = (length scr, l)"
proof -
  let ?P = "(length s + kPage - 1) div kPage"
  have "length s \<le> ?P * kPage"
    using div_mult_mod_eq [of "length s + kPage - 1" kPage]
      mod_less_divisor [of kPage "length s + kPage - 1"] kPage_pos by linarith
  then have "push_inv s l (length s) (pgs, scr, lat)"
    using push_loop_inv [OF len small, of ?P] fold by simp
  then show "lat = s" "length scr \<le> length s" "foldl (pop_page scr) (0, s) pgs = (length scr, l)"
    using len by (auto simp: push_inv_def dest: spec [of _ "[]"])
qed

subsection \<open>The history a buffer stands for\<close>

text \<open>
  Unpacking from the newest delta backwards: the stored states, newest first, or \<open>None\<close> when a
  delta cannot be unpacked.
\<close>

fun rb_chain :: "lz4 \<Rightarrow> bytes \<Rightarrow> delta list \<Rightarrow> bytes list option" where
  "rb_chain lz lat [] = Some [lat]"
| "rb_chain lz lat (d # ds) =
     (case unpack_delta lz lat d of
        None \<Rightarrow> None
      | Some older \<Rightarrow> map_option (Cons lat) (rb_chain lz older ds))"

text \<open>The abstraction: the snapshots that can still be restored, oldest first.\<close>

definition rb_history :: "lz4 \<Rightarrow> rewind_buffer \<Rightarrow> bytes list" where
  "rb_history lz rb =
     (if rb_latest rb = [] then []
      else case rb_chain lz (rb_latest rb) (rev (rb_deltas rb)) of None \<Rightarrow> [] | Some h \<Rightarrow> rev h)"

definition rb_inv :: "lz4 \<Rightarrow> rewind_buffer \<Rightarrow> bool" where
  "rb_inv lz rb \<longleftrightarrow>
     lz4_ok lz \<and> rb_used rb = sum_list (map delta_size (rb_deltas rb)) \<and>
     length (rb_latest rb) < 2 ^ 31 \<and> (rb_latest rb = [] \<longrightarrow> rb_deltas rb = []) \<and>
     (case rb_chain lz (rb_latest rb) (rev (rb_deltas rb)) of
        None \<Rightarrow> False
      | Some h \<Rightarrow> \<forall>s \<in> set h. length s = length (rb_latest rb))"

lemma rb_chain_not_Nil: "rb_chain lz lat ds = Some h \<Longrightarrow> h \<noteq> [] \<and> hd h = lat"
  by (cases ds) (auto split: option.splits)

lemma length_rb_chain: "rb_chain lz lat ds = Some h \<Longrightarrow> length h = Suc (length ds)"
  by (induction ds arbitrary: lat h) (auto split: option.splits)

text \<open>Forgetting the oldest deltas forgets the oldest states and nothing else.\<close>

lemma rb_chain_take:
  "rb_chain lz lat ds = Some h \<Longrightarrow> rb_chain lz lat (take k ds) = Some (take (Suc k) h)"
proof (induction ds arbitrary: lat h k)
  case (Cons d ds)
  then show ?case
    using rb_chain_not_Nil [of lz lat "[]"]
    by (cases k) (fastforce split: option.splits)+
qed auto

lemma rb_trim_spec:
  assumes "u = sum_list (map delta_size ds)"
  shows "\<exists>k \<le> length ds. rb_trim l b u ds = (sum_list (map delta_size (drop k ds)), drop k ds) \<and>
    (\<forall>j < k. b < sum_list (map delta_size (drop j ds)) + l) \<and>
    (sum_list (map delta_size (drop k ds)) + l \<le> b \<or> drop k ds = [])"
  using assms
proof (induction ds arbitrary: u)
  case (Cons d ds)
  show ?case
  proof (cases "b < u + l")
    case True
    have "u - delta_size d = sum_list (map delta_size ds)" using Cons.prems by simp
    from Cons.IH [OF this] obtain k where k: "k \<le> length ds"
      "rb_trim l b (u - delta_size d) ds = (sum_list (map delta_size (drop k ds)), drop k ds)"
      "\<forall>j < k. b < sum_list (map delta_size (drop j ds)) + l"
      "sum_list (map delta_size (drop k ds)) + l \<le> b \<or> drop k ds = []" by blast
    have "\<forall>j < Suc k. b < sum_list (map delta_size (drop j (d # ds))) + l"
      using k(3) True Cons.prems by (auto simp: less_Suc_eq_0_disj)
    with k True show ?thesis by (intro exI [of _ "Suc k"]) simp
  next
    case False
    with Cons.prems show ?thesis by (intro exI [of _ 0]) simp
  qed
qed simp

lemma push_page_take: "push_page (take len st) len acc p = push_page st len acc p"
proof -
  have "segment (take len st) (p * kPage) (min kPage (len - p * kPage))
      = segment st (p * kPage) (min kPage (len - p * kPage))"
    by (simp add: segment_def drop_take min_def)
  then show ?thesis by (simp add: push_page_def Let_def split: prod.splits)
qed

lemma rb_inv_Clear: "rb_inv lz rb \<Longrightarrow> rb_inv lz (rb_Clear rb)"
  by (simp add: rb_inv_def rb_Clear_def)

lemma rb_inv_single:
  "lz4_ok lz \<Longrightarrow> length st < 2 ^ 31 \<Longrightarrow> rb_inv lz ((rb_Clear rb)\<lparr>rb_latest := st\<rparr>)"
  by (simp add: rb_inv_def rb_Clear_def)

lemma rb_history_Clear [simp]: "rb_history lz (rb_Clear rb) = []"
  by (simp add: rb_history_def rb_Clear_def)

lemma rb_history_single:
  "st \<noteq> [] \<Longrightarrow> rb_history lz ((rb_Clear rb)\<lparr>rb_latest := st\<rparr>) = [st]"
  by (simp add: rb_history_def rb_Clear_def)

subsection \<open>Push and Pop\<close>

lemma unpack_of_push:
  assumes lz: "lz4_ok lz" and len: "length s = length l" and small: "length s < 2 ^ 31"
    and fold: "foldl (push_page s (length s)) ([], [], l) [0..<(length s + kPage - 1) div kPage]
      = (pgs, scr, lat)"
    and packed: "pgs \<noteq> [] \<Longrightarrow> packed = lz_compress lz scr (c_int (length scr)) (c_int cap)"
    and ok: "pgs \<noteq> [] \<Longrightarrow> packed \<noteq> []"
  shows "unpack_delta lz s \<lparr>d_pages = pgs, d_packed = packed, d_packedRaw = length scr, d_rawSize = n\<rparr>
    = Some l"
proof -
  have "length s < 2 ^ 32" using small by simp
  note loop = push_loop [OF len this fold]
  show ?thesis
  proof (cases "pgs = []")
    case True
    with loop(3) small show ?thesis by (simp add: unpack_delta_def)
  next
    case False
    have scr: "c_int (length scr) = int (length scr)"
      using loop(2) small by (intro c_int_small) linarith
    have "lz_decompress lz packed (int (length packed)) (int (length scr)) = Some scr \<and>
        int (length packed) \<le> c_int cap"
      using lz packed [OF False] ok [OF False] by (auto simp: lz4_ok_def scr)
    moreover from this have "int (length packed) < 2 ^ 31"
      using c_int_less [of cap] by linarith
    then have "c_int (length packed) = int (length packed)"
      by (intro c_int_small) simp
    ultimately show ?thesis
      using False loop(3) small by (simp add: unpack_delta_def scr)
  qed
qed

text \<open>What \<open>Push\<close> does when the new state has the size of the newest one.\<close>

lemma rb_Push_same_cases:
  assumes inv: "rb_inv lz rb" and len: "len \<le> length data" "len < 2 ^ 31"
    and same: "rb_latest rb \<noteq> []" "length (rb_latest rb) = len"
  obtains (failed) "rb_Push lz data len rb = (rb_Clear rb)\<lparr>rb_latest := take len data\<rparr>"
  | (stored) d used ds where
      "unpack_delta lz (take len data) d = Some (rb_latest rb)"
      "rb_trim len (rb_budget rb) (rb_used rb + delta_size d) (rb_deltas rb @ [d]) = (used, ds)"
      "rb_Push lz data len rb = rb\<lparr>rb_latest := take len data, rb_deltas := ds, rb_used := used\<rparr>"
proof -
  define st where "st = take len data"
  have st: "length st = length (rb_latest rb)" "length st = len"
    using len same by (simp_all add: st_def)
  have pp: "push_page data len = push_page st len"
    using push_page_take [of len data] by (simp add: fun_eq_iff st_def)
  obtain pgs scr lat where fold:
    "foldl (push_page st (length st)) ([], [], rb_latest rb) [0..<(length st + kPage - 1) div kPage]
      = (pgs, scr, lat)"
    by (metis prod_cases3)
  have lat: "lat = st"
    using push_loop(1) [OF st(1) _ fold] len(2) st(2) by simp
  let ?cap = "nat (lz4_compressBound (c_int (length scr)))"
  define packed where "packed = (if pgs = [] then []
    else lz_compress lz scr (c_int (length scr)) (c_int ?cap))"
  let ?d = "\<lparr>d_pages = pgs, d_packed = packed, d_packedRaw = length scr, d_rawSize = len\<rparr>"
  show thesis
  proof (cases "pgs \<noteq> [] \<and> packed = []")
    case True
    then have pgs: "pgs \<noteq> []" and fail: "lz_compress lz scr (c_int (length scr)) (c_int ?cap) = []"
      by (auto simp: packed_def)
    have "rb_Push lz data len rb = (rb_Clear rb)\<lparr>rb_latest := take len data\<rparr>"
      using same fold st(2) pgs fail unfolding rb_Push_def Let_def pp
      by (simp add: rb_Clear_def)
    then show thesis by (rule failed)
  next
    case False
    obtain used ds where tr:
      "rb_trim len (rb_budget rb) (rb_used rb + delta_size ?d) (rb_deltas rb @ [?d]) = (used, ds)"
      by fastforce
    have "unpack_delta lz st ?d = Some (rb_latest rb)"
      using inv len(2) st False fold
      by (intro unpack_of_push [where lat = lat and cap = "?cap"])
        (auto simp: rb_inv_def packed_def)
    moreover have "rb_Push lz data len rb = rb\<lparr>rb_latest := st, rb_deltas := ds, rb_used := used\<rparr>"
      using same fold st(2) False tr lat unfolding rb_Push_def Let_def pp
      by (auto simp: packed_def)
    ultimately show thesis
      using tr by (intro stored [of ?d used ds]) (simp_all add: st_def)
  qed
qed

lemma rb_Push_fresh:
  assumes "rb_latest rb = [] \<or> length (rb_latest rb) \<noteq> len" "rb_inv lz rb"
  shows "rb_Push lz data len rb = (rb_Clear rb)\<lparr>rb_latest := take len data\<rparr>"
  using assms by (auto simp: rb_Push_def rb_Clear_def rb_inv_def Let_def)

lemma rb_inv_pushed:
  assumes inv: "rb_inv lz rb" and lat: "rb_latest rb \<noteq> []"
    and st: "length st = length (rb_latest rb)"
    and unpack: "unpack_delta lz st d = Some (rb_latest rb)"
    and trim: "rb_trim l b (rb_used rb + delta_size d) (rb_deltas rb @ [d]) = (used, ds)"
  shows "rb_inv lz (rb\<lparr>rb_latest := st, rb_deltas := ds, rb_used := used\<rparr>)" (is ?inv)
    and "\<exists>k \<le> length (rb_history lz rb).
      rb_history lz (rb\<lparr>rb_latest := st, rb_deltas := ds, rb_used := used\<rparr>)
        = drop k (rb_history lz rb @ [st])" (is ?hist)
    and "used + l \<le> b \<or> ds = []" (is ?budget)
proof -
  obtain h where h: "rb_chain lz (rb_latest rb) (rev (rb_deltas rb)) = Some h"
    "\<forall>s \<in> set h. length s = length (rb_latest rb)"
    using inv by (auto simp: rb_inv_def split: option.splits)
  have used: "rb_used rb + delta_size d = sum_list (map delta_size (rb_deltas rb @ [d]))"
    using inv by (simp add: rb_inv_def)
  from rb_trim_spec [OF used, of l b] trim obtain k where
    k: "k \<le> Suc (length (rb_deltas rb))" "ds = drop k (rb_deltas rb @ [d])"
      "used = sum_list (map delta_size ds)" "used + l \<le> b \<or> ds = []" by auto
  then show ?budget by simp
  have "rb_chain lz st (rev (rb_deltas rb @ [d])) = Some (st # h)"
    using unpack h(1) by simp
  moreover have "rev ds = take (Suc (length (rb_deltas rb)) - k) (rev (rb_deltas rb @ [d]))"
    unfolding k(2) rev_drop by simp
  ultimately have chain: "rb_chain lz st (rev ds)
      = Some (take (Suc (Suc (length (rb_deltas rb)) - k)) (st # h))"
    by (simp only: rb_chain_take)
  have lh: "length h = Suc (length (rb_deltas rb))"
    using length_rb_chain [OF h(1)] by simp
  have st_ne: "st \<noteq> []" using st lat by auto
  show ?inv
    using inv st st_ne h(2) k(3) chain by (auto simp: rb_inv_def dest: in_set_takeD)
  have "rb_history lz rb = rev h" using lat h(1) by (simp add: rb_history_def)
  moreover have "rb_history lz (rb\<lparr>rb_latest := st, rb_deltas := ds, rb_used := used\<rparr>)
      = rev (take (Suc (Suc (length (rb_deltas rb)) - k)) (st # h))"
    using st_ne chain by (simp add: rb_history_def)
  moreover have "rev (take (Suc (Suc (length (rb_deltas rb)) - k)) (st # h)) = drop k (rev h @ [st])"
    using k(1) lh by (simp add: rev_take Suc_diff_le)
  ultimately show ?hist
    using k(1) lh by (intro exI [of _ k]) simp
qed

lemma rb_Push_correct:
  assumes inv: "rb_inv lz rb" and len: "len \<le> length data" "len < 2 ^ 31" "0 < len"
  shows "rb_inv lz (rb_Push lz data len rb)"
    and "\<exists>k \<le> length (rb_history lz rb).
      rb_history lz (rb_Push lz data len rb) = drop k (rb_history lz rb @ [take len data])"
    and "rb_MemoryUsed (rb_Push lz data len rb) \<le> rb_budget rb \<or>
      rb_deltas (rb_Push lz data len rb) = []"
proof -
  define st where "st = take len data"
  have st: "length st = len" "st \<noteq> []" using len by (auto simp: st_def)
  let ?r = "(rb_Clear rb)\<lparr>rb_latest := st\<rparr>"
  have "rb_inv lz ?r"
    using inv st len(2) by (intro rb_inv_single) (auto simp: rb_inv_def)
  moreover have "rb_history lz ?r = drop (length (rb_history lz rb)) (rb_history lz rb @ [st])"
    using st by (simp add: rb_history_single)
  moreover have "rb_deltas ?r = []" by (simp add: rb_Clear_def)
  ultimately have reset: "rb_inv lz ?r" "rb_deltas ?r = []"
    "rb_history lz ?r = drop (length (rb_history lz rb)) (rb_history lz rb @ [st])" by blast+
  have "rb_inv lz (rb_Push lz data len rb) \<and>
    (\<exists>k \<le> length (rb_history lz rb). rb_history lz (rb_Push lz data len rb) = drop k (rb_history lz rb @ [st])) \<and>
    (rb_MemoryUsed (rb_Push lz data len rb) \<le> rb_budget rb \<or> rb_deltas (rb_Push lz data len rb) = [])"
  proof (cases "rb_latest rb = [] \<or> length (rb_latest rb) \<noteq> len")
    case True
    show ?thesis
      using rb_Push_fresh [OF True inv, of data] reset by (auto simp flip: st_def)
  next
    case False
    then have same: "rb_latest rb \<noteq> []" "length (rb_latest rb) = len" by auto
    from inv len(1,2) same show ?thesis
    proof (cases rule: rb_Push_same_cases)
      case failed
      then show ?thesis using reset by (auto simp flip: st_def)
    next
      case (stored d used ds)
      have "length st = length (rb_latest rb)" using st same by simp
      note push = rb_inv_pushed [OF inv same(1) this stored(1) [folded st_def] stored(2)]
      from push st show ?thesis
        by (simp add: stored(3) rb_MemoryUsed_def flip: st_def)
    qed
  qed
  then show "rb_inv lz (rb_Push lz data len rb)"
    and "\<exists>k \<le> length (rb_history lz rb).
      rb_history lz (rb_Push lz data len rb) = drop k (rb_history lz rb @ [take len data])"
    and "rb_MemoryUsed (rb_Push lz data len rb) \<le> rb_budget rb \<or>
      rb_deltas (rb_Push lz data len rb) = []"
    by (simp_all add: st_def)
qed

lemma rb_history_length:
  assumes "rb_inv lz rb" "rb_latest rb \<noteq> []"
  shows "length (rb_history lz rb) = Suc (length (rb_deltas rb))"
proof -
  obtain h where h: "rb_chain lz (rb_latest rb) (rev (rb_deltas rb)) = Some h"
    using assms(1) by (cases "rb_chain lz (rb_latest rb) (rev (rb_deltas rb))") (simp_all add: rb_inv_def)
  have "rb_history lz rb = rev h" using assms(2) by (simp add: rb_history_def h)
  then show ?thesis using length_rb_chain [OF h] by simp
qed

lemma rb_Pop_step:
  assumes inv: "rb_inv lz rb" and two: "1 < length (rb_history lz rb)"
  shows "\<exists>rb'. rb_Pop lz rb = (rb', Some (last (butlast (rb_history lz rb)))) \<and> rb_inv lz rb' \<and>
    rb_history lz rb' = butlast (rb_history lz rb)"
proof -
  have lat: "rb_latest rb \<noteq> []" using two by (auto simp: rb_history_def)
  then have "rb_deltas rb \<noteq> []" using rb_history_length [OF inv] two by auto
  then obtain ds d where ds: "rb_deltas rb = ds @ [d]" by (metis rev_exhaust)
  obtain h where h: "rb_chain lz (rb_latest rb) (d # rev ds) = Some h"
    "\<forall>s \<in> set h. length s = length (rb_latest rb)"
    using inv by (auto simp: rb_inv_def ds split: option.splits)
  then obtain older h' where o: "unpack_delta lz (rb_latest rb) d = Some older"
    "rb_chain lz older (rev ds) = Some h'" "h = rb_latest rb # h'"
    by (auto split: option.splits)
  then obtain h'' where h'': "h' = older # h''"
    using rb_chain_not_Nil by (metis list.collapse)
  have len: "length older = length (rb_latest rb)" "older \<noteq> []"
    using h(2) o(3) h'' lat by auto
  let ?rb = "rb\<lparr>rb_latest := older, rb_used := rb_used rb - delta_size d, rb_deltas := ds\<rparr>"
  have "rb_Pop lz rb = (?rb, Some older)" by (simp add: rb_Pop_def ds o(1))
  moreover have "rb_history lz rb = rev h" using lat h(1) by (simp add: rb_history_def ds)
  moreover have "rb_history lz ?rb = rev h'" using len o(2) by (simp add: rb_history_def)
  moreover have "rb_inv lz ?rb"
  proof -
    have "\<forall>s \<in> set h'. length s = length older" using h(2) o(3) len(1) by simp
    then show ?thesis
      using inv o(2) len by (simp add: rb_inv_def ds)
  qed
  ultimately show ?thesis by (simp add: o(3) h'' butlast_append)
qed

interpretation rb: snapshot_history "rb_Push lz" "rb_Pop lz" rb_Clear "rb_history lz" "rb_inv lz"
  for lz
proof
  fix h s assume "rb_inv lz h" "valid_state s"
  then show "rb_inv lz (rb_Push lz s (length s) h)"
    and "\<exists>k \<le> length (rb_history lz h). rb_history lz (rb_Push lz s (length s) h)
      = drop k (rb_history lz h @ [s])"
    using rb_Push_correct [of lz h "length s" s] by (auto simp: valid_state_def)
next
  fix h assume "rb_inv lz h" "length (rb_history lz h) \<le> 1"
  then show "rb_Pop lz h = (h, None)"
    using rb_history_length [of lz h] by (auto simp: rb_Pop_def rb_inv_def)
qed (simp_all add: rb_Pop_step [simplified] rb_inv_Clear)

section \<open>Properties\<close>

text \<open>An executable codec for the witnesses: stored blocks, as LZ4 emits for incompressible data.\<close>

definition lz_stored :: lz4 where
  "lz_stored = \<lparr>lz_compress = (\<lambda>src n cap. if int (length src) \<le> cap then src else []),
     lz_decompress = (\<lambda>src n cap. Some src)\<rparr>"

lemma lz4_ok_stored: "lz4_ok lz_stored"
  by (simp add: lz4_ok_def lz_stored_def)

lemma rb_inv_new: "lz4_ok lz \<Longrightarrow> rb_inv lz rb_new"
  by (simp add: rb_inv_def rb_new_def)

lemma rb_history_new: "rb_history lz rb_new = []"
  by (simp add: rb_history_def rb_new_def)

text \<open>
  C1: \<open>Push\<close> refines "append the snapshot, possibly forget some of the oldest ones": it keeps the
  invariant, the restorable snapshots are a suffix of the old ones followed by the new one, and
  the new one is always kept.
\<close>

theorem rewind_push_refines:
  assumes "rb_inv lz rb" "len \<le> length data" "0 < len" "len < 2 ^ 31"
  shows "rb_inv lz (rb_Push lz data len rb) \<and>
    (\<exists>k \<le> length (rb_history lz rb).
      rb_history lz (rb_Push lz data len rb) = drop k (rb_history lz rb @ [take len data]))"
  using rb_Push_correct [OF assms(1,2,4,3)] by blast

theorem rewind_push_refines_witness:
  "rb_inv lz_stored (rb_Push lz_stored [1, 2, 3] 2 rb_new)"
  using rewind_push_refines [of lz_stored rb_new 2 "[1, 2, 3]"]
  by (simp add: rb_inv_new lz4_ok_stored)

text \<open>
  C2: Recording the snapshots \<open>ss\<close> in a fresh buffer and stepping back returns them exactly, newest
  first: for some \<open>k\<close> (how many the budget made it forget, never the last one), any number of
  \<open>Pop\<close> steps yields the predecessors of the newest of \<open>drop k ss\<close> byte for byte.
\<close>

theorem rewind_roundtrip:
  assumes "lz4_ok lz" "ss \<noteq> []" "\<forall>s \<in> set ss. valid_state s"
  shows "\<exists>k < length ss. \<forall>m.
    snd (pops (rb_Pop lz) m (push_all (rb_Push lz) ss rb_new)) = take m (tl (rev (drop k ss)))"
proof -
  let ?h = "push_all (rb_Push lz) ss rb_new"
  from rb.push_all_hist [OF rb_inv_new [OF assms(1)] assms(3)] obtain k where
    k: "rb_inv lz ?h" "k \<le> length ss - 1" "rb_history lz ?h = drop k ss"
    using assms(2) by (auto simp: rb_history_new)
  then have lt: "k < length ss" using assms(2) by (cases ss) auto
  have "snd (pops (rb_Pop lz) m ?h) = take m (tl (rev (drop k ss)))" for m
  proof (cases "m < length (rb_history lz ?h)")
    case True
    from rb.pops_hist [OF k(1) this] show ?thesis by (simp add: k(3))
  next
    case False
    then obtain j where "m = length (rb_history lz ?h) - 1 + j"
      by (metis add_diff_inverse_nat diff_le_self leD le_trans linorder_not_less not_le_imp_less)
    moreover have "rb_history lz ?h \<noteq> []" using lt k(3) by simp
    ultimately have "snd (pops (rb_Pop lz) m ?h) = tl (rev (drop k ss))"
      using rb.pops_beyond [OF k(1), of j] k(3) by simp
    with False show ?thesis by (simp add: k(3))
  qed
  with lt show ?thesis by blast
qed

theorem rewind_roundtrip_witness:
  "\<exists>k < 2. \<forall>m. snd (pops (rb_Pop lz_stored) m (push_all (rb_Push lz_stored) [[1, 2], [1, 3]] rb_new))
    = take m (tl (rev (drop k [[1, 2], [1, 3]])))"
  using rewind_roundtrip [of lz_stored "[[1, 2], [1, 3]]"]
  by (simp add: lz4_ok_stored valid_state_def flip: numeral_2_eq_2)

text \<open>
  C3: After every \<open>Push\<close> the memory used is within the budget, unless only the newest snapshot is
  left (which is kept whatever its size).
\<close>

theorem rewind_budget:
  assumes "rb_inv lz rb" "len \<le> length data" "0 < len" "len < 2 ^ 31"
  shows "rb_MemoryUsed (rb_Push lz data len rb) \<le> rb_budget rb \<or>
    rb_Count (rb_Push lz data len rb) \<le> 1"
  using rb_Push_correct(3) [OF assms(1,2,4,3)] by (auto simp: rb_Count_def)

theorem rewind_budget_witness:
  "rb_MemoryUsed (rb_Push lz_stored [1, 3] 2 (rb_Push lz_stored [1, 2] 2 rb_new)) \<le> 512 * 1024 * 1024"
proof -
  have inv: "rb_inv lz_stored (rb_Push lz_stored [1, 2] 2 rb_new)"
    using rb.push_inv [OF rb_inv_new [OF lz4_ok_stored], of "[1, 2]"]
    by (simp add: valid_state_def flip: numeral_2_eq_2)
  have "rb_budget (rb_Push lz_stored [1, 2] 2 rb_new) = 512 * 1024 * 1024"
    "\<not> rb_Count (rb_Push lz_stored [1, 3] 2 (rb_Push lz_stored [1, 2] 2 rb_new)) \<le> 1"
    by code_simp+
  with rewind_budget [OF inv, of 2 "[1, 3]"] show ?thesis by simp
qed

text \<open>
  The word-at-a-time \<open>XorInto\<close> computes the byte-wise exclusive or, tail included.
\<close>

theorem xor_into_bytewise:
  assumes "len \<le> length a" "len \<le> length b" "i < len"
  shows "XorInto a b len ! i = a ! i XOR b ! i \<and> length (XorInto a b len) = len"
  using assms by (simp add: XorInto_eq)

theorem xor_into_bytewise_witness:
  "XorInto [1, 2, 3, 4, 5, 6, 7, 8, 9] [1, 1, 1, 1, 1, 1, 1, 1, 1] 9 ! 8 = (8 :: 8 word)"
  using xor_into_bytewise [of 9 "[1, 2, 3, 4, 5, 6, 7, 8, 9]" "[1, 1, 1, 1, 1, 1, 1, 1, 1]" 8]
  by simp

end
