(* ===== verification/Files.thy ===== *)
theory Files
  imports Prelude "HOL-Library.List_Lexorder" "HOL-Library.Char_ord"
begin

text \<open>
  The file functions of \<^verbatim>\<open>IoWorker.cpp\<close> over a small model of the file system.

  A file is its contents and whether they are known to be on stable storage (\<open>f_synced\<close>); a write
  clears the mark, a successful \<^verbatim>\<open>fsync\<close> sets it and \<^verbatim>\<open>rename\<close> carries it along.  What the kernel
  answers to each system call is an argument of the functions, so every error branch and every
  short or interrupted write of the code is a branch here.  Paths are strings; files and
  directories are kept apart, and a directory is listed by the paths below it.
\<close>

section \<open>The file system\<close>

record dfile =
  f_data :: bytes
  f_synced :: bool

record fs =
  fs_files :: "(string \<times> dfile) list"
  fs_dirs :: "string list"

definition fs_lookup :: "fs \<Rightarrow> string \<Rightarrow> dfile option" where
  "fs_lookup d p = map_of (fs_files d) p"

definition fs_put :: "string \<Rightarrow> dfile \<Rightarrow> fs \<Rightarrow> fs" where
  "fs_put p f d = d\<lparr>fs_files := (p, f) # filter (\<lambda>e. fst e \<noteq> p) (fs_files d)\<rparr>"

definition fs_unlink :: "string \<Rightarrow> fs \<Rightarrow> fs" where
  "fs_unlink p d = d\<lparr>fs_files := filter (\<lambda>e. fst e \<noteq> p) (fs_files d)\<rparr>"

definition fs_append :: "string \<Rightarrow> bytes \<Rightarrow> fs \<Rightarrow> fs" where
  "fs_append p bs d =
     (case fs_lookup d p of
        None \<Rightarrow> d
      | Some f \<Rightarrow> fs_put p \<lparr>f_data = f_data f @ bs, f_synced = False\<rparr> d)"

definition fs_fsync :: "string \<Rightarrow> fs \<Rightarrow> fs" where
  "fs_fsync p d = (case fs_lookup d p of None \<Rightarrow> d | Some f \<Rightarrow> fs_put p (f\<lparr>f_synced := True\<rparr>) d)"

definition fs_rename :: "string \<Rightarrow> string \<Rightarrow> fs \<Rightarrow> fs" where
  "fs_rename p q d = (case fs_lookup d p of None \<Rightarrow> d | Some f \<Rightarrow> fs_put q f (fs_unlink p d))"

lemma lookup_filter_neq:
  "map_of (filter (\<lambda>e. fst e \<noteq> p) xs) q = (if q = p then None else map_of xs q)"
  by (induction xs) auto

lemma fs_lookup_put [simp]: "fs_lookup (fs_put p f d) q = (if q = p then Some f else fs_lookup d q)"
  by (simp add: fs_lookup_def fs_put_def lookup_filter_neq)

lemma fs_lookup_unlink [simp]: "fs_lookup (fs_unlink p d) q = (if q = p then None else fs_lookup d q)"
  by (simp add: fs_lookup_def fs_unlink_def lookup_filter_neq)

lemma fs_lookup_append_other [simp]: "q \<noteq> p \<Longrightarrow> fs_lookup (fs_append p bs d) q = fs_lookup d q"
  by (simp add: fs_append_def split: option.splits)

lemma fs_lookup_append [simp]:
  "fs_lookup d p = Some f \<Longrightarrow>
    fs_lookup (fs_append p bs d) p = Some \<lparr>f_data = f_data f @ bs, f_synced = False\<rparr>"
  by (simp add: fs_append_def)

lemma fs_lookup_fsync [simp]:
  "fs_lookup (fs_fsync p d) q =
    (if q = p then map_option (f_synced_update (\<lambda>_. True)) (fs_lookup d p) else fs_lookup d q)"
  by (simp add: fs_fsync_def split: option.splits)

lemma fs_lookup_rename:
  "fs_lookup d p = Some f \<Longrightarrow> p \<noteq> q \<Longrightarrow>
    fs_lookup (fs_rename p q d) r = (if r = q then Some f else if r = p then None else fs_lookup d r)"
  by (simp add: fs_rename_def)

text \<open>The entries of a directory: the names after \<open>dir/\<close> with no further separator.\<close>

definition entry_of :: "string \<Rightarrow> string \<Rightarrow> string option" where
  "entry_of dir p =
     (let n = Suc (length dir) in
      if take n p = dir @ ''/'' \<and> drop n p \<noteq> [] \<and> CHR ''/'' \<notin> set (drop n p) then Some (drop n p) else None)"

definition fs_readdir :: "string \<Rightarrow> fs \<Rightarrow> string list" where
  "fs_readdir dir d = List.map_filter (entry_of dir) (map fst (fs_files d) @ fs_dirs d)"

section \<open>WriteFileAtomic\<close>

datatype write_answer = Wrote nat | WInterrupted | WFailed

record write_answers =
  wa_open :: bool
  wa_writes :: "write_answer list"
  wa_fsync :: bool
  wa_rename :: bool
  wa_unlink :: bool

text \<open>
  The write loop over the kernel's answers, in order.  A call writes at most what it was given.
  The result is the outcome and the file system after every call, newest first; \<open>None\<close> when the
  answers end while bytes are left, i.e.\ the loop has not returned.
\<close>

fun write_loop :: "write_answer list \<Rightarrow> string \<Rightarrow> bytes \<Rightarrow> fs list \<Rightarrow> (bool \<times> fs list) option" where
  "write_loop as tmp [] tr = Some (True, tr)"
| "write_loop [] tmp (b # bs) tr = None"
| "write_loop (Wrote n # as) tmp (b # bs) tr =
     write_loop as tmp (drop n (b # bs)) (fs_append tmp (take n (b # bs)) (hd tr) # tr)"
| "write_loop (WInterrupted # as) tmp (b # bs) tr = write_loop as tmp (b # bs) tr"
| "write_loop (WFailed # as) tmp (b # bs) tr = Some (False, tr)"

definition tmp_path :: "string \<Rightarrow> string" where
  "tmp_path p = p @ ''.tmp''"

definition try_unlink :: "write_answers \<Rightarrow> string \<Rightarrow> fs list \<Rightarrow> fs list" where
  "try_unlink k p tr = (if wa_unlink k then fs_unlink p (hd tr) # tr else tr)"

definition WriteFileAtomic :: "write_answers \<Rightarrow> string \<Rightarrow> bytes \<Rightarrow> fs \<Rightarrow> (bool \<times> fs list) option" where
  "WriteFileAtomic k path data d =
     (let tmp = tmp_path path in
      if \<not> wa_open k then Some (False, [d])
      else case write_loop (wa_writes k) tmp data [fs_put tmp \<lparr>f_data = [], f_synced = False\<rparr> d, d] of
             None \<Rightarrow> None
           | Some (False, tr) \<Rightarrow> Some (False, try_unlink k tmp tr)
           | Some (True, tr) \<Rightarrow>
               let tr1 = (if wa_fsync k then fs_fsync tmp (hd tr) # tr else tr) in
               if wa_rename k then Some (True, fs_rename tmp path (hd tr1) # tr1)
               else Some (False, try_unlink k tmp tr1))"

section \<open>ReadWholeFile, FileExistsAt, MakeDirs\<close>

text \<open>The answers of the stdio calls: whether \<^verbatim>\<open>fopen\<close> and \<^verbatim>\<open>ftell\<close> succeed and how much \<^verbatim>\<open>fread\<close> reads.\<close>

record read_answers =
  ra_open :: bool
  ra_tell :: bool
  ra_read :: "nat option"

definition ReadWholeFile :: "read_answers \<Rightarrow> string \<Rightarrow> fs \<Rightarrow> bytes \<Rightarrow> bool \<times> bytes" where
  "ReadWholeFile k path d out =
     (case fs_lookup d path of
        None \<Rightarrow> (False, out)
      | Some f \<Rightarrow>
          if \<not> ra_open k then (False, out)
          else if \<not> ra_tell k then (False, out)
          else case ra_read k of
                 None \<Rightarrow> (True, f_data f)
               | Some n \<Rightarrow>
                   if f_data f = [] then (True, [])
                   else (False, take n (f_data f) @ drop n (take (length (f_data f)) out
                                 @ replicate (length (f_data f) - length out) 0)))"

definition FileExistsAt :: "string \<Rightarrow> fs \<Rightarrow> bool" where
  "FileExistsAt path d \<longleftrightarrow> fs_lookup d path \<noteq> None \<or> path \<in> set (fs_dirs d)"

text \<open>
  \<^verbatim>\<open>mkdir\<close>: a trailing separator is ignored, an existing entry of any kind is \<open>EEXIST\<close>, a refusal
  of the kernel (\<open>deny\<close>) or a missing parent is another error.
\<close>

datatype mkdir_result = MkOk | MkExists | MkError

definition strip_slash :: "string \<Rightarrow> string" where
  "strip_slash p = (if p \<noteq> [] \<and> last p = CHR ''/'' then butlast p else p)"

definition parent_of :: "string \<Rightarrow> string" where
  "parent_of p = rev (drop 1 (dropWhile (\<lambda>c. c \<noteq> CHR ''/'') (rev p)))"

definition fs_mkdir :: "(string \<Rightarrow> bool) \<Rightarrow> string \<Rightarrow> fs \<Rightarrow> fs \<times> mkdir_result" where
  "fs_mkdir deny p d =
     (let q = strip_slash p in
      if FileExistsAt q d then (d, MkExists)
      else if deny q \<or> (parent_of q \<noteq> [] \<and> parent_of q \<notin> set (fs_dirs d)) then (d, MkError)
      else (d\<lparr>fs_dirs := q # fs_dirs d\<rparr>, MkOk))"

fun makedirs_loop :: "(string \<Rightarrow> bool) \<Rightarrow> string \<Rightarrow> string \<Rightarrow> fs \<Rightarrow> bool \<times> fs" where
  "makedirs_loop deny cur [] d = (True, d)"
| "makedirs_loop deny cur (c # cs) d =
     (let cur' = cur @ [c]; atSep = (c = CHR ''/'' \<and> cur \<noteq> []); atEnd = (cs = []) in
      if atSep \<or> atEnd
      then case fs_mkdir deny cur' d of
             (d', MkError) \<Rightarrow> (False, d')
           | (d', _) \<Rightarrow> makedirs_loop deny cur' cs d'
      else makedirs_loop deny cur' cs d)"

definition MakeDirs :: "(string \<Rightarrow> bool) \<Rightarrow> string \<Rightarrow> fs \<Rightarrow> bool \<times> fs" where
  "MakeDirs deny path d = makedirs_loop deny [] path d"

section \<open>Lemmas\<close>

lemma tmp_path_neq [simp]: "tmp_path p \<noteq> p" "p \<noteq> tmp_path p"
  by (simp_all add: tmp_path_def)

text \<open>The write loop touches the temporary file only, and a completed loop has written it all.\<close>

lemma write_loop_trace:
  "write_loop as tmp bs tr = Some (ok, tr') \<Longrightarrow> \<exists>new. tr' = new @ tr \<and>
     (tr \<noteq> [] \<longrightarrow> (\<forall>d \<in> set new. \<forall>q. q \<noteq> tmp \<longrightarrow> fs_lookup d q = fs_lookup (hd tr) q))"
proof (induction as tmp bs tr rule: write_loop.induct)
  case (3 n as tmp b bs tr)
  then obtain new where new: "tr' = new @ fs_append tmp (take n (b # bs)) (hd tr) # tr"
    "\<forall>d \<in> set new. \<forall>q. q \<noteq> tmp \<longrightarrow>
       fs_lookup d q = fs_lookup (fs_append tmp (take n (b # bs)) (hd tr)) q" by auto
  then show ?case
    by (intro exI [of _ "new @ [fs_append tmp (take n (b # bs)) (hd tr)]"]) auto
qed auto

lemma write_loop_data:
  "write_loop as tmp bs tr = Some (True, tr') \<Longrightarrow> tr \<noteq> [] \<Longrightarrow> fs_lookup (hd tr) tmp = Some f \<Longrightarrow>
     \<exists>s. tr' \<noteq> [] \<and> fs_lookup (hd tr') tmp = Some \<lparr>f_data = f_data f @ bs, f_synced = s\<rparr>"
proof (induction as tmp bs tr arbitrary: f rule: write_loop.induct)
  case (1 as tmp tr)
  then show ?case by (intro exI [of _ "f_synced f"]) simp
next
  case (3 n as tmp b bs tr)
  from "3.IH" [of "\<lparr>f_data = f_data f @ take n (b # bs), f_synced = False\<rparr>"] "3.prems"
  show ?case by simp
qed auto

text \<open>The loop returns when the answers hold enough progress.\<close>

lemma write_loop_returns:
  "length bs \<le> length (filter (\<lambda>a. \<exists>n > 0. a = Wrote n) as) \<Longrightarrow>
     \<exists>r. write_loop as tmp bs tr = Some r"
proof (induction as tmp bs tr rule: write_loop.induct)
  case (3 n as tmp b bs tr)
  have "length (drop n (b # bs)) \<le> length (filter (\<lambda>a. \<exists>n > 0. a = Wrote n) as)"
    using "3.prems" by (cases "n = 0") auto
  then show ?case using "3.IH" by simp
qed auto

text \<open>Every way a call of \<open>WriteFileAtomic\<close> can end.\<close>

lemma WriteFileAtomic_cases:
  assumes "WriteFileAtomic k path data d = Some (ok, tr)"
  obtains (not_opened) "\<not> wa_open k" "ok = False" "tr = [d]"
  | (write_failed) tr0 where "ok = False" "tr = try_unlink k (tmp_path path) tr0" "tr0 \<noteq> []"
      "\<forall>e \<in> set tr0. \<forall>q. q \<noteq> tmp_path path \<longrightarrow> fs_lookup e q = fs_lookup d q"
  | (renamed) tr0 s where "ok = True" "tr = fs_rename (tmp_path path) path (hd tr0) # tr0" "tr0 \<noteq> []"
      "\<forall>e \<in> set tr0. \<forall>q. q \<noteq> tmp_path path \<longrightarrow> fs_lookup e q = fs_lookup d q"
      "fs_lookup (hd tr0) (tmp_path path) = Some \<lparr>f_data = data, f_synced = s\<rparr>" "wa_fsync k \<longrightarrow> s"
proof (cases "wa_open k")
  case False
  with assms not_opened show ?thesis by (simp add: WriteFileAtomic_def)
next
  case True
  let ?tmp = "tmp_path path"
  let ?d1 = "fs_put ?tmp \<lparr>f_data = [], f_synced = False\<rparr> d"
  obtain w tr1 where loop: "write_loop (wa_writes k) ?tmp data [?d1, d] = Some (w, tr1)"
    using assms True by (auto simp: WriteFileAtomic_def Let_def split: option.splits)
  from write_loop_trace [OF this] obtain new where new: "tr1 = new @ [?d1, d]"
    "\<forall>e \<in> set new. \<forall>q. q \<noteq> ?tmp \<longrightarrow> fs_lookup e q = fs_lookup ?d1 q" by auto
  then have frame: "\<forall>e \<in> set tr1. \<forall>q. q \<noteq> ?tmp \<longrightarrow> fs_lookup e q = fs_lookup d q" by auto
  have ne: "tr1 \<noteq> []" using new by simp
  show ?thesis
  proof (cases w)
    case False
    then show ?thesis
      using assms True loop ne frame
      by (intro write_failed [of tr1]) (auto simp: WriteFileAtomic_def Let_def)
  next
    case w: True
    define tr2 where "tr2 = (if wa_fsync k then fs_fsync ?tmp (hd tr1) # tr1 else tr1)"
    from write_loop_data [of "wa_writes k" ?tmp data "[?d1, d]" tr1] loop w obtain s where
      s: "fs_lookup (hd tr1) ?tmp = Some \<lparr>f_data = data, f_synced = s\<rparr>" by auto
    have tr2: "tr2 \<noteq> []" "\<forall>e \<in> set tr2. \<forall>q. q \<noteq> ?tmp \<longrightarrow> fs_lookup e q = fs_lookup d q"
      using ne frame by (auto simp: tr2_def)
    have data: "\<exists>s'. fs_lookup (hd tr2) ?tmp = Some \<lparr>f_data = data, f_synced = s'\<rparr> \<and> (wa_fsync k \<longrightarrow> s')"
      using s by (cases "wa_fsync k") (auto simp: tr2_def)
    show ?thesis
    proof (cases "wa_rename k")
      case True
      then show ?thesis
        using assms \<open>wa_open k\<close> loop w tr2 data renamed
        by (auto simp: WriteFileAtomic_def Let_def simp flip: tr2_def)
    next
      case False
      then show ?thesis
        using assms \<open>wa_open k\<close> loop w tr2
        by (intro write_failed [of tr2]) (auto simp: WriteFileAtomic_def Let_def simp flip: tr2_def)
    qed
  qed
qed

lemma try_unlink_frame:
  assumes "tr0 \<noteq> []" "\<forall>e \<in> set tr0. \<forall>q. q \<noteq> tmp \<longrightarrow> fs_lookup e q = fs_lookup d q"
  shows "try_unlink k tmp tr0 \<noteq> [] \<and>
    (\<forall>e \<in> set (try_unlink k tmp tr0). \<forall>q. q \<noteq> tmp \<longrightarrow> fs_lookup e q = fs_lookup d q)"
  using assms by (auto simp: try_unlink_def)

lemma WriteFileAtomic_result:
  assumes "WriteFileAtomic k path data d = Some (ok, tr)"
  shows "tr \<noteq> []"
    and "e \<in> set tr \<Longrightarrow> fs_lookup e path = fs_lookup d path \<or>
      (\<exists>s. fs_lookup e path = Some \<lparr>f_data = data, f_synced = s\<rparr> \<and> (wa_fsync k \<longrightarrow> s))"
    and "ok \<Longrightarrow> \<exists>s. fs_lookup (hd tr) path = Some \<lparr>f_data = data, f_synced = s\<rparr> \<and> (wa_fsync k \<longrightarrow> s)"
    and "\<not> ok \<Longrightarrow> fs_lookup (hd tr) path = fs_lookup d path"
    and "q \<noteq> path \<Longrightarrow> q \<noteq> tmp_path path \<Longrightarrow> fs_lookup (hd tr) q = fs_lookup d q"
  using assms
  by (cases rule: WriteFileAtomic_cases;
      auto simp: fs_lookup_rename dest: try_unlink_frame [of _ "tmp_path path" d k])+

lemma fs_mkdir_exists: "fs_mkdir deny p d = (d', r) \<Longrightarrow> r \<noteq> MkError \<Longrightarrow> FileExistsAt (strip_slash p) d'"
  by (auto simp: fs_mkdir_def FileExistsAt_def Let_def fs_lookup_def split: if_splits)

lemma fs_mkdir_mono:
  "fs_mkdir deny p d = (d', r) \<Longrightarrow> fs_files d' = fs_files d \<and> set (fs_dirs d) \<subseteq> set (fs_dirs d')"
  by (auto simp: fs_mkdir_def Let_def split: if_splits)

lemma FileExistsAt_mono:
  "FileExistsAt q d \<Longrightarrow> fs_files d' = fs_files d \<Longrightarrow> set (fs_dirs d) \<subseteq> set (fs_dirs d') \<Longrightarrow> FileExistsAt q d'"
  by (auto simp: FileExistsAt_def fs_lookup_def)

text \<open>One step of the loop, with its guard: the prefix is created, or skipped.\<close>

lemma makedirs_loop_step:
  assumes "makedirs_loop deny cur (c # cs) d = (ok, d')"
  obtains (error) d1 where "fs_mkdir deny (cur @ [c]) d = (d1, MkError)" "ok = False" "d' = d1"
  | (made) d1 r where "fs_mkdir deny (cur @ [c]) d = (d1, r)" "r \<noteq> MkError"
      "makedirs_loop deny (cur @ [c]) cs d1 = (ok, d')"
  | (skip) "\<not> (c = CHR ''/'' \<and> cur \<noteq> [])" "cs \<noteq> []" "makedirs_loop deny (cur @ [c]) cs d = (ok, d')"
proof (cases "(c = CHR ''/'' \<and> cur \<noteq> []) \<or> cs = []")
  case True
  obtain d1 r where mk: "fs_mkdir deny (cur @ [c]) d = (d1, r)" by fastforce
  with assms True error made show ?thesis by (cases r) (simp_all add: Let_def)
next
  case False
  with assms skip show ?thesis by (simp add: Let_def)
qed

lemma makedirs_loop_mono:
  "makedirs_loop deny cur cs d = (ok, d') \<Longrightarrow>
     fs_files d' = fs_files d \<and> set (fs_dirs d) \<subseteq> set (fs_dirs d')"
proof (induction cs arbitrary: cur d)
  case (Cons c cs)
  from Cons.prems show ?case
  proof (cases rule: makedirs_loop_step)
    case (error d1)
    then show ?thesis using fs_mkdir_mono by blast
  next
    case (made d1 r)
    then show ?thesis using fs_mkdir_mono [OF made(1)] Cons.IH [OF made(3)] by auto
  next
    case skip
    then show ?thesis using Cons.IH by blast
  qed
qed simp

lemma makedirs_loop_exists:
  assumes "makedirs_loop deny cur (pre @ c # post) d = (True, d')"
    and "(c = CHR ''/'' \<and> cur @ pre \<noteq> []) \<or> post = []"
  shows "FileExistsAt (strip_slash (cur @ pre @ [c])) d'"
  using assms
proof (induction pre arbitrary: cur d)
  case Nil
  then have at: "\<not> (\<not> (c = CHR ''/'' \<and> cur \<noteq> []) \<and> post \<noteq> [])" by auto
  from Nil.prems(1) have "makedirs_loop deny cur (c # post) d = (True, d')" by simp
  then show ?case
  proof (cases rule: makedirs_loop_step)
    case (made d1 r)
    from fs_mkdir_exists [OF made(1,2)] makedirs_loop_mono [OF made(3)] show ?thesis
      by (auto intro: FileExistsAt_mono)
  qed (use at in auto)
next
  case (Cons b pre)
  from Cons.prems(1) have "makedirs_loop deny cur (b # pre @ c # post) d = (True, d')" by simp
  then obtain d1 where "makedirs_loop deny (cur @ [b]) (pre @ c # post) d1 = (True, d')"
    by (cases rule: makedirs_loop_step) auto
  from Cons.IH [OF this] Cons.prems(2) show ?case by simp
qed

section \<open>Properties\<close>

text \<open>
  C6: At every moment of \<open>WriteFileAtomic\<close>, hence at any crash between two system calls, the
  target holds its old contents or the complete new ones, never a part of them; where \<^verbatim>\<open>fsync\<close>
  succeeded, new contents are on stable storage from the moment the target names them.
\<close>

theorem write_atomic_old_or_new:
  assumes "WriteFileAtomic k path data d = Some (ok, tr)" "e \<in> set tr"
  shows "fs_lookup e path = fs_lookup d path \<or>
    (\<exists>s. fs_lookup e path = Some \<lparr>f_data = data, f_synced = s\<rparr> \<and> (wa_fsync k \<longrightarrow> s))"
  using WriteFileAtomic_result(2) [OF assms] .

text \<open>A kernel that interrupts the second write and writes short ones.\<close>

definition slow_kernel :: write_answers where
  "slow_kernel = \<lparr>wa_open = True, wa_writes = [Wrote 1, WInterrupted, Wrote 5], wa_fsync = True,
     wa_rename = True, wa_unlink = True\<rparr>"

definition small_disk :: fs where
  "small_disk = \<lparr>fs_files = [(''/a'', \<lparr>f_data = [9], f_synced = True\<rparr>)], fs_dirs = []\<rparr>"

theorem write_atomic_old_or_new_witness:
  "\<exists>ok tr. WriteFileAtomic slow_kernel ''/a'' [1, 2, 3] small_disk = Some (ok, tr) \<and> length tr = 6 \<and>
    (\<forall>e \<in> set tr. fs_lookup e ''/a'' = Some \<lparr>f_data = [9], f_synced = True\<rparr> \<or>
       fs_lookup e ''/a'' = Some \<lparr>f_data = [1, 2, 3], f_synced = True\<rparr>)"
proof -
  have "map_option (\<lambda>(ok, tr). (ok, length tr))
      (WriteFileAtomic slow_kernel ''/a'' [1, 2, 3] small_disk) = Some (True, 6)"
    by code_simp
  then obtain tr where w: "WriteFileAtomic slow_kernel ''/a'' [1, 2, 3] small_disk = Some (True, tr)"
    "length tr = 6" by auto
  have "fs_lookup small_disk ''/a'' = Some \<lparr>f_data = [9], f_synced = True\<rparr>" "wa_fsync slow_kernel"
    by code_simp+
  with write_atomic_old_or_new [OF w(1)] w show ?thesis by fastforce
qed

text \<open>
  What the caller is told is what happened: on success the target holds the new contents, on
  failure it is untouched; in both cases no other file than the temporary one changed.
\<close>

theorem write_atomic_result:
  assumes "WriteFileAtomic k path data d = Some (ok, tr)"
  shows "(if ok then \<exists>s. fs_lookup (hd tr) path = Some \<lparr>f_data = data, f_synced = s\<rparr>
          else fs_lookup (hd tr) path = fs_lookup d path) \<and>
    (\<forall>q. q \<noteq> path \<longrightarrow> q \<noteq> tmp_path path \<longrightarrow> fs_lookup (hd tr) q = fs_lookup d q)"
  using WriteFileAtomic_result(3-5) [OF assms] by auto

theorem write_atomic_result_witness:
  "\<exists>tr. WriteFileAtomic (slow_kernel\<lparr>wa_rename := False\<rparr>) ''/a'' [1] small_disk = Some (False, tr) \<and>
    fs_lookup (hd tr) ''/a'' = fs_lookup small_disk ''/a''"
proof -
  have "map_option fst (WriteFileAtomic (slow_kernel\<lparr>wa_rename := False\<rparr>) ''/a'' [1] small_disk)
      = Some False" by code_simp
  then obtain tr where
    w: "WriteFileAtomic (slow_kernel\<lparr>wa_rename := False\<rparr>) ''/a'' [1] small_disk = Some (False, tr)"
    by auto
  with write_atomic_result [OF w] show ?thesis by auto
qed

text \<open>
  C7: \<open>WriteFileAtomic\<close> returns whenever the kernel makes progress: as many productive writes as
  there are bytes are enough, however many interruptions come between them.
\<close>

theorem write_atomic_returns:
  assumes "length data \<le> length (filter (\<lambda>a. \<exists>n > 0. a = Wrote n) (wa_writes k))"
  shows "\<exists>r. WriteFileAtomic k path data d = Some r"
proof -
  obtain r where "write_loop (wa_writes k) (tmp_path path) data
      [fs_put (tmp_path path) \<lparr>f_data = [], f_synced = False\<rparr> d, d] = Some r"
    using write_loop_returns [OF assms] by blast
  then show ?thesis by (cases r) (auto simp: WriteFileAtomic_def Let_def split: bool.splits)
qed

theorem write_atomic_returns_witness:
  "\<exists>r. WriteFileAtomic slow_kernel ''/a'' [1, 2] small_disk = Some r"
  by (rule write_atomic_returns) (simp add: slow_kernel_def)

text \<open>
  The result of \<^verbatim>\<open>fsync\<close> is not looked at: when it fails, a rename that succeeds still replaces
  the target by contents that are not known to be on stable storage, and success is reported.
\<close>

theorem write_atomic_ignores_fsync:
  "\<exists>tr. WriteFileAtomic (slow_kernel\<lparr>wa_fsync := False\<rparr>) ''/a'' [1, 2] small_disk = Some (True, tr) \<and>
    fs_lookup small_disk ''/a'' = Some \<lparr>f_data = [9], f_synced = True\<rparr> \<and>
    fs_lookup (hd tr) ''/a'' = Some \<lparr>f_data = [1, 2], f_synced = False\<rparr>"
proof -
  have "map_option (\<lambda>(ok, tr). (ok, fs_lookup (hd tr) ''/a''))
      (WriteFileAtomic (slow_kernel\<lparr>wa_fsync := False\<rparr>) ''/a'' [1, 2] small_disk)
    = Some (True, Some \<lparr>f_data = [1, 2], f_synced = False\<rparr>)" by code_simp
  moreover have "fs_lookup small_disk ''/a'' = Some \<lparr>f_data = [9], f_synced = True\<rparr>" by code_simp
  ultimately show ?thesis by auto
qed

text \<open>
  C9: What was written is what is read back: after a successful \<open>WriteFileAtomic\<close>, a complete
  \<open>ReadWholeFile\<close> of the path returns exactly the bytes written.
\<close>

theorem write_then_read:
  assumes "WriteFileAtomic k path data d = Some (True, tr)"
    and "ra_open r" "ra_tell r" "ra_read r = None"
  shows "ReadWholeFile r path (hd tr) out = (True, data)"
  using WriteFileAtomic_result(3) [OF assms(1)] assms(2-4) by (auto simp: ReadWholeFile_def)

theorem write_then_read_witness:
  "\<exists>tr. WriteFileAtomic slow_kernel ''/a'' [1, 2] small_disk = Some (True, tr) \<and>
    ReadWholeFile \<lparr>ra_open = True, ra_tell = True, ra_read = None\<rparr> ''/a'' (hd tr) [] = (True, [1, 2])"
proof -
  have "map_option fst (WriteFileAtomic slow_kernel ''/a'' [1, 2] small_disk) = Some True" by code_simp
  then obtain tr where w: "WriteFileAtomic slow_kernel ''/a'' [1, 2] small_disk = Some (True, tr)" by auto
  with write_then_read [OF w] show ?thesis by auto
qed

text \<open>
  When \<open>MakeDirs\<close> reports success, the path and every directory on the way to it exist, and
  nothing that existed before is gone.
\<close>

theorem make_dirs_all:
  assumes "MakeDirs deny path d = (True, d')" "path = pre @ c # post"
    and "(c = CHR ''/'' \<and> pre \<noteq> []) \<or> post = []"
  shows "FileExistsAt (strip_slash (pre @ [c])) d' \<and>
    fs_files d' = fs_files d \<and> set (fs_dirs d) \<subseteq> set (fs_dirs d')"
  using assms makedirs_loop_exists [of deny "[]" pre c post d d']
    makedirs_loop_mono [of deny "[]" path d True d'] by (simp add: MakeDirs_def)

theorem make_dirs_all_witness:
  "FileExistsAt ''/x'' (snd (MakeDirs (\<lambda>_. False) ''/x/y'' small_disk))"
proof -
  have "MakeDirs (\<lambda>_. False) ''/x/y'' small_disk
      = (True, small_disk\<lparr>fs_dirs := [''/x/y'', ''/x'']\<rparr>)" by code_simp
  from make_dirs_all [OF this, of "''/x''" "CHR ''/''" "''y''"] show ?thesis
    using \<open>MakeDirs _ _ _ = _\<close> by (simp add: strip_slash_def)
qed

end
