(* ===== verification/IoQueue.thy ===== *)
theory IoQueue
  imports Prelude
begin

text \<open>
  The background I/O thread, class \<^verbatim>\<open>IoWorker\<close> of \<^verbatim>\<open>IoWorker.cpp\<close>: \<open>Post\<close> appends a job under the
  lock, the thread's \<open>Loop\<close> takes the front job and runs it outside the lock, \<open>Run\<close> waits for its
  own job and \<open>Drain\<close> runs an empty one.  Jobs are numbered; \<open>io_posted\<close> and \<open>io_done\<close> record the
  order in which jobs were posted and finished.
\<close>

record io_worker =
  io_jobs :: "nat list"
  io_current :: "nat option"
  io_posted :: "nat list"
  io_done :: "nat list"

definition io_init :: io_worker where
  "io_init = \<lparr>io_jobs = [], io_current = None, io_posted = [], io_done = []\<rparr>"

definition io_Post :: "nat \<Rightarrow> io_worker \<Rightarrow> io_worker" where
  "io_Post j w = w\<lparr>io_jobs := io_jobs w @ [j], io_posted := io_posted w @ [j]\<rparr>"

text \<open>The two halves of an iteration of \<open>Loop\<close>: taking the front job, and its completion.\<close>

definition io_take :: "io_worker \<Rightarrow> io_worker option" where
  "io_take w =
     (case (io_current w, io_jobs w) of
        (None, j # js) \<Rightarrow> Some (w\<lparr>io_current := Some j, io_jobs := js\<rparr>)
      | _ \<Rightarrow> None)"

definition io_finish :: "io_worker \<Rightarrow> io_worker option" where
  "io_finish w =
     (case io_current w of
        Some j \<Rightarrow> Some (w\<lparr>io_current := None, io_done := io_done w @ [j]\<rparr>)
      | None \<Rightarrow> None)"

text \<open>A caller of \<open>Run\<close> (and of \<open>Drain\<close>, whose job is empty) may return once its job is done.\<close>

definition io_Run_returns :: "nat \<Rightarrow> io_worker \<Rightarrow> bool" where
  "io_Run_returns j w \<longleftrightarrow> j \<in> set (io_done w)"

text \<open>Any thread may post a fresh job at any time, between any two steps of the worker.\<close>

inductive io_step :: "io_worker \<Rightarrow> io_worker \<Rightarrow> bool" where
  post: "j \<notin> set (io_posted w) \<Longrightarrow> io_step w (io_Post j w)"
| take: "io_take w = Some w' \<Longrightarrow> io_step w w'"
| finish: "io_finish w = Some w' \<Longrightarrow> io_step w w'"

inductive io_reachable :: "io_worker \<Rightarrow> bool" where
  start: "io_reachable io_init"
| step: "io_reachable w \<Longrightarrow> io_step w w' \<Longrightarrow> io_reachable w'"

inductive_cases io_stepE: "io_step w w'"

text \<open>
  Jobs are never lost, duplicated or reordered: what was posted is what is done, then what is
  running, then what waits.
\<close>

definition io_inv :: "io_worker \<Rightarrow> bool" where
  "io_inv w \<longleftrightarrow>
     io_posted w = io_done w @ (case io_current w of None \<Rightarrow> [] | Some j \<Rightarrow> [j]) @ io_jobs w \<and>
     distinct (io_posted w)"

lemma io_step_inv: "io_step w w' \<Longrightarrow> io_inv w \<Longrightarrow> io_inv w'"
  by (erule io_stepE)
    (auto simp: io_inv_def io_Post_def io_take_def io_finish_def split: option.splits list.splits)

lemma io_reachable_inv: "io_reachable w \<Longrightarrow> io_inv w"
proof (induction rule: io_reachable.induct)
  case start
  show ?case by (simp add: io_inv_def io_init_def)
next
  case (step w w')
  then show ?case by (blast intro: io_step_inv)
qed

text \<open>The worker alone, for as long as it has work.\<close>

function io_run :: "io_worker \<Rightarrow> io_worker" where
  "io_run w =
     (case io_finish w of
        Some w' \<Rightarrow> io_run w'
      | None \<Rightarrow> (case io_take w of Some w' \<Rightarrow> io_run w' | None \<Rightarrow> w))"
  by pat_completeness auto
termination
  by (relation "measure (\<lambda>w. 2 * length (io_jobs w) + (case io_current w of None \<Rightarrow> 0 | Some _ \<Rightarrow> 1))")
    (auto simp: io_finish_def io_take_def split: option.splits list.splits)

declare io_run.simps [simp del]

lemma io_run_steps: "io_reachable w \<Longrightarrow> io_reachable (io_run w)"
proof (induction w rule: io_run.induct)
  case (1 w)
  show ?case
  proof (cases "io_finish w")
    case (Some w')
    with 1(3) have "io_reachable w'" by (blast intro: io_reachable.step io_step.finish)
    with Some 1(2) [OF Some] show ?thesis by (simp add: io_run.simps [of w])
  next
    case None
    show ?thesis
    proof (cases "io_take w")
      case (Some w')
      with 1(3) have "io_reachable w'" by (blast intro: io_reachable.step io_step.take)
      with None Some 1(1) [OF None Some] show ?thesis by (simp add: io_run.simps [of w])
    qed (simp add: None 1(3) io_run.simps [of w])
  qed
qed

lemma io_run_idle: "io_current (io_run w) = None \<and> io_jobs (io_run w) = [] \<and>
    io_posted (io_run w) = io_posted w"
proof (induction w rule: io_run.induct)
  case (1 w)
  show ?case
  proof (cases "io_finish w")
    case (Some w')
    then have "io_posted w' = io_posted w" by (auto simp: io_finish_def split: option.splits)
    with Some 1(2) [OF Some] show ?thesis by (simp add: io_run.simps [of w])
  next
    case None
    note fin = None
    then have cur: "io_current w = None" by (auto simp: io_finish_def split: option.splits)
    show ?thesis
    proof (cases "io_take w")
      case None
      with cur have "io_jobs w = []" by (auto simp: io_take_def split: list.splits)
      with fin None cur show ?thesis by (simp add: io_run.simps [of w])
    next
      case (Some w')
      then have "io_posted w' = io_posted w" by (auto simp: io_take_def split: option.splits list.splits)
      with fin Some 1(1) [OF fin Some] show ?thesis by (simp add: io_run.simps [of w])
    qed
  qed
qed

section \<open>Properties\<close>

text \<open>
  C7: \<open>Run\<close> and \<open>Drain\<close> wait for everything before them: when the job of such a call is done, in
  any interleaving of posts with the worker, every job posted before it is done too.
\<close>

theorem io_run_waits_for_earlier:
  assumes "io_reachable w" "io_posted w = pre @ j # post" "io_Run_returns j w"
  shows "set pre \<subseteq> set (io_done w)"
proof -
  from io_reachable_inv [OF assms(1)] have inv: "distinct (pre @ j # post)"
    "pre @ j # post = io_done w @ ((case io_current w of None \<Rightarrow> [] | Some j \<Rightarrow> [j]) @ io_jobs w)"
    unfolding io_inv_def assms(2) by (blast, blast)
  from assms(3) obtain d1 d2 where d: "io_done w = d1 @ j # d2"
    by (auto simp: io_Run_returns_def dest: split_list)
  have "pre @ j # post = d1 @ j # (d2 @ (case io_current w of None \<Rightarrow> [] | Some j \<Rightarrow> [j]) @ io_jobs w)"
    using inv(2) d by simp
  moreover have "j \<notin> set pre" "j \<notin> set post" using inv(1) by auto
  ultimately have "pre = d1" using append_Cons_eq_iff by metis
  with d show ?thesis by auto
qed

definition io_demo :: io_worker where
  "io_demo = \<lparr>io_jobs = [3], io_current = None, io_posted = [1, 2, 3], io_done = [1, 2]\<rparr>"

lemma io_demo_reachable: "io_reachable io_demo"
proof -
  have "io_reachable (io_Post 1 io_init)"
    by (rule io_reachable.step [OF io_reachable.start io_step.post]) (simp add: io_init_def)
  then have "io_reachable (io_Post 2 (io_Post 1 io_init))"
    by (rule io_reachable.step [OF _ io_step.post]) (simp add: io_Post_def io_init_def)
  then have "io_reachable (io_Post 3 (io_run (io_Post 2 (io_Post 1 io_init))))"
    by (intro io_reachable.step [OF io_run_steps io_step.post])
      (simp_all add: io_run_idle, simp add: io_Post_def io_init_def)
  moreover have "io_run (io_Post 2 (io_Post 1 io_init))
      = \<lparr>io_jobs = [], io_current = None, io_posted = [1, 2], io_done = [1, 2]\<rparr>"
    by (simp add: io_run.simps io_finish_def io_take_def io_Post_def io_init_def)
  ultimately show ?thesis by (simp add: io_Post_def io_demo_def)
qed

theorem io_run_waits_for_earlier_witness: "set [1] \<subseteq> set (io_done io_demo)"
  by (rule io_run_waits_for_earlier [OF io_demo_reachable, of "[1]" 2 "[3]"])
    (simp_all add: io_demo_def io_Run_returns_def)



end
