(* ===== verification/SaveFiles.thy ===== *)
theory SaveFiles
  imports Files IoQueue
begin

text \<open>
  Battery-backed save memory, class \<^verbatim>\<open>SaveFile\<close> of \<^verbatim>\<open>SaveFile.cpp\<close>: a copy of the save memory is
  updated on every write of the emulator and flushed to disk by the I/O thread once writes have
  settled, or at once.  Times are nanoseconds of the steady clock.
\<close>

section \<open>The buffer\<close>

record save_file =
  sf_path :: string
  sf_buffer :: bytes
  sf_dirty :: bool
  sf_lastWrite :: int

definition sf_new :: "string \<Rightarrow> save_file" where
  "sf_new p = \<lparr>sf_path = p, sf_buffer = [], sf_dirty = False, sf_lastWrite = 0\<rparr>"

definition kFlushDelay :: int where
  "kFlushDelay = 1000 * 1000000"

text \<open>\<open>OnWrite data len offset writelen\<close>: the 32 bit arithmetic is the code's.\<close>

definition sf_OnWrite :: "bytes \<Rightarrow> u32 \<Rightarrow> u32 \<Rightarrow> u32 \<Rightarrow> int \<Rightarrow> save_file \<Rightarrow> save_file" where
  "sf_OnWrite data len offset writelen now sf =
     (let buffer =
        (if length (sf_buffer sf) \<noteq> unat len \<or> writelen = 0 \<or> len \<le> offset
         then take (unat len) data
         else
           let n = min writelen (len - offset);
               b = splice (sf_buffer sf) (unat offset) (segment data (unat offset) (unat n))
           in if n < writelen then splice b 0 (take (unat (min (writelen - n) len)) data) else b)
      in sf\<lparr>sf_buffer := buffer, sf_dirty := True, sf_lastWrite := now\<rparr>)"

text \<open>What a flush asks of the I/O thread.\<close>

datatype io_request = IoNothing | IoDrain | IoRun string bytes | IoPost string bytes

definition sf_StartFlush :: "bool \<Rightarrow> save_file \<Rightarrow> save_file \<times> io_request" where
  "sf_StartFlush wait sf =
     (if sf_dirty sf
      then (sf\<lparr>sf_dirty := False\<rparr>,
            if wait then IoRun (sf_path sf) (sf_buffer sf) else IoPost (sf_path sf) (sf_buffer sf))
      else (sf, if wait then IoDrain else IoNothing))"

definition sf_CheckFlush :: "int \<Rightarrow> save_file \<Rightarrow> save_file \<times> io_request" where
  "sf_CheckFlush now sf =
     (if sf_dirty sf \<and> now - sf_lastWrite sf \<ge> kFlushDelay then sf_StartFlush False sf
      else (sf, IoNothing))"

definition sf_FlushNow :: "save_file \<Rightarrow> save_file \<times> io_request" where
  "sf_FlushNow sf = sf_StartFlush True sf"

section \<open>Backups\<close>

text \<open>The surroundings of one \<open>BackupExisting\<close> call: kernel answers and the time stamp.\<close>

record backup_env =
  be_read :: read_answers
  be_deny :: "string \<Rightarrow> bool"
  be_opendir :: bool
  be_read_newest :: read_answers
  be_stamp :: string
  be_write :: write_answers

definition in_dir :: "string \<Rightarrow> string \<Rightarrow> string" where
  "in_dir dir n = dir @ ''/'' @ n"

text \<open>
  The pruning loop.  \<open>None\<close> is the undefined behaviour of \<^verbatim>\<open>front()\<close> on an empty vector, which a
  negative \<open>keep\<close> reaches.
\<close>

fun prune_backups :: "int \<Rightarrow> string \<Rightarrow> string list \<Rightarrow> fs \<Rightarrow> fs option" where
  "prune_backups keep dir [] d = (if keep < 0 then None else Some d)"
| "prune_backups keep dir (n # ns) d =
     (if int (length (n # ns)) > keep then prune_backups keep dir ns (fs_unlink (in_dir dir n) d)
      else Some d)"

definition backup_names :: "backup_env \<Rightarrow> string \<Rightarrow> fs \<Rightarrow> string list" where
  "backup_names env dir d =
     sort (if be_opendir env then filter (\<lambda>n. n \<noteq> [] \<and> hd n \<noteq> CHR ''.'') (fs_readdir dir d) else [])"

definition BackupExisting :: "backup_env \<Rightarrow> string \<Rightarrow> string \<Rightarrow> int \<Rightarrow> fs \<Rightarrow> fs option" where
  "BackupExisting env path dir keep d =
     (case ReadWholeFile (be_read env) path d [] of
        (False, _) \<Rightarrow> Some d
      | (True, data) \<Rightarrow>
          if data = [] then Some d
          else
            let d1 = snd (MakeDirs (be_deny env) dir d); names = backup_names env dir d1 in
            if names \<noteq> [] \<and> ReadWholeFile (be_read_newest env) (in_dir dir (last names)) d1 [] = (True, data)
            then Some d1
            else
              let name = be_stamp env @ ''.sav'' in
              case WriteFileAtomic (be_write env) (in_dir dir name) data d1 of
                None \<Rightarrow> None
              | Some (_, tr) \<Rightarrow> prune_backups keep dir (names @ [name]) (hd tr))"

section \<open>Lemmas\<close>

text \<open>
  The window of a write of \<open>w\<close> bytes at \<open>off\<close> in a memory of \<open>len\<close> bytes; it may wrap around the end.
\<close>

definition in_window :: "nat \<Rightarrow> nat \<Rightarrow> nat \<Rightarrow> nat \<Rightarrow> bool" where
  "in_window len off w i \<longleftrightarrow> (off \<le> i \<and> i < off + w) \<or> i + len < off + w"

lemma nth_splice_take:
  "n \<le> length xs \<Longrightarrow> n \<le> length ys \<Longrightarrow> i < length xs \<Longrightarrow>
     splice xs 0 (take n ys) ! i = (if i < n then ys ! i else xs ! i)"
  by (auto simp: nth_splice min_def)

lemma sf_OnWrite_buffer:
  assumes data: "length data = unat len" and old: "length (sf_buffer sf) = unat len"
    and same: "\<And>i. i < unat len \<Longrightarrow> \<not> in_window (unat len) (unat offset) (unat writelen) i \<Longrightarrow>
      data ! i = sf_buffer sf ! i"
  shows "sf_buffer (sf_OnWrite data len offset writelen now sf) = data"
proof (cases "writelen = 0 \<or> len \<le> offset")
  case True
  then show ?thesis using data by (auto simp: sf_OnWrite_def Let_def)
next
  case False
  then have lt: "unat offset < unat len" by (simp add: word_less_nat_alt not_le)
  define n where "n = min writelen (len - offset)"
  have sub: "unat (len - offset) = unat len - unat offset"
    using False by (intro unat_sub) (simp add: not_le order_less_imp_le)
  have n: "unat n = min (unat writelen) (unat len - unat offset)"
    by (simp add: n_def min_def word_le_nat_alt sub)
  let ?b = "splice (sf_buffer sf) (unat offset) (segment data (unat offset) (unat n))"
  have nlen: "unat offset + unat n \<le> unat len" using n lt by simp
  have b: "length ?b = unat len" using nlen data old by simp
  have nth_b: "?b ! i = (if unat offset \<le> i \<and> i < unat offset + unat n then data ! i else sf_buffer sf ! i)"
    if "i < unat len" for i
  proof (cases "unat offset \<le> i \<and> i < unat offset + unat n")
    case True
    with that nlen data old show ?thesis by (simp add: nth_splice nth_segment less_diff_conv2)
  next
    case False
    with that nlen data old show ?thesis by (auto simp: nth_splice)
  qed
  show ?thesis
  proof (cases "n < writelen")
    case no_wrap: False
    then have "unat writelen \<le> unat len - unat offset"
      using n by (simp add: word_less_nat_alt not_less)
    then have "?b ! i = data ! i" if "i < unat len" for i
      using nth_b [OF that] same [OF that] n that lt by (auto simp: in_window_def)
    then have "?b = data" using b data by (auto intro!: nth_equalityI)
    then show ?thesis using False old no_wrap by (simp add: sf_OnWrite_def Let_def flip: n_def)
  next
    case wrap: True
    then have less: "unat n < unat writelen" by (simp add: word_less_nat_alt)
    then have nn: "unat n = unat len - unat offset" using n by linarith
    have "unat (writelen - n) = unat writelen - unat n"
      using wrap by (intro unat_sub) simp
    then have m: "unat (min (writelen - n) len) = min (unat writelen - unat n) (unat len)"
      by (simp add: min_def word_le_nat_alt)
    let ?r = "splice ?b 0 (take (unat (min (writelen - n) len)) data)"
    have nth_r: "?r ! i = data ! i" if "i < unat len" for i
      using nth_splice_take [of "unat (min (writelen - n) len)" ?b data i] b data m that
        nth_b [OF that] same [OF that] nn less lt
      by (auto simp: in_window_def)
    have "length ?r = unat len" using b data m by simp
    then have "?r = data" using nth_r data by (auto intro!: nth_equalityI)
    then show ?thesis using False old wrap by (simp add: sf_OnWrite_def Let_def flip: n_def)
  qed
qed

lemma sf_OnWrite_resize:
  "length data = unat len \<Longrightarrow> length (sf_buffer sf) \<noteq> unat len \<Longrightarrow>
     sf_buffer (sf_OnWrite data len offset writelen now sf) = data"
  by (simp add: sf_OnWrite_def)

lemma sf_OnWrite_fields [simp]:
  "sf_dirty (sf_OnWrite data len offset writelen now sf)"
  "sf_path (sf_OnWrite data len offset writelen now sf) = sf_path sf"
  by (simp_all add: sf_OnWrite_def Let_def)

section \<open>The save memory, its copy, the queue and the disk\<close>

text \<open>
  The emulator's save memory, the \<open>SaveFile\<close> that follows it, the write jobs posted to the I/O
  thread and not yet run, and the disk.  Every write of the emulator reports the whole memory and
  the window that changed; jobs run in the order of posting (theory \<open>IoQueue\<close>).  The flag \<open>ok\<close> says
  whether only successful file writes are considered.
\<close>

record save_sys =
  sy_sram :: bytes
  sy_sf :: save_file
  sy_queue :: "(string \<times> bytes) list"
  sy_disk :: fs
  sy_written :: bool

definition post_request :: "io_request \<Rightarrow> (string \<times> bytes) list \<Rightarrow> (string \<times> bytes) list" where
  "post_request r q =
     (case r of IoRun p b \<Rightarrow> q @ [(p, b)] | IoPost p b \<Rightarrow> q @ [(p, b)] | IoDrain \<Rightarrow> q | IoNothing \<Rightarrow> q)"

definition sv_write :: "bytes \<Rightarrow> u32 \<Rightarrow> u32 \<Rightarrow> u32 \<Rightarrow> int \<Rightarrow> save_sys \<Rightarrow> save_sys" where
  "sv_write data len offset writelen now s =
     s\<lparr>sy_sram := data, sy_sf := sf_OnWrite data len offset writelen now (sy_sf s), sy_written := True\<rparr>"

inductive sv_step :: "bool \<Rightarrow> save_sys \<Rightarrow> save_sys \<Rightarrow> bool" for ok :: bool where
  wrote: "length data = unat len \<Longrightarrow> length (sy_sram s) = unat len \<Longrightarrow>
    (\<And>i. i < unat len \<Longrightarrow> \<not> in_window (unat len) (unat offset) (unat writelen) i \<Longrightarrow>
       data ! i = sy_sram s ! i) \<Longrightarrow>
    sv_step ok s (sv_write data len offset writelen now s)"
| due: "sf_CheckFlush now (sy_sf s) = (sf', r) \<Longrightarrow>
    sv_step ok s (s\<lparr>sy_sf := sf', sy_queue := post_request r (sy_queue s)\<rparr>)"
| now: "sf_FlushNow (sy_sf s) = (sf', r) \<Longrightarrow>
    sv_step ok s (s\<lparr>sy_sf := sf', sy_queue := post_request r (sy_queue s)\<rparr>)"
| job: "sy_queue s = (p, b) # q \<Longrightarrow> WriteFileAtomic k p b (sy_disk s) = Some (res, tr) \<Longrightarrow>
    ok \<longrightarrow> res \<Longrightarrow> sv_step ok s (s\<lparr>sy_queue := q, sy_disk := hd tr\<rparr>)"

inductive_cases sv_stepE: "sv_step ok s s'"

definition sv_init :: "bytes \<Rightarrow> string \<Rightarrow> fs \<Rightarrow> save_sys" where
  "sv_init sram p d = \<lparr>sy_sram = sram, sy_sf = sf_new p, sy_queue = [], sy_disk = d, sy_written = False\<rparr>"

inductive sv_reachable :: "bool \<Rightarrow> bytes \<Rightarrow> string \<Rightarrow> fs \<Rightarrow> save_sys \<Rightarrow> bool"
  for ok :: bool and sram :: bytes and p :: string and d :: fs where
  start: "sv_reachable ok sram p d (sv_init sram p d)"
| step: "sv_reachable ok sram p d s \<Longrightarrow> sv_step ok s s' \<Longrightarrow> sv_reachable ok sram p d s'"

definition on_disk :: "fs \<Rightarrow> string \<Rightarrow> bytes \<Rightarrow> bool" where
  "on_disk d p b \<longleftrightarrow> (case fs_lookup d p of None \<Rightarrow> False | Some f \<Rightarrow> f_data f = b)"

text \<open>
  Once the game has written, the copy is the save memory; and unless the copy is dirty, the last
  job in the queue, or the disk when there is none, holds it.
\<close>

definition sv_inv :: "string \<Rightarrow> save_sys \<Rightarrow> bool" where
  "sv_inv p s \<longleftrightarrow>
     sf_path (sy_sf s) = p \<and> (\<forall>j \<in> set (sy_queue s). fst j = p) \<and>
     (if sy_written s
      then sf_buffer (sy_sf s) = sy_sram s \<and>
        (sf_dirty (sy_sf s) \<or>
         (if sy_queue s = [] then on_disk (sy_disk s) p (sy_sram s) else snd (last (sy_queue s)) = sy_sram s))
      else sf_buffer (sy_sf s) = [] \<and> \<not> sf_dirty (sy_sf s) \<and> sy_queue s = [])"

lemma sv_inv_flush:
  assumes "sv_inv p s" "sf_StartFlush w (sy_sf s) = (sf', r)"
  shows "sv_inv p (s\<lparr>sy_sf := sf', sy_queue := post_request r (sy_queue s)\<rparr>)"
  using assms by (auto simp: sv_inv_def sf_StartFlush_def post_request_def split: if_splits)

lemma sv_step_inv: "sv_step True s s' \<Longrightarrow> sv_inv p s \<Longrightarrow> sv_inv p s'"
proof (induction rule: sv_step.induct)
  case (wrote data len s offset writelen now)
  have "sf_buffer (sf_OnWrite data len offset writelen now (sy_sf s)) = data"
  proof (cases "length (sf_buffer (sy_sf s)) = unat len")
    case False
    with wrote(1) show ?thesis by (rule sf_OnWrite_resize)
  next
    case True
    then have "i < unat len \<Longrightarrow> sy_sram s ! i = sf_buffer (sy_sf s) ! i" for i
      using wrote(4) by (auto simp: sv_inv_def split: if_splits)
    with wrote(1,3) True show ?thesis by (intro sf_OnWrite_buffer) auto
  qed
  with wrote show ?case by (auto simp: sv_inv_def sv_write_def split: if_splits)
next
  case (due now s sf' r)
  then show ?case
    using sv_inv_flush [of p s False sf' r]
    by (auto simp: sf_CheckFlush_def post_request_def split: if_splits)
next
  case (now s sf' r)
  then show ?case using sv_inv_flush [of p s True sf' r] by (simp add: sf_FlushNow_def)
next
  case (job s q b qs k res tr)
  then have res: "WriteFileAtomic k p b (sy_disk s) = Some (True, tr)" "q = p"
    by (auto simp: sv_inv_def)
  then have "on_disk (hd tr) p b"
    using WriteFileAtomic_result(3) [OF res(1)] by (auto simp: on_disk_def)
  with job show ?case by (auto simp: sv_inv_def split: if_splits)
qed

lemma sv_reachable_inv: "sv_reachable True sram p d s \<Longrightarrow> sv_inv p s"
proof (induction rule: sv_reachable.induct)
  case start
  show ?case by (simp add: sv_inv_def sv_init_def sf_new_def)
next
  case (step s s')
  then show ?case by (blast intro: sv_step_inv)
qed

lemma prune_backups_spec:
  assumes "0 \<le> keep"
  shows "\<exists>d'. prune_backups keep dir ns d = Some d' \<and>
    (\<forall>n \<in> set (take (length ns - nat keep) ns). fs_lookup d' (in_dir dir n) = None) \<and>
    (\<forall>q. (\<forall>n \<in> set (take (length ns - nat keep) ns). q \<noteq> in_dir dir n) \<longrightarrow> fs_lookup d' q = fs_lookup d q)"
proof (induction ns arbitrary: d)
  case (Cons n ns)
  show ?case
  proof (cases "int (length (n # ns)) > keep")
    case True
    let ?d = "fs_unlink (in_dir dir n) d"
    have k: "length (n # ns) - nat keep = Suc (length ns - nat keep)" using True assms(1) by auto
    from Cons obtain d' where d': "prune_backups keep dir ns ?d = Some d'"
      "\<forall>m \<in> set (take (length ns - nat keep) ns). fs_lookup d' (in_dir dir m) = None"
      "\<forall>q. (\<forall>m \<in> set (take (length ns - nat keep) ns). q \<noteq> in_dir dir m) \<longrightarrow> fs_lookup d' q = fs_lookup ?d q"
      by fastforce
    have "fs_lookup d' (in_dir dir n) = None"
      using d'(2,3) by (cases "\<exists>m \<in> set (take (length ns - nat keep) ns). in_dir dir n = in_dir dir m") auto
    with d' True show ?thesis unfolding k by auto
  next
    case False
    then show ?thesis by simp
  qed
qed (use assms(1) in simp)

text \<open>Whatever the disk does, the copy follows the save memory.\<close>

definition sv_copy :: "save_sys \<Rightarrow> bool" where
  "sv_copy s \<longleftrightarrow>
     (if sy_written s then sf_buffer (sy_sf s) = sy_sram s else sf_buffer (sy_sf s) = [])"

lemma sv_step_copy: "sv_step ok s s' \<Longrightarrow> sv_copy s \<Longrightarrow> sv_copy s'"
proof (induction rule: sv_step.induct)
  case (wrote data len s offset writelen now)
  have "sf_buffer (sf_OnWrite data len offset writelen now (sy_sf s)) = data"
  proof (cases "length (sf_buffer (sy_sf s)) = unat len")
    case False
    with wrote(1) show ?thesis by (rule sf_OnWrite_resize)
  next
    case True
    then have "i < unat len \<Longrightarrow> sy_sram s ! i = sf_buffer (sy_sf s) ! i" for i
      using wrote(4) by (auto simp: sv_copy_def split: if_splits)
    with wrote(1,3) True show ?thesis by (intro sf_OnWrite_buffer) auto
  qed
  then show ?case by (simp add: sv_copy_def sv_write_def)
qed (auto simp: sv_copy_def sf_CheckFlush_def sf_FlushNow_def sf_StartFlush_def split: if_splits)

lemma sv_reachable_copy: "sv_reachable ok sram p d s \<Longrightarrow> sv_copy s"
proof (induction rule: sv_reachable.induct)
  case start
  show ?case by (simp add: sv_copy_def sv_init_def sf_new_def)
next
  case (step s s')
  then show ?case by (blast intro: sv_step_copy)
qed

text \<open>A backup that runs to the end.\<close>

lemma BackupExisting_full:
  fixes env path dir keep d
  defines "d1 \<equiv> snd (MakeDirs (be_deny env) dir d)" and "name \<equiv> be_stamp env @ ''.sav''"
  defines "names \<equiv> backup_names env dir d1"
  assumes "ReadWholeFile (be_read env) path d [] = (True, data)" "data \<noteq> []"
    and "names \<noteq> [] \<Longrightarrow> snd (ReadWholeFile (be_read_newest env) (in_dir dir (last names)) d1 []) \<noteq> data"
    and "WriteFileAtomic (be_write env) (in_dir dir name) data d1 = Some (ok, tr)"
  shows "BackupExisting env path dir keep d = prune_backups keep dir (names @ [name]) (hd tr)"
  using assms(4-) unfolding BackupExisting_def
  by (auto simp: Let_def simp flip: d1_def name_def names_def)

lemma in_dir_inj [simp]: "in_dir dir m = in_dir dir n \<longleftrightarrow> m = n"
  by (simp add: in_dir_def)

lemma tmp_path_in_dir: "tmp_path (in_dir dir n) = in_dir dir (n @ ''.tmp'')"
  by (simp add: tmp_path_def in_dir_def)

lemma MakeDirs_lookup: "fs_lookup (snd (MakeDirs deny dir d)) q = fs_lookup d q"
  using makedirs_loop_mono [of deny "[]" dir d] by (cases "MakeDirs deny dir d")
    (simp add: MakeDirs_def fs_lookup_def)

lemma less_append_string: "ys \<noteq> [] \<Longrightarrow> xs < xs @ (ys :: string)"
  by (induction xs) (cases ys; simp)+

section \<open>Properties\<close>

text \<open>
  C5: No write of the emulator is missed by the copy: in every state that writes (windows that
  wrap around the end of the memory included), flushes, file writes and their failures can reach,
  the copy equals the save memory once the game has written.
\<close>

theorem save_copy_tracks_sram:
  assumes "sv_reachable ok sram p d s" "sy_written s"
  shows "sf_buffer (sy_sf s) = sy_sram s"
  using sv_reachable_copy [OF assms(1)] assms(2) by (simp add: sv_copy_def)

text \<open>A game that writes its four bytes of save memory, then the window of two that wraps.\<close>

definition sv_first :: save_sys where
  "sv_first = sv_write [1, 2, 3, 4] 4 0 4 10 (sv_init [0, 0, 0, 0] ''/a'' small_disk)"

definition sv_second :: save_sys where
  "sv_second = sv_write [8, 2, 3, 9] 4 3 2 20 sv_first"

lemma sv_first_reachable: "sv_reachable ok [0, 0, 0, 0] ''/a'' small_disk sv_first"
  unfolding sv_first_def
  by (rule sv_reachable.step [OF sv_reachable.start sv_step.wrote])
    (simp_all add: sv_init_def in_window_def)

lemma sv_second_reachable: "sv_reachable ok [0, 0, 0, 0] ''/a'' small_disk sv_second"
  unfolding sv_second_def
proof (rule sv_reachable.step [OF sv_first_reachable sv_step.wrote])
  fix i
  assume i: "i < unat (4 :: u32)" "\<not> in_window (unat (4 :: u32)) (unat (3 :: u32)) (unat (2 :: u32)) i"
  then have "i = 1 \<or> i = 2" by (auto simp: in_window_def)
  then show "[8, 2, 3, 9] ! i = sy_sram sv_first ! i" by (auto simp: sv_first_def sv_write_def)
qed (simp_all add: sv_first_def sv_write_def)

lemmas sv_demo = sv_second_def sv_first_def sv_write_def sv_init_def

theorem save_copy_tracks_sram_witness: "sf_buffer (sy_sf sv_second) = [8, 2, 3, 9]"
  using save_copy_tracks_sram [OF sv_second_reachable] by (simp add: sv_demo)

text \<open>
  C4: The save reaches the disk: when file writes succeed, then in every reachable state where
  nothing is dirty and no write is waiting, the file holds exactly the save memory; a flush
  leaves nothing dirty.
\<close>

theorem save_reaches_disk:
  assumes "sv_reachable True sram p d s" "sy_written s" "\<not> sf_dirty (sy_sf s)" "sy_queue s = []"
  shows "on_disk (sy_disk s) p (sy_sram s) \<and> \<not> sf_dirty (fst (sf_FlushNow (sy_sf s)))"
  using sv_reachable_inv [OF assms(1)] assms(2-4)
  by (simp add: sv_inv_def sf_FlushNow_def sf_StartFlush_def)

definition one_write :: write_answers where
  "one_write = \<lparr>wa_open = True, wa_writes = [Wrote 9], wa_fsync = True, wa_rename = True, wa_unlink = True\<rparr>"

lemma sv_flushed_step:
  "sv_step ok sv_second (sv_second\<lparr>sy_sf := (sy_sf sv_second)\<lparr>sf_dirty := False\<rparr>,
     sy_queue := [(''/a'', [8, 2, 3, 9])]\<rparr>)"
proof -
  have "sf_FlushNow (sy_sf sv_second) = ((sy_sf sv_second)\<lparr>sf_dirty := False\<rparr>, IoRun ''/a'' [8, 2, 3, 9])"
    by (simp add: sf_FlushNow_def sf_StartFlush_def sv_demo sf_new_def)
      code_simp
  from sv_step.now [OF this, of ok] show ?thesis
    by (simp add: post_request_def sv_demo)
qed

lemma sv_flushed_queue:
  "sy_queue (sv_second\<lparr>sy_sf := sf, sy_queue := [(''/a'', [8, 2, 3, 9])]\<rparr>) = (''/a'', [8, 2, 3, 9]) # []"
  "sy_disk (sv_second\<lparr>sy_sf := sf, sy_queue := q\<rparr>) = small_disk"
  by (simp_all add: sv_demo)

theorem save_reaches_disk_witness:
  "\<exists>s. sv_reachable True [0, 0, 0, 0] ''/a'' small_disk s \<and> sy_sram s = [8, 2, 3, 9] \<and>
    on_disk (sy_disk s) ''/a'' [8, 2, 3, 9]"
proof -
  let ?f = "sv_second\<lparr>sy_sf := (sy_sf sv_second)\<lparr>sf_dirty := False\<rparr>, sy_queue := [(''/a'', [8, 2, 3, 9])]\<rparr>"
  have "map_option fst (WriteFileAtomic one_write ''/a'' [8, 2, 3, 9] small_disk) = Some True"
    by code_simp
  then obtain tr where "WriteFileAtomic one_write ''/a'' [8, 2, 3, 9] (sy_disk ?f) = Some (True, tr)"
    by (auto simp: sv_flushed_queue)
  from sv_step.job [OF sv_flushed_queue(1) this, of True] have
    step: "sv_step True ?f (?f\<lparr>sy_queue := [], sy_disk := hd tr\<rparr>)" by simp
  note reach = sv_reachable.step [OF sv_reachable.step [OF sv_second_reachable sv_flushed_step] step]
  have "sv_reachable True [0, 0, 0, 0] ''/a'' small_disk (?f\<lparr>sy_queue := [], sy_disk := hd tr\<rparr>)"
    by (rule reach)
  moreover have "on_disk (hd tr) ''/a'' [8, 2, 3, 9]"
    using save_reaches_disk [OF reach] by (simp add: sv_demo)
  ultimately show ?thesis by (intro exI conjI) (assumption, simp_all add: sv_demo)
qed

text \<open>
  C17: A write that fails is not retried: a reachable state has nothing dirty and an empty queue
  while the file still holds the old save, and there neither \<open>CheckFlush\<close> nor \<open>FlushNow\<close>
  writes anything.
\<close>

theorem save_failed_write_dropped:
  "\<exists>s. sv_reachable False [0, 0, 0, 0] ''/a'' small_disk s \<and> sy_written s \<and> sy_queue s = [] \<and>
    \<not> on_disk (sy_disk s) ''/a'' (sy_sram s) \<and>
    (\<forall>now. sf_CheckFlush now (sy_sf s) = (sy_sf s, IoNothing)) \<and>
    sf_FlushNow (sy_sf s) = (sy_sf s, IoDrain)"
proof -
  let ?f = "sv_second\<lparr>sy_sf := (sy_sf sv_second)\<lparr>sf_dirty := False\<rparr>, sy_queue := [(''/a'', [8, 2, 3, 9])]\<rparr>"
  have "WriteFileAtomic (one_write\<lparr>wa_open := False\<rparr>) ''/a'' [8, 2, 3, 9] (sy_disk ?f) = Some (False, [small_disk])"
    by (simp add: WriteFileAtomic_def one_write_def sv_flushed_queue)
  from sv_step.job [OF sv_flushed_queue(1) this, of False] have
    step: "sv_step False ?f (?f\<lparr>sy_queue := [], sy_disk := small_disk\<rparr>)" by simp
  have reach: "sv_reachable False [0, 0, 0, 0] ''/a'' small_disk (?f\<lparr>sy_queue := [], sy_disk := small_disk\<rparr>)"
    by (rule sv_reachable.step [OF sv_reachable.step [OF sv_second_reachable sv_flushed_step] step])
  have "\<not> on_disk small_disk ''/a'' [8, 2, 3, 9]" by code_simp
  with reach show ?thesis
    by (intro exI conjI) (assumption, simp_all add: sv_demo sf_CheckFlush_def sf_FlushNow_def sf_StartFlush_def)
qed

text \<open>
  C6: A backup that is due and can be written is kept and the rotation is by age: the new copy
  holds the save, of all copies with the new one exactly the \<open>keep\<close> newest remain with their
  contents, and no older one does.  The time stamp is later than the names already there.
\<close>

theorem backup_rotation:
  assumes "ReadWholeFile (be_read env) path d [] = (True, data)" "data \<noteq> []"
    and "d1 = snd (MakeDirs (be_deny env) dir d)" "names = backup_names env dir d1"
    and "names \<noteq> [] \<Longrightarrow> snd (ReadWholeFile (be_read_newest env) (in_dir dir (last names)) d1 []) \<noteq> data"
    and "name = be_stamp env @ ''.sav''" "distinct names" "\<And>n. n \<in> set names \<Longrightarrow> n < name"
    and "WriteFileAtomic (be_write env) (in_dir dir name) data d1 = Some (True, tr)" "1 \<le> keep"
  shows "\<exists>d' f. BackupExisting env path dir keep d = Some d' \<and>
    fs_lookup d' (in_dir dir name) = Some f \<and> f_data f = data \<and>
    (\<forall>n \<in> set (take (Suc (length names) - nat keep) names). fs_lookup d' (in_dir dir n) = None) \<and>
    (\<forall>n \<in> set (drop (Suc (length names) - nat keep) names).
       fs_lookup d' (in_dir dir n) = fs_lookup d (in_dir dir n))"
proof -
  let ?all = "names @ [name]" and ?k = "Suc (length names) - nat keep"
  have k: "take ?k ?all = take ?k names" using assms(10) by auto
  have "0 \<le> keep" using assms(10) by simp
  from prune_backups_spec [OF this, of dir ?all "hd tr"] obtain d' where
    d': "prune_backups keep dir ?all (hd tr) = Some d'"
    "\<forall>n \<in> set (take ?k names). fs_lookup d' (in_dir dir n) = None"
    "\<forall>q. (\<forall>n \<in> set (take ?k names). q \<noteq> in_dir dir n) \<longrightarrow> fs_lookup d' q = fs_lookup (hd tr) q"
    using k by auto
  have frame: "fs_lookup d' (in_dir dir n) = fs_lookup (hd tr) (in_dir dir n)"
    if "n \<notin> set (take ?k names)" for n
    using that d'(3) by (metis in_dir_inj)
  obtain f where f: "fs_lookup (hd tr) (in_dir dir name) = Some f" "f_data f = data"
    using WriteFileAtomic_result(3) [OF assms(9)] by auto
  have new: "name \<notin> set (take ?k names)"
    using assms(8) in_set_takeD by fastforce
  have disj: "n \<notin> set (take ?k names)" if "n \<in> set (drop ?k names)" for n
    using that assms(7) set_take_disj_set_drop_if_distinct [of names ?k ?k] by auto
  have other: "fs_lookup (hd tr) (in_dir dir n) = fs_lookup d (in_dir dir n)" if "n \<in> set names" for n
  proof -
    have "n < name" "name < name @ ''.tmp''" using assms(8) that less_append_string by auto
    then have "n \<noteq> name" "n \<noteq> name @ ''.tmp''" by auto
    then show ?thesis
      using WriteFileAtomic_result(5) [OF assms(9), of "in_dir dir n"]
      by (simp add: tmp_path_in_dir assms(3) MakeDirs_lookup)
  qed
  have "BackupExisting env path dir keep d = Some d'"
    using BackupExisting_full [of env path d data dir True tr keep] assms(1-6,9) d'(1) by simp
  with d'(2) f frame new disj other show ?thesis by (auto dest!: in_set_dropD)
qed

definition full_read :: read_answers where
  "full_read = \<lparr>ra_open = True, ra_tell = True, ra_read = None\<rparr>"

definition backup_day :: "string \<Rightarrow> backup_env" where
  "backup_day stamp = \<lparr>be_read = full_read, be_deny = (\<lambda>_. False), be_opendir = True,
     be_read_newest = full_read, be_stamp = stamp, be_write = one_write\<rparr>"

definition backup_disk :: fs where
  "backup_disk = \<lparr>fs_files = [(''/s'', \<lparr>f_data = [7], f_synced = True\<rparr>),
     (''/b/1.sav'', \<lparr>f_data = [1], f_synced = True\<rparr>), (''/b/2.sav'', \<lparr>f_data = [2], f_synced = True\<rparr>)],
     fs_dirs = [''/b'']\<rparr>"

theorem backup_rotation_witness:
  "\<exists>d' f. BackupExisting (backup_day ''3'') ''/s'' ''/b'' 2 backup_disk = Some d' \<and>
    fs_lookup d' ''/b/3.sav'' = Some f \<and> f_data f = [7] \<and> fs_lookup d' ''/b/1.sav'' = None \<and>
    fs_lookup d' ''/b/2.sav'' = Some \<lparr>f_data = [2], f_synced = True\<rparr>"
proof -
  have r: "ReadWholeFile (be_read (backup_day ''3'')) ''/s'' backup_disk [] = (True, [7])" by code_simp
  have d1: "backup_disk = snd (MakeDirs (be_deny (backup_day ''3'')) ''/b'' backup_disk)" by code_simp
  have names: "[''1.sav'', ''2.sav''] = backup_names (backup_day ''3'') ''/b'' backup_disk" by code_simp
  have newest: "snd (ReadWholeFile (be_read_newest (backup_day ''3''))
    (in_dir ''/b'' (last [''1.sav'', ''2.sav''])) backup_disk []) \<noteq> [7]" by code_simp
  have name: "''3.sav'' = be_stamp (backup_day ''3'') @ ''.sav''" by code_simp
  have "map_option fst (WriteFileAtomic (be_write (backup_day ''3'')) (in_dir ''/b'' ''3.sav'') [7] backup_disk)
      = Some True" by code_simp
  then obtain tr where w:
    "WriteFileAtomic (be_write (backup_day ''3'')) (in_dir ''/b'' ''3.sav'') [7] backup_disk = Some (True, tr)"
    by auto
  have less: "n < ''3.sav''" if "n \<in> set [''1.sav'', ''2.sav'']" for n
    using that by (auto simp: less_char_def)
  have old: "fs_lookup backup_disk (in_dir ''/b'' ''2.sav'') = Some \<lparr>f_data = [2], f_synced = True\<rparr>"
    by code_simp
  show ?thesis
    using backup_rotation [OF r _ d1 names newest name _ less w, of 2] old
    by (auto simp: in_dir_def)
qed

text \<open>
  Names have a resolution of one second and the identity of the new backup is not checked
  before pruning: a second backup in the same second with \<open>keep = 1\<close> overwrites the first one,
  then unlinks the very file it has just written, so no backup is left.
\<close>

theorem backup_same_second_deletes_itself:
  "\<exists>d' d''. BackupExisting (backup_day ''3'') ''/s'' ''/b'' 1 backup_disk = Some d' \<and>
    backup_names (backup_day ''3'') ''/b'' d' = [''3.sav''] \<and>
    BackupExisting (backup_day ''3'') ''/s'' ''/b'' 1 (fs_put ''/s'' \<lparr>f_data = [8], f_synced = True\<rparr> d') = Some d'' \<and>
    backup_names (backup_day ''3'') ''/b'' d'' = []"
proof -
  have "(case BackupExisting (backup_day ''3'') ''/s'' ''/b'' 1 backup_disk of
      None \<Rightarrow> False
    | Some d' \<Rightarrow> backup_names (backup_day ''3'') ''/b'' d' = [''3.sav''] \<and>
        (case BackupExisting (backup_day ''3'') ''/s'' ''/b'' 1 (fs_put ''/s'' \<lparr>f_data = [8], f_synced = True\<rparr> d') of
           None \<Rightarrow> False
         | Some d'' \<Rightarrow> backup_names (backup_day ''3'') ''/b'' d'' = []))"
    by code_simp
  then show ?thesis by (auto split: option.splits)
qed

end
