(* ===== verification/LogRing.thy ===== *)
theory LogRing
  imports Prelude
begin

text \<open>
  The log of \<^verbatim>\<open>LogBuffer.cpp\<close>: every complete line goes to the system log and into a ring of at
  most 2000 lines; raw text is buffered until a newline arrives.  The text that \<^verbatim>\<open>vsnprintf\<close>
  formats is an argument; its truncation by the 1024 byte buffer is part of the model.
\<close>

section \<open>State and operations\<close>

datatype LogLevel = Debug | Info | Warn | Error

definition kMaxLines :: nat where "kMaxLines = 2000"

record log_buffer =
  gLines :: "string list"
  gPartial :: string
  gAndroid :: "(int \<times> string) list"

definition log_empty :: log_buffer where
  "log_empty = \<lparr>gLines = [], gPartial = [], gAndroid = []\<rparr>"

fun LevelPrefix :: "LogLevel \<Rightarrow> string" where
  "LevelPrefix Debug = ''D ''"
| "LevelPrefix Info = ''I ''"
| "LevelPrefix Warn = ''W ''"
| "LevelPrefix Error = ''E ''"

text \<open>The constants of \<^verbatim>\<open>android/log.h\<close>.\<close>

fun AndroidPriority :: "LogLevel \<Rightarrow> int" where
  "AndroidPriority Debug = 3"
| "AndroidPriority Info = 4"
| "AndroidPriority Warn = 5"
| "AndroidPriority Error = 6"

definition EmitLine :: "LogLevel \<Rightarrow> string \<Rightarrow> log_buffer \<Rightarrow> log_buffer" where
  "EmitLine level line g =
     (let lines = gLines g @ [LevelPrefix level @ line] in
      g\<lparr>gAndroid := gAndroid g @ [(AndroidPriority level, line)],
        gLines := (if length lines > kMaxLines then tl lines else lines)\<rparr>)"

text \<open>What \<^verbatim>\<open>vsnprintf\<close> leaves in \<^verbatim>\<open>char buf[1024]\<close>, read as a C string.\<close>

definition format_buf :: "string \<Rightarrow> string" where
  "format_buf text = c_str (take 1023 text)"

definition LogLine :: "LogLevel \<Rightarrow> string \<Rightarrow> log_buffer \<Rightarrow> log_buffer" where
  "LogLine level text g = EmitLine level (format_buf text) g"

function raw_loop :: "LogLevel \<Rightarrow> log_buffer \<Rightarrow> log_buffer" where
  "raw_loop level g =
     (if newline \<in> set (gPartial g)
      then let line = takeWhile (\<lambda>c. c \<noteq> newline) (gPartial g);
               g1 = g\<lparr>gPartial := drop (length line + 1) (gPartial g)\<rparr>
           in raw_loop level (if line \<noteq> [] then EmitLine level line g1 else g1)
      else g)"
  by pat_completeness auto
termination
proof (relation "measure (\<lambda>(l, g). length (gPartial g))", goal_cases)
  case (2 level g line g1)
  then have "gPartial g \<noteq> []" by auto
  with 2 show ?case by (auto simp: EmitLine_def Let_def)
qed simp

declare raw_loop.simps [simp del]

definition LogRaw :: "LogLevel \<Rightarrow> string \<Rightarrow> log_buffer \<Rightarrow> log_buffer" where
  "LogRaw level text g = raw_loop level (g\<lparr>gPartial := gPartial g @ format_buf text\<rparr>)"

definition LogSnapshot :: "log_buffer \<Rightarrow> string list" where
  "LogSnapshot g = gLines g"

definition LogClear :: "log_buffer \<Rightarrow> log_buffer" where
  "LogClear g = g\<lparr>gLines := []\<rparr>"

section \<open>Specification: the lines of a text\<close>

definition full_lines :: "string \<Rightarrow> string list" where
  "full_lines t = filter (\<lambda>l. l \<noteq> []) (fst (split_lines [] t))"

definition rest_line :: "string \<Rightarrow> string" where
  "rest_line t = snd (split_lines [] t)"

section \<open>Lemmas\<close>

lemma format_buf_id: "length t \<le> 1023 \<Longrightarrow> CHR 0x00 \<notin> set t \<Longrightarrow> format_buf t = t"
  by (simp add: format_buf_def c_str_id)

lemma format_buf_length: "length (format_buf t) \<le> 1023"
  using length_takeWhile_le [of _ "take 1023 t"] by (simp add: format_buf_def c_str_def)

lemma rest_line_append: "rest_line (rest_line s @ t) = rest_line (s @ t)"
  using split_lines_rest [of "[]" s]
  by (simp add: rest_line_def split_lines_append)

lemma full_lines_append: "full_lines (s @ t) = full_lines s @ full_lines (rest_line s @ t)"
  using split_lines_rest [of "[]" s]
  by (simp add: full_lines_def rest_line_def split_lines_append)

lemma EmitLine_keep:
  "length (gLines g) \<le> kMaxLines \<Longrightarrow>
     EmitLine l t g = g\<lparr>gAndroid := gAndroid g @ [(AndroidPriority l, t)],
       gLines := keep_last kMaxLines (gLines g @ [LevelPrefix l @ t])\<rparr>"
  by (cases "length (gLines g) = kMaxLines") (simp_all add: EmitLine_def Let_def keep_last_snoc_full)

text \<open>The loop of \<open>LogRaw\<close> emits the completed lines in order and keeps the rest.\<close>

lemma raw_loop_spec:
  "length (gLines g) \<le> kMaxLines \<Longrightarrow>
     raw_loop l g = \<lparr>gLines = keep_last kMaxLines (gLines g @ map ((@) (LevelPrefix l)) (full_lines (gPartial g))),
       gPartial = rest_line (gPartial g),
       gAndroid = gAndroid g @ map (Pair (AndroidPriority l)) (full_lines (gPartial g))\<rparr>"
proof (induction l g rule: raw_loop.induct)
  case (1 l g)
  show ?case
  proof (cases "newline \<in> set (gPartial g)")
    case False
    with split_lines_prefix [OF False, of "[]" "[]"] "1.prems" show ?thesis
      by (simp add: raw_loop.simps [of l g] full_lines_def rest_line_def)
  next
    case True
    define line where "line = takeWhile (\<lambda>c. c \<noteq> newline) (gPartial g)"
    define rest where "rest = drop (length line + 1) (gPartial g)"
    from True obtain a b where ab: "gPartial g = a @ newline # b" "newline \<notin> set a"
      by (auto dest: split_list_first)
    then have "line = a" by (auto simp: line_def takeWhile_append)
    with ab have part: "gPartial g = line @ newline # rest" by (simp add: rest_def)
    have free: "newline \<notin> set line" by (auto simp: line_def dest: set_takeWhileD)
    have fl: "full_lines (gPartial g) = (if line = [] then [] else [line]) @ full_lines rest"
      and rl: "rest_line (gPartial g) = rest_line rest"
      using free by (auto simp: part full_lines_def rest_line_def split_lines_prefix Let_def split: prod.splits)
    let ?g1 = "g\<lparr>gPartial := rest\<rparr>"
    let ?g2 = "if line \<noteq> [] then EmitLine l line ?g1 else ?g1"
    have len: "length (gLines ?g2) \<le> kMaxLines"
      using "1.prems" by (auto simp: EmitLine_keep)
    have "raw_loop l g = raw_loop l ?g2"
      using True by (simp add: raw_loop.simps [of l g] Let_def flip: line_def) (simp add: rest_def)
    also have "\<dots> = \<lparr>gLines = keep_last kMaxLines (gLines ?g2 @ map ((@) (LevelPrefix l)) (full_lines (gPartial ?g2))),
       gPartial = rest_line (gPartial ?g2),
       gAndroid = gAndroid ?g2 @ map (Pair (AndroidPriority l)) (full_lines (gPartial ?g2))\<rparr>"
      using "1.IH" [OF True line_def, of ?g1] len by (simp add: rest_def)
    finally show ?thesis
      using "1.prems" by (simp add: fl rl EmitLine_keep keep_last_append [of _ "gLines g @ [LevelPrefix l @ line]", simplified])
  qed
qed


text \<open>Fragments of one level, passed to \<open>LogRaw\<close> one after the other.\<close>

definition log_fragments :: "LogLevel \<Rightarrow> string list \<Rightarrow> log_buffer \<Rightarrow> log_buffer" where
  "log_fragments l fs g = fold (LogRaw l) fs g"

lemma log_fragments_spec:
  assumes "length (gLines g) \<le> kMaxLines" "newline \<notin> set (gPartial g)"
    and "\<And>f. f \<in> set fs \<Longrightarrow> length f \<le> 1023 \<and> CHR 0x00 \<notin> set f"
  shows "log_fragments l fs g =
    \<lparr>gLines = keep_last kMaxLines (gLines g @ map ((@) (LevelPrefix l)) (full_lines (gPartial g @ concat fs))),
     gPartial = rest_line (gPartial g @ concat fs),
     gAndroid = gAndroid g @ map (Pair (AndroidPriority l)) (full_lines (gPartial g @ concat fs))\<rparr>"
  using assms
proof (induction fs arbitrary: g)
  case Nil
  then show ?case by (simp add: log_fragments_def full_lines_def rest_line_def)
next
  case (Cons f fs)
  let ?g = "LogRaw l f g"
  have g: "?g = \<lparr>gLines = keep_last kMaxLines (gLines g @ map ((@) (LevelPrefix l)) (full_lines (gPartial g @ f))),
       gPartial = rest_line (gPartial g @ f),
       gAndroid = gAndroid g @ map (Pair (AndroidPriority l)) (full_lines (gPartial g @ f))\<rparr>"
    using Cons.prems by (simp add: LogRaw_def raw_loop_spec format_buf_id)
  have "newline \<notin> set (gPartial ?g)" by (simp add: g rest_line_def split_lines_rest)
  then have "log_fragments l fs ?g = \<lparr>gLines = keep_last kMaxLines (gLines ?g @ map ((@) (LevelPrefix l)) (full_lines (gPartial ?g @ concat fs))),
       gPartial = rest_line (gPartial ?g @ concat fs),
       gAndroid = gAndroid ?g @ map (Pair (AndroidPriority l)) (full_lines (gPartial ?g @ concat fs))\<rparr>"
    using Cons.prems by (intro Cons.IH) (simp_all add: g)
  then show ?case
    by (simp add: log_fragments_def g keep_last_append rest_line_append
        full_lines_append [of "gPartial g @ f" "concat fs", simplified])
qed

text \<open>Every log state: the calls the program makes keep the bound and complete lines.\<close>

datatype log_call = CallLine LogLevel string | CallRaw LogLevel string | CallClear

fun log_do :: "log_call \<Rightarrow> log_buffer \<Rightarrow> log_buffer" where
  "log_do (CallLine l t) g = LogLine l t g"
| "log_do (CallRaw l t) g = LogRaw l t g"
| "log_do CallClear g = LogClear g"

definition log_inv :: "log_buffer \<Rightarrow> bool" where
  "log_inv g \<longleftrightarrow> length (gLines g) \<le> kMaxLines \<and> newline \<notin> set (gPartial g)"

lemma log_do_inv: "log_inv g \<Longrightarrow> log_inv (log_do c g)"
  by (cases c) (auto simp: log_inv_def LogLine_def EmitLine_keep LogRaw_def raw_loop_spec
      rest_line_def split_lines_rest LogClear_def)

lemma log_fold_inv: "log_inv g \<Longrightarrow> log_inv (fold log_do cs g)"
  by (induction cs arbitrary: g) (auto intro: log_do_inv)

section \<open>Properties\<close>

text \<open>
  Fragments do not matter: after any log calls, text that arrives in any fragments (each
  within the 1023 bytes the formatting buffer holds) logs exactly the non-empty complete lines of
  the joined text, in order, to the system log and to the ring, whose content is the newest 2000
  lines; what follows the last newline waits.
\<close>

theorem log_fragments_join:
  assumes "g = fold log_do cs log_empty" "\<And>f. f \<in> set fs \<Longrightarrow> length f \<le> 1023 \<and> CHR 0x00 \<notin> set f"
  shows "LogSnapshot (log_fragments l fs g) =
      keep_last 2000 (LogSnapshot g @ map ((@) (LevelPrefix l)) (full_lines (gPartial g @ concat fs))) \<and>
    gAndroid (log_fragments l fs g) =
      gAndroid g @ map (Pair (AndroidPriority l)) (full_lines (gPartial g @ concat fs)) \<and>
    gPartial (log_fragments l fs g) = rest_line (gPartial g @ concat fs) \<and>
    length (LogSnapshot (log_fragments l fs g)) \<le> 2000"
proof -
  have "log_inv g" unfolding assms(1) by (rule log_fold_inv) (simp add: log_inv_def log_empty_def)
  with log_fragments_spec [of g fs l] assms(2) show ?thesis
    by (simp add: log_inv_def LogSnapshot_def kMaxLines_def)
qed

theorem log_fragments_join_witness:
  "LogSnapshot (log_fragments Info [''on'', ''e'' @ [newline] @ ''tw'', ''o'' @ [newline]] (LogLine Warn ''x'' log_empty))
    = [''W x'', ''I one'', ''I two'']"
proof -
  have g: "LogLine Warn ''x'' log_empty = fold log_do [CallLine Warn ''x''] log_empty" by simp
  have l: "full_lines (gPartial (LogLine Warn ''x'' log_empty) @
      concat [''on'', ''e'' @ [newline] @ ''tw'', ''o'' @ [newline]]) = [''one'', ''two'']"
    "LogSnapshot (LogLine Warn ''x'' log_empty) = [''W x'']" by code_simp+
  have "length f \<le> 1023 \<and> CHR 0x00 \<notin> set f"
    if "f \<in> set [''on'', ''e'' @ [newline] @ ''tw'', ''o'' @ [newline]]" for f
    using that by (auto simp: newline_def)
  from log_fragments_join [where fs = "[''on'', ''e'' @ [newline] @ ''tw'', ''o'' @ [newline]]" and l = Info, OF g this] l
  show ?thesis by simp
qed

end
