(* ===== verification/Config.thy ===== *)
theory Config
  imports Prelude
begin

text \<open>
  The settings of \<^verbatim>\<open>ConfigStore.h\<close>: three maps from keys to 64 bit integers, doubles and strings,
  written by the Kotlin side and read by every core with a default.  Doubles are the rationals
  they denote (the settings hold no NaN and no infinity).
\<close>

section \<open>The contract of a settings map\<close>

locale settings =
  fixes set_val :: "string \<Rightarrow> 'v \<Rightarrow> 's \<Rightarrow> 's"
    and get_val :: "'s \<Rightarrow> string \<Rightarrow> 'v \<Rightarrow> 'v"
    and fresh :: 's
  assumes get_fresh: "get_val fresh k v = v"
    and get_same: "get_val (set_val k v s) k d = v"
    and get_other: "j \<noteq> k \<Longrightarrow> get_val (set_val k v s) j d = get_val s j d"
begin

lemma get_after_sets:
  "get_val (fold (\<lambda>(k, v). set_val k v) kvs s) j d =
     (case map_of (rev kvs) j of Some v \<Rightarrow> v | None \<Rightarrow> get_val s j d)"
proof (induction kvs arbitrary: s)
  case (Cons kv kvs)
  then show ?case
    by (cases kv) (auto simp: get_same get_other map_add_def split: option.splits)
qed simp

lemma get_configured:
  "get_val (fold (\<lambda>(k, v). set_val k v) kvs fresh) j d =
     (case map_of (rev kvs) j of Some v \<Rightarrow> v | None \<Rightarrow> d)"
  by (simp add: get_after_sets get_fresh split: option.splits)

end

section \<open>The store\<close>

record config_store =
  cfg_ints :: "string \<Rightarrow> int option"
  cfg_floats :: "string \<Rightarrow> rat option"
  cfg_strings :: "string \<Rightarrow> string option"

definition config_new :: config_store where
  "config_new = \<lparr>cfg_ints = Map.empty, cfg_floats = Map.empty, cfg_strings = Map.empty\<rparr>"

definition SetInt :: "string \<Rightarrow> int \<Rightarrow> config_store \<Rightarrow> config_store" where
  "SetInt key v c = c\<lparr>cfg_ints := (cfg_ints c)(key := Some v)\<rparr>"

definition SetFloat :: "string \<Rightarrow> rat \<Rightarrow> config_store \<Rightarrow> config_store" where
  "SetFloat key v c = c\<lparr>cfg_floats := (cfg_floats c)(key := Some v)\<rparr>"

definition SetString :: "string \<Rightarrow> string \<Rightarrow> config_store \<Rightarrow> config_store" where
  "SetString key v c = c\<lparr>cfg_strings := (cfg_strings c)(key := Some v)\<rparr>"

definition GetInt :: "config_store \<Rightarrow> string \<Rightarrow> int \<Rightarrow> int" where
  "GetInt c key d = (case cfg_ints c key of None \<Rightarrow> d | Some v \<Rightarrow> v)"

definition GetBool :: "config_store \<Rightarrow> string \<Rightarrow> bool \<Rightarrow> bool" where
  "GetBool c key d = (GetInt c key (if d then 1 else 0) \<noteq> 0)"

definition GetFloat :: "config_store \<Rightarrow> string \<Rightarrow> rat \<Rightarrow> rat" where
  "GetFloat c key d = (case cfg_floats c key of None \<Rightarrow> d | Some v \<Rightarrow> v)"

definition GetString :: "config_store \<Rightarrow> string \<Rightarrow> string \<Rightarrow> string" where
  "GetString c key d = (case cfg_strings c key of None \<Rightarrow> d | Some v \<Rightarrow> v)"

interpretation ints: settings SetInt GetInt config_new
  by unfold_locales (auto simp: GetInt_def SetInt_def config_new_def)

interpretation floats: settings SetFloat GetFloat config_new
  by unfold_locales (auto simp: GetFloat_def SetFloat_def config_new_def)

interpretation strings: settings SetString GetString config_new
  by unfold_locales (auto simp: GetString_def SetString_def config_new_def)

text \<open>The three maps do not disturb each other.\<close>

lemma settings_independent [simp]:
  "GetInt (SetFloat k r c) j d = GetInt c j d"
  "GetInt (SetString k s c) j d = GetInt c j d"
  "GetFloat (SetInt k i c) j e = GetFloat c j e"
  "GetFloat (SetString k s c) j e = GetFloat c j e"
  "GetString (SetInt k i c) j t = GetString c j t"
  "GetString (SetFloat k r c) j t = GetString c j t"
  by (simp_all add: GetInt_def GetFloat_def GetString_def SetInt_def SetFloat_def SetString_def)

lemma GetBool_SetInt [simp]: "GetBool (SetInt k i c) k d \<longleftrightarrow> i \<noteq> 0"
  by (simp add: GetBool_def ints.get_same)

end
