(* ===== verification/Topology.thy ===== *)
theory Topology
  imports Prelude
begin

text \<open>
  Core classes and thread placement, \<^verbatim>\<open>CpuTopology.cpp\<close>: the cores are grouped by maximum frequency
  and the groups dealt out to the classes prime, mid and little; \<open>PinCurrentThread\<close> asks the kernel
  for the cores of one class.
\<close>

section \<open>Detection\<close>

datatype CoreClass = Prime | Mid | Little | Any

record CpuTopology =
  prime :: "nat list"
  mid :: "nat list"
  little :: "nat list"

text \<open>What the sysfs file of a core holds.\<close>

datatype freq_file = NoFile | NotANumber | Freq int

fun ReadMaxFreq :: "freq_file \<Rightarrow> int" where
  "ReadMaxFreq NoFile = - 1"
| "ReadMaxFreq NotANumber = - 1"
| "ReadMaxFreq (Freq f) = f"

text \<open>\<open>byFreq[f].push_back(i)\<close> in a map ordered from the highest frequency down.\<close>

fun push_freq :: "int \<Rightarrow> nat \<Rightarrow> (int \<times> nat list) list \<Rightarrow> (int \<times> nat list) list" where
  "push_freq f i [] = [(f, [i])]"
| "push_freq f i ((g, cs) # r) =
     (if f = g then (g, cs @ [i]) # r
      else if f > g then (f, [i]) # (g, cs) # r
      else (g, cs) # push_freq f i r)"

definition group_core :: "freq_file list \<Rightarrow> nat \<Rightarrow> (int \<times> nat list) list \<Rightarrow> (int \<times> nat list) list" where
  "group_core fs i m = (let f = ReadMaxFreq (fs ! i) in if f > 0 then push_freq f i m else m)"

definition group_cores :: "freq_file list \<Rightarrow> (int \<times> nat list) list" where
  "group_cores fs =
     fold (group_core fs) [0..<length fs] []"

definition Detect :: "freq_file list \<Rightarrow> CpuTopology" where
  "Detect fs =
     (let byFreq = group_cores fs in
      if byFreq = [] then \<lparr>prime = [], mid = [0..<length fs], little = []\<rparr>
      else \<lparr>prime = snd (hd byFreq),
            mid = concat (map snd (if length byFreq > 2 then butlast (tl byFreq) else tl byFreq)),
            little = (if length byFreq > 2 then snd (last byFreq) else [])\<rparr>)"

text \<open>The mask given to \<^verbatim>\<open>sched_setaffinity\<close>, whose result is the call's result.\<close>

definition class_cores :: "CpuTopology \<Rightarrow> CoreClass \<Rightarrow> nat list option" where
  "class_cores topo cls =
     (case cls of Prime \<Rightarrow> Some (prime topo) | Mid \<Rightarrow> Some (mid topo) | Little \<Rightarrow> Some (little topo) | Any \<Rightarrow> None)"

definition pin_mask :: "CpuTopology \<Rightarrow> nat \<Rightarrow> CoreClass \<Rightarrow> nat list" where
  "pin_mask topo ncpu cls =
     (case class_cores topo cls of
        None \<Rightarrow> [0..<ncpu]
      | Some cores \<Rightarrow> if cores = [] then [0..<ncpu] else cores)"

definition PinCurrentThread :: "(nat list \<Rightarrow> bool) \<Rightarrow> CpuTopology \<Rightarrow> nat \<Rightarrow> CoreClass \<Rightarrow> bool" where
  "PinCurrentThread sched_setaffinity topo ncpu cls = sched_setaffinity (pin_mask topo ncpu cls)"

section \<open>Lemmas\<close>

definition core_freq :: "freq_file list \<Rightarrow> nat \<Rightarrow> int" where
  "core_freq fs i = ReadMaxFreq (fs ! i)"

text \<open>Groups: strictly descending frequencies, none empty, each core in the group of its frequency.\<close>

definition groups_ok :: "freq_file list \<Rightarrow> nat set \<Rightarrow> (int \<times> nat list) list \<Rightarrow> bool" where
  "groups_ok fs seen m \<longleftrightarrow>
     sorted_wrt (>) (map fst m) \<and> (\<forall>(f, cs) \<in> set m. cs \<noteq> [] \<and> f > 0 \<and> (\<forall>c \<in> set cs. core_freq fs c = f)) \<and>
     distinct (concat (map snd m)) \<and> set (concat (map snd m)) = {i \<in> seen. core_freq fs i > 0}"

lemma push_freq_keys: "set (map fst (push_freq f i m)) = insert f (set (map fst m))"
  by (induction f i m rule: push_freq.induct) auto

lemma push_freq_sorted: "sorted_wrt (>) (map fst m) \<Longrightarrow> sorted_wrt (>) (map fst (push_freq f i m))"
proof (induction f i m rule: push_freq.induct)
  case (2 f i g cs r)
  have "\<And>x. x \<in> set (map fst (push_freq f i r)) \<Longrightarrow> x = f \<or> x \<in> set (map fst r)"
    unfolding push_freq_keys by simp
  then show ?case using 2 by (fastforce simp: less_le)
qed simp

lemma push_freq_cores:
  "set (concat (map snd (push_freq f i m))) = insert i (set (concat (map snd m)))"
  by (induction f i m rule: push_freq.induct) auto

lemma push_freq_distinct:
  "distinct (concat (map snd m)) \<Longrightarrow> i \<notin> set (concat (map snd m)) \<Longrightarrow>
     distinct (concat (map snd (push_freq f i m)))"
proof (induction f i m rule: push_freq.induct)
  case (2 f i g cs r)
  then show ?case using push_freq_cores [of f i r] by auto
qed simp

lemma push_freq_groups:
  "\<forall>(g, cs) \<in> set m. cs \<noteq> [] \<and> g > 0 \<and> (\<forall>c \<in> set cs. core_freq fs c = g) \<Longrightarrow> core_freq fs i = f \<Longrightarrow> f > 0 \<Longrightarrow>
     \<forall>(g, cs) \<in> set (push_freq f i m). cs \<noteq> [] \<and> g > 0 \<and> (\<forall>c \<in> set cs. core_freq fs c = g)"
  by (induction f i m rule: push_freq.induct) auto

lemma group_cores_ok: "groups_ok fs {..<length fs} (group_cores fs)"
proof -
  have "groups_ok fs {..<n}
    (fold (group_core fs) [0..<n] [])" for n
  proof (induction n)
    case 0
    show ?case by (simp add: groups_ok_def)
  next
    case (Suc n)
    define m where "m = fold (group_core fs) [0..<n] []"
    from Suc have ok: "groups_ok fs {..<n} m" by (simp add: m_def)
    have sets: "{i \<in> {..<Suc n}. 0 < core_freq fs i} =
        (if 0 < core_freq fs n then insert n {i \<in> {..<n}. 0 < core_freq fs i} else {i \<in> {..<n}. 0 < core_freq fs i})"
      by (auto simp: less_Suc_eq)
    have "groups_ok fs {..<Suc n} (if 0 < core_freq fs n then push_freq (core_freq fs n) n m else m)"
    proof (cases "0 < core_freq fs n")
      case True
      have new: "n \<notin> set (concat (map snd m))" using ok by (simp add: groups_ok_def)
      with True ok show ?thesis
        unfolding groups_ok_def sets push_freq_cores
        using push_freq_sorted [of m "core_freq fs n" n] push_freq_distinct [OF _ new, of "core_freq fs n"]
          push_freq_groups [of m fs n "core_freq fs n"] push_freq_cores [of "core_freq fs n" n m] by simp
    next
      case False
      with ok show ?thesis unfolding groups_ok_def sets by simp
    qed
    moreover have "group_core fs n m = (if 0 < core_freq fs n then push_freq (core_freq fs n) n m else m)"
      by (simp add: group_core_def core_freq_def Let_def)
    ultimately show ?case by (simp flip: m_def)
  qed
  then show ?thesis by (simp add: group_cores_def)
qed

text \<open>The three classes are the groups, dealt out in order.\<close>

lemma Detect_deal:
  assumes "group_cores fs \<noteq> []"
  obtains (two) f cs r where "group_cores fs = (f, cs) # r" "length r < 2"
      "Detect fs = \<lparr>prime = cs, mid = concat (map snd r), little = []\<rparr>"
  | (more) f cs ms g ls where "group_cores fs = (f, cs) # ms @ [(g, ls)]" "ms \<noteq> []"
      "Detect fs = \<lparr>prime = cs, mid = concat (map snd ms), little = ls\<rparr>"
proof -
  obtain f cs r where m: "group_cores fs = (f, cs) # r" using assms by (cases "group_cores fs") auto
  show ?thesis
  proof (cases "length r < 2")
    case True
    with m show ?thesis by (intro two) (simp_all add: Detect_def)
  next
    case False
    then have "r \<noteq> []" by auto
    then obtain ms g ls where r: "r = ms @ [(g, ls)]" by (metis append_butlast_last_id surj_pair)
    with False have "ms \<noteq> []" by (cases ms) auto
    with m r False have "Detect fs = \<lparr>prime = cs, mid = concat (map snd ms), little = ls\<rparr>"
      by (simp add: Detect_def)
    with m r \<open>ms \<noteq> []\<close> show ?thesis by (intro more) auto
  qed
qed

lemma Detect_partition:
  assumes "group_cores fs \<noteq> []"
  shows "distinct (prime (Detect fs) @ mid (Detect fs) @ little (Detect fs)) \<and>
    set (prime (Detect fs) @ mid (Detect fs) @ little (Detect fs)) = {i. i < length fs \<and> 0 < core_freq fs i} \<and>
    prime (Detect fs) \<noteq> [] \<and>
    (\<forall>p \<in> set (prime (Detect fs)). \<forall>q \<in> set (prime (Detect fs)). core_freq fs p = core_freq fs q) \<and>
    (\<forall>p \<in> set (prime (Detect fs)). \<forall>q \<in> set (mid (Detect fs)). core_freq fs q < core_freq fs p) \<and>
    (\<forall>p \<in> set (mid (Detect fs)). \<forall>q \<in> set (little (Detect fs)). core_freq fs q < core_freq fs p)"
  using assms
proof (cases rule: Detect_deal)
  case (two f cs r)
  with group_cores_ok [of fs] have "groups_ok fs {..<length fs} ((f, cs) # r)" by simp
  with two(3) show ?thesis by (fastforce simp: groups_ok_def)
next
  case (more f cs ms g ls)
  with group_cores_ok [of fs] have "groups_ok fs {..<length fs} ((f, cs) # ms @ [(g, ls)])" by simp
  with more(3) show ?thesis by (fastforce simp: groups_ok_def sorted_wrt_append)
qed

section \<open>Properties\<close>

text \<open>
  The classes partition the cores by speed: as soon as one frequency is readable, every core
  with a readable frequency is in exactly one class, the prime cores are the fastest ones and share
  one frequency, and every prime core is faster than every mid core, every mid core than every
  little one.
\<close>

theorem topology_partition:
  assumes "i < length fs" "0 < ReadMaxFreq (fs ! i)"
  shows "distinct (prime (Detect fs) @ mid (Detect fs) @ little (Detect fs)) \<and>
    set (prime (Detect fs) @ mid (Detect fs) @ little (Detect fs))
      = {i. i < length fs \<and> 0 < ReadMaxFreq (fs ! i)} \<and>
    prime (Detect fs) \<noteq> [] \<and>
    (\<forall>p \<in> set (prime (Detect fs)). \<forall>q \<in> set (prime (Detect fs)). core_freq fs p = core_freq fs q) \<and>
    (\<forall>p \<in> set (prime (Detect fs)). \<forall>q \<in> set (mid (Detect fs)). core_freq fs q < core_freq fs p) \<and>
    (\<forall>p \<in> set (mid (Detect fs)). \<forall>q \<in> set (little (Detect fs)). core_freq fs q < core_freq fs p)"
proof -
  have "set (concat (map snd (group_cores fs))) = {i. i < length fs \<and> 0 < core_freq fs i}"
    using group_cores_ok [of fs] by (simp add: groups_ok_def)
  then have "group_cores fs \<noteq> []" using assms by (auto simp: core_freq_def)
  from Detect_partition [OF this] show ?thesis unfolding core_freq_def by blast
qed

definition phone_cores :: "freq_file list" where
  "phone_cores = [Freq 2265, Freq 2265, Freq 3148, Freq 3148, Freq 3148, Freq 2956, Freq 2956, Freq 3302]"

theorem topology_partition_witness:
  "Detect phone_cores = \<lparr>prime = [7], mid = [2, 3, 4, 5, 6], little = [0, 1]\<rparr> \<and>
    distinct (prime (Detect phone_cores) @ mid (Detect phone_cores) @ little (Detect phone_cores))"
proof -
  have "Detect phone_cores = \<lparr>prime = [7], mid = [2, 3, 4, 5, 6], little = [0, 1]\<rparr>" by code_simp
  moreover have "(0 :: nat) < length phone_cores" "0 < ReadMaxFreq (phone_cores ! 0)" by code_simp+
  ultimately show ?thesis using topology_partition [of 0 phone_cores] by simp
qed

text \<open>
  The prime class is the fastest group whatever its size, and the slowest group is little only
  when there are at least three groups: with two groups of cores the slow ones are mid, no core is
  little, and a thread pinned to the little class may run on every core.
\<close>

theorem topology_two_clusters:
  "Detect [Freq 2000, Freq 2000, Freq 3000, Freq 3000] = \<lparr>prime = [2, 3], mid = [0, 1], little = []\<rparr> \<and>
   pin_mask (Detect [Freq 2000, Freq 2000, Freq 3000, Freq 3000]) 4 Little = [0, 1, 2, 3]"
  by code_simp

text \<open>
  A thread is never pinned to nothing: the mask given to the kernel is not empty on a machine
  with cores, names existing cores only, and is the class's cores whenever it has some.
\<close>

theorem pin_mask_valid:
  assumes "fs \<noteq> []"
  shows "pin_mask (Detect fs) (length fs) cls \<noteq> [] \<and>
    set (pin_mask (Detect fs) (length fs) cls) \<subseteq> {..<length fs}"
proof -
  have "set (prime (Detect fs) @ mid (Detect fs) @ little (Detect fs)) \<subseteq> {..<length fs}"
  proof (cases "group_cores fs = []")
    case True
    then show ?thesis by (auto simp: Detect_def)
  next
    case False
    from Detect_partition [OF this] show ?thesis by auto
  qed
  with assms show ?thesis
    by (cases cls) (auto simp: pin_mask_def class_cores_def)
qed

theorem pin_mask_valid_witness: "pin_mask (Detect phone_cores) 8 Little \<noteq> []"
proof -
  have "length phone_cores = 8" "phone_cores \<noteq> []" by code_simp+
  with pin_mask_valid [of phone_cores Little] show ?thesis by simp
qed

end
