(* ===== verification/SampleRings.thy ===== *)
theory SampleRings
  imports Interfaces
begin

text \<open>
  The three sample rings of the program, as the code has them: an array with a read index, a write
  index and a fill level.  \<^verbatim>\<open>GbaCore\<close> and \<^verbatim>\<open>ThreeDsCore\<close> keep the same stereo ring with different
  sizes and drop the oldest frame when it is full; \<^verbatim>\<open>AudioEngine\<close> keeps a mono ring for the
  microphone and drops the newest sample.  Each is an instance of the queue contracts.
\<close>

section \<open>Slots of a circular array\<close>

text \<open>The entries from a read index on, by the function from slots to entries.\<close>

definition slot_view :: "(nat \<Rightarrow> 'f) \<Rightarrow> nat \<Rightarrow> nat \<Rightarrow> nat \<Rightarrow> 'f list" where
  "slot_view f cap rd lv = map (\<lambda>i. f ((rd + i) mod cap)) [0..<lv]"

lemma slot_view_length [simp]: "length (slot_view f cap rd lv) = lv"
  by (simp add: slot_view_def)

lemma slot_index_less:
  assumes "i < (j :: nat)" "j < cap"
  shows "(rd + i) mod cap \<noteq> (rd + j) mod cap"
proof
  assume "(rd + i) mod cap = (rd + j) mod cap"
  then have "cap dvd (rd + j) - (rd + i)" using assms(1) by (metis add_le_cancel_left less_imp_le_nat mod_eq_dvd_iff_nat)
  then have "cap dvd j - i" by simp
  with assms show False using dvd_imp_le [of cap "j - i"] by simp
qed

lemma slot_view_cong:
  "(\<And>i. i < lv \<Longrightarrow> f ((rd + i) mod cap) = g ((rd + i) mod cap)) \<Longrightarrow> slot_view f cap rd lv = slot_view g cap rd lv"
  by (simp add: slot_view_def)

text \<open>Writing the slot after the last entry appends; moving the read index on drops the first.\<close>

lemma slot_view_put:
  assumes "lv < cap" "\<And>j. j \<noteq> (rd + lv) mod cap \<Longrightarrow> g j = f j" "g ((rd + lv) mod cap) = x"
  shows "slot_view g cap rd (Suc lv) = slot_view f cap rd lv @ [x]"
proof -
  have "slot_view g cap rd lv = slot_view f cap rd lv"
    using assms(1,2) slot_index_less by (intro slot_view_cong) blast
  with assms(3) show ?thesis by (simp add: slot_view_def)
qed

lemma slot_view_tl: "slot_view f cap ((rd + 1) mod cap) lv = tl (slot_view f cap rd (Suc lv))"
proof -
  have shift: "((rd + 1) mod cap + i) mod cap = (rd + Suc i) mod cap" for i
    by (simp add: mod_simps)
  have "map (\<lambda>i. f ((rd + Suc i) mod cap)) [0..<lv] = map (\<lambda>i. f ((rd + i) mod cap)) [Suc 0..<Suc lv]"
    by (simp add: map_Suc_upt [symmetric] del: upt_Suc)
  also have "\<dots> = tl (map (\<lambda>i. f ((rd + i) mod cap)) [0..<Suc lv])"
    by (simp add: upt_rec del: upt_Suc)
  finally show ?thesis unfolding slot_view_def shift .
qed

lemma slot_view_drop: "n \<le> lv \<Longrightarrow> slot_view f cap ((rd + n) mod cap) (lv - n) = drop n (slot_view f cap rd lv)"
proof (induction n)
  case 0
  then show ?case by (simp add: slot_view_def mod_simps)
next
  case (Suc n)
  then have "slot_view f cap ((rd + Suc n) mod cap) (lv - Suc n)
      = slot_view f cap (((rd + n) mod cap + 1) mod cap) (lv - Suc n)"
    by (simp add: mod_simps)
  also have "\<dots> = tl (slot_view f cap ((rd + n) mod cap) (lv - n))"
    unfolding slot_view_tl using Suc by (simp add: Suc_diff_Suc)
  finally show ?case using Suc by (simp add: drop_Suc tl_drop)
qed

lemma slot_view_hd: "slot_view f cap rd (Suc lv) = f (rd mod cap) # slot_view f cap ((rd + 1) mod cap) lv"
  unfolding slot_view_tl by (simp add: slot_view_def upt_rec del: upt_Suc)

section \<open>The stereo ring\<close>

type_synonym stereo = "i16 \<times> i16"

record stereo_ring =
  sr_buf :: "i16 list"
  sr_read :: nat
  sr_write :: nat
  sr_level :: nat

definition stereo_new :: "nat \<Rightarrow> stereo_ring" where
  "stereo_new cap = \<lparr>sr_buf = replicate (cap * 2) 0, sr_read = 0, sr_write = 0, sr_level = 0\<rparr>"

definition stereo_frame :: "stereo_ring \<Rightarrow> nat \<Rightarrow> stereo" where
  "stereo_frame r j = (sr_buf r ! (j * 2), sr_buf r ! (j * 2 + 1))"

definition stereo_put :: "nat \<Rightarrow> stereo \<Rightarrow> stereo_ring \<Rightarrow> stereo_ring" where
  "stereo_put cap x r =
     (let r1 = (if sr_level r \<ge> cap
                then r\<lparr>sr_read := (sr_read r + 1) mod cap, sr_level := sr_level r - 1\<rparr> else r)
      in r1\<lparr>sr_buf := (sr_buf r1)[sr_write r1 * 2 := fst x, sr_write r1 * 2 + 1 := snd x],
            sr_write := (sr_write r1 + 1) mod cap, sr_level := sr_level r1 + 1\<rparr>)"

fun stereo_take :: "nat \<Rightarrow> nat \<Rightarrow> stereo_ring \<Rightarrow> stereo_ring \<times> stereo list" where
  "stereo_take cap 0 r = (r, [])"
| "stereo_take cap (Suc n) r =
     (let (r', xs) = stereo_take cap n (r\<lparr>sr_read := (sr_read r + 1) mod cap\<rparr>)
      in (r', stereo_frame r (sr_read r) # xs))"

text \<open>\<open>ReadAudio\<close>: the frames read; their number is the call's result.\<close>

definition stereo_get :: "nat \<Rightarrow> nat \<Rightarrow> stereo_ring \<Rightarrow> stereo_ring \<times> stereo list" where
  "stereo_get cap frames r =
     (let n = min frames (sr_level r); (r', xs) = stereo_take cap n r
      in (r'\<lparr>sr_level := sr_level r' - n\<rparr>, xs))"

definition stereo_inv :: "nat \<Rightarrow> stereo_ring \<Rightarrow> bool" where
  "stereo_inv cap r \<longleftrightarrow>
     length (sr_buf r) = cap * 2 \<and> sr_read r < cap \<and> sr_level r \<le> cap \<and>
     sr_write r = (sr_read r + sr_level r) mod cap"

definition stereo_fifo :: "nat \<Rightarrow> stereo_ring \<Rightarrow> stereo list" where
  "stereo_fifo cap r = slot_view (stereo_frame r) cap (sr_read r) (sr_level r)"

lemma stereo_fifo_length [simp]: "length (stereo_fifo cap r) = sr_level r"
  by (simp add: stereo_fifo_def)

lemma stereo_new_inv: "0 < cap \<Longrightarrow> stereo_inv cap (stereo_new cap) \<and> stereo_fifo cap (stereo_new cap) = []"
  by (simp add: stereo_inv_def stereo_new_def stereo_fifo_def slot_view_def)

lemma stereo_frame_write:
  assumes "length (sr_buf r) = cap * 2" "w < cap"
  shows "stereo_frame (r\<lparr>sr_buf := (sr_buf r)[w * 2 := a, w * 2 + 1 := b], sr_write := v, sr_level := l\<rparr>) j
    = (if j = w then (a, b) else stereo_frame r j)"
proof -
  have "w * 2 + 1 < length (sr_buf r)" using assms by simp
  moreover have "w * 2 \<noteq> j * 2 + 1" "j * 2 \<noteq> w * 2 + 1" by presburger+
  ultimately show ?thesis by (auto simp: stereo_frame_def nth_list_update)
qed

lemma stereo_put_room:
  assumes "stereo_inv cap r" "sr_level r < cap"
  shows "stereo_inv cap (stereo_put cap x r) \<and> stereo_fifo cap (stereo_put cap x r) = stereo_fifo cap r @ [x]"
proof -
  let ?w = "sr_write r"
  let ?r = "r\<lparr>sr_buf := (sr_buf r)[?w * 2 := fst x, ?w * 2 + 1 := snd x],
    sr_write := (?w + 1) mod cap, sr_level := sr_level r + 1\<rparr>"
  have put: "stereo_put cap x r = ?r" using assms(2) by (simp add: stereo_put_def)
  have w: "?w = (sr_read r + sr_level r) mod cap" "?w < cap" "length (sr_buf r) = cap * 2"
    using assms by (simp_all add: stereo_inv_def)
  have "slot_view (stereo_frame ?r) cap (sr_read r) (Suc (sr_level r))
      = slot_view (stereo_frame r) cap (sr_read r) (sr_level r) @ [x]"
    using stereo_frame_write [OF w(3,2)] assms(2) w(1) by (intro slot_view_put) auto
  moreover have "stereo_inv cap ?r"
    using assms w by (simp add: stereo_inv_def mod_Suc_eq)
  ultimately show ?thesis unfolding put by (simp add: stereo_fifo_def)
qed

lemma stereo_drop_one:
  assumes "stereo_inv cap r" "0 < sr_level r"
  shows "stereo_inv cap (r\<lparr>sr_read := (sr_read r + 1) mod cap, sr_level := sr_level r - 1\<rparr>) \<and>
    stereo_fifo cap (r\<lparr>sr_read := (sr_read r + 1) mod cap, sr_level := sr_level r - 1\<rparr>) = tl (stereo_fifo cap r)"
proof -
  have frame: "stereo_frame (r\<lparr>sr_read := a, sr_level := b\<rparr>) = stereo_frame r" for a b
    by (rule ext) (simp add: stereo_frame_def)
  obtain l where l: "sr_level r = Suc l" using assms(2) by (cases "sr_level r") auto
  have "((sr_read r + 1) mod cap + l) mod cap = (sr_read r + Suc l) mod cap" by (simp add: mod_simps)
  then show ?thesis
    using assms(1) l slot_view_tl [of "stereo_frame r" cap "sr_read r" l]
    by (simp add: stereo_inv_def stereo_fifo_def frame)
qed

lemma stereo_put_full:
  assumes "stereo_inv cap r" "sr_level r = cap"
  shows "stereo_inv cap (stereo_put cap x r) \<and> stereo_fifo cap (stereo_put cap x r) = tl (stereo_fifo cap r @ [x])"
proof -
  let ?r = "r\<lparr>sr_read := (sr_read r + 1) mod cap, sr_level := sr_level r - 1\<rparr>"
  have pos: "0 < sr_level r" using assms by (simp add: stereo_inv_def)
  have "stereo_put cap x r = stereo_put cap x ?r" using assms pos by (simp add: stereo_put_def)
  moreover have "sr_level ?r < cap" using assms pos by simp
  moreover have "stereo_fifo cap r \<noteq> []" using pos by (simp flip: length_greater_0_conv)
  ultimately show ?thesis
    using stereo_drop_one [OF assms(1) pos] stereo_put_room [of cap ?r x] by simp
qed

lemma stereo_take_view:
  "sr_read r < cap \<Longrightarrow> n \<le> lv \<Longrightarrow> stereo_take cap n r =
     (r\<lparr>sr_read := (sr_read r + n) mod cap\<rparr>, take n (slot_view (stereo_frame r) cap (sr_read r) lv))"
proof (induction n arbitrary: r lv)
  case (Suc n)
  then obtain l where l: "lv = Suc l" "n \<le> l" by (cases lv) auto
  let ?r = "r\<lparr>sr_read := (sr_read r + 1) mod cap\<rparr>"
  have frame: "stereo_frame ?r = stereo_frame r" by (rule ext) (simp add: stereo_frame_def)
  have "stereo_take cap n ?r =
      (?r\<lparr>sr_read := (sr_read ?r + n) mod cap\<rparr>, take n (slot_view (stereo_frame ?r) cap (sr_read ?r) l))"
    using Suc.prems l(2) by (intro Suc.IH) simp_all
  then show ?case
    using Suc.prems unfolding l(1) slot_view_hd frame by (simp add: mod_simps)
qed simp

lemma slot_write_shift: "n \<le> lv \<Longrightarrow> ((rd + n) mod cap + (lv - n)) mod cap = (rd + lv) mod (cap :: nat)"
  by (simp only: mod_add_left_eq) simp

lemma subseq_tl: "subseq (tl xs) xs"
  by (cases xs) auto

lemma stereo_get_fifo:
  assumes "stereo_inv cap r"
  shows "stereo_inv cap (fst (stereo_get cap n r)) \<and> snd (stereo_get cap n r) = take n (stereo_fifo cap r) \<and>
    stereo_fifo cap (fst (stereo_get cap n r)) = drop n (stereo_fifo cap r)"
proof -
  let ?n = "min n (sr_level r)"
  let ?r = "r\<lparr>sr_read := (sr_read r + ?n) mod cap, sr_level := sr_level r - ?n\<rparr>"
  have rd: "sr_read r < cap" using assms by (simp add: stereo_inv_def)
  have get: "stereo_get cap n r = (?r, take ?n (stereo_fifo cap r))"
    using stereo_take_view [OF rd, of ?n "sr_level r"] by (simp add: stereo_get_def stereo_fifo_def Let_def)
  have frame: "stereo_frame ?r = stereo_frame r" by (rule ext) (simp add: stereo_frame_def)
  have take: "take ?n (stereo_fifo cap r) = take n (stereo_fifo cap r)"
    "drop ?n (stereo_fifo cap r) = drop n (stereo_fifo cap r)"
    by (cases "n \<le> sr_level r"; simp)+
  have "stereo_fifo cap ?r = drop ?n (stereo_fifo cap r)"
    using slot_view_drop [of ?n "sr_level r" "stereo_frame r" cap "sr_read r"]
    by (simp add: stereo_fifo_def frame)
  moreover have "stereo_inv cap ?r"
    using assms slot_write_shift [of ?n "sr_level r" "sr_read r" cap] by (auto simp: stereo_inv_def)
  ultimately show ?thesis by (simp add: get take)
qed

text \<open>Both output rings are queues that drop the oldest frame.\<close>

lemma stereo_queue: "drop_oldest_queue (stereo_put cap) (stereo_get cap) (stereo_fifo cap) (stereo_inv cap) cap"
proof
  fix r :: stereo_ring and x n
  assume inv: "stereo_inv cap r"
  then have le: "sr_level r \<le> cap" by (simp add: stereo_inv_def)
  note put = stereo_put_room [OF inv] stereo_put_full [OF inv]
  show "stereo_inv cap (stereo_put cap x r)"
    using put le by (cases "sr_level r = cap") auto
  show "subseq (stereo_fifo cap (stereo_put cap x r)) (stereo_fifo cap r @ [x])"
    using put le by (cases "sr_level r = cap") (auto intro: subseq_tl)
  show "length (stereo_fifo cap r) \<le> cap" using le by simp
  show "stereo_inv cap (fst (stereo_get cap n r))" "snd (stereo_get cap n r) = take n (stereo_fifo cap r)"
    "stereo_fifo cap (fst (stereo_get cap n r)) = drop n (stereo_fifo cap r)"
    using stereo_get_fifo [OF inv] by auto
  show "stereo_fifo cap (stereo_put cap x r) = stereo_fifo cap r @ [x]" if "length (stereo_fifo cap r) < cap"
    using put that by simp
  show "stereo_fifo cap (stereo_put cap x r) = tl (stereo_fifo cap r @ [x])" if "length (stereo_fifo cap r) = cap"
    using put that by simp
qed

definition kAudioRingFrames :: nat where "kAudioRingFrames = 8192"

definition kRingFrames :: nat where "kRingFrames = 16384"

interpretation gba_ring: drop_oldest_queue "stereo_put kAudioRingFrames" "stereo_get kAudioRingFrames"
    "stereo_fifo kAudioRingFrames" "stereo_inv kAudioRingFrames" kAudioRingFrames
  by (rule stereo_queue)

interpretation n3_ring: drop_oldest_queue "stereo_put kRingFrames" "stereo_get kRingFrames"
    "stereo_fifo kRingFrames" "stereo_inv kRingFrames" kRingFrames
  by (rule stereo_queue)

end
