(* ===== verification/AudioOut.thy ===== *)
theory AudioOut
  imports SampleRings
begin

text \<open>
  Sound output and the microphone, class \<^verbatim>\<open>AudioEngine\<close> of \<^verbatim>\<open>AudioEngine.cpp\<close>.  The streams belong to
  the Oboe library: what opening and starting one answers, and the properties of the opened stream,
  are arguments.  A frame of two 16 bit samples is a pair.
\<close>

section \<open>State\<close>

record out_stream =
  os_id :: nat
  os_rate :: int
  os_burst :: int
  os_capacity :: int
  os_buffer :: int

text \<open>The answers of Oboe to opening and starting a stream.\<close>

record stream_answers =
  sa_open :: "out_stream option"
  sa_start :: bool

record mic_ring =
  micRing :: "i16 list"
  micRead :: nat
  micWrite :: nat
  micLevel :: nat

record audio_engine =
  outStream :: "out_stream option"
  volume :: rat
  muted :: bool
  extraLatencyMs :: int
  lastFrame :: stereo
  micStream :: "nat option"
  micQueue :: mic_ring
  micResamplePos :: rat
  micAllowed :: bool
  micWanted :: bool

definition kSampleRate :: int where "kSampleRate = 48000"

definition kMicRingSize :: nat where "kMicRingSize = 16384"

definition kMicOutputRate :: rat where "kMicOutputRate = 477434659091 / 10000000"

definition mic_new :: mic_ring where
  "mic_new = \<lparr>micRing = replicate kMicRingSize 0, micRead = 0, micWrite = 0, micLevel = 0\<rparr>"

definition audio_new :: audio_engine where
  "audio_new = \<lparr>outStream = None, volume = 1, muted = False, extraLatencyMs = 0, lastFrame = (0, 0),
     micStream = None, micQueue = mic_new, micResamplePos = 0, micAllowed = False, micWanted = False\<rparr>"

section \<open>Output\<close>

definition ApplyBufferSize :: "audio_engine \<Rightarrow> audio_engine" where
  "ApplyBufferSize a =
     (case outStream a of
        None \<Rightarrow> a
      | Some s \<Rightarrow>
          let frames = os_burst s * 2 + extraLatencyMs a * os_rate s div 1000
          in a\<lparr>outStream := Some (s\<lparr>os_buffer := min frames (os_capacity s)\<rparr>)\<rparr>)"

definition OpenOutput :: "stream_answers \<Rightarrow> audio_engine \<Rightarrow> audio_engine \<times> bool" where
  "OpenOutput ans a =
     (case sa_open ans of
        None \<Rightarrow> (a\<lparr>outStream := None\<rparr>, False)
      | Some s \<Rightarrow>
          let a1 = ApplyBufferSize (a\<lparr>outStream := Some s\<rparr>)
          in if sa_start ans then (a1, True) else (a1\<lparr>outStream := None\<rparr>, False))"

definition StartOutput :: "stream_answers \<Rightarrow> audio_engine \<Rightarrow> audio_engine \<times> bool" where
  "StartOutput ans a = (if outStream a \<noteq> None then (a, True) else OpenOutput ans a)"

definition StopOutput :: "audio_engine \<Rightarrow> audio_engine" where
  "StopOutput a = a\<lparr>outStream := None\<rparr>"

definition SetExtraLatencyMs :: "int \<Rightarrow> audio_engine \<Rightarrow> audio_engine" where
  "SetExtraLatencyMs ms a = ApplyBufferSize (a\<lparr>extraLatencyMs := max 0 ms\<rparr>)"

definition onErrorAfterClose :: "nat \<Rightarrow> stream_answers \<Rightarrow> audio_engine \<Rightarrow> audio_engine" where
  "onErrorAfterClose sid ans a =
     (case outStream a of
        Some s \<Rightarrow> if os_id s = sid then fst (OpenOutput ans (a\<lparr>outStream := None\<rparr>)) else a
      | None \<Rightarrow> a)"

text \<open>\<open>(int16_t)((s * vol) >> 8)\<close>.\<close>

definition scale_sample :: "int \<Rightarrow> i16 \<Rightarrow> i16" where
  "scale_sample vol s = word_of_int (sint s * vol div 256)"

text \<open>
  The literal \<^verbatim>\<open>0.999f\<close> is the float \<open>16760439 / 2 ^ 24\<close>.  The source is \<open>None\<close> when disconnected,
  and otherwise maps the number of frames wanted to the frames it delivers.
\<close>

definition onAudioReady :: "(nat \<Rightarrow> stereo list) option \<Rightarrow> nat \<Rightarrow> audio_engine \<Rightarrow> audio_engine \<times> stereo list" where
  "onAudioReady source numFrames a =
     (let got = (case source of None \<Rightarrow> [] | Some read \<Rightarrow> read numFrames) in
      if got = [] then (a\<lparr>lastFrame := (0, 0)\<rparr>, replicate numFrames (0, 0))
      else
        let a1 = a\<lparr>lastFrame := last got\<rparr>;
            frames = got @ replicate (numFrames - length got) (lastFrame a1)
        in if muted a1 then (a1, replicate numFrames (0, 0))
           else if volume a1 < 16760439 / 2 ^ 24
           then let vol = c_trunc (volume a1 * 256)
                in (a1, map (\<lambda>(l, r). (scale_sample vol l, scale_sample vol r)) frames)
           else (a1, frames))"

section \<open>The microphone\<close>

definition mic_put :: "i16 \<Rightarrow> mic_ring \<Rightarrow> mic_ring" where
  "mic_put s m =
     (if micLevel m < length (micRing m)
      then m\<lparr>micRing := (micRing m)[micWrite m := s],
             micWrite := (micWrite m + 1) mod length (micRing m), micLevel := micLevel m + 1\<rparr>
      else m)"

text \<open>
  The resampling loop of the input callback: linear interpolation at positions \<open>pos\<close>, \<open>pos + step\<close>,
  \<dots> of the buffer.  \<open>None\<close> is a loop that never ends.
\<close>

partial_function (option) mic_loop ::
  "(rat \<Rightarrow> rat) \<Rightarrow> rat \<Rightarrow> i16 list \<Rightarrow> rat \<Rightarrow> mic_ring \<Rightarrow> (rat \<times> mic_ring) option" where
  "mic_loop fl step inp pos m =
     (if pos < of_int (int (length inp) - 1)
      then let i = nat (c_trunc pos);
               frac = fl (pos - of_nat i);
               s = word_of_int (lerp fl (sint (inp ! i)) (sint (inp ! (i + 1))) frac)
           in mic_loop fl step inp (fl (pos + step)) (mic_put s m)
      else Some (pos, m))"

definition onMicReady ::
  "(rat \<Rightarrow> rat) \<Rightarrow> rat \<Rightarrow> i16 list \<Rightarrow> audio_engine \<Rightarrow> audio_engine option" where
  "onMicReady fl step inp a =
     (case mic_loop fl step inp (micResamplePos a) (micQueue a) of
        None \<Rightarrow> None
      | Some (pos, m) \<Rightarrow>
          Some (a\<lparr>micQueue := m, micResamplePos := fl (pos - of_int (int (length inp) - 1))\<rparr>))"

definition mic_step :: "(rat \<Rightarrow> rat) \<Rightarrow> rat" where
  "mic_step fl = fl (of_int kSampleRate / kMicOutputRate)"

text \<open>\<open>opened\<close> is the stream Oboe opened, if any, \<open>started\<close> whether it started.\<close>

definition StartMic :: "nat option \<Rightarrow> bool \<Rightarrow> audio_engine \<Rightarrow> audio_engine" where
  "StartMic opened started a =
     (let a1 = a\<lparr>micWanted := True\<rparr> in
      if micStream a1 \<noteq> None \<or> \<not> micAllowed a1 then a1
      else if opened = None \<or> \<not> started then a1\<lparr>micStream := None\<rparr>
      else a1\<lparr>micStream := opened,
              micQueue := (micQueue a1)\<lparr>micRead := 0, micWrite := 0, micLevel := 0\<rparr>, micResamplePos := 0\<rparr>)"

definition StopMic :: "audio_engine \<Rightarrow> audio_engine" where
  "StopMic a = a\<lparr>micWanted := False, micStream := None\<rparr>"

definition SetMicAllowed :: "bool \<Rightarrow> nat option \<Rightarrow> bool \<Rightarrow> audio_engine \<Rightarrow> audio_engine" where
  "SetMicAllowed allowed opened started a =
     (let a1 = a\<lparr>micAllowed := allowed\<rparr>;
          a2 = (if allowed \<and> micWanted a1 \<and> micStream a1 = None then StartMic opened started a1 else a1)
      in if \<not> allowed then StopMic a2 else a2)"

definition MicActive :: "audio_engine \<Rightarrow> bool" where
  "MicActive a \<longleftrightarrow> micStream a \<noteq> None"

fun mic_take :: "nat \<Rightarrow> mic_ring \<Rightarrow> mic_ring \<times> i16 list" where
  "mic_take 0 m = (m, [])"
| "mic_take (Suc n) m =
     (let (m', xs) = mic_take n (m\<lparr>micRead := (micRead m + 1) mod length (micRing m)\<rparr>)
      in (m', micRing m ! micRead m # xs))"

definition mic_get :: "nat \<Rightarrow> mic_ring \<Rightarrow> mic_ring \<times> i16 list" where
  "mic_get maxSamples m =
     (let n = min maxSamples (micLevel m); (m', xs) = mic_take n m
      in (m'\<lparr>micLevel := micLevel m' - n\<rparr>, xs))"

definition ReadMic :: "nat \<Rightarrow> audio_engine \<Rightarrow> audio_engine \<times> i16 list" where
  "ReadMic maxSamples a = (let (m, xs) = mic_get maxSamples (micQueue a) in (a\<lparr>micQueue := m\<rparr>, xs))"

section \<open>The microphone ring is a queue that drops the newest sample\<close>

definition mic_inv :: "mic_ring \<Rightarrow> bool" where
  "mic_inv m \<longleftrightarrow>
     length (micRing m) = kMicRingSize \<and> micRead m < kMicRingSize \<and> micLevel m \<le> kMicRingSize \<and>
     micWrite m = (micRead m + micLevel m) mod kMicRingSize"

definition mic_fifo :: "mic_ring \<Rightarrow> i16 list" where
  "mic_fifo m = slot_view ((!) (micRing m)) kMicRingSize (micRead m) (micLevel m)"

lemma mic_fifo_length [simp]: "length (mic_fifo m) = micLevel m"
  by (simp add: mic_fifo_def)

lemma mic_new_inv: "mic_inv mic_new" "mic_fifo mic_new = []"
  by (simp_all add: mic_inv_def mic_new_def mic_fifo_def slot_view_def kMicRingSize_def)

lemma mic_put_room:
  assumes "mic_inv m" "micLevel m < kMicRingSize"
  shows "mic_inv (mic_put s m) \<and> mic_fifo (mic_put s m) = mic_fifo m @ [s]"
proof -
  let ?m = "m\<lparr>micRing := (micRing m)[micWrite m := s],
    micWrite := (micWrite m + 1) mod length (micRing m), micLevel := micLevel m + 1\<rparr>"
  have put: "mic_put s m = ?m" using assms by (simp add: mic_put_def mic_inv_def)
  have w: "micWrite m = (micRead m + micLevel m) mod kMicRingSize" "micWrite m < length (micRing m)"
    using assms by (simp_all add: mic_inv_def)
  have "slot_view ((!) (micRing ?m)) kMicRingSize (micRead m) (Suc (micLevel m))
      = slot_view ((!) (micRing m)) kMicRingSize (micRead m) (micLevel m) @ [s]"
    using assms(2) w by (intro slot_view_put) (simp_all add: nth_list_update)
  moreover have "mic_inv ?m" using assms by (simp add: mic_inv_def mod_Suc_eq)
  ultimately show ?thesis unfolding put by (simp add: mic_fifo_def)
qed

lemma mic_take_view:
  "mic_inv m' \<Longrightarrow> micRing m = micRing m' \<Longrightarrow> micRead m < kMicRingSize \<Longrightarrow> n \<le> lv \<Longrightarrow> mic_take n m =
     (m\<lparr>micRead := (micRead m + n) mod kMicRingSize\<rparr>,
      take n (slot_view ((!) (micRing m)) kMicRingSize (micRead m) lv))"
proof (induction n arbitrary: m lv)
  case (Suc n)
  then obtain l where l: "lv = Suc l" "n \<le> l" by (cases lv) auto
  have len: "length (micRing m) = kMicRingSize" using Suc.prems(1,2) by (simp add: mic_inv_def)
  let ?m = "m\<lparr>micRead := (micRead m + 1) mod kMicRingSize\<rparr>"
  have "mic_take n ?m = (?m\<lparr>micRead := (micRead ?m + n) mod kMicRingSize\<rparr>,
      take n (slot_view ((!) (micRing ?m)) kMicRingSize (micRead ?m) l))"
    using Suc.prems l(2) by (intro Suc.IH) simp_all
  then show ?case
    using Suc.prems len unfolding l(1) slot_view_hd by (simp add: mod_simps)
qed simp

lemma mic_get_fifo:
  assumes "mic_inv m"
  shows "mic_inv (fst (mic_get n m)) \<and> snd (mic_get n m) = take n (mic_fifo m) \<and>
    mic_fifo (fst (mic_get n m)) = drop n (mic_fifo m)"
proof -
  let ?n = "min n (micLevel m)"
  let ?m = "m\<lparr>micRead := (micRead m + ?n) mod kMicRingSize, micLevel := micLevel m - ?n\<rparr>"
  have rd: "micRead m < kMicRingSize" using assms by (simp add: mic_inv_def)
  have get: "mic_get n m = (?m, take ?n (mic_fifo m))"
    using mic_take_view [OF assms refl rd, of ?n "micLevel m"] by (simp add: mic_get_def mic_fifo_def Let_def)
  have take: "take ?n (mic_fifo m) = take n (mic_fifo m)" "drop ?n (mic_fifo m) = drop n (mic_fifo m)"
    by (cases "n \<le> micLevel m"; simp)+
  have "mic_fifo ?m = drop ?n (mic_fifo m)"
    using slot_view_drop [of ?n "micLevel m" "(!) (micRing m)" kMicRingSize "micRead m"]
    by (simp add: mic_fifo_def)
  moreover have "mic_inv ?m"
    using assms slot_write_shift [of ?n "micLevel m" "micRead m" kMicRingSize] by (auto simp: mic_inv_def)
  ultimately show ?thesis by (simp add: get take)
qed

lemma mic_put_full: "mic_inv m \<Longrightarrow> micLevel m = kMicRingSize \<Longrightarrow> mic_put s m = m"
  by (simp add: mic_put_def mic_inv_def)

interpretation mic: drop_newest_queue mic_put mic_get mic_fifo mic_inv kMicRingSize
proof
  fix m :: mic_ring and x n
  assume inv: "mic_inv m"
  then have le: "micLevel m \<le> kMicRingSize" by (simp add: mic_inv_def)
  note put = mic_put_room [OF inv] mic_put_full [OF inv]
  show "mic_inv (mic_put x m)" using put le inv by (cases "micLevel m = kMicRingSize") auto
  show "subseq (mic_fifo (mic_put x m)) (mic_fifo m @ [x])"
    using put le by (cases "micLevel m = kMicRingSize") auto
  show "length (mic_fifo m) \<le> kMicRingSize" using le by simp
  show "mic_inv (fst (mic_get n m))" "snd (mic_get n m) = take n (mic_fifo m)"
    "mic_fifo (fst (mic_get n m)) = drop n (mic_fifo m)"
    using mic_get_fifo [OF inv] by auto
  show "mic_fifo (mic_put x m) = mic_fifo m @ [x]" if "length (mic_fifo m) < kMicRingSize"
    using put that by simp
  show "mic_fifo (mic_put x m) = mic_fifo m" if "length (mic_fifo m) = kMicRingSize"
    using put that by simp
qed

section \<open>The input callback\<close>

lemma rounds_add_step:
  assumes "rounds fl" "1 / 2 \<le> step" "step \<le> 2 ^ 20" "0 \<le> pos" "pos \<le> 2 ^ 30"
  shows "pos + 1 / 4 \<le> fl (pos + step)"
proof -
  have "\<bar>pos + step\<bar> \<le> 2 ^ 31" using assms(2-5) by (simp add: abs_le_iff)
  moreover have "\<bar>fl (pos + step) - (pos + step)\<bar> \<le> (\<bar>pos + step\<bar> + 1) / 2 ^ 50"
    using assms(1) calculation unfolding rounds_def by auto
  ultimately have "\<bar>fl (pos + step) - (pos + step)\<bar> \<le> 1 / 4" by (simp add: field_simps)
  with assms(2) show ?thesis by linarith
qed

text \<open>A sample between two neighbours of the input.\<close>

definition between_neighbours :: "i16 list \<Rightarrow> i16 \<Rightarrow> bool" where
  "between_neighbours inp s \<longleftrightarrow> (\<exists>i. i + 1 < length inp \<and>
     min (sint (inp ! i)) (sint (inp ! (i + 1))) \<le> sint s \<and>
     sint s \<le> max (sint (inp ! i)) (sint (inp ! (i + 1))))"

lemma sint_i16: "- 32768 \<le> sint (s :: i16) \<and> sint s \<le> 32767"
  using sint_ge [of s] sint_lt [of s] by simp

lemma sint_word_of_int_i16: "- 32768 \<le> i \<Longrightarrow> i \<le> 32767 \<Longrightarrow> sint (word_of_int i :: i16) = i"
  by (simp add: sint_sbintrunc' signed_take_bit_int_eq_self)

lemma mic_sample_between:
  assumes "rounds fl" "0 \<le> pos" "pos < of_int (int (length inp) - 1)" "i = nat (c_trunc pos)"
  shows "i + 1 < length inp \<and>
    between_neighbours inp (word_of_int (lerp fl (sint (inp ! i)) (sint (inp ! (i + 1))) (fl (pos - of_nat i))))"
proof -
  have floor: "c_trunc pos = \<lfloor>pos\<rfloor>" "0 \<le> \<lfloor>pos\<rfloor>" using assms(2) by (simp_all add: c_trunc_def)
  have "\<lfloor>pos\<rfloor> < int (length inp) - 1" using assms(3) by (simp add: floor_less_iff)
  then have i: "i + 1 < length inp" using assms(4) floor by linarith
  have of_i: "(of_nat i :: rat) = of_int \<lfloor>pos\<rfloor>" using assms(4) floor by (simp add: of_nat_nat)
  have "of_int 0 \<le> fl (pos - of_nat i) \<and> fl (pos - of_nat i) \<le> of_int 1"
    unfolding of_i by (intro rounds_between [OF assms(1)]) (simp, linarith, simp, simp)
  then have t: "0 \<le> fl (pos - of_nat i)" "fl (pos - of_nat i) \<le> 1" by simp_all
  let ?a = "sint (inp ! i)" and ?b = "sint (inp ! (i + 1))"
  have "min ?a ?b \<le> lerp fl ?a ?b (fl (pos - of_nat i)) \<and> lerp fl ?a ?b (fl (pos - of_nat i)) \<le> max ?a ?b"
    using sint_i16 [of "inp ! i"] sint_i16 [of "inp ! (i + 1)"] t
    by (intro lerp_between [OF assms(1)]) (auto simp: abs_le_iff)
  moreover from this have "sint (word_of_int (lerp fl ?a ?b (fl (pos - of_nat i))) :: i16) = lerp fl ?a ?b (fl (pos - of_nat i))"
    using sint_i16 [of "inp ! i"] sint_i16 [of "inp ! (i + 1)"]
    by (intro sint_word_of_int_i16) (auto simp: min_def max_def split: if_splits)
  ultimately show ?thesis using i by (auto simp: between_neighbours_def intro!: exI [of _ i])
qed

lemma mic_put_entries: "mic_inv m \<Longrightarrow> x \<in> set (mic_fifo (mic_put s m)) \<Longrightarrow> x \<in> set (mic_fifo m) \<or> x = s"
  using mic.put_take [of m s] by (auto dest: in_set_takeD)

lemma mic_loop_ok:
  assumes "rounds fl" "1 / 2 \<le> step" "step \<le> 2 ^ 20" "length inp \<le> 2 ^ 20"
    and "0 \<le> pos" "mic_inv m" "of_int (int (length inp) - 1) \<le> pos + of_nat k / 4"
  shows "\<exists>pos' m'. mic_loop fl step inp pos m = Some (pos', m') \<and> of_int (int (length inp) - 1) \<le> pos' \<and>
    0 \<le> pos' \<and> mic_inv m' \<and> (\<forall>s \<in> set (mic_fifo m'). s \<in> set (mic_fifo m) \<or> between_neighbours inp s)"
  using assms(5-7)
proof (induction k arbitrary: pos m)
  case 0
  then show ?case by (simp add: mic_loop.simps)
next
  case (Suc k)
  show ?case
  proof (cases "pos < of_int (int (length inp) - 1)")
    case False
    with Suc.prems show ?thesis by (simp add: mic_loop.simps)
  next
    case True
    define i where "i = nat (c_trunc pos)"
    define s :: i16 where "s = word_of_int (lerp fl (sint (inp ! i)) (sint (inp ! (i + 1))) (fl (pos - of_nat i)))"
    have s: "between_neighbours inp s"
      unfolding s_def using mic_sample_between [OF assms(1) Suc.prems(1) True i_def] by simp
    have "int (length inp) - 1 \<le> 2 ^ 20" using assms(4) by simp
    then have "of_int (int (length inp) - 1) \<le> (of_int (2 ^ 20) :: rat)" by (simp only: of_int_le_iff)
    with True have "pos \<le> 2 ^ 30" by simp
    from rounds_add_step [OF assms(1-3) Suc.prems(1) this]
    have next_pos: "pos + 1 / 4 \<le> fl (pos + step)" .
    then have "0 \<le> fl (pos + step)" "of_int (int (length inp) - 1) \<le> fl (pos + step) + of_nat k / 4"
      using Suc.prems(1,3) by (simp_all add: field_simps)
    from Suc.IH [OF this(1) mic.put_inv [OF Suc.prems(2)] this(2), of s] obtain pos' m' where
      r: "mic_loop fl step inp (fl (pos + step)) (mic_put s m) = Some (pos', m')"
      "of_int (int (length inp) - 1) \<le> pos'" "0 \<le> pos'" "mic_inv m'"
      "\<forall>x \<in> set (mic_fifo m'). x \<in> set (mic_fifo (mic_put s m)) \<or> between_neighbours inp x"
      by blast
    have "mic_loop fl step inp pos m = mic_loop fl step inp (fl (pos + step)) (mic_put s m)"
      using True by (simp add: mic_loop.simps [of _ _ _ pos] s_def i_def Let_def)
    with r s mic_put_entries [OF Suc.prems(2), of _ s] show ?thesis by metis
  qed
qed

section \<open>The output callback\<close>

lemma onAudioReady_silent:
  "got = [] \<or> muted a \<Longrightarrow> read n = got \<Longrightarrow> snd (onAudioReady (Some read) n a) = replicate n (0, 0)"
  by (auto simp: onAudioReady_def Let_def)

lemma onAudioReady_sound:
  assumes "read n \<noteq> []" "\<not> muted a"
  shows "snd (onAudioReady (Some read) n a) =
    map (\<lambda>(l, r). if volume a < 16760439 / 2 ^ 24
                 then (scale_sample (c_trunc (volume a * 256)) l, scale_sample (c_trunc (volume a * 256)) r)
                 else (l, r))
      (read n @ replicate (n - length (read n)) (last (read n)))"
  using assms by (simp add: onAudioReady_def Let_def case_prod_beta)

lemma scale_sample_bound:
  assumes "0 \<le> vol" "vol \<le> 256"
  shows "\<bar>sint (scale_sample vol s)\<bar> \<le> \<bar>sint s\<bar>"
proof -
  have "\<bar>sint s * vol\<bar> \<le> \<bar>sint s\<bar> * 256"
    unfolding abs_mult using assms by (intro mult_left_mono) auto
  then have "- \<bar>sint s\<bar> * 256 \<le> sint s * vol" "sint s * vol \<le> \<bar>sint s\<bar> * 256" by linarith+
  then have b: "- \<bar>sint s\<bar> \<le> sint s * vol div 256" "sint s * vol div 256 \<le> \<bar>sint s\<bar>" by linarith+
  have "sint s * vol div 256 \<le> 32767"
  proof (cases "0 \<le> sint s")
    case True
    then show ?thesis using b(2) sint_i16 [of s] by simp
  next
    case False
    then have "sint s * vol \<le> 0" using assms by (simp add: mult_le_0_iff)
    then show ?thesis by simp
  qed
  moreover have "- 32768 \<le> sint s * vol div 256" using b(1) sint_i16 [of s] by linarith
  ultimately show ?thesis using b by (simp add: scale_sample_def sint_word_of_int_i16)
qed

lemma lerp_zero: "lerp (\<lambda>x. x) a b 0 = a"
  by (simp add: lerp_def)

text \<open>With equal rates and exact arithmetic the positions are the samples \<open>0\<close>, \<open>1\<close>, \<dots>, \<open>n - 2\<close>.\<close>

lemma mic_loop_exact:
  assumes "mic_inv m" "micLevel m + (length inp - 1 - j) \<le> kMicRingSize" "j < length inp"
  shows "\<exists>m'. mic_loop (\<lambda>x. x) 1 inp (of_nat j) m = Some (of_nat (length inp - 1), m') \<and>
    mic_inv m' \<and> mic_fifo m' = mic_fifo m @ drop j (butlast inp)"
  using assms
proof (induction "length inp - 1 - j" arbitrary: j m)
  case 0
  then have "j = length inp - 1" by simp
  with 0 show ?case by (subst mic_loop.simps) simp
next
  case (Suc k)
  have j: "j < length inp - 1" using Suc.hyps(2) by simp
  have lt: "(of_nat j :: rat) < of_int (int (length inp) - 1)" using j by (simp add: less_diff_conv flip: of_nat_Suc)
  have trunc: "c_trunc (of_nat j) = int j" using c_trunc_int [of "int j"] by simp
  have sample: "word_of_int (lerp (\<lambda>x. x) (sint (inp ! j)) (sint (inp ! (j + 1))) (of_nat j - of_nat j)) = inp ! j"
    by (simp add: lerp_zero)
  have loop: "mic_loop (\<lambda>x. x) 1 inp (of_nat j) m = mic_loop (\<lambda>x. x) 1 inp (of_nat (Suc j)) (mic_put (inp ! j) m)"
    using lt sample trunc by (simp add: mic_loop.simps [of _ _ _ "of_nat j"] Let_def add.commute)
  have put: "mic_inv (mic_put (inp ! j) m)" "mic_fifo (mic_put (inp ! j) m) = mic_fifo m @ [inp ! j]"
    using mic_put_room [OF Suc.prems(1)] Suc.prems(2) Suc.hyps(2) by simp_all
  have "micLevel (mic_put (inp ! j) m) = Suc (micLevel m)"
    using arg_cong [OF put(2), of length] by simp
  then have room: "micLevel (mic_put (inp ! j) m) + (length inp - 1 - Suc j) \<le> kMicRingSize"
    using Suc.prems(2) j by simp
  have hyp: "k = length inp - 1 - Suc j" and lt': "Suc j < length inp" using Suc.hyps(2) j by simp_all
  obtain m' where "mic_loop (\<lambda>x. x) 1 inp (of_nat (Suc j)) (mic_put (inp ! j) m) = Some (of_nat (length inp - 1), m')"
    "mic_inv m'" "mic_fifo m' = mic_fifo (mic_put (inp ! j) m) @ drop (Suc j) (butlast inp)"
    using Suc.hyps(1) [OF hyp put(1) room lt'] by blast
  moreover have "drop j (butlast inp) = inp ! j # drop (Suc j) (butlast inp)"
    using j by (simp add: nth_butlast flip: Cons_nth_drop_Suc)
  ultimately show ?case using loop put(2) by auto
qed

text \<open>The stream is open only while the game listens and the player allows it.\<close>

datatype mic_call = MStart "nat option" bool | MStop | MAllow bool "nat option" bool

fun mic_do :: "mic_call \<Rightarrow> audio_engine \<Rightarrow> audio_engine" where
  "mic_do (MStart opened started) a = StartMic opened started a"
| "mic_do MStop a = StopMic a"
| "mic_do (MAllow b opened started) a = SetMicAllowed b opened started a"

definition mic_private :: "audio_engine \<Rightarrow> bool" where
  "mic_private a \<longleftrightarrow> (MicActive a \<longrightarrow> micAllowed a \<and> micWanted a)"

lemma mic_do_private: "mic_private a \<Longrightarrow> mic_private (mic_do c a)"
  by (cases c) (auto simp: mic_private_def MicActive_def StartMic_def StopMic_def SetMicAllowed_def Let_def)

lemma mic_calls_private: "mic_private a \<Longrightarrow> mic_private (fold mic_do cs a)"
  by (induction cs arbitrary: a) (auto intro: mic_do_private)

section \<open>Properties\<close>

text \<open>
  The output callback fills exactly the frames asked for: silence when nothing was read or the
  sound is muted; otherwise the frames read, then the last one held, each sample scaled by the
  volume and, for a volume in the range of the setting, never louder than the source.
\<close>

theorem audio_callback_output:
  assumes "\<And>n. length (read n) \<le> n" "0 \<le> volume a" "volume a \<le> 1"
  shows "length (snd (onAudioReady (Some read) n a)) = n \<and>
    (read n = [] \<or> muted a \<longrightarrow> snd (onAudioReady (Some read) n a) = replicate n (0, 0)) \<and>
    (read n \<noteq> [] \<and> \<not> muted a \<longrightarrow> (\<forall>i < n.
       let src = (if i < length (read n) then read n ! i else last (read n));
           out = snd (onAudioReady (Some read) n a) ! i
       in \<bar>sint (fst out)\<bar> \<le> \<bar>sint (fst src)\<bar> \<and> \<bar>sint (snd out)\<bar> \<le> \<bar>sint (snd src)\<bar> \<and>
          (volume a = 1 \<longrightarrow> out = src)))"
proof (cases "read n = [] \<or> muted a")
  case True
  then show ?thesis using onAudioReady_silent [of "read n" a read n] by auto
next
  case False
  let ?frames = "read n @ replicate (n - length (read n)) (last (read n))"
  have len: "length ?frames = n" using assms(1) [of n] by simp
  have nth: "?frames ! i = (if i < length (read n) then read n ! i else last (read n))" if "i < n" for i
    using that by (auto simp: nth_append)
  have "0 \<le> c_trunc (volume a * 256) \<and> c_trunc (volume a * 256) \<le> 256"
    using assms(2,3) by (intro c_trunc_between) simp_all
  note scale = scale_sample_bound [OF conjunct1 [OF this] conjunct2 [OF this]]
  have out: "snd (onAudioReady (Some read) n a) = map (\<lambda>(l, r). if volume a < 16760439 / 2 ^ 24
                 then (scale_sample (c_trunc (volume a * 256)) l, scale_sample (c_trunc (volume a * 256)) r)
                 else (l, r)) ?frames"
    using False by (intro onAudioReady_sound) auto
  have frame: "let src = (if i < length (read n) then read n ! i else last (read n));
           out = snd (onAudioReady (Some read) n a) ! i
       in \<bar>sint (fst out)\<bar> \<le> \<bar>sint (fst src)\<bar> \<and> \<bar>sint (snd out)\<bar> \<le> \<bar>sint (snd src)\<bar> \<and>
          (volume a = 1 \<longrightarrow> out = src)" if "i < n" for i
    using scale that unfolding out nth_map [of i ?frames, unfolded len, OF that] nth [OF that] Let_def case_prod_beta
    by auto
  have "length (snd (onAudioReady (Some read) n a)) = n" unfolding out length_map by (rule len)
  with False frame show ?thesis by blast
qed

theorem audio_callback_output_witness:
  "snd (onAudioReady (Some (\<lambda>n. take n [(5, 65532)])) 2 audio_new) = [(5, 65532), (5, 65532)]"
proof -
  define read where "read = (\<lambda>n. take n [(5 :: i16, 65532 :: i16)])"
  have "length (read n) \<le> n" "read 2 = [(5, 65532)]" for n by (simp_all add: read_def)
  with audio_callback_output [of read audio_new 2]
  have "length (snd (onAudioReady (Some read) 2 audio_new)) = 2"
    "\<And>i. i < 2 \<Longrightarrow> snd (onAudioReady (Some read) 2 audio_new) ! i = (5, 65532)"
    by (auto simp: audio_new_def Let_def less_2_cases_iff)
  then show ?thesis unfolding read_def by (intro nth_equalityI) (auto simp: less_2_cases_iff)
qed

text \<open>
  The microphone callback always returns, whatever the rounding, for every device rate from 24
  kHz up: it keeps the ring consistent and within its 16384 samples, every sample it adds lies
  between two neighbouring input samples (so no conversion overflows), no read is out of the
  buffer, and the position carried over is not negative.
\<close>

theorem mic_callback_safe:
  assumes "rounds fl" "1 / 2 \<le> step" "step \<le> 2 ^ 20" "length inp \<le> 2 ^ 20"
    and "mic_inv (micQueue a)" "0 \<le> micResamplePos a"
  shows "\<exists>a'. onMicReady fl step inp a = Some a' \<and> mic_inv (micQueue a') \<and> 0 \<le> micResamplePos a' \<and>
    length (mic_fifo (micQueue a')) \<le> 16384 \<and>
    (\<forall>s \<in> set (mic_fifo (micQueue a')). s \<in> set (mic_fifo (micQueue a)) \<or> between_neighbours inp s)"
proof -
  have "(of_int (int (length inp) - 1) :: rat) \<le> micResamplePos a + of_nat (4 * length inp) / 4"
    using assms(6) by simp
  from mic_loop_ok [OF assms(1-4,6,5) this] obtain pos m where
    r: "mic_loop fl step inp (micResamplePos a) (micQueue a) = Some (pos, m)"
    "of_int (int (length inp) - 1) \<le> pos" "mic_inv m"
    "\<forall>s \<in> set (mic_fifo m). s \<in> set (mic_fifo (micQueue a)) \<or> between_neighbours inp s" by blast
  have "0 \<le> fl (pos - of_int (int (length inp) - 1))"
    using rounds_mono [OF assms(1), of 0 "pos - of_int (int (length inp) - 1)"] r(2) rounds_int [OF assms(1), of 0]
    by simp
  moreover have "length (mic_fifo m) \<le> 16384"
    using mic.fifo_cap [OF r(3)] by (simp add: kMicRingSize_def)
  ultimately show ?thesis using r by (simp add: onMicReady_def)
qed

theorem mic_callback_safe_witness:
  "\<exists>a'. onMicReady (\<lambda>x. x) (mic_step (\<lambda>x. x)) [100, 300, 200] audio_new = Some a' \<and> mic_inv (micQueue a')"
proof -
  have "1 / 2 \<le> mic_step (\<lambda>x. x)" "mic_step (\<lambda>x. x) \<le> 2 ^ 20"
    by (simp_all add: mic_step_def kSampleRate_def kMicOutputRate_def)
  moreover have "mic_inv (micQueue audio_new)" "0 \<le> micResamplePos audio_new"
    by (simp_all add: audio_new_def mic_new_inv)
  ultimately show ?thesis
    using mic_callback_safe [OF rounds_exact, of "mic_step (\<lambda>x. x)" "[100, 300, 200]" audio_new] by auto
qed

text \<open>
  C17: The resampler loses a sample at every buffer boundary: it restarts at the carried position
  counted from the last sample of the buffer, while the next buffer begins one sample later.  With
  equal rates and exact arithmetic, a callback with \<open>n\<close> samples delivers all but the last one and
  carries the position 0, so the last sample is never heard.
\<close>

theorem mic_loses_last_sample:
  assumes "mic_inv (micQueue a)" "micResamplePos a = 0" "inp \<noteq> []"
    and "length (mic_fifo (micQueue a)) + length inp \<le> 16384"
  shows "\<exists>a'. onMicReady (\<lambda>x. x) 1 inp a = Some a' \<and> micResamplePos a' = 0 \<and>
    mic_fifo (micQueue a') = mic_fifo (micQueue a) @ butlast inp"
proof -
  have "0 < length inp" using assms(3) by simp
  moreover have "micLevel (micQueue a) + (length inp - 1 - 0) \<le> kMicRingSize"
    using assms(4) by (simp add: kMicRingSize_def)
  ultimately obtain m where "mic_loop (\<lambda>x. x) 1 inp (of_nat 0) (micQueue a) = Some (of_nat (length inp - 1), m)"
    "mic_fifo m = mic_fifo (micQueue a) @ butlast inp"
    using mic_loop_exact [OF assms(1), of inp 0, unfolded drop_0] by blast
  moreover have "(of_nat (length inp - 1) :: rat) = of_nat (length inp) - 1"
    using assms(3) by (cases inp) simp_all
  ultimately show ?thesis using assms(2) by (simp add: onMicReady_def)
qed

theorem mic_loses_last_sample_witness:
  "\<exists>a'. onMicReady (\<lambda>x. x) 1 [7, 8, 9] audio_new = Some a' \<and> mic_fifo (micQueue a') = [7, 8]"
  using mic_loses_last_sample [of audio_new "[7, 8, 9]"] mic_new_inv by (auto simp: audio_new_def)

text \<open>
  The microphone is open only while the game is listening and the player allows it, after any
  sequence of starts, stops and changes of the permission.
\<close>

theorem mic_open_only_when_allowed:
  "MicActive (fold mic_do cs audio_new) \<longrightarrow>
     micAllowed (fold mic_do cs audio_new) \<and> micWanted (fold mic_do cs audio_new)"
  using mic_calls_private [of audio_new cs] by (simp add: mic_private_def MicActive_def audio_new_def)

theorem mic_open_only_when_allowed_witness:
  "MicActive (fold mic_do [MStart (Some 1) True, MAllow True (Some 1) True] audio_new) \<and>
   micAllowed (fold mic_do [MStart (Some 1) True, MAllow True (Some 1) True] audio_new)"
  using mic_open_only_when_allowed [of "[MStart (Some 1) True, MAllow True (Some 1) True]"]
  by (simp add: audio_new_def MicActive_def StartMic_def SetMicAllowed_def Let_def)

end
