(* ===== verification/CoreTypes.thy ===== *)
theory CoreTypes
  imports Prelude
begin

text \<open>
  The types that cross the interface of the emulated systems, \<^verbatim>\<open>EmuCore.h\<close>: the input of a frame and
  the description of a frame's pixels.  Textures and images are numbered handles, 0 is null.
\<close>

record core_input =
  in_keys :: u32
  in_touching :: bool
  in_touchX :: int
  in_touchY :: int
  in_lidRequest :: int
  in_circleX :: rat
  in_circleY :: rat
  in_cstickX :: rat
  in_cstickY :: rat
  in_pointerDown :: bool
  in_pointerX :: rat
  in_pointerY :: rat

definition input_new :: core_input where
  "input_new = \<lparr>in_keys = 0, in_touching = False, in_touchX = 0, in_touchY = 0, in_lidRequest = - 1,
     in_circleX = 0, in_circleY = 0, in_cstickX = 0, in_cstickY = 0, in_pointerDown = False,
     in_pointerX = 0, in_pointerY = 0\<rparr>"

definition kKeyZL :: u32 where "kKeyZL = push_bit 12 1"

definition kKeyZR :: u32 where "kKeyZR = push_bit 13 1"

definition kKeyHome :: u32 where "kKeyHome = push_bit 14 1"

record frame_info =
  fi_hardware :: bool
  fi_vkTexture :: nat
  fi_vkImage :: nat
  fi_vkFormat :: int
  fi_screens :: "nat \<times> nat"
  fi_texture :: nat
  fi_width :: int
  fi_height :: int
  fi_screenCount :: nat
  fi_bgra :: bool

definition frame_new :: frame_info where
  "frame_new = \<lparr>fi_hardware = False, fi_vkTexture = 0, fi_vkImage = 0, fi_vkFormat = 0, fi_screens = (0, 0),
     fi_texture = 0, fi_width = 0, fi_height = 0, fi_screenCount = 1, fi_bgra = False\<rparr>"

end
