(* ===== verification/Gba.thy ===== *)
theory Gba
  imports SaveFiles SampleRings Config CoreTypes
begin

text \<open>
  The Game Boy Advance core, class \<^verbatim>\<open>GbaCore\<close> of \<^verbatim>\<open>GbaCore.cpp\<close>.  The emulator proper is mGBA, a third
  party library: its core is an abstract state \<open>'c\<close> and its functions are the fields of a record
  that the operations take as an argument.  What the core asks of its host (rumble, writes by the
  I/O thread) is recorded as lists of requests, oldest first.
\<close>

section \<open>mGBA\<close>

record 'c mgba =
  mg_vfile :: "bytes \<Rightarrow> bool"
  mg_create :: "'c option"
  mg_isROM :: "'c \<Rightarrow> bytes \<Rightarrow> bool"
  mg_init :: "'c \<Rightarrow> 'c"
  mg_loadROM :: "bytes \<Rightarrow> 'c \<Rightarrow> 'c option"
  mg_loadSave :: "bytes \<Rightarrow> 'c \<Rightarrow> 'c"
  mg_loadBIOS :: "bytes \<Rightarrow> 'c \<Rightarrow> 'c option"
  mg_reset :: "'c \<Rightarrow> 'c"
  mg_setKeys :: "u32 \<Rightarrow> 'c \<Rightarrow> 'c"
  mg_runFrame :: "'c \<Rightarrow> 'c"
  mg_frequency :: "'c \<Rightarrow> rat"
  mg_setRates :: "rat \<Rightarrow> 'c \<Rightarrow> 'c"
  mg_avail :: "'c \<Rightarrow> int"
  mg_readSamples :: "nat \<Rightarrow> 'c \<Rightarrow> 'c \<times> stereo list"
  mg_savedataClone :: "'c \<Rightarrow> bytes option"
  mg_stateSize :: "'c \<Rightarrow> nat"
  mg_saveState :: "'c \<Rightarrow> bytes option"
  mg_loadState :: "bytes \<Rightarrow> 'c \<Rightarrow> 'c \<times> bool"
  mg_saveNamed :: "'c \<Rightarrow> bytes option"
  mg_loadNamed :: "bytes \<Rightarrow> 'c \<Rightarrow> 'c \<times> bool"
  mg_cheatDevice :: "'c \<Rightarrow> bool"
  mg_addLine :: "string list \<Rightarrow> string \<Rightarrow> bool"

section \<open>State\<close>

record gba_peripherals =
  rumble_on :: bool
  tiltX :: int
  tiltY :: int
  gyroZ :: int
  light_level :: u8

record 'c gba_core =
  gba_core :: "'c option"
  gba_per :: gba_peripherals
  gba_romLen :: nat
  gba_lastSave :: bytes
  gba_saveFile :: "save_file option"
  gba_framesSinceSaveCheck :: nat
  gba_skew :: rat
  gba_ring :: stereo_ring
  gba_cheats :: "string list list"
  gba_useBios :: bool
  gba_io :: "io_request list"
  gba_rumbles :: "nat list"

definition kSaveMemorySize :: nat where "kSaveMemorySize = 0x20000"

definition gba_new :: "'c gba_core" where
  "gba_new = \<lparr>gba_core = None,
     gba_per = \<lparr>rumble_on = False, tiltX = 0, tiltY = 0, gyroZ = 0, light_level = 0\<rparr>,
     gba_romLen = 0, gba_lastSave = [], gba_saveFile = None, gba_framesSinceSaveCheck = 0, gba_skew = 1,
     gba_ring = stereo_new kAudioRingFrames, gba_cheats = [], gba_useBios = False, gba_io = [], gba_rumbles = []\<rparr>"

section \<open>Cartridge accessories\<close>

definition RumbleSet :: "int \<Rightarrow> 'c gba_core \<Rightarrow> 'c gba_core" where
  "RumbleSet enable g =
     (let on = (enable \<noteq> 0) in
      if on = rumble_on (gba_per g) then g
      else g\<lparr>gba_per := (gba_per g)\<lparr>rumble_on := on\<rparr>,
             gba_rumbles := gba_rumbles g @ [if on then 10000 else 0]\<rparr>)"

text \<open>
  The conversion \<^verbatim>\<open>(int32_t)f\<close>, undefined (\<open>None\<close>) outside the range of the type; \<open>fl\<close> rounds to a
  \<^verbatim>\<open>float\<close>.
\<close>

definition float_to_int32 :: "rat \<Rightarrow> int option" where
  "float_to_int32 x = (if - (2 ^ 31) \<le> c_trunc x \<and> c_trunc x < 2 ^ 31 then Some (c_trunc x) else None)"

definition RotationSample :: "(rat \<Rightarrow> rat) \<Rightarrow> (nat \<Rightarrow> rat) \<Rightarrow> 'c gba_core \<Rightarrow> 'c gba_core option" where
  "RotationSample fl motion g =
     (case (float_to_int32 (fl (motion 0 * - 200000000)), float_to_int32 (fl (motion 1 * 200000000)),
            float_to_int32 (fl (motion 5 * - 550000000))) of
        (Some x, Some y, Some z) \<Rightarrow> Some (g\<lparr>gba_per := (gba_per g)\<lparr>tiltX := x, tiltY := y, gyroZ := z\<rparr>\<rparr>)
      | _ \<Rightarrow> None)"

definition LightSample :: "(rat \<Rightarrow> rat) \<Rightarrow> rat \<Rightarrow> 'c gba_core \<Rightarrow> 'c gba_core" where
  "LightSample fl light g =
     g\<lparr>gba_per := (gba_per g)\<lparr>light_level := word_of_int (c_trunc (max 0 (min 255 (fl (light * 255)))))\<rparr>\<rparr>"

definition LightRead :: "'c gba_core \<Rightarrow> u8" where
  "LightRead g = 0xFF - light_level (gba_per g)"

definition LooksLikeGba :: "bytes \<Rightarrow> bool" where
  "LooksLikeGba data \<longleftrightarrow> length data \<ge> 0xC0 \<and> data ! 0xB2 = 0x96 \<and> data ! 3 = 0xEA"

section \<open>Battery saves\<close>

definition gba_SnapshotSave :: "'c mgba \<Rightarrow> int \<Rightarrow> bool \<Rightarrow> 'c gba_core \<Rightarrow> 'c gba_core" where
  "gba_SnapshotSave m now force g =
     (case (gba_core g, gba_saveFile g) of
        (Some c, Some sf) \<Rightarrow>
          (case mg_savedataClone m c of
             None \<Rightarrow> g
           | Some sram \<Rightarrow>
               if sram = [] then g
               else
                 let changed = (length sram \<noteq> length (gba_lastSave g) \<or> sram \<noteq> gba_lastSave g);
                     size = word_of_nat (length sram);
                     sf1 = (if changed then sf_OnWrite sram size 0 size now sf else sf);
                     g1 = g\<lparr>gba_lastSave := (if changed then sram else gba_lastSave g), gba_saveFile := Some sf1\<rparr>
                 in if force
                    then let (sf2, r) = sf_FlushNow sf1
                         in g1\<lparr>gba_saveFile := Some sf2, gba_io := gba_io g1 @ [r]\<rparr>
                    else g1)
      | _ \<Rightarrow> g)"

definition gba_FlushSaves :: "'c mgba \<Rightarrow> int \<Rightarrow> 'c gba_core \<Rightarrow> 'c gba_core" where
  "gba_FlushSaves m now g = gba_SnapshotSave m now True g"

definition gba_CheckFlush :: "int \<Rightarrow> 'c gba_core \<Rightarrow> 'c gba_core" where
  "gba_CheckFlush now g =
     (case gba_saveFile g of
        None \<Rightarrow> g
      | Some sf \<Rightarrow> let (sf1, r) = sf_CheckFlush now sf in g\<lparr>gba_saveFile := Some sf1, gba_io := gba_io g @ [r]\<rparr>)"

text \<open>The destructor of the dropped \<open>SaveFile\<close> flushes it once more.\<close>

definition drop_save_file :: "'c gba_core \<Rightarrow> 'c gba_core" where
  "drop_save_file g =
     (case gba_saveFile g of
        None \<Rightarrow> g
      | Some sf \<Rightarrow> g\<lparr>gba_saveFile := None, gba_io := gba_io g @ [snd (sf_FlushNow sf)]\<rparr>)"

definition gba_Shutdown :: "'c mgba \<Rightarrow> int \<Rightarrow> 'c gba_core \<Rightarrow> 'c gba_core" where
  "gba_Shutdown m now g =
     (let g1 = (case gba_core g of
                  None \<Rightarrow> g
                | Some _ \<Rightarrow>
                    let h = gba_SnapshotSave m now True g;
                        h1 = (case gba_saveFile h of
                                None \<Rightarrow> h
                              | Some sf \<Rightarrow> let (sf1, r) = sf_FlushNow sf
                                          in h\<lparr>gba_saveFile := Some sf1, gba_io := gba_io h @ [r]\<rparr>)
                    in h1\<lparr>gba_core := None\<rparr>);
          g2 = drop_save_file g1
      in g2\<lparr>gba_romLen := 0,
            gba_ring := (gba_ring g2)\<lparr>sr_read := 0, sr_write := 0, sr_level := 0\<rparr>\<rparr>)"

section \<open>Loading\<close>

definition gba_SetAudioSkew :: "(rat \<Rightarrow> rat) \<Rightarrow> 'c mgba \<Rightarrow> rat \<Rightarrow> 'c gba_core \<Rightarrow> 'c gba_core" where
  "gba_SetAudioSkew fl m s g =
     (let g1 = g\<lparr>gba_skew := s\<rparr> in
      case gba_core g1 of
        None \<Rightarrow> g1
      | Some c \<Rightarrow> g1\<lparr>gba_core := Some (mg_setRates m (fl (mg_frequency m c * s)) c)\<rparr>)"

definition gba_save_path :: "string \<Rightarrow> string \<Rightarrow> string" where
  "gba_save_path filesDir gameKey = filesDir @ ''/saves/'' @ gameKey @ ''.sav''"

text \<open>The save memory mGBA works on: all ones, overlaid with the existing file.\<close>

definition gba_save_memory :: "bool \<times> bytes \<Rightarrow> bytes" where
  "gba_save_memory r =
     (case r of (ok, existing) \<Rightarrow>
        let blank = replicate kSaveMemorySize 0xFF in
        if ok \<and> existing \<noteq> [] then splice blank 0 (take (min (length existing) kSaveMemorySize) existing)
        else blank)"

text \<open>
  \<open>gba_LoadGame\<close> returns the message, empty on success; \<open>None\<close> is a backup that does not return.
  The kernel's answers are those of the backup and of reading the save and the BIOS.
\<close>

definition gba_load_bios ::
  "'c mgba \<Rightarrow> config_store \<Rightarrow> (string \<Rightarrow> bytes option) \<Rightarrow> 'c \<Rightarrow> 'c \<times> bool" where
  "gba_load_bios m cfg open_file c =
     (let bios = GetString cfg ''bios.gba'' [] in
      if GetBool cfg ''emu.externalBios'' False \<and> bios \<noteq> []
      then case open_file bios of
             None \<Rightarrow> (c, False)
           | Some data \<Rightarrow> (case mg_loadBIOS m data c of None \<Rightarrow> (c, False) | Some c1 \<Rightarrow> (c1, True))
      else (c, False))"

definition gba_LoadGame ::
  "(rat \<Rightarrow> rat) \<Rightarrow> 'c mgba \<Rightarrow> int \<Rightarrow> config_store \<Rightarrow> string \<Rightarrow> backup_env \<Rightarrow> read_answers \<Rightarrow>
   (string \<Rightarrow> bytes option) \<Rightarrow> bytes \<Rightarrow> string \<Rightarrow> 'c gba_core \<Rightarrow> fs \<Rightarrow> ('c gba_core \<times> fs \<times> string) option" where
  "gba_LoadGame fl m now cfg filesDir env ra open_file rom gameKey g d =
     (let g0 = (gba_Shutdown m now g)\<lparr>gba_romLen := length rom\<rparr> in
      if \<not> mg_vfile m rom then Some (g0, d, ''The game file could not be read.'')
      else case mg_create m of
        None \<Rightarrow> Some (g0\<lparr>gba_core := None\<rparr>, d, ''This file is not a valid GBA game.'')
      | Some c0 \<Rightarrow>
          if \<not> mg_isROM m c0 rom then Some (g0\<lparr>gba_core := None\<rparr>, d, ''This file is not a valid GBA game.'')
          else
            let g1 = gba_SetAudioSkew fl m 1 (g0\<lparr>gba_core := Some (mg_init m c0), gba_cheats := [], gba_useBios := False\<rparr>);
                c1 = the (gba_core g1)
            in case mg_loadROM m rom c1 of
                 None \<Rightarrow> Some (gba_Shutdown m now g1, d, ''This file is not a valid GBA game.'')
               | Some c2 \<Rightarrow>
                   let savePath = gba_save_path filesDir gameKey;
                       keep = to_int32 (GetInt cfg ''saves.backupCount'' 10)
                   in case BackupExisting env savePath (filesDir @ ''/backups/'' @ gameKey) keep d of
                        None \<Rightarrow> None
                      | Some d1 \<Rightarrow>
                          let r = ReadWholeFile ra savePath d1 [];
                              (c3, useBios) = gba_load_bios m cfg open_file (mg_loadSave m (gba_save_memory r) c2)
                          in Some (g1\<lparr>gba_core := Some (mg_reset m c3), gba_saveFile := Some (sf_new savePath),
                                     gba_lastSave := snd r, gba_useBios := useBios\<rparr>, d1, []))"

section \<open>Running\<close>

definition gba_DrainAudio :: "'c mgba \<Rightarrow> 'c gba_core \<Rightarrow> 'c gba_core" where
  "gba_DrainAudio m g =
     (case gba_core g of
        None \<Rightarrow> g
      | Some c \<Rightarrow>
          if mg_avail m c \<le> 0 then g
          else let (c1, samples) = mg_readSamples m (nat (mg_avail m c)) c
               in g\<lparr>gba_core := Some c1, gba_ring := fold (stereo_put kAudioRingFrames) samples (gba_ring g)\<rparr>)"

definition gba_RunFrame :: "'c mgba \<Rightarrow> int \<Rightarrow> u32 \<Rightarrow> 'c gba_core \<Rightarrow> 'c gba_core" where
  "gba_RunFrame m now keys g =
     (case gba_core g of
        None \<Rightarrow> g
      | Some c \<Rightarrow>
          let g1 = gba_DrainAudio m (g\<lparr>gba_core := Some (mg_runFrame m (mg_setKeys m (keys AND 0x3FF) c))\<rparr>);
              n = gba_framesSinceSaveCheck g1 + 1
          in if n \<ge> 60 then gba_SnapshotSave m now False (g1\<lparr>gba_framesSinceSaveCheck := 0\<rparr>)
             else g1\<lparr>gba_framesSinceSaveCheck := n\<rparr>)"

definition gba_ReadAudio :: "nat \<Rightarrow> 'c gba_core \<Rightarrow> 'c gba_core \<times> stereo list" where
  "gba_ReadAudio frames g =
     (let (r, xs) = stereo_get kAudioRingFrames frames (gba_ring g) in (g\<lparr>gba_ring := r\<rparr>, xs))"

definition gba_AudioFill :: "'c gba_core \<Rightarrow> nat" where
  "gba_AudioFill g = sr_level (gba_ring g)"

text \<open>The frame: mGBA draws into the core's own buffer, handle 1.\<close>

definition gba_GetFrame :: "'c gba_core \<Rightarrow> frame_info option" where
  "gba_GetFrame g =
     (case gba_core g of
        None \<Rightarrow> None
      | Some _ \<Rightarrow> Some (frame_new\<lparr>fi_screens := (1, 0), fi_width := 240, fi_height := 160\<rparr>))"

definition gba_Reset :: "'c mgba \<Rightarrow> 'c gba_core \<Rightarrow> 'c gba_core" where
  "gba_Reset m g = (case gba_core g of None \<Rightarrow> g | Some c \<Rightarrow> g\<lparr>gba_core := Some (mg_reset m c)\<rparr>)"

section \<open>States\<close>

definition gba_SaveState :: "'c mgba \<Rightarrow> 'c gba_core \<Rightarrow> bytes option" where
  "gba_SaveState m g = (case gba_core g of None \<Rightarrow> None | Some c \<Rightarrow> mg_saveNamed m c)"

definition gba_LoadState :: "'c mgba \<Rightarrow> bytes \<Rightarrow> 'c gba_core \<Rightarrow> 'c gba_core \<times> bool" where
  "gba_LoadState m data g =
     (case gba_core g of
        None \<Rightarrow> (g, False)
      | Some c \<Rightarrow>
          let (c1, ok) = (if length data = mg_stateSize m c then mg_loadState m data c else mg_loadNamed m data c)
          in (g\<lparr>gba_core := Some c1\<rparr>, ok))"

definition gba_CaptureState :: "'c mgba \<Rightarrow> nat \<Rightarrow> 'c gba_core \<Rightarrow> nat \<times> bytes option" where
  "gba_CaptureState m capacity g =
     (case gba_core g of
        None \<Rightarrow> (0, None)
      | Some c \<Rightarrow>
          if mg_stateSize m c > capacity then (0, None)
          else case mg_saveState m c of None \<Rightarrow> (0, None) | Some b \<Rightarrow> (mg_stateSize m c, Some b))"

definition gba_MaxStateSize :: "'c mgba \<Rightarrow> 'c gba_core \<Rightarrow> nat" where
  "gba_MaxStateSize m g = (case gba_core g of None \<Rightarrow> 0x80000 | Some c \<Rightarrow> mg_stateSize m c)"

section \<open>Cheats\<close>

text \<open>
  The scan of one code: \<open>cheat_scan addLine lines text\<close> adds the lines of \<open>text\<close> to the set \<open>lines\<close>;
  the result is the set and whether mGBA accepted every line.
\<close>

function cheat_scan :: "(string list \<Rightarrow> string \<Rightarrow> bool) \<Rightarrow> string list \<Rightarrow> string \<Rightarrow> string list \<times> bool" where
  "cheat_scan addLine ls rest =
     (let line0 = takeWhile (\<lambda>c. c \<noteq> newline) rest;
          line = filter (\<lambda>c. c \<noteq> CHR 0x0D) line0;
          ok = (line = [] \<or> addLine ls line);
          ls1 = (if line \<noteq> [] \<and> addLine ls line then ls @ [line] else ls)
      in if newline \<in> set rest
         then let (ls2, ok2) = cheat_scan addLine ls1 (drop (length line0 + 1) rest) in (ls2, ok \<and> ok2)
         else (ls1, ok))"
  by pat_completeness auto
termination
proof (relation "measure (\<lambda>(_, _, rest). length rest)", goal_cases)
  case (2 addLine ls rest)
  then have "rest \<noteq> []" by auto
  with 2 show ?case by simp
qed simp

declare cheat_scan.simps [simp del]

definition gba_SetCheats :: "'c mgba \<Rightarrow> string list \<Rightarrow> 'c gba_core \<Rightarrow> 'c gba_core" where
  "gba_SetCheats m codes g =
     (case gba_core g of
        None \<Rightarrow> g
      | Some c \<Rightarrow>
          if \<not> mg_cheatDevice m c then g
          else g\<lparr>gba_cheats := fold (\<lambda>text sets.
                   case cheat_scan (mg_addLine m) [] text of
                     (cset, True) \<Rightarrow> sets @ [cset]
                   | (_, False) \<Rightarrow> sets) codes []\<rparr>)"

section \<open>Lemmas\<close>

text \<open>A whole-memory write leaves exactly that memory in the save file.\<close>

lemma sf_OnWrite_whole:
  assumes "length data < 2 ^ 32"
  shows "sf_buffer (sf_OnWrite data (word_of_nat (length data)) 0 (word_of_nat (length data)) now sf) = data"
proof -
  have len: "unat (word_of_nat (length data) :: u32) = length data"
    using assms by (simp add: unat_of_nat)
  show ?thesis
  proof (cases "length (sf_buffer sf) = length data")
    case True
    with len show ?thesis by (intro sf_OnWrite_buffer) (auto simp: in_window_def)
  next
    case False
    with len show ?thesis by (intro sf_OnWrite_resize) simp_all
  qed
qed

text \<open>The lines of a code, as mGBA gets them, and whether it accepts all of them.\<close>

definition code_lines :: "string \<Rightarrow> string list" where
  "code_lines text = filter (\<lambda>l. l \<noteq> [])
     (map (filter (\<lambda>c. c \<noteq> CHR 0x0D)) (fst (split_lines [] text) @ [snd (split_lines [] text)]))"

fun accepts :: "(string list \<Rightarrow> string \<Rightarrow> bool) \<Rightarrow> string list \<Rightarrow> string list \<Rightarrow> bool" where
  "accepts addLine ls [] = True"
| "accepts addLine ls (x # xs) = (addLine ls x \<and> accepts addLine (ls @ [x]) xs)"

lemma code_lines_step:
  "newline \<notin> set l \<Longrightarrow> code_lines (l @ newline # t) =
     (let x = filter (\<lambda>c. c \<noteq> CHR 0x0D) l in if x = [] then code_lines t else x # code_lines t)"
  by (simp add: code_lines_def split_lines_step Let_def)

lemma code_lines_last:
  "newline \<notin> set l \<Longrightarrow> code_lines l = (let x = filter (\<lambda>c. c \<noteq> CHR 0x0D) l in if x = [] then [] else [x])"
  by (simp add: code_lines_def Let_def)

lemma cheat_scan_spec:
  "snd (cheat_scan addLine ls text) \<longleftrightarrow> accepts addLine ls (code_lines text)"
  "accepts addLine ls (code_lines text) \<Longrightarrow> fst (cheat_scan addLine ls text) = ls @ code_lines text"
proof -
  have "(snd (cheat_scan addLine ls text) \<longrightarrow> accepts addLine ls (code_lines text)) \<and>
    (accepts addLine ls (code_lines text) \<longrightarrow> cheat_scan addLine ls text = (ls @ code_lines text, True))"
  proof (induction addLine ls "text" rule: cheat_scan.induct)
    case (1 addLine ls rest)
    define l where "l = takeWhile (\<lambda>c. c \<noteq> newline) rest"
    define x where "x = filter (\<lambda>c. c \<noteq> CHR 0x0D) l"
    have free: "newline \<notin> set l" by (auto simp: l_def dest: set_takeWhileD)
    show ?case
    proof (cases "newline \<in> set rest")
      case False
      then have "l = rest" by (auto simp: l_def takeWhile_eq_all_conv)
      with False free show ?thesis
        by (auto simp: cheat_scan.simps [of addLine ls rest] Let_def code_lines_last x_def simp flip: l_def)
    next
      case True
      define t where "t = drop (length l + 1) rest"
      from True obtain a b where ab: "rest = a @ newline # b" "newline \<notin> set a"
        by (auto dest: split_list_first)
      then have "l = a" by (auto simp: l_def takeWhile_append)
      with ab have rest: "rest = l @ newline # t" by (simp add: t_def)
      have lines: "code_lines rest = (if x = [] then code_lines t else x # code_lines t)"
        unfolding rest using free by (simp add: code_lines_step Let_def x_def)
      define ls1 where "ls1 = (if x \<noteq> [] \<and> addLine ls x then ls @ [x] else ls)"
      define ok where "ok = (x = [] \<or> addLine ls x)"
      have scan: "cheat_scan addLine ls rest = (fst (cheat_scan addLine ls1 t), ok \<and> snd (cheat_scan addLine ls1 t))"
        using True by (simp add: cheat_scan.simps [of addLine ls rest] Let_def ls1_def ok_def t_def case_prod_beta
            flip: l_def x_def)
      have IH: "(snd (cheat_scan addLine ls1 t) \<longrightarrow> accepts addLine ls1 (code_lines t)) \<and>
          (accepts addLine ls1 (code_lines t) \<longrightarrow> cheat_scan addLine ls1 t = (ls1 @ code_lines t, True))"
        using "1.IH" [OF l_def x_def ok_def ls1_def True] by (simp add: t_def)
      show ?thesis
        unfolding scan lines using IH by (cases "x = []"; cases "addLine ls x") (auto simp: ls1_def ok_def)
    qed
  qed
  then show "snd (cheat_scan addLine ls text) \<longleftrightarrow> accepts addLine ls (code_lines text)"
    "accepts addLine ls (code_lines text) \<Longrightarrow> fst (cheat_scan addLine ls text) = ls @ code_lines text"
    by auto
qed

lemma gba_SetCheats_fold:
  "fold (\<lambda>text sets. case cheat_scan addLine [] text of (cset, True) \<Rightarrow> sets @ [cset] | (_, False) \<Rightarrow> sets) codes acc
     = acc @ map code_lines (filter (\<lambda>t. accepts addLine [] (code_lines t)) codes)"
proof (induction codes arbitrary: acc)
  case (Cons t codes)
  show ?case
  proof (cases "accepts addLine [] (code_lines t)")
    case True
    then have "cheat_scan addLine [] t = (code_lines t, True)"
      using cheat_scan_spec [of addLine "[]" t] by (simp add: prod_eq_iff)
    with Cons True show ?thesis by simp
  next
    case False
    then obtain ls where "cheat_scan addLine [] t = (ls, False)"
      using cheat_scan_spec(1) [of addLine "[]" t] by (cases "cheat_scan addLine [] t") simp
    with Cons False show ?thesis by simp
  qed
qed simp

lemma gba_audio_drain:
  assumes "stereo_inv kAudioRingFrames (gba_ring g)" "gba_core g = Some c" "0 < mg_avail m c"
    and "mg_readSamples m (nat (mg_avail m c)) c = (c1, xs)"
  shows "stereo_inv kAudioRingFrames (gba_ring (gba_DrainAudio m g)) \<and>
    stereo_fifo kAudioRingFrames (gba_ring (gba_DrainAudio m g))
      = keep_last kAudioRingFrames (stereo_fifo kAudioRingFrames (gba_ring g) @ xs)"
  using gba_ring.put_batch [OF assms(1), of xs] assms(2-4) by (simp add: gba_DrainAudio_def)

lemma gba_audio_read:
  assumes "stereo_inv kAudioRingFrames (gba_ring g)"
  shows "snd (gba_ReadAudio n g) = take n (stereo_fifo kAudioRingFrames (gba_ring g)) \<and>
    stereo_fifo kAudioRingFrames (gba_ring (fst (gba_ReadAudio n g)))
      = drop n (stereo_fifo kAudioRingFrames (gba_ring g)) \<and>
    stereo_inv kAudioRingFrames (gba_ring (fst (gba_ReadAudio n g)))"
  using gba_ring.get_out [OF assms, of n] gba_ring.get_rest [OF assms, of n] gba_ring.get_inv [OF assms, of n]
  by (simp add: gba_ReadAudio_def case_prod_beta)

text \<open>The motor keeps running over a shutdown, and the next game's first request is swallowed.\<close>

lemma gba_Shutdown_rumble:
  "rumble_on (gba_per (gba_Shutdown m now g)) = rumble_on (gba_per g)"
  "gba_rumbles (gba_Shutdown m now g) = gba_rumbles g"
  by (auto simp: gba_Shutdown_def gba_SnapshotSave_def drop_save_file_def Let_def split: option.splits prod.splits)

section \<open>Properties\<close>

text \<open>
  C18: \<open>FlushSaves\<close> and the save of a game: afterwards nothing is left to write, the core remembers
  the game's current save, and when the game changed its save since the last look, the last request
  to the I/O thread is to write exactly that save to the game's file and wait for it.
\<close>

theorem gba_flush_writes_save:
  assumes "gba_core g = Some c" "gba_saveFile g = Some sf"
    and "mg_savedataClone m c = Some sram" "sram \<noteq> []" "length sram < 2 ^ 32"
  shows "gba_lastSave (gba_FlushSaves m now g) = sram \<and>
    (\<exists>sf'. gba_saveFile (gba_FlushSaves m now g) = Some sf' \<and> \<not> sf_dirty sf' \<and> sf_path sf' = sf_path sf) \<and>
    (sram \<noteq> gba_lastSave g \<longrightarrow> last (gba_io (gba_FlushSaves m now g)) = IoRun (sf_path sf) sram)"
  using assms sf_OnWrite_whole [OF assms(5), of now sf]
  by (auto simp: gba_FlushSaves_def gba_SnapshotSave_def Let_def sf_FlushNow_def sf_StartFlush_def)

text \<open>A stand-in for mGBA whose state is its save memory.\<close>

definition toy_mgba :: "bytes mgba" where
  "toy_mgba = \<lparr>mg_vfile = (\<lambda>r. r \<noteq> []), mg_create = Some [], mg_isROM = (\<lambda>c r. True), mg_init = (\<lambda>c. c),
     mg_loadROM = (\<lambda>r c. Some c), mg_loadSave = (\<lambda>b c. take 2 b), mg_loadBIOS = (\<lambda>b c. None),
     mg_reset = (\<lambda>c. c), mg_setKeys = (\<lambda>k c. c), mg_runFrame = (\<lambda>c. map (\<lambda>b. b + 1) c),
     mg_frequency = (\<lambda>c. 16777216), mg_setRates = (\<lambda>r c. c), mg_avail = (\<lambda>c. 2),
     mg_readSamples = (\<lambda>n c. (c, replicate n (1, 2))), mg_savedataClone = Some, mg_stateSize = length,
     mg_saveState = Some, mg_loadState = (\<lambda>b c. (b, True)), mg_saveNamed = Some, mg_loadNamed = (\<lambda>b c. (c, False)),
     mg_cheatDevice = (\<lambda>c. True), mg_addLine = (\<lambda>ls l. length l = 3)\<rparr>"

definition toy_gba :: "bytes gba_core" where
  "toy_gba = gba_new\<lparr>gba_core := Some [7, 8], gba_saveFile := Some (sf_new ''/s'')\<rparr>"

theorem gba_flush_writes_save_witness:
  "last (gba_io (gba_FlushSaves toy_mgba 5 toy_gba)) = IoRun ''/s'' [7, 8]"
  using gba_flush_writes_save [of toy_gba "[7, 8]" "sf_new ''/s''" toy_mgba "[7, 8]" 5]
  by (simp add: toy_gba_def toy_mgba_def gba_new_def sf_new_def)

text \<open>
  Sound of a GBA game: a frame's samples join the queue in order and the newest 8192 frames are
  kept; what the audio thread reads is the oldest part of the queue, each frame once.
\<close>

theorem gba_audio_queue:
  assumes "stereo_inv kAudioRingFrames (gba_ring g)" "gba_core g = Some c" "0 < mg_avail m c"
    and "mg_readSamples m (nat (mg_avail m c)) c = (c1, xs)" "q = stereo_fifo kAudioRingFrames (gba_ring g)"
    and "g' = gba_DrainAudio m g"
  shows "stereo_fifo kAudioRingFrames (gba_ring g') = keep_last 8192 (q @ xs) \<and>
    snd (gba_ReadAudio n g') = take n (keep_last 8192 (q @ xs)) \<and>
    stereo_fifo kAudioRingFrames (gba_ring (fst (gba_ReadAudio n g'))) = drop n (keep_last 8192 (q @ xs)) \<and>
    gba_AudioFill g' = min 8192 (length q + length xs)"
  using gba_audio_drain [OF assms(1-4)] gba_audio_read [of g' n] assms(5,6)
    stereo_fifo_length [of kAudioRingFrames "gba_ring g'"]
  by (simp add: kAudioRingFrames_def gba_AudioFill_def)

theorem gba_audio_queue_witness:
  "snd (gba_ReadAudio 1 (gba_DrainAudio toy_mgba toy_gba)) = [(1, 2)] \<and>
   gba_AudioFill (gba_DrainAudio toy_mgba toy_gba) = 2"
proof -
  have ring: "gba_ring toy_gba = stereo_new kAudioRingFrames" "gba_core toy_gba = Some [7, 8]"
    by (simp_all add: toy_gba_def gba_new_def)
  have m: "mg_readSamples toy_mgba (nat (mg_avail toy_mgba [7, 8])) [7, 8] = ([7, 8], [(1, 2), (1, 2)])"
    "0 < mg_avail toy_mgba [7, 8]"
    by (simp_all add: toy_mgba_def numeral_2_eq_2)
  have inv: "stereo_inv kAudioRingFrames (gba_ring toy_gba)"
    "[] = stereo_fifo kAudioRingFrames (gba_ring toy_gba)"
    using stereo_new_inv [of kAudioRingFrames] by (simp_all add: ring kAudioRingFrames_def)
  from gba_audio_queue [OF inv(1) ring(2) m(2,1) inv(2) refl, of 1] show ?thesis by simp
qed

text \<open>
  Cheats of a GBA game: a code is active exactly when mGBA accepts each of its non-empty lines
  in turn, and then with exactly these lines, carriage returns removed; the codes keep their order
  and earlier cheats are gone.
\<close>

theorem gba_cheats_whole_codes:
  assumes "gba_core g = Some c" "mg_cheatDevice m c"
  shows "gba_cheats (gba_SetCheats m codes g) =
    map code_lines (filter (\<lambda>t. accepts (mg_addLine m) [] (code_lines t)) codes)"
  using assms gba_SetCheats_fold [of "mg_addLine m" codes "[]"] by (simp add: gba_SetCheats_def)

theorem gba_cheats_whole_codes_witness:
  "gba_cheats (gba_SetCheats toy_mgba [''abc'' @ [newline, newline] @ ''def'' @ [CHR 0x0D], ''bad!''] toy_gba)
    = [[''abc'', ''def'']]"
proof -
  have "gba_core toy_gba = Some [7, 8]" "mg_cheatDevice toy_mgba [7, 8]"
    by (simp_all add: toy_gba_def toy_mgba_def)
  from gba_cheats_whole_codes [OF this] show ?thesis
    by (simp add: code_lines_def newline_def toy_mgba_def)
qed

text \<open>
  C22: The rotation sensor converts to 32 bit integers out of range: turning the phone at 4 radians
  per second, or shaking it with 11 metres per second squared, makes \<^verbatim>\<open>(int32_t)\<close> of the scaled value
  undefined.
\<close>

theorem gba_rotation_overflow:
  "RotationSample (\<lambda>x. x) (\<lambda>i. if i = 5 then 4 else 0) g = None \<and>
   RotationSample (\<lambda>x. x) (\<lambda>i. if i = 0 then 11 else 0) g = None"
  by (simp add: RotationSample_def float_to_int32_def c_trunc_def)

end
