(* ===== verification/HexText.thy ===== *)
theory HexText
  imports Prelude
begin

text \<open>
  Hexadecimal text as the C library reads and writes it: the digits, \<^verbatim>\<open>strtol\<close> with base 16 as far as
  the program uses it, and \<^verbatim>\<open>printf\<close>'s zero padded numbers.
\<close>

definition hex_val :: "char \<Rightarrow> nat option" where
  "hex_val c =
     (let n = (of_char c :: nat) in
      if 48 \<le> n \<and> n \<le> 57 then Some (n - 48)
      else if 65 \<le> n \<and> n \<le> 70 then Some (n - 55)
      else if 97 \<le> n \<and> n \<le> 102 then Some (n - 87)
      else None)"

definition isxdigit :: "char \<Rightarrow> bool" where
  "isxdigit c \<longleftrightarrow> hex_val c \<noteq> None"

definition isspace :: "char \<Rightarrow> bool" where
  "isspace c \<longleftrightarrow> c \<in> set [CHR '' '', CHR 0x09, CHR 0x0A, CHR 0x0B, CHR 0x0C, CHR 0x0D]"

definition hex_value :: "string \<Rightarrow> nat" where
  "hex_value ds = foldl (\<lambda>n c. n * 16 + the (hex_val c)) 0 ds"

text \<open>\<open>None\<close> when there is no number to convert, for which \<^verbatim>\<open>std::stoi\<close> throws.\<close>

definition strtol16 :: "string \<Rightarrow> int option" where
  "strtol16 s =
     (let s1 = dropWhile isspace s;
          neg = (s1 \<noteq> [] \<and> hd s1 = CHR ''-'');
          s2 = (if s1 \<noteq> [] \<and> (hd s1 = CHR ''-'' \<or> hd s1 = CHR ''+'') then tl s1 else s1);
          s3 = (if length s2 > 2 \<and> s2 ! 0 = CHR ''0'' \<and> (s2 ! 1 = CHR ''x'' \<or> s2 ! 1 = CHR ''X'') \<and> isxdigit (s2 ! 2)
                then drop 2 s2 else s2);
          ds = takeWhile isxdigit s3
      in if ds = [] then None else Some (if neg then - int (hex_value ds) else int (hex_value ds)))"

text \<open>\<open>hex_pad up k n\<close> is \<^verbatim>\<open>%0kX\<close> (upper case) or \<^verbatim>\<open>%0kx\<close> of a number of at most \<open>k\<close> digits.\<close>

definition hex_digit :: "bool \<Rightarrow> nat \<Rightarrow> char" where
  "hex_digit up n = char_of (if n < 10 then 48 + n else if up then 55 + n else 87 + n)"

fun hex_pad :: "bool \<Rightarrow> nat \<Rightarrow> nat \<Rightarrow> string" where
  "hex_pad up 0 n = []"
| "hex_pad up (Suc k) n = hex_pad up k (n div 16) @ [hex_digit up (n mod 16)]"

lemma hex_val_digit [simp]: "n < 16 \<Longrightarrow> hex_val (hex_digit up n) = Some n"
  by (auto simp: hex_val_def hex_digit_def Let_def)

lemma isxdigit_digit [simp]: "n < 16 \<Longrightarrow> isxdigit (hex_digit up n)"
  by (simp add: isxdigit_def)

lemma length_hex_pad [simp]: "length (hex_pad up k n) = k"
  by (induction k arbitrary: n) auto

lemma hex_pad_digits: "c \<in> set (hex_pad up k n) \<Longrightarrow> isxdigit c"
  by (induction k arbitrary: n) auto

lemma hex_value_pad: "hex_value (hex_pad up k n) = n mod 16 ^ k"
proof (induction k arbitrary: n)
  case (Suc k)
  have "hex_value (hex_pad up (Suc k) n) = hex_value (hex_pad up k (n div 16)) * 16 + n mod 16"
    by (simp add: hex_value_def)
  also have "\<dots> = n mod 16 ^ Suc k"
    unfolding Suc by (simp add: mod_mult2_eq mult.commute)
  finally show ?case .
qed (simp add: hex_value_def)

lemma isxdigit_not: "isxdigit c \<Longrightarrow> \<not> isspace c \<and> c \<noteq> CHR ''-'' \<and> c \<noteq> CHR ''+'' \<and> c \<noteq> CHR ''x'' \<and> c \<noteq> CHR ''X'' \<and>
    c \<noteq> CHR 0x0A \<and> c \<noteq> CHR '' ''"
  by (auto simp: isxdigit_def hex_val_def isspace_def)

lemma strtol16_digits:
  assumes "ds \<noteq> []" "\<And>c. c \<in> set ds \<Longrightarrow> isxdigit c"
  shows "strtol16 ds = Some (int (hex_value ds))"
proof -
  have hd: "isxdigit (hd ds)" using assms by simp
  have drop: "dropWhile isspace ds = ds"
    using isxdigit_not [OF hd] by (cases ds) auto
  have "1 < length ds \<Longrightarrow> isxdigit (ds ! 1)" using assms(2) by simp
  then have pre: "\<not> (length ds > 2 \<and> ds ! 0 = CHR ''0'' \<and> (ds ! 1 = CHR ''x'' \<or> ds ! 1 = CHR ''X'') \<and> isxdigit (ds ! 2))"
    using isxdigit_not [of "ds ! 1"] by auto
  have take: "takeWhile isxdigit ds = ds" using assms(2) by (simp add: takeWhile_eq_all_conv)
  show ?thesis
    unfolding strtol16_def drop Let_def using isxdigit_not [OF hd] pre assms(1) by (auto simp: take)
qed

end
