(* ===== verification/DsProfile.thy ===== *)
theory DsProfile
  imports HexText Config
begin

text \<open>
  The text formats of the DS core (\<^verbatim>\<open>DsCore.cpp\<close>): the player's profile written into the firmware's
  user data, and Action Replay codes.  The fields of the firmware are those of melonDS that the code
  reads and writes; its checksum update is not modelled.
\<close>

section \<open>The profile\<close>

text \<open>\<open>None\<close> is the exception of \<^verbatim>\<open>std::stoi\<close>, which nothing catches.\<close>

fun DecodeUtf16Hex :: "string \<Rightarrow> u16 list option" where
  "DecodeUtf16Hex (a # b # c # d # hex) =
     (case strtol16 [a, b, c, d] of
        None \<Rightarrow> None
      | Some v \<Rightarrow> map_option (\<lambda>us. word_of_int v # us) (DecodeUtf16Hex hex))"
| "DecodeUtf16Hex hex = Some []"

record firmware =
  fw_Nickname :: "u16 list"
  fw_NameLength :: u16
  fw_Message :: "u16 list"
  fw_MessageLength :: u16
  fw_Settings :: u16
  fw_ExtendedLanguage :: u8
  fw_Unknown0 :: u8
  fw_SupportedLanguageMask :: u16
  fw_ConsoleType :: u8
  fw_FavoriteColor :: u8
  fw_BirthdayMonth :: u8
  fw_BirthdayDay :: u8
  fw_wifi :: bytes

definition set_nickname :: "u16 list \<Rightarrow> firmware \<Rightarrow> firmware" where
  "set_nickname name fw =
     (if name = [] then fw
      else let n = min (length name) 10
           in fw\<lparr>fw_Nickname := splice (replicate 10 0) 0 (take n name), fw_NameLength := word_of_nat n\<rparr>)"

definition set_message :: "u16 list \<Rightarrow> firmware \<Rightarrow> firmware" where
  "set_message msg fw =
     (if msg = [] then fw
      else let n = min (length msg) 26
           in fw\<lparr>fw_Message := splice (replicate 26 0) 0 (take n msg), fw_MessageLength := word_of_nat n\<rparr>)"

text \<open>\<^verbatim>\<open>Chinese\<close> is 6, \<^verbatim>\<open>English\<close> 1 and the mask \<^verbatim>\<open>Reserved\<close> 7.\<close>

definition set_language :: "int \<Rightarrow> firmware \<Rightarrow> firmware" where
  "set_language lang fw =
     (if 0 \<le> lang \<and> lang \<le> 7
      then let extlang = (lang \<ge> 6);
               fw1 = fw\<lparr>fw_Settings := (fw_Settings fw AND NOT 7) OR (if extlang then 1 else word_of_int lang),
                        fw_ExtendedLanguage := word_of_int lang\<rparr>
           in if extlang \<and> fw_ConsoleType fw1 AND 0x40 = 0
              then fw1\<lparr>fw_ConsoleType := (if fw_ConsoleType fw1 = 0xFF then 0x43 else fw_ConsoleType fw1 OR 0x43),
                       fw_Unknown0 := 1, fw_SupportedLanguageMask := 0x7F\<rparr>
              else fw1
      else fw)"

definition set_favourites :: "int \<Rightarrow> int \<Rightarrow> int \<Rightarrow> firmware \<Rightarrow> firmware" where
  "set_favourites color month day fw =
     (let fw1 = (if 0 \<le> color \<and> color < 16 then fw\<lparr>fw_FavoriteColor := word_of_int color\<rparr> else fw);
          fw2 = (if 1 \<le> month \<and> month \<le> 12 then fw1\<lparr>fw_BirthdayMonth := word_of_int month\<rparr> else fw1)
      in if 1 \<le> day \<and> day \<le> 31 then fw2\<lparr>fw_BirthdayDay := word_of_int day\<rparr> else fw2)"

definition ApplyFirmwareProfile :: "config_store \<Rightarrow> firmware \<Rightarrow> firmware option" where
  "ApplyFirmwareProfile cfg fw =
     (case DecodeUtf16Hex (GetString cfg ''fw.nickname16'' []) of
        None \<Rightarrow> None
      | Some name \<Rightarrow>
          (case DecodeUtf16Hex (GetString cfg ''fw.message16'' []) of
             None \<Rightarrow> None
           | Some msg \<Rightarrow>
               Some (set_favourites (to_int32 (GetInt cfg ''fw.color'' (- 1)))
                       (to_int32 (GetInt cfg ''fw.birthMonth'' 0)) (to_int32 (GetInt cfg ''fw.birthDay'' 0))
                       (set_language (to_int32 (GetInt cfg ''fw.language'' (- 1)))
                          (set_message msg (set_nickname name fw))))))"

section \<open>Action Replay codes\<close>

text \<open>The pending digits become a word; \<open>None\<close> when they are not eight.\<close>

definition ar_flush :: "string \<Rightarrow> u32 list \<Rightarrow> u32 list option" where
  "ar_flush word out =
     (if word = [] then Some out
      else if length word \<noteq> 8 then None
      else Some (out @ [word_of_nat (hex_value word)]))"

fun ar_scan :: "string \<Rightarrow> u32 list \<Rightarrow> string \<Rightarrow> u32 list option" where
  "ar_scan word out [] = ar_flush word out"
| "ar_scan word out (c # cs) =
     (if isxdigit c then ar_scan (word @ [c]) out cs
      else case ar_flush word out of None \<Rightarrow> None | Some out1 \<Rightarrow> ar_scan [] out1 cs)"

definition ParseArCode :: "string \<Rightarrow> u32 list option" where
  "ParseArCode text =
     (case ar_scan [] [] text of
        None \<Rightarrow> None
      | Some out \<Rightarrow> if out \<noteq> [] \<and> even (length out) then Some out else None)"

section \<open>Writing\<close>

text \<open>The profile's hexadecimal form, four digits a unit, and the text form of a code, two words a line.\<close>

definition utf16_hex :: "u16 list \<Rightarrow> string" where
  "utf16_hex us = concat (map (\<lambda>u. hex_pad False 4 (unat u)) us)"

fun code_text :: "u32 list \<Rightarrow> string" where
  "code_text (a # b # ws) =
     hex_pad True 8 (unat a) @ '' '' @ hex_pad True 8 (unat b) @ [CHR 0x0A] @ code_text ws"
| "code_text ws = []"

section \<open>Lemmas\<close>

lemma strtol16_pad:
  fixes w :: "'a::len word"
  assumes "0 < k" "2 ^ LENGTH('a) \<le> (16 :: nat) ^ k"
  shows "strtol16 (hex_pad up k (unat w)) = Some (uint w)"
proof -
  have "hex_pad up k (unat w) \<noteq> []" using assms(1) by (simp flip: length_greater_0_conv)
  then have "strtol16 (hex_pad up k (unat w)) = Some (int (unat w mod 16 ^ k))"
    using strtol16_digits [of "hex_pad up k (unat w)"] hex_pad_digits by (simp add: hex_value_pad)
  moreover have "unat w < 16 ^ k" using unat_bound [of w] assms(2) by (rule less_le_trans)
  ultimately show ?thesis by simp
qed

lemma DecodeUtf16Hex_block:
  "length ds = 4 \<Longrightarrow> DecodeUtf16Hex (ds @ hex) =
     (case strtol16 ds of None \<Rightarrow> None | Some v \<Rightarrow> map_option (\<lambda>us. word_of_int v # us) (DecodeUtf16Hex hex))"
  by (auto simp: length_Suc_conv eval_nat_numeral)

lemma utf16_roundtrip: "DecodeUtf16Hex (utf16_hex us) = Some us"
proof (induction us)
  case (Cons u us)
  have "strtol16 (hex_pad False 4 (unat u)) = Some (uint u)" by (rule strtol16_pad) simp_all
  with Cons show ?case by (simp add: utf16_hex_def DecodeUtf16Hex_block)
qed (simp add: utf16_hex_def)

lemma ar_scan_word:
  "(\<And>c. c \<in> set ds \<Longrightarrow> isxdigit c) \<Longrightarrow> ar_scan word out (ds @ rest) = ar_scan (word @ ds) out rest"
  by (induction ds arbitrary: word) auto

lemma ar_scan_word_sep:
  assumes "\<not> isxdigit c"
  shows "ar_scan [] out (hex_pad True 8 (unat (w :: u32)) @ c # rest) = ar_scan [] (out @ [w]) rest"
proof -
  have ne: "hex_pad True 8 (unat w) \<noteq> []" using length_hex_pad [of True 8 "unat w"] by (metis list.size(3) zero_neq_numeral)
  have "unat w < 2 ^ 32" using unat_bound [of w] by simp
  then have "word_of_nat (unat w mod 16 ^ 8) = w" by simp
  then have "ar_flush (hex_pad True 8 (unat w)) out = Some (out @ [w])"
    using ne by (simp add: ar_flush_def hex_value_pad)
  then show ?thesis
    using ar_scan_word [of "hex_pad True 8 (unat w)" "[]" out "c # rest"] hex_pad_digits assms by simp
qed

lemma ar_scan_code_text: "even (length ws) \<Longrightarrow> ar_scan [] out (code_text ws) = Some (out @ ws)"
proof (induction ws arbitrary: out rule: code_text.induct)
  case (1 a b ws)
  have sep: "\<not> isxdigit CHR '' ''" "\<not> isxdigit CHR 0x0A" by code_simp+
  have "ar_scan [] out (code_text (a # b # ws))
      = ar_scan [] (out @ [a]) (hex_pad True 8 (unat b) @ CHR 0x0A # code_text ws)"
    using ar_scan_word_sep [OF sep(1), of out a] by simp
  also have "\<dots> = ar_scan [] ((out @ [a]) @ [b]) (code_text ws)"
    by (rule ar_scan_word_sep [OF sep(2)])
  finally show ?case using 1 by simp
qed (auto simp: ar_flush_def)

text \<open>A trailing newline does not matter.\<close>

lemma ar_scan_trailing: "\<not> isxdigit c \<Longrightarrow> ar_scan word out (t @ [c]) = ar_scan word out t"
proof (induction t arbitrary: word out)
  case Nil
  then show ?case by (simp add: ar_flush_def)
next
  case (Cons a t)
  then show ?case by (simp split: option.splits)
qed

lemma code_text_last: "ws \<noteq> [] \<Longrightarrow> even (length ws) \<Longrightarrow> code_text ws \<noteq> [] \<and> last (code_text ws) = CHR 0x0A"
proof (induction ws rule: code_text.induct)
  case (1 a b ws)
  then show ?case by (cases "ws = []") simp_all
qed auto

lemma ParseArCode_text:
  assumes "ws \<noteq> []" "even (length ws)"
  shows "ParseArCode (code_text ws) = Some ws \<and> ParseArCode (butlast (code_text ws)) = Some ws"
proof -
  have p: "ParseArCode (code_text ws) = Some ws" using assms by (simp add: ParseArCode_def ar_scan_code_text)
  have t: "code_text ws = butlast (code_text ws) @ [CHR 0x0A]"
    using code_text_last [OF assms] by (metis append_butlast_last_id)
  have nl: "\<not> isxdigit CHR 0x0A" by code_simp
  have "ParseArCode (butlast (code_text ws) @ [CHR 0x0A]) = ParseArCode (butlast (code_text ws))"
    by (simp add: ParseArCode_def ar_scan_trailing [OF nl])
  with p t show ?thesis by simp
qed

lemma splice_prefix: "length ys \<le> n \<Longrightarrow> splice (replicate n 0) 0 ys = ys @ replicate (n - length ys) 0"
  by (simp add: splice_def)

lemma set_favourites_frame [simp]:
  "fw_Nickname (set_favourites c m d fw) = fw_Nickname fw" "fw_NameLength (set_favourites c m d fw) = fw_NameLength fw"
  "fw_Message (set_favourites c m d fw) = fw_Message fw" "fw_MessageLength (set_favourites c m d fw) = fw_MessageLength fw"
  "fw_Settings (set_favourites c m d fw) = fw_Settings fw"
  "fw_ExtendedLanguage (set_favourites c m d fw) = fw_ExtendedLanguage fw"
  by (simp_all add: set_favourites_def Let_def)

lemma set_language_frame [simp]:
  "fw_Nickname (set_language l fw) = fw_Nickname fw" "fw_NameLength (set_language l fw) = fw_NameLength fw"
  "fw_Message (set_language l fw) = fw_Message fw" "fw_MessageLength (set_language l fw) = fw_MessageLength fw"
  by (simp_all add: set_language_def Let_def)

lemma set_message_frame [simp]:
  "fw_Nickname (set_message m fw) = fw_Nickname fw" "fw_NameLength (set_message m fw) = fw_NameLength fw"
  by (simp_all add: set_message_def Let_def)

lemma set_nickname_name:
  "us \<noteq> [] \<Longrightarrow> fw_Nickname (set_nickname us fw) = take 10 us @ replicate (10 - length us) 0 \<and>
     unat (fw_NameLength (set_nickname us fw)) = min (length us) 10"
  by (auto simp: set_nickname_def Let_def splice_prefix unat_of_nat min_def)

lemma set_message_text:
  "ms \<noteq> [] \<Longrightarrow> fw_Message (set_message ms fw) = take 26 ms @ replicate (26 - length ms) 0 \<and>
     unat (fw_MessageLength (set_message ms fw)) = min (length ms) 26"
  by (auto simp: set_message_def Let_def splice_prefix unat_of_nat min_def)

section \<open>Properties\<close>

text \<open>
  The player's profile reaches the firmware: a nickname and a message passed in their
  hexadecimal form decode without an exception and appear, cut to 10 and 26 units, padded with
  zeros and with their exact length; they never overrun the fields.
\<close>

theorem firmware_profile_names:
  assumes "GetString cfg ''fw.nickname16'' [] = utf16_hex us" "GetString cfg ''fw.message16'' [] = utf16_hex ms"
    and "us \<noteq> []" "ms \<noteq> []"
  shows "\<exists>fw'. ApplyFirmwareProfile cfg fw = Some fw' \<and>
    fw_Nickname fw' = take 10 us @ replicate (10 - length us) 0 \<and>
    unat (fw_NameLength fw') = min (length us) 10 \<and>
    fw_Message fw' = take 26 ms @ replicate (26 - length ms) 0 \<and>
    unat (fw_MessageLength fw') = min (length ms) 26"
  using set_nickname_name [OF assms(3)] set_message_text [OF assms(4)]
  by (simp add: ApplyFirmwareProfile_def assms(1,2) utf16_roundtrip)

definition demo_profile :: config_store where
  "demo_profile = SetString ''fw.nickname16'' (utf16_hex [0x41, 0x42])
     (SetString ''fw.message16'' (utf16_hex [0x43]) config_new)"

theorem firmware_profile_names_witness:
  "\<forall>fw. \<exists>fw'. ApplyFirmwareProfile demo_profile fw = Some fw' \<and>
    fw_Nickname fw' = [0x41, 0x42, 0, 0, 0, 0, 0, 0, 0, 0] \<and> unat (fw_NameLength fw') = 2"
proof -
  have "GetString demo_profile ''fw.nickname16'' [] = utf16_hex [0x41, 0x42]"
    "GetString demo_profile ''fw.message16'' [] = utf16_hex [0x43]"
    by (simp_all add: demo_profile_def strings.get_same strings.get_other)
  from firmware_profile_names [OF this] show ?thesis
    by (auto simp: eval_nat_numeral)
qed

end
