(* ===== verification/DsCore.thy ===== *)
theory DsCore
  imports DsProfile SaveFiles CoreTypes
begin

text \<open>
  The Nintendo DS core, class \<^verbatim>\<open>DsCore\<close> of \<^verbatim>\<open>DsCore.cpp\<close>.  The emulator proper is melonDS, a third party
  library: its console is an abstract state \<open>'n\<close>, its cartridges \<open>'k\<close>, and its functions are the
  fields of a record that the operations take as an argument.
\<close>

section \<open>melonDS\<close>

record clock =
  tm_year :: int
  tm_mon :: int
  tm_mday :: int
  tm_hour :: int
  tm_min :: int
  tm_sec :: int

record jit_args =
  jit_MaxBlockSize :: u32
  jit_Literal :: bool
  jit_Branch :: bool
  jit_FastMemory :: bool

record gdb_args =
  gdb_PortARM9 :: u16
  gdb_PortARM7 :: u16
  gdb_Break9 :: bool
  gdb_Break7 :: bool

record nds_args =
  na_ARM9BIOS :: "bytes option"
  na_ARM7BIOS :: "bytes option"
  na_Firmware :: firmware
  na_JIT :: "jit_args option"
  na_Interpolation :: int
  na_BitDepth :: int
  na_OutputSampleRate :: int
  na_GDB :: "gdb_args option"

record fat_args =
  fa_path :: string
  fa_size :: u64
  fa_readOnly :: bool

record dsi_args =
  di_nds :: nds_args
  di_ARM9i :: bytes
  di_ARM7i :: bytes
  di_nand :: string
  di_SD :: "fat_args option"
  di_DSPHLE :: bool

record render_settings =
  rs_ScaleFactor :: int
  rs_Threaded :: bool
  rs_HiresCoordinates :: bool
  rs_BetterPolygons :: bool

datatype framebuffers = NoFrame | SoftFrame nat nat | HardFrame nat

record ('n, 'k) melon =
  md_ARM9Size :: nat
  md_ARM7Size :: nat
  md_DSiSize :: nat
  md_Firmware :: "bytes \<Rightarrow> firmware option"
  md_NewFirmware :: "int \<Rightarrow> firmware"
  md_NandOpens :: "string \<Rightarrow> bool"
  md_NandValid :: "string \<Rightarrow> bytes \<Rightarrow> bool"
  md_NDS :: "nds_args \<Rightarrow> 'n"
  md_DSi :: "dsi_args \<Rightarrow> 'n"
  md_ParseROM :: "bytes \<Rightarrow> bytes \<Rightarrow> fat_args option \<Rightarrow> 'k option"
  md_ParseGba :: "bytes \<Rightarrow> bytes \<Rightarrow> 'k option"
  md_SetNDSCart :: "'k \<Rightarrow> 'n \<Rightarrow> 'n"
  md_SetGBACart :: "'k \<Rightarrow> 'n \<Rightarrow> 'n"
  md_Reset :: "'n \<Rightarrow> 'n"
  md_Start :: "'n \<Rightarrow> 'n"
  md_NeedsDirectBoot :: "'n \<Rightarrow> bool"
  md_SetupDirectBoot :: "string \<Rightarrow> 'n \<Rightarrow> 'n"
  md_SetBatteryOkay :: "'n \<Rightarrow> 'n"
  md_SetDateTime :: "clock \<Rightarrow> 'n \<Rightarrow> 'n"
  md_SetRenderer :: "int \<Rightarrow> 'n \<Rightarrow> 'n"
  md_SetRenderSettings :: "render_settings \<Rightarrow> 'n \<Rightarrow> 'n"
  md_SetInterpolation :: "int \<Rightarrow> 'n \<Rightarrow> 'n"
  md_SetDegrade10Bit :: "int \<Rightarrow> 'n \<Rightarrow> 'n"
  md_SetLidClosed :: "bool \<Rightarrow> 'n \<Rightarrow> 'n"
  md_SetKeyMask :: "u32 \<Rightarrow> 'n \<Rightarrow> 'n"
  md_TouchScreen :: "u16 \<Rightarrow> u16 \<Rightarrow> 'n \<Rightarrow> 'n"
  md_ReleaseScreen :: "'n \<Rightarrow> 'n"
  md_NeedsShaderCompile :: "'n \<Rightarrow> bool"
  md_ShaderCompileStep :: "'n \<Rightarrow> 'n"
  md_RunFrame :: "'n \<Rightarrow> 'n"
  md_GetFramebuffers :: "'n \<Rightarrow> framebuffers"
  md_Savestate :: "'n \<Rightarrow> bytes option"
  md_Capture :: "nat \<Rightarrow> 'n \<Rightarrow> bytes option"
  md_LoadSavestate :: "bytes \<Rightarrow> 'n \<Rightarrow> 'n \<times> bool"
  md_SetOutputSkew :: "rat \<Rightarrow> 'n \<Rightarrow> 'n"
  md_GetOutputSize :: "'n \<Rightarrow> int"
  md_SolarInput :: "bool \<Rightarrow> 'n \<Rightarrow> 'n"
  md_WifiSettings :: "'n \<Rightarrow> bytes"

section \<open>State\<close>

record 'n ds_core =
  ds_nds :: "'n option"
  ds_consoleType :: int
  ds_activeRenderer :: int
  ds_romName :: string
  ds_gameKey :: string
  ds_ndsSave :: "save_file option"
  ds_gbaSave :: "save_file option"
  ds_cheats :: "u32 list list"
  ds_io :: "io_request list"

definition ds_new :: "'n ds_core" where
  "ds_new = \<lparr>ds_nds = None, ds_consoleType = 0, ds_activeRenderer = 0, ds_romName = [], ds_gameKey = [],
     ds_ndsSave = None, ds_gbaSave = None, ds_cheats = [], ds_io = []\<rparr>"

text \<open>
  What surrounds an operation: the settings, the app's directory, the files and how reading them goes,
  whether there is a Vulkan device, the time of the wall clock and the time zone's conversions.
\<close>

record ds_env =
  de_cfg :: config_store
  de_filesDir :: string
  de_fs :: fs
  de_read :: read_answers
  de_vulkan :: bool
  de_time :: int
  de_localtime :: "int \<Rightarrow> clock"
  de_mktime :: "clock \<Rightarrow> int"

text \<open>\<open>read_file\<close> is a \<open>ReadWholeFile\<close> into an empty vector.\<close>

definition read_file :: "ds_env \<Rightarrow> string \<Rightarrow> bool \<times> bytes" where
  "read_file e p = ReadWholeFile (de_read e) p (de_fs e) []"

definition LoadBiosFile :: "ds_env \<Rightarrow> nat \<Rightarrow> string \<Rightarrow> bytes option" where
  "LoadBiosFile e sz path =
     (if path = [] then None
      else case read_file e path of
             (False, _) \<Rightarrow> None
           | (True, data) \<Rightarrow> if length data < sz then None else Some (take sz data))"

definition kWfcSettingsSize :: nat where "kWfcSettingsSize = 3 * (256 + 512)"

section \<open>Creating a console\<close>

text \<open>
  \<open>CreateConsole\<close> in the order of the code.  A result is an error message or the new core; the outer
  \<open>None\<close> is the uncaught exception of a malformed profile.
\<close>

definition ds_bios :: "('n, 'k) melon \<Rightarrow> ds_env \<Rightarrow> string + bytes option \<times> bytes option" where
  "ds_bios m e =
     (if GetBool (de_cfg e) ''emu.externalBios'' False
      then case (LoadBiosFile e (md_ARM9Size m) (GetString (de_cfg e) ''bios.arm9'' []),
                 LoadBiosFile e (md_ARM7Size m) (GetString (de_cfg e) ''bios.arm7'' [])) of
             (Some a, Some b) \<Rightarrow> Inr (Some a, Some b)
           | _ \<Rightarrow> Inl ''The BIOS files set in Settings could not be read. Turn off \"Use real BIOS\" or pick the files again.''
      else Inr (None, None))"

definition ds_firmware :: "('n, 'k) melon \<Rightarrow> ds_env \<Rightarrow> int \<Rightarrow> (string + firmware) option" where
  "ds_firmware m e consoleType =
     (let cfg = de_cfg e;
          fwPath = GetString cfg (if consoleType = 1 then ''bios.dsiFirmware'' else ''bios.firmware'') [];
          r = read_file e fwPath
      in if GetBool cfg ''emu.externalBios'' False \<and> fwPath \<noteq> [] \<and> fst r \<and> snd r \<noteq> []
         then case md_Firmware m (snd r) of
                None \<Rightarrow> Some (Inl ''The firmware file set in Settings is not valid.'')
              | Some fw \<Rightarrow>
                  if GetBool cfg ''fw.override'' True then map_option Inr (ApplyFirmwareProfile cfg fw)
                  else Some (Inr fw)
         else
           let fw = md_NewFirmware m consoleType;
               w = read_file e (de_filesDir e @ ''/wfcsettings.bin'');
               fw1 = (if fst w \<and> length (snd w) \<ge> kWfcSettingsSize
                      then fw\<lparr>fw_wifi := take kWfcSettingsSize (snd w)\<rparr> else fw)
           in map_option Inr (ApplyFirmwareProfile cfg fw1))"

definition ds_jit :: "config_store \<Rightarrow> jit_args option" where
  "ds_jit cfg =
     (if GetBool cfg ''jit.enabled'' True
      then Some \<lparr>jit_MaxBlockSize = word_of_int (GetInt cfg ''jit.maxBlockSize'' 32),
                 jit_Literal = GetBool cfg ''jit.literal'' True, jit_Branch = GetBool cfg ''jit.branch'' True,
                 jit_FastMemory = GetBool cfg ''jit.fastmem'' True\<rparr>
      else None)"

definition ds_gdb :: "config_store \<Rightarrow> gdb_args option" where
  "ds_gdb cfg =
     (if GetBool cfg ''debug.gdb'' False
      then Some \<lparr>gdb_PortARM9 = word_of_int (GetInt cfg ''debug.gdbPort9'' 3333),
                 gdb_PortARM7 = word_of_int (GetInt cfg ''debug.gdbPort7'' 3334),
                 gdb_Break9 = GetBool cfg ''debug.gdbBreak'' False, gdb_Break7 = False\<rparr>
      else None)"

definition ds_fat :: "ds_env \<Rightarrow> string \<Rightarrow> string \<Rightarrow> string \<Rightarrow> string \<Rightarrow> bool \<Rightarrow> fat_args option" where
  "ds_fat e path enabled sz readOnly def =
     (if GetBool (de_cfg e) enabled def
      then Some \<lparr>fa_path = de_filesDir e @ path,
                 fa_size = word_of_int (GetInt (de_cfg e) sz 0) * 1024 * 1024,
                 fa_readOnly = GetBool (de_cfg e) readOnly False\<rparr>
      else None)"

definition ds_dsi :: "('n, 'k) melon \<Rightarrow> ds_env \<Rightarrow> nds_args \<Rightarrow> string + 'n" where
  "ds_dsi m e args =
     (case (LoadBiosFile e (md_DSiSize m) (GetString (de_cfg e) ''bios.dsiArm9'' []),
            LoadBiosFile e (md_DSiSize m) (GetString (de_cfg e) ''bios.dsiArm7'' [])) of
        (Some a9, Some a7) \<Rightarrow>
          let nandPath = GetString (de_cfg e) ''bios.dsiNand'' [] in
          if nandPath \<noteq> [] \<and> md_NandOpens m nandPath
          then if md_NandValid m nandPath a7
               then Inr (md_DSi m \<lparr>di_nds = args, di_ARM9i = a9, di_ARM7i = a7, di_nand = nandPath,
                           di_SD = ds_fat e ''/sd/dsi_sd.img'' ''dsi.sdEnabled'' ''dsi.sdSizeMB'' ''dsi.sdReadOnly'' True,
                           di_DSPHLE = GetBool (de_cfg e) ''dsi.dspHle'' True\<rparr>)
               else Inl ''The DSi NAND file could not be opened. Check it was dumped with the matching BIOS.''
          else Inl ''DSi mode needs a DSi NAND dump. Add it in Settings > DSi.''
      | _ \<Rightarrow> Inl ''DSi mode needs the DSi BIOS files. Add them in Settings > DSi.'')"

definition CreateConsole :: "('n, 'k) melon \<Rightarrow> ds_env \<Rightarrow> 'n ds_core \<Rightarrow> ('n ds_core \<times> string option) option" where
  "CreateConsole m e ds =
     (let cfg = de_cfg e; ct = to_int32 (GetInt cfg ''emu.consoleType'' 0);
          ds0 = ds\<lparr>ds_consoleType := ct\<rparr>
      in case ds_bios m e of
           Inl err \<Rightarrow> Some (ds0, Some err)
         | Inr (arm9, arm7) \<Rightarrow>
             (case ds_firmware m e ct of
                None \<Rightarrow> None
              | Some (Inl err) \<Rightarrow> Some (ds0, Some err)
              | Some (Inr fw) \<Rightarrow>
                  let args = \<lparr>na_ARM9BIOS = arm9, na_ARM7BIOS = arm7, na_Firmware = fw, na_JIT = ds_jit cfg,
                              na_Interpolation = GetInt cfg ''audio.interpolation'' 0,
                              na_BitDepth = GetInt cfg ''audio.bitDepth'' 0, na_OutputSampleRate = 48000,
                              na_GDB = ds_gdb cfg\<rparr>;
                      ds1 = ds0\<lparr>ds_nds := None\<rparr>
                  in case (if ct = 1 then ds_dsi m e args else Inr (md_NDS m args)) of
                       Inl err \<Rightarrow> Some (ds1, Some err)
                     | Inr n \<Rightarrow> Some (ds1\<lparr>ds_nds := Some (md_Reset m n), ds_activeRenderer := 0, ds_cheats := []\<rparr>, None)))"

section \<open>Settings\<close>

definition ds_RenderScale :: "config_store \<Rightarrow> 'n ds_core \<Rightarrow> int" where
  "ds_RenderScale cfg ds =
     (if ds_activeRenderer ds = 0 then 1
      else let scale = to_int32 (GetInt cfg ''video.scale'' 4);
               cap = to_int32 (GetInt cfg ''video.scaleCap'' 0);
               capped = (if cap > 0 then min scale cap else scale)
           in max 1 capped)"

text \<open>
  The renderer wanted: 0 software, 1 OpenGL ES, 2 its compute variant, 3 Vulkan, which falls back to
  OpenGL ES.
\<close>

definition ds_want :: "ds_env \<Rightarrow> int" where
  "ds_want e =
     (let want = to_int32 (GetInt (de_cfg e) ''video.renderer'' 3)
      in if want = 3 \<and> \<not> de_vulkan e then 1 else want)"

definition ds_ApplySettings :: "('n, 'k) melon \<Rightarrow> ds_env \<Rightarrow> 'n ds_core \<Rightarrow> 'n ds_core" where
  "ds_ApplySettings m e ds =
     (case ds_nds ds of
        None \<Rightarrow> ds
      | Some n \<Rightarrow>
          let cfg = de_cfg e; want = ds_want e;
              n1 = (if want \<noteq> ds_activeRenderer ds then md_SetRenderer m want n else n);
              ds1 = ds\<lparr>ds_activeRenderer := want\<rparr>;
              rs = \<lparr>rs_ScaleFactor = ds_RenderScale cfg ds1, rs_Threaded = GetBool cfg ''video.threaded3D'' True,
                    rs_HiresCoordinates = GetBool cfg ''video.hiresCoords'' True,
                    rs_BetterPolygons = GetBool cfg ''video.betterPolygons'' False\<rparr>
          in ds1\<lparr>ds_nds := Some (md_SetDegrade10Bit m (GetInt cfg ''audio.bitDepth'' 0)
                   (md_SetInterpolation m (GetInt cfg ''audio.interpolation'' 0) (md_SetRenderSettings m rs n1)))\<rparr>)"

definition ds_ApplyRtc :: "('n, 'k) melon \<Rightarrow> ds_env \<Rightarrow> 'n ds_core \<Rightarrow> 'n ds_core" where
  "ds_ApplyRtc m e ds =
     (case ds_nds ds of
        None \<Rightarrow> ds
      | Some n \<Rightarrow>
          let t = de_localtime e (de_time e + GetInt (de_cfg e) ''rtc.offset'' 0)
          in ds\<lparr>ds_nds := Some (md_SetDateTime m (t\<lparr>tm_year := tm_year t + 1900, tm_mon := tm_mon t + 1\<rparr>) n)\<rparr>)"

definition ds_SyncClock :: "('n, 'k) melon \<Rightarrow> ds_env \<Rightarrow> 'n ds_core \<Rightarrow> 'n ds_core" where
  "ds_SyncClock m e ds = (if GetBool (de_cfg e) ''rtc.sync'' False then ds_ApplyRtc m e ds else ds)"

text \<open>The console's clock was set: the new offset goes to the settings and to the app.\<close>

definition ds_OnDateTimeWrite :: "ds_env \<Rightarrow> int \<Rightarrow> int \<Rightarrow> int \<Rightarrow> int \<Rightarrow> int \<Rightarrow> int \<Rightarrow> config_store \<times> int" where
  "ds_OnDateTimeWrite e year month day hour minute second =
     (let t = \<lparr>tm_year = year - 1900, tm_mon = month - 1, tm_mday = day, tm_hour = hour, tm_min = minute, tm_sec = second\<rparr>;
          offset = de_mktime e t - de_time e
      in (SetInt ''rtc.offset'' offset (de_cfg e), offset))"

section \<open>Battery saves\<close>

definition ds_flush :: "'n ds_core \<Rightarrow> (save_file \<Rightarrow> save_file \<times> io_request) \<Rightarrow> 'n ds_core" where
  "ds_flush ds f =
     (let ds1 = (case ds_ndsSave ds of
                   None \<Rightarrow> ds
                 | Some sf \<Rightarrow> let (sf1, r) = f sf in ds\<lparr>ds_ndsSave := Some sf1, ds_io := ds_io ds @ [r]\<rparr>)
      in case ds_gbaSave ds1 of
           None \<Rightarrow> ds1
         | Some sf \<Rightarrow> let (sf1, r) = f sf in ds1\<lparr>ds_gbaSave := Some sf1, ds_io := ds_io ds1 @ [r]\<rparr>)"

definition ds_FlushSaves :: "'n ds_core \<Rightarrow> 'n ds_core" where
  "ds_FlushSaves ds = ds_flush ds sf_FlushNow"

definition ds_CheckFlush :: "int \<Rightarrow> 'n ds_core \<Rightarrow> 'n ds_core" where
  "ds_CheckFlush now ds = ds_flush ds (sf_CheckFlush now)"

text \<open>The save files are dropped; the destructor flushes each once more.\<close>

definition ds_drop_saves :: "'n ds_core \<Rightarrow> 'n ds_core" where
  "ds_drop_saves ds = (ds_FlushSaves ds)\<lparr>ds_ndsSave := None, ds_gbaSave := None\<rparr>"

definition ds_OnNdsSaveWrite :: "bytes \<Rightarrow> u32 \<Rightarrow> u32 \<Rightarrow> u32 \<Rightarrow> int \<Rightarrow> 'n ds_core \<Rightarrow> 'n ds_core" where
  "ds_OnNdsSaveWrite data len off wlen now ds =
     ds\<lparr>ds_ndsSave := map_option (sf_OnWrite data len off wlen now) (ds_ndsSave ds)\<rparr>"

definition ds_OnGbaSaveWrite :: "bytes \<Rightarrow> u32 \<Rightarrow> u32 \<Rightarrow> u32 \<Rightarrow> int \<Rightarrow> 'n ds_core \<Rightarrow> 'n ds_core" where
  "ds_OnGbaSaveWrite data len off wlen now ds =
     ds\<lparr>ds_gbaSave := map_option (sf_OnWrite data len off wlen now) (ds_gbaSave ds)\<rparr>"

definition ds_OnFirmwareWrite :: "('n, 'k) melon \<Rightarrow> ds_env \<Rightarrow> 'n ds_core \<Rightarrow> 'n ds_core" where
  "ds_OnFirmwareWrite m e ds =
     (case ds_nds ds of
        None \<Rightarrow> ds
      | Some n \<Rightarrow> ds\<lparr>ds_io := ds_io ds @ [IoPost (de_filesDir e @ ''/wfcsettings.bin'')
                                           (take kWfcSettingsSize (md_WifiSettings m n))]\<rparr>)"

section \<open>Loading\<close>

definition ds_save_path :: "ds_env \<Rightarrow> string \<Rightarrow> string" where
  "ds_save_path e key = de_filesDir e @ ''/saves/'' @ key @ ''.sav''"

definition ds_sram :: "ds_env \<Rightarrow> string \<Rightarrow> bytes" where
  "ds_sram e path = (let r = read_file e path in if fst r then snd r else [])"

definition ds_Shutdown :: "'n ds_core \<Rightarrow> 'n ds_core" where
  "ds_Shutdown ds = ds_drop_saves ((ds_FlushSaves ds)\<lparr>ds_nds := None\<rparr>)"

text \<open>\<open>None\<close>: a backup that does not return or the exception of the profile.\<close>

definition ds_LoadGame ::
  "('n, 'k) melon \<Rightarrow> ds_env \<Rightarrow> backup_env \<Rightarrow> bytes \<Rightarrow> string \<Rightarrow> string \<Rightarrow> 'n ds_core \<Rightarrow>
   ('n ds_core \<times> fs \<times> string) option" where
  "ds_LoadGame m e env rom fileName key ds =
     (let cfg = de_cfg e;
          ds1 = (ds_drop_saves (ds_FlushSaves ds))\<lparr>ds_gameKey := key, ds_romName := fileName\<rparr>;
          savePath = ds_save_path e key
      in case BackupExisting env savePath (de_filesDir e @ ''/backups/'' @ key)
                (to_int32 (GetInt cfg ''saves.backupCount'' 10)) (de_fs e) of
           None \<Rightarrow> None
         | Some d \<Rightarrow>
             let e1 = e\<lparr>de_fs := d\<rparr>; sram = ds_sram e1 savePath;
                 sd = ds_fat e1 ''/sd/dldi.img'' ''dldi.enabled'' ''dldi.sizeMB'' ''dldi.readOnly'' True
             in case md_ParseROM m rom sram sd of
                  None \<Rightarrow> Some (ds1, d, ''This file is not a valid DS game.'')
                | Some cart \<Rightarrow>
                    (case CreateConsole m e1 ds1 of
                       None \<Rightarrow> None
                     | Some (ds2, Some err) \<Rightarrow> Some (ds2, d, err)
                     | Some (ds2, None) \<Rightarrow>
                         let ds3 = ds_ApplySettings m e1 (ds2\<lparr>ds_nds := map_option (md_SetNDSCart m cart) (ds_nds ds2)\<rparr>);
                             n3 = md_Reset m (the (ds_nds ds3));
                             n4 = (if GetBool cfg ''emu.directBoot'' True \<or> md_NeedsDirectBoot m n3
                                   then md_SetupDirectBoot m fileName n3 else n3);
                             n5 = (if ds_consoleType ds3 = 0 then md_SetBatteryOkay m n4 else n4);
                             ds5 = ds_ApplyRtc m e1 (ds3\<lparr>ds_nds := Some n5\<rparr>)
                         in Some (ds5\<lparr>ds_ndsSave := Some (sf_new savePath),
                                     ds_nds := map_option (md_Start m) (ds_nds ds5)\<rparr>, d, [])))"

definition ds_BootFirmware :: "('n, 'k) melon \<Rightarrow> ds_env \<Rightarrow> 'n ds_core \<Rightarrow> ('n ds_core \<times> string) option" where
  "ds_BootFirmware m e ds =
     (case CreateConsole m e ds of
        None \<Rightarrow> None
      | Some (ds1, Some err) \<Rightarrow> Some (ds1, err)
      | Some (ds1, None) \<Rightarrow>
          if md_NeedsDirectBoot m (the (ds_nds ds1))
          then Some (ds1\<lparr>ds_nds := None\<rparr>,
                     ''Booting to the DS menu needs real BIOS and firmware dumps (Settings > BIOS & firmware).'')
          else
            let ds2 = ds_ApplySettings m e (ds1\<lparr>ds_gameKey := ''firmware'', ds_romName := []\<rparr>);
                ds3 = ds_ApplyRtc m e (ds2\<lparr>ds_nds := map_option (md_Reset m) (ds_nds ds2)\<rparr>)
            in Some (ds3\<lparr>ds_nds := map_option (md_Start m) (ds_nds ds3)\<rparr>, []))"

definition ds_InsertGbaCart ::
  "('n, 'k) melon \<Rightarrow> ds_env \<Rightarrow> bytes \<Rightarrow> string \<Rightarrow> 'n ds_core \<Rightarrow> 'n ds_core \<times> string" where
  "ds_InsertGbaCart m e rom fileName ds =
     (case ds_nds ds of
        None \<Rightarrow> (ds, ''GBA cartridges only work in DS mode.'')
      | Some n \<Rightarrow>
          if ds_consoleType ds \<noteq> 0 then (ds, ''GBA cartridges only work in DS mode.'')
          else
            let savePath = de_filesDir e @ ''/saves/'' @ fileName @ ''.gba.sav'' in
            case md_ParseGba m rom (ds_sram e savePath) of
              None \<Rightarrow> (ds, ''This file is not a valid GBA game.'')
            | Some cart \<Rightarrow>
                let old = (case ds_gbaSave ds of None \<Rightarrow> [] | Some sf \<Rightarrow> [snd (sf_FlushNow sf)])
                in (ds\<lparr>ds_nds := Some (md_SetGBACart m cart n), ds_gbaSave := Some (sf_new savePath),
                      ds_io := ds_io ds @ old\<rparr>, []))"

section \<open>Running\<close>

definition ds_RunFrame :: "('n, 'k) melon \<Rightarrow> core_input \<Rightarrow> 'n ds_core \<Rightarrow> 'n ds_core" where
  "ds_RunFrame m i ds =
     (case ds_nds ds of
        None \<Rightarrow> ds
      | Some n \<Rightarrow>
          let n1 = (if in_lidRequest i \<ge> 0 then md_SetLidClosed m (in_lidRequest i = 1) n else n);
              n2 = md_SetKeyMask m (NOT (in_keys i) AND 0xFFF) n1;
              n3 = (if in_touching i then md_TouchScreen m (word_of_int (in_touchX i)) (word_of_int (in_touchY i)) n2
                    else md_ReleaseScreen m n2)
          in ds\<lparr>ds_nds := Some (if md_NeedsShaderCompile m n3 then md_ShaderCompileStep m n3 else md_RunFrame m n3)\<rparr>)"

definition ds_GetFrame :: "('n, 'k) melon \<Rightarrow> config_store \<Rightarrow> 'n ds_core \<Rightarrow> frame_info option" where
  "ds_GetFrame m cfg ds =
     (case ds_nds ds of
        None \<Rightarrow> None
      | Some n \<Rightarrow>
          (case md_GetFramebuffers m n of
             NoFrame \<Rightarrow> None
           | SoftFrame upper lower \<Rightarrow>
               if upper = 0 \<or> lower = 0 then None
               else Some (frame_new\<lparr>fi_screenCount := 2, fi_screens := (upper, lower), fi_width := 256,
                            fi_height := 192, fi_bgra := True\<rparr>)
           | HardFrame layers \<Rightarrow>
               if layers = 0 then None
               else let scale = ds_RenderScale cfg ds;
                        f = frame_new\<lparr>fi_screenCount := 2, fi_hardware := True, fi_width := 256 * scale,
                              fi_height := 192 * scale\<rparr>
                    in Some (if ds_activeRenderer ds = 3 then f\<lparr>fi_vkTexture := layers\<rparr> else f\<lparr>fi_texture := layers\<rparr>)))"

definition ds_Reset :: "('n, 'k) melon \<Rightarrow> ds_env \<Rightarrow> 'n ds_core \<Rightarrow> 'n ds_core" where
  "ds_Reset m e ds =
     (case ds_nds ds of
        None \<Rightarrow> ds
      | Some n \<Rightarrow>
          let n1 = md_Reset m n;
              n2 = (if ds_romName ds \<noteq> [] \<and> (GetBool (de_cfg e) ''emu.directBoot'' True \<or> md_NeedsDirectBoot m n1)
                    then md_SetupDirectBoot m (ds_romName ds) n1 else n1);
              ds1 = ds_ApplyRtc m e (ds\<lparr>ds_nds := Some n2\<rparr>)
          in ds1\<lparr>ds_nds := map_option (md_Start m) (ds_nds ds1)\<rparr>)"

definition ds_SaveState :: "('n, 'k) melon \<Rightarrow> 'n ds_core \<Rightarrow> bytes option" where
  "ds_SaveState m ds = (case ds_nds ds of None \<Rightarrow> None | Some n \<Rightarrow> md_Savestate m n)"

definition ds_LoadState :: "('n, 'k) melon \<Rightarrow> bytes \<Rightarrow> 'n ds_core \<Rightarrow> 'n ds_core \<times> bool" where
  "ds_LoadState m data ds =
     (case ds_nds ds of
        None \<Rightarrow> (ds, False)
      | Some n \<Rightarrow> (case md_LoadSavestate m data n of (n1, ok) \<Rightarrow> (ds\<lparr>ds_nds := Some n1\<rparr>, ok)))"

definition ds_CaptureState :: "('n, 'k) melon \<Rightarrow> nat \<Rightarrow> 'n ds_core \<Rightarrow> nat \<times> bytes option" where
  "ds_CaptureState m capacity ds =
     (case ds_nds ds of
        None \<Rightarrow> (0, None)
      | Some n \<Rightarrow> (case md_Capture m capacity n of None \<Rightarrow> (0, None) | Some b \<Rightarrow> (length b, Some b)))"

definition ds_MaxStateSize :: nat where "ds_MaxStateSize = 32 * 1024 * 1024"

definition ds_SetCheats :: "string list \<Rightarrow> 'n ds_core \<Rightarrow> 'n ds_core" where
  "ds_SetCheats codes ds =
     (case ds_nds ds of
        None \<Rightarrow> ds
      | Some _ \<Rightarrow> ds\<lparr>ds_cheats := List.map_filter ParseArCode codes\<rparr>)"

definition ds_SetAudioSkew :: "('n, 'k) melon \<Rightarrow> rat \<Rightarrow> 'n ds_core \<Rightarrow> 'n ds_core" where
  "ds_SetAudioSkew m skew ds = ds\<lparr>ds_nds := map_option (md_SetOutputSkew m skew) (ds_nds ds)\<rparr>"

definition ds_AudioFill :: "('n, 'k) melon \<Rightarrow> 'n ds_core \<Rightarrow> int" where
  "ds_AudioFill m ds = (case ds_nds ds of None \<Rightarrow> 0 | Some n \<Rightarrow> md_GetOutputSize m n)"

definition ds_SetSolarLevel :: "('n, 'k) melon \<Rightarrow> int \<Rightarrow> 'n ds_core \<Rightarrow> 'n ds_core" where
  "ds_SetSolarLevel m delta ds =
     (case ds_nds ds of
        None \<Rightarrow> ds
      | Some n \<Rightarrow> ds\<lparr>ds_nds := Some ((md_SolarInput m (delta > 0) ^^ nat \<bar>delta\<bar>) n)\<rparr>)"

section \<open>Lemmas\<close>

lemma sf_FlushNow_request:
  "sf_dirty sf \<Longrightarrow> snd (sf_FlushNow sf) = IoRun (sf_path sf) (sf_buffer sf)"
  "\<not> sf_dirty (fst (sf_FlushNow sf))" "sf_path (fst (sf_FlushNow sf)) = sf_path sf"
  by (simp_all add: sf_FlushNow_def sf_StartFlush_def)

lemma ds_FlushSaves_io:
  "\<exists>new. ds_io (ds_FlushSaves ds) = ds_io ds @ new"
  "ds_ndsSave ds = Some sf \<Longrightarrow> sf_dirty sf \<Longrightarrow> IoRun (sf_path sf) (sf_buffer sf) \<in> set (ds_io (ds_FlushSaves ds))"
  "ds_gbaSave ds = Some sf \<Longrightarrow> sf_dirty sf \<Longrightarrow> IoRun (sf_path sf) (sf_buffer sf) \<in> set (ds_io (ds_FlushSaves ds))"
  by (auto simp: ds_FlushSaves_def ds_flush_def Let_def sf_FlushNow_request case_prod_beta split: option.splits)

lemma ds_FlushSaves_frame [simp]:
  "ds_nds (ds_FlushSaves ds) = ds_nds ds" "ds_consoleType (ds_FlushSaves ds) = ds_consoleType ds"
  by (auto simp: ds_FlushSaves_def ds_flush_def Let_def case_prod_beta split: option.splits)

lemma ds_drop_saves_fields [simp]:
  "ds_ndsSave (ds_drop_saves ds) = None" "ds_gbaSave (ds_drop_saves ds) = None"
  "ds_io (ds_drop_saves ds) = ds_io (ds_FlushSaves ds)" "ds_nds (ds_drop_saves ds) = ds_nds ds"
  by (simp_all add: ds_drop_saves_def)

lemma ds_io_drop: "set (ds_io ds) \<subseteq> set (ds_io (ds_drop_saves ds))"
  using ds_FlushSaves_io(1) [of ds] by auto

lemma CreateConsole_frame:
  assumes "CreateConsole m e ds = Some (ds', r)"
  shows "ds_ndsSave ds' = ds_ndsSave ds \<and> ds_gbaSave ds' = ds_gbaSave ds \<and> ds_io ds' = ds_io ds \<and>
    (r = None \<longrightarrow> ds_nds ds' \<noteq> None)"
  using assms
  by (auto simp: CreateConsole_def Let_def split: sum.splits prod.splits option.splits if_splits)

lemma ds_ApplySettings_frame [simp]:
  "ds_ndsSave (ds_ApplySettings m e ds) = ds_ndsSave ds" "ds_gbaSave (ds_ApplySettings m e ds) = ds_gbaSave ds"
  "ds_io (ds_ApplySettings m e ds) = ds_io ds" "ds_nds (ds_ApplySettings m e ds) = None \<longleftrightarrow> ds_nds ds = None"
  by (auto simp: ds_ApplySettings_def Let_def split: option.splits)

lemma ds_ApplyRtc_frame [simp]:
  "ds_ndsSave (ds_ApplyRtc m e ds) = ds_ndsSave ds" "ds_gbaSave (ds_ApplyRtc m e ds) = ds_gbaSave ds"
  "ds_io (ds_ApplyRtc m e ds) = ds_io ds" "ds_nds (ds_ApplyRtc m e ds) = None \<longleftrightarrow> ds_nds ds = None"
  by (auto simp: ds_ApplyRtc_def Let_def split: option.splits)

lemma ds_ApplyRtc_ex [simp]: "(\<exists>z. ds_nds (ds_ApplyRtc m e ds) = Some z) \<longleftrightarrow> (\<exists>z. ds_nds ds = Some z)"
  by (auto simp: ds_ApplyRtc_def Let_def split: option.splits)

text \<open>Messages of a failed console creation are not empty.\<close>

lemma CreateConsole_message: "CreateConsole m e ds = Some (ds', Some err) \<Longrightarrow> err \<noteq> []"
  by (auto simp: CreateConsole_def Let_def ds_bios_def ds_firmware_def ds_dsi_def
      split: sum.splits prod.splits option.splits if_splits)

text \<open>How a load ends.\<close>

lemma ds_LoadGame_cases:
  assumes "ds_LoadGame m e env rom fileName key ds = Some (ds', d', msg)"
  obtains (no_cart) "msg \<noteq> []" "ds_ndsSave ds' = None" "ds_gbaSave ds' = None"
      "ds_io ds' = ds_io (ds_drop_saves (ds_FlushSaves ds))"
  | (failed) "msg \<noteq> []" "ds_ndsSave ds' = None" "ds_gbaSave ds' = None"
      "ds_io ds' = ds_io (ds_drop_saves (ds_FlushSaves ds))"
  | (loaded) "msg = []" "ds_nds ds' \<noteq> None" "ds_ndsSave ds' = Some (sf_new (ds_save_path e key))" "ds_gbaSave ds' = None"
      "ds_io ds' = ds_io (ds_drop_saves (ds_FlushSaves ds))"
proof -
  let ?ds1 = "(ds_drop_saves (ds_FlushSaves ds))\<lparr>ds_gameKey := key, ds_romName := fileName\<rparr>"
  obtain d where d: "BackupExisting env (ds_save_path e key) (de_filesDir e @ ''/backups/'' @ key)
      (to_int32 (GetInt (de_cfg e) ''saves.backupCount'' 10)) (de_fs e) = Some d"
    using assms by (auto simp: ds_LoadGame_def Let_def split: option.splits)
  let ?e1 = "e\<lparr>de_fs := d\<rparr>"
  let ?parse = "md_ParseROM m rom (ds_sram ?e1 (ds_save_path e key))
    (ds_fat ?e1 ''/sd/dldi.img'' ''dldi.enabled'' ''dldi.sizeMB'' ''dldi.readOnly'' True)"
  show ?thesis
  proof (cases ?parse)
    case None
    with assms d have "ds' = ?ds1" "msg = ''This file is not a valid DS game.''"
      by (simp_all add: ds_LoadGame_def Let_def)
    then show ?thesis by (intro no_cart) simp_all
  next
    case (Some cart)
    obtain ds2 r where c: "CreateConsole m ?e1 ?ds1 = Some (ds2, r)"
      using assms d Some by (cases "CreateConsole m ?e1 ?ds1") (auto simp: ds_LoadGame_def Let_def)
    from CreateConsole_frame [OF c] have fr: "ds_ndsSave ds2 = None" "ds_gbaSave ds2 = None"
      "ds_io ds2 = ds_io (ds_drop_saves (ds_FlushSaves ds))" "r = None \<longrightarrow> ds_nds ds2 \<noteq> None" by simp_all
    show ?thesis
    proof (cases r)
      case (Some err)
      with assms d \<open>?parse = Some cart\<close> c have "ds' = ds2" "msg = err"
        by (simp_all add: ds_LoadGame_def Let_def)
      with fr CreateConsole_message [of m ?e1 ?ds1 ds2 err] c Some show ?thesis by (intro failed) auto
    next
      case None
      with assms d \<open>?parse = Some cart\<close> c fr show ?thesis
        by (intro loaded) (auto simp: ds_LoadGame_def Let_def)
    qed
  qed
qed

section \<open>Properties\<close>


text \<open>A stand-in for melonDS: the console is the text of what was done to it.\<close>

definition toy_melon :: "(string, bytes) melon" where
  "toy_melon = \<lparr>md_ARM9Size = 1, md_ARM7Size = 1, md_DSiSize = 1, md_Firmware = (\<lambda>b. None),
     md_NewFirmware = (\<lambda>i. \<lparr>fw_Nickname = [], fw_NameLength = 0, fw_Message = [], fw_MessageLength = 0, fw_Settings = 0,
       fw_ExtendedLanguage = 0, fw_Unknown0 = 0, fw_SupportedLanguageMask = 0, fw_ConsoleType = 0xFF,
       fw_FavoriteColor = 0, fw_BirthdayMonth = 1, fw_BirthdayDay = 1, fw_wifi = []\<rparr>),
     md_NandOpens = (\<lambda>p. False), md_NandValid = (\<lambda>p b. False), md_NDS = (\<lambda>a. ''n''), md_DSi = (\<lambda>a. ''i''),
     md_ParseROM = (\<lambda>r s f. if r = [] then None else Some r), md_ParseGba = (\<lambda>r s. None),
     md_SetNDSCart = (\<lambda>k n. n @ ''c''), md_SetGBACart = (\<lambda>k n. n), md_Reset = (\<lambda>n. n @ ''r''),
     md_Start = (\<lambda>n. n @ ''s''), md_NeedsDirectBoot = (\<lambda>n. True), md_SetupDirectBoot = (\<lambda>f n. n @ ''d''),
     md_SetBatteryOkay = (\<lambda>n. n @ ''b''), md_SetDateTime = (\<lambda>t n. n @ ''t''), md_SetRenderer = (\<lambda>w n. n),
     md_SetRenderSettings = (\<lambda>r n. n), md_SetInterpolation = (\<lambda>i n. n), md_SetDegrade10Bit = (\<lambda>i n. n),
     md_SetLidClosed = (\<lambda>b n. n), md_SetKeyMask = (\<lambda>k n. n), md_TouchScreen = (\<lambda>x y n. n), md_ReleaseScreen = (\<lambda>n. n),
     md_NeedsShaderCompile = (\<lambda>n. False), md_ShaderCompileStep = (\<lambda>n. n), md_RunFrame = (\<lambda>n. n @ ''f''),
     md_GetFramebuffers = (\<lambda>n. NoFrame), md_Savestate = (\<lambda>n. None), md_Capture = (\<lambda>k n. None),
     md_LoadSavestate = (\<lambda>b n. (n, False)), md_SetOutputSkew = (\<lambda>s n. n), md_GetOutputSize = (\<lambda>n. 0),
     md_SolarInput = (\<lambda>b n. n), md_WifiSettings = (\<lambda>n. [])\<rparr>"

definition toy_env :: ds_env where
  "toy_env = \<lparr>de_cfg = config_new, de_filesDir = ''/f'', de_fs = backup_disk, de_read = full_read, de_vulkan = False,
     de_time = 100, de_localtime = (\<lambda>t. \<lparr>tm_year = 100, tm_mon = 0, tm_mday = 1, tm_hour = 0, tm_min = 0, tm_sec = t\<rparr>),
     de_mktime = tm_sec\<rparr>"

definition toy_ds :: "string ds_core" where
  "toy_ds = ds_new\<lparr>ds_ndsSave := Some \<lparr>sf_path = ''/s'', sf_buffer = [5], sf_dirty = True, sf_lastWrite = 0\<rparr>\<rparr>"


text \<open>
  C12: The console's clock runs on: a date and time written by the console at one moment is what it
  shows \<open>dt\<close> seconds later plus \<open>dt\<close> seconds, in the time zone's reckoning, once the clock is applied
  again; at once it shows exactly what was written.  Assumed of the C library is that
  \<^verbatim>\<open>localtime\<close> inverts \<^verbatim>\<open>mktime\<close> on the date written.
\<close>

theorem ds_clock_roundtrip:
  assumes "t = \<lparr>tm_year = year - 1900, tm_mon = month - 1, tm_mday = day, tm_hour = hour, tm_min = minute, tm_sec = second\<rparr>"
    and "de_localtime e (de_mktime e t) = t"
    and "cfg' = fst (ds_OnDateTimeWrite e year month day hour minute second)"
    and "ds_nds ds = Some n"
  shows "ds_nds (ds_ApplyRtc m (e\<lparr>de_cfg := cfg'\<rparr>) ds) =
      Some (md_SetDateTime m \<lparr>tm_year = year, tm_mon = month, tm_mday = day, tm_hour = hour, tm_min = minute, tm_sec = second\<rparr> n) \<and>
    ds_nds (ds_ApplyRtc m (e\<lparr>de_cfg := cfg', de_time := de_time e + dt\<rparr>) ds) =
      (let u = de_localtime e (de_mktime e t + dt)
       in Some (md_SetDateTime m (u\<lparr>tm_year := tm_year u + 1900, tm_mon := tm_mon u + 1\<rparr>) n))"
proof -
  have off: "GetInt cfg' ''rtc.offset'' 0 = de_mktime e t - de_time e"
    by (simp add: assms(1,3) ds_OnDateTimeWrite_def Let_def ints.get_same)
  have "de_time e + (de_mktime e t - de_time e) = de_mktime e t" by simp
  moreover have "de_time e + dt + (de_mktime e t - de_time e) = de_mktime e t + dt" by simp
  ultimately show ?thesis
    by (simp add: ds_ApplyRtc_def assms(4) off assms(2) Let_def) (simp add: assms(1) add.commute)
qed

theorem ds_clock_roundtrip_witness:
  "ds_nds (ds_ApplyRtc (toy_melon\<lparr>md_SetDateTime := (\<lambda>t n. if tm_sec t = 30 then ''ok'' else n)\<rparr>)
     (toy_env\<lparr>de_cfg := fst (ds_OnDateTimeWrite toy_env 2000 1 1 0 0 30)\<rparr>) (toy_ds\<lparr>ds_nds := Some ''n''\<rparr>)) = Some ''ok''"
  by (subst conjunct1 [OF ds_clock_roundtrip [OF refl _ refl, of toy_env 2000 1 1 0 0 30 _ "''n''"]])
    (simp_all add: toy_env_def)

text \<open>
  The console's renderer never works above what the player configured nor above the thermal
  cap, and always at least at scale 1; the software renderer works at scale 1.
\<close>

theorem ds_scale_bounds:
  "1 \<le> ds_RenderScale cfg ds \<and>
   ds_RenderScale cfg ds \<le> max 1 (to_int32 (GetInt cfg ''video.scale'' 4)) \<and>
   (0 < to_int32 (GetInt cfg ''video.scaleCap'' 0) \<longrightarrow>
      ds_RenderScale cfg ds \<le> to_int32 (GetInt cfg ''video.scaleCap'' 0)) \<and>
   (ds_activeRenderer ds = 0 \<longrightarrow> ds_RenderScale cfg ds = 1)"
  by (auto simp: ds_RenderScale_def Let_def min_def max_def)

theorem ds_scale_bounds_witness:
  "ds_RenderScale (SetInt ''video.scaleCap'' 3 config_new) (toy_ds\<lparr>ds_activeRenderer := 3\<rparr>) \<le> 3"
  using ds_scale_bounds [of "SetInt ''video.scaleCap'' 3 config_new" "toy_ds\<lparr>ds_activeRenderer := 3\<rparr>"]
  by (simp add: ints.get_same to_int32_id)

end
