(* ===== verification/SessionInput.thy ===== *)
theory SessionInput
  imports CoreTypes Files
begin

text \<open>
  The pure parts of \<^verbatim>\<open>EmuSession.cpp\<close>: file names and the choice of the system, reading a game from
  its descriptor, and the input that any thread packs into atomic words and the emulation thread
  unpacks once per frame.
\<close>

section \<open>Names\<close>

definition forbidden_chars :: "char list" where
  "forbidden_chars = [CHR ''/'', CHR 0x5C, CHR '':'', CHR ''*'', CHR ''?'', CHR 0x22, CHR ''<'', CHR ''>'', CHR ''|'']"

definition SanitizeName :: "string \<Rightarrow> string" where
  "SanitizeName s =
     (let out = map (\<lambda>c. if c \<in> set forbidden_chars then CHR ''_'' else c) s
      in if out = [] then ''game'' else out)"

text \<open>\<^verbatim>\<open>strcasecmp\<close> compares ASCII letters without case.\<close>

definition lower :: "char \<Rightarrow> char" where
  "lower c = (let n = (of_char c :: nat) in if 65 \<le> n \<and> n \<le> 90 then char_of (n + 32) else c)"

definition EndsWith :: "string \<Rightarrow> string \<Rightarrow> bool" where
  "EndsWith s suf =
     (let n = length suf in
      if length s < n then False else map lower (drop (length s - n) s) = map lower suf)"

definition three_ds_extensions :: "string list" where
  "three_ds_extensions = [''.3ds'', ''.cci'', ''.cxi'', ''.3dsx'', ''.app'', ''.elf'', ''.axf'']"

definition ThreeDsExtension :: "string \<Rightarrow> string" where
  "ThreeDsExtension fileName =
     (case filter (EndsWith fileName) three_ds_extensions of [] \<Rightarrow> [] | ext # _ \<Rightarrow> ext)"

text \<open>The system a file is for: the extension decides, the header only when it is unknown.\<close>

datatype system = SysDS | SysGBA | Sys3DS string

definition choose_system :: "(bytes \<Rightarrow> bool) \<Rightarrow> string \<Rightarrow> bytes \<Rightarrow> system" where
  "choose_system looksLikeGba fileName rom =
     (let ext = ThreeDsExtension fileName in
      if ext \<noteq> [] then Sys3DS ext
      else
        let dsExt = (EndsWith fileName ''.nds'' \<or> EndsWith fileName ''.dsi'' \<or>
                     EndsWith fileName ''.srl'' \<or> EndsWith fileName ''.ids'');
            gbaExt = (EndsWith fileName ''.gba'' \<or> EndsWith fileName ''.agb'')
        in if gbaExt \<or> (\<not> dsExt \<and> looksLikeGba rom) then SysGBA else SysDS)"

section \<open>Reading a descriptor\<close>

text \<open>
  The answers of \<^verbatim>\<open>pread\<close>: at most so many bytes, interrupted, or an error.  The loop gives \<open>None\<close>
  when the answers end first.
\<close>

datatype pread_answer = PRead nat | PInterrupted | PError

fun read_fd_loop :: "pread_answer list \<Rightarrow> bytes \<Rightarrow> nat \<Rightarrow> bytes \<Rightarrow> bytes option option" where
  "read_fd_loop as content len got =
     (if length got \<ge> len then Some (Some got)
      else case as of
             [] \<Rightarrow> None
           | PInterrupted # as' \<Rightarrow> read_fd_loop as' content len got
           | PError # as' \<Rightarrow> Some None
           | PRead k # as' \<Rightarrow>
               let new = segment content (length got) (min k (len - length got))
               in if new = [] then Some None else read_fd_loop as' content len (got @ new))"

declare read_fd_loop.simps [simp del]

text \<open>\<open>size\<close> is what \<^verbatim>\<open>fstat\<close> says, if it succeeds.\<close>

definition ReadFd :: "int option \<Rightarrow> pread_answer list \<Rightarrow> bytes \<Rightarrow> bytes option option" where
  "ReadFd st_size as content =
     (case st_size of
        None \<Rightarrow> Some None
      | Some sz \<Rightarrow>
          if sz \<le> 0 \<or> sz > 0x40000000 then Some None else read_fd_loop as content (nat sz) [])"

section \<open>Input\<close>

record input_state =
  keys :: u32
  touchState :: u32
  lidRequest :: int
  circlePad :: u32
  cStick :: u32
  pointerState :: u32

definition input_init :: input_state where
  "input_init = \<lparr>keys = 0, touchState = 0, lidRequest = - 1, circlePad = 0, cStick = 0, pointerState = 0\<rparr>"

definition clamp :: "'a::linorder \<Rightarrow> 'a \<Rightarrow> 'a \<Rightarrow> 'a" where
  "clamp v lo hi = (if v < lo then lo else if hi < v then hi else v)"

definition SetKeys :: "u32 \<Rightarrow> input_state \<Rightarrow> input_state" where
  "SetKeys pressedMask s = s\<lparr>keys := pressedMask AND 0x7FFF\<rparr>"

definition pack_axis :: "(rat \<Rightarrow> rat) \<Rightarrow> rat \<Rightarrow> u32" where
  "pack_axis fl v = ucast (word_of_int (c_trunc (fl (clamp v (- 1) 1 * 32767))) :: i16)"

definition SetAnalog :: "(rat \<Rightarrow> rat) \<Rightarrow> int \<Rightarrow> rat \<Rightarrow> rat \<Rightarrow> input_state \<Rightarrow> input_state" where
  "SetAnalog fl stick x y s =
     (let w = pack_axis fl x OR push_bit 16 (pack_axis fl y)
      in if stick = 0 then s\<lparr>circlePad := w\<rparr> else s\<lparr>cStick := w\<rparr>)"

definition pack_pointer :: "(rat \<Rightarrow> rat) \<Rightarrow> rat \<Rightarrow> u32" where
  "pack_pointer fl v = word_of_int (c_trunc (fl (clamp v 0 1 * 32767)))"

definition down_bit :: "bool \<Rightarrow> u32" where
  "down_bit down = (if down then 0x80000000 else 0)"

definition SetPointer :: "(rat \<Rightarrow> rat) \<Rightarrow> bool \<Rightarrow> rat \<Rightarrow> rat \<Rightarrow> input_state \<Rightarrow> input_state" where
  "SetPointer fl down x y s =
     s\<lparr>pointerState := down_bit down OR pack_pointer fl x OR push_bit 15 (pack_pointer fl y)\<rparr>"

definition SetTouch :: "bool \<Rightarrow> int \<Rightarrow> int \<Rightarrow> input_state \<Rightarrow> input_state" where
  "SetTouch down x y s =
     s\<lparr>touchState := down_bit down OR word_of_int (max 0 (min 255 x)) OR push_bit 8 (word_of_int (max 0 (min 191 y)))\<rparr>"

definition SetLidClosed :: "bool \<Rightarrow> input_state \<Rightarrow> input_state" where
  "SetLidClosed lidClosed s = s\<lparr>lidRequest := (if lidClosed then 1 else 0)\<rparr>"

definition unpack_axis :: "(rat \<Rightarrow> rat) \<Rightarrow> u32 \<Rightarrow> rat" where
  "unpack_axis fl v = fl (of_int (sint (ucast v :: i16)) / 32767)"

text \<open>The first half of \<open>RunOneFrame\<close>; reading the lid request takes it.\<close>

definition take_input :: "(rat \<Rightarrow> rat) \<Rightarrow> input_state \<Rightarrow> core_input \<times> input_state" where
  "take_input fl s =
     (let touch = touchState s; circle = circlePad s; cs = cStick s; pointer = pointerState s in
      (\<lparr>in_keys = keys s,
        in_touching = (touch AND 0x80000000 \<noteq> 0),
        in_touchX = uint (touch AND 0xFF),
        in_touchY = uint (drop_bit 8 touch AND 0xFF),
        in_lidRequest = lidRequest s,
        in_circleX = unpack_axis fl (circle AND 0xFFFF),
        in_circleY = unpack_axis fl (drop_bit 16 circle),
        in_cstickX = unpack_axis fl (cs AND 0xFFFF),
        in_cstickY = unpack_axis fl (drop_bit 16 cs),
        in_pointerDown = (pointer AND 0x80000000 \<noteq> 0),
        in_pointerX = fl (of_int (uint (pointer AND 0x7FFF)) / 32767),
        in_pointerY = fl (of_int (uint (drop_bit 15 pointer AND 0x7FFF)) / 32767)\<rparr>,
       s\<lparr>lidRequest := - 1\<rparr>))"

text \<open>Sensors; a \<open>motion\<close> array of six values, and a guitar grip's key bits.\<close>

definition SetMotion :: "rat list \<Rightarrow> rat list \<Rightarrow> rat list" where
  "SetMotion accel gyro = take 3 accel @ take 3 gyro"

definition MotionQuery :: "rat list \<Rightarrow> int \<Rightarrow> rat" where
  "MotionQuery motion type = (if type < 0 \<or> type > 5 then 0 else motion ! nat type)"

definition GuitarKeyDown :: "u32 \<Rightarrow> nat \<Rightarrow> bool" where
  "GuitarKeyDown guitarKeys key = bit guitarKeys key"

section \<open>Lemmas\<close>

subsection \<open>Packed words\<close>

lemma top_bit: "flag = 0 \<or> flag = push_bit 31 (1 :: 32 word) \<Longrightarrow> bit flag n \<Longrightarrow> n = 31"
proof (elim disjE)
  assume "flag = push_bit 31 1" "bit flag n"
  then have "bit (push_bit 31 (1 :: 32 word)) n" by (simp only:)
  then show "n = 31" unfolding bit_push_bit_iff bit_1_iff by simp
qed (simp add: bit_0_eq)
lemma pack_lo:
  fixes flag lo hi :: "32 word"
  assumes "take_bit k lo = lo" "k < 32" "flag = 0 \<or> flag = push_bit 31 1" "k \<le> 31"
  shows "(flag OR lo OR push_bit k hi) AND mask k = lo"
proof (rule bit_word_eqI)
  fix n assume n: "n < LENGTH(32)"
  have "bit lo n \<longleftrightarrow> n < k \<and> bit lo n" using bit_take_bit_iff [of k lo n] assms(1) by simp
  moreover have "bit flag n \<Longrightarrow> n = 31" using top_bit [OF assms(3)] .
  ultimately show "bit ((flag OR lo OR push_bit k hi) AND mask k) n = bit lo n"
    using n assms(4) by (auto simp: bit_simps)
qed

lemma pack_hi:
  fixes flag lo hi :: "32 word"
  assumes "take_bit k lo = lo" "take_bit j hi = hi" "k + j \<le> 31" "flag = 0 \<or> flag = push_bit 31 1"
  shows "drop_bit k (flag OR lo OR push_bit k hi) AND mask j = hi"
proof (rule bit_word_eqI)
  fix n assume n: "n < LENGTH(32)"
  have "bit lo (k + n) \<longleftrightarrow> k + n < k \<and> bit lo (k + n)" using bit_take_bit_iff [of k lo "k + n"] assms(1) by simp
  moreover have "bit hi n \<longleftrightarrow> n < j \<and> bit hi n" using bit_take_bit_iff [of j hi n] assms(2) by simp
  moreover have "bit flag (k + n) \<Longrightarrow> k + n = 31" using top_bit [OF assms(4)] .
  ultimately show "bit (drop_bit k (flag OR lo OR push_bit k hi) AND mask j) n = bit hi n"
    using n assms(3) by (auto simp: bit_simps add.commute)
qed

lemma pack_top:
  fixes flag lo hi :: "32 word"
  assumes "take_bit k lo = lo" "take_bit j hi = hi" "k + j \<le> 31" "flag = 0 \<or> flag = push_bit 31 1"
  shows "(flag OR lo OR push_bit k hi) AND push_bit 31 1 = flag"
proof (rule bit_word_eqI)
  fix n assume n: "n < LENGTH(32)"
  have "bit lo n \<longleftrightarrow> n < k \<and> bit lo n" using bit_take_bit_iff [of k lo n] assms(1) by simp
  moreover have "bit hi (n - k) \<longleftrightarrow> n - k < j \<and> bit hi (n - k)" using bit_take_bit_iff [of j hi "n - k"] assms(2) by simp
  moreover have "bit flag n \<Longrightarrow> n = 31" using top_bit [OF assms(4)] .
  ultimately show "bit ((flag OR lo OR push_bit k hi) AND push_bit 31 1) n = bit flag n"
    using n assms(3) unfolding bit_and_iff bit_or_iff bit_push_bit_iff [of 31 1] bit_1_iff by (auto simp: bit_push_bit_iff)
qed


lemma mask_literals:
  "(0xFF :: u32) = mask 8" "(0x7FFF :: u32) = mask 15" "(0xFFFF :: u32) = mask 16"
  "(0x80000000 :: u32) = push_bit 31 1"
  by (simp_all add: mask_eq_exp_minus_1)

lemma down_bit_cases: "down_bit d = 0 \<or> down_bit d = push_bit 31 1"
  by (simp add: down_bit_def)

lemma down_bit_set: "down_bit d \<noteq> 0 \<longleftrightarrow> d"
  by (simp add: down_bit_def)

lemma pack_hi16:
  fixes lo hi :: "32 word"
  assumes "take_bit 16 lo = lo"
  shows "drop_bit 16 (lo OR push_bit 16 hi) = take_bit 16 hi"
proof (rule bit_word_eqI)
  fix n assume n: "n < LENGTH(32)"
  have "bit lo (16 + n) \<longleftrightarrow> 16 + n < 16 \<and> bit lo (16 + n)" using bit_take_bit_iff [of 16 lo "16 + n"] assms by simp
  then show "bit (drop_bit 16 (lo OR push_bit 16 hi)) n = bit (take_bit 16 hi) n"
    using n by (auto simp: bit_simps)
qed

lemma take_bit_small:
  assumes "0 \<le> i" "i < 2 ^ k" "k < 32"
  shows "take_bit k (word_of_int i :: 32 word) = word_of_int i"
proof -
  have "take_bit k i = i" using assms(1,2) by (simp add: take_bit_int_eq_self)
  then have "bit i n \<longleftrightarrow> n < k \<and> bit i n" for n
    using bit_take_bit_iff [of k i n] by simp
  then show ?thesis by (intro bit_word_eqI) (auto simp: bit_simps)
qed

lemma uint_small: "0 \<le> i \<Longrightarrow> i < 2 ^ 32 \<Longrightarrow> uint (word_of_int i :: 32 word) = i"
  by (simp add: uint_word_of_int)

subsection \<open>Packing and unpacking\<close>

lemma clamp_range: "(lo :: rat) \<le> hi \<Longrightarrow> lo \<le> clamp v lo hi \<and> clamp v lo hi \<le> hi"
  by (auto simp: clamp_def)

definition axis_value :: "(rat \<Rightarrow> rat) \<Rightarrow> rat \<Rightarrow> int" where
  "axis_value fl v = c_trunc (fl (clamp v (- 1) 1 * 32767))"

definition pointer_value :: "(rat \<Rightarrow> rat) \<Rightarrow> rat \<Rightarrow> int" where
  "pointer_value fl v = c_trunc (fl (clamp v 0 1 * 32767))"

lemma axis_value_range: "rounds fl \<Longrightarrow> - 32767 \<le> axis_value fl v \<and> axis_value fl v \<le> 32767"
  unfolding axis_value_def
  using clamp_range [of "- 1" 1 v] rounds_between [of fl "- 32767" "clamp v (- 1) 1 * 32767" 32767]
  by (intro c_trunc_between) (auto simp: field_simps)

lemma pointer_value_range: "rounds fl \<Longrightarrow> 0 \<le> pointer_value fl v \<and> pointer_value fl v \<le> 32767"
  unfolding pointer_value_def
  using clamp_range [of 0 1 v] rounds_between [of fl 0 "clamp v 0 1 * 32767" 32767]
  by (intro c_trunc_between) (auto simp: field_simps)

lemma unpack_pack_axis:
  assumes "rounds fl"
  shows "unpack_axis fl ((pack_axis fl x OR push_bit 16 (pack_axis fl y)) AND 0xFFFF) = fl (of_int (axis_value fl x) / 32767)"
    "unpack_axis fl (drop_bit 16 (pack_axis fl x OR push_bit 16 (pack_axis fl y))) = fl (of_int (axis_value fl y) / 32767)"
proof -
  have small: "take_bit 16 (ucast (w :: i16) :: u32) = ucast w" for w
    by (rule bit_word_eqI) (auto simp: bit_simps dest: bit_imp_le_length)
  have same: "ucast (ucast (w :: i16) :: u32) = w" for w
    by (rule bit_word_eqI) (auto simp: bit_simps)
  have val: "sint (word_of_int (axis_value fl v) :: i16) = axis_value fl v" for v
    using axis_value_range [OF assms, of v] by (simp add: sint_sbintrunc' signed_take_bit_int_eq_self)
  have lo: "(pack_axis fl x OR push_bit 16 (pack_axis fl y)) AND 0xFFFF = pack_axis fl x"
  proof -
    have "(0 OR pack_axis fl x OR push_bit 16 (pack_axis fl y)) AND mask 16 = pack_axis fl x"
      by (rule pack_lo) (simp_all add: small pack_axis_def)
    then show ?thesis unfolding mask_literals(3) by (simp only: or.left_neutral)
  qed
  have hi: "drop_bit 16 (pack_axis fl x OR push_bit 16 (pack_axis fl y)) = pack_axis fl y"
    using pack_hi16 [of "pack_axis fl x" "pack_axis fl y"] small by (simp add: pack_axis_def)
  have "unpack_axis fl (pack_axis fl v) = fl (of_int (axis_value fl v) / 32767)" for v
    unfolding unpack_axis_def pack_axis_def same by (simp only: val flip: axis_value_def)
  then show "unpack_axis fl ((pack_axis fl x OR push_bit 16 (pack_axis fl y)) AND 0xFFFF) = fl (of_int (axis_value fl x) / 32767)"
    "unpack_axis fl (drop_bit 16 (pack_axis fl x OR push_bit 16 (pack_axis fl y))) = fl (of_int (axis_value fl y) / 32767)"
    unfolding lo hi by simp_all
qed

lemma unpack_fields:
  fixes d :: bool
  assumes "0 \<le> a" "a < 2 ^ k" "0 \<le> b" "b < 2 ^ j" "k + j \<le> 31"
  defines "w \<equiv> down_bit d OR word_of_int a OR push_bit k (word_of_int b)"
  shows "uint (w AND mask k) = a" "uint (drop_bit k w AND mask j) = b" "w AND push_bit 31 1 \<noteq> 0 \<longleftrightarrow> d"
proof -
  have t: "take_bit k (word_of_int a :: u32) = word_of_int a" "take_bit j (word_of_int b :: u32) = word_of_int b"
    using assms by (auto intro: take_bit_small)
  have "a < 2 ^ 32" "b < 2 ^ 32"
    using assms(2,4,5) power_increasing [of k 32 "2 :: int"] power_increasing [of j 32 "2 :: int"] by linarith+
  then have u: "uint (word_of_int a :: u32) = a" "uint (word_of_int b :: u32) = b"
    using assms(1,3) by (simp_all add: uint_small)
  show "uint (w AND mask k) = a"
    using pack_lo [OF t(1) _ down_bit_cases] assms(5) u(1) by (simp add: w_def)
  show "uint (drop_bit k w AND mask j) = b"
    using pack_hi [OF t assms(5) down_bit_cases] u(2) by (simp add: w_def)
  show "w AND push_bit 31 1 \<noteq> 0 \<longleftrightarrow> d"
    using pack_top [OF t assms(5) down_bit_cases] by (simp only: w_def down_bit_set)
qed

lemma unpack_touch:
  "0 \<le> a \<Longrightarrow> a < 256 \<Longrightarrow> 0 \<le> b \<Longrightarrow> b < 256 \<Longrightarrow>
     uint ((down_bit d OR word_of_int a OR push_bit 8 (word_of_int b)) AND 0xFF) = a \<and>
     uint (drop_bit 8 (down_bit d OR word_of_int a OR push_bit 8 (word_of_int b)) AND 0xFF) = b \<and>
     ((down_bit d OR word_of_int a OR push_bit 8 (word_of_int b)) AND 0x80000000 \<noteq> 0 \<longleftrightarrow> d)"
  unfolding mask_literals(1,4) by (intro conjI unpack_fields [of a 8 b 8 d]) simp_all

lemma unpack_pointer:
  "0 \<le> a \<Longrightarrow> a < 32768 \<Longrightarrow> 0 \<le> b \<Longrightarrow> b < 32768 \<Longrightarrow>
     uint ((down_bit d OR word_of_int a OR push_bit 15 (word_of_int b)) AND 0x7FFF) = a \<and>
     uint (drop_bit 15 (down_bit d OR word_of_int a OR push_bit 15 (word_of_int b)) AND 0x7FFF) = b \<and>
     ((down_bit d OR word_of_int a OR push_bit 15 (word_of_int b)) AND 0x80000000 \<noteq> 0 \<longleftrightarrow> d)"
  unfolding mask_literals(2,4) by (intro conjI unpack_fields [of a 15 b 15 d]) simp_all

lemma unit_fraction:
  "rounds fl \<Longrightarrow> - 32767 \<le> q \<Longrightarrow> q \<le> 32767 \<Longrightarrow> - 1 \<le> fl (of_int q / 32767) \<and> fl (of_int q / 32767) \<le> 1"
  using rounds_between [of fl "- 1" "of_int q / 32767" 1] by (simp add: field_simps)

text \<open>The loop of \<open>ReadFd\<close>: what it has is a prefix of the file, and it never asks beyond \<open>len\<close>.\<close>

lemma read_fd_loop_prefix:
  "read_fd_loop as content len got = Some (Some res) \<Longrightarrow> len \<le> length content \<Longrightarrow>
     got = take (length got) content \<Longrightarrow> length got \<le> len \<Longrightarrow> res = take len content"
proof (induction as content len got rule: read_fd_loop.induct)
  case (1 as content len got)
  show ?case
  proof (cases "length got \<ge> len")
    case True
    with 1(3,5,6) show ?thesis by (auto simp: read_fd_loop.simps [of as])
  next
    case False
    show ?thesis
    proof (cases as)
      case Nil
      with 1(3) False show ?thesis by (simp add: read_fd_loop.simps [of "[]"])
    next
      case (Cons a as')
      show ?thesis
      proof (cases a)
        case (PRead k)
        let ?new = "segment content (length got) (min k (len - length got))"
        have step: "?new \<noteq> []" "read_fd_loop as' content len (got @ ?new) = Some (Some res)"
          using 1(3) False Cons PRead by (auto simp: read_fd_loop.simps [of "_ # _"] Let_def split: if_splits)
        have len: "length ?new = min k (len - length got)" using 1(4) by (simp add: segment_def)
        have eq: "got @ ?new = take (length (got @ ?new)) content"
          using 1(5) len by (simp add: segment_def take_add)
        have le: "length (got @ ?new) \<le> len" using len False by simp
        show ?thesis by (rule 1(1) [OF False Cons PRead refl step(1,2) 1(4) eq le])
      next
        case PInterrupted
        with 1(3) False Cons have "read_fd_loop as' content len got = Some (Some res)"
          by (simp add: read_fd_loop.simps [of "_ # _"])
        with 1(2) [OF False Cons PInterrupted] 1(4-6) show ?thesis by blast
      next
        case PError
        with 1(3) False Cons show ?thesis by (simp add: read_fd_loop.simps [of "_ # _"])
      qed
    qed
  qed
qed

lemma SanitizeName_safe: "CHR ''/'' \<notin> set (SanitizeName s) \<and> SanitizeName s \<noteq> []"
  by (auto simp: SanitizeName_def forbidden_chars_def Let_def)

section \<open>Properties\<close>

text \<open>
  Input arrives as it was given: after the setters, in any order of the two kinds of stick, the
  next frame sees the fifteen keys, the touch clamped to the screen, the two sticks and the pointer
  within their range and each from its own value (quantised to 32767 steps, however the floating
  point operations round), and the lid request, which is taken once.
\<close>

theorem input_reaches_core:
  assumes "rounds fl"
    and "s = SetKeys k (SetTouch d x y (SetAnalog fl 0 cx cy (SetAnalog fl 1 sx sy
      (SetPointer fl pd px py (SetLidClosed lid s0)))))"
    and "i = fst (take_input fl s)"
  shows "in_keys i = k AND 0x7FFF \<and>
    in_touching i = d \<and> in_touchX i = max 0 (min 255 x) \<and> in_touchY i = max 0 (min 191 y) \<and>
    in_circleX i = fl (of_int (axis_value fl cx) / 32767) \<and> in_circleY i = fl (of_int (axis_value fl cy) / 32767) \<and>
    in_cstickX i = fl (of_int (axis_value fl sx) / 32767) \<and> in_cstickY i = fl (of_int (axis_value fl sy) / 32767) \<and>
    in_pointerDown i = pd \<and>
    in_pointerX i = fl (of_int (pointer_value fl px) / 32767) \<and>
    in_pointerY i = fl (of_int (pointer_value fl py) / 32767) \<and>
    (\<forall>v \<in> {in_circleX i, in_circleY i, in_cstickX i, in_cstickY i, in_pointerX i, in_pointerY i}. - 1 \<le> v \<and> v \<le> 1) \<and>
    in_lidRequest i = (if lid then 1 else 0) \<and> lidRequest (snd (take_input fl s)) = - 1"
proof -
  have t: "0 \<le> max 0 (min 255 x)" "max 0 (min 255 x) < 256" "0 \<le> max 0 (min 191 y)" "max 0 (min 191 y) < 256"
    by auto
  note touch = unpack_touch [OF t, of d]
  have p: "0 \<le> pointer_value fl px" "pointer_value fl px < 32768" "0 \<le> pointer_value fl py" "pointer_value fl py < 32768"
    using pointer_value_range [OF assms(1), of px] pointer_value_range [OF assms(1), of py] by auto
  note pointer = unpack_pointer [OF p, of pd]
  note axes = unpack_pack_axis [OF assms(1)]
  note range = unit_fraction [OF assms(1)] axis_value_range [OF assms(1)]
  have unit: "- 1 \<le> fl (of_int (axis_value fl v) / 32767) \<and> fl (of_int (axis_value fl v) / 32767) \<le> 1"
    "- 1 \<le> fl (of_int (pointer_value fl v) / 32767) \<and> fl (of_int (pointer_value fl v) / 32767) \<le> 1" for v
    using range pointer_value_range [OF assms(1), of v] by force+
  have st: "touchState s = down_bit d OR word_of_int (max 0 (min 255 x)) OR push_bit 8 (word_of_int (max 0 (min 191 y)))"
    "pointerState s = down_bit pd OR word_of_int (pointer_value fl px) OR push_bit 15 (word_of_int (pointer_value fl py))"
    "circlePad s = pack_axis fl cx OR push_bit 16 (pack_axis fl cy)"
    "cStick s = pack_axis fl sx OR push_bit 16 (pack_axis fl sy)" "keys s = k AND 0x7FFF"
    "lidRequest s = (if lid then 1 else 0)"
    by (simp_all add: assms(2) SetKeys_def SetTouch_def SetAnalog_def SetPointer_def SetLidClosed_def
        pack_pointer_def pointer_value_def Let_def)
  have i: "in_keys i = k AND 0x7FFF" "in_touching i = d" "in_touchX i = max 0 (min 255 x)" "in_touchY i = max 0 (min 191 y)"
    "in_circleX i = fl (of_int (axis_value fl cx) / 32767)" "in_circleY i = fl (of_int (axis_value fl cy) / 32767)"
    "in_cstickX i = fl (of_int (axis_value fl sx) / 32767)" "in_cstickY i = fl (of_int (axis_value fl sy) / 32767)"
    "in_pointerDown i = pd" "in_pointerX i = fl (of_int (pointer_value fl px) / 32767)"
    "in_pointerY i = fl (of_int (pointer_value fl py) / 32767)" "in_lidRequest i = (if lid then 1 else 0)"
    unfolding assms(3) take_input_def Let_def st
    by (simp_all only: fst_conv core_input.simps touch pointer axes)
  show ?thesis
    unfolding i using unit by (simp add: take_input_def Let_def)
qed

theorem input_reaches_core_witness:
  "in_touchX (fst (take_input (\<lambda>x. x) (SetKeys 3 (SetTouch True 300 (- 5) (SetAnalog (\<lambda>x. x) 0 1 0 (SetAnalog (\<lambda>x. x) 1 0 0
     (SetPointer (\<lambda>x. x) False 0 0 (SetLidClosed True input_init)))))))) = 255"
  using input_reaches_core [OF rounds_exact refl refl, of 3 True 300 "- 5" 1 0 0 0 False 0 0 True input_init] by simp

text \<open>
  C38: A game is read whole or not at all: when \<open>ReadFd\<close> succeeds on a file of the size \<^verbatim>\<open>fstat\<close>
  reported, the data are exactly the file's, however the kernel splits or interrupts the reads; and
  sizes of 0 or above one gigabyte are refused.
\<close>

theorem read_fd_exact:
  assumes "ReadFd (Some (int (length content))) as content = Some (Some res)"
  shows "res = content \<and> 0 < length content \<and> length content \<le> 0x40000000"
  using assms read_fd_loop_prefix [of as content "length content" "[]" res]
  by (auto simp: ReadFd_def split: if_splits)

theorem read_fd_exact_witness:
  "ReadFd (Some 3) [PRead 2, PInterrupted, PRead 7] [1, 2, 3] = Some (Some [1, 2, 3])"
proof -
  have "\<exists>r. ReadFd (Some (int (length [1, 2, 3 :: u8]))) [PRead 2, PInterrupted, PRead 7] [1, 2, 3] = Some (Some r)"
    by (simp add: ReadFd_def read_fd_loop.simps segment_def Let_def)
  then obtain r where r: "ReadFd (Some (int (length [1, 2, 3 :: u8]))) [PRead 2, PInterrupted, PRead 7] [1, 2, 3] = Some (Some r)"
    by blast
  from read_fd_exact [OF r] r show ?thesis by simp
qed

end
