(* ===== verification/SessionRewind.thy ===== *)
theory SessionRewind
  imports Rewind Config
begin

text \<open>
  Rewinding in \<^verbatim>\<open>EmuSession.cpp\<close>: the emulation thread captures a state every few frames, a worker
  thread packs it into the rewind buffer, and rewinding restores from it.  Each critical section of
  the rewind lock is one event; the worker's loop is two of them, since it releases the lock
  between taking a captured state and pushing it.
\<close>

section \<open>State and events\<close>

record rewind_sys =
  rw_buf :: rewind_buffer
  rw_capture :: bytes
  rw_captureLen :: nat
  rw_pending :: bool
  rw_work :: "(bytes \<times> nat) option"
  rw_workBuf :: bytes
  rw_counter :: int
  rw_since :: "bytes list"

text \<open>
  \<open>rw_since\<close> records, for the statements only, the states captured since the history was last
  cleared.
\<close>

definition rw_init :: rewind_sys where
  "rw_init = \<lparr>rw_buf = rb_new, rw_capture = [], rw_captureLen = 0, rw_pending = False, rw_work = None,
     rw_workBuf = [], rw_counter = 0, rw_since = []\<rparr>"

text \<open>\<open>resize\<close>: the buffer never shrinks.\<close>

definition grow :: "nat \<Rightarrow> bytes \<Rightarrow> bytes" where
  "grow n b = b @ replicate (n - length b) 0"

text \<open>
  \<open>locked\<close> is whether \<^verbatim>\<open>try_to_lock\<close> fails; \<open>cap\<close> is the core's largest state and \<open>state\<close> what its
  \<open>CaptureState\<close> writes, empty on failure.
\<close>

definition CaptureRewind :: "config_store \<Rightarrow> bool \<Rightarrow> nat \<Rightarrow> bytes \<Rightarrow> rewind_sys \<Rightarrow> rewind_sys" where
  "CaptureRewind cfg locked cap state s =
     (if \<not> GetBool cfg ''rewind.enabled'' True then s
      else if rw_counter s + 1 < to_int32 (GetInt cfg ''rewind.interval'' 6) then s\<lparr>rw_counter := rw_counter s + 1\<rparr>
      else
        let s1 = s\<lparr>rw_counter := 0\<rparr> in
        if locked \<or> rw_pending s1 then s1
        else
          let buf = grow cap (rw_capture s1) in
          if state = [] then s1\<lparr>rw_capture := buf\<rparr>
          else s1\<lparr>rw_capture := splice buf 0 state, rw_captureLen := length state,
                  rw_buf := rb_SetBudget (nat ((GetInt cfg ''rewind.budgetMB'' 1024 * 1024 * 1024) mod 2 ^ 64)) (rw_buf s1),
                  rw_pending := True, rw_since := rw_since s1 @ [state]\<rparr>)"

text \<open>The worker's first section: swap the buffers and take the request.\<close>

definition worker_take :: "rewind_sys \<Rightarrow> rewind_sys option" where
  "worker_take s =
     (if rw_pending s \<and> rw_work s = None
      then Some (s\<lparr>rw_work := Some (rw_capture s, rw_captureLen s), rw_capture := rw_workBuf s, rw_pending := False\<rparr>)
      else None)"

text \<open>Its second section: push.\<close>

definition worker_push :: "lz4 \<Rightarrow> rewind_sys \<Rightarrow> rewind_sys option" where
  "worker_push lz s =
     (case rw_work s of
        None \<Rightarrow> None
      | Some (work, len) \<Rightarrow> Some (s\<lparr>rw_buf := rb_Push lz work len (rw_buf s), rw_work := None, rw_workBuf := work\<rparr>))"

definition ClearRewind :: "rewind_sys \<Rightarrow> rewind_sys" where
  "ClearRewind s = s\<lparr>rw_buf := rb_Clear (rw_buf s), rw_since := []\<rparr>"

text \<open>\<open>DoRewindStep\<close>: the state to load, if any.\<close>

definition DoRewindStep :: "lz4 \<Rightarrow> rewind_sys \<Rightarrow> rewind_sys \<times> bytes option" where
  "DoRewindStep lz s =
     (if rw_pending s then (s, None)
      else case rb_Pop lz (rw_buf s) of (buf, r) \<Rightarrow> (s\<lparr>rw_buf := buf\<rparr>, r))"

datatype rewind_event = EvCapture config_store bool nat bytes | EvTake | EvPush | EvClear | EvStep

text \<open>One event: the new state and the states restored so far, or \<open>None\<close> when it cannot happen.\<close>

fun rw_event :: "lz4 \<Rightarrow> rewind_event \<Rightarrow> rewind_sys \<times> bytes list \<Rightarrow> (rewind_sys \<times> bytes list) option" where
  "rw_event lz (EvCapture cfg locked cap state) (s, outs) = Some (CaptureRewind cfg locked cap state s, outs)"
| "rw_event lz EvTake (s, outs) = map_option (\<lambda>s'. (s', outs)) (worker_take s)"
| "rw_event lz EvPush (s, outs) = map_option (\<lambda>s'. (s', outs)) (worker_push lz s)"
| "rw_event lz EvClear (s, outs) = Some (ClearRewind s, outs)"
| "rw_event lz EvStep (s, outs) =
     (case DoRewindStep lz s of (s', r) \<Rightarrow> Some (s', case r of None \<Rightarrow> outs | Some b \<Rightarrow> outs @ [b]))"

fun rw_run :: "lz4 \<Rightarrow> rewind_event list \<Rightarrow> rewind_sys \<times> bytes list \<Rightarrow> (rewind_sys \<times> bytes list) option" where
  "rw_run lz [] x = Some x"
| "rw_run lz (e # es) x = (case rw_event lz e x of None \<Rightarrow> None | Some y \<Rightarrow> rw_run lz es y)"

section \<open>Lemmas\<close>

text \<open>The state on its way from the capture to the buffer.\<close>

definition in_flight :: "rewind_sys \<Rightarrow> bytes list" where
  "in_flight s =
     (case rw_work s of None \<Rightarrow> [] | Some (w, n) \<Rightarrow> [take n w]) @
     (if rw_pending s then [take (rw_captureLen s) (rw_capture s)] else [])"

text \<open>The worker has nothing in hand.\<close>

definition worker_idle :: "rewind_sys \<Rightarrow> bool" where
  "worker_idle s \<longleftrightarrow> rw_work s = None \<and> \<not> rw_pending s"

text \<open>
  The invariant: the buffer is sound and every state it can restore, and every one on its way to it,
  was captured since the history was last cleared, in the same order.
\<close>

definition rw_inv :: "lz4 \<Rightarrow> rewind_sys \<Rightarrow> bool" where
  "rw_inv lz s \<longleftrightarrow> rb_inv lz (rw_buf s) \<and>
     subseq (rb_history lz (rw_buf s) @ in_flight s) (rw_since s) \<and>
     (\<forall>w n. rw_work s = Some (w, n) \<longrightarrow> n \<le> length w \<and> valid_state (take n w)) \<and>
     (rw_pending s \<longrightarrow> rw_captureLen s \<le> length (rw_capture s) \<and> valid_state (take (rw_captureLen s) (rw_capture s)))"

lemma rb_SetBudget_hist [simp]:
  "rb_inv lz (rb_SetBudget b rb) = rb_inv lz rb" "rb_history lz (rb_SetBudget b rb) = rb_history lz rb"
  by (simp_all add: rb_inv_def rb_history_def rb_SetBudget_def cong: option.case_cong)

lemma subseq_snoc: "subseq xs ys \<Longrightarrow> subseq (xs @ [x]) (ys @ [x])"
  by (intro list_emb_append_mono) simp_all

lemma subseq_front: "subseq (xs @ ys) zs \<Longrightarrow> subseq xs zs"
  by (rule subseq_order.order_trans [of _ "xs @ ys"]) (simp_all add: prefix_imp_subseq)

lemma grow_length: "n \<le> length (grow n b)"
  by (simp add: grow_def)

lemma subseq_drop_front: "subseq (drop k xs) xs"
  by (rule suffix_imp_subseq) (rule suffix_drop)

lemma subseq_butlast: "subseq (butlast xs) xs"
  by (rule prefix_imp_subseq) (rule prefixeq_butlast)

text \<open>The events of a disciplined run: clearing and stepping back only while the worker is idle.\<close>

fun calm :: "rewind_event \<Rightarrow> rewind_sys \<Rightarrow> bool" where
  "calm (EvCapture cfg locked cap state) s \<longleftrightarrow> state = [] \<or> (valid_state state \<and> length state \<le> cap)"
| "calm EvClear s \<longleftrightarrow> worker_idle s"
| "calm EvStep s \<longleftrightarrow> worker_idle s"
| "calm EvTake s \<longleftrightarrow> True"
| "calm EvPush s \<longleftrightarrow> True"

fun calm_run :: "lz4 \<Rightarrow> rewind_event list \<Rightarrow> rewind_sys \<times> bytes list \<Rightarrow> bool" where
  "calm_run lz [] x \<longleftrightarrow> True"
| "calm_run lz (e # es) x \<longleftrightarrow>
     calm e (fst x) \<and> (case rw_event lz e x of None \<Rightarrow> False | Some y \<Rightarrow> calm_run lz es y)"

lemma CaptureRewind_inv:
  assumes "rw_inv lz s" "state = [] \<or> (valid_state state \<and> length state \<le> cap)"
  shows "rw_inv lz (CaptureRewind cfg locked cap state s)"
proof -
  have plain: "rw_inv lz (s\<lparr>rw_counter := c\<rparr>)" for c
    using assms(1) by (cases "rw_pending s") (simp_all add: rw_inv_def in_flight_def)
  have grown: "rw_inv lz (s\<lparr>rw_counter := c, rw_capture := b\<rparr>)" if "\<not> rw_pending s" for c b
    using assms(1) that by (simp add: rw_inv_def in_flight_def)
  let ?buf = "splice (grow cap (rw_capture s)) 0 state"
  have cap: "rw_inv lz (s\<lparr>rw_counter := 0, rw_capture := ?buf, rw_captureLen := length state,
      rw_buf := rb_SetBudget b (rw_buf s), rw_pending := True, rw_since := rw_since s @ [state]\<rparr>)"
    if "\<not> rw_pending s" "state \<noteq> []" for b
  proof -
    have st: "valid_state state" "length state \<le> cap" using assms(2) that(2) by auto
    have "length state \<le> length (grow cap (rw_capture s))"
      using grow_length [of cap "rw_capture s"] st(2) by linarith
    then have buf: "take (length state) ?buf = state" "length state \<le> length ?buf"
      by (simp_all add: splice_def)
    have "subseq ((rb_history lz (rw_buf s) @ in_flight s) @ [state]) (rw_since s @ [state])"
      using assms(1) by (intro subseq_snoc) (simp add: rw_inv_def)
    with assms(1) that st buf show ?thesis by (simp add: rw_inv_def in_flight_def)
  qed
  show ?thesis
    using assms(1) plain grown cap by (auto simp: CaptureRewind_def Let_def)
qed

lemma rw_event_inv:
  assumes "rw_inv lz s" "calm e s" "rw_event lz e (s, outs) = Some (s', outs')"
  shows "rw_inv lz s'"
  using assms
proof (cases e)
  case EvTake
  with assms show ?thesis
    by (auto simp: worker_take_def rw_inv_def in_flight_def split: if_splits option.splits)
next
  case EvPush
  then obtain w n where w: "rw_work s = Some (w, n)"
    "s' = s\<lparr>rw_buf := rb_Push lz w n (rw_buf s), rw_work := None, rw_workBuf := w\<rparr>"
    using assms(3) by (auto simp: worker_push_def split: option.splits)
  have inv: "rb_inv lz (rw_buf s)" "n \<le> length w" "valid_state (take n w)"
    using assms(1) w(1) by (auto simp: rw_inv_def)
  have n: "0 < n" "n < 2 ^ 31" using inv(2,3) by (simp_all add: valid_state_def min_absorb2)
  have "rb_inv lz (rb_Push lz w n (rw_buf s)) \<and> (\<exists>k \<le> length (rb_history lz (rw_buf s)).
      rb_history lz (rb_Push lz w n (rw_buf s)) = drop k (rb_history lz (rw_buf s) @ [take n w]))"
    using rb_Push_correct [OF inv(1,2) n(2,1)] by blast
  then obtain k where k: "rb_inv lz (rb_Push lz w n (rw_buf s))"
    "rb_history lz (rb_Push lz w n (rw_buf s)) = drop k (rb_history lz (rw_buf s) @ [take n w])" by blast
  let ?p = "if rw_pending s then [take (rw_captureLen s) (rw_capture s)] else []"
  have "subseq (drop k (rb_history lz (rw_buf s) @ [take n w]) @ ?p) ((rb_history lz (rw_buf s) @ [take n w]) @ ?p)"
    by (intro list_emb_append_mono subseq_drop_front) simp
  moreover have "subseq ((rb_history lz (rw_buf s) @ [take n w]) @ ?p) (rw_since s)"
    using assms(1) w(1) by (simp add: rw_inv_def in_flight_def)
  ultimately have "subseq (drop k (rb_history lz (rw_buf s) @ [take n w]) @ ?p) (rw_since s)"
    by (rule subseq_order.order_trans)
  with assms(1) w k show ?thesis by (cases "rw_pending s") (simp_all add: rw_inv_def in_flight_def)
next
  case EvStep
  with assms(2) have idle: "rw_work s = None" "\<not> rw_pending s" by (simp_all add: worker_idle_def)
  obtain buf r where p: "rb_Pop lz (rw_buf s) = (buf, r)" by fastforce
  with EvStep assms(3) idle have s': "s' = s\<lparr>rw_buf := buf\<rparr>" by (simp add: DoRewindStep_def)
  have inv: "rb_inv lz (rw_buf s)" "subseq (rb_history lz (rw_buf s)) (rw_since s)"
    using assms(1) idle by (auto simp: rw_inv_def in_flight_def)
  have "rb_inv lz buf \<and> subseq (rb_history lz buf) (rw_since s)"
  proof (cases "length (rb_history lz (rw_buf s)) \<le> 1")
    case True
    with rb.pop_empty [OF inv(1)] p inv show ?thesis by simp
  next
    case False
    with rb.pop_step [OF inv(1)] p have "rb_inv lz buf" "rb_history lz buf = butlast (rb_history lz (rw_buf s))"
      by auto
    with subseq_butlast inv(2) show ?thesis by (metis subseq_order.order_trans)
  qed
  with idle s' show ?thesis by (simp add: rw_inv_def in_flight_def)
next
  case EvClear
  with assms show ?thesis
    by (auto simp: ClearRewind_def rw_inv_def in_flight_def worker_idle_def rb.clear_inv rb.clear_hist)
next
  case (EvCapture cfg locked cap state)
  with assms show ?thesis by (auto intro: CaptureRewind_inv)
qed

lemma rw_run_inv:
  "rw_inv lz (fst x) \<Longrightarrow> calm_run lz es x \<Longrightarrow> \<exists>y. rw_run lz es x = Some y \<and> rw_inv lz (fst y)"
proof (induction lz es x rule: rw_run.induct)
  case (2 lz e es x)
  obtain s outs where x: "x = (s, outs)" by fastforce
  with "2.prems"(2) obtain y where y: "rw_event lz e (s, outs) = Some y" "calm_run lz es y" "calm e s"
    by (auto split: option.splits)
  obtain s' outs' where "y = (s', outs')" by fastforce
  with rw_event_inv [OF _ y(3), of lz outs s' outs'] y "2.prems"(1) x have "rw_inv lz (fst y)" by simp
  with "2.IH" [OF y(1) [folded x]] y x show ?case by simp
qed simp

lemma rw_inv_init: "lz4_ok lz \<Longrightarrow> rw_inv lz rw_init"
  by (simp add: rw_inv_def rw_init_def rb_inv_new rb_history_new in_flight_def)

section \<open>Properties\<close>


text \<open>Capturing every frame.\<close>

definition every_frame :: config_store where
  "every_frame = SetInt ''rewind.interval'' 1 config_new"

definition cap :: "bytes \<Rightarrow> rewind_event" where
  "cap b = EvCapture every_frame False 2 b"


text \<open>
  C25: Clearing does not reach a state on its way to the worker: a state captured before
  \<open>ClearRewind\<close> (of another game, or before a save state was loaded) is pushed after it, and rewinding
  restores it.
\<close>

theorem rewind_stale_after_clear:
  "\<exists>s outs. rw_run lz_stored [cap [1, 2], EvClear, EvTake, EvPush, cap [3, 4], EvTake, EvPush, EvStep] (rw_init, [])
      = Some (s, outs) \<and> outs = [[1, 2]] \<and> rw_since s = [[3, 4]]"
proof -
  have "map_option (\<lambda>(s, outs). (outs, rw_since s))
      (rw_run lz_stored [cap [1, 2], EvClear, EvTake, EvPush, cap [3, 4], EvTake, EvPush, EvStep] (rw_init, []))
    = Some ([[1, 2]], [[3, 4]])" by code_simp
  then show ?thesis by auto
qed

text \<open>
  A step does not wait for the worker to finish: between the worker's two sections nothing is
  pending, so a step passes over the state being packed, which is pushed afterwards, and the next
  step restores the same state a second time.
\<close>

theorem rewind_step_overtakes_worker:
  "\<exists>s outs. rw_run lz_stored [cap [1, 2], EvTake, EvPush, cap [3, 4], EvTake, EvPush, cap [5, 6], EvTake,
        EvStep, EvPush, EvStep] (rw_init, [])
      = Some (s, outs) \<and> outs = [[1, 2], [1, 2]]"
proof -
  have "map_option snd (rw_run lz_stored [cap [1, 2], EvTake, EvPush, cap [3, 4], EvTake, EvPush, cap [5, 6], EvTake,
        EvStep, EvPush, EvStep] (rw_init, []))
    = Some [[1, 2], [1, 2]]" by code_simp
  then show ?thesis by auto
qed

end
