(* ===== verification/Session.thy ===== *)
theory Session
  imports SessionInput SessionRewind AudioOut SaveFiles
begin

text \<open>
  The emulation session, class \<^verbatim>\<open>EmuSession\<close> of \<^verbatim>\<open>EmuSession.cpp\<close>: it owns the running core, its audio
  source, the two presenters and their window, save states and the speed and thermal policies.  The
  core is used through the interface of \<^verbatim>\<open>EmuCore.h\<close>, a record of functions over an abstract core
  \<open>'c\<close>; the presenters are kept as far as the session decides about them.  Operations are the bodies
  that run on the emulation thread.
\<close>

section \<open>The core interface\<close>

text \<open>The calls a core makes to its host while a frame runs.\<close>

datatype host_call = HMicStart "nat option" bool | HMicStop | HRumble u32 | HRtcOffset int | HCoreStopped int

record 'c core_ops =
  co_SystemName :: "'c \<Rightarrow> string"
  co_NativeFps :: "'c \<Rightarrow> rat"
  co_ApplySettings :: "config_store \<Rightarrow> 'c \<Rightarrow> 'c"
  co_RunFrame :: "core_input \<Rightarrow> 'c \<Rightarrow> 'c \<times> host_call list"
  co_GetFrame :: "'c \<Rightarrow> frame_info option"
  co_Reset :: "'c \<Rightarrow> 'c"
  co_CheckFlush :: "'c \<Rightarrow> 'c"
  co_FlushSaves :: "'c \<Rightarrow> 'c"
  co_SaveState :: "'c \<Rightarrow> bytes option"
  co_LoadState :: "bytes \<Rightarrow> 'c \<Rightarrow> 'c \<times> bool"
  co_CaptureState :: "nat \<Rightarrow> 'c \<Rightarrow> bytes"
  co_MaxStateSize :: "'c \<Rightarrow> nat"
  co_SetCheats :: "string list \<Rightarrow> 'c \<Rightarrow> 'c"
  co_SetAudioSkew :: "rat \<Rightarrow> 'c \<Rightarrow> 'c"
  co_AudioFill :: "'c \<Rightarrow> int"
  co_RenderScale :: "config_store \<Rightarrow> 'c \<Rightarrow> int"
  co_UsesHardware :: "'c \<Rightarrow> bool"
  co_WantsVulkan :: "'c \<Rightarrow> bool"
  co_SetSolarLevel :: "int \<Rightarrow> 'c \<Rightarrow> 'c"
  co_SyncClock :: "'c \<Rightarrow> 'c"

section \<open>State\<close>

text \<open>
  A presenter as the session sees it: the window it holds, whether it can draw to it (\<open>HasWindow\<close>), the
  refresh rate it was asked for, layout and settings (numbered), and where its pixels come from: an
  upload, or a texture or image (numbered) of the core with a serial number.
\<close>

datatype shown = NoFrame | Uploaded | CoreTexture nat nat | CoreImage nat nat

record presenter =
  pr_window :: "nat option"
  pr_ready :: bool
  pr_rate :: rat
  pr_layout :: nat
  pr_settings :: nat
  pr_shown :: shown

definition presenter_new :: presenter where
  "presenter_new = \<lparr>pr_window = None, pr_ready = False, pr_rate = 60, pr_layout = 0, pr_settings = 0, pr_shown = NoFrame\<rparr>"

text \<open>
  \<open>ss_trace\<close> records, for the statements, the events whose order matters, oldest first, and
  \<open>ss_serial\<close> is the serial number of the core.  \<open>ss_calls\<close> are the calls up to the Kotlin layer.
\<close>

datatype session_event = EvAttachAudio | EvDetachAudio | EvShutdownCore

record 'c session =
  ss_core :: "'c option"
  ss_isDs :: bool
  ss_cfg :: config_store
  ss_running :: bool
  ss_paused :: bool
  ss_frameStep :: bool
  ss_generation :: u64
  ss_audio :: audio_engine
  ss_source :: bool
  ss_rewind :: rewind_sys
  ss_undoLoad :: bytes
  ss_audioSkew :: rat
  ss_fillAverage :: rat
  ss_input :: input_state
  ss_gl :: "presenter option"
  ss_vulkan :: bool
  ss_vk :: "presenter option"
  ss_vulkanFailed :: bool
  ss_vulkanOutput :: bool
  ss_window :: "nat option"
  ss_lastLayout :: nat
  ss_lastSettings :: nat
  ss_needRedraw :: bool
  ss_currentRefresh :: rat
  ss_frameAccumulator :: rat
  ss_lastThermalChange :: int
  ss_coolSince :: int
  ss_statFrames :: nat
  ss_statPresents :: nat
  ss_calls :: "host_call list"
  ss_serial :: nat
  ss_trace :: "session_event list"

text \<open>The state once \<open>ThreadMain\<close> has created the OpenGL ES presenter.\<close>

definition session_new :: "'c session" where
  "session_new = \<lparr>ss_core = None, ss_isDs = False, ss_cfg = config_new, ss_running = False, ss_paused = True,
     ss_frameStep = False, ss_generation = 0, ss_audio = audio_new, ss_source = False, ss_rewind = rw_init, ss_undoLoad = [],
     ss_audioSkew = 1, ss_fillAverage = - 1, ss_input = input_init, ss_gl = Some presenter_new,
     ss_vulkan = False, ss_vk = None, ss_vulkanFailed = False, ss_vulkanOutput = False, ss_window = None,
     ss_lastLayout = 0, ss_lastSettings = 0, ss_needRedraw = False, 
     ss_currentRefresh = 60, ss_frameAccumulator = 0, ss_lastThermalChange = 0, ss_coolSince = 0,
     ss_statFrames = 0, ss_statPresents = 0, ss_calls = [], ss_serial = 0, ss_trace = []\<rparr>"

text \<open>
  Facts about the device: whether the Vulkan context and the Vulkan presenter initialise, and for
  which windows a surface can be created.
\<close>

record device =
  dv_vulkan :: bool
  dv_vkPresenter :: bool
  dv_surface :: "nat \<Rightarrow> bool"

section \<open>Output\<close>

definition ss_log :: "session_event \<Rightarrow> 'c session \<Rightarrow> 'c session" where
  "ss_log e s = s\<lparr>ss_trace := ss_trace s @ [e]\<rparr>"

definition Vulkan :: "device \<Rightarrow> 'c session \<Rightarrow> 'c session \<times> bool" where
  "Vulkan dv s =
     (if ss_vulkan s then (s, True)
      else if dv_vulkan dv then (s\<lparr>ss_vulkan := True\<rparr>, True)
      else (s\<lparr>ss_vulkanFailed := True\<rparr>, False))"

definition VulkanOutput :: "device \<Rightarrow> 'c session \<Rightarrow> 'c session \<times> bool" where
  "VulkanOutput dv s =
     (if ss_vk s = None \<and> \<not> ss_vulkanFailed s
      then case Vulkan dv s of
             (s1, False) \<Rightarrow> (s1, False)
           | (s1, True) \<Rightarrow>
               if dv_vkPresenter dv
               then (s1\<lparr>ss_vk := Some (presenter_new\<lparr>pr_layout := ss_lastLayout s1, pr_settings := ss_lastSettings s1\<rparr>)\<rparr>, True)
               else (s1\<lparr>ss_vulkanFailed := True\<rparr>, False)
      else (s, ss_vk s \<noteq> None))"

text \<open>A call on the Vulkan presenter, if it exists.\<close>

definition on_vk :: "(presenter \<Rightarrow> presenter) \<Rightarrow> 'c session \<Rightarrow> 'c session" where
  "on_vk f s = s\<lparr>ss_vk := map_option f (ss_vk s)\<rparr>"

definition on_gl :: "(presenter \<Rightarrow> presenter) \<Rightarrow> 'c session \<Rightarrow> 'c session" where
  "on_gl f s = s\<lparr>ss_gl := map_option f (ss_gl s)\<rparr>"

text \<open>\<open>Output()\<close>: the presenter that has the window; a call on it is \<open>on_output\<close>.\<close>

definition OutputIsVulkan :: "'c session \<Rightarrow> bool" where
  "OutputIsVulkan s \<longleftrightarrow> ss_vulkanOutput s \<and> ss_vk s \<noteq> None"

definition Output :: "'c session \<Rightarrow> presenter option" where
  "Output s = (if OutputIsVulkan s then ss_vk s else ss_gl s)"

definition on_output :: "(presenter \<Rightarrow> presenter) \<Rightarrow> 'c session \<Rightarrow> 'c session" where
  "on_output f s =
     (if OutputIsVulkan s then on_vk f s else on_gl f s)"

definition ReleaseWindow :: "presenter \<Rightarrow> presenter" where
  "ReleaseWindow p = p\<lparr>pr_window := None, pr_ready := False\<rparr>"

definition SetWindow :: "device \<Rightarrow> nat \<Rightarrow> presenter \<Rightarrow> presenter" where
  "SetWindow dv w p =
     (if dv_surface dv w then p\<lparr>pr_window := Some w, pr_ready := True\<rparr> else ReleaseWindow p)"

definition HasWindow :: "'c session \<Rightarrow> bool" where
  "HasWindow s = (case Output s of None \<Rightarrow> False | Some p \<Rightarrow> pr_ready p)"

definition DropExternalImage :: "presenter \<Rightarrow> presenter" where
  "DropExternalImage p = (case pr_shown p of CoreImage i k \<Rightarrow> p\<lparr>pr_shown := NoFrame\<rparr> | _ \<Rightarrow> p)"

definition DropExternalFrames :: "presenter \<Rightarrow> presenter" where
  "DropExternalFrames p =
     (let p1 = DropExternalImage p in case pr_shown p1 of CoreTexture t k \<Rightarrow> p1\<lparr>pr_shown := NoFrame\<rparr> | _ \<Rightarrow> p1)"

definition SetTargetRefreshRate :: "rat \<Rightarrow> presenter \<Rightarrow> presenter" where
  "SetTargetRefreshRate hz p = p\<lparr>pr_rate := hz\<rparr>"

definition UpdateOutput :: "'c core_ops \<Rightarrow> device \<Rightarrow> 'c session \<Rightarrow> 'c session" where
  "UpdateOutput ops dv s =
     (let want0 = (case ss_core s of None \<Rightarrow> False | Some c \<Rightarrow> co_WantsVulkan ops c);
          (s1, have) = (if want0 then VulkanOutput dv s else (s, False));
          want = (want0 \<and> have)
      in if want = ss_vulkanOutput s1 then s1
         else
           let s2 = on_output ReleaseWindow s1;
               s3 = (if \<not> want then on_vk DropExternalFrames s2 else s2);
               s4 = s3\<lparr>ss_vulkanOutput := want\<rparr>
           in case ss_window s4 of
                None \<Rightarrow> s4
              | Some w \<Rightarrow>
                  (on_output (SetTargetRefreshRate (ss_currentRefresh s4)) (on_output (SetWindow dv w) s4))
                    \<lparr>ss_needRedraw := True\<rparr>)"

definition SetSurface :: "device \<Rightarrow> nat option \<Rightarrow> 'c session \<Rightarrow> 'c session" where
  "SetSurface dv newWindow s =
     (if ss_gl s = None then s
      else
        let s1 = (on_output ReleaseWindow s)\<lparr>ss_window := newWindow\<rparr>
        in case newWindow of
             None \<Rightarrow> s1
           | Some w \<Rightarrow> (on_output (SetWindow dv w) s1)\<lparr>ss_needRedraw := True\<rparr>)"

definition SetLayout :: "nat \<Rightarrow> 'c session \<Rightarrow> 'c session" where
  "SetLayout l s =
     s\<lparr>ss_lastLayout := l, ss_gl := map_option (\<lambda>p. p\<lparr>pr_layout := l\<rparr>) (ss_gl s),
       ss_vk := map_option (\<lambda>p. p\<lparr>pr_layout := l\<rparr>) (ss_vk s), ss_needRedraw := True\<rparr>"

definition SetPresentSettings :: "nat \<Rightarrow> 'c session \<Rightarrow> 'c session" where
  "SetPresentSettings l s =
     s\<lparr>ss_lastSettings := l, ss_gl := map_option (\<lambda>p. p\<lparr>pr_settings := l\<rparr>) (ss_gl s),
       ss_vk := map_option (\<lambda>p. p\<lparr>pr_settings := l\<rparr>) (ss_vk s), ss_needRedraw := True\<rparr>"

section \<open>Swapping the core\<close>

definition SwapCore :: "'c core_ops \<Rightarrow> device \<Rightarrow> 'c option \<Rightarrow> 'c session \<Rightarrow> 'c session" where
  "SwapCore ops dv next_core s =
     (let s1 = ss_log EvDetachAudio (s\<lparr>ss_running := False, ss_source := False\<rparr>);
          s2 = s1\<lparr>ss_audio := StopMic (ss_audio s1)\<rparr>;
          s3 = on_vk DropExternalFrames s2;
          s4 = (if ss_core s3 \<noteq> None then ss_log EvShutdownCore s3 else s3);
          s5 = s4\<lparr>ss_core := next_core, ss_serial := ss_serial s4 + 1,
                  ss_isDs := (case next_core of None \<Rightarrow> False | Some c \<Rightarrow> co_SystemName ops c = ''DS''),
                  ss_rewind := (ClearRewind (ss_rewind s4))\<lparr>rw_counter := 0\<rparr>,
                  ss_undoLoad := [], ss_audioSkew := 1, ss_fillAverage := - 1\<rparr>;
          s6 = (if next_core \<noteq> None then ss_log EvAttachAudio (s5\<lparr>ss_source := True\<rparr>) else s5)
      in UpdateOutput ops dv s6)"

text \<open>Every load and stop takes a number first, on the caller's thread.\<close>

definition next_generation :: "'c session \<Rightarrow> 'c session" where
  "next_generation s = s\<lparr>ss_generation := ss_generation s + 1\<rparr>"

text \<open>
  \<open>LoadGame\<close> for DS and GBA games: \<open>rom\<close> is what \<open>ReadFd\<close> read, \<open>load\<close> creates a core for a system and
  loads the game into it; the result is the message for the player.
\<close>

definition LoadGame ::
  "'c core_ops \<Rightarrow> device \<Rightarrow> (bytes \<Rightarrow> bool) \<Rightarrow> (system \<Rightarrow> bytes \<Rightarrow> 'c \<times> string) \<Rightarrow> bytes option \<Rightarrow> string \<Rightarrow>
   'c session \<Rightarrow> 'c session \<times> string" where
  "LoadGame ops dv looksLikeGba load rom fileName s =
     (case rom of
        None \<Rightarrow> (next_generation s, ''The game file could not be read.'')
      | Some data \<Rightarrow>
          let s1 = SwapCore ops dv None (next_generation s);
              s2 = s1\<lparr>ss_cfg := SetInt ''video.scaleCap'' 0 (ss_cfg s1)\<rparr>;
              (c, err) = load (choose_system looksLikeGba fileName data) data;
              s3 = (if err = [] then SwapCore ops dv (Some c) s2 else s2)
          in (s3\<lparr>ss_running := (err = [])\<rparr>, err))"

text \<open>
  The two commands of \<open>LoadThreeDs\<close>, which began by taking the number \<open>generation\<close>; between them the
  boot may run on another thread.  The first one prepares the core, which, once the engine's library
  is loaded, chooses its renderer and so may create the Vulkan presenter.
\<close>

definition choose_renderer :: "device \<Rightarrow> 'c session \<Rightarrow> 'c session \<times> bool" where
  "choose_renderer dv s =
     (if GetInt (ss_cfg s) ''3ds.renderer'' 1 \<noteq> 1 then (s, False)
      else case Vulkan dv s of (s1, False) \<Rightarrow> (s1, False) | (s1, True) \<Rightarrow> VulkanOutput dv s1)"

definition ThreeDs_prepare :: "'c core_ops \<Rightarrow> device \<Rightarrow> bool \<Rightarrow> 'c session \<Rightarrow> 'c session" where
  "ThreeDs_prepare ops dv library s =
     (let s1 = SwapCore ops dv None s;
          s2 = s1\<lparr>ss_cfg := SetInt ''video.scaleCap'' 0 (ss_cfg s1)\<rparr>
      in if library then fst (choose_renderer dv s2) else s2)"

definition ThreeDs_finish ::
  "'c core_ops \<Rightarrow> device \<Rightarrow> u64 \<Rightarrow> 'c \<Rightarrow> string \<Rightarrow> 'c session \<Rightarrow> 'c session \<times> string" where
  "ThreeDs_finish ops dv generation c err s =
     (if ss_generation s \<noteq> generation then (s, if err = [] then ''Loading was cancelled.'' else err)
      else
        let s1 = (if err = [] then SwapCore ops dv (Some c) s else s)
        in (s1\<lparr>ss_running := (err = [])\<rparr>, err))"

definition BootFirmware ::
  "'c core_ops \<Rightarrow> device \<Rightarrow> 'c \<times> string \<Rightarrow> 'c session \<Rightarrow> 'c session \<times> string" where
  "BootFirmware ops dv booted s =
     (case booted of (c, err) \<Rightarrow>
        let s1 = SwapCore ops dv None (next_generation s);
            s2 = (if err = [] then SwapCore ops dv (Some c) s1 else s1)
        in (s2\<lparr>ss_running := (err = [])\<rparr>, err))"

definition LoadGbaSlotRom ::
  "(bytes \<Rightarrow> 'c \<Rightarrow> 'c \<times> string) \<Rightarrow> bytes option \<Rightarrow> 'c session \<Rightarrow> 'c session \<times> string" where
  "LoadGbaSlotRom insert_cart rom s =
     (case ss_core s of
        None \<Rightarrow> (s, ''Start a DS game first.'')
      | Some c \<Rightarrow>
          if \<not> ss_isDs s then (s, ''Start a DS game first.'')
          else case rom of
                 None \<Rightarrow> (s, ''The GBA file could not be read.'')
               | Some data \<Rightarrow> (case insert_cart data c of (c1, err) \<Rightarrow> (s\<lparr>ss_core := Some c1\<rparr>, err)))"

definition SystemName :: "'c core_ops \<Rightarrow> 'c session \<Rightarrow> string" where
  "SystemName ops s = (case ss_core s of None \<Rightarrow> [] | Some c \<Rightarrow> co_SystemName ops c)"

section \<open>Run control\<close>

definition upd_core :: "('c \<Rightarrow> 'c) \<Rightarrow> 'c session \<Rightarrow> 'c session" where
  "upd_core f s = s\<lparr>ss_core := map_option f (ss_core s)\<rparr>"

definition Start :: "'c session \<Rightarrow> 'c session" where
  "Start s = s\<lparr>ss_paused := False\<rparr>"

definition FlushSaves :: "'c core_ops \<Rightarrow> 'c session \<Rightarrow> 'c session" where
  "FlushSaves ops s = upd_core (co_FlushSaves ops) s"

definition SetPaused :: "'c core_ops \<Rightarrow> bool \<Rightarrow> 'c session \<Rightarrow> 'c session" where
  "SetPaused ops p s = (let s1 = s\<lparr>ss_paused := p\<rparr> in if p then FlushSaves ops s1 else s1)"

definition Reset :: "'c core_ops \<Rightarrow> 'c session \<Rightarrow> 'c session" where
  "Reset ops s =
     (if ss_core s = None then s
      else let s1 = upd_core (co_Reset ops) s in s1\<lparr>ss_rewind := ClearRewind (ss_rewind s1)\<rparr>)"

definition Stop :: "'c core_ops \<Rightarrow> device \<Rightarrow> 'c session \<Rightarrow> 'c session" where
  "Stop ops dv s = SwapCore ops dv None (next_generation s)"

definition FrameAdvance :: "'c session \<Rightarrow> 'c session" where
  "FrameAdvance s = s\<lparr>ss_frameStep := True\<rparr>"

definition SetCheats :: "'c core_ops \<Rightarrow> string list \<Rightarrow> 'c session \<Rightarrow> 'c session" where
  "SetCheats ops codes s = upd_core (co_SetCheats ops codes) s"

definition SetSolarLevel :: "'c core_ops \<Rightarrow> int \<Rightarrow> 'c session \<Rightarrow> 'c session" where
  "SetSolarLevel ops delta s = upd_core (co_SetSolarLevel ops delta) s"

definition ApplyLiveSettings :: "'c core_ops \<Rightarrow> device \<Rightarrow> (rat \<Rightarrow> rat) \<Rightarrow> 'c session \<Rightarrow> 'c session" where
  "ApplyLiveSettings ops dv fl s =
     (let a = (ss_audio s)\<lparr>volume := fl (GetFloat (ss_cfg s) ''audio.volume'' 1)\<rparr>;
          s1 = s\<lparr>ss_audio := SetExtraLatencyMs (to_int32 (GetInt (ss_cfg s) ''audio.extraLatencyMs'' 0)) a\<rparr>;
          s2 = UpdateOutput ops dv (upd_core (co_ApplySettings ops (ss_cfg s1)) s1)
      in s2\<lparr>ss_needRedraw := True\<rparr>)"

section \<open>The core's host\<close>

definition OnMicStart :: "nat option \<Rightarrow> bool \<Rightarrow> 'c session \<Rightarrow> 'c session" where
  "OnMicStart opened started s =
     s\<lparr>ss_calls := ss_calls s @ [HMicStart opened started], ss_audio := StartMic opened started (ss_audio s)\<rparr>"

definition OnMicStop :: "'c session \<Rightarrow> 'c session" where
  "OnMicStop s = s\<lparr>ss_audio := StopMic (ss_audio s), ss_calls := ss_calls s @ [HMicStop]\<rparr>"

definition OnCoreStopped :: "int \<Rightarrow> 'c session \<Rightarrow> 'c session" where
  "OnCoreStopped reason s = s\<lparr>ss_running := False, ss_calls := ss_calls s @ [HCoreStopped reason]\<rparr>"

definition OnRumble :: "u32 \<Rightarrow> 'c session \<Rightarrow> 'c session" where
  "OnRumble ms s = s\<lparr>ss_calls := ss_calls s @ [HRumble ms]\<rparr>"

definition OnRtcOffset :: "int \<Rightarrow> 'c session \<Rightarrow> 'c session" where
  "OnRtcOffset offset s = s\<lparr>ss_calls := ss_calls s @ [HRtcOffset offset]\<rparr>"

fun on_host_call :: "host_call \<Rightarrow> 'c session \<Rightarrow> 'c session" where
  "on_host_call (HMicStart opened started) s = OnMicStart opened started s"
| "on_host_call HMicStop s = OnMicStop s"
| "on_host_call (HRumble ms) s = OnRumble ms s"
| "on_host_call (HRtcOffset offset) s = OnRtcOffset offset s"
| "on_host_call (HCoreStopped reason) s = OnCoreStopped reason s"

text \<open>The microphone as the game reads it: the recorded breath, the microphone, or silence.\<close>

fun blow_loop :: "i16 list \<Rightarrow> nat \<Rightarrow> nat \<Rightarrow> i16 list \<times> nat" where
  "blow_loop samples 0 pos = ([], pos)"
| "blow_loop samples (Suc n) pos =
     (case blow_loop samples n ((pos + 1) mod length samples) of (out, pos') \<Rightarrow> (samples ! pos # out, pos'))"

definition session_ReadMic :: "i16 list \<Rightarrow> bool \<Rightarrow> nat \<Rightarrow> nat \<Rightarrow> audio_engine \<Rightarrow> audio_engine \<times> nat \<times> i16 list" where
  "session_ReadMic mic_blow blowActive blowPos maxlen a =
     (if blowActive then case blow_loop mic_blow maxlen blowPos of (out, pos) \<Rightarrow> (a, pos, out)
      else if MicActive a then case ReadMic maxlen a of (a1, out) \<Rightarrow> (a1, 0, out)
      else (a, 0, replicate maxlen 0))"

end
