(* ===== verification/Perf.thy ===== *)
theory Perf
  imports Prelude
begin

text \<open>
  Performance hints and thermal readings, \<^verbatim>\<open>PerfManager.cpp\<close>: one hint session at a time, and at most
  one reading of the thermal service a second.  The answers of Android's services are arguments;
  sessions are numbered, and \<open>pf_open\<close> records the sessions the service has open for us.
\<close>

record perf =
  pf_thermal :: bool
  pf_session :: "nat option"
  pf_lastPoll :: int
  pf_headroom :: rat
  pf_status :: int
  pf_open :: "nat list"
  pf_reports :: "int list"

definition perf_new :: "bool \<Rightarrow> perf" where
  "perf_new acquired = \<lparr>pf_thermal = acquired, pf_session = None, pf_lastPoll = 0, pf_headroom = - 1, pf_status = 0,
     pf_open = [], pf_reports = []\<rparr>"

definition close_session :: "perf \<Rightarrow> perf" where
  "close_session p =
     (case pf_session p of
        None \<Rightarrow> p
      | Some h \<Rightarrow> p\<lparr>pf_session := None, pf_open := removeAll h (pf_open p)\<rparr>)"

text \<open>\<open>created\<close>: the session the service creates, if it has a manager and does.\<close>

definition StartSession :: "int list \<Rightarrow> bool \<Rightarrow> nat option \<Rightarrow> perf \<Rightarrow> perf" where
  "StartSession tids has_manager created p =
     (let p1 = close_session p in
      if \<not> has_manager \<or> tids = [] then p1
      else case created of
             None \<Rightarrow> p1
           | Some h \<Rightarrow> p1\<lparr>pf_session := Some h, pf_open := h # pf_open p1\<rparr>)"

definition ReportWork :: "int \<Rightarrow> perf \<Rightarrow> perf" where
  "ReportWork actualNs p =
     (if pf_session p \<noteq> None \<and> actualNs > 0 then p\<lparr>pf_reports := pf_reports p @ [actualNs]\<rparr> else p)"

text \<open>\<open>reading\<close>: the status and the headroom the service answers, \<open>None\<close> for a NaN.\<close>

definition PollThermal :: "int \<Rightarrow> int \<times> rat option \<Rightarrow> perf \<Rightarrow> perf" where
  "PollThermal now reading p =
     (if \<not> pf_thermal p then p
      else if now - pf_lastPoll p < 1000000000 then p
      else p\<lparr>pf_lastPoll := now, pf_status := fst reading,
             pf_headroom := (case snd reading of None \<Rightarrow> pf_headroom p | Some h \<Rightarrow> h)\<rparr>)"

definition perf_destroy :: "perf \<Rightarrow> perf" where
  "perf_destroy p = close_session p"

text \<open>No session is leaked: the service has open exactly the one we keep.\<close>

lemma StartSession_open:
  assumes "pf_open p = (case pf_session p of None \<Rightarrow> [] | Some h \<Rightarrow> [h])"
  shows "pf_open (StartSession tids has_manager created p) =
    (case pf_session (StartSession tids has_manager created p) of None \<Rightarrow> [] | Some h \<Rightarrow> [h])"
  using assms by (auto simp: StartSession_def close_session_def Let_def split: option.splits)

lemma PollThermal_keeps [simp]:
  "pf_session (PollThermal now r p) = pf_session p" "pf_open (PollThermal now r p) = pf_open p"
  by (simp_all add: PollThermal_def)

end
