(* ===== verification/SessionLoop.thy ===== *)
theory SessionLoop
  imports Session Perf
begin

text \<open>
  The emulation thread of \<^verbatim>\<open>EmuSession.cpp\<close>: one frame, its presentation, the audio-rate correction, the
  thermal policy and the iteration of \<open>ThreadMain\<close>'s loop.  Clock readings are arguments, in
  nanoseconds; \<open>fl\<close> rounds to double and \<open>flf\<close> to single precision.
\<close>

section \<open>One frame\<close>

text \<open>
  The core runs a frame and calls the host; \<open>locked\<close> is whether the rewind worker holds the lock.
\<close>

definition run_core :: "'c core_ops \<Rightarrow> core_input \<Rightarrow> 'c session \<Rightarrow> 'c session" where
  "run_core ops input s =
     (case ss_core s of
        None \<Rightarrow> s
      | Some c \<Rightarrow> (case co_RunFrame ops input c of (c1, calls) \<Rightarrow> fold on_host_call calls (s\<lparr>ss_core := Some c1\<rparr>)))"

definition capture :: "'c core_ops \<Rightarrow> bool \<Rightarrow> 'c session \<Rightarrow> 'c session" where
  "capture ops locked s =
     (case ss_core s of
        None \<Rightarrow> s
      | Some c \<Rightarrow>
          let capa = co_MaxStateSize ops c;
              room = length (grow capa (rw_capture (ss_rewind s)))
          in s\<lparr>ss_rewind := CaptureRewind (ss_cfg s) locked capa (co_CaptureState ops room c) (ss_rewind s)\<rparr>)"

definition RunOneFrame :: "'c core_ops \<Rightarrow> (rat \<Rightarrow> rat) \<Rightarrow> bool \<Rightarrow> 'c session \<Rightarrow> 'c session" where
  "RunOneFrame ops flf locked s =
     (case take_input flf (ss_input s) of
        (input, rest) \<Rightarrow>
          let s1 = upd_core (co_SyncClock ops) (s\<lparr>ss_input := rest\<rparr>);
              s2 = capture ops locked (upd_core (co_CheckFlush ops) (run_core ops input s1))
          in s2\<lparr>ss_statFrames := ss_statFrames s2 + 1\<rparr>)"

definition RewindStep :: "'c core_ops \<Rightarrow> lz4 \<Rightarrow> 'c session \<Rightarrow> 'c session" where
  "RewindStep ops lz s =
     (case DoRewindStep lz (ss_rewind s) of
        (rw, None) \<Rightarrow> s\<lparr>ss_rewind := rw\<rparr>
      | (rw, Some state) \<Rightarrow>
          run_core ops (input_new\<lparr>in_keys := keys (ss_input s)\<rparr>)
            (upd_core (\<lambda>c. fst (co_LoadState ops state c)) (s\<lparr>ss_rewind := rw\<rparr>)))"

section \<open>Presentation\<close>

text \<open>
  What \<open>Present\<close> does: it shows the frame, or it does not, or it loses what it draws to; then the OpenGL
  presenter lets go of its window, while the Vulkan one keeps it.
\<close>

datatype present_answer = Presented | NotShown | SurfaceLost

definition Present :: "present_answer \<Rightarrow> 'c session \<Rightarrow> 'c session" where
  "Present k s =
     (case k of
        Presented \<Rightarrow> s\<lparr>ss_statPresents := ss_statPresents s + 1\<rparr>
      | NotShown \<Rightarrow> s
      | SurfaceLost \<Rightarrow> if OutputIsVulkan s then on_vk (\<lambda>p. p\<lparr>pr_ready := False\<rparr>) s else on_gl ReleaseWindow s)"

definition show_frame :: "shown \<Rightarrow> presenter \<Rightarrow> presenter" where
  "show_frame f p = p\<lparr>pr_shown := f\<rparr>"

definition PresentFrame :: "'c core_ops \<Rightarrow> present_answer \<Rightarrow> 'c session \<Rightarrow> 'c session" where
  "PresentFrame ops k s =
     Present k
       (case (case ss_core s of None \<Rightarrow> None | Some c \<Rightarrow> co_GetFrame ops c) of
          Some frame \<Rightarrow>
            if fi_vkTexture frame \<noteq> 0 \<and> ss_vulkanOutput s
            then on_vk (show_frame (CoreTexture (fi_vkTexture frame) (ss_serial s))) s
            else if fi_vkImage frame \<noteq> 0 \<and> ss_vulkanOutput s
            then on_vk (show_frame (CoreImage (fi_vkImage frame) (ss_serial s))) s
            else if fi_hardware frame then on_gl (show_frame (CoreTexture (fi_texture frame) (ss_serial s))) s
            else on_output (show_frame Uploaded) s
        | None \<Rightarrow> if ss_vulkanOutput s then on_vk DropExternalImage s else s)"

section \<open>Audio rate\<close>

definition fill_average :: "(rat \<Rightarrow> rat) \<Rightarrow> int \<Rightarrow> rat \<Rightarrow> rat" where
  "fill_average fl fill avg =
     (if avg < 0 then of_int fill else fl (fl (avg * fl (19 / 20)) + fl (of_int fill * fl (1 / 20))))"

definition audio_correction :: "(rat \<Rightarrow> rat) \<Rightarrow> rat \<Rightarrow> rat" where
  "audio_correction fl avg =
     clamp (fl (fl (fl (avg - 1024) / 1024) * fl (1 / 200))) (- fl (1 / 200)) (fl (1 / 200))"

definition audio_skew :: "(rat \<Rightarrow> rat) \<Rightarrow> rat \<Rightarrow> rat \<Rightarrow> rat" where
  "audio_skew fl nominal correction = max (1 / 4) (fl (nominal * fl (1 + correction)))"

definition UpdateAudioSync :: "'c core_ops \<Rightarrow> (rat \<Rightarrow> rat) \<Rightarrow> rat \<Rightarrow> 'c session \<Rightarrow> 'c session" where
  "UpdateAudioSync ops fl emulatedFps s =
     (case ss_core s of
        None \<Rightarrow> s
      | Some c \<Rightarrow>
          let nominal = fl (emulatedFps / co_NativeFps ops c);
              avg = fill_average fl (co_AudioFill ops c) (ss_fillAverage s);
              s1 = s\<lparr>ss_fillAverage := avg\<rparr>;
              skew = audio_skew fl nominal (audio_correction fl avg)
          in if \<bar>fl (skew - ss_audioSkew s1)\<bar> > fl (1 / 100000)
             then upd_core (co_SetAudioSkew ops skew) (s1\<lparr>ss_audioSkew := skew\<rparr>)
             else s1)"

section \<open>Thermal policy\<close>

text \<open>The single-precision constants \<^verbatim>\<open>0.9f\<close> and \<^verbatim>\<open>0.7f\<close>.\<close>

definition kHot :: rat where "kHot = 7549747 / 8388608"

definition kCool :: rat where "kCool = 11744051 / 16777216"

definition thermal_hot :: "perf \<Rightarrow> bool" where
  "thermal_hot p \<longleftrightarrow> pf_headroom p \<ge> kHot \<or> pf_status p \<ge> 2"

definition thermal_cool :: "perf \<Rightarrow> bool" where
  "thermal_cool p \<longleftrightarrow> pf_headroom p \<ge> 0 \<and> pf_headroom p < kCool \<and> pf_status p \<le> 1"

text \<open>
  The decision, over the scale in use, the configured one and the cap in force: the new cap, if it
  changes, and the new start of the cool period.
\<close>

definition thermal_decide :: "perf \<Rightarrow> int \<Rightarrow> int \<Rightarrow> int \<Rightarrow> int \<Rightarrow> int \<Rightarrow> int option \<times> int" where
  "thermal_decide p now configured scale capNow coolSince =
     (if thermal_hot p \<and> scale > 2 then (Some (scale - 1), 0)
      else if thermal_cool p \<and> capNow > 0 then
        let since = (if coolSince = 0 then now else coolSince) in
        if now - since < 60000000000 then (None, since)
        else (Some (if scale + 1 \<ge> configured then 0 else scale + 1), 0)
      else (None, if \<not> thermal_cool p then 0 else coolSince))"

definition scaleCap :: "'c session \<Rightarrow> int" where
  "scaleCap s = GetInt (ss_cfg s) ''video.scaleCap'' 0"

definition set_cap :: "'c core_ops \<Rightarrow> int \<Rightarrow> 'c session \<Rightarrow> 'c session" where
  "set_cap ops newCap s =
     (let cfg = SetInt ''video.scaleCap'' newCap (ss_cfg s)
      in upd_core (co_ApplySettings ops cfg) (s\<lparr>ss_cfg := cfg\<rparr>))"

definition thermal_applies :: "'c core_ops \<Rightarrow> 'c session \<Rightarrow> bool" where
  "thermal_applies ops s \<longleftrightarrow>
     (case ss_core s of None \<Rightarrow> False | Some c \<Rightarrow> co_UsesHardware ops c) \<and> GetBool (ss_cfg s) ''perf.thermal'' True"

definition UpdateThermalScale :: "'c core_ops \<Rightarrow> perf \<Rightarrow> int \<Rightarrow> 'c session \<Rightarrow> 'c session" where
  "UpdateThermalScale ops p now s =
     (case ss_core s of
        None \<Rightarrow> if scaleCap s \<noteq> 0 then set_cap ops 0 s else s
      | Some c \<Rightarrow>
          if \<not> thermal_applies ops s then (if scaleCap s \<noteq> 0 then set_cap ops 0 s else s)
          else if now - ss_lastThermalChange s < 20000000000 then s
          else case thermal_decide p now (to_int32 (GetInt (ss_cfg s) ''video.scale'' 4))
                      (co_RenderScale ops (ss_cfg s) c) (to_int32 (scaleCap s)) (ss_coolSince s) of
                 (None, since) \<Rightarrow> s\<lparr>ss_coolSince := since\<rparr>
               | (Some newCap, since) \<Rightarrow> set_cap ops newCap (s\<lparr>ss_coolSince := since, ss_lastThermalChange := now\<rparr>))"

section \<open>The loop\<close>

datatype SpeedMode = Normal | FastForward | SlowMotion

definition kFrameNs :: int where "kFrameNs = 16666666"

definition session_active :: "'c session \<Rightarrow> bool" where
  "session_active s \<longleftrightarrow> ss_running s \<and> ss_core s \<noteq> None \<and> (\<not> ss_paused s \<or> ss_frameStep s)"

text \<open>The changes between active and idle; \<open>k\<close> are Oboe's answers.\<close>

definition active_changed :: "stream_answers \<Rightarrow> bool \<Rightarrow> 'c session \<Rightarrow> 'c session" where
  "active_changed k active s =
     (if active
      then on_output (SetTargetRefreshRate (ss_currentRefresh s)) (s\<lparr>ss_audio := fst (StartOutput k (ss_audio s))\<rparr>)
      else on_output (SetTargetRefreshRate 0)
             (if ss_paused s then s\<lparr>ss_audio := StopOutput (ss_audio s)\<rparr> else s))"

definition idle_step :: "'c core_ops \<Rightarrow> present_answer \<Rightarrow> 'c session \<Rightarrow> 'c session" where
  "idle_step ops presented s =
     (let s1 = s\<lparr>ss_needRedraw := False\<rparr> in
      if ss_needRedraw s \<and> HasWindow s
      then PresentFrame ops presented s1 else s1)"

definition want_refresh :: "SpeedMode \<Rightarrow> config_store \<Rightarrow> rat" where
  "want_refresh mode cfg = (if mode = FastForward \<and> GetBool cfg ''video.ff120'' True then 120 else 60)"

definition update_refresh :: "SpeedMode \<Rightarrow> 'c session \<Rightarrow> 'c session" where
  "update_refresh mode s =
     (let want = want_refresh mode (ss_cfg s) in
      if want \<noteq> ss_currentRefresh s
      then on_output (SetTargetRefreshRate want) (s\<lparr>ss_currentRefresh := want\<rparr>) else s)"

text \<open>
  Unlimited fast-forward: frames until the clock has used most of the refresh interval.  \<open>elapsed\<close>
  are the readings after each frame; \<open>None\<close> when they end before the loop does.
\<close>

fun unlimited_loop :: "('s \<Rightarrow> 's) \<Rightarrow> int \<Rightarrow> int list \<Rightarrow> 's \<Rightarrow> ('s \<times> nat) option" where
  "unlimited_loop frame budget [] s = None"
| "unlimited_loop frame budget (e # es) s =
     (if e < budget then map_option (\<lambda>(s', n). (s', n + 1)) (unlimited_loop frame budget es (frame s))
      else Some (frame s, 1))"

text \<open>The frames due; subtracting 1 from a double of at least 1 is exact.\<close>

function pace_loop :: "('s \<Rightarrow> 's) \<Rightarrow> rat \<Rightarrow> 's \<Rightarrow> rat \<times> 's \<times> nat" where
  "pace_loop frame acc s =
     (if acc \<ge> 1 then case pace_loop frame (acc - 1) (frame s) of (acc', s', n) \<Rightarrow> (acc', s', n + 1)
      else (acc, s, 0))"
  by pat_completeness auto
termination
  by (relation "measure (\<lambda>(_, acc, _). nat \<lfloor>acc\<rfloor>)") (auto simp: le_floor_iff)

declare pace_loop.simps [simp del]

definition speed_of :: "SpeedMode \<Rightarrow> config_store \<Rightarrow> rat" where
  "speed_of mode cfg =
     (if mode = FastForward then GetFloat cfg ''speed.fastForward'' 3 else GetFloat cfg ''speed.slowMotion'' (1 / 2))"

definition native_fps :: "'c core_ops \<Rightarrow> 'c session \<Rightarrow> rat" where
  "native_fps ops s = (case ss_core s of None \<Rightarrow> 0 | Some c \<Rightarrow> co_NativeFps ops c)"

definition frame_work ::
  "'c core_ops \<Rightarrow> (rat \<Rightarrow> rat) \<Rightarrow> lz4 \<Rightarrow> ('c session \<Rightarrow> 'c session) \<Rightarrow> bool \<Rightarrow> bool \<Rightarrow> SpeedMode \<Rightarrow> int list \<Rightarrow>
   'c session \<Rightarrow> ('c session \<times> nat) option" where
  "frame_work ops fl lz frame rewinding step mode elapsed s =
     (if rewinding then Some (RewindStep ops lz s, 0)
      else if step then Some (frame (s\<lparr>ss_frameStep := False\<rparr>), 1)
      else if mode = Normal then Some (frame s, 1)
      else
        let speed = speed_of mode (ss_cfg s) in
        if mode = FastForward \<and> speed \<le> 0
        then unlimited_loop frame (c_trunc (fl (fl (1000000000 / ss_currentRefresh s) * fl (17 / 20)))) elapsed s
        else
          let acc = fl (ss_frameAccumulator s + fl (fl (speed * native_fps ops s) / ss_currentRefresh s));
              (acc', s', n) = pace_loop frame acc s
          in Some (s'\<lparr>ss_frameAccumulator := acc'\<rparr>, n))"

definition emulated_fps :: "SpeedMode \<Rightarrow> nat \<Rightarrow> rat \<Rightarrow> rat" where
  "emulated_fps mode frames refresh = (if mode = Normal then refresh else of_nat frames * refresh)"

text \<open>What the world answers during one iteration.\<close>

record loop_answers =
  la_oboe :: stream_answers
  la_locked :: bool
  la_presented :: present_answer
  la_rewinding :: bool
  la_mode :: SpeedMode
  la_elapsed :: "int list"
  la_work :: int
  la_pollNow :: int
  la_reading :: "int \<times> rat option"
  la_now :: int

text \<open>What an active iteration does once its frames are run.\<close>

definition after_frames ::
  "'c core_ops \<Rightarrow> (rat \<Rightarrow> rat) \<Rightarrow> loop_answers \<Rightarrow> nat \<Rightarrow> 'c session \<Rightarrow> perf \<Rightarrow> 'c session \<times> perf" where
  "after_frames ops fl k frames s p =
     (let p1 = ReportWork (la_work k) p;
          muteFf = (la_mode k = FastForward \<and> GetBool (ss_cfg s) ''audio.muteFastForward'' True);
          s1 = s\<lparr>ss_audio := (ss_audio s)\<lparr>muted := (muteFf \<or> la_rewinding k)\<rparr>\<rparr>;
          s2 = (if HasWindow s1 then PresentFrame ops (la_presented k) s1 else s1);
          s3 = (if frames > 0
                then UpdateAudioSync ops fl (emulated_fps (la_mode k) frames (ss_currentRefresh s2)) s2 else s2);
          p2 = PollThermal (la_pollNow k) (la_reading k) p1
      in (UpdateThermalScale ops p2 (la_now k) s3, p2))"

text \<open>
  One iteration after \<open>RunCommands\<close>: the state, the performance manager and whether the loop was
  active; \<open>None\<close> when the clock readings of an unlimited fast-forward end too early.
\<close>

definition loop_iteration ::
  "'c core_ops \<Rightarrow> (rat \<Rightarrow> rat) \<Rightarrow> (rat \<Rightarrow> rat) \<Rightarrow> lz4 \<Rightarrow> loop_answers \<Rightarrow> bool \<Rightarrow> 'c session \<times> perf \<Rightarrow>
   ('c session \<times> perf \<times> bool) option" where
  "loop_iteration ops fl flf lz k wasActive sp =
     (case sp of (s, p) \<Rightarrow>
        let active = session_active s;
            s1 = (if active \<noteq> wasActive then active_changed (la_oboe k) active s else s)
        in if \<not> active then Some (idle_step ops (la_presented k) s1, p, active)
           else
             case frame_work ops fl lz (RunOneFrame ops flf (la_locked k)) (la_rewinding k) (ss_frameStep s)
                    (la_mode k) (la_elapsed k) (update_refresh (la_mode k) s1) of
               None \<Rightarrow> None
             | Some (s2, frames) \<Rightarrow> (case after_frames ops fl k frames s2 p of (s3, p3) \<Rightarrow> Some (s3, p3, active)))"

end
