(* ===== verification/SessionStates.thy ===== *)
theory SessionStates
  imports SessionLoop Gba DsCore
begin

text \<open>
  Save states and screenshots in \<^verbatim>\<open>EmuSession.cpp\<close>: writing a state keeps the file it replaces, loading
  one keeps the state it replaces, and each can be undone once.
\<close>

section \<open>Screenshots\<close>

text \<open>\<open>read\<close> is what the presenter reads back of a screen: its pixels and their size.\<close>

fun read_screens ::
  "(nat \<Rightarrow> (u32 list \<times> int \<times> int) option) \<Rightarrow> nat list \<Rightarrow> u32 list \<times> int \<times> int \<Rightarrow> (u32 list \<times> int \<times> int) option" where
  "read_screens read [] r = Some r"
| "read_screens read (i # js) (pixels, w, h) =
     (case read i of None \<Rightarrow> None | Some (one, w', h') \<Rightarrow> read_screens read js (pixels @ one, w', h'))"

definition Screenshot ::
  "'c core_ops \<Rightarrow> (nat \<Rightarrow> (u32 list \<times> int \<times> int) option) \<Rightarrow> 'c session \<Rightarrow> (u32 list \<times> int \<times> int \<times> nat) option" where
  "Screenshot ops read s =
     (if ss_gl s = None then None
      else case ss_core s of
             None \<Rightarrow> None
           | Some c \<Rightarrow>
               (case co_GetFrame ops c of
                  None \<Rightarrow> None
                | Some frame \<Rightarrow>
                    (case read_screens read [0..<fi_screenCount frame] ([], 0, 0) of
                       None \<Rightarrow> None
                     | Some (pixels, w, h) \<Rightarrow> Some (pixels, w, h, fi_screenCount frame))))"

text \<open>The thumbnail file: width, height of all screens, then the pixels, little endian.\<close>

definition le32 :: "u32 \<Rightarrow> bytes" where
  "le32 w = [ucast w, ucast (drop_bit 8 w), ucast (drop_bit 16 w), ucast (drop_bit 24 w)]"

definition thumbnail :: "u32 list \<times> int \<times> int \<times> nat \<Rightarrow> bytes" where
  "thumbnail t =
     (case t of (pixels, w, h, screens) \<Rightarrow>
        le32 (word_of_int w) @ le32 (word_of_int (h * int screens)) @ concat (List.map le32 pixels))"

section \<open>Writing and loading states\<close>

definition undo_path :: "string \<Rightarrow> string" where
  "undo_path path = path @ ''.undo''"

text \<open>
  \<open>renames\<close> is whether the kernel renames the file being replaced; \<open>k\<close> and \<open>kt\<close> are its answers to
  writing the state and the thumbnail.  \<open>None\<close>: a write that has not returned.
\<close>

definition SaveState ::
  "'c core_ops \<Rightarrow> bool \<Rightarrow> write_answers \<Rightarrow> write_answers \<Rightarrow> (nat \<Rightarrow> (u32 list \<times> int \<times> int) option) \<Rightarrow>
   string \<Rightarrow> string \<Rightarrow> 'c session \<Rightarrow> fs \<Rightarrow> (bool \<times> fs) option" where
  "SaveState ops renames k kt read path thumbPath s d =
     (case ss_core s of
        None \<Rightarrow> Some (False, d)
      | Some c \<Rightarrow>
          (case co_SaveState ops c of
             None \<Rightarrow> Some (False, d)
           | Some state \<Rightarrow>
               let d1 = (if FileExistsAt path d \<and> renames then fs_rename path (undo_path path) d else d) in
               (case WriteFileAtomic k path state d1 of
                  None \<Rightarrow> None
                | Some (ok, tr) \<Rightarrow>
                    if ok \<and> thumbPath \<noteq> []
                    then (case Screenshot ops read s of
                            None \<Rightarrow> Some (ok, hd tr)
                          | Some t \<Rightarrow>
                              (case WriteFileAtomic kt thumbPath (thumbnail t) (hd tr) of
                                 None \<Rightarrow> None
                               | Some (_, tr') \<Rightarrow> Some (ok, hd tr')))
                    else Some (ok, hd tr))))"

definition UndoSaveState :: "bool \<Rightarrow> string \<Rightarrow> fs \<Rightarrow> fs \<times> bool" where
  "UndoSaveState renames path d =
     (if \<not> FileExistsAt (undo_path path) d then (d, False)
      else if renames then (fs_rename (undo_path path) path d, True) else (d, False))"

definition LoadState :: "'c core_ops \<Rightarrow> read_answers \<Rightarrow> string \<Rightarrow> fs \<Rightarrow> 'c session \<Rightarrow> 'c session \<times> bool" where
  "LoadState ops k path d s =
     (case ss_core s of
        None \<Rightarrow> (s, False)
      | Some c \<Rightarrow>
          (case ReadWholeFile k path d [] of
             (ok, data) \<Rightarrow>
               if \<not> ok \<or> data = [] then (s, False)
               else case co_SaveState ops c of
                      None \<Rightarrow> (s, False)
                    | Some backup \<Rightarrow>
                        (case co_LoadState ops data c of
                           (c1, False) \<Rightarrow> (s\<lparr>ss_core := Some (fst (co_LoadState ops backup c1))\<rparr>, False)
                         | (c1, True) \<Rightarrow>
                             (s\<lparr>ss_core := Some c1, ss_undoLoad := backup,
                                ss_rewind := ClearRewind (ss_rewind s), ss_needRedraw := True\<rparr>, True))))"

definition UndoLoadState :: "'c core_ops \<Rightarrow> 'c session \<Rightarrow> 'c session \<times> bool" where
  "UndoLoadState ops s =
     (case ss_core s of
        None \<Rightarrow> (s, False)
      | Some c \<Rightarrow>
          if ss_undoLoad s = [] then (s, False)
          else (case co_LoadState ops (ss_undoLoad s) c of
                  (c1, ok) \<Rightarrow>
                    (s\<lparr>ss_core := Some c1, ss_undoLoad := [], ss_rewind := ClearRewind (ss_rewind s),
                       ss_needRedraw := True\<rparr>, ok)))"

section \<open>Lemmas\<close>

lemma undo_path_simps [simp]:
  "undo_path p \<noteq> p" "p \<noteq> undo_path p" "undo_path p \<noteq> tmp_path q" "tmp_path q \<noteq> undo_path p"
  by (auto simp: undo_path_def tmp_path_def dest: arg_cong [of _ _ last])

text \<open>A save that returns: the state was written, or not, and only then a thumbnail.\<close>

lemma SaveState_cases:
  assumes "SaveState ops renames k kt read path thumbPath s d = Some (ok, d')"
    and "ss_core s = Some c" "co_SaveState ops c = Some state"
  shows "\<exists>tr. WriteFileAtomic k path state
      (if FileExistsAt path d \<and> renames then fs_rename path (undo_path path) d else d) = Some (ok, tr) \<and>
    (\<forall>q. q \<noteq> thumbPath \<longrightarrow> q \<noteq> tmp_path thumbPath \<longrightarrow> fs_lookup d' q = fs_lookup (hd tr) q)"
  using assms
  by (auto simp: SaveState_def Let_def intro: WriteFileAtomic_result(5) split: option.splits if_splits)

lemma FileExistsAt_lookup: "fs_lookup d p = Some f \<Longrightarrow> FileExistsAt p d"
  by (simp add: FileExistsAt_def)

text \<open>The session over a core whose states keep the contract and are never empty.\<close>

locale session_core = save_states "co_SaveState ops" "co_LoadState ops" ready view
  for ops :: "'c core_ops" and ready :: "'c \<Rightarrow> 'g \<Rightarrow> bool" and view :: "'c \<Rightarrow> 'v" +
  assumes save_nonempty: "ready c g \<Longrightarrow> co_SaveState ops c = Some b \<Longrightarrow> b \<noteq> []"
begin

lemma load_state_fails:
  assumes "LoadState ops k path d s = (s', False)" "ss_core s = Some c" "ready c g"
  shows "\<exists>c'. ss_core s' = Some c' \<and> ready c' g \<and> view c' = view c"
proof (cases "s' = s")
  case False
  with assms(1,2) obtain data b c1 where b: "co_SaveState ops c = Some b" and "co_LoadState ops data c = (c1, False)"
    and s': "s' = s\<lparr>ss_core := Some (fst (co_LoadState ops b c1))\<rparr>"
    by (auto simp: LoadState_def split: prod.splits option.splits if_splits bool.splits)
  then have "ready c1 g" using load_ready [OF assms(3), of data] by simp
  with b s' load_saved [OF assms(3)] load_ready show ?thesis by auto
qed (use assms(2,3) in auto)

lemma load_state_works:
  assumes "LoadState ops k path d s = (s', True)" "ss_core s = Some c" "ready c g"
  shows "\<exists>c'. ss_core s' = Some c' \<and> ready c' g \<and> co_SaveState ops c = Some (ss_undoLoad s')"
proof -
  from assms(1,2) obtain data b c1 where "co_SaveState ops c = Some b" "co_LoadState ops data c = (c1, True)"
    and "s' = s\<lparr>ss_core := Some c1, ss_undoLoad := b, ss_rewind := ClearRewind (ss_rewind s), ss_needRedraw := True\<rparr>"
    by (auto simp: LoadState_def split: prod.splits option.splits if_splits bool.splits)
  then show ?thesis using load_ready [OF assms(3), of data] by simp
qed

text \<open>Undo brings back the state before the load, also after the loaded game has run on.\<close>

lemma undo_load_state:
  assumes "ss_core s = Some c" "ready c g" "ready c0 g" "co_SaveState ops c0 = Some (ss_undoLoad s)"
  shows "\<exists>c'. UndoLoadState ops s = (s\<lparr>ss_core := Some c', ss_undoLoad := [],
      ss_rewind := ClearRewind (ss_rewind s), ss_needRedraw := True\<rparr>, True) \<and> view c' = view c0"
  using assms save_nonempty [OF assms(3,4)] load_saved [OF assms(3,2,4)]
  by (auto simp: UndoLoadState_def split: prod.splits)

end

end
