(* ===== verification/SessionCores.thy ===== *)
theory SessionCores
  imports SessionStates
begin

text \<open>
  The DS and GBA cores as cores of the session: their operations at the interface of \<^verbatim>\<open>EmuCore.h\<close>.  The
  calls to the host during a frame come from the emulators and are an argument.
\<close>

definition ds_ops ::
  "('n, 'k) melon \<Rightarrow> (config_store \<Rightarrow> ds_env) \<Rightarrow> config_store \<Rightarrow> int \<Rightarrow> ('n ds_core \<Rightarrow> host_call list) \<Rightarrow>
   'n ds_core core_ops" where
  "ds_ops m env cfg now calls =
     \<lparr>co_SystemName = (\<lambda>_. ''DS''), co_NativeFps = (\<lambda>_. 598261 / 10000),
      co_ApplySettings = (\<lambda>cfg. ds_ApplySettings m (env cfg)),
      co_RunFrame = (\<lambda>i c. (ds_RunFrame m i c, calls c)),
      co_GetFrame = ds_GetFrame m cfg, co_Reset = ds_Reset m (env cfg),
      co_CheckFlush = ds_CheckFlush now, co_FlushSaves = ds_FlushSaves,
      co_SaveState = ds_SaveState m, co_LoadState = ds_LoadState m,
      co_CaptureState = (\<lambda>room c. case snd (ds_CaptureState m room c) of None \<Rightarrow> [] | Some b \<Rightarrow> b),
      co_MaxStateSize = (\<lambda>_. ds_MaxStateSize), co_SetCheats = ds_SetCheats,
      co_SetAudioSkew = ds_SetAudioSkew m, co_AudioFill = ds_AudioFill m,
      co_RenderScale = ds_RenderScale, co_UsesHardware = (\<lambda>c. ds_activeRenderer c \<noteq> 0),
      co_WantsVulkan = (\<lambda>c. ds_activeRenderer c = 3), co_SetSolarLevel = ds_SetSolarLevel m,
      co_SyncClock = ds_SyncClock m (env cfg)\<rparr>"

definition gba_ops ::
  "'m mgba \<Rightarrow> (rat \<Rightarrow> rat) \<Rightarrow> int \<Rightarrow> ('m gba_core \<Rightarrow> host_call list) \<Rightarrow> 'm gba_core core_ops" where
  "gba_ops m fl now calls =
     \<lparr>co_SystemName = (\<lambda>_. ''GBA''), co_NativeFps = (\<lambda>_. 597275 / 10000),
      co_ApplySettings = (\<lambda>_ c. c),
      co_RunFrame = (\<lambda>i c. (gba_RunFrame m now (in_keys i) c, calls c)),
      co_GetFrame = gba_GetFrame, co_Reset = gba_Reset m,
      co_CheckFlush = gba_CheckFlush now, co_FlushSaves = gba_FlushSaves m now,
      co_SaveState = gba_SaveState m, co_LoadState = gba_LoadState m,
      co_CaptureState = (\<lambda>room c. case snd (gba_CaptureState m room c) of None \<Rightarrow> [] | Some b \<Rightarrow> b),
      co_MaxStateSize = gba_MaxStateSize m, co_SetCheats = gba_SetCheats m,
      co_SetAudioSkew = gba_SetAudioSkew fl m, co_AudioFill = (\<lambda>c. int (gba_AudioFill c)),
      co_RenderScale = (\<lambda>_ _. 1), co_UsesHardware = (\<lambda>_. False), co_WantsVulkan = (\<lambda>_. False),
      co_SetSolarLevel = (\<lambda>_ c. c), co_SyncClock = (\<lambda>c. c)\<rparr>"

section \<open>Save states of the cores\<close>

text \<open>
  What the session relies on of the emulators' save states: a state is never empty, it loads into
  every machine with the same game, \<open>gm\<close>, where it restores what it saved, \<open>vw\<close>, and loading, even a
  failed one, does not change the game.
\<close>

definition melon_states :: "('n, 'k) melon \<Rightarrow> ('n \<Rightarrow> 'g) \<Rightarrow> ('n \<Rightarrow> 'v) \<Rightarrow> bool" where
  "melon_states m gm vw \<longleftrightarrow>
     (\<forall>n b. gm (fst (md_LoadSavestate m b n)) = gm n) \<and>
     (\<forall>n n' b. gm n = gm n' \<longrightarrow> md_Savestate m n = Some b \<longrightarrow>
        b \<noteq> [] \<and> snd (md_LoadSavestate m b n') \<and> vw (fst (md_LoadSavestate m b n')) = vw n)"

definition ds_ready :: "('n, 'k) melon \<Rightarrow> ('n \<Rightarrow> 'g) \<Rightarrow> ('n \<Rightarrow> 'v) \<Rightarrow> 'n ds_core \<Rightarrow> 'g \<Rightarrow> bool" where
  "ds_ready m gm vw ds g \<longleftrightarrow> melon_states m gm vw \<and> map_option gm (ds_nds ds) = Some g"

interpretation ds_states: session_core "ds_ops m env cfg now calls" "ds_ready m gm vw"
  "\<lambda>ds. map_option vw (ds_nds ds)"
  for m :: "('n, 'k) melon" and env cfg now calls gm vw
proof (unfold_locales, goal_cases)
  case (1 c g b)
  then show ?case by (auto simp: ds_ops_def ds_ready_def ds_LoadState_def melon_states_def split: prod.splits) (metis fst_conv)
next
  case (2 c g c' b)
  then show ?case
    by (auto simp: ds_ops_def ds_ready_def ds_LoadState_def ds_SaveState_def melon_states_def split: prod.splits)
      (metis fst_conv snd_conv)+
next
  case (3 c g b)
  then show ?case by (fastforce simp: ds_ops_def ds_ready_def ds_SaveState_def melon_states_def)
qed

text \<open>mGBA's full format is recognised by its length, which is not that of a raw state.\<close>

definition mgba_states :: "'m mgba \<Rightarrow> ('m \<Rightarrow> 'g) \<Rightarrow> ('m \<Rightarrow> 'v) \<Rightarrow> bool" where
  "mgba_states m gm vw \<longleftrightarrow>
     (\<forall>c b. gm (fst (mg_loadNamed m b c)) = gm c \<and> gm (fst (mg_loadState m b c)) = gm c) \<and>
     (\<forall>c c' b. gm c = gm c' \<longrightarrow> mg_saveNamed m c = Some b \<longrightarrow>
        b \<noteq> [] \<and> length b \<noteq> mg_stateSize m c' \<and> snd (mg_loadNamed m b c') \<and> vw (fst (mg_loadNamed m b c')) = vw c)"

definition gba_ready :: "'m mgba \<Rightarrow> ('m \<Rightarrow> 'g) \<Rightarrow> ('m \<Rightarrow> 'v) \<Rightarrow> 'm gba_core \<Rightarrow> 'g \<Rightarrow> bool" where
  "gba_ready m gm vw c g \<longleftrightarrow> mgba_states m gm vw \<and> map_option gm (gba_core c) = Some g"

interpretation gba_states: session_core "gba_ops m fl now calls" "gba_ready m gm vw"
  "\<lambda>c. map_option vw (gba_core c)"
  for m :: "'m mgba" and fl now calls gm vw
proof (unfold_locales, goal_cases)
  case (1 c g b)
  then show ?case
    by (auto simp: gba_ops_def gba_ready_def gba_LoadState_def mgba_states_def split: prod.splits) (metis fst_conv)+
next
  case (2 c g c' b)
  then show ?case
    by (auto simp: gba_ops_def gba_ready_def gba_LoadState_def gba_SaveState_def mgba_states_def split: prod.splits)
      (metis fst_conv snd_conv)+
next
  case (3 c g b)
  then show ?case by (fastforce simp: gba_ops_def gba_ready_def gba_SaveState_def mgba_states_def)
qed

section \<open>Properties\<close>

text \<open>
  C11: A save state replaces the file of its slot and keeps the old one; undoing the save brings the old
  file back, whether or not writing the new one succeeded.
\<close>

theorem save_state_undo:
  assumes "SaveState ops True k kt read path thumbPath s d = Some (ok, d')"
    and "ss_core s = Some c" "co_SaveState ops c = Some state"
    and "fs_lookup d path = Some old"
    and "thumbPath \<noteq> path" "tmp_path thumbPath \<noteq> path" "thumbPath \<noteq> undo_path path"
  shows "(ok \<longrightarrow> map_option f_data (fs_lookup d' path) = Some state) \<and>
    fs_lookup (fst (UndoSaveState True path d')) path = Some old \<and> snd (UndoSaveState True path d')"
proof -
  let ?d1 = "fs_rename path (undo_path path) d"
  obtain tr where w: "WriteFileAtomic k path state ?d1 = Some (ok, tr)"
    and other: "\<And>q. q \<noteq> thumbPath \<Longrightarrow> q \<noteq> tmp_path thumbPath \<Longrightarrow> fs_lookup d' q = fs_lookup (hd tr) q"
    using SaveState_cases [OF assms(1-3)] FileExistsAt_lookup [OF assms(4)] by auto
  have kept: "fs_lookup d' (undo_path path) = Some old"
    using other [of "undo_path path"] WriteFileAtomic_result(5) [OF w, of "undo_path path"] assms(4,7)
    by (simp add: fs_lookup_rename)
  moreover have "ok \<longrightarrow> map_option f_data (fs_lookup d' path) = Some state"
    using other [of path] WriteFileAtomic_result(3) [OF w] assms(5,6) by auto
  ultimately show ?thesis
    using FileExistsAt_lookup [OF kept] by (simp add: UndoSaveState_def fs_lookup_rename)
qed

text \<open>A session that runs the stand-in for mGBA, whose states are marked by a leading byte.\<close>

definition demo_mgba :: "bytes mgba" where
  "demo_mgba = toy_mgba\<lparr>mg_stateSize := (\<lambda>_. 0), mg_saveNamed := (\<lambda>c. Some (1 # c)),
     mg_loadNamed := (\<lambda>b c. case b of [] \<Rightarrow> (c, False) | x # xs \<Rightarrow> if x = 1 then (xs, True) else ([0], False))\<rparr>"

definition demo_session :: "bytes gba_core session" where
  "demo_session = session_new\<lparr>ss_core := Some toy_gba\<rparr>"

abbreviation demo_ops :: "bytes gba_core core_ops" where
  "demo_ops \<equiv> gba_ops demo_mgba (\<lambda>x. x) 5 (\<lambda>_. [])"

lemma demo_save: "co_SaveState demo_ops toy_gba = Some [1, 7, 8]"
  by (simp add: gba_ops_def gba_SaveState_def toy_gba_def demo_mgba_def gba_new_def)

lemma demo_core: "ss_core demo_session = Some toy_gba"
  by (simp add: demo_session_def)

theorem save_state_undo_witness:
  "\<exists>d'. SaveState demo_ops True one_write one_write (\<lambda>_. None) ''/a'' [] demo_session small_disk = Some (True, d') \<and>
    map_option f_data (fs_lookup d' ''/a'') = Some [1, 7, 8] \<and>
    fs_lookup (fst (UndoSaveState True ''/a'' d')) ''/a'' = Some \<lparr>f_data = [9], f_synced = True\<rparr>"
proof -
  have "FileExistsAt ''/a'' small_disk" by code_simp
  moreover have "map_option fst (WriteFileAtomic one_write ''/a'' [1, 7, 8] (fs_rename ''/a'' (undo_path ''/a'') small_disk))
      = Some True" by code_simp
  ultimately obtain d' where
    d: "SaveState demo_ops True one_write one_write (\<lambda>_. None) ''/a'' [] demo_session small_disk = Some (True, d')"
    by (auto simp: SaveState_def demo_core demo_save)
  have "fs_lookup small_disk ''/a'' = Some \<lparr>f_data = [9], f_synced = True\<rparr>" by code_simp
  from save_state_undo [OF d demo_core demo_save this] d show ?thesis
    by (simp add: undo_path_def tmp_path_def)
qed

text \<open>
  The slot is emptied before the new state is written: when the write fails, the player's old state is
  gone from its slot and only the undo file has it.
\<close>

lemma save_state_failure_empties_slot:
  "fs_lookup small_disk ''/a'' = Some \<lparr>f_data = [9], f_synced = True\<rparr> \<and>
   map_option (\<lambda>(ok, d). (ok, fs_lookup d ''/a'', fs_lookup d ''/a.undo''))
     (SaveState demo_ops True (one_write\<lparr>wa_open := False\<rparr>) one_write (\<lambda>_. None) ''/a'' [] demo_session small_disk)
   = Some (False, None, Some \<lparr>f_data = [9], f_synced = True\<rparr>)"
proof -
  have "FileExistsAt ''/a'' small_disk" "fs_lookup small_disk ''/a'' = Some \<lparr>f_data = [9], f_synced = True\<rparr>"
    by code_simp+
  then show ?thesis
    by (simp add: SaveState_def demo_core demo_save WriteFileAtomic_def undo_path_def fs_lookup_rename)
qed

text \<open>
  Loading a state into a DS game either fails and leaves the console as it was, even when melonDS
  had already begun to load it, or succeeds, and then undoing the load brings the console back.
\<close>

theorem ds_load_state_undo:
  assumes "melon_states m gm vw" "ss_core s = Some ds" "ds_nds ds = Some n"
    and "LoadState (ds_ops m env cfg now calls) k path d s = (s', ok)"
  shows "if ok then snd (UndoLoadState (ds_ops m env cfg now calls) s') \<and>
      (\<exists>ds'. ss_core (fst (UndoLoadState (ds_ops m env cfg now calls) s')) = Some ds' \<and>
        map_option vw (ds_nds ds') = Some (vw n))
    else \<exists>ds'. ss_core s' = Some ds' \<and> map_option vw (ds_nds ds') = Some (vw n)"
proof -
  have ready: "ds_ready m gm vw ds (gm n)" using assms(1,3) by (simp add: ds_ready_def)
  show ?thesis
  proof (cases ok)
    case True
    with assms(4) have l: "LoadState (ds_ops m env cfg now calls) k path d s = (s', True)" by simp
    obtain c' where
      c': "ss_core s' = Some c'" "ds_ready m gm vw c' (gm n)"
        "co_SaveState (ds_ops m env cfg now calls) ds = Some (ss_undoLoad s')"
      using ds_states.load_state_works [OF l assms(2) ready] by blast
    show ?thesis using ds_states.undo_load_state [OF c'(1,2) ready c'(3)] True assms(3) by auto
  next
    case False
    with assms(4) have l: "LoadState (ds_ops m env cfg now calls) k path d s = (s', False)" by simp
    show ?thesis using ds_states.load_state_fails [OF l assms(2) ready] assms(3) False by auto
  qed
qed

text \<open>
  The same holds of a GBA game.
\<close>

theorem gba_load_state_undo:
  assumes "mgba_states m gm vw" "ss_core s = Some c" "gba_core c = Some n"
    and "LoadState (gba_ops m fl now calls) k path d s = (s', ok)"
  shows "if ok then snd (UndoLoadState (gba_ops m fl now calls) s') \<and>
      (\<exists>c'. ss_core (fst (UndoLoadState (gba_ops m fl now calls) s')) = Some c' \<and>
        map_option vw (gba_core c') = Some (vw n))
    else \<exists>c'. ss_core s' = Some c' \<and> map_option vw (gba_core c') = Some (vw n)"
proof -
  have ready: "gba_ready m gm vw c (gm n)" using assms(1,3) by (simp add: gba_ready_def)
  show ?thesis
  proof (cases ok)
    case True
    with assms(4) have l: "LoadState (gba_ops m fl now calls) k path d s = (s', True)" by simp
    obtain c' where
      c': "ss_core s' = Some c'" "gba_ready m gm vw c' (gm n)"
        "co_SaveState (gba_ops m fl now calls) c = Some (ss_undoLoad s')"
      using gba_states.load_state_works [OF l assms(2) ready] by blast
    show ?thesis using gba_states.undo_load_state [OF c'(1,2) ready c'(3)] True assms(3) by auto
  next
    case False
    with assms(4) have l: "LoadState (gba_ops m fl now calls) k path d s = (s', False)" by simp
    show ?thesis using gba_states.load_state_fails [OF l assms(2) ready] assms(3) False by auto
  qed
qed

text \<open>The file of \<open>small_disk\<close> holds a state that mGBA rejects after it has changed the machine.\<close>

lemma demo_states: "mgba_states demo_mgba (\<lambda>_. ()) (\<lambda>c. c)"
  by (simp add: mgba_states_def demo_mgba_def)

theorem gba_load_state_undo_witness:
  "\<exists>c'. ss_core (fst (LoadState demo_ops full_read ''/a'' small_disk demo_session)) = Some c' \<and>
    gba_core c' = Some [7, 8] \<and> \<not> snd (LoadState demo_ops full_read ''/a'' small_disk demo_session)"
proof -
  obtain s' ok where l: "LoadState demo_ops full_read ''/a'' small_disk demo_session = (s', ok)" by fastforce
  have "ReadWholeFile full_read ''/a'' small_disk [] = (True, [9])" by code_simp
  then have "\<not> ok" using l
    by (auto simp: LoadState_def demo_core demo_save gba_ops_def gba_LoadState_def toy_gba_def gba_new_def
        demo_mgba_def toy_mgba_def gba_SaveState_def split: prod.splits)
  with gba_load_state_undo [OF demo_states demo_core _ l, of "[7, 8]"] l show ?thesis
    by (auto simp: toy_gba_def)
qed

text \<open>A stand-in for melonDS whose states count what was done to the console.\<close>

definition demo_melon :: "(string, bytes) melon" where
  "demo_melon = toy_melon\<lparr>md_Savestate := (\<lambda>n. Some (replicate (length n + 1) 0)),
     md_LoadSavestate := (\<lambda>b n. if hd b = 0 then (replicate (length b - 1) CHR ''x'', True) else ([], False))\<rparr>"

abbreviation demo_ds_ops :: "string ds_core core_ops" where
  "demo_ds_ops \<equiv> ds_ops demo_melon (\<lambda>_. toy_env) config_new 5 (\<lambda>_. [])"

definition demo_ds :: "string ds_core" where
  "demo_ds = ds_new\<lparr>ds_nds := Some ''abc''\<rparr>"

lemma demo_melon_states: "melon_states demo_melon (\<lambda>_. ()) length"
  by (simp add: melon_states_def demo_melon_def)

theorem ds_load_state_undo_witness:
  "\<exists>ds'. ss_core (fst (LoadState demo_ds_ops full_read ''/a'' small_disk (session_new\<lparr>ss_core := Some demo_ds\<rparr>))) = Some ds' \<and>
    map_option length (ds_nds ds') = Some 3"
proof -
  let ?s = "session_new\<lparr>ss_core := Some demo_ds\<rparr>"
  obtain s' ok where l: "LoadState demo_ds_ops full_read ''/a'' small_disk ?s = (s', ok)" by fastforce
  have "ReadWholeFile full_read ''/a'' small_disk [] = (True, [9])" by code_simp
  then have "\<not> ok" using l
    by (auto simp: LoadState_def ds_ops_def ds_LoadState_def demo_ds_def demo_melon_def ds_SaveState_def
        split: prod.splits)
  with ds_load_state_undo [OF demo_melon_states _ _ l, of demo_ds "''abc''"] l show ?thesis
    by (auto simp: demo_ds_def)
qed

end
