(* ===== verification/SessionPolicy.thy ===== *)
theory SessionPolicy
  imports SessionCores
begin

text \<open>
  The policies of the emulation thread: the frames per display refresh, the audio-rate correction and
  the thermal scale.
\<close>

section \<open>Lemmas\<close>

lemma pace_loop_spec:
  "pace_loop frame acc s = (acc', s', n) \<Longrightarrow>
     acc' = acc - of_nat n \<and> acc' < 1 \<and> (0 \<le> acc \<longrightarrow> 0 \<le> acc') \<and> s' = (frame ^^ n) s"
proof (induction frame acc s arbitrary: acc' s' n rule: pace_loop.induct)
  case (1 frame acc s)
  show ?case
  proof (cases "acc \<ge> 1")
    case True
    obtain a t k where r: "pace_loop frame (acc - 1) (frame s) = (a, t, k)" using prod_cases3 by blast
    with "1.IH" [OF True r] "1.prems" True show ?thesis
      by (auto simp: pace_loop.simps [of frame acc s] funpow_swap1)
  next
    case False
    with "1.prems" show ?thesis by (auto simp: pace_loop.simps [of frame acc s])
  qed
qed

lemma on_host_call_frame [simp]:
  "ss_cfg (on_host_call h s) = ss_cfg s" "ss_core (on_host_call h s) = ss_core s"
  "ss_frameAccumulator (on_host_call h s) = ss_frameAccumulator s"
  "ss_currentRefresh (on_host_call h s) = ss_currentRefresh s"
  by (cases h; simp add: OnMicStart_def OnMicStop_def OnRumble_def OnRtcOffset_def OnCoreStopped_def)+

lemma fold_host_call_frame [simp]:
  "ss_cfg (fold on_host_call hs s) = ss_cfg s" "ss_core (fold on_host_call hs s) = ss_core s"
  "ss_frameAccumulator (fold on_host_call hs s) = ss_frameAccumulator s"
  "ss_currentRefresh (fold on_host_call hs s) = ss_currentRefresh s"
  by (induction hs arbitrary: s) simp_all

lemma RunOneFrame_frame [simp]:
  "ss_cfg (RunOneFrame ops flf locked s) = ss_cfg s"
  "ss_core (RunOneFrame ops flf locked s) = None \<longleftrightarrow> ss_core s = None"
  "ss_frameAccumulator (RunOneFrame ops flf locked s) = ss_frameAccumulator s"
  "ss_currentRefresh (RunOneFrame ops flf locked s) = ss_currentRefresh s"
  by (auto simp: RunOneFrame_def Let_def capture_def upd_core_def run_core_def split: prod.splits option.splits)

lemma RunOneFrame_pow [simp]:
  "ss_cfg ((RunOneFrame ops flf locked ^^ n) s) = ss_cfg s"
  "ss_core ((RunOneFrame ops flf locked ^^ n) s) = None \<longleftrightarrow> ss_core s = None"
  "ss_currentRefresh ((RunOneFrame ops flf locked ^^ n) s) = ss_currentRefresh s"
  by (induction n) simp_all

lemma correction_sign:
  assumes "rounds fl"
  shows "1024 \<le> avg \<longrightarrow> 0 \<le> audio_correction fl avg" "avg \<le> 1024 \<longrightarrow> audio_correction fl avg \<le> 0"
proof -
  have zero: "fl 0 = 0" using rounds_int [OF assms, of 0] by simp
  have pos: "0 \<le> fl x" if "0 \<le> x" for x using rounds_mono [OF assms that] zero by simp
  have neg: "fl x \<le> 0" if "x \<le> 0" for x using rounds_mono [OF assms that] zero by simp
  have step: "0 \<le> fl (1 / 200)" by (rule pos) simp
  have "0 \<le> fl (fl (fl (avg - 1024) / 1024) * fl (1 / 200))" if "1024 \<le> avg"
    using that step by (auto intro!: pos mult_nonneg_nonneg)
  with step show "1024 \<le> avg \<longrightarrow> 0 \<le> audio_correction fl avg"
    by (auto simp: audio_correction_def clamp_def)
  have "fl (fl (fl (avg - 1024) / 1024) * fl (1 / 200)) \<le> 0" if "avg \<le> 1024"
    using that step by (auto intro!: neg mult_nonpos_nonneg divide_nonpos_pos)
  with step show "avg \<le> 1024 \<longrightarrow> audio_correction fl avg \<le> 0"
    by (auto simp: audio_correction_def clamp_def)
qed

section \<open>Speed\<close>

text \<open>
  Several display refreshes at one speed: the session and the frames run.
\<close>

fun paced_run ::
  "'c core_ops \<Rightarrow> (rat \<Rightarrow> rat) \<Rightarrow> lz4 \<Rightarrow> ('c session \<Rightarrow> 'c session) \<Rightarrow> SpeedMode \<Rightarrow> nat \<Rightarrow> 'c session \<Rightarrow>
   ('c session \<times> nat) option" where
  "paced_run ops fl lz frame mode 0 s = Some (s, 0)"
| "paced_run ops fl lz frame mode (Suc k) s =
     (case frame_work ops fl lz frame False False mode [] s of
        None \<Rightarrow> None
      | Some (s1, n) \<Rightarrow> map_option (\<lambda>(s2, m). (s2, n + m)) (paced_run ops fl lz frame mode k s1))"

text \<open>
  Fast-forward and slow motion keep the exact rate: over any number of display refreshes the frames
  run are the frames due, up to the fraction that waits in the accumulator, which stays below one
  frame.
\<close>

theorem paced_speed:
  assumes "mode \<noteq> Normal" "0 < speed_of mode (ss_cfg s)" "\<forall>c. co_NativeFps ops c = fps" "0 < fps"
    and "ss_core s \<noteq> None" "0 < ss_currentRefresh s" "0 \<le> ss_frameAccumulator s" "ss_frameAccumulator s < 1"
  shows "\<exists>s' n. paced_run ops (\<lambda>x. x) lz (RunOneFrame ops flf locked) mode k s = Some (s', n) \<and>
    of_nat n + ss_frameAccumulator s' =
      ss_frameAccumulator s + of_nat k * (speed_of mode (ss_cfg s) * fps / ss_currentRefresh s) \<and>
    0 \<le> ss_frameAccumulator s' \<and> ss_frameAccumulator s' < 1"
  using assms(2,5-8)
proof (induction k arbitrary: s)
  case (Suc k)
  let ?rate = "speed_of mode (ss_cfg s) * fps / ss_currentRefresh s"
  have fps: "native_fps ops s = fps" using Suc.prems(2) assms(3) by (auto simp: native_fps_def)
  obtain acc s1 n where p: "pace_loop (RunOneFrame ops flf locked) (ss_frameAccumulator s + ?rate) s = (acc, s1, n)"
    using prod_cases3 by blast
  let ?s2 = "s1\<lparr>ss_frameAccumulator := acc\<rparr>"
  have acc: "acc = ss_frameAccumulator s + ?rate - of_nat n" "acc < 1" "0 \<le> acc"
    and s1: "s1 = (RunOneFrame ops flf locked ^^ n) s"
    using pace_loop_spec [OF p] Suc.prems assms(4) by auto
  have w: "frame_work ops (\<lambda>x. x) lz (RunOneFrame ops flf locked) False False mode [] s = Some (?s2, n)"
    using assms(1) Suc.prems(1) p fps by (simp add: frame_work_def Let_def not_le)
  obtain s' m where r: "paced_run ops (\<lambda>x. x) lz (RunOneFrame ops flf locked) mode k ?s2 = Some (s', m)"
    "of_nat m + ss_frameAccumulator s' = acc + of_nat k * ?rate" "0 \<le> ss_frameAccumulator s'" "ss_frameAccumulator s' < 1"
    using Suc.IH [of ?s2] Suc.prems acc(2,3) s1 by auto
  have "of_nat (n + m) + ss_frameAccumulator s' = ss_frameAccumulator s + of_nat (Suc k) * ?rate"
    using r(2) acc(1) by (simp add: algebra_simps add_divide_distrib)
  with w r show ?case by auto
qed simp

theorem paced_speed_witness:
  "\<exists>s' n. paced_run demo_ops (\<lambda>x. x) lz_stored (RunOneFrame demo_ops (\<lambda>x. x) True) FastForward 7 demo_session = Some (s', n) \<and>
    n = 20"
proof -
  have "\<exists>s' n. paced_run demo_ops (\<lambda>x. x) lz_stored (RunOneFrame demo_ops (\<lambda>x. x) True) FastForward 7 demo_session = Some (s', n) \<and>
    of_nat n + ss_frameAccumulator s' = (1672370 / 80000 :: rat) \<and>
    0 \<le> ss_frameAccumulator s' \<and> ss_frameAccumulator s' < 1"
    using paced_speed [of FastForward demo_session demo_ops "597275 / 10000" lz_stored "\<lambda>x. x" True 7]
    by (simp add: speed_of_def demo_session_def session_new_def GetFloat_def config_new_def gba_ops_def)
  then obtain s' n where
    r: "paced_run demo_ops (\<lambda>x. x) lz_stored (RunOneFrame demo_ops (\<lambda>x. x) True) FastForward 7 demo_session = Some (s', n)"
    and n: "of_nat n = 1672370 / 80000 - ss_frameAccumulator s'" "0 \<le> ss_frameAccumulator s'" "ss_frameAccumulator s' < 1"
    by (auto simp: eq_diff_eq)
  have "(of_nat 19 :: rat) < of_nat n" "(of_nat n :: rat) < of_nat 21" using n by simp_all
  then have "n = 20" by (simp only: of_nat_less_iff)
  with r show ?thesis by blast
qed

section \<open>Audio rate\<close>

text \<open>
  C12: The audio-rate correction: the resampler is told a rate within half a percent of the rate the
  game really runs at, never below a quarter; it is told to make fewer samples exactly when the output
  buffer is fuller than its target on average, and it is only told a rate that differs.
\<close>

theorem audio_sync_bounds:
  assumes "rounds fl" "ss_core s = Some c" "0 \<le> emulatedFps" "0 < co_NativeFps ops c"
    and "nominal = fl (emulatedFps / co_NativeFps ops c)" "s' = UpdateAudioSync ops fl emulatedFps s"
    and "ss_audioSkew s' \<noteq> ss_audioSkew s"
  shows "ss_core s' = Some (co_SetAudioSkew ops (ss_audioSkew s') c) \<and>
    audio_skew fl nominal (- fl (1 / 200)) \<le> ss_audioSkew s' \<and>
    ss_audioSkew s' \<le> audio_skew fl nominal (fl (1 / 200)) \<and> 1 / 4 \<le> ss_audioSkew s' \<and>
    (1024 \<le> ss_fillAverage s' \<longrightarrow> audio_skew fl nominal 0 \<le> ss_audioSkew s') \<and>
    (ss_fillAverage s' \<le> 1024 \<longrightarrow> ss_audioSkew s' \<le> audio_skew fl nominal 0)"
proof -
  let ?avg = "fill_average fl (co_AudioFill ops c) (ss_fillAverage s)"
  have skew: "ss_audioSkew s' = audio_skew fl nominal (audio_correction fl ?avg)" "ss_fillAverage s' = ?avg"
    "ss_core s' = Some (co_SetAudioSkew ops (ss_audioSkew s') c)"
    using assms(2,5-7) by (auto simp: UpdateAudioSync_def Let_def upd_core_def split: if_splits)
  have "0 \<le> nominal" using rounds_between [OF assms(1), of 0 "emulatedFps / co_NativeFps ops c"]
      rounds_mono [OF assms(1), of 0 "emulatedFps / co_NativeFps ops c"] rounds_int [OF assms(1), of 0] assms(3-5)
    by simp
  then have mono: "audio_skew fl nominal x \<le> audio_skew fl nominal y" if "x \<le> y" for x y
    unfolding audio_skew_def using that
    by (intro max.mono order_refl rounds_mono [OF assms(1)] mult_left_mono) simp_all
  have corr: "- fl (1 / 200) \<le> audio_correction fl ?avg \<and> audio_correction fl ?avg \<le> fl (1 / 200)"
    unfolding audio_correction_def
    using rounds_mono [OF assms(1), of 0 "1 / 200"] rounds_int [OF assms(1), of 0] by (intro clamp_range) simp
  have floor: "1 / 4 \<le> audio_skew fl nominal x" for x by (simp add: audio_skew_def)
  show ?thesis
    using skew(3) floor mono corr correction_sign [OF assms(1), of ?avg] unfolding skew(1,2) by blast
qed

theorem audio_sync_bounds_witness:
  "1 / 4 \<le> ss_audioSkew (UpdateAudioSync demo_ops (\<lambda>x. x) 60 demo_session) \<and>
   ss_audioSkew (UpdateAudioSync demo_ops (\<lambda>x. x) 60 demo_session) \<le> 60 / (597275 / 10000)"
proof -
  have fps: "co_NativeFps demo_ops toy_gba = 597275 / 10000" "co_AudioFill demo_ops toy_gba = 0"
    by (simp_all add: gba_ops_def gba_AudioFill_def toy_gba_def gba_new_def stereo_new_def)
  have new: "ss_audioSkew demo_session = 1" "ss_fillAverage demo_session = - 1"
    by (simp_all add: demo_session_def session_new_def)
  have out: "ss_audioSkew (UpdateAudioSync demo_ops (\<lambda>x. x) 60 demo_session) \<noteq> 1"
    "ss_fillAverage (UpdateAudioSync demo_ops (\<lambda>x. x) 60 demo_session) = 0"
    by (simp_all add: UpdateAudioSync_def demo_core fps new fill_average_def audio_correction_def audio_skew_def
        clamp_def upd_core_def Let_def)
  have "rounds (\<lambda>x. x)" by (simp add: rounds_def)
  from audio_sync_bounds [OF this demo_core, of 60 demo_ops "60 / (597275 / 10000)" "UpdateAudioSync demo_ops (\<lambda>x. x) 60 demo_session"]
  show ?thesis by (simp add: fps new out audio_skew_def)
qed

section \<open>Thermal policy\<close>

text \<open>
  A history of thermal polls, newest first, and the session after it.  Between two polls anything may
  happen to the session that leaves the two times of the policy alone and at most lifts the cap, as
  everything else does that the session offers.
\<close>

inductive thermal_run :: "'c core_ops \<Rightarrow> (int \<times> perf) list \<Rightarrow> 'c session \<Rightarrow> bool" for ops where
  start: "ss_coolSince s = 0 \<Longrightarrow> thermal_run ops [] s"
| poll: "thermal_run ops h s \<Longrightarrow> \<forall>(t, q) \<in> set h. t < now \<Longrightarrow>
    thermal_run ops ((now, p) # h) (UpdateThermalScale ops p now s)"
| other: "thermal_run ops h s \<Longrightarrow> ss_coolSince s' = ss_coolSince s \<Longrightarrow> ss_lastThermalChange s' = ss_lastThermalChange s \<Longrightarrow>
    scaleCap s' \<in> {0, scaleCap s} \<Longrightarrow> thermal_run ops h s'"

definition cool_inv :: "(int \<times> perf) list \<Rightarrow> 'c session \<Rightarrow> bool" where
  "cool_inv h s \<longleftrightarrow>
     (ss_coolSince s \<noteq> 0 \<and> scaleCap s \<noteq> 0 \<longrightarrow>
        ss_coolSince s \<in> fst ` set h \<and> ss_lastThermalChange s + 20000000000 \<le> ss_coolSince s \<and>
        (\<forall>(t, q) \<in> set h. ss_coolSince s \<le> t \<longrightarrow> thermal_cool q))"

lemma set_cap_fields [simp]:
  "scaleCap (set_cap ops n s) = n" "ss_coolSince (set_cap ops n s) = ss_coolSince s"
  "ss_lastThermalChange (set_cap ops n s) = ss_lastThermalChange s"
  by (simp_all add: set_cap_def scaleCap_def upd_core_def Let_def SetInt_def GetInt_def)

lemma scaleCap_fields [simp]:
  "scaleCap (s\<lparr>ss_coolSince := x\<rparr>) = scaleCap s" "scaleCap (s\<lparr>ss_lastThermalChange := y\<rparr>) = scaleCap s"
  by (simp_all add: scaleCap_def)

lemma hot_not_cool: "thermal_hot p \<Longrightarrow> \<not> thermal_cool p"
  by (auto simp: thermal_hot_def thermal_cool_def kHot_def kCool_def)

text \<open>A poll that takes part in the decision, and one that does not.\<close>

lemma UpdateThermalScale_skip:
  assumes "ss_core s = None \<or> \<not> thermal_applies ops s \<or> now - ss_lastThermalChange s < 20000000000"
  shows "scaleCap (UpdateThermalScale ops p now s) = 0 \<or> UpdateThermalScale ops p now s = s \<and> thermal_applies ops s \<and>
    now - ss_lastThermalChange s < 20000000000"
  using assms by (auto simp: UpdateThermalScale_def thermal_applies_def split: option.splits)

lemma UpdateThermalScale_decides:
  assumes "thermal_applies ops s" "\<not> now - ss_lastThermalChange s < 20000000000" "s' = UpdateThermalScale ops p now s"
  shows "(ss_coolSince s' = 0 \<or> \<not> thermal_hot p \<or> \<not> thermal_cool p) \<and>
    (ss_coolSince s' \<noteq> 0 \<longrightarrow> thermal_cool p \<and> scaleCap s' = scaleCap s \<and> ss_lastThermalChange s' = ss_lastThermalChange s \<and>
      (ss_coolSince s' = ss_coolSince s \<or> ss_coolSince s' = now)) \<and>
    (scaleCap s' \<noteq> scaleCap s \<and> \<not> thermal_hot p \<longrightarrow>
      thermal_cool p \<and> scaleCap s \<noteq> 0 \<and> 60000000000 \<le> now - (if ss_coolSince s = 0 then now else ss_coolSince s))"
proof -
  obtain c where c: "ss_core s = Some c" using assms(1) by (cases "ss_core s") (auto simp: thermal_applies_def)
  let ?d = "thermal_decide p now (to_int32 (GetInt (ss_cfg s) ''video.scale'' 4)) (co_RenderScale ops (ss_cfg s) c)
    (to_int32 (scaleCap s)) (ss_coolSince s)"
  have s': "s' = (case ?d of (None, since) \<Rightarrow> s\<lparr>ss_coolSince := since\<rparr>
    | (Some newCap, since) \<Rightarrow> set_cap ops newCap (s\<lparr>ss_coolSince := since, ss_lastThermalChange := now\<rparr>))"
    using assms by (simp add: UpdateThermalScale_def c)
  have "to_int32 0 = 0" by (simp add: to_int32_def)
  then have "0 < to_int32 (scaleCap s) \<Longrightarrow> scaleCap s \<noteq> 0" by auto
  then show ?thesis unfolding s'
    using hot_not_cool [of p] by (auto simp: thermal_decide_def Let_def split: if_splits)
qed

lemma cool_inv_poll:
  assumes "cool_inv h s" "\<forall>(t, q) \<in> set h. t < now"
  shows "cool_inv ((now, p) # h) (UpdateThermalScale ops p now s)"
proof (cases "thermal_applies ops s \<and> \<not> now - ss_lastThermalChange s < 20000000000")
  case True
  define s' where "s' = UpdateThermalScale ops p now s"
  note d = UpdateThermalScale_decides [OF conjunct1 [OF True] conjunct2 [OF True] s'_def]
  show ?thesis unfolding s'_def [symmetric] cool_inv_def
  proof
    assume a: "ss_coolSince s' \<noteq> 0 \<and> scaleCap s' \<noteq> 0"
    with d have p: "thermal_cool p" "scaleCap s \<noteq> 0" "ss_lastThermalChange s' = ss_lastThermalChange s"
      and c: "ss_coolSince s' = ss_coolSince s \<or> ss_coolSince s' = now" by auto
    from c show "ss_coolSince s' \<in> fst ` set ((now, p) # h) \<and> ss_lastThermalChange s' + 20000000000 \<le> ss_coolSince s' \<and>
        (\<forall>(t, q) \<in> set ((now, p) # h). ss_coolSince s' \<le> t \<longrightarrow> thermal_cool q)"
    proof
      assume "ss_coolSince s' = ss_coolSince s"
      with assms(1) a p show ?thesis by (auto simp: cool_inv_def)
    next
      assume "ss_coolSince s' = now"
      with True p assms(2) show ?thesis by fastforce
    qed
  qed
next
  case False
  have "ss_core s = None \<Longrightarrow> \<not> thermal_applies ops s" by (simp add: thermal_applies_def)
  with False UpdateThermalScale_skip [of s ops now p] consider
    "scaleCap (UpdateThermalScale ops p now s) = 0"
    | "UpdateThermalScale ops p now s = s" "now - ss_lastThermalChange s < 20000000000" by blast
  then show ?thesis
    by cases (use assms in \<open>fastforce simp: cool_inv_def\<close>)+
qed

lemma thermal_run_inv: "thermal_run ops h s \<Longrightarrow> cool_inv h s"
proof (induction rule: thermal_run.induct)
  case (start s)
  then show ?case by (simp add: cool_inv_def)
next
  case (poll h s now p)
  then show ?case by (intro cool_inv_poll) auto
next
  case (other h s s')
  then show ?case by (auto simp: cool_inv_def)
qed

text \<open>
  C13: The resolution is restored only after a cool minute: when a poll that does not find the device
  hot changes the cap of a game that draws on the GPU, some poll at least sixty seconds earlier, and
  every poll from it up to now, found the device cool.
\<close>

theorem thermal_restore_needs_cool_minute:
  assumes "thermal_run ops h s" "\<forall>(t, q) \<in> set h. t < now" "thermal_applies ops s" "\<not> thermal_hot p"
    and "scaleCap (UpdateThermalScale ops p now s) \<noteq> scaleCap s"
  shows "\<exists>t0 \<in> fst ` set h. t0 + 60000000000 \<le> now \<and> (\<forall>(t, q) \<in> set ((now, p) # h). t0 \<le> t \<longrightarrow> thermal_cool q)"
proof -
  have due: "\<not> now - ss_lastThermalChange s < 20000000000"
    using assms(3,5) by (auto simp: UpdateThermalScale_def thermal_applies_def split: option.splits)
  from UpdateThermalScale_decides [OF assms(3) due refl, of p] assms(4,5)
  have d: "thermal_cool p" "scaleCap s \<noteq> 0" "60000000000 \<le> now - (if ss_coolSince s = 0 then now else ss_coolSince s)"
    by auto
  then have "ss_coolSince s \<noteq> 0" by (auto split: if_splits)
  with thermal_run_inv [OF assms(1)] d show ?thesis
    by (intro bexI [where x = "ss_coolSince s"]) (auto simp: cool_inv_def)
qed

text \<open>A game drawn on the GPU at four times the native resolution; the device is hot at 20 s and cool from 40 s.\<close>

definition demo_hw :: "bytes gba_core core_ops" where
  "demo_hw = demo_ops\<lparr>co_UsesHardware := (\<lambda>_. True), co_ApplySettings := (\<lambda>_ c. c),
     co_RenderScale := (\<lambda>cfg _. if GetInt cfg ''video.scaleCap'' 0 > 0 then min 4 (GetInt cfg ''video.scaleCap'' 0) else 4)\<rparr>"

definition demo_poll :: "rat \<Rightarrow> perf" where
  "demo_poll headroom = (perf_new True)\<lparr>pf_headroom := headroom\<rparr>"

definition demo_hot :: "bytes gba_core session" where
  "demo_hot = UpdateThermalScale demo_hw (demo_poll 1) 20000000000 demo_session"

definition demo_cool :: "bytes gba_core session" where
  "demo_cool = UpdateThermalScale demo_hw (demo_poll 0) 40000000000 demo_hot"

lemma demo_polls: "thermal_hot (demo_poll 1)" "thermal_cool (demo_poll 0)" "\<not> thermal_hot (demo_poll 0)"
  by (simp_all add: thermal_hot_def thermal_cool_def demo_poll_def perf_new_def kHot_def kCool_def)

lemma demo_hot_state:
  "ss_core demo_hot = Some toy_gba" "scaleCap demo_hot = 3" "ss_coolSince demo_hot = 0"
  "ss_lastThermalChange demo_hot = 20000000000" "ss_cfg demo_hot = SetInt ''video.scaleCap'' 3 config_new"
  by (simp_all add: demo_hot_def UpdateThermalScale_def thermal_applies_def demo_core demo_polls thermal_decide_def
      set_cap_def upd_core_def scaleCap_def demo_hw_def demo_session_def session_new_def GetInt_def SetInt_def GetBool_def config_new_def)

lemma demo_cool_state: "demo_cool = demo_hot\<lparr>ss_coolSince := 40000000000\<rparr>"
  by (simp add: demo_cool_def UpdateThermalScale_def thermal_applies_def demo_hot_state demo_polls thermal_decide_def
      demo_hw_def GetBool_def GetInt_def SetInt_def config_new_def to_int32_def scaleCap_def)

lemma demo_run: "thermal_run demo_hw [(40000000000, demo_poll 0), (20000000000, demo_poll 1)] demo_cool"
  unfolding demo_cool_def demo_hot_def
  by (intro thermal_run.poll thermal_run.start) (simp_all add: demo_session_def session_new_def)

theorem thermal_restore_needs_cool_minute_witness:
  "scaleCap (UpdateThermalScale demo_hw (demo_poll 0) 100000000000 demo_cool) = 0 \<and>
   (\<exists>t0 \<in> {20000000000, 40000000000}. t0 + 60000000000 \<le> (100000000000 :: int) \<and>
     (\<forall>(t, q) \<in> {(100000000000, demo_poll 0), (40000000000, demo_poll 0), (20000000000, demo_poll 1)}. t0 \<le> t \<longrightarrow> thermal_cool q))"
proof -
  have applies: "thermal_applies demo_hw demo_cool"
    by (simp add: thermal_applies_def demo_cool_state demo_hot_state demo_hw_def GetBool_def GetInt_def SetInt_def config_new_def)
  have lifted: "scaleCap (UpdateThermalScale demo_hw (demo_poll 0) 100000000000 demo_cool) = 0"
    using applies by (simp add: UpdateThermalScale_def demo_cool_state demo_hot_state demo_polls thermal_decide_def
        demo_hw_def GetInt_def SetInt_def config_new_def to_int32_def)
  with thermal_restore_needs_cool_minute [OF demo_run _ applies demo_polls(3), of 100000000000] show ?thesis
    by (auto simp: demo_cool_state demo_hot_state)
qed

end
