(* ===== verification/SessionSafety.thy ===== *)
theory SessionSafety
  imports SessionPolicy
begin

text \<open>
  What holds of the session after any sequence of its operations: which presenter has the window, when
  the audio source is attached, whose pixels the Vulkan presenter shows, and when the game runs.
\<close>

section \<open>Steps\<close>

text \<open>
  Everything the emulation thread does to the session: the commands and the iterations of its loop.
  Operations on the input only change the input.
\<close>

inductive session_step :: "'c core_ops \<Rightarrow> device \<Rightarrow> 'c session \<Rightarrow> 'c session \<Rightarrow> bool" for ops dv where
  surface: "session_step ops dv s (SetSurface dv w s)"
| layout: "session_step ops dv s (SetLayout l s)"
| present_settings: "session_step ops dv s (SetPresentSettings l s)"
| load_game: "session_step ops dv s (fst (LoadGame ops dv looks load rom name s))"
| threeds_generation: "session_step ops dv s (next_generation s)"
| threeds_prepare: "session_step ops dv s (ThreeDs_prepare ops dv library s)"
| threeds_finish: "session_step ops dv s (fst (ThreeDs_finish ops dv gen c err s))"
| boot_firmware: "session_step ops dv s (fst (BootFirmware ops dv booted s))"
| gba_slot: "session_step ops dv s (fst (LoadGbaSlotRom ins rom s))"
| start: "session_step ops dv s (Start s)"
| pause: "session_step ops dv s (SetPaused ops p s)"
| reset: "session_step ops dv s (Reset ops s)"
| stop: "session_step ops dv s (Stop ops dv s)"
| advance: "session_step ops dv s (FrameAdvance s)"
| flush: "session_step ops dv s (FlushSaves ops s)"
| cheats: "session_step ops dv s (SetCheats ops codes s)"
| solar: "session_step ops dv s (SetSolarLevel ops delta s)"
| settings: "session_step ops dv s (ApplyLiveSettings ops dv fl (s\<lparr>ss_cfg := cfg\<rparr>))"
| load_state: "session_step ops dv s (fst (LoadState ops k path d s))"
| undo_load: "session_step ops dv s (fst (UndoLoadState ops s))"
| input: "session_step ops dv s (s\<lparr>ss_input := inp\<rparr>)"
| iteration: "loop_iteration ops fl flf lz k wasActive (s, p) = Some (s', p', active) \<Longrightarrow> session_step ops dv s s'"

inductive session_reach :: "'c core_ops \<Rightarrow> device \<Rightarrow> 'c session \<Rightarrow> bool" for ops dv where
  new: "session_reach ops dv session_new"
| step: "session_reach ops dv s \<Longrightarrow> session_step ops dv s s' \<Longrightarrow> session_reach ops dv s'"

section \<open>The invariant\<close>

definition window_free :: "presenter option \<Rightarrow> bool" where
  "window_free p \<longleftrightarrow> (case p of None \<Rightarrow> True | Some p \<Rightarrow> pr_window p = None \<and> \<not> pr_ready p)"

definition window_ok :: "nat option \<Rightarrow> presenter option \<Rightarrow> bool" where
  "window_ok w p \<longleftrightarrow>
     (case p of None \<Rightarrow> True | Some p \<Rightarrow> pr_window p \<in> {None, w} \<and> (pr_ready p \<longrightarrow> pr_window p \<noteq> None))"

definition shown_ok :: "nat \<Rightarrow> presenter option \<Rightarrow> bool" where
  "shown_ok serial p \<longleftrightarrow>
     (case p of None \<Rightarrow> True
      | Some p \<Rightarrow> (case pr_shown p of CoreTexture _ k \<Rightarrow> k = serial | CoreImage _ k \<Rightarrow> k = serial | _ \<Rightarrow> True))"

text \<open>Whether the audio source is attached after the events, and whether a core was shut down only while it was not.\<close>

definition attached_step :: "session_event \<Rightarrow> bool \<times> bool \<Rightarrow> bool \<times> bool" where
  "attached_step e a =
     (case e of EvAttachAudio \<Rightarrow> (True, snd a) | EvDetachAudio \<Rightarrow> (False, snd a) | EvShutdownCore \<Rightarrow> (fst a, snd a \<and> \<not> fst a))"

definition attached :: "session_event list \<Rightarrow> bool \<times> bool" where
  "attached es = fold attached_step es (False, True)"

definition windows_inv :: "'c session \<Rightarrow> bool" where
  "windows_inv s \<longleftrightarrow>
     (ss_vulkanOutput s \<longrightarrow> ss_vk s \<noteq> None) \<and>
     (if ss_vulkanOutput s then window_free (ss_gl s) \<and> window_ok (ss_window s) (ss_vk s)
      else window_free (ss_vk s) \<and> window_ok (ss_window s) (ss_gl s))"

definition core_inv :: "'c session \<Rightarrow> bool" where
  "core_inv s \<longleftrightarrow>
     (ss_source s \<longleftrightarrow> ss_core s \<noteq> None) \<and> attached (ss_trace s) = (ss_source s, True) \<and>
     shown_ok (ss_serial s) (ss_vk s) \<and> (ss_running s \<longrightarrow> ss_core s \<noteq> None)"

text \<open>Steps that keep both: they change neither core presence nor windows, and may only stop the game.\<close>

definition calm :: "'c session \<Rightarrow> 'c session \<Rightarrow> bool" where
  "calm s s' \<longleftrightarrow> ss_gl s' = ss_gl s \<and> ss_vk s' = ss_vk s \<and> ss_vulkanOutput s' = ss_vulkanOutput s \<and>
     ss_window s' = ss_window s \<and> ss_source s' = ss_source s \<and> (ss_core s' = None \<longleftrightarrow> ss_core s = None) \<and>
     ss_trace s' = ss_trace s \<and> ss_serial s' = ss_serial s \<and> (ss_running s' \<longrightarrow> ss_running s)"

lemma calm_refl: "calm s s"
  by (simp add: calm_def)

lemma calm_trans: "calm s t \<Longrightarrow> calm t u \<Longrightarrow> calm s u"
  by (simp add: calm_def)

lemma calm_inv: "calm s s' \<Longrightarrow> windows_inv s \<Longrightarrow> core_inv s \<Longrightarrow> windows_inv s' \<and> core_inv s'"
  by (auto simp: calm_def windows_inv_def core_inv_def)

lemma calm_fields [simp]:
  "calm s (t\<lparr>ss_cfg := x1\<rparr>) = calm s t" "calm s (t\<lparr>ss_paused := x2\<rparr>) = calm s t"
  "calm s (t\<lparr>ss_frameStep := x3\<rparr>) = calm s t" "calm s (t\<lparr>ss_generation := x4\<rparr>) = calm s t"
  "calm s (t\<lparr>ss_audio := x5\<rparr>) = calm s t" "calm s (t\<lparr>ss_rewind := x6\<rparr>) = calm s t"
  "calm s (t\<lparr>ss_undoLoad := x7\<rparr>) = calm s t" "calm s (t\<lparr>ss_audioSkew := x8\<rparr>) = calm s t"
  "calm s (t\<lparr>ss_fillAverage := x9\<rparr>) = calm s t" "calm s (t\<lparr>ss_input := x10\<rparr>) = calm s t"
  "calm s (t\<lparr>ss_vulkan := x11\<rparr>) = calm s t" "calm s (t\<lparr>ss_vulkanFailed := x12\<rparr>) = calm s t"
  "calm s (t\<lparr>ss_lastLayout := x13\<rparr>) = calm s t" "calm s (t\<lparr>ss_lastSettings := x14\<rparr>) = calm s t"
  "calm s (t\<lparr>ss_needRedraw := x15\<rparr>) = calm s t" "calm s (t\<lparr>ss_currentRefresh := x16\<rparr>) = calm s t"
  "calm s (t\<lparr>ss_frameAccumulator := x17\<rparr>) = calm s t" "calm s (t\<lparr>ss_lastThermalChange := x18\<rparr>) = calm s t"
  "calm s (t\<lparr>ss_coolSince := x19\<rparr>) = calm s t" "calm s (t\<lparr>ss_statFrames := x20\<rparr>) = calm s t"
  "calm s (t\<lparr>ss_statPresents := x21\<rparr>) = calm s t" "calm s (t\<lparr>ss_calls := x22\<rparr>) = calm s t"
  "calm s (t\<lparr>ss_isDs := x23\<rparr>) = calm s t"
  by (simp_all add: calm_def)

lemma upd_core_calm [simp]: "calm s (upd_core f t) = calm s t"
  by (simp add: calm_def upd_core_def)

lemma calm_stop [simp]: "calm s t \<Longrightarrow> calm s (t\<lparr>ss_running := False\<rparr>)"
  by (simp add: calm_def)

lemma on_host_call_calm: "calm s t \<Longrightarrow> calm s (on_host_call h t)"
  by (cases h) (simp_all add: OnMicStart_def OnMicStop_def OnRumble_def OnRtcOffset_def OnCoreStopped_def)

lemma host_calls_calm: "calm s t \<Longrightarrow> calm s (fold on_host_call hs t)"
  by (induction hs arbitrary: t) (simp_all add: on_host_call_calm)

lemma core_put_calm: "ss_core t \<noteq> None \<Longrightarrow> calm s t \<Longrightarrow> calm s (t\<lparr>ss_core := Some c\<rparr>)"
  by (cases "ss_core s") (auto simp: calm_def)

lemma run_core_calm: "calm s t \<Longrightarrow> calm s (run_core ops inp t)"
  by (auto simp: run_core_def intro!: host_calls_calm core_put_calm split: option.split prod.split)

lemma RunOneFrame_calm: "calm s t \<Longrightarrow> calm s (RunOneFrame ops flf locked t)"
proof -
  have capture: "calm s (capture ops locked u)" if "calm s u" for u
    using that by (simp add: capture_def Let_def split: option.split)
  assume "calm s t"
  then show ?thesis by (auto simp: RunOneFrame_def Let_def intro!: capture run_core_calm split: prod.split)
qed

lemma RewindStep_calm: "calm s t \<Longrightarrow> calm s (RewindStep ops lz t)"
  by (auto simp: RewindStep_def intro!: run_core_calm split: prod.split option.split)

lemma pow_calm: "(\<And>t. calm s t \<Longrightarrow> calm s (f t)) \<Longrightarrow> calm s t \<Longrightarrow> calm s ((f ^^ n) t)"
  by (induction n) simp_all

lemma unlimited_loop_calm:
  "unlimited_loop f b es t = Some (t', n) \<Longrightarrow> (\<And>t. calm s t \<Longrightarrow> calm s (f t)) \<Longrightarrow> calm s t \<Longrightarrow> calm s t'"
  by (induction f b es t arbitrary: t' n rule: unlimited_loop.induct) (auto split: if_splits)

lemma frame_work_calm:
  assumes "frame_work ops fl lz (RunOneFrame ops flf locked) rewinding frame_step mode elapsed t = Some (t', n)" "calm s t"
  shows "calm s t'"
proof -
  note run = RunOneFrame_calm [of s _ ops flf locked]
  have pace: "calm s u" if "pace_loop (RunOneFrame ops flf locked) acc t = (acc', u, k)" for acc acc' u k
    using pace_loop_spec [OF that] pow_calm [OF run assms(2)] by simp
  show ?thesis
    using assms run RewindStep_calm unlimited_loop_calm [OF _ run]
    by (auto simp: frame_work_def Let_def split: if_splits prod.splits dest: pace)
qed


text \<open>Calls on a presenter that keep its window and show nothing of an older core.\<close>

definition keeps :: "nat \<Rightarrow> (presenter \<Rightarrow> presenter) \<Rightarrow> bool" where
  "keeps serial f \<longleftrightarrow>
     (\<forall>p. (pr_window (f p), pr_ready (f p)) \<in> {(pr_window p, pr_ready p), (pr_window p, False), (None, False)} \<and>
          (shown_ok serial (Some p) \<longrightarrow> shown_ok serial (Some (f p))))"

lemma keeps_calls [simp]:
  "keeps k (SetTargetRefreshRate hz)" "keeps k ReleaseWindow" "keeps k DropExternalImage" "keeps k DropExternalFrames"
  "keeps k (\<lambda>p. p\<lparr>pr_layout := l\<rparr>)" "keeps k (\<lambda>p. p\<lparr>pr_settings := l\<rparr>)" "keeps k (\<lambda>p. p\<lparr>pr_ready := False\<rparr>)"
  "keeps k (show_frame Uploaded)" "keeps k (show_frame (CoreTexture t k))" "keeps k (show_frame (CoreImage i k))"
  by (auto simp: keeps_def SetTargetRefreshRate_def ReleaseWindow_def DropExternalImage_def DropExternalFrames_def
      shown_ok_def show_frame_def Let_def split: shown.splits)

lemma keeps_window:
  assumes "keeps k f"
  shows "window_free p \<Longrightarrow> window_free (map_option f p)" "window_ok w p \<Longrightarrow> window_ok w (map_option f p)"
    "shown_ok k p \<Longrightarrow> shown_ok k (map_option f p)"
proof -
  have f: "(pr_window (f q), pr_ready (f q)) \<in> {(pr_window q, pr_ready q), (pr_window q, False), (None, False)}"
    "shown_ok k (Some q) \<Longrightarrow> shown_ok k (Some (f q))" for q
    using assms by (auto simp: keeps_def)
  show "window_free p \<Longrightarrow> window_free (map_option f p)" "window_ok w p \<Longrightarrow> window_ok w (map_option f p)"
    "shown_ok k p \<Longrightarrow> shown_ok k (map_option f p)"
    using f [of "the p"] by (cases p; auto simp: window_free_def window_ok_def)+
qed

definition session_inv :: "'c session \<Rightarrow> bool" where
  "session_inv s \<longleftrightarrow> windows_inv s \<and> core_inv s"

lemma session_inv_fields [simp]:
  "session_inv (t\<lparr>ss_cfg := x0\<rparr>) = session_inv t" "session_inv (t\<lparr>ss_paused := x1\<rparr>) = session_inv t"
  "session_inv (t\<lparr>ss_frameStep := x2\<rparr>) = session_inv t" "session_inv (t\<lparr>ss_generation := x3\<rparr>) = session_inv t"
  "session_inv (t\<lparr>ss_audio := x4\<rparr>) = session_inv t" "session_inv (t\<lparr>ss_rewind := x5\<rparr>) = session_inv t"
  "session_inv (t\<lparr>ss_undoLoad := x6\<rparr>) = session_inv t" "session_inv (t\<lparr>ss_audioSkew := x7\<rparr>) = session_inv t"
  "session_inv (t\<lparr>ss_fillAverage := x8\<rparr>) = session_inv t" "session_inv (t\<lparr>ss_input := x9\<rparr>) = session_inv t"
  "session_inv (t\<lparr>ss_vulkan := x10\<rparr>) = session_inv t" "session_inv (t\<lparr>ss_vulkanFailed := x11\<rparr>) = session_inv t"
  "session_inv (t\<lparr>ss_lastLayout := x12\<rparr>) = session_inv t" "session_inv (t\<lparr>ss_lastSettings := x13\<rparr>) = session_inv t"
  "session_inv (t\<lparr>ss_needRedraw := x14\<rparr>) = session_inv t" "session_inv (t\<lparr>ss_currentRefresh := x15\<rparr>) = session_inv t"
  "session_inv (t\<lparr>ss_frameAccumulator := x16\<rparr>) = session_inv t" "session_inv (t\<lparr>ss_lastThermalChange := x17\<rparr>) = session_inv t"
  "session_inv (t\<lparr>ss_coolSince := x18\<rparr>) = session_inv t" "session_inv (t\<lparr>ss_statFrames := x19\<rparr>) = session_inv t"
  "session_inv (t\<lparr>ss_statPresents := x20\<rparr>) = session_inv t" "session_inv (t\<lparr>ss_calls := x21\<rparr>) = session_inv t"
  "session_inv (t\<lparr>ss_isDs := x22\<rparr>) = session_inv t"
  by (simp_all add: session_inv_def windows_inv_def core_inv_def)

lemma calm_session_inv: "session_inv s \<Longrightarrow> calm s s' \<Longrightarrow> session_inv s'"
  using calm_inv by (auto simp: session_inv_def)

lemma presenter_calls_inv:
  assumes "session_inv s" "keeps (ss_serial s) f"
  shows "session_inv (on_gl f s)" "session_inv (on_vk f s)" "session_inv (on_output f s)"
proof -
  show "session_inv (on_gl f s)" "session_inv (on_vk f s)"
    using assms keeps_window [OF assms(2)]
    by (auto simp: session_inv_def windows_inv_def core_inv_def on_gl_def on_vk_def)
  then show "session_inv (on_output f s)" by (simp add: on_output_def)
qed

lemma calls_serial [simp]:
  "ss_serial (on_gl f s) = ss_serial s" "ss_serial (on_vk f s) = ss_serial s" "ss_serial (on_output f s) = ss_serial s"
  by (simp_all add: on_gl_def on_vk_def on_output_def)

lemma Present_inv: "session_inv s \<Longrightarrow> session_inv (Present k s)"
  by (auto simp: Present_def intro!: presenter_calls_inv elim: calm_session_inv simp: calm_refl split: present_answer.split)

lemma PresentFrame_inv: "session_inv s \<Longrightarrow> session_inv (PresentFrame ops k s)"
  by (auto simp: PresentFrame_def intro!: Present_inv presenter_calls_inv split: option.split)

section \<open>The operations keep the invariant\<close>

lemma VulkanOutput_cases:
  obtains "calm s (fst (VulkanOutput dv s))" "snd (VulkanOutput dv s) \<Longrightarrow> ss_vk s \<noteq> None"
  | u p where "ss_vk s = None" "calm s u" "fst (VulkanOutput dv s) = u\<lparr>ss_vk := Some p\<rparr>"
      "window_free (Some p)" "pr_shown p = shown.NoFrame"
proof (cases "ss_vk s = None \<and> \<not> ss_vulkanFailed s \<and> snd (Vulkan dv s) \<and> dv_vkPresenter dv")
  case True
  have "calm s (fst (Vulkan dv s))" by (simp add: Vulkan_def calm_refl)
  with True that(2) show ?thesis
    by (cases "Vulkan dv s") (simp add: VulkanOutput_def window_free_def presenter_new_def)
next
  case False
  show ?thesis
  proof (rule that(1))
    show "calm s (fst (VulkanOutput dv s))" "snd (VulkanOutput dv s) \<Longrightarrow> ss_vk s \<noteq> None"
      using False by (auto simp: VulkanOutput_def Vulkan_def calm_refl split: if_splits)
  qed
qed

lemma VulkanOutput_inv:
  assumes "session_inv s" "\<not> ss_vulkanOutput s"
  shows "session_inv (fst (VulkanOutput dv s)) \<and> (snd (VulkanOutput dv s) \<longrightarrow> ss_vk (fst (VulkanOutput dv s)) \<noteq> None)"
proof (cases rule: VulkanOutput_cases [of s dv])
  case 1
  with assms(1) calm_session_inv show ?thesis by (simp add: calm_def)
next
  case (2 u p)
  have "session_inv u" "\<not> ss_vulkanOutput u" using 2(2) assms calm_session_inv by (auto simp: calm_def)
  with 2(3-5) show ?thesis
    by (simp add: session_inv_def windows_inv_def core_inv_def shown_ok_def)
qed

text \<open>When the Vulkan presenter is the output it exists already.\<close>

lemma VulkanOutput_same: "session_inv s \<Longrightarrow> ss_vulkanOutput s \<Longrightarrow> VulkanOutput dv s = (s, True)"
  by (auto simp: VulkanOutput_def session_inv_def windows_inv_def)

lemma SetWindow_ok:
  "window_free p \<Longrightarrow> window_ok (Some w) (map_option (SetWindow dv w) p)"
  "shown_ok k p \<Longrightarrow> shown_ok k (map_option (SetWindow dv w) p)"
  by (cases p; auto simp: window_free_def window_ok_def shown_ok_def SetWindow_def ReleaseWindow_def)+

lemma window_free_ok: "window_free p \<Longrightarrow> window_ok w p"
  by (cases p) (simp_all add: window_free_def window_ok_def)

lemma ReleaseWindow_free: "window_free (map_option ReleaseWindow p)"
  by (cases p) (simp_all add: window_free_def ReleaseWindow_def)

text \<open>Once no presenter has a window, either may become the output and take the session's.\<close>

definition no_windows :: "'c session \<Rightarrow> bool" where
  "no_windows s \<longleftrightarrow> window_free (ss_gl s) \<and> window_free (ss_vk s)"

lemma release_no_windows:
  assumes "windows_inv s"
  shows "no_windows (on_output ReleaseWindow s)"
  using assms ReleaseWindow_free
  by (auto simp: no_windows_def windows_inv_def on_output_def OutputIsVulkan_def on_vk_def on_gl_def)

lemma calls_present:
  "ss_vk (on_output f s) = None \<longleftrightarrow> ss_vk s = None" "ss_vk (on_vk f s) = None \<longleftrightarrow> ss_vk s = None"
  by (auto simp: on_output_def on_vk_def on_gl_def)

lemma no_windows_keeps:
  "no_windows s \<Longrightarrow> keeps k f \<Longrightarrow> no_windows (on_vk f s)"
  using keeps_window(1) by (auto simp: no_windows_def on_vk_def)

lemma calls_core_inv:
  assumes "core_inv s"
  shows "keeps (ss_serial s) f \<Longrightarrow> core_inv (on_output f s)" "keeps (ss_serial s) f \<Longrightarrow> core_inv (on_vk f s)"
    "core_inv (on_output (SetWindow dv w) s)"
  using assms keeps_window(3) [of "ss_serial s" f "ss_vk s"] SetWindow_ok(2) [of "ss_serial s" "ss_vk s" dv w]
  by (auto simp: core_inv_def on_output_def on_vk_def on_gl_def)

lemma take_window_inv:
  assumes "no_windows s" "ss_vulkanOutput s \<longrightarrow> ss_vk s \<noteq> None" "core_inv s" "ss_window s = Some w"
  shows "session_inv (on_output (SetWindow dv w) s)"
  using assms calls_core_inv(3) [OF assms(3)] SetWindow_ok(1)
  by (auto simp: session_inv_def windows_inv_def no_windows_def on_output_def OutputIsVulkan_def on_vk_def on_gl_def)

lemma no_windows_inv:
  "no_windows s \<Longrightarrow> ss_vulkanOutput s \<longrightarrow> ss_vk s \<noteq> None \<Longrightarrow> core_inv s \<Longrightarrow> session_inv s"
  using window_free_ok by (auto simp: session_inv_def windows_inv_def no_windows_def)

lemma UpdateOutput_inv:
  assumes "session_inv s"
  shows "session_inv (UpdateOutput ops dv s)"
proof -
  define want0 where "want0 = (case ss_core s of None \<Rightarrow> False | Some c \<Rightarrow> co_WantsVulkan ops c)"
  obtain s1 avail where p: "(if want0 then VulkanOutput dv s else (s, False)) = (s1, avail)" by fastforce
  have s1: "session_inv s1" "avail \<longrightarrow> ss_vk s1 \<noteq> None"
    using p assms VulkanOutput_inv [OF assms, of dv] VulkanOutput_same [OF assms, of dv]
    by (cases "ss_vulkanOutput s"; auto simp: session_inv_def windows_inv_def split: if_splits)+
  let ?want = "want0 \<and> avail"
  define s2 where "s2 = on_output ReleaseWindow s1"
  define s3 where "s3 = (if \<not> ?want then on_vk DropExternalFrames s2 else s2)"
  define s4 where "s4 = s3\<lparr>ss_vulkanOutput := ?want\<rparr>"
  have s2: "no_windows s2" "core_inv s2"
    using s1(1) by (simp_all add: s2_def session_inv_def release_no_windows calls_core_inv(1))
  have vk2: "avail \<longrightarrow> ss_vk s2 \<noteq> None"
    using s1(2) by (simp add: s2_def calls_present del: not_None_eq)
  have s3: "no_windows s3" "core_inv s3"
    using s2 no_windows_keeps [OF s2(1) keeps_calls(4)] calls_core_inv(2) [OF s2(2) keeps_calls(4)]
    by (simp_all add: s3_def)
  have "avail \<longrightarrow> ss_vk s3 \<noteq> None"
    using vk2 by (simp add: s3_def calls_present del: not_None_eq)
  with s3 have s4: "no_windows s4" "core_inv s4" "ss_vulkanOutput s4 \<longrightarrow> ss_vk s4 \<noteq> None"
    by (simp_all add: s4_def no_windows_def core_inv_def)
  have out: "UpdateOutput ops dv s = (if ?want = ss_vulkanOutput s1 then s1 else case ss_window s4 of None \<Rightarrow> s4
    | Some w \<Rightarrow> (on_output (SetTargetRefreshRate (ss_currentRefresh s4)) (on_output (SetWindow dv w) s4))\<lparr>ss_needRedraw := True\<rparr>)"
    unfolding UpdateOutput_def want0_def [symmetric] p Let_def split s2_def [symmetric] s3_def [symmetric] s4_def [symmetric] ..
  have "session_inv ((on_output (SetTargetRefreshRate hz) (on_output (SetWindow dv w) s4))\<lparr>ss_needRedraw := True\<rparr>)"
    if "ss_window s4 = Some w" for w hz
  proof -
    have "session_inv (on_output (SetTargetRefreshRate hz) (on_output (SetWindow dv w) s4))"
      by (rule presenter_calls_inv(3) [OF take_window_inv [OF s4(1,3,2) that] keeps_calls(1)])
    then show ?thesis by (rule calm_session_inv) (simp add: calm_refl)
  qed
  moreover have "session_inv s4" by (rule no_windows_inv [OF s4(1,3,2)])
  ultimately show ?thesis using s1(1) unfolding out by (simp split: option.split)
qed

lemma SetSurface_inv:
  assumes "session_inv s"
  shows "session_inv (SetSurface dv w s)"
proof -
  define s1 where "s1 = (on_output ReleaseWindow s)\<lparr>ss_window := w\<rparr>"
  have s1: "no_windows s1" "core_inv s1" "ss_vulkanOutput s1 \<longrightarrow> ss_vk s1 \<noteq> None"
    using assms release_no_windows [of s] calls_core_inv(1) [of s ReleaseWindow]
    by (auto simp: s1_def session_inv_def no_windows_def core_inv_def windows_inv_def on_output_def on_vk_def on_gl_def)
  have "session_inv ((on_output (SetWindow dv v) s1)\<lparr>ss_needRedraw := True\<rparr>)" if "w = Some v" for v
    using take_window_inv [OF s1(1,3,2), of v dv] that
    by (auto intro: calm_session_inv [where s = "on_output (SetWindow dv v) s1"] simp: calm_refl s1_def [THEN arg_cong [of _ _ ss_window]])
  moreover have "session_inv s1" by (rule no_windows_inv [OF s1(1,3,2)])
  ultimately show ?thesis using assms
    unfolding SetSurface_def Let_def s1_def [symmetric] by (simp split: option.split)
qed

lemma drop_shows_no_core: "shown_ok k (map_option DropExternalFrames p)"
  by (cases p) (auto simp: shown_ok_def DropExternalFrames_def DropExternalImage_def Let_def split: shown.splits)

lemma attached_append: "attached (es @ fs) = fold attached_step fs (attached es)"
  by (simp add: attached_def)

lemma windows_inv_eq:
  "windows_inv s \<Longrightarrow> ss_gl t = ss_gl s \<Longrightarrow> ss_vk t = ss_vk s \<Longrightarrow> ss_vulkanOutput t = ss_vulkanOutput s \<Longrightarrow>
   ss_window t = ss_window s \<Longrightarrow> windows_inv t"
  by (simp add: windows_inv_def)

lemma SwapCore_inv:
  assumes "session_inv s"
  shows "session_inv (SwapCore ops dv next_core s)"
proof -
  have w: "windows_inv (on_vk DropExternalFrames s)"
    using presenter_calls_inv(2) [OF assms keeps_calls(4)] by (simp add: session_inv_def)
  have a: "attached (ss_trace s) = (ss_source s, True)" using assms by (simp add: session_inv_def core_inv_def)
  show ?thesis unfolding SwapCore_def Let_def
    by (rule UpdateOutput_inv, unfold session_inv_def, intro conjI, rule windows_inv_eq [OF w])
      (simp_all add: core_inv_def ss_log_def on_vk_def drop_shows_no_core attached_append attached_step_def a)
qed

lemma calls_core [simp]:
  "ss_core (on_output f s) = ss_core s" "ss_core (on_vk f s) = ss_core s" "ss_core (fst (VulkanOutput dv s)) = ss_core s"
  by (simp_all add: on_output_def on_vk_def on_gl_def VulkanOutput_def Vulkan_def)

lemma UpdateOutput_core [simp]: "ss_core (UpdateOutput ops dv s) = ss_core s"
proof -
  obtain s1 avail where p: "(if (case ss_core s of None \<Rightarrow> False | Some c \<Rightarrow> co_WantsVulkan ops c) then VulkanOutput dv s
    else (s, False)) = (s1, avail)" by fastforce
  then have "ss_core s1 = ss_core s" by (metis calls_core(3) fst_conv)
  then show ?thesis unfolding UpdateOutput_def p Let_def split by (simp split: option.split)
qed

lemma SwapCore_core [simp]: "ss_core (SwapCore ops dv next_core s) = next_core"
  by (simp add: SwapCore_def Let_def ss_log_def)

lemma running_inv: "session_inv s \<Longrightarrow> r \<longrightarrow> ss_core s \<noteq> None \<Longrightarrow> session_inv (s\<lparr>ss_running := r\<rparr>)"
  by (simp add: session_inv_def windows_inv_def core_inv_def)

lemma calm_field_inv:
  "session_inv s \<Longrightarrow> session_inv (s\<lparr>ss_cfg := cfg\<rparr>)" "session_inv s \<Longrightarrow> session_inv (next_generation s)"
  by (auto elim!: calm_session_inv simp: calm_refl next_generation_def)

lemma loads_inv:
  assumes "session_inv s"
  shows "session_inv (fst (LoadGame ops dv looks load rom name s))" "session_inv (fst (BootFirmware ops dv booted s))"
    "session_inv (fst (ThreeDs_finish ops dv gen c err s))" "session_inv (Stop ops dv s)"
  using assms
  by (auto simp: LoadGame_def BootFirmware_def ThreeDs_finish_def Stop_def Let_def
      intro!: running_inv SwapCore_inv calm_field_inv split: option.split prod.split)

lemma choose_renderer_inv:
  assumes "session_inv s"
  shows "session_inv (fst (choose_renderer dv s))"
proof -
  have vk_out: "session_inv (fst (VulkanOutput dv t))" if "session_inv t" for t
    using that VulkanOutput_inv [OF that, of dv] VulkanOutput_same [OF that, of dv] by (cases "ss_vulkanOutput t") simp_all
  have "calm s (fst (Vulkan dv s))" by (simp add: Vulkan_def calm_refl)
  then have "session_inv (fst (Vulkan dv s))" using assms calm_session_inv by blast
  then show ?thesis
    using vk_out [of "fst (Vulkan dv s)"] assms by (cases "Vulkan dv s"; cases "snd (Vulkan dv s)") (simp_all add: choose_renderer_def)
qed

lemma ThreeDs_prepare_inv: "session_inv s \<Longrightarrow> session_inv (ThreeDs_prepare ops dv library s)"
  by (simp add: ThreeDs_prepare_def Let_def choose_renderer_inv SwapCore_inv calm_field_inv)

lemma calm_ops:
  "calm s (FrameAdvance s)" "calm s (Start s)" "calm s (SetPaused ops p s)" "calm s (Reset ops s)" "calm s (FlushSaves ops s)"
  "calm s (SetCheats ops codes s)" "calm s (SetSolarLevel ops delta s)" "calm s (fst (LoadGbaSlotRom ins rom s))"
  "calm s (fst (LoadState ops k path d s))" "calm s (fst (UndoLoadState ops s))" "calm s (next_generation s)"
  by (auto simp: FrameAdvance_def Start_def SetPaused_def Reset_def FlushSaves_def SetCheats_def SetSolarLevel_def
      LoadGbaSlotRom_def LoadState_def UndoLoadState_def next_generation_def calm_refl Let_def core_put_calm
      split: option.split prod.split bool.split)

lemma layout_inv:
  assumes "session_inv s"
  shows "session_inv (SetLayout l s)" "session_inv (SetPresentSettings l s)"
proof -
  have "session_inv (on_gl f (on_vk f s))" if "\<And>k. keeps k f" for f
    using presenter_calls_inv(1,2) that assms by blast
  from this [of "\<lambda>p. p\<lparr>pr_layout := l\<rparr>"] show "session_inv (SetLayout l s)"
    by (auto elim!: calm_session_inv simp: SetLayout_def on_gl_def on_vk_def calm_def)
  from \<open>\<And>f. (\<And>k. keeps k f) \<Longrightarrow> session_inv (on_gl f (on_vk f s))\<close> [of "\<lambda>p. p\<lparr>pr_settings := l\<rparr>"]
  show "session_inv (SetPresentSettings l s)"
    by (auto elim!: calm_session_inv simp: SetPresentSettings_def on_gl_def on_vk_def calm_def)
qed

lemma ApplyLiveSettings_inv: "session_inv s \<Longrightarrow> session_inv (ApplyLiveSettings ops dv fl s)"
proof -
  assume s: "session_inv s"
  have "session_inv (upd_core f (s\<lparr>ss_audio := a\<rparr>))" for f a
    using s by (rule calm_session_inv) (simp add: calm_refl)
  from UpdateOutput_inv [OF this] show ?thesis by (simp add: ApplyLiveSettings_def Let_def)
qed

lemma thermal_calm: "calm s t \<Longrightarrow> calm s (UpdateThermalScale ops p now t)"
  by (simp add: UpdateThermalScale_def set_cap_def Let_def split: option.split prod.split)

lemma audio_sync_calm: "calm s t \<Longrightarrow> calm s (UpdateAudioSync ops fl fps t)"
  by (simp add: UpdateAudioSync_def Let_def split: option.split)

lemma active_changed_inv: "session_inv s \<Longrightarrow> session_inv (active_changed k active s)"
  by (auto simp: active_changed_def intro!: presenter_calls_inv elim: calm_session_inv simp: calm_refl)

lemma idle_step_inv: "session_inv s \<Longrightarrow> session_inv (idle_step ops k s)"
  by (auto simp: idle_step_def Let_def intro!: PresentFrame_inv elim: calm_session_inv simp: calm_refl)

lemma update_refresh_inv: "session_inv s \<Longrightarrow> session_inv (update_refresh mode s)"
  by (auto simp: update_refresh_def Let_def intro!: presenter_calls_inv elim: calm_session_inv simp: calm_refl)

lemma after_frames_inv: "session_inv s \<Longrightarrow> session_inv (fst (after_frames ops fl k frames s p))"
proof -
  assume "session_inv s"
  define s1 where "s1 = s\<lparr>ss_audio := (ss_audio s)
    \<lparr>muted := (la_mode k = FastForward \<and> GetBool (ss_cfg s) ''audio.muteFastForward'' True \<or> la_rewinding k)\<rparr>\<rparr>"
  define s2 where "s2 = (if HasWindow s1 then PresentFrame ops (la_presented k) s1 else s1)"
  have "session_inv s1" using \<open>session_inv s\<close> by (simp add: s1_def)
  then have "session_inv s2" by (simp add: s2_def PresentFrame_inv)
  moreover have "calm s2 (fst (after_frames ops fl k frames s p))"
    unfolding after_frames_def Let_def s1_def [symmetric] s2_def [symmetric]
    by (simp add: thermal_calm audio_sync_calm calm_refl)
  ultimately show ?thesis by (rule calm_session_inv)
qed

lemma loop_inv:
  assumes "loop_iteration ops fl flf lz k wasActive (s, p) = Some (s', p', active)" "session_inv s"
  shows "session_inv s'"
proof -
  define s1 where "s1 = (if session_active s \<noteq> wasActive then active_changed (la_oboe k) (session_active s) s else s)"
  have s1: "session_inv s1" using assms(2) by (simp add: s1_def active_changed_inv)
  let ?w = "frame_work ops fl lz (RunOneFrame ops flf (la_locked k)) (la_rewinding k) (ss_frameStep s)
      (la_mode k) (la_elapsed k) (update_refresh (la_mode k) s1)"
  have run: "(if \<not> session_active s then Some (idle_step ops (la_presented k) s1, p, session_active s)
      else case ?w of None \<Rightarrow> None
        | Some (s2, frames) \<Rightarrow> (case after_frames ops fl k frames s2 p of (s3, p3) \<Rightarrow> Some (s3, p3, session_active s))) = Some (s', p', active)"
    using assms(1) unfolding loop_iteration_def prod.case Let_def s1_def [symmetric] by (cases "session_active s") simp_all
  show ?thesis
  proof (cases "session_active s")
    case True
    then obtain s2 n where w: "?w = Some (s2, n)" using run by (cases ?w) auto
    have "session_inv s2"
      using update_refresh_inv [OF s1] frame_work_calm [OF w calm_refl] calm_session_inv by blast
    with True run w after_frames_inv [of s2 ops fl k n p] show ?thesis by (auto split: prod.splits)
  qed (use run s1 idle_step_inv in auto)
qed

lemma session_step_inv: "session_step ops dv s s' \<Longrightarrow> session_inv s \<Longrightarrow> session_inv s'"
proof (induction rule: session_step.induct)
  case (iteration fl flf lz k wasActive s p s' p' active)
  then show ?case using loop_inv by blast
next
  case (settings fl s cfg)
  then show ?case by (intro ApplyLiveSettings_inv calm_field_inv)
next
  case (input s inp)
  then show ?case by (rule calm_session_inv) (simp add: calm_refl)
qed (auto intro: SetSurface_inv layout_inv loads_inv ThreeDs_prepare_inv calm_session_inv [OF _ calm_ops(1)]
      calm_session_inv [OF _ calm_ops(2)] calm_session_inv [OF _ calm_ops(3)] calm_session_inv [OF _ calm_ops(4)]
      calm_session_inv [OF _ calm_ops(5)] calm_session_inv [OF _ calm_ops(6)] calm_session_inv [OF _ calm_ops(7)]
      calm_session_inv [OF _ calm_ops(8)] calm_session_inv [OF _ calm_ops(9)] calm_session_inv [OF _ calm_ops(10)]
      calm_session_inv [OF _ calm_ops(11)])

lemma session_reach_inv: "session_reach ops dv s \<Longrightarrow> session_inv s"
proof (induction rule: session_reach.induct)
  case new
  then show ?case
    by (simp add: session_new_def session_inv_def windows_inv_def core_inv_def window_free_def window_ok_def
        presenter_new_def attached_def shown_ok_def)
qed (use session_step_inv in blast)

section \<open>Properties\<close>

text \<open>A shutdown that is allowed leaves its mark: until one happens while the source is attached, none has.\<close>

lemma attached_ok_append: "snd (attached (es @ fs)) \<Longrightarrow> snd (attached es)"
proof (induction fs rule: rev_induct)
  case (snoc e fs)
  have "attached (es @ fs @ [e]) = attached_step e (attached (es @ fs))" by (simp add: attached_append)
  with snoc show ?case by (auto simp: attached_step_def split: session_event.splits)
qed simp

lemma attached_shutdown: "snd (attached (es @ EvShutdownCore # fs)) \<Longrightarrow> \<not> fst (attached es)"
  using attached_ok_append [of "es @ [EvShutdownCore]" fs] by (simp add: attached_append attached_step_def)

text \<open>
  C14: The window has one owner: whatever the sequence of operations, a presenter that holds a window
  holds the session's window and is the one frames are sent to, so the two presenters never hold one at
  the same time.
\<close>

theorem session_one_window:
  assumes "session_reach ops dv s" "ss_gl s = Some p \<or> ss_vk s = Some p" "pr_window p = Some w"
  shows "ss_window s = Some w \<and> Output s = Some p \<and>
    \<not> (\<exists>g v. ss_gl s = Some g \<and> ss_vk s = Some v \<and> pr_window g \<noteq> None \<and> pr_window v \<noteq> None)"
  using session_reach_inv [OF assms(1)] assms(2,3)
  by (cases "ss_vulkanOutput s"; cases "ss_gl s"; cases "ss_vk s";
      auto simp: session_inv_def windows_inv_def window_free_def window_ok_def Output_def OutputIsVulkan_def)

text \<open>
  C15: A core is alive whenever something may use it: the audio thread reads a core exactly while there
  is one, every shutdown in the history happened while it was detached, the Vulkan presenter never
  shows a texture or image of an earlier core, and a game only runs when there is a core.
\<close>

theorem session_core_lifecycle:
  assumes "session_reach ops dv s"
  shows "(ss_source s \<longleftrightarrow> ss_core s \<noteq> None) \<and> (ss_running s \<longrightarrow> ss_core s \<noteq> None) \<and>
    (\<forall>es fs. ss_trace s = es @ EvShutdownCore # fs \<longrightarrow> \<not> fst (attached es)) \<and>
    (\<forall>v x k. ss_vk s = Some v \<longrightarrow> pr_shown v = CoreTexture x k \<or> pr_shown v = CoreImage x k \<longrightarrow> k = ss_serial s)"
proof -
  have inv: "core_inv s" using session_reach_inv [OF assms] by (simp add: session_inv_def)
  then have "snd (attached (ss_trace s))" by (simp add: core_inv_def)
  then have "\<forall>es fs. ss_trace s = es @ EvShutdownCore # fs \<longrightarrow> \<not> fst (attached es)"
    using attached_shutdown by auto
  moreover have "\<forall>v x k. ss_vk s = Some v \<longrightarrow> pr_shown v = CoreTexture x k \<or> pr_shown v = CoreImage x k \<longrightarrow> k = ss_serial s"
    using inv by (auto simp: core_inv_def shown_ok_def)
  ultimately show ?thesis using inv by (simp add: core_inv_def)
qed

text \<open>A device with Vulkan, a core that draws with it, and a window.\<close>

definition demo_device :: device where
  "demo_device = \<lparr>dv_vulkan = True, dv_vkPresenter = True, dv_surface = (\<lambda>_. True)\<rparr>"

definition demo_vk_ops :: "bytes gba_core core_ops" where
  "demo_vk_ops = demo_ops\<lparr>co_WantsVulkan := (\<lambda>_. True), co_SystemName := (\<lambda>_. ''DS'')\<rparr>"

definition demo_running :: "bytes gba_core session" where
  "demo_running = fst (BootFirmware demo_vk_ops demo_device (toy_gba, []) (SetSurface demo_device (Some 9) session_new))"

lemma demo_running_reach: "session_reach demo_vk_ops demo_device demo_running"
  unfolding demo_running_def
  by (rule session_reach.step [OF session_reach.step [OF session_reach.new session_step.surface] session_step.boot_firmware])

lemmas [presenter_defs] = SwapCore_def UpdateOutput_def VulkanOutput_def Vulkan_def on_output_def on_vk_def on_gl_def
  OutputIsVulkan_def ReleaseWindow_def SetWindow_def DropExternalFrames_def DropExternalImage_def
  SetTargetRefreshRate_def ss_log_def

lemma demo_running_vk: "\<exists>p. ss_vk demo_running = Some p \<and> pr_window p = Some 9"
  "ss_core demo_running = Some toy_gba" "ss_running demo_running"
  by (simp_all add: demo_running_def BootFirmware_def SetSurface_def next_generation_def presenter_defs demo_device_def
      demo_vk_ops_def session_new_def presenter_new_def Let_def)

theorem session_one_window_witness:
  "\<exists>p. ss_vk demo_running = Some p \<and> Output demo_running = Some p \<and> ss_window demo_running = Some 9"
  using demo_running_vk(1) session_one_window [OF demo_running_reach] by blast

theorem session_core_lifecycle_witness:
  "ss_source demo_running \<and> ss_running demo_running"
  using session_core_lifecycle [OF demo_running_reach] demo_running_vk by simp

section \<open>What the operations do not guarantee\<close>

text \<open>The OpenGL presenter is not told when the core goes: it keeps the texture of the core that is gone.\<close>

definition demo_gl_shown :: "bytes gba_core session" where
  "demo_gl_shown = demo_session\<lparr>ss_gl := Some (presenter_new\<lparr>pr_shown := CoreTexture 5 0\<rparr>)\<rparr>"

lemma gl_texture_outlives_core:
  "ss_core (Stop demo_ops demo_device demo_gl_shown) = None"
  "ss_serial (Stop demo_ops demo_device demo_gl_shown) = 1"
  "map_option pr_shown (ss_gl (Stop demo_ops demo_device demo_gl_shown)) = Some (CoreTexture 5 0)"
  by (simp_all add: Stop_def next_generation_def presenter_defs demo_gl_shown_def demo_session_def session_new_def
      demo_device_def presenter_new_def Let_def)

text \<open>
  The first command of a 3DS load does not look at its number: a game loaded between the moment the
  number is taken and the moment the command runs is closed, and the 3DS game does not start either.
\<close>

lemma threeds_load_closes_newer_game:
  assumes "load (choose_system looks name data) data = (c, [])"
    and "s1 = next_generation s" "s2 = fst (LoadGame ops dv looks load (Some data) name s1)"
    and "s3 = ThreeDs_prepare ops dv library s2" "(s4, message) = ThreeDs_finish ops dv (ss_generation s1) core [] s3"
    and "ss_generation s3 = ss_generation s + 2"
  shows "ss_core s2 = Some c \<and> ss_running s2 \<and> ss_core s4 = None \<and> message = ''Loading was cancelled.''"
proof -
  have core: "ss_core (fst (choose_renderer dv t)) = ss_core t" for t :: "'a session"
  proof -
    have "ss_core (fst (Vulkan dv t)) = ss_core t" by (simp add: Vulkan_def)
    then show ?thesis
      using calls_core(3) [of dv "fst (Vulkan dv t)"]
      by (cases "Vulkan dv t"; cases "snd (Vulkan dv t)") (simp_all add: choose_renderer_def)
  qed
  have "ss_core s2 = Some c" "ss_running s2" using assms(1,3) by (simp_all add: LoadGame_def Let_def)
  moreover have "ss_core s3 = None" using assms(4) by (simp add: ThreeDs_prepare_def Let_def core)
  moreover have "ss_generation s3 \<noteq> ss_generation s1"
    using assms(2,6) by (simp add: next_generation_def)
  ultimately show ?thesis using assms(5) by (simp add: ThreeDs_finish_def)
qed

text \<open>A superseded boot leaves the session as it is.\<close>

lemma threeds_superseded:
  "ss_generation s \<noteq> generation \<Longrightarrow> fst (ThreeDs_finish ops dv generation c err s) = s \<and>
    snd (ThreeDs_finish ops dv generation c err s) \<noteq> []"
  by (simp add: ThreeDs_finish_def)

end
