(* ===== verification/SessionThread.thy ===== *)
theory SessionThread
  imports SessionSafety
begin

text \<open>
  Around the emulation thread's loop: the commands other threads post to it, the directories the app
  needs, and the figures shown to the player.
\<close>

section \<open>Commands\<close>

text \<open>
  \<open>cq_commands\<close> is the shared queue, \<open>cq_todo\<close> what \<open>RunCommands\<close> took and has not run, \<open>cq_done\<close> the
  commands run, marked with whether they went through the queue; \<open>cq_posted\<close> records the queued ones.
\<close>

record 'j command_queue =
  cq_commands :: "'j list"
  cq_todo :: "'j list"
  cq_done :: "(bool \<times> 'j) list"
  cq_posted :: "'j list"

definition cq_new :: "'j command_queue" where
  "cq_new = \<lparr>cq_commands = [], cq_todo = [], cq_done = [], cq_posted = []\<rparr>"

definition Post :: "bool \<Rightarrow> 'j \<Rightarrow> 'j command_queue \<Rightarrow> 'j command_queue" where
  "Post on_thread j q =
     (if on_thread then q\<lparr>cq_done := cq_done q @ [(False, j)]\<rparr>
      else q\<lparr>cq_commands := cq_commands q @ [j], cq_posted := cq_posted q @ [j]\<rparr>)"

definition RunCommands_take :: "'j command_queue \<Rightarrow> 'j command_queue" where
  "RunCommands_take q = q\<lparr>cq_todo := cq_commands q, cq_commands := []\<rparr>"

definition RunCommands_run :: "'j command_queue \<Rightarrow> 'j command_queue" where
  "RunCommands_run q =
     (case cq_todo q of [] \<Rightarrow> q | j # js \<Rightarrow> q\<lparr>cq_todo := js, cq_done := cq_done q @ [(True, j)]\<rparr>)"

text \<open>The emulation thread takes the queue only when it has run all it took before.\<close>

inductive cq_reach :: "'j command_queue \<Rightarrow> bool" where
  new: "cq_reach cq_new"
| post: "cq_reach q \<Longrightarrow> cq_reach (Post on_thread j q)"
| take_all: "cq_reach q \<Longrightarrow> cq_todo q = [] \<Longrightarrow> cq_reach (RunCommands_take q)"
| run: "cq_reach q \<Longrightarrow> cq_reach (RunCommands_run q)"

lemma commands_in_order:
  "cq_reach q \<Longrightarrow> List.map snd (filter fst (cq_done q)) @ cq_todo q @ cq_commands q = cq_posted q"
proof (induction rule: cq_reach.induct)
  case (run q)
  then show ?case by (cases "cq_todo q") (simp_all add: RunCommands_run_def)
qed (simp_all add: cq_new_def Post_def RunCommands_take_def flip: append_assoc)

text \<open>A waiting \<open>Post\<close> returns once its command, the \<open>n\<close>-th posted, has run; then all before it have.\<close>

lemma post_waits:
  assumes "cq_reach q" "n < length (filter fst (cq_done q))"
  shows "take (Suc n) (List.map snd (filter fst (cq_done q))) = take (Suc n) (cq_posted q)"
  using assms(2) commands_in_order [OF assms(1), symmetric] by simp

section \<open>Start\<close>

definition app_directories :: "string list" where
  "app_directories = [''/saves'', ''/states'', ''/backups'', ''/cheats'', ''/sd'', ''/bios'', ''/screenshots'']"

text \<open>The activity is numbered; the first \<open>Init\<close> starts the thread, a later one replaces the activity.\<close>

record app_state =
  app_fs :: fs
  app_started :: bool
  app_activity :: "nat option"
  app_released :: "nat list"

definition Init :: "(string \<Rightarrow> bool) \<Rightarrow> nat \<Rightarrow> string \<Rightarrow> app_state \<Rightarrow> app_state" where
  "Init deny act dir a =
     (let a1 = a\<lparr>app_fs := fold (\<lambda>sub d. snd (MakeDirs deny (dir @ sub) d)) app_directories (app_fs a)\<rparr>
      in if \<not> app_started a1 then a1\<lparr>app_started := True, app_activity := Some act\<rparr>
         else a1\<lparr>app_activity := Some act,
                 app_released := app_released a1 @ (case app_activity a1 of None \<Rightarrow> [] | Some x \<Rightarrow> [x])\<rparr>)"

section \<open>Figures\<close>

record emu_stats =
  es_fps :: rat
  es_speed :: rat
  es_frameTimeMs :: rat
  es_presentFps :: rat
  es_headroom :: rat
  es_status :: int
  es_renderScale :: int
  es_rewindSeconds :: rat
  es_rewindMemoryMb :: rat

definition stats_new :: emu_stats where
  "stats_new = \<lparr>es_fps = 0, es_speed = 0, es_frameTimeMs = 0, es_presentFps = 0, es_headroom = - 1, es_status = 0,
     es_renderScale = 1, es_rewindSeconds = 0, es_rewindMemoryMb = 0\<rparr>"

record stat_clock =
  sk_start :: int
  sk_workMs :: rat
  sk_stats :: emu_stats

definition add_work :: "(rat \<Rightarrow> rat) \<Rightarrow> int \<Rightarrow> stat_clock \<Rightarrow> stat_clock" where
  "add_work fl work k = k\<lparr>sk_workMs := fl (sk_workMs k + fl (of_int work / 1000000))\<rparr>"

text \<open>\<open>free\<close>: the rewind worker does not hold the lock.\<close>

definition update_stats ::
  "'c core_ops \<Rightarrow> (rat \<Rightarrow> rat) \<Rightarrow> (rat \<Rightarrow> rat) \<Rightarrow> int \<Rightarrow> bool \<Rightarrow> perf \<Rightarrow> 'c session \<times> stat_clock \<Rightarrow> 'c session \<times> stat_clock" where
  "update_stats ops fl flf now free p sk =
     (case sk of (s, k) \<Rightarrow>
        case ss_core s of
          None \<Rightarrow> (s, k)
        | Some c \<Rightarrow>
            if now - sk_start k < 1000000000 then (s, k)
            else
              let secs = fl (of_int (now - sk_start k) / 1000000000);
                  fps = flf (fl (of_nat (ss_statFrames s) / secs));
                  st = (sk_stats k)\<lparr>es_fps := fps,
                     es_speed := flf (fl (fl (fps / co_NativeFps ops c) * 100)),
                     es_presentFps := flf (fl (of_nat (ss_statPresents s) / secs)),
                     es_frameTimeMs := (if ss_statFrames s \<noteq> 0 then flf (fl (sk_workMs k / of_nat (ss_statFrames s))) else 0),
                     es_headroom := pf_headroom p, es_status := pf_status p,
                     es_renderScale := co_RenderScale ops (ss_cfg s) c\<rparr>;
                  st' = (if free
                    then st\<lparr>es_rewindSeconds := flf (fl (of_int (int (rb_Count (rw_buf (ss_rewind s))) *
                                GetInt (ss_cfg s) ''rewind.interval'' 6) / co_NativeFps ops c)),
                            es_rewindMemoryMb := flf (flf (of_nat (rb_MemoryUsed (rw_buf (ss_rewind s)))) / 1048576)\<rparr>
                    else st)
              in (s\<lparr>ss_statFrames := 0, ss_statPresents := 0\<rparr>, \<lparr>sk_start = now, sk_workMs = 0, sk_stats = st'\<rparr>))"

text \<open>The loop with its figures; only an active iteration counts.\<close>

definition stats_iteration ::
  "'c core_ops \<Rightarrow> (rat \<Rightarrow> rat) \<Rightarrow> (rat \<Rightarrow> rat) \<Rightarrow> lz4 \<Rightarrow> loop_answers \<Rightarrow> int \<Rightarrow> bool \<Rightarrow>
   ('c session \<times> perf \<times> bool) \<times> stat_clock \<Rightarrow> (('c session \<times> perf \<times> bool) \<times> stat_clock) option" where
  "stats_iteration ops fl flf lz k now free x =
     (case x of ((s, p, wasActive), sk) \<Rightarrow>
        case loop_iteration ops fl flf lz k wasActive (s, p) of
          None \<Rightarrow> None
        | Some (s1, p1, active) \<Rightarrow>
            if \<not> active then Some ((s1, p1, active), sk)
            else (case update_stats ops fl flf now free p1 (s1, add_work fl (la_work k) sk) of
                    (s2, sk2) \<Rightarrow> Some ((s2, p1, active), sk2)))"

lemma update_stats_calm: "session_inv s \<Longrightarrow> session_inv (fst (update_stats ops fl flf now free p (s, k)))"
  by (simp add: update_stats_def Let_def split: option.split)

text \<open>
  The speed shown is the share of the console's own rate, and the frames counted are those shown in the
  figures: without rounding, frames per second times the seconds are the frames run.
\<close>

lemma update_stats_frames:
  assumes "ss_core s = Some c" "1000000000 \<le> now - sk_start k" "update_stats ops (\<lambda>x. x) (\<lambda>x. x) now free p (s, k) = (s', k')"
  shows "es_fps (sk_stats k') * (of_int (now - sk_start k) / 1000000000) = of_nat (ss_statFrames s) \<and>
    ss_statFrames s' = 0 \<and> sk_start k' = now \<and> (0 < co_NativeFps ops c \<longrightarrow>
    es_speed (sk_stats k') * co_NativeFps ops c = 100 * es_fps (sk_stats k'))"
proof -
  have "(of_int (now - sk_start k) :: rat) \<noteq> 0" using assms(2) by simp
  with assms show ?thesis by (cases free) (auto simp: update_stats_def Let_def)
qed

end
