(* ===== verification/ThreeDsAudio.thy ===== *)
theory ThreeDsAudio
  imports SampleRings AudioOut
begin

text \<open>
  Sound of the 3DS engine, \<^verbatim>\<open>AudioBatch\<close>, \<^verbatim>\<open>ReadAudio\<close> and \<^verbatim>\<open>AudioFill\<close> of \<^verbatim>\<open>ThreeDsCore.cpp\<close>: a linear
  resampler from the engine's rate to 48 kHz into a ring of 16384 frames that keeps the newest.
\<close>

section \<open>The resampler\<close>

record td_audio =
  ta_ring :: stereo_ring
  ta_pos :: rat
  ta_prev :: stereo
  ta_skew :: rat
  ta_rate :: rat

definition td_audio_new :: td_audio where
  "td_audio_new = \<lparr>ta_ring = stereo_new kRingFrames, ta_pos = 0, ta_prev = (0, 0), ta_skew = 1, ta_rate = 32728\<rparr>"

definition kOutputRate :: rat where "kOutputRate = 48000"

definition resample_step :: "(rat \<Rightarrow> rat) \<Rightarrow> td_audio \<Rightarrow> rat" where
  "resample_step fl a = fl (fl (ta_rate a * ta_skew a) / kOutputRate)"

definition mix_frame :: "(rat \<Rightarrow> rat) \<Rightarrow> stereo \<Rightarrow> stereo \<Rightarrow> rat \<Rightarrow> stereo" where
  "mix_frame fl prev cur pos =
     (word_of_int (lerp fl (sint (fst prev)) (sint (fst cur)) pos),
      word_of_int (lerp fl (sint (snd prev)) (sint (snd cur)) pos))"

text \<open>The inner loop of one input frame; \<open>None\<close> is a loop that never ends.\<close>

partial_function (option) resample_loop ::
  "(rat \<Rightarrow> rat) \<Rightarrow> rat \<Rightarrow> stereo \<Rightarrow> stereo \<Rightarrow> rat \<Rightarrow> stereo_ring \<Rightarrow> (rat \<times> stereo_ring) option" where
  "resample_loop fl step prev cur pos r =
     (if pos < 1
      then resample_loop fl step prev cur (fl (pos + step)) (stereo_put kRingFrames (mix_frame fl prev cur pos) r)
      else Some (pos, r))"

fun batch_loop :: "(rat \<Rightarrow> rat) \<Rightarrow> rat \<Rightarrow> stereo list \<Rightarrow> td_audio \<Rightarrow> td_audio option" where
  "batch_loop fl step [] a = Some a"
| "batch_loop fl step (cur # frames) a =
     (case resample_loop fl step (ta_prev a) cur (ta_pos a) (ta_ring a) of
        None \<Rightarrow> None
      | Some (pos, r) \<Rightarrow> batch_loop fl step frames (a\<lparr>ta_ring := r, ta_pos := fl (pos - 1), ta_prev := cur\<rparr>))"

definition AudioBatch :: "(rat \<Rightarrow> rat) \<Rightarrow> stereo list \<Rightarrow> td_audio \<Rightarrow> (td_audio \<times> nat) option" where
  "AudioBatch fl frames a =
     map_option (\<lambda>a'. (a', length frames)) (batch_loop fl (resample_step fl a) frames a)"

definition td_ReadAudio :: "nat \<Rightarrow> td_audio \<Rightarrow> td_audio \<times> stereo list" where
  "td_ReadAudio frames a = (case stereo_get kRingFrames frames (ta_ring a) of (r, xs) \<Rightarrow> (a\<lparr>ta_ring := r\<rparr>, xs))"

definition td_AudioFill :: "td_audio \<Rightarrow> nat" where
  "td_AudioFill a = sr_level (ta_ring a)"

section \<open>Lemmas\<close>

lemma rounds_add_small:
  assumes "rounds fl" "1 / 16 \<le> step" "step \<le> 2 ^ 20" "0 \<le> pos" "pos \<le> 1"
  shows "pos + 1 / 32 \<le> fl (pos + step)"
proof -
  have "\<bar>pos + step\<bar> \<le> 2 ^ 21" using assms(2-5) by (simp add: abs_le_iff)
  moreover have "\<bar>fl (pos + step) - (pos + step)\<bar> \<le> (\<bar>pos + step\<bar> + 1) / 2 ^ 50"
    using assms(1) calculation unfolding rounds_def by auto
  ultimately have "\<bar>fl (pos + step) - (pos + step)\<bar> \<le> 1 / 32" by (simp add: field_simps)
  with assms(2) show ?thesis by linarith
qed

text \<open>An output frame lies between the two input frames around it.\<close>

definition between_frames :: "stereo \<Rightarrow> stereo \<Rightarrow> stereo \<Rightarrow> bool" where
  "between_frames a b x \<longleftrightarrow>
     min (sint (fst a)) (sint (fst b)) \<le> sint (fst x) \<and> sint (fst x) \<le> max (sint (fst a)) (sint (fst b)) \<and>
     min (sint (snd a)) (sint (snd b)) \<le> sint (snd x) \<and> sint (snd x) \<le> max (sint (snd a)) (sint (snd b))"

lemma lerp_i16:
  assumes "rounds fl" "0 \<le> t" "t \<le> 1"
  shows "min (sint (a :: i16)) (sint (b :: i16)) \<le> sint (word_of_int (lerp fl (sint a) (sint b) t) :: i16) \<and>
    sint (word_of_int (lerp fl (sint a) (sint b) t) :: i16) \<le> max (sint a) (sint b)"
proof -
  have l: "min (sint a) (sint b) \<le> lerp fl (sint a) (sint b) t \<and> lerp fl (sint a) (sint b) t \<le> max (sint a) (sint b)"
    using sint_i16 [of a] sint_i16 [of b] assms(2,3) by (intro lerp_between [OF assms(1)]) (auto simp: abs_le_iff)
  moreover from this have "sint (word_of_int (lerp fl (sint a) (sint b) t) :: i16) = lerp fl (sint a) (sint b) t"
    using sint_i16 [of a] sint_i16 [of b]
    by (intro sint_word_of_int_i16) (auto simp: min_def max_def split: if_splits)
  ultimately show ?thesis by simp
qed

lemma mix_frame_between: "rounds fl \<Longrightarrow> 0 \<le> t \<Longrightarrow> t \<le> 1 \<Longrightarrow> between_frames a b (mix_frame fl a b t)"
  by (simp add: between_frames_def mix_frame_def lerp_i16)

text \<open>
  The loop puts mixed frames into the ring until the position has passed the frame; in exact arithmetic
  each of them moves the position on by one step.
\<close>

lemma resample_loop_ok:
  assumes "rounds fl" "1 / 16 \<le> step" "step \<le> 2 ^ 20" "0 \<le> pos" "1 \<le> pos + of_nat k / 32"
  shows "\<exists>pos' xs. resample_loop fl step prev cur pos r = Some (pos', fold (stereo_put kRingFrames) xs r) \<and>
    1 \<le> pos' \<and> (\<forall>x \<in> set xs. between_frames prev cur x) \<and>
    (fl = (\<lambda>x. x) \<longrightarrow> pos' = pos + of_nat (length xs) * step \<and> (pos < max 1 step \<longrightarrow> pos' - 1 < max 1 step))"
  using assms(4,5)
proof (induction k arbitrary: pos r)
  case 0
  then show ?case
    by (intro exI [of _ pos] exI [of _ "[]"]) (auto simp: resample_loop.simps less_max_iff_disj)
next
  case (Suc k)
  show ?case
  proof (cases "pos < 1")
    case True
    have next_pos: "pos + 1 / 32 \<le> fl (pos + step)" using rounds_add_small [OF assms(1-3) Suc.prems(1)] True by simp
    then have "0 \<le> fl (pos + step)" "1 \<le> fl (pos + step) + of_nat k / 32"
      using Suc.prems by (simp_all add: field_simps)
    from Suc.IH [OF this, of "stereo_put kRingFrames (mix_frame fl prev cur pos) r"] obtain pos' xs where
      ih: "resample_loop fl step prev cur (fl (pos + step)) (stereo_put kRingFrames (mix_frame fl prev cur pos) r) =
        Some (pos', fold (stereo_put kRingFrames) (mix_frame fl prev cur pos # xs) r)" "1 \<le> pos'"
      "\<forall>x \<in> set xs. between_frames prev cur x"
      "fl = (\<lambda>x. x) \<longrightarrow> pos' = pos + step + of_nat (length xs) * step \<and>
        (pos + step < max 1 step \<longrightarrow> pos' - 1 < max 1 step)" by auto
    have exact: "pos' - 1 < max 1 step" if "fl = (\<lambda>x. x)"
    proof (cases "pos + step < 1")
      case False
      with ih(1) that have "pos' = pos + step" by (simp add: resample_loop.simps)
      with True show ?thesis by simp
    qed (use ih(4) that in auto)
    have "between_frames prev cur (mix_frame fl prev cur pos)"
      using mix_frame_between [OF assms(1) Suc.prems(1)] True by simp
    with ih True exact show ?thesis
      by (intro exI [of _ pos'] exI [of _ "mix_frame fl prev cur pos # xs"])
        (auto simp: resample_loop.simps [of _ _ _ _ pos] algebra_simps)
  next
    case False
    with Suc.prems show ?thesis
      by (intro exI [of _ pos] exI [of _ "[]"]) (auto simp: resample_loop.simps less_max_iff_disj)
  qed
qed

lemma batch_loop_ok:
  assumes "rounds fl" "1 / 16 \<le> step" "step \<le> 2 ^ 20" "0 \<le> ta_pos a"
  shows "\<exists>a' xs. batch_loop fl step frames a = Some a' \<and> ta_ring a' = fold (stereo_put kRingFrames) xs (ta_ring a) \<and>
    0 \<le> ta_pos a' \<and>
    (\<forall>x \<in> set xs. \<exists>i < length frames. between_frames ((ta_prev a # frames) ! i) (frames ! i) x) \<and>
    (fl = (\<lambda>x. x) \<longrightarrow> ta_pos a' = ta_pos a + of_nat (length xs) * step - of_nat (length frames) \<and>
      (ta_pos a < max 1 step \<longrightarrow> ta_pos a' < max 1 step))"
  using assms(4)
proof (induction frames arbitrary: a)
  case (Cons cur frames)
  have "1 \<le> ta_pos a + of_nat 32 / 32" using Cons.prems by simp
  from resample_loop_ok [OF assms(1-3) Cons.prems this, of "ta_prev a" cur "ta_ring a"] obtain pos xs where
    l: "resample_loop fl step (ta_prev a) cur (ta_pos a) (ta_ring a) = Some (pos, fold (stereo_put kRingFrames) xs (ta_ring a))"
    "1 \<le> pos" "\<forall>x \<in> set xs. between_frames (ta_prev a) cur x"
    "fl = (\<lambda>x. x) \<longrightarrow> pos = ta_pos a + of_nat (length xs) * step \<and> (ta_pos a < max 1 step \<longrightarrow> pos - 1 < max 1 step)"
    by blast
  let ?b = "a\<lparr>ta_ring := fold (stereo_put kRingFrames) xs (ta_ring a), ta_pos := fl (pos - 1), ta_prev := cur\<rparr>"
  have "0 \<le> ta_pos ?b" using rounds_mono [OF assms(1), of 0 "pos - 1"] rounds_int [OF assms(1), of 0] l(2) by simp
  from Cons.IH [OF this] obtain a' ys where
    b: "batch_loop fl step frames ?b = Some a'" "ta_ring a' = fold (stereo_put kRingFrames) (xs @ ys) (ta_ring a)"
    "0 \<le> ta_pos a'" "\<forall>x \<in> set ys. \<exists>i < length frames. between_frames ((cur # frames) ! i) (frames ! i) x"
    "fl = (\<lambda>x. x) \<longrightarrow> ta_pos a' = pos - 1 + of_nat (length ys) * step - of_nat (length frames) \<and>
      (pos - 1 < max 1 step \<longrightarrow> ta_pos a' < max 1 step)" by auto
  have "\<exists>i < length (cur # frames). between_frames ((ta_prev a # cur # frames) ! i) ((cur # frames) ! i) x"
    if "x \<in> set (xs @ ys)" for x
  proof (cases "x \<in> set ys")
    case True
    with b(4) obtain i where "i < length frames" "between_frames ((cur # frames) ! i) (frames ! i) x" by blast
    then show ?thesis by (intro exI [of _ "Suc i"]) simp
  qed (use that l(3) in auto)
  with l(1,4) b show ?case
    by (intro exI [of _ a'] exI [of _ "xs @ ys"]) (auto simp: algebra_simps)
qed (auto intro: exI [of _ "[]"])

section \<open>Properties\<close>

text \<open>
  The resampler: whatever the rounding, it takes every frame of the engine, makes only frames
  between two neighbouring ones, and the ring keeps the newest 16384 in order; the audio thread then
  gets the oldest of those.  In exact arithmetic it makes no drift: over any number of batches the
  frames made are the frames due, up to the position kept for the next batch.
\<close>

theorem td_resampler:
  assumes "rounds fl" "1 / 16 \<le> resample_step fl a" "resample_step fl a \<le> 2 ^ 20" "0 \<le> ta_pos a"
    and "stereo_inv kRingFrames (ta_ring a)" "q = stereo_fifo kRingFrames (ta_ring a)"
  shows "\<exists>a' xs. AudioBatch fl frames a = Some (a', length frames) \<and>
    stereo_fifo kRingFrames (ta_ring a') = keep_last 16384 (q @ xs) \<and>
    snd (td_ReadAudio n a') = take n (keep_last 16384 (q @ xs)) \<and> td_AudioFill a' = min 16384 (length q + length xs) \<and>
    (\<forall>x \<in> set xs. \<exists>i < length frames. between_frames ((ta_prev a # frames) ! i) (frames ! i) x) \<and>
    (fl = (\<lambda>x. x) \<longrightarrow>
      of_nat (length xs) * resample_step fl a = of_nat (length frames) + ta_pos a' - ta_pos a \<and>
      0 \<le> ta_pos a' \<and> (ta_pos a < max 1 (resample_step fl a) \<longrightarrow> ta_pos a' < max 1 (resample_step fl a)))"
proof -
  obtain a' xs where b: "batch_loop fl (resample_step fl a) frames a = Some a'"
    "ta_ring a' = fold (stereo_put kRingFrames) xs (ta_ring a)" "0 \<le> ta_pos a'"
    "\<forall>x \<in> set xs. \<exists>i < length frames. between_frames ((ta_prev a # frames) ! i) (frames ! i) x"
    "fl = (\<lambda>x. x) \<longrightarrow> ta_pos a' = ta_pos a + of_nat (length xs) * resample_step fl a - of_nat (length frames) \<and>
      (ta_pos a < max 1 (resample_step fl a) \<longrightarrow> ta_pos a' < max 1 (resample_step fl a))"
    using batch_loop_ok [OF assms(1-4)] by blast
  have ring: "stereo_inv kRingFrames (ta_ring a')" "stereo_fifo kRingFrames (ta_ring a') = keep_last 16384 (q @ xs)"
    using n3_ring.put_batch [OF assms(5), of xs] b(2) assms(6) by (simp_all add: kRingFrames_def)
  have "snd (td_ReadAudio n a') = take n (keep_last 16384 (q @ xs))"
    using stereo_get_fifo [OF ring(1), of n] ring(2) by (simp add: td_ReadAudio_def case_prod_beta)
  moreover have "td_AudioFill a' = min 16384 (length q + length xs)"
    using stereo_fifo_length [of kRingFrames "ta_ring a'"] ring(2) by (simp add: td_AudioFill_def)
  ultimately show ?thesis using b ring(2) by (intro exI [of _ a'] exI [of _ xs]) (auto simp: AudioBatch_def)
qed

theorem td_resampler_witness:
  "\<exists>a' xs. AudioBatch (\<lambda>x. x) (replicate 32728 (5, 7)) td_audio_new = Some (a', 32728) \<and>
    of_nat (length xs) * (32728 / 48000 :: rat) = 32728 + ta_pos a' \<and>
    snd (td_ReadAudio 3 a') = take 3 (keep_last 16384 xs)"
proof -
  have new: "stereo_inv kRingFrames (ta_ring td_audio_new)" "stereo_fifo kRingFrames (ta_ring td_audio_new) = []"
    using stereo_new_inv [of kRingFrames] by (simp_all add: td_audio_new_def kRingFrames_def)
  have step: "resample_step (\<lambda>x. x) td_audio_new = 32728 / 48000" "ta_pos td_audio_new = 0"
    by (simp_all add: resample_step_def td_audio_new_def kOutputRate_def)
  show ?thesis
    using td_resampler [OF rounds_exact _ _ _ new(1) new(2) [symmetric], of "replicate 32728 (5, 7)" 3] step
    by auto
qed

end
