(* ===== verification/ThreeDsVfs.thy ===== *)
theory ThreeDsVfs
  imports SessionInput "HOL-Library.Sublist"
begin

text \<open>
  File access of the 3DS engine, the \<^verbatim>\<open>Vfs\<close> functions of \<^verbatim>\<open>ThreeDsCore.cpp\<close>: the game's path is served
  from our descriptor, read-only; every handle has its own position.  A file is its contents; the
  kernel's answers to \<^verbatim>\<open>pread\<close> and \<^verbatim>\<open>pwrite\<close> are arguments.
\<close>

section \<open>Handles\<close>

record vfs_handle =
  vh_file :: nat
  vh_pos :: int
  vh_path :: string

text \<open>
  What \<open>VfsOpen\<close> does: which file it opens and how.  \<open>romLink\<close> and \<open>romFile\<close> are those of the active
  core, if there is one; \<open>opened\<close> is the file the kernel opens for a path and flags, if it does.
\<close>

datatype open_flags = ORdOnly | OCreate bool bool

definition vfs_flags :: "bool \<Rightarrow> bool \<Rightarrow> bool \<Rightarrow> open_flags" where
  "vfs_flags wr rd update = (if \<not> wr then ORdOnly else OCreate rd (\<not> update))"

definition IsRomPath :: "string \<Rightarrow> string \<Rightarrow> bool" where
  "IsRomPath romLink path \<longleftrightarrow> romLink \<noteq> [] \<and> romLink = path"

definition VfsOpen ::
  "(string \<times> nat option) option \<Rightarrow> (string \<Rightarrow> open_flags \<Rightarrow> nat option) \<Rightarrow> string option \<Rightarrow> bool \<Rightarrow> bool \<Rightarrow> bool \<Rightarrow>
   vfs_handle option" where
  "VfsOpen active opened path rd wr update =
     (case path of
        None \<Rightarrow> None
      | Some p \<Rightarrow>
          (case (case active of
                   Some (romLink, romFile) \<Rightarrow>
                     if IsRomPath romLink p then (if wr then None else Some romFile) else Some (opened p (vfs_flags wr rd update))
                 | None \<Rightarrow> Some (opened p (vfs_flags wr rd update))) of
             Some (Some f) \<Rightarrow> Some \<lparr>vh_file = f, vh_pos = 0, vh_path = p\<rparr>
           | _ \<Rightarrow> None))"

definition VfsTell :: "vfs_handle \<Rightarrow> int" where
  "VfsTell h = vh_pos h"

text \<open>\<open>size\<close> is what \<^verbatim>\<open>fstat\<close> says, \<open>None\<close> when it fails.\<close>

definition VfsSize :: "int option \<Rightarrow> int" where
  "VfsSize st = (case st of None \<Rightarrow> - 1 | Some sz \<Rightarrow> sz)"

datatype whence = SeekStart | SeekCurrent | SeekEnd

definition VfsSeek :: "int option \<Rightarrow> vfs_handle \<Rightarrow> int \<Rightarrow> whence \<Rightarrow> vfs_handle \<times> int" where
  "VfsSeek st h offset w =
     (let base = (case w of SeekCurrent \<Rightarrow> vh_pos h | SeekEnd \<Rightarrow> VfsSize st | SeekStart \<Rightarrow> 0) in
      if base < 0 \<or> base + offset < 0 then (h, - 1)
      else (h\<lparr>vh_pos := base + offset\<rparr>, 0))"

section \<open>Reading and writing\<close>

text \<open>
  The loop of \<open>VfsRead\<close>: the bytes read and whether it ended without an error.  \<open>None\<close> when the
  kernel's answers end before the loop does.
\<close>

fun vfs_read_loop :: "pread_answer list \<Rightarrow> bytes \<Rightarrow> nat \<Rightarrow> nat \<Rightarrow> bytes \<Rightarrow> (bytes \<times> bool) option" where
  "vfs_read_loop as content pos len got =
     (if length got \<ge> len then Some (got, True)
      else case as of
             [] \<Rightarrow> None
           | PInterrupted # as' \<Rightarrow> vfs_read_loop as' content pos len got
           | PError # as' \<Rightarrow> Some (got, False)
           | PRead k # as' \<Rightarrow>
               let new = segment content (pos + length got) (min k (len - length got))
               in if new = [] then Some (got, True) else vfs_read_loop as' content pos len (got @ new))"

declare vfs_read_loop.simps [simp del]

text \<open>After an error what was read so far is reported, but the position stays.\<close>

definition VfsRead :: "pread_answer list \<Rightarrow> bytes \<Rightarrow> vfs_handle \<Rightarrow> nat \<Rightarrow> (vfs_handle \<times> bytes \<times> int) option" where
  "VfsRead as content h len =
     (case vfs_read_loop as content (nat (vh_pos h)) len [] of
        None \<Rightarrow> None
      | Some (got, False) \<Rightarrow> Some (h, got, if got \<noteq> [] then int (length got) else - 1)
      | Some (got, True) \<Rightarrow> Some (h\<lparr>vh_pos := vh_pos h + int (length got)\<rparr>, got, int (length got)))"

text \<open>\<^verbatim>\<open>pwrite\<close> at a position beyond the end fills the gap with zeros.\<close>

definition pwrite :: "bytes \<Rightarrow> nat \<Rightarrow> bytes \<Rightarrow> bytes" where
  "pwrite content pos new = splice (content @ replicate (pos + length new - length content) 0) pos new"

fun vfs_write_loop :: "pread_answer list \<Rightarrow> bytes \<Rightarrow> nat \<Rightarrow> bytes \<Rightarrow> nat \<Rightarrow> (bytes \<times> nat \<times> bool) option" where
  "vfs_write_loop as content pos buf sent =
     (if sent \<ge> length buf then Some (content, sent, True)
      else case as of
             [] \<Rightarrow> None
           | PInterrupted # as' \<Rightarrow> vfs_write_loop as' content pos buf sent
           | PError # as' \<Rightarrow> Some (content, sent, False)
           | PRead k # as' \<Rightarrow>
               let new = segment buf sent (min k (length buf - sent))
               in if new = [] then Some (content, sent, False)
                  else vfs_write_loop as' (pwrite content (pos + sent) new) pos buf (sent + length new))"

declare vfs_write_loop.simps [simp del]

definition VfsWrite :: "pread_answer list \<Rightarrow> bytes \<Rightarrow> vfs_handle \<Rightarrow> bytes \<Rightarrow> (vfs_handle \<times> bytes \<times> int) option" where
  "VfsWrite as content h buf =
     (case vfs_write_loop as content (nat (vh_pos h)) buf 0 of
        None \<Rightarrow> None
      | Some (content', n, False) \<Rightarrow> Some (h, content', if n > 0 then int n else - 1)
      | Some (content', n, True) \<Rightarrow> Some (h\<lparr>vh_pos := vh_pos h + int n\<rparr>, content', int n))"

section \<open>Lemmas\<close>

lemma prefix_take: "prefix xs ys \<Longrightarrow> xs = take (length xs) ys"
  by (auto simp: prefix_def)

lemma prefix_append_take: "prefix xs ys \<Longrightarrow> prefix (xs @ take m (drop (length xs) ys)) ys"
  by (auto simp: prefix_def) (metis append_take_drop_id)

lemma vfs_read_loop_prefix:
  "vfs_read_loop as content pos len got = Some (r, ok) \<Longrightarrow> prefix got (drop pos content) \<Longrightarrow>
     length got \<le> len \<Longrightarrow>
     prefix r (drop pos content) \<and> length r \<le> len \<and> (PError \<notin> set as \<longrightarrow> ok) \<and>
     (ok \<and> PRead 0 \<notin> set as \<longrightarrow> r = take len (drop pos content))"
proof (induction as content pos len got rule: vfs_read_loop.induct)
  case (1 as content pos len got)
  show ?case
  proof (cases "length got \<ge> len")
    case True
    with "1.prems"(1) have r: "r = got" "ok" by (simp_all add: vfs_read_loop.simps [of as])
    have "got = take len (drop pos content)"
      using prefix_take [OF "1.prems"(2)] True "1.prems"(3) le_antisym by metis
    with r True "1.prems"(2,3) show ?thesis by simp
  next
    case False
    show ?thesis
    proof (cases as)
      case Nil
      with "1.prems"(1) False show ?thesis by (simp add: vfs_read_loop.simps [of "[]"])
    next
      case (Cons a as')
      show ?thesis
      proof (cases a)
        case (PRead k)
        let ?new = "segment content (pos + length got) (min k (len - length got))"
        have new: "?new = take (min k (len - length got)) (drop (length got) (drop pos content))"
          by (simp add: segment_def add.commute)
        show ?thesis
        proof (cases "?new = []")
          case True
          then have r: "r = got" "ok" and short: "k \<noteq> 0 \<longrightarrow> length (drop pos content) \<le> length got"
            using "1.prems"(1) False Cons PRead new by (auto simp: vfs_read_loop.simps [of "_ # _"])
          obtain zs where zs: "drop pos content = got @ zs" using "1.prems"(2) by (auto simp: prefix_def)
          have "zs = []" if "k \<noteq> 0" using short that arg_cong [OF zs, of length] by simp
          then have "r = take len (drop pos content)" if "k \<noteq> 0" using r(1) that zs "1.prems"(3) by simp
          with r "1.prems"(2,3) Cons PRead show ?thesis by (cases "k = 0") simp_all
        next
          case more: False
          have step: "vfs_read_loop as' content pos len (got @ ?new) = Some (r, ok)"
            using "1.prems"(1) False Cons PRead more by (simp add: vfs_read_loop.simps [of "_ # _"] Let_def)
          have eq: "prefix (got @ ?new) (drop pos content)"
            unfolding new by (rule prefix_append_take [OF "1.prems"(2)])
          have le: "length (got @ ?new) \<le> len" using False by (simp add: new)
          show ?thesis using "1.IH"(1) [OF False Cons PRead refl more step eq le] Cons by simp
        qed
      next
        case PInterrupted
        with "1.prems"(1) False Cons have "vfs_read_loop as' content pos len got = Some (r, ok)"
          by (simp add: vfs_read_loop.simps [of "_ # _"])
        from "1.IH"(2) [OF False Cons PInterrupted this "1.prems"(2,3)] Cons show ?thesis by simp
      next
        case PError
        with "1.prems" False Cons show ?thesis by (auto simp: vfs_read_loop.simps [of "_ # _"])
      qed
    qed
  qed
qed

section \<open>Properties\<close>

text \<open>
  What the engine reads through a handle is the file at the handle's own position: every byte
  reported is the file's byte there, and without an error the read is complete up to the end of the
  file and the position moves over it; seeking there first gives any part of the file.
\<close>

theorem vfs_read_exact:
  assumes "VfsSeek st h offset SeekStart = (h1, 0)" "VfsRead as content h1 len = Some (h2, got, n)"
  shows "prefix got (drop (nat offset) content) \<and> length got \<le> len \<and>
    vh_file h2 = vh_file h \<and> vh_path h2 = vh_path h \<and>
    (PError \<notin> set as \<and> PRead 0 \<notin> set as \<longrightarrow>
       got = take len (drop (nat offset) content) \<and> n = int (length got) \<and> VfsTell h2 = offset + int (length got))"
proof -
  have h1: "vh_pos h1 = offset" "vh_file h1 = vh_file h" "vh_path h1 = vh_path h"
    using assms(1) by (auto simp: VfsSeek_def Let_def split: if_splits)
  obtain got' ok where l: "vfs_read_loop as content (nat offset) len [] = Some (got', ok)"
    using assms(2) by (cases "vfs_read_loop as content (nat (vh_pos h1)) len []") (auto simp: VfsRead_def h1(1))
  have "got' = got \<and> vh_file h2 = vh_file h \<and> vh_path h2 = vh_path h \<and>
      (ok \<longrightarrow> n = int (length got) \<and> VfsTell h2 = offset + int (length got))"
    using assms(2) h1 l by (cases ok) (auto simp: VfsRead_def VfsTell_def)
  with vfs_read_loop_prefix [OF l] show ?thesis by auto
qed

theorem vfs_read_exact_witness:
  "\<exists>h2 got. VfsRead [PRead 1, PInterrupted, PRead 9] [1, 2, 3, 4] (fst (VfsSeek None \<lparr>vh_file = 3, vh_pos = 9, vh_path = ''/a''\<rparr> 1 SeekStart)) 2
      = Some (h2, got, 2) \<and> got = [2, 3] \<and> VfsTell h2 = 3"
proof -
  let ?h = "\<lparr>vh_file = 3, vh_pos = 9, vh_path = ''/a''\<rparr>"
  have s: "VfsSeek None ?h 1 SeekStart = (?h\<lparr>vh_pos := 1\<rparr>, 0)" by (simp add: VfsSeek_def)
  have "map_option (\<lambda>(h, got, n). n) (VfsRead [PRead 1, PInterrupted, PRead 9] [1, 2, 3, 4] (?h\<lparr>vh_pos := 1\<rparr>) 2) = Some 2"
    by code_simp
  then obtain h2 got where r: "VfsRead [PRead 1, PInterrupted, PRead 9] [1, 2, 3, 4] (?h\<lparr>vh_pos := 1\<rparr>) 2 = Some (h2, got, 2)"
    by auto
  from vfs_read_exact [OF s r] r s show ?thesis by (auto simp: numeral_2_eq_2)
qed

text \<open>
  After a partial read that ends with an error, the bytes are reported but the position stays where it
  was: the next read gives the same bytes again.  Writing behaves alike.
\<close>

lemma vfs_partial_read_repeats:
  "VfsRead [PRead 2, PError] [1, 2, 3, 4] \<lparr>vh_file = 3, vh_pos = 0, vh_path = ''/a''\<rparr> 4 =
     Some (\<lparr>vh_file = 3, vh_pos = 0, vh_path = ''/a''\<rparr>, [1, 2], 2)"
  "map_option (\<lambda>(h, c, n). (vh_pos h, c, n))
     (VfsWrite [PRead 2, PError] [] \<lparr>vh_file = 3, vh_pos = 0, vh_path = ''/a''\<rparr> [5, 6, 7]) = Some (0, [5, 6], 2)"
  by code_simp+

end
