(* ===== verification/DecText.thy ===== *)
theory DecText
  imports HexText
begin

text \<open>
  Decimal text as \<^verbatim>\<open>std::to_string\<close> writes it and \<^verbatim>\<open>atoi\<close> reads it.
\<close>

fun dec_nat :: "nat \<Rightarrow> string" where
  "dec_nat n = (if n < 10 then [char_of (48 + n)] else dec_nat (n div 10) @ [char_of (48 + n mod 10)])"

declare dec_nat.simps [simp del]

definition to_string :: "int \<Rightarrow> string" where
  "to_string i = (if i < 0 then CHR ''-'' # dec_nat (nat (- i)) else dec_nat (nat i))"

definition is_digit :: "char \<Rightarrow> bool" where
  "is_digit c \<longleftrightarrow> 48 \<le> (of_char c :: nat) \<and> (of_char c :: nat) \<le> 57"

definition digit_val :: "char \<Rightarrow> nat" where
  "digit_val c = of_char c - 48"

definition read_digits :: "string \<Rightarrow> nat" where
  "read_digits s = foldl (\<lambda>n c. 10 * n + digit_val c) 0 (takeWhile is_digit s)"

definition atoi :: "string \<Rightarrow> int" where
  "atoi s =
     (let t = dropWhile isspace s in
      case t of
        [] \<Rightarrow> 0
      | c # cs \<Rightarrow> if c = CHR ''-'' then - int (read_digits cs)
                  else if c = CHR ''+'' then int (read_digits cs) else int (read_digits t))"

lemma digit_char [simp]:
  "d < 10 \<Longrightarrow> is_digit (char_of (48 + d))" "d < 10 \<Longrightarrow> digit_val (char_of (48 + d)) = d"
  by (simp_all add: is_digit_def digit_val_def)

lemma dec_nat_digits: "\<forall>c \<in> set (dec_nat n). is_digit c"
  by (induction n rule: dec_nat.induct) (subst dec_nat.simps, auto)

lemma dec_nat_not_Nil [simp]: "dec_nat n \<noteq> []"
  by (subst dec_nat.simps) simp

lemma read_dec_nat [simp]: "read_digits (dec_nat n) = n"
proof (induction n rule: dec_nat.induct)
  case (1 n)
  have all: "takeWhile is_digit (dec_nat m) = dec_nat m" for m
    using dec_nat_digits by (simp add: takeWhile_eq_all_conv)
  have "foldl (\<lambda>n c. 10 * n + digit_val c) 0 (dec_nat n) = n"
  proof (cases "n < 10")
    case False
    with 1 have "foldl (\<lambda>n c. 10 * n + digit_val c) 0 (dec_nat (n div 10)) = n div 10"
      by (simp add: read_digits_def all)
    with False show ?thesis by (subst dec_nat.simps) simp
  qed (subst dec_nat.simps, simp)
  then show ?case by (simp add: read_digits_def all)
qed

lemma digit_not_space: "is_digit c \<Longrightarrow> \<not> isspace c \<and> c \<noteq> CHR ''-'' \<and> c \<noteq> CHR ''+''"
  by (auto simp: is_digit_def isspace_def)

lemma atoi_digits: "ds = c # cs \<Longrightarrow> is_digit c \<Longrightarrow> atoi ds = int (read_digits ds)"
  using digit_not_space [of c] by (simp add: atoi_def)

lemma atoi_minus: "atoi (CHR ''-'' # ds) = - int (read_digits ds)"
proof -
  have "\<not> isspace (CHR ''-'')" by code_simp
  then show ?thesis by (simp add: atoi_def)
qed

lemma atoi_to_string [simp]: "atoi (to_string i) = i"
proof (cases "i < 0")
  case False
  obtain c cs where d: "dec_nat (nat i) = c # cs" by (cases "dec_nat (nat i)") simp_all
  with dec_nat_digits [of "nat i"] have "is_digit c" by simp
  from atoi_digits [OF d this] False show ?thesis by (simp add: to_string_def)
qed (simp add: to_string_def atoi_minus)

end
