(* ===== verification/ThreeDs.thy ===== *)
theory ThreeDs
  imports ThreeDsAudio ThreeDsVfs DecText CoreTypes Config Session
begin

text \<open>
  The 3DS core, \<^verbatim>\<open>ThreeDsCore.cpp\<close>.  The engine (a libretro library) is a parameter, a record of the
  functions the core resolves from it; a call into the engine gives the engine's next state and the
  callbacks it makes on the way, which the core serves in order.  OpenGL and Vulkan objects are
  numbered, 0 is none; descriptors are numbers, \<open>- 1\<close> is none.
\<close>

section \<open>The engine\<close>

record geometry =
  base_width :: nat
  base_height :: nat
  max_width :: nat
  max_height :: nat

text \<open>The environment commands, with what the engine passes in.\<close>

datatype env_cmd =
    GetLogInterface | GetSystemDirectory | GetSaveDirectory | GetCoreOptionsVersion
  | SetCoreOptions "(string \<times> string option \<times> string option) list"
  | SetVariables "(string \<times> string option) list"
  | GetVariable "string option" | GetVariableUpdate | SetPixelFormat int | GetPreferredHwRender
  | GetHwRenderInterface | SetNegotiationInterface | SetHwRender int bool bool | EnvAccepted
  | GetVfsInterface nat | GetJitCapable | GetSensorInterface | SetGeometry geometry
  | SetSystemAvInfo geometry | SetMessage "string option" | EnvShutdown | EnvUnknown

datatype env_answer = Refused | Accepted | AText string | ANumber int | AFlag bool

text \<open>The pixels of a finished frame: a repeated one, one drawn by the hardware, or rows in memory.\<close>

datatype video_data = VNone | VHardware | VSoftware bytes

datatype callback =
    CbEnv env_cmd | CbVideo video_data nat nat nat | CbAudio "stereo list" | CbSetImage "(nat \<times> int) option" nat

record 'e libretro =
  lr_opens :: bool
  lr_has :: "string \<Rightarrow> bool"
  lr_init :: "'e \<Rightarrow> 'e \<times> callback list"
  lr_deinit :: "'e \<Rightarrow> 'e"
  lr_load_game :: "string \<Rightarrow> 'e \<Rightarrow> ('e \<times> callback list) \<times> bool"
  lr_av_info :: "'e \<Rightarrow> geometry \<times> rat"
  lr_context_reset :: "'e \<Rightarrow> 'e \<times> callback list"
  lr_context_destroy :: "'e \<Rightarrow> 'e"
  lr_unload :: "'e \<Rightarrow> 'e"
  lr_reset :: "'e \<Rightarrow> 'e \<times> callback list"
  lr_run :: "core_input \<Rightarrow> 'e \<Rightarrow> 'e \<times> callback list"
  lr_serialize_size :: "'e \<Rightarrow> nat"
  lr_serialize :: "'e \<Rightarrow> bytes option"
  lr_unserialize :: "bytes \<Rightarrow> 'e \<Rightarrow> ('e \<times> callback list) \<times> bool"
  lr_cheat_reset :: "'e \<Rightarrow> 'e"
  lr_cheat_set :: "nat \<Rightarrow> string \<Rightarrow> 'e \<Rightarrow> 'e"
  lr_save_disk_resources :: "'e \<Rightarrow> bool"

definition required_symbols :: "string list" where
  "required_symbols =
     [''retro_set_environment'', ''retro_set_video_refresh'', ''retro_set_audio_sample'',
      ''retro_set_audio_sample_batch'', ''retro_set_input_poll'', ''retro_set_input_state'',
      ''retro_init'', ''retro_deinit'', ''retro_get_system_av_info'', ''retro_reset'',
      ''retro_run'', ''retro_serialize_size'', ''retro_serialize'', ''retro_unserialize'',
      ''retro_load_game'', ''retro_unload_game'', ''retro_cheat_reset'', ''retro_cheat_set'']"

section \<open>State\<close>

text \<open>
  \<open>td_engine\<close> is the engine's state, \<open>td_links\<close> the links in the app's directory, \<open>td_openFds\<close> the
  descriptors the core has open, \<open>td_names\<close> the OpenGL objects it has created and not deleted,
  \<open>td_stops\<close> the reports to the host that the game stopped and \<open>td_cacheSaves\<close> the times at which the
  shader cache was written.
\<close>

record 'e three_ds =
  td_engine :: 'e
  td_handle :: bool
  td_gameLoaded :: bool
  td_lastMessage :: string
  td_romFd :: int
  td_romLink :: string
  td_nextCacheSave :: int
  td_options :: "string \<Rightarrow> string option"
  td_optionsChanged :: bool
  td_hwRequested :: bool
  td_hwReset :: bool
  td_hwDestroy :: bool
  td_useVulkan :: bool
  td_image :: nat
  td_format :: int
  td_warnedSemaphores :: bool
  td_fbo :: nat
  td_fboColor :: nat
  td_fboDepth :: nat
  td_fboW :: int
  td_fboH :: int
  td_outTexture :: nat
  td_outW :: int
  td_outH :: int
  td_frameW :: int
  td_frameH :: int
  td_haveFrame :: bool
  td_softwareFrame :: bool
  td_softPixels :: bytes
  td_input :: core_input
  td_sound :: td_audio
  td_links :: "string list"
  td_openFds :: "int list"
  td_names :: "nat list"
  td_nextName :: nat
  td_stops :: "int list"
  td_cacheSaves :: "int list"

definition td_new :: "'e \<Rightarrow> 'e three_ds" where
  "td_new e = \<lparr>td_engine = e, td_handle = False, td_gameLoaded = False, td_lastMessage = [], td_romFd = - 1,
     td_romLink = [], td_nextCacheSave = 0, td_options = (\<lambda>_. None), td_optionsChanged = False,
     td_hwRequested = False, td_hwReset = False, td_hwDestroy = False, td_useVulkan = False, td_image = 0,
     td_format = 0, td_warnedSemaphores = False, td_fbo = 0, td_fboColor = 0, td_fboDepth = 0, td_fboW = 0,
     td_fboH = 0, td_outTexture = 0, td_outW = 0, td_outH = 0, td_frameW = 400, td_frameH = 480,
     td_haveFrame = False, td_softwareFrame = False, td_softPixels = [], td_input = input_new,
     td_sound = td_audio_new, td_links = [], td_openFds = [], td_names = [], td_nextName = 1, td_stops = [],
     td_cacheSaves = []\<rparr>"

section \<open>Loading the engine and choosing the renderer\<close>

definition LoadLibrary :: "'e libretro \<Rightarrow> 'e three_ds \<Rightarrow> 'e three_ds \<times> bool" where
  "LoadLibrary lr t =
     (if \<not> lr_opens lr then (t\<lparr>td_handle := False\<rparr>, False)
      else (t\<lparr>td_handle := True\<rparr>, list_all (lr_has lr) required_symbols))"

text \<open>
  \<open>duped\<close> is the duplicate of the game's descriptor, negative when that fails; \<open>linked\<close> whether the
  symbolic link can be made, \<open>vulkan\<close> whether the host has a Vulkan context and presenter.
\<close>

definition Prepare ::
  "'e libretro \<Rightarrow> config_store \<Rightarrow> string \<Rightarrow> int \<Rightarrow> bool \<Rightarrow> bool \<Rightarrow> string \<Rightarrow> 'e three_ds \<Rightarrow> 'e three_ds \<times> string" where
  "Prepare lr cfg filesDir duped linked vulkan extension t =
     (if duped < 0 then (t\<lparr>td_romFd := duped\<rparr>, ''The game file could not be opened.'')
      else
        let link = filesDir @ ''/3ds/current'' @ extension;
            target = ''/proc/self/fd/'' @ to_string duped;
            t1 = t\<lparr>td_romFd := duped, td_openFds := duped # td_openFds t, td_links := removeAll link (td_links t)\<rparr>;
            t2 = (if linked then t1\<lparr>td_romLink := link, td_links := link # td_links t1\<rparr> else t1\<lparr>td_romLink := target\<rparr>);
            (t3, ok) = LoadLibrary lr t2
        in if \<not> ok then (t3, ''The 3DS engine could not be loaded.'')
           else (t3\<lparr>td_useVulkan := (GetInt cfg ''3ds.renderer'' 1 = 1 \<and> vulkan)\<rparr>, []))"

definition BootsOffThread :: "'e three_ds \<Rightarrow> bool" where
  "BootsOffThread t = td_useVulkan t"

section \<open>OpenGL objects\<close>

definition DestroyFramebuffer :: "'e three_ds \<Rightarrow> 'e three_ds" where
  "DestroyFramebuffer t =
     t\<lparr>td_names := filter (\<lambda>n. n \<notin> {td_fbo t, td_fboColor t, td_fboDepth t, td_outTexture t}) (td_names t),
       td_fbo := 0, td_fboColor := 0, td_fboDepth := 0, td_outTexture := 0, td_outW := 0, td_outH := 0\<rparr>"

definition CreateFramebuffer :: "int \<Rightarrow> int \<Rightarrow> 'e three_ds \<Rightarrow> 'e three_ds" where
  "CreateFramebuffer w h t =
     (let t1 = DestroyFramebuffer t; n = td_nextName t1
      in t1\<lparr>td_fboW := max w 1, td_fboH := max h 1, td_fboColor := n, td_fboDepth := n + 1, td_fbo := n + 2,
            td_names := [n, n + 1, n + 2] @ td_names t1, td_nextName := n + 3\<rparr>)"

definition CopyToPresenterTexture :: "nat \<Rightarrow> nat \<Rightarrow> 'e three_ds \<Rightarrow> 'e three_ds" where
  "CopyToPresenterTexture w h t =
     (if td_outTexture t = 0 \<or> int w \<noteq> td_outW t \<or> int h \<noteq> td_outH t
      then let n = td_nextName t
           in t\<lparr>td_names := n # filter (\<lambda>k. k \<noteq> td_outTexture t) (td_names t), td_outTexture := n,
                td_outW := int w, td_outH := int h, td_nextName := n + 1\<rparr>
      else t)"

section \<open>Options\<close>

definition texture_filters :: "string list" where
  "texture_filters = [''none'', ''xBRZ'', ''ScaleForce'', ''MMPX'', ''Bicubic'']"

text \<open>The empty text means no override.\<close>

definition scale_option :: "config_store \<Rightarrow> int" where
  "scale_option cfg =
     (let scale = to_int32 (GetInt cfg ''3ds.scale'' 3); capNow = to_int32 (GetInt cfg ''video.scaleCap'' 0)
      in clamp (if capNow > 0 then min scale capNow else scale) 1 8)"

definition OptionOverride :: "config_store \<Rightarrow> bool \<Rightarrow> string \<Rightarrow> string" where
  "OptionOverride cfg vulkan key =
     (if key = ''citra_graphics_api'' then if vulkan then ''Vulkan'' else ''OpenGL''
      else if key = ''citra_resolution_factor'' then to_string (scale_option cfg)
      else if key = ''citra_layout_option'' then
        if \<not> GetBool cfg ''3ds.landscape'' False then ''default''
        else let l = GetInt cfg ''3ds.landscapeLayout'' 0 in
             if l = 1 then ''side_by_side'' else if l = 2 then ''large_screen'' else ''default''
      else if key = ''citra_swap_screen'' then if GetBool cfg ''3ds.swap'' False then ''Bottom'' else ''Top''
      else if key = ''citra_texture_filter'' then
        let i = to_int32 (GetInt cfg ''3ds.textureFilter'' 0) in texture_filters ! (if 0 \<le> i \<and> i < 5 then nat i else 0)
      else if key = ''citra_is_new_3ds'' then if GetBool cfg ''3ds.new3ds'' True then ''New 3DS'' else ''Old 3DS''
      else if key = ''citra_use_cpu_jit'' then ''enabled''
      else if key = ''citra_use_shader_jit'' then ''disabled''
      else if key = ''citra_enable_touch_touchscreen'' then ''enabled''
      else if key = ''citra_enable_mouse_touchscreen'' then ''disabled''
      else if key = ''citra_enable_touch_pointer_timeout'' then ''enabled''
      else if key = ''citra_analog_function'' then ''c_stick''
      else if key = ''citra_enable_motion'' then ''enabled''
      else [])"

text \<open>The default of a version 0 option: the text between the first separator and the first bar.\<close>

fun after_separator :: "string \<Rightarrow> string option" where
  "after_separator [] = None"
| "after_separator [c] = None"
| "after_separator (c # d # cs) = (if c = CHR '';'' \<and> d = CHR '' '' then Some cs else after_separator (d # cs))"

definition variable_default :: "string option \<Rightarrow> string" where
  "variable_default value =
     (let s = (case value of None \<Rightarrow> [] | Some v \<Rightarrow> v);
          values = (case after_separator s of None \<Rightarrow> s | Some r \<Rightarrow> r)
      in takeWhile (\<lambda>c. c \<noteq> CHR ''|'') values)"

definition option_default :: "string option \<times> string option \<Rightarrow> string" where
  "option_default d = (case d of (Some v, _) \<Rightarrow> v | (None, Some v) \<Rightarrow> v | (None, None) \<Rightarrow> [])"

section \<open>Environment\<close>

text \<open>The renderer interfaces of libretro, numbered as in its header.\<close>

definition kHwContextGles3 :: int where "kHwContextGles3 = 4"

definition kHwContextGlesVersion :: int where "kHwContextGlesVersion = 5"

definition kHwContextVulkan :: int where "kHwContextVulkan = 6"

definition kPixelFormatXrgb8888 :: int where "kPixelFormatXrgb8888 = 1"

definition Environment :: "config_store \<Rightarrow> string \<Rightarrow> env_cmd \<Rightarrow> 'e three_ds \<Rightarrow> 'e three_ds \<times> env_answer" where
  "Environment cfg filesDir cmd t =
     (case cmd of
        GetLogInterface \<Rightarrow> (t, Accepted)
      | GetSystemDirectory \<Rightarrow> (t, AText (filesDir @ ''/3ds/system''))
      | GetSaveDirectory \<Rightarrow> (t, AText (filesDir @ ''/3ds/saves''))
      | GetCoreOptionsVersion \<Rightarrow> (t, ANumber 2)
      | SetCoreOptions defs \<Rightarrow>
          (t\<lparr>td_options := fold (\<lambda>(k, d) m. m(k \<mapsto> option_default d)) defs (td_options t)\<rparr>, Accepted)
      | SetVariables vars \<Rightarrow>
          (t\<lparr>td_options := fold (\<lambda>(k, v) m. m(k \<mapsto> variable_default v)) vars (td_options t)\<rparr>, Accepted)
      | GetVariable None \<Rightarrow> (t, Refused)
      | GetVariable (Some key) \<Rightarrow>
          let over = OptionOverride cfg (td_useVulkan t) key;
              t1 = (if over \<noteq> [] then t\<lparr>td_options := (td_options t)(key \<mapsto> over)\<rparr> else t)
          in (t1, case td_options t1 key of None \<Rightarrow> Refused | Some v \<Rightarrow> AText v)
      | GetVariableUpdate \<Rightarrow> (t\<lparr>td_optionsChanged := False\<rparr>, AFlag (td_optionsChanged t))
      | SetPixelFormat f \<Rightarrow> (t, if f = kPixelFormatXrgb8888 then Accepted else Refused)
      | GetPreferredHwRender \<Rightarrow> (t, ANumber (if td_useVulkan t then kHwContextVulkan else kHwContextGles3))
      | GetHwRenderInterface \<Rightarrow> (t, if td_useVulkan t then Accepted else Refused)
      | SetNegotiationInterface \<Rightarrow> (t, if td_useVulkan t then Accepted else Refused)
      | SetHwRender contextType hasReset hasDestroy \<Rightarrow>
          if (td_useVulkan t \<and> contextType = kHwContextVulkan) \<or> contextType = kHwContextGles3 \<or>
             contextType = kHwContextGlesVersion
          then (t\<lparr>td_hwRequested := True, td_hwReset := hasReset, td_hwDestroy := hasDestroy\<rparr>, Accepted)
          else (t, Refused)
      | EnvAccepted \<Rightarrow> (t, Accepted)
      | GetVfsInterface required \<Rightarrow> (t, if required > 2 then Refused else ANumber 2)
      | GetJitCapable \<Rightarrow> (t, AFlag True)
      | GetSensorInterface \<Rightarrow> (t, Accepted)
      | SetGeometry g \<Rightarrow>
          let t1 = t\<lparr>td_frameW := int (base_width g), td_frameH := int (base_height g)\<rparr> in
          (if td_fbo t1 \<noteq> 0 \<and> (int (max_width g) > td_fboW t1 \<or> int (max_height g) > td_fboH t1)
           then CreateFramebuffer (max (int (max_width g)) (td_fboW t1)) (max (int (max_height g)) (td_fboH t1)) t1
           else t1, Accepted)
      | SetSystemAvInfo g \<Rightarrow>
          let t1 = t\<lparr>td_frameW := int (base_width g), td_frameH := int (base_height g)\<rparr> in
          (if int (max_width g) > td_fboW t1 \<or> int (max_height g) > td_fboH t1
           then CreateFramebuffer (int (max_width g)) (int (max_height g)) t1 else t1, Accepted)
      | SetMessage None \<Rightarrow> (t, Accepted)
      | SetMessage (Some m) \<Rightarrow> (t\<lparr>td_lastMessage := m\<rparr>, Accepted)
      | EnvShutdown \<Rightarrow> (t\<lparr>td_stops := td_stops t @ [0]\<rparr>, Accepted)
      | EnvUnknown \<Rightarrow> (t, Refused))"

section \<open>Frames\<close>

text \<open>Rows of \<open>width\<close> pixels of four bytes, \<open>pitch\<close> bytes apart.\<close>

definition software_rows :: "bytes \<Rightarrow> nat \<Rightarrow> nat \<Rightarrow> nat \<Rightarrow> bytes" where
  "software_rows data width height pitch = concat (List.map (\<lambda>y. segment data (y * pitch) (width * 4)) [0..<height])"

definition VideoRefresh :: "video_data \<Rightarrow> nat \<Rightarrow> nat \<Rightarrow> nat \<Rightarrow> 'e three_ds \<Rightarrow> 'e three_ds" where
  "VideoRefresh data width height pitch t =
     (if data = VNone \<or> width = 0 \<or> height = 0 then t
      else
        let t1 = t\<lparr>td_frameW := int width, td_frameH := int height\<rparr> in
        case data of
          VSoftware pixels \<Rightarrow>
            t1\<lparr>td_softPixels := software_rows pixels width height pitch, td_softwareFrame := True, td_haveFrame := True\<rparr>
        | _ \<Rightarrow>
            (if td_useVulkan t1 then t1 else CopyToPresenterTexture width height t1)
              \<lparr>td_softwareFrame := False, td_haveFrame := True\<rparr>)"

definition SetImage :: "(nat \<times> int) option \<Rightarrow> nat \<Rightarrow> 'e three_ds \<Rightarrow> 'e three_ds" where
  "SetImage given semaphores t =
     (case given of
        None \<Rightarrow> t
      | Some (img, format) \<Rightarrow>
          t\<lparr>td_image := img, td_format := format,
            td_warnedSemaphores := (td_warnedSemaphores t \<or> semaphores \<noteq> 0)\<rparr>)"

text \<open>The presenter's frame slots as libretro's sync indices; without a presenter there is one.\<close>

definition GetSyncIndex :: "(nat \<times> nat) option \<Rightarrow> u32" where
  "GetSyncIndex slots = (case slots of None \<Rightarrow> 0 | Some (current, count) \<Rightarrow> of_nat current)"

definition GetSyncIndexMask :: "(nat \<times> nat) option \<Rightarrow> u32" where
  "GetSyncIndexMask slots = (case slots of None \<Rightarrow> 1 | Some (current, count) \<Rightarrow> push_bit count 1 - 1)"

definition td_GetFrame :: "'e three_ds \<Rightarrow> frame_info option" where
  "td_GetFrame t =
     (if \<not> td_haveFrame t then None
      else if td_softwareFrame t
      then Some (frame_new\<lparr>fi_screenCount := 1, fi_hardware := False, fi_screens := (1, 0), fi_width := td_frameW t,
                  fi_height := td_frameH t, fi_bgra := True\<rparr>)
      else if td_useVulkan t
      then if td_image t = 0 then None
           else Some (frame_new\<lparr>fi_screenCount := 1, fi_hardware := True, fi_vkImage := td_image t,
                       fi_vkFormat := td_format t, fi_width := td_frameW t, fi_height := td_frameH t\<rparr>)
      else Some (frame_new\<lparr>fi_screenCount := 1, fi_hardware := True, fi_texture := td_outTexture t,
                  fi_width := td_outW t, fi_height := td_outH t\<rparr>))"

text \<open>
  The callbacks of one call into the engine, in order; \<open>None\<close> when a resampling loop does not end.
\<close>

definition serve :: "config_store \<Rightarrow> string \<Rightarrow> (rat \<Rightarrow> rat) \<Rightarrow> callback \<Rightarrow> 'e three_ds \<Rightarrow> 'e three_ds option" where
  "serve cfg filesDir fl cb t =
     (case cb of
        CbEnv cmd \<Rightarrow> Some (fst (Environment cfg filesDir cmd t))
      | CbVideo data width height pitch \<Rightarrow> Some (VideoRefresh data width height pitch t)
      | CbAudio frames \<Rightarrow> map_option (\<lambda>(a, n). t\<lparr>td_sound := a\<rparr>) (AudioBatch fl frames (td_sound t))
      | CbSetImage img semaphores \<Rightarrow> Some (SetImage img semaphores t))"

fun serve_all :: "config_store \<Rightarrow> string \<Rightarrow> (rat \<Rightarrow> rat) \<Rightarrow> callback list \<Rightarrow> 'e three_ds \<Rightarrow> 'e three_ds option" where
  "serve_all cfg filesDir fl [] t = Some t"
| "serve_all cfg filesDir fl (cb # cbs) t =
     (case serve cfg filesDir fl cb t of None \<Rightarrow> None | Some t' \<Rightarrow> serve_all cfg filesDir fl cbs t')"

definition engine_call ::
  "config_store \<Rightarrow> string \<Rightarrow> (rat \<Rightarrow> rat) \<Rightarrow> 'e \<times> callback list \<Rightarrow> 'e three_ds \<Rightarrow> 'e three_ds option" where
  "engine_call cfg filesDir fl r t = serve_all cfg filesDir fl (snd r) (t\<lparr>td_engine := fst r\<rparr>)"

section \<open>Booting\<close>

definition kCacheSaveInterval :: int where "kCacheSaveInterval = 120 * 1000000000"

definition td_deinit :: "'e libretro \<Rightarrow> 'e three_ds \<Rightarrow> 'e three_ds" where
  "td_deinit lr t = t\<lparr>td_engine := lr_deinit lr (td_engine t)\<rparr>"

text \<open>
  The boot once the game is loaded: what the engine reports of it, then the graphics context, whose
  reset is where the engine boots the game.
\<close>

definition boot_av :: "'e libretro \<Rightarrow> 'e three_ds \<Rightarrow> 'e three_ds" where
  "boot_av lr t =
     (case lr_av_info lr (td_engine t) of
        (g, rate) \<Rightarrow>
          t\<lparr>td_frameW := int (base_width g), td_frameH := int (base_height g),
            td_sound := (if rate > 0 then (td_sound t)\<lparr>ta_rate := rate\<rparr> else td_sound t)\<rparr>)"

definition boot_context ::
  "'e libretro \<Rightarrow> config_store \<Rightarrow> string \<Rightarrow> (rat \<Rightarrow> rat) \<Rightarrow> 'e three_ds \<Rightarrow> 'e three_ds option" where
  "boot_context lr cfg filesDir fl t =
     (let g = fst (lr_av_info lr (td_engine t));
          t1 = (if td_useVulkan t then t else CreateFramebuffer (int (max_width g)) (int (max_height g)) t)
                 \<lparr>td_lastMessage := []\<rparr>
      in if td_hwReset t1 then engine_call cfg filesDir fl (lr_context_reset lr (td_engine t1)) t1 else Some t1)"

definition boot_done :: "int \<Rightarrow> 'e three_ds \<Rightarrow> 'e three_ds" where
  "boot_done now t = t\<lparr>td_gameLoaded := True, td_nextCacheSave := now + kCacheSaveInterval\<rparr>"

definition boot_undone :: "'e libretro \<Rightarrow> 'e three_ds \<Rightarrow> 'e three_ds" where
  "boot_undone lr t = DestroyFramebuffer (td_deinit lr (t\<lparr>td_engine := lr_unload lr (td_engine t)\<rparr>))"

definition boot_loaded ::
  "'e libretro \<Rightarrow> config_store \<Rightarrow> string \<Rightarrow> (rat \<Rightarrow> rat) \<Rightarrow> int \<Rightarrow> 'e three_ds \<Rightarrow> ('e three_ds \<times> string) option" where
  "boot_loaded lr cfg filesDir fl now t =
     (let t1 = boot_av lr t in
      if \<not> td_hwRequested t1 then Some (boot_done now t1, [])
      else case boot_context lr cfg filesDir fl t1 of
             None \<Rightarrow> None
           | Some t2 \<Rightarrow>
               if td_lastMessage t2 \<noteq> [] then Some (boot_undone lr t2, td_lastMessage t2)
               else Some (boot_done now t2, []))"

definition Boot ::
  "'e libretro \<Rightarrow> config_store \<Rightarrow> string \<Rightarrow> (rat \<Rightarrow> rat) \<Rightarrow> int \<Rightarrow> 'e three_ds \<Rightarrow> ('e three_ds \<times> string) option" where
  "Boot lr cfg filesDir fl now t =
     (case engine_call cfg filesDir fl (lr_init lr (td_engine t)) t of
        None \<Rightarrow> None
      | Some t1 \<Rightarrow>
          (case lr_load_game lr (td_romLink t1) (td_engine t1) of
             (r, ok) \<Rightarrow>
               (case engine_call cfg filesDir fl r t1 of
                  None \<Rightarrow> None
                | Some t2 \<Rightarrow>
                    if \<not> ok
                    then Some (td_deinit lr t2,
                               if td_lastMessage t2 = [] then ''This 3DS game could not be loaded.'' else td_lastMessage t2)
                    else boot_loaded lr cfg filesDir fl now t2)))"

section \<open>Running\<close>

definition td_ApplySettings :: "'e three_ds \<Rightarrow> 'e three_ds" where
  "td_ApplySettings t = t\<lparr>td_optionsChanged := True\<rparr>"

definition td_RenderScale :: "config_store \<Rightarrow> 'e three_ds \<Rightarrow> int" where
  "td_RenderScale cfg t =
     (let v = OptionOverride cfg (td_useVulkan t) ''citra_resolution_factor'' in if v = [] then 1 else atoi v)"

definition td_RunFrame ::
  "'e libretro \<Rightarrow> config_store \<Rightarrow> string \<Rightarrow> (rat \<Rightarrow> rat) \<Rightarrow> core_input \<Rightarrow> 'e three_ds \<Rightarrow> 'e three_ds option" where
  "td_RunFrame lr cfg filesDir fl i t =
     (if \<not> td_gameLoaded t then Some t
      else engine_call cfg filesDir fl (lr_run lr i (td_engine t)) (t\<lparr>td_input := i\<rparr>))"

text \<open>libretro's joypad buttons, in the order of their numbers; the last one is not used.\<close>

definition kMap :: "u32 list" where
  "kMap = [push_bit 1 1, push_bit 11 1, push_bit 2 1, push_bit 3 1, push_bit 6 1, push_bit 7 1, push_bit 5 1,
           push_bit 4 1, push_bit 0 1, push_bit 10 1, push_bit 9 1, push_bit 8 1, kKeyZL, kKeyZR, kKeyHome, 0]"

definition joypad_mask :: "u32 \<Rightarrow> i16" where
  "joypad_mask pressed =
     fold (\<lambda>i m. if pressed AND kMap ! i \<noteq> 0 then m OR push_bit i 1 else m) [0..<16] 0"

definition input_axis :: "rat \<Rightarrow> i16" where
  "input_axis v = word_of_int (c_trunc (clamp v (- 32767) 32767))"

datatype retro_device = Joypad | Analog | Pointer | OtherDevice

text \<open>Index and id are numbered as in libretro's header; 256 asks for all joypad buttons.\<close>

definition InputState :: "(rat \<Rightarrow> rat) \<Rightarrow> nat \<Rightarrow> retro_device \<Rightarrow> nat \<Rightarrow> nat \<Rightarrow> 'e three_ds \<Rightarrow> i16" where
  "InputState flf port device index ident t =
     (let i = td_input t in
      if port \<noteq> 0 then 0
      else case device of
        Joypad \<Rightarrow>
          if ident = 256 then joypad_mask (in_keys i)
          else if ident < 16 \<and> in_keys i AND kMap ! ident \<noteq> 0 then 1 else 0
      | Analog \<Rightarrow>
          if index = 0 then input_axis (flf ((if ident = 0 then in_circleX i else in_circleY i) * 32767))
          else if index = 1 then input_axis (flf ((if ident = 0 then in_cstickX i else in_cstickY i) * 32767))
          else 0
      | Pointer \<Rightarrow>
          if ident = 0 then input_axis (flf (flf (flf (in_pointerX i * 2) - 1) * 32767))
          else if ident = 1 then input_axis (flf (flf (flf (in_pointerY i * 2) - 1) * 32767))
          else if ident = 2 \<or> ident = 3 then (if in_pointerDown i then 1 else 0)
          else 0
      | OtherDevice \<Rightarrow> 0)"

section \<open>States, cheats, cache\<close>

definition ForgetVulkanImage :: "'e three_ds \<Rightarrow> 'e three_ds" where
  "ForgetVulkanImage t = (if td_useVulkan t then t\<lparr>td_image := 0, td_haveFrame := False\<rparr> else t)"

definition td_SaveState :: "'e libretro \<Rightarrow> 'e three_ds \<Rightarrow> bytes option" where
  "td_SaveState lr t =
     (if \<not> td_gameLoaded t \<or> lr_serialize_size lr (td_engine t) = 0 then None else lr_serialize lr (td_engine t))"

definition td_LoadState ::
  "'e libretro \<Rightarrow> config_store \<Rightarrow> string \<Rightarrow> (rat \<Rightarrow> rat) \<Rightarrow> bytes \<Rightarrow> 'e three_ds \<Rightarrow> ('e three_ds \<times> bool) option" where
  "td_LoadState lr cfg filesDir fl data t =
     (if \<not> td_gameLoaded t then Some (t, False)
      else case lr_unserialize lr data (td_engine t) of
             (r, ok) \<Rightarrow> map_option (\<lambda>t1. (ForgetVulkanImage t1, ok)) (engine_call cfg filesDir fl r t))"

definition td_SetCheats :: "'e libretro \<Rightarrow> string list \<Rightarrow> 'e three_ds \<Rightarrow> 'e three_ds" where
  "td_SetCheats lr codes t =
     (if \<not> td_gameLoaded t then t
      else t\<lparr>td_engine := fold (\<lambda>(i, c) e. lr_cheat_set lr i c e) (List.enumerate 0 codes) (lr_cheat_reset lr (td_engine t))\<rparr>)"

definition td_Reset ::
  "'e libretro \<Rightarrow> config_store \<Rightarrow> string \<Rightarrow> (rat \<Rightarrow> rat) \<Rightarrow> 'e three_ds \<Rightarrow> 'e three_ds option" where
  "td_Reset lr cfg filesDir fl t =
     (if \<not> td_gameLoaded t then Some t
      else map_option ForgetVulkanImage (engine_call cfg filesDir fl (lr_reset lr (td_engine t)) t))"

definition SaveShaderCache :: "'e libretro \<Rightarrow> int \<Rightarrow> 'e three_ds \<Rightarrow> 'e three_ds" where
  "SaveShaderCache lr now t =
     (if \<not> lr_has lr ''ds13r_save_disk_resources'' then t
      else if lr_save_disk_resources lr (td_engine t) then t\<lparr>td_cacheSaves := td_cacheSaves t @ [now]\<rparr> else t)"

definition td_CheckFlush :: "'e libretro \<Rightarrow> int \<Rightarrow> 'e three_ds \<Rightarrow> 'e three_ds" where
  "td_CheckFlush lr now t =
     (if \<not> td_gameLoaded t \<or> now < td_nextCacheSave t then t
      else SaveShaderCache lr now (t\<lparr>td_nextCacheSave := now + kCacheSaveInterval\<rparr>))"

definition td_FlushSaves :: "'e libretro \<Rightarrow> int \<Rightarrow> 'e three_ds \<Rightarrow> 'e three_ds" where
  "td_FlushSaves lr now t = (if td_gameLoaded t then SaveShaderCache lr now t else t)"

definition td_SetAudioSkew :: "rat \<Rightarrow> 'e three_ds \<Rightarrow> 'e three_ds" where
  "td_SetAudioSkew skew t = t\<lparr>td_sound := (td_sound t)\<lparr>ta_skew := skew\<rparr>\<rparr>"

definition LoadProgress :: "(int \<times> nat \<times> nat) option \<Rightarrow> int \<times> nat \<times> nat" where
  "LoadProgress answer = (case answer of None \<Rightarrow> (- 1, 0, 0) | Some p \<Rightarrow> p)"

definition td_Shutdown :: "'e libretro \<Rightarrow> 'e three_ds \<Rightarrow> 'e three_ds" where
  "td_Shutdown lr t =
     (let t1 = t\<lparr>td_openFds := (if td_romFd t \<ge> 0 then removeAll (td_romFd t) (td_openFds t) else td_openFds t),
                 td_romFd := - 1,
                 td_links := (if td_romLink t \<noteq> [] \<and> take 6 (td_romLink t) \<noteq> ''/proc/''
                              then removeAll (td_romLink t) (td_links t) else td_links t),
                 td_romLink := []\<rparr>
      in if \<not> td_handle t1 then t1
         else
           let t2 = (if td_gameLoaded t1
                     then let e = (if td_hwRequested t1 \<and> td_hwDestroy t1 then lr_context_destroy lr (td_engine t1)
                                   else td_engine t1)
                          in t1\<lparr>td_engine := lr_deinit lr (lr_unload lr e), td_gameLoaded := False\<rparr>
                     else t1)
           in (DestroyFramebuffer t2)\<lparr>td_handle := False\<rparr>)"

section \<open>Lemmas\<close>

subsection \<open>Resources\<close>

text \<open>The OpenGL objects the core holds, and that it has created no others.\<close>

definition gl_held :: "'e three_ds \<Rightarrow> nat list" where
  "gl_held t = filter (\<lambda>n. n \<noteq> 0) [td_fbo t, td_fboColor t, td_fboDepth t, td_outTexture t]"

definition gl_inv :: "'e three_ds \<Rightarrow> bool" where
  "gl_inv t \<longleftrightarrow> distinct (gl_held t) \<and> set (td_names t) = set (gl_held t) \<and>
     (\<forall>n \<in> set (gl_held t). n < td_nextName t) \<and> 0 < td_nextName t"

lemma DestroyFramebuffer_gl: "gl_inv t \<Longrightarrow> gl_inv (DestroyFramebuffer t) \<and> td_names (DestroyFramebuffer t) = []"
  by (auto simp: gl_inv_def gl_held_def DestroyFramebuffer_def filter_empty_conv split: if_splits)

lemma CreateFramebuffer_gl: "gl_inv t \<Longrightarrow> gl_inv (CreateFramebuffer w h t)"
  using DestroyFramebuffer_gl [of t]
  by (auto simp: CreateFramebuffer_def gl_inv_def gl_held_def Let_def DestroyFramebuffer_def)

lemma CopyToPresenterTexture_gl: "gl_inv t \<Longrightarrow> gl_inv (CopyToPresenterTexture w h t)"
  by (auto simp: CopyToPresenterTexture_def gl_inv_def gl_held_def Let_def split: if_splits)

text \<open>What the engine's callbacks cannot change: descriptor, link and whether a game runs.\<close>

definition td_frame :: "'e three_ds \<Rightarrow> 'e three_ds \<Rightarrow> bool" where
  "td_frame t t' \<longleftrightarrow> td_romFd t' = td_romFd t \<and> td_romLink t' = td_romLink t \<and> td_handle t' = td_handle t \<and>
     td_gameLoaded t' = td_gameLoaded t \<and> td_links t' = td_links t \<and> td_openFds t' = td_openFds t \<and>
     td_useVulkan t' = td_useVulkan t \<and> (gl_inv t \<longrightarrow> gl_inv t')"

lemma td_frame_refl: "td_frame t t"
  by (simp add: td_frame_def)

lemma td_frame_trans: "td_frame t u \<Longrightarrow> td_frame u v \<Longrightarrow> td_frame t v"
  by (simp add: td_frame_def)

text \<open>Fields that neither the resources nor the frame condition look at.\<close>

lemma gl_inv_fields [simp]:
  "gl_inv (t\<lparr>td_engine := x_engine\<rparr>) = gl_inv t"
  "gl_inv (t\<lparr>td_lastMessage := x_lastMessage\<rparr>) = gl_inv t"
  "gl_inv (t\<lparr>td_nextCacheSave := x_nextCacheSave\<rparr>) = gl_inv t"
  "gl_inv (t\<lparr>td_options := x_options\<rparr>) = gl_inv t"
  "gl_inv (t\<lparr>td_optionsChanged := x_optionsChanged\<rparr>) = gl_inv t"
  "gl_inv (t\<lparr>td_hwRequested := x_hwRequested\<rparr>) = gl_inv t"
  "gl_inv (t\<lparr>td_hwReset := x_hwReset\<rparr>) = gl_inv t"
  "gl_inv (t\<lparr>td_hwDestroy := x_hwDestroy\<rparr>) = gl_inv t"
  "gl_inv (t\<lparr>td_image := x_image\<rparr>) = gl_inv t"
  "gl_inv (t\<lparr>td_format := x_format\<rparr>) = gl_inv t"
  "gl_inv (t\<lparr>td_warnedSemaphores := x_warnedSemaphores\<rparr>) = gl_inv t"
  "gl_inv (t\<lparr>td_fboW := x_fboW\<rparr>) = gl_inv t"
  "gl_inv (t\<lparr>td_fboH := x_fboH\<rparr>) = gl_inv t"
  "gl_inv (t\<lparr>td_outW := x_outW\<rparr>) = gl_inv t"
  "gl_inv (t\<lparr>td_outH := x_outH\<rparr>) = gl_inv t"
  "gl_inv (t\<lparr>td_frameW := x_frameW\<rparr>) = gl_inv t"
  "gl_inv (t\<lparr>td_frameH := x_frameH\<rparr>) = gl_inv t"
  "gl_inv (t\<lparr>td_haveFrame := x_haveFrame\<rparr>) = gl_inv t"
  "gl_inv (t\<lparr>td_softwareFrame := x_softwareFrame\<rparr>) = gl_inv t"
  "gl_inv (t\<lparr>td_softPixels := x_softPixels\<rparr>) = gl_inv t"
  "gl_inv (t\<lparr>td_input := x_input\<rparr>) = gl_inv t"
  "gl_inv (t\<lparr>td_sound := x_sound\<rparr>) = gl_inv t"
  "gl_inv (t\<lparr>td_stops := x_stops\<rparr>) = gl_inv t"
  "gl_inv (t\<lparr>td_cacheSaves := x_cacheSaves\<rparr>) = gl_inv t"
  "gl_inv (t\<lparr>td_gameLoaded := x_gameLoaded\<rparr>) = gl_inv t"
  "gl_inv (t\<lparr>td_handle := x_handle\<rparr>) = gl_inv t"
  "gl_inv (t\<lparr>td_romFd := x_romFd\<rparr>) = gl_inv t"
  "gl_inv (t\<lparr>td_romLink := x_romLink\<rparr>) = gl_inv t"
  "gl_inv (t\<lparr>td_links := x_links\<rparr>) = gl_inv t"
  "gl_inv (t\<lparr>td_openFds := x_openFds\<rparr>) = gl_inv t"
  "gl_inv (t\<lparr>td_useVulkan := x_useVulkan\<rparr>) = gl_inv t"
  by (simp_all add: gl_inv_def gl_held_def)

lemma td_frame_fields [simp]:
  "td_frame t (u\<lparr>td_engine := x_engine\<rparr>) = td_frame t u"
  "td_frame t (u\<lparr>td_lastMessage := x_lastMessage\<rparr>) = td_frame t u"
  "td_frame t (u\<lparr>td_nextCacheSave := x_nextCacheSave\<rparr>) = td_frame t u"
  "td_frame t (u\<lparr>td_options := x_options\<rparr>) = td_frame t u"
  "td_frame t (u\<lparr>td_optionsChanged := x_optionsChanged\<rparr>) = td_frame t u"
  "td_frame t (u\<lparr>td_hwRequested := x_hwRequested\<rparr>) = td_frame t u"
  "td_frame t (u\<lparr>td_hwReset := x_hwReset\<rparr>) = td_frame t u"
  "td_frame t (u\<lparr>td_hwDestroy := x_hwDestroy\<rparr>) = td_frame t u"
  "td_frame t (u\<lparr>td_image := x_image\<rparr>) = td_frame t u"
  "td_frame t (u\<lparr>td_format := x_format\<rparr>) = td_frame t u"
  "td_frame t (u\<lparr>td_warnedSemaphores := x_warnedSemaphores\<rparr>) = td_frame t u"
  "td_frame t (u\<lparr>td_fboW := x_fboW\<rparr>) = td_frame t u"
  "td_frame t (u\<lparr>td_fboH := x_fboH\<rparr>) = td_frame t u"
  "td_frame t (u\<lparr>td_outW := x_outW\<rparr>) = td_frame t u"
  "td_frame t (u\<lparr>td_outH := x_outH\<rparr>) = td_frame t u"
  "td_frame t (u\<lparr>td_frameW := x_frameW\<rparr>) = td_frame t u"
  "td_frame t (u\<lparr>td_frameH := x_frameH\<rparr>) = td_frame t u"
  "td_frame t (u\<lparr>td_haveFrame := x_haveFrame\<rparr>) = td_frame t u"
  "td_frame t (u\<lparr>td_softwareFrame := x_softwareFrame\<rparr>) = td_frame t u"
  "td_frame t (u\<lparr>td_softPixels := x_softPixels\<rparr>) = td_frame t u"
  "td_frame t (u\<lparr>td_input := x_input\<rparr>) = td_frame t u"
  "td_frame t (u\<lparr>td_sound := x_sound\<rparr>) = td_frame t u"
  "td_frame t (u\<lparr>td_stops := x_stops\<rparr>) = td_frame t u"
  "td_frame t (u\<lparr>td_cacheSaves := x_cacheSaves\<rparr>) = td_frame t u"
  by (simp_all add: td_frame_def)

lemma td_frame_fields_left [simp]:
  "td_frame (t\<lparr>td_engine := x_engine\<rparr>) u = td_frame t u"
  "td_frame (t\<lparr>td_lastMessage := x_lastMessage\<rparr>) u = td_frame t u"
  "td_frame (t\<lparr>td_nextCacheSave := x_nextCacheSave\<rparr>) u = td_frame t u"
  "td_frame (t\<lparr>td_options := x_options\<rparr>) u = td_frame t u"
  "td_frame (t\<lparr>td_optionsChanged := x_optionsChanged\<rparr>) u = td_frame t u"
  "td_frame (t\<lparr>td_hwRequested := x_hwRequested\<rparr>) u = td_frame t u"
  "td_frame (t\<lparr>td_hwReset := x_hwReset\<rparr>) u = td_frame t u"
  "td_frame (t\<lparr>td_hwDestroy := x_hwDestroy\<rparr>) u = td_frame t u"
  "td_frame (t\<lparr>td_image := x_image\<rparr>) u = td_frame t u"
  "td_frame (t\<lparr>td_format := x_format\<rparr>) u = td_frame t u"
  "td_frame (t\<lparr>td_warnedSemaphores := x_warnedSemaphores\<rparr>) u = td_frame t u"
  "td_frame (t\<lparr>td_fboW := x_fboW\<rparr>) u = td_frame t u"
  "td_frame (t\<lparr>td_fboH := x_fboH\<rparr>) u = td_frame t u"
  "td_frame (t\<lparr>td_outW := x_outW\<rparr>) u = td_frame t u"
  "td_frame (t\<lparr>td_outH := x_outH\<rparr>) u = td_frame t u"
  "td_frame (t\<lparr>td_frameW := x_frameW\<rparr>) u = td_frame t u"
  "td_frame (t\<lparr>td_frameH := x_frameH\<rparr>) u = td_frame t u"
  "td_frame (t\<lparr>td_haveFrame := x_haveFrame\<rparr>) u = td_frame t u"
  "td_frame (t\<lparr>td_softwareFrame := x_softwareFrame\<rparr>) u = td_frame t u"
  "td_frame (t\<lparr>td_softPixels := x_softPixels\<rparr>) u = td_frame t u"
  "td_frame (t\<lparr>td_input := x_input\<rparr>) u = td_frame t u"
  "td_frame (t\<lparr>td_sound := x_sound\<rparr>) u = td_frame t u"
  "td_frame (t\<lparr>td_stops := x_stops\<rparr>) u = td_frame t u"
  "td_frame (t\<lparr>td_cacheSaves := x_cacheSaves\<rparr>) u = td_frame t u"
  by (simp_all add: td_frame_def)

lemma CreateFramebuffer_frame: "td_frame t (CreateFramebuffer w h t)"
  using CreateFramebuffer_gl [of t w h]
  by (simp add: td_frame_def CreateFramebuffer_def DestroyFramebuffer_def Let_def)

lemma Copy_frame: "td_frame t (CopyToPresenterTexture w h t)"
  using CopyToPresenterTexture_gl [of t w h] by (simp add: td_frame_def CopyToPresenterTexture_def Let_def)

lemma Environment_frame: "td_frame t (fst (Environment cfg filesDir cmd t))"
proof -
  have "td_frame t (CreateFramebuffer w h (t\<lparr>td_frameW := x, td_frameH := y\<rparr>))" for w h x y
    using CreateFramebuffer_frame [of "t\<lparr>td_frameW := x, td_frameH := y\<rparr>"] by simp
  then show ?thesis
    by (cases cmd) (simp_all add: Environment_def Let_def td_frame_refl split: option.split)
qed

lemma VideoRefresh_frame: "td_frame t (VideoRefresh data w h pitch t)"
  using Copy_frame [of "t\<lparr>td_frameW := int w, td_frameH := int h\<rparr>" w h]
  by (cases data) (simp_all add: VideoRefresh_def Let_def td_frame_refl)

lemma serve_frame: "serve cfg filesDir fl cb t = Some t' \<Longrightarrow> td_frame t t'"
  using Environment_frame VideoRefresh_frame
  by (cases cb) (auto simp: serve_def SetImage_def td_frame_refl split: option.splits)

lemma serve_all_frame: "serve_all cfg filesDir fl cbs t = Some t' \<Longrightarrow> td_frame t t'"
proof (induction cbs arbitrary: t)
  case (Cons cb cbs)
  then obtain u where "serve cfg filesDir fl cb t = Some u" "serve_all cfg filesDir fl cbs u = Some t'"
    by (auto split: option.splits)
  with serve_frame Cons.IH td_frame_trans show ?case by blast
qed (simp add: td_frame_refl)

lemma engine_call_frame: "engine_call cfg filesDir fl r t = Some t' \<Longrightarrow> td_frame t t'"
  using serve_all_frame [of cfg filesDir fl "snd r" "t\<lparr>td_engine := fst r\<rparr>" t'] by (simp add: engine_call_def)

end
