(* ===== verification/ThreeDsLife.thy ===== *)
theory ThreeDsLife
  imports ThreeDs SessionLoop
begin

text \<open>
  The life of a 3DS core from \<^verbatim>\<open>Prepare\<close> to \<^verbatim>\<open>Shutdown\<close> (\<^verbatim>\<open>ThreeDsCore.cpp\<close>): the states its operations
  reach, the invariant on what it holds, and the properties of booting, input, options and shutdown.
\<close>

section \<open>Life of a core\<close>

text \<open>Everything the session does with a core before it shuts it down.\<close>

inductive td_reach :: "'e libretro \<Rightarrow> string \<Rightarrow> string \<Rightarrow> 'e three_ds \<Rightarrow> bool" for lr filesDir ext where
  prepared: "Prepare lr cfg filesDir duped linked vulkan ext (td_new e) = (t, err) \<Longrightarrow> td_reach lr filesDir ext t"
| booted: "td_reach lr filesDir ext t \<Longrightarrow> td_handle t \<Longrightarrow> \<not> td_gameLoaded t \<Longrightarrow> Boot lr cfg filesDir fl now t = Some (t', err) \<Longrightarrow>
    td_reach lr filesDir ext t'"
| framed: "td_reach lr filesDir ext t \<Longrightarrow> td_RunFrame lr cfg filesDir fl i t = Some t' \<Longrightarrow> td_reach lr filesDir ext t'"
| loaded: "td_reach lr filesDir ext t \<Longrightarrow> td_LoadState lr cfg filesDir fl b t = Some (t', ok) \<Longrightarrow> td_reach lr filesDir ext t'"
| restarted: "td_reach lr filesDir ext t \<Longrightarrow> td_Reset lr cfg filesDir fl t = Some t' \<Longrightarrow> td_reach lr filesDir ext t'"
| settings_changed: "td_reach lr filesDir ext t \<Longrightarrow> td_reach lr filesDir ext (td_ApplySettings t)"
| cheats_set: "td_reach lr filesDir ext t \<Longrightarrow> td_reach lr filesDir ext (td_SetCheats lr codes t)"
| checked: "td_reach lr filesDir ext t \<Longrightarrow> td_reach lr filesDir ext (td_CheckFlush lr now t)"
| flushed: "td_reach lr filesDir ext t \<Longrightarrow> td_reach lr filesDir ext (td_FlushSaves lr now t)"
| skewed: "td_reach lr filesDir ext t \<Longrightarrow> td_reach lr filesDir ext (td_SetAudioSkew skew t)"

definition td_inv :: "'e three_ds \<Rightarrow> bool" where
  "td_inv t \<longleftrightarrow> gl_inv t \<and> (td_names t \<noteq> [] \<or> td_gameLoaded t \<longrightarrow> td_handle t) \<and>
     set (td_openFds t) \<subseteq> {td_romFd t} \<and> (td_openFds t \<noteq> [] \<longrightarrow> 0 \<le> td_romFd t) \<and>
     set (td_links t) \<subseteq> {td_romLink t} \<and>
     (td_links t \<noteq> [] \<longrightarrow> td_romLink t \<noteq> [] \<and> take 6 (td_romLink t) \<noteq> ''/proc/'')"

lemma td_inv_frame: "td_frame t t' \<Longrightarrow> td_inv t \<Longrightarrow> td_handle t \<or> td_names t' = td_names t \<Longrightarrow> td_inv t'"
  by (auto simp: td_frame_def td_inv_def)

lemma Prepare_inv:
  assumes "Prepare lr cfg filesDir duped linked vulkan ext (td_new e) = (t, err)"
    and "take 6 (filesDir @ ''/3ds/current'' @ ext) \<noteq> ''/proc/''"
  shows "td_inv t"
proof (cases "duped < 0")
  case True
  with assms(1) show ?thesis by (auto simp: Prepare_def td_new_def td_inv_def gl_inv_def gl_held_def)
next
  case False
  define link where "link = filesDir @ ''/3ds/current'' @ ext"
  define t2 where "t2 = (td_new e)\<lparr>td_romFd := duped, td_openFds := [duped], td_links := if linked then [link] else [],
    td_romLink := if linked then link else ''/proc/self/fd/'' @ to_string duped\<rparr>"
  have "link \<noteq> []" by (simp add: link_def)
  moreover have "take 6 link \<noteq> ''/proc/''" using assms(2) unfolding link_def .
  ultimately have "td_inv t2" using False
    by (simp add: t2_def td_inv_def gl_inv_def gl_held_def td_new_def)
  moreover have "td_inv (u\<lparr>td_handle := True\<rparr>) \<and> td_inv (u\<lparr>td_handle := True, td_useVulkan := v\<rparr>)
      \<and> (td_names u = [] \<and> \<not> td_gameLoaded u \<longrightarrow> td_inv (u\<lparr>td_handle := False\<rparr>))" if "td_inv u" for u :: "'a three_ds" and v
    using that by (simp add: td_inv_def)
  moreover have "td_names t2 = []" "\<not> td_gameLoaded t2" by (simp_all add: t2_def td_new_def)
  moreover have "(t, err) = (let (t3, ok) = LoadLibrary lr t2
        in if \<not> ok then (t3, ''The 3DS engine could not be loaded.'')
           else (t3\<lparr>td_useVulkan := (GetInt cfg ''3ds.renderer'' 1 = 1 \<and> vulkan)\<rparr>, []))"
    using assms(1) False unfolding Prepare_def Let_def link_def [symmetric] t2_def
    by (cases linked) (simp_all add: td_new_def)
  ultimately show ?thesis by (auto simp: LoadLibrary_def Let_def split: if_splits)
qed

text \<open>A boot ends with a running game or a message, and keeps the invariant.\<close>

lemma boot_steps:
  "td_frame t (boot_av lr t)"
  "boot_context lr cfg filesDir fl t = Some u \<Longrightarrow> td_frame t u"
  "td_inv t \<Longrightarrow> td_handle t \<Longrightarrow> td_inv (boot_done now t)"
  "td_inv t \<Longrightarrow> td_inv (boot_undone lr t)"
  "td_handle (boot_done now t) = td_handle t"
  "td_gameLoaded (boot_done now t)"
  "td_handle (boot_undone lr t) = td_handle t"
  "td_gameLoaded (boot_undone lr t) = td_gameLoaded t"
proof -
  show "td_frame t (boot_av lr t)" by (simp add: boot_av_def td_frame_refl split: prod.split)
  show "td_frame t u" if "boot_context lr cfg filesDir fl t = Some u"
  proof -
    let ?g = "fst (lr_av_info lr (td_engine t))"
    define t1 where "t1 = (if td_useVulkan t then t else CreateFramebuffer (int (max_width ?g)) (int (max_height ?g)) t)
                 \<lparr>td_lastMessage := []\<rparr>"
    have "td_frame t t1" by (simp add: t1_def td_frame_refl CreateFramebuffer_frame)
    moreover have "td_frame t1 u"
      using that engine_call_frame td_frame_refl by (fastforce simp: boot_context_def Let_def t1_def [symmetric] split: if_splits)
    ultimately show ?thesis using td_frame_trans by blast
  qed
  show "td_inv (boot_done now t)" if "td_inv t" "td_handle t" using that by (simp add: boot_done_def td_inv_def)
  let ?u = "td_deinit lr (t\<lparr>td_engine := lr_unload lr (td_engine t)\<rparr>)"
  show "td_inv (boot_undone lr t)" if "td_inv t"
  proof -
    have "gl_inv ?u" using that by (simp add: td_inv_def td_deinit_def)
    from DestroyFramebuffer_gl [OF this] that show ?thesis
      by (simp add: boot_undone_def td_inv_def) (simp add: DestroyFramebuffer_def td_deinit_def)
  qed
qed (simp_all add: boot_done_def boot_undone_def DestroyFramebuffer_def td_deinit_def)

lemma boot_loaded_result:
  assumes "boot_loaded lr cfg filesDir fl now t = Some (t', err)" "td_handle t" "td_inv t" "\<not> td_gameLoaded t"
  shows "td_inv t' \<and> (err = [] \<longleftrightarrow> td_gameLoaded t') \<and> td_handle t'"
proof -
  define t1 where "t1 = boot_av lr t"
  have f1: "td_frame t t1" by (simp add: t1_def boot_steps)
  have h1: "td_inv t1" "td_handle t1" using td_inv_frame [OF f1 assms(3)] f1 assms(2) by (simp_all add: td_frame_def)
  show ?thesis
  proof (cases "td_hwRequested t1")
    case False
    with assms(1) have "t' = boot_done now t1" "err = []" by (simp_all add: boot_loaded_def Let_def t1_def)
    with h1 show ?thesis by (simp add: boot_steps)
  next
    case True
    with assms(1) obtain t2 where t2: "boot_context lr cfg filesDir fl t1 = Some t2"
      and out: "(t', err) = (if td_lastMessage t2 \<noteq> [] then (boot_undone lr t2, td_lastMessage t2) else (boot_done now t2, []))"
      by (cases "boot_context lr cfg filesDir fl t1") (simp_all add: boot_loaded_def Let_def t1_def [symmetric] split: if_splits)
    have f: "td_frame t t2" using f1 boot_steps(2) [OF t2] td_frame_trans by blast
    have h2: "td_inv t2" "td_handle t2" "\<not> td_gameLoaded t2"
      using td_inv_frame [OF f assms(3)] f assms(2,4) by (simp_all add: td_frame_def)
    with out show ?thesis by (cases "td_lastMessage t2 = []") (simp_all add: boot_steps)
  qed
qed

lemma Boot_result:
  assumes "Boot lr cfg filesDir fl now t = Some (t', err)" "td_handle t" "td_inv t" "\<not> td_gameLoaded t"
  shows "td_inv t' \<and> (err = [] \<longleftrightarrow> td_gameLoaded t') \<and> td_handle t'"
proof -
  obtain t1 where t1: "engine_call cfg filesDir fl (lr_init lr (td_engine t)) t = Some t1"
    using assms(1) by (auto simp: Boot_def split: option.splits)
  obtain r ok where load: "lr_load_game lr (td_romLink t1) (td_engine t1) = (r, ok)" by (cases "lr_load_game lr (td_romLink t1) (td_engine t1)")
  obtain t2 where t2: "engine_call cfg filesDir fl r t1 = Some t2"
    using assms(1) by (cases "engine_call cfg filesDir fl r t1") (simp_all add: Boot_def t1 load)
  have out: "(if ok then boot_loaded lr cfg filesDir fl now t2
      else Some (td_deinit lr t2, if td_lastMessage t2 = [] then ''This 3DS game could not be loaded.'' else td_lastMessage t2))
        = Some (t', err)"
    using assms(1) by (cases ok) (simp_all add: Boot_def t1 load t2)
  have f: "td_frame t t2" using engine_call_frame t1 t2 td_frame_trans by blast
  then have h: "td_inv t2" "td_handle t2" "\<not> td_gameLoaded t2"
    using td_inv_frame [OF f assms(3)] assms(2,4) by (simp_all add: td_frame_def)
  have "td_inv (td_deinit lr t2)" using h(1) by (simp add: td_deinit_def td_inv_def)
  with out h boot_loaded_result [of lr cfg filesDir fl now t2 t' err] show ?thesis
    by (cases ok; cases "td_lastMessage t2 = []") (auto simp: td_deinit_def)
qed

lemma td_inv_engine: "td_inv t \<Longrightarrow> td_gameLoaded t \<Longrightarrow> td_frame t t' \<Longrightarrow> td_inv t'"
  by (rule td_inv_frame) (auto simp: td_inv_def)

lemma ForgetVulkanImage_frame: "td_frame t (ForgetVulkanImage t)"
  by (simp add: ForgetVulkanImage_def td_frame_refl)

text \<open>The operations of a running game leave the resources to the engine's callbacks.\<close>

lemma td_running_frame:
  "td_RunFrame lr cfg filesDir fl i t = Some t' \<Longrightarrow> td_gameLoaded t \<Longrightarrow> td_frame t t'"
  "td_LoadState lr cfg filesDir fl b t = Some (t', ok) \<Longrightarrow> td_gameLoaded t \<Longrightarrow> td_frame t t'"
  "td_Reset lr cfg filesDir fl t = Some t' \<Longrightarrow> td_gameLoaded t \<Longrightarrow> td_frame t t'"
proof -
  show "td_frame t t'" if "td_RunFrame lr cfg filesDir fl i t = Some t'" "td_gameLoaded t"
    using that engine_call_frame [of cfg filesDir fl "lr_run lr i (td_engine t)" "t\<lparr>td_input := i\<rparr>" t']
    by (simp add: td_RunFrame_def)
  have forget: "td_frame t (ForgetVulkanImage u)" if "engine_call cfg filesDir fl r t = Some u" for r u
    using td_frame_trans [OF engine_call_frame [OF that] ForgetVulkanImage_frame] .
  show "td_frame t t'" if "td_LoadState lr cfg filesDir fl b t = Some (t', ok)" "td_gameLoaded t"
  proof (cases "lr_unserialize lr b (td_engine t)")
    case (Pair r ok')
    with that forget [of r] show ?thesis by (auto simp: td_LoadState_def)
  qed
  show "td_frame t t'" if "td_Reset lr cfg filesDir fl t = Some t'" "td_gameLoaded t"
    using that forget [of "lr_reset lr (td_engine t)"] by (auto simp: td_Reset_def)
qed

lemma td_idle_same:
  "td_RunFrame lr cfg filesDir fl i t = Some t' \<Longrightarrow> \<not> td_gameLoaded t \<Longrightarrow> t' = t"
  "td_LoadState lr cfg filesDir fl b t = Some (t', ok) \<Longrightarrow> \<not> td_gameLoaded t \<Longrightarrow> t' = t"
  "td_Reset lr cfg filesDir fl t = Some t' \<Longrightarrow> \<not> td_gameLoaded t \<Longrightarrow> t' = t"
  by (simp_all add: td_RunFrame_def td_LoadState_def td_Reset_def)

lemma td_small_frame:
  "td_frame t (td_ApplySettings t)" "td_frame t (td_SetCheats lr codes t)" "td_frame t (td_CheckFlush lr now t)"
  "td_frame t (td_FlushSaves lr now t)" "td_frame t (td_SetAudioSkew skew t)"
  "td_names (td_ApplySettings t) = td_names t" "td_names (td_SetCheats lr codes t) = td_names t"
  "td_names (td_CheckFlush lr now t) = td_names t" "td_names (td_FlushSaves lr now t) = td_names t"
  "td_names (td_SetAudioSkew skew t) = td_names t"
  by (simp_all add: td_ApplySettings_def td_SetCheats_def td_CheckFlush_def td_FlushSaves_def SaveShaderCache_def
      td_SetAudioSkew_def td_frame_refl)

lemma td_reach_inv:
  assumes "td_reach lr filesDir ext t" "take 6 (filesDir @ ''/3ds/current'' @ ext) \<noteq> ''/proc/''"
  shows "td_inv t"
  using assms(1)
proof induction
  case (prepared cfg duped linked vulkan e t err)
  then show ?case using Prepare_inv assms(2) by metis
next
  case (booted t cfg fl now t' err)
  then show ?case using Boot_result by metis
next
  case (framed t cfg fl i t')
  then show ?case using td_running_frame(1) td_idle_same(1) td_inv_engine by metis
next
  case (loaded t cfg fl b t' ok)
  then show ?case using td_running_frame(2) td_idle_same(2) td_inv_engine by metis
next
  case (restarted t cfg fl t')
  then show ?case using td_running_frame(3) td_idle_same(3) td_inv_engine by metis
qed (use td_small_frame td_inv_frame in metis)+

section \<open>Shutdown\<close>

lemma td_Shutdown_releases:
  assumes "td_inv t"
  shows "td_names (td_Shutdown lr t) = [] \<and> td_openFds (td_Shutdown lr t) = [] \<and> td_links (td_Shutdown lr t) = [] \<and>
    \<not> td_gameLoaded (td_Shutdown lr t) \<and> \<not> td_handle (td_Shutdown lr t)"
proof -
  from assms have fds: "removeAll (td_romFd t) (td_openFds t) = []" and links: "removeAll (td_romLink t) (td_links t) = []"
    unfolding td_inv_def by (auto simp: filter_empty_conv removeAll_filter_not_eq)
  have "td_names (DestroyFramebuffer u) = []" if "gl_inv u" for u :: "'a three_ds"
    using DestroyFramebuffer_gl [OF that] by simp
  moreover have "td_gameLoaded (DestroyFramebuffer u) = td_gameLoaded u" "td_openFds (DestroyFramebuffer u) = td_openFds u"
    "td_links (DestroyFramebuffer u) = td_links u" for u :: "'a three_ds"
    by (simp_all add: DestroyFramebuffer_def)
  ultimately show ?thesis using assms fds links
    by (auto simp: td_Shutdown_def Let_def td_inv_def)
qed


text \<open>A small engine that asks for OpenGL ES, boots at the context reset and draws one frame per run.\<close>

definition demo_libretro :: "nat libretro" where
  "demo_libretro = \<lparr>lr_opens = True, lr_has = (\<lambda>_. True), lr_init = (\<lambda>e. (e + 1, [])), lr_deinit = (\<lambda>e. e - 1),
     lr_load_game = (\<lambda>_ e. ((e + 1, [CbEnv (SetHwRender kHwContextGles3 True True)]), True)),
     lr_av_info = (\<lambda>_. (\<lparr>base_width = 400, base_height = 480, max_width = 800, max_height = 960\<rparr>, 32728)),
     lr_context_reset = (\<lambda>e. (e, [])), lr_context_destroy = (\<lambda>e. e), lr_unload = (\<lambda>e. e - 1), lr_reset = (\<lambda>e. (e, [])),
     lr_run = (\<lambda>_ e. (e, [CbVideo VHardware 800 960 0])), lr_serialize_size = (\<lambda>_. 0), lr_serialize = (\<lambda>_. None),
     lr_unserialize = (\<lambda>_ e. ((e, []), False)), lr_cheat_reset = (\<lambda>e. e), lr_cheat_set = (\<lambda>_ _ e. e),
     lr_save_disk_resources = (\<lambda>_. True)\<rparr>"

definition demo_prepared :: "nat three_ds" where
  "demo_prepared = fst (Prepare demo_libretro config_new ''/f'' 7 True False ''.3ds'' (td_new 0))"

definition demo_booted :: "nat three_ds" where
  "demo_booted = (case Boot demo_libretro config_new ''/f'' (\<lambda>x. x) 0 demo_prepared of Some (t, _) \<Rightarrow> t | None \<Rightarrow> demo_prepared)"

lemma demo_prepared_simps:
  "td_handle demo_prepared" "\<not> td_gameLoaded demo_prepared" "\<not> td_useVulkan demo_prepared"
  "td_openFds demo_prepared = [7]" "td_names demo_prepared = []" "td_nextName demo_prepared = 1"
  "td_fbo demo_prepared = 0" "td_fboColor demo_prepared = 0" "td_fboDepth demo_prepared = 0" "td_outTexture demo_prepared = 0"
  by (simp_all add: demo_prepared_def Prepare_def LoadLibrary_def demo_libretro_def Let_def td_new_def list_all_iff)

lemma demo_Boot:
  "Boot demo_libretro config_new ''/f'' (\<lambda>x. x) 0 demo_prepared = Some (demo_booted, [])"
  "td_names demo_booted = [1, 2, 3]" "td_openFds demo_booted = [7]"
proof -
  have "\<exists>t. Boot demo_libretro config_new ''/f'' (\<lambda>x. x) 0 demo_prepared = Some (t, []) \<and> td_names t = [1, 2, 3] \<and>
    td_openFds t = [7]"
    by (simp add: Boot_def boot_loaded_def boot_context_def boot_av_def boot_done_def demo_libretro_def engine_call_def
      serve_def Environment_def CreateFramebuffer_def DestroyFramebuffer_def Let_def demo_prepared_simps)
  then show "Boot demo_libretro config_new ''/f'' (\<lambda>x. x) 0 demo_prepared = Some (demo_booted, [])"
    "td_names demo_booted = [1, 2, 3]" "td_openFds demo_booted = [7]"
    by (auto simp: demo_booted_def)
qed

lemma demo_reach: "td_reach demo_libretro ''/f'' ''.3ds'' demo_booted"
proof (rule td_reach.booted [OF _ _ _ demo_Boot(1)])
  show "td_reach demo_libretro ''/f'' ''.3ds'' demo_prepared"
    by (rule td_reach.prepared [where err = "snd (Prepare demo_libretro config_new ''/f'' 7 True False ''.3ds'' (td_new 0))"])
      (simp add: demo_prepared_def)
qed (simp_all add: demo_prepared_simps)


section \<open>Buttons\<close>

lemma fold_bits:
  "(\<forall>i \<in> set xs. i < LENGTH('a)) \<Longrightarrow> bit (fold (\<lambda>i m. if P i then m OR push_bit i 1 else m) xs (m :: 'a::len word)) n \<longleftrightarrow>
   bit m n \<or> n \<in> set xs \<and> P n"
proof (induction xs arbitrary: m)
  case (Cons i xs)
  have "bit (m OR push_bit i 1) n \<longleftrightarrow> bit m n \<or> n = i" if "i < LENGTH('a)" for m :: "'a word"
    using that unfolding bit_or_iff bit_push_bit_iff bit_1_iff by auto
  with Cons show ?case by auto
qed simp

text \<open>The app's key bit of each of the engine's first fifteen buttons.\<close>

definition key_bits :: "nat list" where
  "key_bits = [1, 11, 2, 3, 6, 7, 5, 4, 0, 10, 9, 8, 12, 13, 14]"

lemma key_bits_below: "\<forall>k \<in> set key_bits. k < 15"
  by (simp add: key_bits_def)

lemma kMap_bits: "kMap = List.map (\<lambda>k. push_bit k 1) key_bits @ [0]"
  by (simp add: kMap_def key_bits_def kKeyZL_def kKeyZR_def kKeyHome_def)

lemma key_test:
  assumes "i < 16"
  shows "(x :: u32) AND kMap ! i \<noteq> 0 \<longleftrightarrow> i < 15 \<and> bit x (key_bits ! i)"
proof -
  have "length key_bits = 15" by (simp add: key_bits_def)
  moreover have "x AND push_bit k 1 \<noteq> 0 \<longleftrightarrow> bit x k" if "k < 32" for k
    using that by (simp add: and_exp_eq_0_iff_not_bit)
  moreover have "key_bits ! i < 32" if "i < 15"
    using that key_bits_below nth_mem [of i key_bits] \<open>length key_bits = 15\<close> by fastforce
  ultimately show ?thesis using assms by (auto simp: kMap_bits nth_append)
qed

text \<open>
  C25: The two ways in which the engine can ask for buttons agree: bit \<open>i\<close> of the mask of all joypad
  buttons is the answer for button \<open>i\<close>, and that is whether the key of this button is held; and the
  fifteen keys of the app each have one button.
\<close>

theorem td_buttons_agree:
  assumes "i < 16"
  shows "(bit (InputState flf 0 Joypad index 256 t) i \<longleftrightarrow> InputState flf 0 Joypad index i t = 1) \<and>
    (InputState flf 0 Joypad index i t = 1 \<longleftrightarrow> i < 15 \<and> bit (in_keys (td_input t)) (key_bits ! i)) \<and>
    distinct key_bits \<and> set key_bits = {..<15}"
proof -
  have "bit (joypad_mask (in_keys (td_input t))) i \<longleftrightarrow> in_keys (td_input t) AND kMap ! i \<noteq> 0"
    unfolding joypad_mask_def using assms by (subst fold_bits) auto
  moreover have "distinct key_bits \<and> set key_bits = {..<15}"
    by (simp add: key_bits_def set_eq_iff) presburger
  ultimately show ?thesis using assms key_test [of i "in_keys (td_input t)"] by (simp add: InputState_def)
qed

lemma td_buttons_agree_witness:
  "bit (InputState (\<lambda>x. x) 0 Joypad 0 256 (demo_booted\<lparr>td_input := input_new\<lparr>in_keys := 1\<rparr>\<rparr>)) 8"
  using td_buttons_agree [of 8 "\<lambda>x. x" 0 "demo_booted\<lparr>td_input := input_new\<lparr>in_keys := 1\<rparr>\<rparr>"] by (simp add: key_bits_def)

section \<open>Resolution\<close>

text \<open>
  The render scale the session shows is the one the engine is told: the player's choice, lowered to
  the thermal cap when there is one, and always from 1 to 8.
\<close>

theorem td_render_scale:
  "td_RenderScale cfg t = scale_option cfg \<and> 1 \<le> scale_option cfg \<and> scale_option cfg \<le> 8 \<and>
   OptionOverride cfg v ''citra_resolution_factor'' = to_string (scale_option cfg) \<and>
   (0 < to_int32 (GetInt cfg ''video.scaleCap'' 0) \<longrightarrow> scale_option cfg \<le> to_int32 (GetInt cfg ''video.scaleCap'' 0))"
proof -
  have "to_string i \<noteq> []" for i by (simp add: to_string_def)
  then show ?thesis by (auto simp: td_RenderScale_def OptionOverride_def scale_option_def Let_def clamp_def)
qed

lemma td_render_scale_witness:
  "scale_option (SetInt ''video.scaleCap'' 2 config_new) \<le> 2"
  using td_render_scale [of "SetInt ''video.scaleCap'' 2 config_new" demo_booted False]
  by (simp add: GetInt_def SetInt_def to_int32_def)

section \<open>The framebuffer and the engine's geometry\<close>

text \<open>A change of geometry never makes the framebuffer smaller, and leaves a Vulkan core without one.\<close>

lemma td_geometry_grows:
  "td_fboW t \<le> td_fboW (fst (Environment cfg filesDir (SetGeometry g) t)) \<and>
   td_fboH t \<le> td_fboH (fst (Environment cfg filesDir (SetGeometry g) t)) \<and>
   (td_fbo t = 0 \<longrightarrow> td_names (fst (Environment cfg filesDir (SetGeometry g) t)) = td_names t)"
  by (auto simp: Environment_def Let_def CreateFramebuffer_def DestroyFramebuffer_def)

text \<open>
  A change of the system's audio and video description does: a framebuffer of 800 by 960
  becomes one of 1000 by 240.  And a core that draws with Vulkan gets an
  OpenGL framebuffer it has no use for.
\<close>

definition demo_geometry :: geometry where
  "demo_geometry = \<lparr>base_width = 400, base_height = 240, max_width = 1000, max_height = 240\<rparr>"

lemma td_av_info_shrinks:
  "td_fboH (fst (Environment cfg filesDir (SetSystemAvInfo demo_geometry) (CreateFramebuffer 800 960 t))) = 240"
  "td_useVulkan t \<Longrightarrow> td_fboW t = 0 \<Longrightarrow>
    td_names (fst (Environment cfg filesDir (SetSystemAvInfo demo_geometry) t)) \<noteq> []"
  by (simp_all add: Environment_def demo_geometry_def Let_def CreateFramebuffer_def DestroyFramebuffer_def)

text \<open>
  The thermal policy restores towards the setting of the other systems: a 3DS game at six times the
  resolution, capped at three, goes back to six at once after the first cool minute when the DS scale
  is four.
\<close>

lemma thermal_restores_wrong_scale:
  assumes "thermal_cool p" "since \<noteq> 0" "60000000000 \<le> now - since"
    and "cfg = SetInt ''video.scaleCap'' 3 (SetInt ''3ds.scale'' 6 config_new)"
  shows "scale_option cfg = 3"
    "thermal_decide p now (to_int32 (GetInt cfg ''video.scale'' 4)) (scale_option cfg) (to_int32 (GetInt cfg ''video.scaleCap'' 0)) since = (Some 0, 0)"
    "scale_option (SetInt ''video.scaleCap'' 0 cfg) = 6"
proof -
  have "\<not> thermal_hot p" using assms(1) by (auto simp: thermal_hot_def thermal_cool_def kHot_def kCool_def)
  moreover show "scale_option cfg = 3" "scale_option (SetInt ''video.scaleCap'' 0 cfg) = 6"
    by (simp_all add: assms(4) scale_option_def GetInt_def SetInt_def config_new_def to_int32_def clamp_def Let_def)
  ultimately show "thermal_decide p now (to_int32 (GetInt cfg ''video.scale'' 4)) (scale_option cfg)
      (to_int32 (GetInt cfg ''video.scaleCap'' 0)) since = (Some 0, 0)"
    using assms(1-3) by (simp add: thermal_decide_def assms(4) GetInt_def SetInt_def config_new_def to_int32_def)
qed

end
