(* ===== verification/VkStream.thy ===== *)
theory VkStream
  imports Prelude
begin

text \<open>
  The command layer of the DS Vulkan renderer, class \<^verbatim>\<open>Stream\<close> of \<^verbatim>\<open>vk/VkStream.cpp\<close>: three frame slots, each
  with a command buffer, a fence, an upload ring and resources to free; textures with their tracked
  layout; the open render pass and the caches of passes and framebuffers.

  Vulkan is kept as far as the layer relies on it.  Handles are numbers, 0 is null.  Work submitted to
  the queue is in flight until it finishes, in the order of submission; waiting for a fence finishes the
  submission it belongs to and all before it.  Submissions succeed.
\<close>

section \<open>Vulkan\<close>

datatype layout = LUndefined | LGeneral | LColor | LDepth | LShaderRead | LTransferSrc | LTransferDst

datatype stage =
    TopOfPipe | VertexShader | EarlyTests | FragmentShader | LateTests | ColorOutput | ComputeShader | DrawIndirect |
    Transfer | HostStage

datatype access =
    ShaderRead | ShaderWrite | UniformRead | ColorRead | ColorWrite | DepthRead | DepthWrite | TransferRead | TransferWrite | HostRead |
    IndirectRead

type_synonym rect = "int \<times> int \<times> nat \<times> nat"

text \<open>The recorded commands, with the handles they use: images, and regions of the slot's ring.\<close>

datatype gpu_cmd =
    CBarrier nat layout layout "stage set" "access set" "stage set" "access set"
  | CMemoryBarrier "stage set" "access set" "stage set" "access set"
  | CUpload nat nat nat
  | CReadback nat
  | CCopyBuffer nat nat
  | CCopyImage nat nat
  | CBeginPass nat nat "nat list"
  | CEndPass
  | CViewport int int int int
  | CScissor rect
  | CClearColor nat rect
  | CClearDepth rect
  | CDraw nat "nat list" "(nat \<times> nat) list" "(nat \<times> nat) option" nat
  | CClearImage nat
  | CDispatch nat "nat list"

text \<open>The images, views and framebuffers a command uses until it has finished.\<close>

fun cmd_uses :: "gpu_cmd \<Rightarrow> nat list" where
  "cmd_uses (CBarrier i _ _ _ _ _ _) = [i]"
| "cmd_uses (CUpload _ _ i) = [i]"
| "cmd_uses (CReadback i) = [i]"
| "cmd_uses (CCopyImage i j) = [i, j]"
| "cmd_uses (CBeginPass _ fb views) = fb # views"
| "cmd_uses (CDraw _ views _ _ _) = views"
| "cmd_uses (CClearImage i) = [i]"
| "cmd_uses (CDispatch _ views) = views"
| "cmd_uses _ = []"

definition cmds_use :: "gpu_cmd list \<Rightarrow> nat set" where
  "cmds_use cs = (\<Union>c \<in> set cs. set (cmd_uses c))"

text \<open>The queue once the submissions up to the last one of slot \<open>k\<close> have finished.\<close>

fun finish :: "nat \<Rightarrow> (nat \<times> gpu_cmd list) list \<Rightarrow> (nat \<times> gpu_cmd list) list" where
  "finish k [] = []"
| "finish k (x # xs) = (if k \<in> fst ` set (x # xs) then finish k xs else x # xs)"

section \<open>State\<close>

record texture =
  tx_image :: nat
  tx_view :: nat
  tx_layerViews :: "nat list"
  tx_format :: nat
  tx_width :: nat
  tx_height :: nat
  tx_layers :: nat
  tx_depth :: bool
  tx_layout :: layout
  tx_lastStage :: "stage set"
  tx_lastAccess :: "access set"
  tx_lastWasWrite :: bool

definition texture_new :: texture where
  "texture_new = \<lparr>tx_image = 0, tx_view = 0, tx_layerViews = [], tx_format = 0, tx_width = 0, tx_height = 0,
     tx_layers = 0, tx_depth = False, tx_layout = LUndefined, tx_lastStage = {TopOfPipe}, tx_lastAccess = {},
     tx_lastWasWrite = False\<rparr>"

record texture_desc =
  td_width :: nat
  td_height :: nat
  td_layers :: nat
  td_format :: nat
  td_renderTarget :: bool
  td_depth :: bool

text \<open>\<open>sl_regions\<close> records the regions handed out since the slot was begun.\<close>

record slot =
  sl_recording :: bool
  sl_submitted :: bool
  sl_ringUsed :: nat
  sl_frees :: "nat list list"
  sl_cmds :: "gpu_cmd list"
  sl_regions :: "(nat \<times> nat) list"

definition slot_new :: slot where
  "slot_new = \<lparr>sl_recording = False, sl_submitted = False, sl_ringUsed = 0, sl_frees = [], sl_cmds = [], sl_regions = []\<rparr>"

definition kSlots :: nat where "kSlots = 3"

definition kRingSize :: nat where "kRingSize = 16 * 1024 * 1024"

text \<open>
  Texture objects are named by numbers, \<open>st_tex\<close> gives their contents; an attachment is such a name
  and a layer.  \<open>st_freed\<close> are the handles destroyed and \<open>st_bad\<close> whether one was while in flight.
\<close>

record stream =
  st_slots :: "slot list"
  st_current :: nat
  st_inflight :: "(nat \<times> gpu_cmd list) list"
  st_tex :: "nat \<Rightarrow> texture"
  st_next :: nat
  st_freed :: "nat list"
  st_bad :: bool
  st_pass :: nat
  st_colors :: "(nat \<times> nat) list"
  st_depth :: "(nat \<times> nat) option"
  st_passW :: nat
  st_passH :: nat
  st_scissor :: rect
  st_passCache :: "nat list \<rightharpoonup> nat"
  st_fbCache :: "(nat list \<times> nat) list"

definition stream_new :: stream where
  "stream_new = \<lparr>st_slots = [slot_new, slot_new, slot_new], st_current = 0, st_inflight = [],
     st_tex = (\<lambda>_. texture_new), st_next = 1, st_freed = [], st_bad = False, st_pass = 0, st_colors = [],
     st_depth = None, st_passW = 0, st_passH = 0, st_scissor = (0, 0, 0, 0), st_passCache = (\<lambda>_. None), st_fbCache = []\<rparr>"

definition Slot :: "stream \<Rightarrow> slot" where
  "Slot s = st_slots s ! st_current s"

definition upd_slot :: "(slot \<Rightarrow> slot) \<Rightarrow> stream \<Rightarrow> stream" where
  "upd_slot f s = s\<lparr>st_slots := (st_slots s)[st_current s := f (Slot s)]\<rparr>"

section \<open>Slots\<close>

definition wait_fence :: "nat \<Rightarrow> stream \<Rightarrow> stream" where
  "wait_fence k s = s\<lparr>st_inflight := finish k (st_inflight s)\<rparr>"

definition in_flight :: "stream \<Rightarrow> nat set" where
  "in_flight s = (\<Union>x \<in> set (st_inflight s). cmds_use (snd x))"

definition release :: "nat list \<Rightarrow> stream \<Rightarrow> stream" where
  "release rs s = s\<lparr>st_freed := st_freed s @ rs, st_bad := (st_bad s \<or> set rs \<inter> in_flight s \<noteq> {})\<rparr>"

text \<open>The deferred frees of the current slot.\<close>

definition run_frees :: "stream \<Rightarrow> stream" where
  "run_frees s = upd_slot (\<lambda>sl. sl\<lparr>sl_frees := []\<rparr>) (fold release (sl_frees (Slot s)) s)"

definition BeginSlot :: "stream \<Rightarrow> stream" where
  "BeginSlot s =
     (if sl_recording (Slot s) then s
      else
        let s1 = (if sl_submitted (Slot s)
                  then upd_slot (\<lambda>sl. sl\<lparr>sl_submitted := False\<rparr>) (wait_fence (st_current s) s) else s)
        in upd_slot (\<lambda>sl. sl\<lparr>sl_ringUsed := 0, sl_recording := True, sl_cmds := [], sl_regions := []\<rparr>) (run_frees s1))"

definition put_cmd :: "gpu_cmd \<Rightarrow> stream \<Rightarrow> stream" where
  "put_cmd c s = upd_slot (\<lambda>sl. sl\<lparr>sl_cmds := sl_cmds sl @ [c]\<rparr>) s"

text \<open>A command recorded into \<open>Cmd()\<close>.\<close>

definition emit :: "gpu_cmd \<Rightarrow> stream \<Rightarrow> stream" where
  "emit c s = put_cmd c (BeginSlot s)"

definition EndRendering :: "stream \<Rightarrow> stream" where
  "EndRendering s =
     (if st_pass s = 0 then s
      else (put_cmd CEndPass s)\<lparr>st_pass := 0, st_colors := [], st_depth := None\<rparr>)"

definition Flush :: "bool \<Rightarrow> stream \<Rightarrow> stream" where
  "Flush wait s =
     (if \<not> sl_recording (Slot s) then (if wait then s\<lparr>st_inflight := []\<rparr> else s)
      else
        let s1 = EndRendering s; k = st_current s;
            s2 = upd_slot (\<lambda>sl. sl\<lparr>sl_recording := False, sl_submitted := True\<rparr>)
                   (s1\<lparr>st_inflight := st_inflight s1 @ [(k, sl_cmds (Slot s1))]\<rparr>);
            s3 = (if wait then run_frees (upd_slot (\<lambda>sl. sl\<lparr>sl_submitted := False\<rparr>) (wait_fence k s2)) else s2)
        in s3\<lparr>st_current := (k + 1) mod kSlots\<rparr>)"

section \<open>Barriers\<close>

definition Use :: "nat \<Rightarrow> layout \<Rightarrow> stage set \<Rightarrow> access set \<Rightarrow> bool \<Rightarrow> stream \<Rightarrow> stream" where
  "Use t l stages acc w s =
     (let x = st_tex s t in
      if tx_layout x = l \<and> \<not> tx_lastWasWrite x \<and> \<not> w then s
      else
        let s1 = (if st_pass s \<noteq> 0 then EndRendering s else s);
            s2 = emit (CBarrier (tx_image x) (tx_layout x) l (tx_lastStage x)
                        (if tx_lastWasWrite x then tx_lastAccess x else {}) stages acc) s1
        in s2\<lparr>st_tex := (st_tex s2)(t := x\<lparr>tx_layout := l, tx_lastStage := stages, tx_lastAccess := acc, tx_lastWasWrite := w\<rparr>)\<rparr>)"

section \<open>Render passes\<close>

definition RenderPassFor :: "nat list \<Rightarrow> nat \<Rightarrow> stream \<Rightarrow> stream \<times> nat" where
  "RenderPassFor colors depth s =
     (case st_passCache s (colors @ [depth]) of
        Some rp \<Rightarrow> (s, rp)
      | None \<Rightarrow> (s\<lparr>st_passCache := (st_passCache s)(colors @ [depth] \<mapsto> st_next s), st_next := st_next s + 1\<rparr>, st_next s))"

definition FramebufferFor :: "nat \<Rightarrow> nat list \<Rightarrow> nat \<Rightarrow> nat \<Rightarrow> stream \<Rightarrow> stream \<times> nat" where
  "FramebufferFor pass views w h s =
     (let key = pass # views @ [w * 2 ^ 32 + h] in
      case map_of (st_fbCache s) key of
        Some fb \<Rightarrow> (s, fb)
      | None \<Rightarrow> (s\<lparr>st_fbCache := (key, st_next s) # st_fbCache s, st_next := st_next s + 1\<rparr>, st_next s))"

definition SetViewport :: "int \<Rightarrow> int \<Rightarrow> int \<Rightarrow> int \<Rightarrow> stream \<Rightarrow> stream" where
  "SetViewport x y w h s = emit (CViewport x y w h) s"

definition clip_scissor :: "nat \<Rightarrow> nat \<Rightarrow> int \<Rightarrow> int \<Rightarrow> int \<Rightarrow> int \<Rightarrow> rect" where
  "clip_scissor pw ph x y w h =
     (let x0 = max 0 x; y0 = max 0 y; x1 = min (int pw) (x + w); y1 = min (int ph) (y + h)
      in (x0, y0, nat (max 0 (x1 - x0)), nat (max 0 (y1 - y0))))"

definition SetScissor :: "int \<Rightarrow> int \<Rightarrow> int \<Rightarrow> int \<Rightarrow> stream \<Rightarrow> stream" where
  "SetScissor x y w h s =
     (let r = clip_scissor (st_passW s) (st_passH s) x y w h in emit (CScissor r) (s\<lparr>st_scissor := r\<rparr>))"

text \<open>Using the attachments in order; the size is that of the last colour.\<close>

definition use_color :: "nat \<times> nat \<Rightarrow> stream \<Rightarrow> stream" where
  "use_color a s = Use (fst a) LColor {ColorOutput} {ColorRead, ColorWrite} True s"

definition use_depth :: "(nat \<times> nat) option \<Rightarrow> stream \<Rightarrow> stream" where
  "use_depth d s =
     (case d of None \<Rightarrow> s | Some a \<Rightarrow> Use (fst a) LDepth {EarlyTests, LateTests} {DepthRead, DepthWrite} True s)"

definition layer_view :: "stream \<Rightarrow> nat \<times> nat \<Rightarrow> nat" where
  "layer_view s a = tx_layerViews (st_tex s (fst a)) ! snd a"

definition pass_size :: "stream \<Rightarrow> (nat \<times> nat) list \<Rightarrow> nat \<times> nat" where
  "pass_size s colors =
     (if colors = [] then (0, 0)
      else (tx_width (st_tex s (fst (last colors))), tx_height (st_tex s (fst (last colors)))))"

definition BeginRendering :: "(nat \<times> nat) list \<Rightarrow> (nat \<times> nat) option \<Rightarrow> stream \<Rightarrow> stream" where
  "BeginRendering colors depth s =
     (if st_pass s \<noteq> 0 \<and> depth = st_depth s \<and> colors = st_colors s then s
      else
        let s1 = use_depth depth (fold use_color colors (EndRendering s));
            formats = List.map (\<lambda>a. tx_format (st_tex s1 (fst a))) colors;
            views = List.map (layer_view s1) colors @ (case depth of None \<Rightarrow> [] | Some a \<Rightarrow> [layer_view s1 a]);
            depthFormat = (case depth of None \<Rightarrow> 0 | Some a \<Rightarrow> tx_format (st_tex s1 (fst a)));
            (w, h) = pass_size s1 colors;
            (s2, pass) = RenderPassFor formats depthFormat s1;
            (s3, fb) = FramebufferFor pass views w h s2;
            s4 = (emit (CBeginPass pass fb views) s3)\<lparr>st_pass := pass, st_colors := colors, st_depth := depth, st_passW := w, st_passH := h\<rparr>
        in SetScissor 0 0 (int w) (int h) (SetViewport 0 0 (int w) (int h) s4))"

definition RestartSlot :: "stream \<Rightarrow> stream" where
  "RestartSlot s =
     (let s1 = BeginSlot (Flush False s) in
      if st_pass s \<noteq> 0
      then case st_scissor s of
             (x, y, w, h) \<Rightarrow> SetScissor x y (int w) (int h) (BeginRendering (st_colors s) (st_depth s) s1)
      else s1)"

section \<open>Upload space\<close>

text \<open>Alignments are powers of two, for which this is the code's masking.\<close>

definition AlignUp :: "nat \<Rightarrow> nat \<Rightarrow> nat" where
  "AlignUp v a = (v + a - 1) div a * a"

definition EnsureSpace :: "nat \<Rightarrow> stream \<Rightarrow> stream" where
  "EnsureSpace n s =
     (let s1 = BeginSlot s in if sl_ringUsed (Slot s1) + n > kRingSize then RestartSlot s1 else s1)"

definition Allocate :: "nat \<Rightarrow> nat \<Rightarrow> stream \<Rightarrow> stream \<times> nat" where
  "Allocate n a s =
     (let s1 = BeginSlot s;
          off = AlignUp (sl_ringUsed (Slot s1)) a;
          (s2, off2) = (if off + n > kRingSize then (RestartSlot s1, 0) else (s1, off))
      in (upd_slot (\<lambda>sl. sl\<lparr>sl_ringUsed := off2 + n, sl_regions := (off2, n) # sl_regions sl\<rparr>) s2, off2))"

text \<open>\<open>full\<close>: the slot's descriptor pool has no room left.\<close>

definition AllocateSet :: "bool \<Rightarrow> stream \<Rightarrow> stream" where
  "AllocateSet full s = (let s1 = BeginSlot s in if full then RestartSlot s1 else s1)"

definition AllocateDescriptorSet :: "bool \<Rightarrow> stream \<Rightarrow> stream" where
  "AllocateDescriptorSet full s = AllocateSet full (EndRendering s)"

section \<open>Textures\<close>

definition DestroyTexture :: "nat \<Rightarrow> stream \<Rightarrow> stream" where
  "DestroyTexture t s =
     (let x = st_tex s t in
      if tx_image x = 0 then s
      else
        let s1 = EndRendering s;
            views = tx_layerViews x @ [tx_view x];
            dead = filter (\<lambda>e. \<exists>k \<in> set (fst e). k \<in> set views) (st_fbCache s1);
            s2 = s1\<lparr>st_fbCache := filter (\<lambda>e. \<not> (\<exists>k \<in> set (fst e). k \<in> set views)) (st_fbCache s1)\<rparr>;
            handles = List.map snd dead @ filter (\<lambda>v. v \<noteq> 0) views @ [tx_image x];
            s3 = (if sl_recording (Slot s2) \<or> sl_submitted (Slot s2)
                  then upd_slot (\<lambda>sl. sl\<lparr>sl_frees := sl_frees sl @ [handles]\<rparr>) s2 else release handles s2);
            s4 = s3\<lparr>st_tex := (st_tex s3)(t := texture_new)\<rparr>
        in fold (\<lambda>k u. if k \<noteq> st_current u \<and> sl_submitted (st_slots u ! k) then wait_fence k u else u) [0..<kSlots] s4)"

text \<open>\<open>created\<close>: whether the image can be created.\<close>

definition CreateTexture :: "bool \<Rightarrow> nat \<Rightarrow> texture_desc \<Rightarrow> stream \<Rightarrow> stream \<times> bool" where
  "CreateTexture created t d s =
     (let s1 = DestroyTexture t s in
      if \<not> created then (s1\<lparr>st_tex := (st_tex s1)(t := texture_new)\<rparr>, False)
      else
        let n = st_next s1;
            lv = (if td_renderTarget d then [n + 2..<n + 2 + td_layers d] else [])
        in (s1\<lparr>st_tex := (st_tex s1)(t := texture_new\<lparr>tx_image := n, tx_view := n + 1, tx_layerViews := lv,
                  tx_format := td_format d, tx_width := td_width d, tx_height := td_height d, tx_layers := td_layers d,
                  tx_depth := td_depth d\<rparr>),
               st_next := n + 2 + length lv\<rparr>, True))"

definition UploadTexture :: "nat \<Rightarrow> int \<Rightarrow> int \<Rightarrow> nat \<Rightarrow> stream \<Rightarrow> stream" where
  "UploadTexture t w h bpp s =
     (if w \<le> 0 \<or> h \<le> 0 then s
      else
        let n = nat w * nat h * bpp;
            (s1, off) = Allocate n 16 s;
            s2 = Use t LTransferDst {Transfer} {TransferWrite} True s1
        in emit (CUpload off n (tx_image (st_tex s2 t))) s2)"

definition PrepareForExternalRead :: "nat \<Rightarrow> stream \<Rightarrow> stream" where
  "PrepareForExternalRead t s = Use t LShaderRead {FragmentShader} {ShaderRead} False s"

text \<open>\<open>created\<close>: whether the buffer to read into can be created.\<close>

definition ReadTexture :: "bool \<Rightarrow> nat \<Rightarrow> stream \<Rightarrow> stream \<times> bool" where
  "ReadTexture created t s =
     (if \<not> created then (s, False)
      else
        let s1 = Use t LTransferSrc {Transfer} {TransferRead} False s;
            s2 = emit (CReadback (tx_image (st_tex s1 t))) s1;
            s3 = emit (CMemoryBarrier {Transfer} {TransferWrite} {HostStage} {HostRead}) s2
        in (Flush True s3, True))"

section \<open>Clearing and drawing\<close>

definition scissor_empty :: "stream \<Rightarrow> bool" where
  "scissor_empty s = (case st_scissor s of (x, y, w, h) \<Rightarrow> w = 0 \<or> h = 0)"

definition ClearColor :: "nat \<Rightarrow> stream \<Rightarrow> stream" where
  "ClearColor i s = (if st_pass s = 0 \<or> scissor_empty s then s else emit (CClearColor i (st_scissor s)) s)"

definition ClearDepth :: "stream \<Rightarrow> stream" where
  "ClearDepth s =
     (if st_pass s = 0 \<or> st_depth s = None \<or> scissor_empty s then s else emit (CClearDepth (st_scissor s)) s)"

text \<open>A binding of a draw: a texture, or a uniform buffer of a size.\<close>

datatype binding = BTexture nat | BUniform nat

definition unreadable :: "stream \<Rightarrow> binding \<Rightarrow> bool" where
  "unreadable s b =
     (case b of BTexture t \<Rightarrow> tx_layout (st_tex s t) \<noteq> LShaderRead \<or> tx_lastWasWrite (st_tex s t) | BUniform n \<Rightarrow> False)"

definition use_binding :: "binding \<Rightarrow> stream \<Rightarrow> stream" where
  "use_binding b s =
     (case b of BTexture t \<Rightarrow> Use t LShaderRead {VertexShader, FragmentShader} {ShaderRead} False s | BUniform n \<Rightarrow> s)"

definition make_readable :: "binding list \<Rightarrow> stream \<Rightarrow> stream" where
  "make_readable bs s =
     (if \<exists>b \<in> set bs. unreadable s b
      then case st_scissor s of
             (x, y, w, h) \<Rightarrow>
               SetScissor x y (int w) (int h)
                 (BeginRendering (st_colors s) (st_depth s) (fold use_binding bs (EndRendering s)))
      else s)"

definition space_needed :: "nat \<Rightarrow> binding list \<Rightarrow> nat \<Rightarrow> nat" where
  "space_needed uboAlign bs vertexBytes =
     AlignUp vertexBytes 16 + 16 +
     (\<Sum>b \<leftarrow> bs. case b of BTexture t \<Rightarrow> 0 | BUniform n \<Rightarrow> AlignUp n uboAlign + uboAlign)"

fun bind_uniforms :: "nat \<Rightarrow> binding list \<Rightarrow> stream \<Rightarrow> stream \<times> (nat \<times> nat) list" where
  "bind_uniforms a [] s = (s, [])"
| "bind_uniforms a (BTexture t # bs) s = bind_uniforms a bs s"
| "bind_uniforms a (BUniform n # bs) s =
     (case Allocate n a s of (s1, off) \<Rightarrow> (case bind_uniforms a bs s1 of (s2, rs) \<Rightarrow> (s2, (off, n) # rs)))"

definition binding_views :: "stream \<Rightarrow> binding list \<Rightarrow> nat list" where
  "binding_views s bs = concat (List.map (\<lambda>b. case b of BTexture t \<Rightarrow> [tx_image (st_tex s t), tx_view (st_tex s t)] | BUniform n \<Rightarrow> []) bs)"

text \<open>The state in which the data of a draw are placed.\<close>

definition draw_slot :: "bool \<Rightarrow> bool \<Rightarrow> nat \<Rightarrow> binding list \<Rightarrow> nat \<Rightarrow> stream \<Rightarrow> stream" where
  "draw_slot hasSet full a bs vb s =
     (let s1 = EnsureSpace (space_needed a bs vb) (make_readable bs s) in if hasSet then AllocateSet full s1 else s1)"

text \<open>The uniforms and the vertices of a draw.\<close>

definition draw_data :: "bool \<Rightarrow> nat \<Rightarrow> binding list \<Rightarrow> nat \<Rightarrow> stream \<Rightarrow> stream \<times> (nat \<times> nat) list \<times> (nat \<times> nat) option" where
  "draw_data hasSet a bs vb s =
     (let (s2, uniforms) = (if hasSet then bind_uniforms a bs s else (s, []));
          (s3, vertices) = (if vb > 0 then case Allocate vb 16 s2 of (u, off) \<Rightarrow> (u, Some (off, vb)) else (s2, None))
      in (s3, uniforms, vertices))"

text \<open>
  A draw with its bindings; \<open>hasSet\<close> is whether the pipeline has descriptors, \<open>vertexBytes\<close> is 0 without
  vertices.
\<close>

definition Draw :: "nat \<Rightarrow> bool \<Rightarrow> bool \<Rightarrow> nat \<Rightarrow> binding list \<Rightarrow> nat \<Rightarrow> nat \<Rightarrow> stream \<Rightarrow> stream" where
  "Draw pipeline hasSet full uboAlign bs vertexBytes vertexCount s =
     (if st_pass s = 0 \<or> vertexCount = 0 then s
      else
        let (t, uniforms, vertices) = draw_data hasSet uboAlign bs vertexBytes (draw_slot hasSet full uboAlign bs vertexBytes s)
        in emit (CDraw pipeline (if hasSet then binding_views t bs else []) uniforms vertices vertexCount)
             (emit (CScissor (st_scissor t)) t))"

section \<open>Buffers\<close>

definition MemoryBarrier :: "stage set \<Rightarrow> access set \<Rightarrow> stage set \<Rightarrow> access set \<Rightarrow> stream \<Rightarrow> stream" where
  "MemoryBarrier ss sa ds da s = emit (CMemoryBarrier ss sa ds da) (EndRendering s)"

definition UploadBuffer :: "nat \<Rightarrow> stream \<Rightarrow> stream" where
  "UploadBuffer n s =
     (if n = 0 then s
      else
        let (s1, off) = Allocate n 16 s;
            s2 = MemoryBarrier {ComputeShader, Transfer} {ShaderWrite, TransferWrite} {Transfer} {TransferWrite} s1
        in MemoryBarrier {Transfer} {TransferWrite} {ComputeShader} {ShaderRead, ShaderWrite, UniformRead}
             (emit (CCopyBuffer off n) s2))"

end
