(* ===== verification/VkStreamSpace.thy ===== *)
theory VkStreamSpace
  imports VkStream
begin

text \<open>
  The upload rings of the Vulkan command layer: what is handed out lies in the ring, is never handed
  out twice before the GPU is done with it, and the data of one draw are all in the slot that draws.
\<close>

section \<open>The slots\<close>

definition recording :: "stream \<Rightarrow> bool" where
  "recording s \<longleftrightarrow> sl_recording (Slot s)"

text \<open>Regions are handed out upwards, and the ring is used up to the last.\<close>

definition space_ok :: "slot \<Rightarrow> bool" where
  "space_ok sl \<longleftrightarrow>
     sorted_wrt (\<lambda>(o1, n1) (o2, n2). o2 + n2 \<le> o1) (sl_regions sl) \<and> (\<forall>(off, n) \<in> set (sl_regions sl). off + n \<le> sl_ringUsed sl) \<and>
     sl_ringUsed sl \<le> kRingSize"

definition slots_inv :: "stream \<Rightarrow> bool" where
  "slots_inv s \<longleftrightarrow>
     length (st_slots s) = kSlots \<and> st_current s < kSlots \<and>
     (\<forall>k < kSlots. k \<noteq> st_current s \<longrightarrow> \<not> sl_recording (st_slots s ! k)) \<and> (recording s \<longrightarrow> space_ok (Slot s)) \<and>
     (\<forall>x \<in> set (st_inflight s). fst x < kSlots \<and> sl_submitted (st_slots s ! fst x) \<and> \<not> sl_recording (st_slots s ! fst x)) \<and>
     (st_pass s \<noteq> 0 \<longrightarrow> recording s)"

lemma slots_inv_new: "slots_inv stream_new"
  by (simp add: slots_inv_def stream_new_def kSlots_def slot_new_def less_Suc_eq numeral_3_eq_3 recording_def Slot_def)

lemma Slot_upd [simp]:
  "st_current s < length (st_slots s) \<Longrightarrow> Slot (upd_slot f s) = f (Slot s)"
  "st_current (upd_slot f s) = st_current s" "length (st_slots (upd_slot f s)) = length (st_slots s)"
  "st_inflight (upd_slot f s) = st_inflight s" "st_pass (upd_slot f s) = st_pass s"
  by (simp_all add: Slot_def upd_slot_def)

lemma slots_inv_current: "slots_inv s \<Longrightarrow> st_current s < length (st_slots s)"
  by (simp add: slots_inv_def)

text \<open>A slot that is being recorded is not in flight.\<close>

lemma recording_not_in_flight: "slots_inv s \<Longrightarrow> recording s \<Longrightarrow> st_current s \<notin> fst ` set (st_inflight s)"
proof
  assume s: "slots_inv s" "recording s" and "st_current s \<in> fst ` set (st_inflight s)"
  then obtain x where x: "x \<in> set (st_inflight s)" "fst x = st_current s" by auto
  from s(1) have "\<forall>x \<in> set (st_inflight s). \<not> sl_recording (st_slots s ! fst x)" by (simp add: slots_inv_def)
  with x s(2) show False by (metis Slot_def recording_def)
qed

lemma finish_subset: "set (finish k xs) \<subseteq> set xs"
  by (induction xs) auto

lemma finish_done: "k \<notin> fst ` set (finish k xs)"
proof (induction xs)
  case (Cons x xs)
  then show ?case by (cases "k \<in> fst ` set (x # xs)") simp_all
qed simp

lemma finish_snoc: "finish k (xs @ [(k, c)]) = []"
  by (induction xs) simp_all

section \<open>Recording keeps the ring\<close>

text \<open>Steps that only record commands in the current slot.\<close>

definition records :: "stream \<Rightarrow> stream \<Rightarrow> bool" where
  "records s s' \<longleftrightarrow> st_current s' = st_current s \<and> st_inflight s' = st_inflight s \<and>
     length (st_slots s') = length (st_slots s) \<and> (\<forall>k. k \<noteq> st_current s \<longrightarrow> st_slots s' ! k = st_slots s ! k) \<and>
     (\<exists>cs. Slot s' = (Slot s)\<lparr>sl_cmds := sl_cmds (Slot s) @ cs\<rparr>)"

lemma records_refl: "records s s"
  by (auto simp: records_def intro!: exI [where x = "[]"])

lemma records_trans:
  assumes "records s t" "records t u"
  shows "records s u"
proof -
  obtain cs ds where cs: "Slot t = (Slot s)\<lparr>sl_cmds := sl_cmds (Slot s) @ cs\<rparr>" and ds: "Slot u = (Slot t)\<lparr>sl_cmds := sl_cmds (Slot t) @ ds\<rparr>"
    using assms by (auto simp: records_def)
  have "Slot u = (Slot s)\<lparr>sl_cmds := sl_cmds (Slot s) @ cs @ ds\<rparr>" using cs ds by simp
  with assms show ?thesis unfolding records_def by auto
qed

lemma records_fields [simp]:
  "records s (t\<lparr>st_tex := x1\<rparr>) = records s t" "records s (t\<lparr>st_next := x2\<rparr>) = records s t"
  "records s (t\<lparr>st_pass := x3\<rparr>) = records s t" "records s (t\<lparr>st_colors := x4\<rparr>) = records s t"
  "records s (t\<lparr>st_depth := x5\<rparr>) = records s t" "records s (t\<lparr>st_passW := x6\<rparr>) = records s t"
  "records s (t\<lparr>st_passH := x7\<rparr>) = records s t" "records s (t\<lparr>st_scissor := x8\<rparr>) = records s t"
  "records s (t\<lparr>st_passCache := x9\<rparr>) = records s t" "records s (t\<lparr>st_fbCache := x10\<rparr>) = records s t"
  by (simp_all add: records_def Slot_def)

lemma Slot_fields [simp]:
  "Slot (t\<lparr>st_tex := x1\<rparr>) = Slot t" "Slot (t\<lparr>st_next := x2\<rparr>) = Slot t" "Slot (t\<lparr>st_pass := x3\<rparr>) = Slot t"
  "Slot (t\<lparr>st_colors := x4\<rparr>) = Slot t" "Slot (t\<lparr>st_depth := x5\<rparr>) = Slot t" "Slot (t\<lparr>st_passW := x6\<rparr>) = Slot t"
  "Slot (t\<lparr>st_passH := x7\<rparr>) = Slot t" "Slot (t\<lparr>st_scissor := x8\<rparr>) = Slot t" "Slot (t\<lparr>st_passCache := x9\<rparr>) = Slot t"
  "Slot (t\<lparr>st_fbCache := x10\<rparr>) = Slot t" "Slot (t\<lparr>st_inflight := x11\<rparr>) = Slot t" "Slot (t\<lparr>st_freed := x12\<rparr>) = Slot t"
  "Slot (t\<lparr>st_bad := x13\<rparr>) = Slot t"
  by (simp_all add: Slot_def)

lemma put_cmd_records: "st_current t < length (st_slots t) \<Longrightarrow> records s t \<Longrightarrow> records s (put_cmd c t)"
  by (rule records_trans [of s t]) (auto simp: records_def put_cmd_def upd_slot_def Slot_def)

definition ready :: "stream \<Rightarrow> bool" where
  "ready s \<longleftrightarrow> st_current s < length (st_slots s) \<and> recording s"

lemma ready_records: "ready s \<Longrightarrow> records s t \<Longrightarrow> ready t"
  by (auto simp: ready_def records_def recording_def)

lemma emit_records:
  assumes "ready s" "records s t"
  shows "records s (emit c t)"
proof -
  have "ready t" using assms by (rule ready_records)
  then have "BeginSlot t = t" by (simp add: BeginSlot_def ready_def recording_def)
  with \<open>ready t\<close> assms(2) show ?thesis by (simp add: emit_def ready_def put_cmd_records)
qed

lemma EndRendering_records: "ready s \<Longrightarrow> records s t \<Longrightarrow> records s (EndRendering t)"
  using ready_records [of s t] put_cmd_records [of t s CEndPass] by (auto simp: EndRendering_def ready_def)

lemma Use_records: "ready s \<Longrightarrow> records s t \<Longrightarrow> records s (Use x l ss acc w t)"
  by (simp add: Use_def Let_def emit_records EndRendering_records)

lemma fold_records: "(\<And>x t. records s t \<Longrightarrow> records s (f x t)) \<Longrightarrow> records s t \<Longrightarrow> records s (fold f xs t)"
  by (induction xs arbitrary: t) simp_all

lemma SetScissor_records: "ready s \<Longrightarrow> records s t \<Longrightarrow> records s (SetScissor x y w h t)"
  by (simp add: SetScissor_def Let_def emit_records)

lemma BeginRendering_records:
  assumes "ready s" "records s t"
  shows "records s (BeginRendering colors depth t)"
proof -
  have pass: "records s (fst (RenderPassFor cs d u))" if "records s u" for cs d u
    using that by (simp add: RenderPassFor_def split: option.split)
  have fb: "records s (fst (FramebufferFor p vs w h u))" if "records s u" for p vs w h u
    using that by (simp add: FramebufferFor_def Let_def split: option.split)
  have colors: "records s (fold use_color colors (EndRendering t))"
    using assms by (intro fold_records EndRendering_records) (simp_all add: use_color_def Use_records)
  then have "records s (use_depth depth (fold use_color colors (EndRendering t)))"
    using assms(1) by (simp add: use_depth_def Use_records split: option.split)
  note all = pass [OF this] and this
  have "records s u" if "RenderPassFor cs d (use_depth depth (fold use_color colors (EndRendering t))) = (v, p)"
    "FramebufferFor p vs w h v = (u, f)" for cs d v p vs w h u f
    using fb [of v p vs w h] all(1) [of cs d] that by simp
  with assms show ?thesis
    by (auto simp: BeginRendering_def Let_def SetViewport_def intro!: SetScissor_records emit_records split: prod.split)
qed

lemma make_readable_records: "ready s \<Longrightarrow> records s t \<Longrightarrow> records s (make_readable bs t)"
proof -
  assume s: "ready s" "records s t"
  have "records s (fold use_binding bs (EndRendering t))"
    using s by (intro fold_records EndRendering_records) (simp_all add: use_binding_def Use_records split: binding.split)
  with s show ?thesis
    by (auto simp: make_readable_def intro!: SetScissor_records BeginRendering_records split: prod.split)
qed

section \<open>The operations keep the slots\<close>

lemma kSlots_next: "k < kSlots \<Longrightarrow> (k + 1) mod kSlots < kSlots \<and> (k + 1) mod kSlots \<noteq> k"
  unfolding kSlots_def by presburger

lemma slots_inv_records:
  assumes "slots_inv s" "recording s" "records s t"
  shows "slots_inv t \<and> recording t"
proof -
  have t: "recording t" "space_ok (Slot t) = space_ok (Slot s)" "sl_submitted (Slot t) = sl_submitted (Slot s)"
    using assms(2,3) by (auto simp: records_def recording_def space_ok_def)
  have other: "st_slots t ! k = st_slots s ! k" if "k \<noteq> st_current s" for k
    using assms(3) that by (simp add: records_def)
  have same: "st_current t = st_current s" "st_inflight t = st_inflight s" "length (st_slots t) = length (st_slots s)"
    using assms(3) by (simp_all add: records_def)
  have "\<not> sl_recording (st_slots t ! k)" if "k < kSlots" "k \<noteq> st_current t" for k
    using assms(1) that other [of k] same(1) by (simp add: slots_inv_def)
  moreover have "fst x < kSlots \<and> sl_submitted (st_slots t ! fst x) \<and> \<not> sl_recording (st_slots t ! fst x)"
    if "x \<in> set (st_inflight t)" for x
    using assms(1) that other [of "fst x"] same(2) recording_not_in_flight [OF assms(1,2)] unfolding slots_inv_def by force
  ultimately show ?thesis using assms(1,2) t same by (simp add: slots_inv_def)
qed

lemma slots_inv_ready: "slots_inv s \<Longrightarrow> recording s \<Longrightarrow> ready s"
  by (simp add: ready_def slots_inv_current)

text \<open>Changing the slot at the current place.\<close>

lemma slots_inv_upd:
  assumes "length (st_slots s) = kSlots" "st_current s < kSlots"
    and "\<forall>k < kSlots. k \<noteq> st_current s \<longrightarrow> \<not> sl_recording (st_slots s ! k)"
    and "sl_recording (f (Slot s)) \<longrightarrow> space_ok (f (Slot s))" "st_pass s \<noteq> 0 \<longrightarrow> sl_recording (f (Slot s))"
    and "\<forall>x \<in> set (st_inflight s). fst x < kSlots \<and> fst x \<noteq> st_current s \<and> sl_submitted (st_slots s ! fst x)"
  shows "slots_inv (upd_slot f s)"
proof -
  have slot: "st_slots (upd_slot f s) ! k = (if k = st_current s then f (Slot s) else st_slots s ! k)" if "k < kSlots" for k
    using that assms(1) by (simp add: upd_slot_def nth_list_update)
  show ?thesis
    using assms slot by (auto simp: slots_inv_def recording_def)
qed

lemma fold_release_fields [simp]:
  "st_slots (fold release rs s) = st_slots s" "st_current (fold release rs s) = st_current s"
  "st_inflight (fold release rs s) = st_inflight s" "st_pass (fold release rs s) = st_pass s"
  "Slot (fold release rs s) = Slot s"
  by (induction rs arbitrary: s) (simp_all add: release_def Slot_def)

lemma upd_upd: "st_current s < length (st_slots s) \<Longrightarrow> upd_slot f (upd_slot g s) = upd_slot (\<lambda>x. f (g x)) s"
  by (simp add: upd_slot_def Slot_def)

lemma others_idle:
  assumes "slots_inv s"
  shows "\<forall>k < kSlots. k \<noteq> st_current s \<longrightarrow> \<not> sl_recording (st_slots s ! k)"
  using assms by (auto simp: slots_inv_def)

lemma BeginSlot_inv:
  assumes "slots_inv s"
  shows "slots_inv (BeginSlot s) \<and> recording (BeginSlot s) \<and> st_current (BeginSlot s) = st_current s \<and>
    (\<not> recording s \<longrightarrow> sl_ringUsed (Slot (BeginSlot s)) = 0 \<and> sl_regions (Slot (BeginSlot s)) = [])"
proof (cases "recording s")
  case True
  with assms show ?thesis by (simp add: BeginSlot_def recording_def)
next
  case False
  define s1 where "s1 = (if sl_submitted (Slot s)
    then upd_slot (\<lambda>sl. sl\<lparr>sl_submitted := False\<rparr>) (wait_fence (st_current s) s) else s)"
  define f where "f = (\<lambda>sl :: slot. sl\<lparr>sl_frees := [], sl_ringUsed := 0, sl_recording := True, sl_cmds := [], sl_regions := []\<rparr>)"
  have cur: "st_current s1 = st_current s" "length (st_slots s1) = kSlots" "st_current s < kSlots" "st_pass s1 = 0"
    using assms False by (auto simp: s1_def slots_inv_def wait_fence_def upd_slot_def Slot_def)
  have other: "st_slots s1 ! k = st_slots s ! k" if "k \<noteq> st_current s" for k
    using that by (simp add: s1_def upd_slot_def wait_fence_def)
  have infl: "fst x < kSlots \<and> fst x \<noteq> st_current s \<and> sl_submitted (st_slots s ! fst x)" if "x \<in> set (st_inflight s1)" for x
  proof -
    have "x \<in> set (st_inflight s)" using that subsetD [OF finish_subset] by (auto simp: s1_def wait_fence_def split: if_splits)
    moreover have "fst x \<noteq> st_current s"
      using that finish_done [of "st_current s" "st_inflight s"] \<open>x \<in> set (st_inflight s)\<close> assms
      by (cases "sl_submitted (Slot s)") (force simp: s1_def wait_fence_def, auto simp: slots_inv_def Slot_def)
    ultimately show ?thesis using assms by (auto simp: slots_inv_def)
  qed
  let ?u = "fold release (sl_frees (Slot s1)) s1"
  have begun: "BeginSlot s = upd_slot f ?u"
    using False cur unfolding BeginSlot_def run_frees_def Let_def s1_def [symmetric] recording_def
    by (simp add: upd_upd f_def)
  have "slots_inv (upd_slot f ?u)"
    using cur other infl others_idle [OF assms] by (intro slots_inv_upd) (auto simp: f_def space_ok_def)
  then show ?thesis using begun cur by (simp add: recording_def f_def)
qed

lemma EndRendering_pass: "st_pass (EndRendering s) = 0"
  by (simp add: EndRendering_def)

lemma Flush_inv:
  assumes "slots_inv s"
  shows "slots_inv (Flush wait s) \<and> (recording s \<longrightarrow> \<not> recording (Flush wait s)) \<and> st_pass (Flush wait s) = (if recording s then 0 else st_pass s)"
proof (cases "recording s")
  case False
  with assms show ?thesis by (auto simp: Flush_def recording_def slots_inv_def Slot_def)
next
  case True
  define s1 where "s1 = EndRendering s"
  have "records s s1" using slots_inv_ready [OF assms True] by (simp add: s1_def EndRendering_records records_refl)
  then have s1: "slots_inv s1" "recording s1" "st_current s1 = st_current s"
    using slots_inv_records [OF assms True] by (simp_all add: records_def)
  let ?k = "st_current s"
  define s2 where "s2 = upd_slot (\<lambda>sl. sl\<lparr>sl_recording := False, sl_submitted := True\<rparr>)
    (s1\<lparr>st_inflight := st_inflight s1 @ [(?k, sl_cmds (Slot s1))]\<rparr>)"
  define s3 where "s3 = (if wait then run_frees (upd_slot (\<lambda>sl. sl\<lparr>sl_submitted := False\<rparr>) (wait_fence ?k s2)) else s2)"
  have flush: "Flush wait s = s3\<lparr>st_current := (?k + 1) mod kSlots\<rparr>"
    using True unfolding Flush_def Let_def s1_def [symmetric] s2_def [symmetric] s3_def [symmetric] recording_def by simp
  have len: "length (st_slots s3) = kSlots" "st_pass s3 = 0"
    using s1 EndRendering_pass [of s]
    by (auto simp: s3_def s2_def run_frees_def wait_fence_def upd_slot_def slots_inv_def s1_def)
  have rest: "st_slots s3 ! j = st_slots s1 ! j" if "j \<noteq> ?k" for j
    using that s1(3) by (simp add: s3_def s2_def run_frees_def wait_fence_def upd_slot_def)
  have here: "\<not> sl_recording (st_slots s3 ! ?k)" "\<not> wait \<longrightarrow> sl_submitted (st_slots s3 ! ?k)"
    using s1 by (auto simp: s3_def s2_def run_frees_def wait_fence_def upd_slot_def slots_inv_def Slot_def)
  have infl: "st_inflight s3 = (if wait then [] else st_inflight s1 @ [(?k, sl_cmds (Slot s1))])"
    by (simp add: s3_def s2_def run_frees_def wait_fence_def finish_snoc)
  have idle: "\<forall>j < kSlots. \<not> sl_recording (st_slots s3 ! j)"
    using others_idle [OF s1(1)] rest here(1) s1(3) by metis
  have k: "?k < kSlots" using assms by (simp add: slots_inv_def)
  have "fst x < kSlots \<and> sl_submitted (st_slots s3 ! fst x)" if x: "x \<in> set (st_inflight s3)" for x
  proof (cases "fst x = ?k")
    case True
    with x here(2) k infl show ?thesis by (cases wait) auto
  next
    case False
    with x infl have "x \<in> set (st_inflight s1)" by (auto split: if_splits)
    with False rest s1(1) show ?thesis by (simp add: slots_inv_def)
  qed
  with len idle kSlots_next [OF k] have "slots_inv (s3\<lparr>st_current := (?k + 1) mod kSlots\<rparr>)"
    by (simp add: slots_inv_def recording_def Slot_def)
  moreover have "\<not> recording (s3\<lparr>st_current := (?k + 1) mod kSlots\<rparr>)"
    using idle kSlots_next [OF k] by (simp add: recording_def Slot_def)
  ultimately show ?thesis using flush len True by simp
qed

lemma RestartSlot_fresh:
  assumes "slots_inv s"
  shows "slots_inv (RestartSlot s) \<and> recording (RestartSlot s) \<and> sl_ringUsed (Slot (RestartSlot s)) = 0 \<and>
    sl_regions (Slot (RestartSlot s)) = []"
proof -
  define s1 where "s1 = BeginSlot (Flush False s)"
  have f: "slots_inv (Flush False s)" "\<not> recording (Flush False s)"
    using Flush_inv [OF assms, of False] by (auto simp: Flush_def recording_def)
  then have s1: "slots_inv s1" "recording s1" "sl_ringUsed (Slot s1) = 0" "sl_regions (Slot s1) = []"
    using BeginSlot_inv [OF f(1)] by (simp_all add: s1_def)
  have "records s1 (RestartSlot s)"
    using slots_inv_ready [OF s1(1,2)] unfolding RestartSlot_def Let_def s1_def [symmetric]
    by (auto simp: records_refl intro!: SetScissor_records BeginRendering_records split: prod.split)
  then show ?thesis using slots_inv_records [OF s1(1,2)] s1 by (auto simp: records_def)
qed

section \<open>Upload space\<close>

lemma AlignUp_bounds:
  assumes "0 < a"
  shows "v \<le> AlignUp v a" "AlignUp v a < v + a" "a dvd AlignUp v a"
proof -
  have "(v + a - 1) div a * a + (v + a - 1) mod a = v + a - 1" by simp
  moreover have "(v + a - 1) mod a < a" using assms by simp
  ultimately show "v \<le> AlignUp v a" "AlignUp v a < v + a" using assms unfolding AlignUp_def by linarith+
qed (simp add: AlignUp_def)

lemma Allocate_spec:
  assumes "slots_inv s" "Allocate n a s = (s', off)" "0 < a" "n \<le> kRingSize"
  shows "slots_inv s' \<and> recording s' \<and> off + n \<le> kRingSize \<and> a dvd off \<and>
    sl_regions (Slot s') = (off, n) # tl (sl_regions (Slot s')) \<and> sl_ringUsed (Slot s') = off + n"
proof -
  define s1 where "s1 = BeginSlot s"
  define off1 where "off1 = AlignUp (sl_ringUsed (Slot s1)) a"
  define s2 where "s2 = (if off1 + n > kRingSize then RestartSlot s1 else s1)"
  have s1: "slots_inv s1" "recording s1" using BeginSlot_inv [OF assms(1)] by (simp_all add: s1_def)
  have off: "off = (if off1 + n > kRingSize then 0 else off1)"
    and s': "s' = upd_slot (\<lambda>sl. sl\<lparr>sl_ringUsed := off + n, sl_regions := (off, n) # sl_regions sl\<rparr>) s2"
    using assms(2) unfolding Allocate_def Let_def s1_def [symmetric] off1_def [symmetric] s2_def by (auto split: if_splits)
  have s2: "slots_inv s2" "recording s2" using s1 RestartSlot_fresh [OF s1(1)] by (simp_all add: s2_def)
  have used: "sl_ringUsed (Slot s2) \<le> off"
    using RestartSlot_fresh [OF s1(1)] AlignUp_bounds(1) [OF assms(3)] by (simp add: off s2_def off1_def)
  have fits: "off + n \<le> kRingSize" using off assms(4) by simp
  have ok: "space_ok (Slot s2)" using s2 by (simp add: slots_inv_def recording_def Slot_def)
  then have "space_ok ((Slot s2)\<lparr>sl_ringUsed := off + n, sl_regions := (off, n) # sl_regions (Slot s2)\<rparr>)"
    using used fits by (fastforce simp: space_ok_def)
  moreover have "\<forall>x \<in> set (st_inflight s2). fst x < kSlots \<and> fst x \<noteq> st_current s2 \<and> sl_submitted (st_slots s2 ! fst x)"
    using s2(1) recording_not_in_flight [OF s2] by (auto simp: slots_inv_def image_iff)
  ultimately have "slots_inv s'" unfolding s'
    using s2 others_idle [OF s2(1)] by (intro slots_inv_upd) (auto simp: slots_inv_def recording_def)
  moreover have "recording s'" "sl_regions (Slot s') = (off, n) # sl_regions (Slot s2)" "sl_ringUsed (Slot s') = off + n"
    using s2 slots_inv_current [OF s2(1)] by (simp_all add: s' recording_def)
  ultimately show ?thesis using off assms(4) AlignUp_bounds(3) [OF assms(3)] by (simp add: off1_def)
qed

end
