(* ===== verification/VkStreamUpload.thy ===== *)
theory VkStreamUpload
  imports VkStreamSpace
begin

text \<open>
  The Vulkan command layer as its renderer uses it: the states its calls reach, and what they mean for
  the data uploaded.
\<close>

section \<open>Each call keeps the slots\<close>

lemma slots_inv_fields [simp]:
  "slots_inv (t\<lparr>st_tex := x1\<rparr>) = slots_inv t" "slots_inv (t\<lparr>st_next := x2\<rparr>) = slots_inv t"
  "slots_inv (t\<lparr>st_colors := x4\<rparr>) = slots_inv t" "slots_inv (t\<lparr>st_depth := x5\<rparr>) = slots_inv t"
  "slots_inv (t\<lparr>st_passW := x6\<rparr>) = slots_inv t" "slots_inv (t\<lparr>st_passH := x7\<rparr>) = slots_inv t"
  "slots_inv (t\<lparr>st_scissor := x8\<rparr>) = slots_inv t" "slots_inv (t\<lparr>st_passCache := x9\<rparr>) = slots_inv t"
  "slots_inv (t\<lparr>st_fbCache := x10\<rparr>) = slots_inv t" "slots_inv (t\<lparr>st_freed := x12\<rparr>) = slots_inv t"
  "slots_inv (t\<lparr>st_bad := x13\<rparr>) = slots_inv t"
  by (simp_all add: slots_inv_def recording_def)

lemma recording_fields [simp]:
  "recording (t\<lparr>st_tex := x1\<rparr>) = recording t" "recording (t\<lparr>st_next := x2\<rparr>) = recording t"
  "recording (t\<lparr>st_pass := x3\<rparr>) = recording t" "recording (t\<lparr>st_colors := x4\<rparr>) = recording t"
  "recording (t\<lparr>st_depth := x5\<rparr>) = recording t" "recording (t\<lparr>st_passW := x6\<rparr>) = recording t"
  "recording (t\<lparr>st_passH := x7\<rparr>) = recording t" "recording (t\<lparr>st_scissor := x8\<rparr>) = recording t"
  "recording (t\<lparr>st_passCache := x9\<rparr>) = recording t" "recording (t\<lparr>st_fbCache := x10\<rparr>) = recording t"
  by (simp_all add: recording_def)

lemma slots_inv_pass: "slots_inv t \<Longrightarrow> recording t \<Longrightarrow> slots_inv (t\<lparr>st_pass := p\<rparr>)"
  by (simp add: slots_inv_def recording_def)

lemma emit_inv: "slots_inv s \<Longrightarrow> slots_inv (emit c s) \<and> recording (emit c s)"
  using BeginSlot_inv [of s] slots_inv_records [of "BeginSlot s" "emit c s"] put_cmd_records [of "BeginSlot s" "BeginSlot s" c] records_refl
    slots_inv_current [of "BeginSlot s"] by (simp add: emit_def)

lemma emit_pass_inv: "slots_inv s \<Longrightarrow> slots_inv ((emit c s)\<lparr>st_pass := p\<rparr>)"
  by (simp add: slots_inv_pass emit_inv)

lemma EndRendering_inv:
  assumes "slots_inv s"
  shows "slots_inv (EndRendering s)"
proof (cases "st_pass s = 0")
  case True
  with assms show ?thesis by (simp add: EndRendering_def)
next
  case False
  with assms have r: "recording s" by (simp add: slots_inv_def)
  with assms slots_inv_records [OF assms r EndRendering_records [OF _ records_refl]] slots_inv_ready [OF assms r]
  show ?thesis by simp
qed

lemma Use_inv: "slots_inv s \<Longrightarrow> slots_inv (Use t l ss acc w s)"
  by (simp add: Use_def Let_def emit_inv EndRendering_inv)

lemma fold_inv: "(\<And>x t. slots_inv t \<Longrightarrow> slots_inv (f x t)) \<Longrightarrow> slots_inv t \<Longrightarrow> slots_inv (fold f xs t)"
  by (induction xs arbitrary: t) simp_all

lemma SetScissor_inv: "slots_inv s \<Longrightarrow> slots_inv (SetScissor x y w h s)"
  by (simp add: SetScissor_def Let_def emit_inv)

lemma BeginRendering_inv:
  assumes "slots_inv s"
  shows "slots_inv (BeginRendering colors depth s)"
proof -
  have use: "slots_inv (use_depth depth (fold use_color colors (EndRendering s)))"
    using assms by (auto simp: use_depth_def use_color_def intro!: Use_inv fold_inv EndRendering_inv split: option.split)
  define s1 where "s1 = use_depth depth (fold use_color colors (EndRendering s))"
  obtain w h s2 p s3 f where parts: "pass_size s1 colors = (w, h)"
    "RenderPassFor (List.map (\<lambda>a. tx_format (st_tex s1 (fst a))) colors)
       (case depth of None \<Rightarrow> 0 | Some a \<Rightarrow> tx_format (st_tex s1 (fst a))) s1 = (s2, p)"
    "FramebufferFor p (List.map (layer_view s1) colors @ (case depth of None \<Rightarrow> [] | Some a \<Rightarrow> [layer_view s1 a])) w h s2 = (s3, f)"
    by (meson surj_pair)
  have "slots_inv s3"
    using use parts(2,3) unfolding s1_def [symmetric] by (auto simp: RenderPassFor_def FramebufferFor_def Let_def split: option.splits)
  then show ?thesis
    using assms unfolding BeginRendering_def Let_def s1_def [symmetric] parts prod.case
    by (auto simp: SetViewport_def intro!: SetScissor_inv emit_inv [THEN conjunct1] emit_pass_inv)
qed

lemma make_readable_inv: "slots_inv s \<Longrightarrow> slots_inv (make_readable bs s)"
  by (auto simp: make_readable_def use_binding_def intro!: SetScissor_inv BeginRendering_inv fold_inv Use_inv EndRendering_inv
    split: prod.split binding.split)

lemma AllocateSet_inv: "slots_inv s \<Longrightarrow> slots_inv (AllocateSet full s) \<and> recording (AllocateSet full s)"
  using BeginSlot_inv [of s] RestartSlot_fresh [of "BeginSlot s"] by (simp add: AllocateSet_def Let_def)

lemma EnsureSpace_inv: "slots_inv s \<Longrightarrow> slots_inv (EnsureSpace n s) \<and> recording (EnsureSpace n s)"
  using BeginSlot_inv [of s] RestartSlot_fresh [of "BeginSlot s"] by (simp add: EnsureSpace_def Let_def)

lemma MemoryBarrier_inv: "slots_inv s \<Longrightarrow> slots_inv (MemoryBarrier a b c d s)"
  by (simp add: MemoryBarrier_def emit_inv EndRendering_inv)

lemma UploadTexture_inv:
  assumes "slots_inv s" "nat w * nat h * bpp \<le> kRingSize"
  shows "slots_inv (UploadTexture t w h bpp s)"
proof (cases "Allocate (nat w * nat h * bpp) 16 s")
  case (Pair u off)
  have "slots_inv u" using Allocate_spec [OF assms(1) Pair _ assms(2)] by simp
  with assms(1) Pair show ?thesis by (simp add: UploadTexture_def Let_def emit_inv Use_inv)
qed

lemma UploadBuffer_inv:
  assumes "slots_inv s" "n \<le> kRingSize"
  shows "slots_inv (UploadBuffer n s)"
proof (cases "Allocate n 16 s")
  case (Pair u off)
  have "slots_inv u" using Allocate_spec [OF assms(1) Pair _ assms(2)] by simp
  with assms(1) Pair show ?thesis by (simp add: UploadBuffer_def Let_def emit_inv MemoryBarrier_inv)
qed

lemma wait_fence_inv:
  assumes "slots_inv s"
  shows "slots_inv (wait_fence k s)"
proof -
  have "\<forall>x \<in> set (finish k (st_inflight s)). fst x < kSlots \<and> sl_submitted (st_slots s ! fst x) \<and> \<not> sl_recording (st_slots s ! fst x)"
    using assms finish_subset [of k "st_inflight s"] by (auto simp: slots_inv_def)
  with assms show ?thesis by (simp add: slots_inv_def wait_fence_def recording_def Slot_def)
qed

lemma slots_inv_frees:
  assumes "slots_inv s"
  shows "slots_inv (upd_slot (\<lambda>sl. sl\<lparr>sl_frees := f sl\<rparr>) s)"
proof -
  let ?u = "upd_slot (\<lambda>sl. sl\<lparr>sl_frees := f sl\<rparr>) s"
  have slot: "sl_recording (st_slots ?u ! k) = sl_recording (st_slots s ! k)" "sl_submitted (st_slots ?u ! k) = sl_submitted (st_slots s ! k)"
    for k using slots_inv_current [OF assms] by (auto simp: upd_slot_def Slot_def nth_list_update)
  have "Slot ?u = (Slot s)\<lparr>sl_frees := f (Slot s)\<rparr>" using slots_inv_current [OF assms] by simp
  with assms slot show ?thesis by (simp add: slots_inv_def recording_def space_ok_def)
qed

lemma release_inv: "slots_inv s \<Longrightarrow> slots_inv (release rs s)"
  by (simp add: release_def)

lemma DestroyTexture_inv: "slots_inv s \<Longrightarrow> slots_inv (DestroyTexture t s)"
  by (auto simp: DestroyTexture_def Let_def intro!: fold_inv wait_fence_inv slots_inv_frees release_inv EndRendering_inv)

lemma CreateTexture_inv: "slots_inv s \<Longrightarrow> slots_inv (fst (CreateTexture created t d s))"
  by (simp add: CreateTexture_def Let_def DestroyTexture_inv)

lemma ReadTexture_inv: "slots_inv s \<Longrightarrow> slots_inv (fst (ReadTexture created t s))"
  by (simp add: ReadTexture_def Let_def emit_inv Use_inv Flush_inv)

section \<open>The data of a draw\<close>

text \<open>Where there is room, an allocation stays in the slot.\<close>

lemma Allocate_fits:
  assumes "ready s" "AlignUp (sl_ringUsed (Slot s)) a + n \<le> kRingSize"
  shows "Allocate n a s = (upd_slot (\<lambda>sl. sl\<lparr>sl_ringUsed := AlignUp (sl_ringUsed (Slot s)) a + n,
    sl_regions := (AlignUp (sl_ringUsed (Slot s)) a, n) # sl_regions sl\<rparr>) s, AlignUp (sl_ringUsed (Slot s)) a)"
proof -
  have "BeginSlot s = s" using assms(1) by (simp add: BeginSlot_def ready_def recording_def)
  with assms(2) show ?thesis by (simp add: Allocate_def Let_def)
qed

definition uniform_space :: "nat \<Rightarrow> binding list \<Rightarrow> nat" where
  "uniform_space a bs = (\<Sum>b \<leftarrow> bs. case b of BTexture t \<Rightarrow> 0 | BUniform n \<Rightarrow> AlignUp n a + a)"

text \<open>The slot and the submissions stay, what was handed out before stays too, and the ring grows by at most \<open>n\<close>.\<close>

definition grows_within :: "nat \<Rightarrow> stream \<Rightarrow> stream \<Rightarrow> bool" where
  "grows_within n s t \<longleftrightarrow> ready t \<and> st_current t = st_current s \<and> st_inflight t = st_inflight s \<and>
     set (sl_regions (Slot s)) \<subseteq> set (sl_regions (Slot t)) \<and> sl_ringUsed (Slot t) \<le> sl_ringUsed (Slot s) + n \<and>
     sl_cmds (Slot t) = sl_cmds (Slot s)"

lemma grows_within_trans: "grows_within m s t \<Longrightarrow> grows_within n t u \<Longrightarrow> grows_within (m + n) s u"
  by (auto simp: grows_within_def)

lemma Allocate_grows:
  assumes "ready s" "0 < a" "sl_ringUsed (Slot s) + n + a \<le> kRingSize"
  obtains t off where "Allocate n a s = (t, off)" "grows_within (n + a) s t" "(off, n) \<in> set (sl_regions (Slot t))"
proof -
  have "AlignUp (sl_ringUsed (Slot s)) a < sl_ringUsed (Slot s) + a" using AlignUp_bounds(2) [OF assms(2)] .
  with assms Allocate_fits [OF assms(1), of a n] that show ?thesis
    by (force simp: grows_within_def ready_def recording_def)
qed

lemma bind_uniforms_grows:
  assumes "ready s" "0 < a" "sl_ringUsed (Slot s) + uniform_space a bs \<le> kRingSize"
  shows "\<exists>t rs. bind_uniforms a bs s = (t, rs) \<and> grows_within (uniform_space a bs) s t \<and> set rs \<subseteq> set (sl_regions (Slot t))"
  using assms
proof (induction a bs s rule: bind_uniforms.induct)
  case (1 a s)
  then show ?case by (simp add: grows_within_def)
next
  case (2 a t bs s)
  then show ?case by (simp add: uniform_space_def)
next
  case (3 a n bs s)
  have space: "uniform_space a (BUniform n # bs) = (AlignUp n a + a) + uniform_space a bs" "n \<le> AlignUp n a"
    using AlignUp_bounds(1) [OF "3.prems"(2)] by (simp_all add: uniform_space_def)
  have room: "sl_ringUsed (Slot s) + n + a \<le> kRingSize" using "3.prems"(3) space by linarith
  obtain u off where u: "Allocate n a s = (u, off)" "grows_within (n + a) s u" "(off, n) \<in> set (sl_regions (Slot u))"
    by (rule Allocate_grows [OF "3.prems"(1,2) room])
  have "ready u" "sl_ringUsed (Slot u) + uniform_space a bs \<le> kRingSize"
    using u(2) "3.prems"(3) space by (auto simp: grows_within_def)
  with "3.IH" [OF u(1) [symmetric]] "3.prems"(2) obtain t rs
    where t: "bind_uniforms a bs u = (t, rs)" "grows_within (uniform_space a bs) u t" "set rs \<subseteq> set (sl_regions (Slot t))"
    by blast
  have "grows_within (uniform_space a (BUniform n # bs)) s t"
    using grows_within_trans [OF u(2) t(2)] space by (auto simp: grows_within_def)
  moreover have "(off, n) \<in> set (sl_regions (Slot t))" using u(3) t(2) by (auto simp: grows_within_def)
  ultimately show ?case using u(1) t by simp
qed

text \<open>Reserving the space of a draw first.\<close>

lemma EnsureSpace_room:
  assumes "slots_inv s" "n \<le> kRingSize"
  shows "sl_ringUsed (Slot (EnsureSpace n s)) + n \<le> kRingSize"
  using assms BeginSlot_inv [OF assms(1)] RestartSlot_fresh [of "BeginSlot s"] by (simp add: EnsureSpace_def Let_def)

lemma AllocateSet_room:
  assumes "slots_inv s" "recording s" "sl_ringUsed (Slot s) + n \<le> kRingSize"
  shows "sl_ringUsed (Slot (AllocateSet full s)) + n \<le> kRingSize"
proof -
  have "BeginSlot s = s" using assms(2) by (simp add: BeginSlot_def recording_def)
  with assms RestartSlot_fresh [OF assms(1)] show ?thesis by (simp add: AllocateSet_def)
qed

lemma draw_slot_room:
  assumes "slots_inv s" "space_needed a bs vb \<le> kRingSize"
  shows "slots_inv (draw_slot hasSet full a bs vb s) \<and> recording (draw_slot hasSet full a bs vb s) \<and>
    sl_ringUsed (Slot (draw_slot hasSet full a bs vb s)) + space_needed a bs vb \<le> kRingSize"
proof -
  note m = make_readable_inv [OF assms(1), of bs]
  note e = EnsureSpace_inv [OF m, of "space_needed a bs vb"] EnsureSpace_room [OF m assms(2)]
  note r = AllocateSet_inv [of "EnsureSpace (space_needed a bs vb) (make_readable bs s)" full]
    AllocateSet_room [of "EnsureSpace (space_needed a bs vb) (make_readable bs s)" "space_needed a bs vb" full]
  from e r show ?thesis by (simp add: draw_slot_def Let_def)
qed

lemma emit_ready: "ready s \<Longrightarrow> emit c s = put_cmd c s"
  by (simp add: emit_def BeginSlot_def ready_def recording_def)

lemma put_cmd_ready:
  assumes "ready s"
  shows "ready (put_cmd c s)" "sl_cmds (Slot (put_cmd c s)) = sl_cmds (Slot s) @ [c]" "sl_regions (Slot (put_cmd c s)) = sl_regions (Slot s)"
    "st_current (put_cmd c s) = st_current s" "st_inflight (put_cmd c s) = st_inflight s"
  using assms by (simp_all add: put_cmd_def ready_def recording_def)

lemma draw_data_grows:
  assumes "ready s" "0 < a" "sl_ringUsed (Slot s) + space_needed a bs vb \<le> kRingSize"
  obtains t us vs where "draw_data hasSet a bs vb s = (t, us, vs)" "grows_within (space_needed a bs vb) s t"
    "set us \<union> set_option vs \<subseteq> set (sl_regions (Slot t))"
proof -
  have needed: "space_needed a bs vb = uniform_space a bs + (AlignUp vb 16 + 16)" "vb \<le> AlignUp vb 16"
    using AlignUp_bounds(1) [of 16 vb] by (simp_all add: space_needed_def uniform_space_def)
  obtain u us where u: "(if hasSet then bind_uniforms a bs s else (s, [])) = (u, us)" "grows_within (uniform_space a bs) s u"
    "set us \<subseteq> set (sl_regions (Slot u))"
  proof (cases hasSet)
    case True
    then show ?thesis using bind_uniforms_grows [OF assms(1,2), of bs] assms(3) needed that by auto
  next
    case False
    with assms(1) that show ?thesis by (simp add: grows_within_def)
  qed
  have room: "ready u" "sl_ringUsed (Slot u) + vb + 16 \<le> kRingSize" using u(2) assms(3) needed by (auto simp: grows_within_def)
  obtain t off where t: "Allocate vb 16 u = (t, off)" "grows_within (vb + 16) u t" "(off, vb) \<in> set (sl_regions (Slot t))"
    by (rule Allocate_grows [OF room(1) _ room(2)]) simp
  show thesis
  proof (cases "vb = 0")
    case True
    with u needed show thesis by (intro that [of u us None]) (auto simp: draw_data_def grows_within_def)
  next
    case False
    have "grows_within (space_needed a bs vb) s t" using grows_within_trans [OF u(2) t(2)] needed by (auto simp: grows_within_def)
    moreover have "set us \<subseteq> set (sl_regions (Slot t))" using u(3) t(2) by (auto simp: grows_within_def)
    moreover have "draw_data hasSet a bs vb s = (t, us, Some (off, vb))" using False u(1) t(1) by (simp add: draw_data_def)
    ultimately show thesis using t(3) by (intro that) auto
  qed
qed

lemma Allocate_inv: "slots_inv s \<Longrightarrow> 0 < a \<Longrightarrow> n \<le> kRingSize \<Longrightarrow> slots_inv (fst (Allocate n a s))"
  using Allocate_spec [of s n a "fst (Allocate n a s)" "snd (Allocate n a s)"] by simp

lemma bind_uniforms_inv:
  "slots_inv s \<Longrightarrow> 0 < a \<Longrightarrow> uniform_space a bs \<le> kRingSize \<Longrightarrow> slots_inv (fst (bind_uniforms a bs s))"
proof (induction a bs s rule: bind_uniforms.induct)
  case (3 a n bs s)
  have space: "n \<le> kRingSize" "uniform_space a bs \<le> kRingSize"
    using AlignUp_bounds(1) [OF "3.prems"(2), of n] "3.prems"(3) by (simp_all add: uniform_space_def)
  obtain u off where u: "Allocate n a s = (u, off)" by (cases "Allocate n a s")
  have "slots_inv u" using Allocate_inv [OF "3.prems"(1,2) space(1)] u by simp
  with "3.IH" [OF u [symmetric]] space(2) "3.prems"(2) u show ?case by (cases "bind_uniforms a bs u") simp
qed (simp_all add: uniform_space_def)

lemma draw_data_inv:
  assumes "slots_inv s" "0 < a" "space_needed a bs vb \<le> kRingSize"
  shows "slots_inv (fst (draw_data hasSet a bs vb s))"
proof -
  have room: "uniform_space a bs \<le> kRingSize" "vb \<le> kRingSize"
    using assms(3) AlignUp_bounds(1) [of 16 vb] by (simp_all add: space_needed_def uniform_space_def)
  obtain u us where u: "(if hasSet then bind_uniforms a bs s else (s, [])) = (u, us)" by (meson surj_pair)
  then have "slots_inv u" using assms(1,2) bind_uniforms_inv [of s a bs] room(1) by (auto split: if_splits)
  then have "slots_inv (fst (Allocate vb 16 u))" using Allocate_inv room(2) by simp
  with \<open>slots_inv u\<close> show ?thesis
    unfolding draw_data_def Let_def u prod.case by (cases "Allocate vb 16 u") simp
qed

lemma Draw_parts:
  assumes "st_pass s \<noteq> 0" "vertexCount \<noteq> 0" "draw_data hasSet a bs vb (draw_slot hasSet full a bs vb s) = (t, us, vs)"
  shows "Draw pipeline hasSet full a bs vb vertexCount s =
    emit (CDraw pipeline (if hasSet then binding_views t bs else []) us vs vertexCount) (emit (CScissor (st_scissor t)) t)"
  using assms by (simp add: Draw_def)

lemma Draw_inv:
  assumes "slots_inv s" "0 < a" "space_needed a bs vb \<le> kRingSize"
  shows "slots_inv (Draw pipeline hasSet full a bs vb vertexCount s)"
proof (cases "st_pass s = 0 \<or> vertexCount = 0")
  case True
  with assms(1) show ?thesis by (auto simp: Draw_def)
next
  case False
  note room = draw_slot_room [OF assms(1,3), of hasSet full]
  obtain t us vs where data: "draw_data hasSet a bs vb (draw_slot hasSet full a bs vb s) = (t, us, vs)" by (meson prod_cases3)
  then have "slots_inv t" using draw_data_inv [OF _ assms(2,3)] room by (metis fst_conv)
  with Draw_parts [OF _ _ data] False show ?thesis by (simp add: emit_inv)
qed

section \<open>What the renderer can reach\<close>

text \<open>Uploads are at most as large as the ring.\<close>

inductive stream_reach :: "stream \<Rightarrow> bool" where
  start: "stream_reach stream_new"
| create: "stream_reach s \<Longrightarrow> stream_reach (fst (CreateTexture created t d s))"
| destroy: "stream_reach s \<Longrightarrow> stream_reach (DestroyTexture t s)"
| upload: "stream_reach s \<Longrightarrow> nat w * nat h * bpp \<le> kRingSize \<Longrightarrow> stream_reach (UploadTexture t w h bpp s)"
| begin_pass: "stream_reach s \<Longrightarrow> stream_reach (BeginRendering colors depth s)"
| end_pass: "stream_reach s \<Longrightarrow> stream_reach (EndRendering s)"
| viewport: "stream_reach s \<Longrightarrow> stream_reach (SetViewport x y w h s)"
| scissor: "stream_reach s \<Longrightarrow> stream_reach (SetScissor x y w h s)"
| clear_color: "stream_reach s \<Longrightarrow> stream_reach (ClearColor i s)"
| clear_depth: "stream_reach s \<Longrightarrow> stream_reach (ClearDepth s)"
| draw: "stream_reach s \<Longrightarrow> 0 < a \<Longrightarrow> space_needed a bs vb \<le> kRingSize \<Longrightarrow> stream_reach (Draw p hasSet full a bs vb n s)"
| readback: "stream_reach s \<Longrightarrow> stream_reach (fst (ReadTexture created t s))"
| external: "stream_reach s \<Longrightarrow> stream_reach (PrepareForExternalRead t s)"
| flush: "stream_reach s \<Longrightarrow> stream_reach (Flush wait s)"
| use: "stream_reach s \<Longrightarrow> stream_reach (Use t l ss acc w s)"
| upload_buffer: "stream_reach s \<Longrightarrow> n \<le> kRingSize \<Longrightarrow> stream_reach (UploadBuffer n s)"
| memory_barrier: "stream_reach s \<Longrightarrow> stream_reach (MemoryBarrier ss sa ds da s)"
| command: "stream_reach s \<Longrightarrow> stream_reach (emit c s)"
| descriptor_set: "stream_reach s \<Longrightarrow> stream_reach (AllocateDescriptorSet full s)"

lemma stream_reach_inv: "stream_reach s \<Longrightarrow> slots_inv s"
  by (induction rule: stream_reach.induct)
    (simp_all add: slots_inv_new CreateTexture_inv DestroyTexture_inv UploadTexture_inv BeginRendering_inv EndRendering_inv
      SetViewport_def emit_inv SetScissor_inv ClearColor_def ClearDepth_def Draw_inv ReadTexture_inv PrepareForExternalRead_def
      Flush_inv Use_inv UploadBuffer_inv MemoryBarrier_inv AllocateDescriptorSet_def AllocateSet_inv)

lemma RestartSlot_moves:
  assumes "slots_inv s" "recording s"
  shows "st_current (RestartSlot s) \<noteq> st_current s"
proof -
  define s1 where "s1 = BeginSlot (Flush False s)"
  have f: "slots_inv (Flush False s)" using Flush_inv [OF assms(1)] by simp
  then have s1: "slots_inv s1" "recording s1" "st_current s1 = st_current (Flush False s)"
    using BeginSlot_inv [OF f] by (simp_all add: s1_def)
  have "records s1 (RestartSlot s)"
    using slots_inv_ready [OF s1(1,2)] unfolding RestartSlot_def Let_def s1_def [symmetric]
    by (auto simp: records_refl intro!: SetScissor_records BeginRendering_records split: prod.split)
  then have "st_current (RestartSlot s) = st_current (Flush False s)" using s1(3) by (simp add: records_def)
  moreover have "st_current (Flush False s) = (st_current s + 1) mod kSlots"
    using assms(2) by (simp add: Flush_def Let_def recording_def)
  ultimately show ?thesis using kSlots_next [of "st_current s"] assms(1) by (simp add: slots_inv_def)
qed

lemma Allocate_same_slot:
  assumes "slots_inv s" "recording s" "Allocate n a s = (s', off)" "st_current s' = st_current s"
  shows "sl_regions (Slot s') = (off, n) # sl_regions (Slot s)"
proof -
  have b: "BeginSlot s = s" using assms(2) by (simp add: BeginSlot_def recording_def)
  let ?off = "AlignUp (sl_ringUsed (Slot s)) a"
  have "\<not> ?off + n > kRingSize"
  proof
    assume "?off + n > kRingSize"
    then have "st_current s' = st_current (RestartSlot s)" using assms(3) b by (auto simp: Allocate_def Let_def)
    with assms(4) RestartSlot_moves [OF assms(1,2)] show False by simp
  qed
  with assms(3) b slots_inv_current [OF assms(1)] show ?thesis by (auto simp: Allocate_def Let_def)
qed

text \<open>
  C17: Upload space is handed out inside the ring, aligned, in a slot the GPU is not using, and apart from
  everything handed out since that slot was begun.
\<close>

theorem stream_uploads_disjoint:
  assumes "stream_reach s" "Allocate n a s = (s', off)" "0 < a" "n \<le> kRingSize"
  shows "off + n \<le> kRingSize \<and> a dvd off \<and> st_current s' \<notin> fst ` set (st_inflight s') \<and>
    (\<forall>(o2, n2) \<in> set (tl (sl_regions (Slot s'))). o2 + n2 \<le> off) \<and>
    (recording s \<and> st_current s' = st_current s \<longrightarrow> tl (sl_regions (Slot s')) = sl_regions (Slot s))"
proof -
  note inv = stream_reach_inv [OF assms(1)]
  note spec = Allocate_spec [OF inv assms(2-4)]
  have "space_ok (Slot s')" using spec by (simp add: slots_inv_def)
  then have "sorted_wrt (\<lambda>(o1, n1) (o2, n2). o2 + n2 \<le> o1) ((off, n) # tl (sl_regions (Slot s')))" using spec by (simp add: space_ok_def)
  then have "\<forall>(o2, n2) \<in> set (tl (sl_regions (Slot s'))). o2 + n2 \<le> off" by auto
  moreover have "recording s \<and> st_current s' = st_current s \<Longrightarrow> tl (sl_regions (Slot s')) = sl_regions (Slot s)"
    using Allocate_same_slot [OF inv _ assms(2)] by simp
  ultimately show ?thesis using spec recording_not_in_flight [of s'] by simp
qed

lemma stream_uploads_disjoint_witness:
  "let s = UploadTexture 0 8 8 4 stream_new in
   case Allocate 100 64 s of (s', off) \<Rightarrow>
     off = 256 \<and> tl (sl_regions (Slot s')) = [(0, 256)] \<and> off + 100 \<le> kRingSize \<and> 64 dvd off"
proof -
  let ?s = "UploadTexture 0 8 8 4 stream_new"
  have s: "stream_reach ?s" by (rule upload [OF start]) (simp add: kRingSize_def)
  let ?new = "slot_new\<lparr>sl_recording := True\<rparr>"
  define u where "u = stream_new\<lparr>st_slots := [?new\<lparr>sl_ringUsed := 256, sl_regions := [(0, 256)]\<rparr>, slot_new, slot_new]\<rparr>"
  have new: "BeginSlot stream_new = stream_new\<lparr>st_slots := [?new, slot_new, slot_new]\<rparr>"
    by (simp add: BeginSlot_def stream_new_def Slot_def slot_new_def run_frees_def upd_slot_def)
  have u: "Allocate 256 16 stream_new = (u, 0)"
    unfolding Allocate_def Let_def new by (simp add: AlignUp_def kRingSize_def Slot_def stream_new_def slot_new_def upd_slot_def u_def)
  have ready: "ready u" "st_pass u = 0" "st_tex u = (\<lambda>_. texture_new)" "sl_ringUsed (Slot u) = 256" "sl_regions (Slot u) = [(0, 256)]"
    by (simp_all add: u_def ready_def recording_def Slot_def stream_new_def slot_new_def)
  define c f where "c = CBarrier 0 LUndefined LTransferDst {TopOfPipe} {} {Transfer} {TransferWrite}"
    and "f = (\<lambda>_ :: nat. texture_new)(0 := texture_new\<lparr>tx_layout := LTransferDst, tx_lastStage := {Transfer}, tx_lastAccess := {TransferWrite}, tx_lastWasWrite := True\<rparr>)"
  have use: "Use 0 LTransferDst {Transfer} {TransferWrite} True u = (put_cmd c u)\<lparr>st_tex := f\<rparr>"
    using ready by (simp add: Use_def Let_def emit_ready c_def f_def texture_new_def put_cmd_def upd_slot_def)
  have s2: "?s = put_cmd (CUpload 0 256 0) ((put_cmd c u)\<lparr>st_tex := f\<rparr>)"
    using u use ready put_cmd_ready(1) [OF ready(1), of c]
    by (simp add: UploadTexture_def f_def texture_new_def emit_ready ready_def)
  have slot: "ready ?s" "sl_ringUsed (Slot ?s) = 256" "sl_regions (Slot ?s) = [(0, 256)]"
    using ready by (simp_all add: s2 put_cmd_def ready_def recording_def)
  obtain s' off where a: "Allocate 100 64 ?s = (s', off)" by (cases "Allocate 100 64 ?s")
  have "off = 256" "tl (sl_regions (Slot s')) = [(0, 256)]"
    using a slot Allocate_fits [OF slot(1), of 64 100] by (auto simp: AlignUp_def kRingSize_def ready_def)
  with a stream_uploads_disjoint [OF s a] show ?thesis by (simp add: kRingSize_def)
qed

text \<open>
  C18: A draw is recorded whole: its uniforms, its vertices and the command are in one slot, in regions
  handed out since that slot was begun.
\<close>

theorem stream_draw_whole:
  assumes "stream_reach s" "st_pass s \<noteq> 0" "vertexCount \<noteq> 0" "0 < a" "space_needed a bs vb \<le> kRingSize"
  shows "\<exists>cs r views us vs. sl_cmds (Slot (Draw p hasSet full a bs vb vertexCount s)) = cs @ [CScissor r, CDraw p views us vs vertexCount] \<and>
    recording (Draw p hasSet full a bs vb vertexCount s) \<and>
    (\<forall>(off, n) \<in> set us \<union> set_option vs. off + n \<le> kRingSize \<and> (off, n) \<in> set (sl_regions (Slot (Draw p hasSet full a bs vb vertexCount s))))"
proof -
  let ?s = "draw_slot hasSet full a bs vb s" and ?t = "Draw p hasSet full a bs vb vertexCount s"
  note inv = stream_reach_inv [OF assms(1)]
  note room = draw_slot_room [OF inv assms(5), of hasSet full]
  have "ready ?s" using room slots_inv_ready by blast
  then obtain t us vs where data: "draw_data hasSet a bs vb ?s = (t, us, vs)" "grows_within (space_needed a bs vb) ?s t"
    "set us \<union> set_option vs \<subseteq> set (sl_regions (Slot t))"
    using draw_data_grows assms(4) room by blast
  define views where "views = (if hasSet then binding_views t bs else [])"
  have t: "ready t" using data(2) by (simp add: grows_within_def)
  have draw: "?t = put_cmd (CDraw p views us vs vertexCount) (put_cmd (CScissor (st_scissor t)) t)"
    using Draw_parts [OF assms(2,3) data(1), of p] t put_cmd_ready(1) [OF t] by (simp add: views_def emit_ready)
  have cmds: "sl_cmds (Slot ?t) = sl_cmds (Slot t) @ [CScissor (st_scissor t), CDraw p views us vs vertexCount]"
    "sl_regions (Slot ?t) = sl_regions (Slot t)" "recording ?t"
    using put_cmd_ready [OF put_cmd_ready(1) [OF t]] put_cmd_ready [OF t] by (simp_all add: draw ready_def)
  have "slots_inv ?t" using Draw_inv [OF inv assms(4,5)] .
  then have "space_ok (Slot ?t)" using cmds(3) by (simp add: slots_inv_def)
  then have "\<forall>(off, n) \<in> set (sl_regions (Slot ?t)). off + n \<le> kRingSize" by (force simp: space_ok_def)
  with data(3) have "\<forall>(off, n) \<in> set us \<union> set_option vs. off + n \<le> kRingSize \<and> (off, n) \<in> set (sl_regions (Slot ?t))"
    unfolding cmds(2) by fastforce
  with cmds(1,3) show ?thesis by blast
qed

lemma stream_draw_whole_witness:
  "let s = BeginRendering [] None stream_new; t = Draw 7 True False 256 [BUniform 64] 48 3 s in
   \<exists>cs r views us vs. sl_cmds (Slot t) = cs @ [CScissor r, CDraw 7 views us vs 3] \<and> recording t"
proof -
  let ?s = "BeginRendering [] None stream_new"
  have "stream_reach ?s" by (rule begin_pass [OF start])
  moreover have "st_pass (emit c u) = st_pass u" for c u
    by (simp add: emit_def put_cmd_def BeginSlot_def run_frees_def wait_fence_def Let_def)
  then have "st_pass ?s \<noteq> 0"
    by (simp add: BeginRendering_def EndRendering_def use_depth_def pass_size_def RenderPassFor_def FramebufferFor_def SetViewport_def
      SetScissor_def Let_def stream_new_def)
  ultimately show ?thesis
    using stream_draw_whole [of ?s 3 256 "[BUniform 64]" 48 7 True False]
    by (fastforce simp: space_needed_def AlignUp_def kRingSize_def)
qed

end
