(* ===== verification/CheatDb.thy ===== *)
theory CheatDb
  imports DsProfile ThreeDsVfs
begin

unbundle bit_operations_syntax

text \<open>
  Importing codes from a cheat database, \<^verbatim>\<open>CheatDb.cpp\<close>: the checksum that tells which entry belongs to a
  game, read piece by piece from its file, and the list of codes in the form the app stores.  The
  database itself is read by melonDS and is an argument; melonDS's own checksum of a cartridge is
  modelled for comparison.
\<close>

section \<open>Checksums of melonDS\<close>

definition reflect_step :: "nat \<Rightarrow> nat \<Rightarrow> u32 \<times> u32 \<Rightarrow> u32 \<times> u32" where
  "reflect_step ch i = (\<lambda>(v, r). (if r AND 1 \<noteq> 0 then v OR push_bit (ch - i) 1 else v, drop_bit 1 r))"

definition reflect :: "u32 \<Rightarrow> nat \<Rightarrow> u32" where
  "reflect w ch = fst (fold (reflect_step ch) [1..<ch + 1] (0, w))"

definition crc_shift :: "u32 \<Rightarrow> u32" where
  "crc_shift t = push_bit 1 t XOR (if bit t 31 then 0x04C11DB7 else 0)"

definition Crc32Table :: "u32 \<Rightarrow> u32" where
  "Crc32Table i = reflect (fold (\<lambda>_. crc_shift) [0..<8] (push_bit 24 (reflect i 8))) 32"

definition crc_byte :: "u8 \<Rightarrow> u32 \<Rightarrow> u32" where
  "crc_byte b crc = drop_bit 8 crc XOR Crc32Table ((crc AND 0xFF) XOR ucast b)"

definition CRC32 :: "u8 list \<Rightarrow> u32 \<Rightarrow> u32" where
  "CRC32 data start = fold crc_byte data (start XOR 0xFFFFFFFF) XOR 0xFFFFFFFF"

text \<open>The fields of the header of a game that the import reads, little-endian in the file.\<close>

definition u32_at :: "u8 list \<Rightarrow> nat \<Rightarrow> u32" where
  "u32_at h i = ucast (h ! i) OR push_bit 8 (ucast (h ! (i + 1))) OR push_bit 16 (ucast (h ! (i + 2))) OR push_bit 24 (ucast (h ! (i + 3)))"

definition IsDSi :: "u8 list \<Rightarrow> bool" where
  "IsDSi h \<longleftrightarrow> (h ! 0x12) AND 2 \<noteq> 0"

definition GameCodeAsU32 :: "u8 list \<Rightarrow> u32" where
  "GameCodeAsU32 h = u32_at h 0xC"

text \<open>The offset and size fields of the code regions.\<close>

definition code_regions :: "bool \<Rightarrow> u8 list \<Rightarrow> (u32 \<times> u32) list" where
  "code_regions dsi h =
     [(u32_at h 0x20, u32_at h 0x2C), (u32_at h 0x30, u32_at h 0x3C)] @
     (if dsi then [(u32_at h 0x1C0, u32_at h 0x1CC), (u32_at h 0x1D0, u32_at h 0x1DC)] else [])"

definition cart_region :: "u8 list \<Rightarrow> u32 \<times> u32 \<Rightarrow> u8 list" where
  "cart_region rom r = segment rom (unat (fst r)) (unat (snd r))"

text \<open>The checksum of a loaded cartridge, \<open>dsi\<close> being whether it runs as a DSi game.\<close>

definition cart_Checksum :: "u8 list \<Rightarrow> bool \<Rightarrow> u32" where
  "cart_Checksum rom dsi = fold (\<lambda>r crc. CRC32 (cart_region rom r) crc) (code_regions dsi rom) (CRC32 (take 0x40 rom) 0)"

section \<open>Reading the game's file\<close>

text \<open>The kernel's answers in order; an interrupted read counts as an error.\<close>

type_synonym kernel = "nat \<Rightarrow> pread_answer"

definition pread :: "kernel \<Rightarrow> u8 list \<Rightarrow> nat \<Rightarrow> nat \<Rightarrow> u8 list" where
  "pread as content off n = (case as 0 of PRead k \<Rightarrow> segment content off (min k n) | _ \<Rightarrow> [])"

function read_at :: "kernel \<Rightarrow> u8 list \<Rightarrow> nat \<Rightarrow> nat \<Rightarrow> u8 list \<Rightarrow> kernel \<times> u8 list option" where
  "read_at as content off len got =
     (if length got \<ge> len then (as, Some got)
      else
        let new = pread as content (off + length got) (len - length got)
        in if new = [] then (\<lambda>i. as (Suc i), None) else read_at (\<lambda>i. as (Suc i)) content off len (got @ new))"
  by pat_completeness auto
termination by (relation "measure (\<lambda>(as, content, off, len, got). len - length got)") (auto simp flip: length_greater_0_conv)

declare read_at.simps [simp del]

definition ReadAt :: "kernel \<Rightarrow> u8 list \<Rightarrow> nat \<Rightarrow> nat \<Rightarrow> kernel \<times> u8 list option" where
  "ReadAt as content len off = read_at as content off len []"

definition checksum_add :: "u8 list \<Rightarrow> u32 \<times> u32 \<Rightarrow> kernel \<times> u32 option \<Rightarrow> kernel \<times> u32 option" where
  "checksum_add content r st =
     (case st of
        (as, None) \<Rightarrow> (as, None)
      | (as, Some crc) \<Rightarrow>
          if snd r = 0 then (as, Some crc)
          else if snd r > 0x1000000 then (as, None)
          else (case ReadAt as content (unat (snd r)) (unat (fst r)) of
                  (as', None) \<Rightarrow> (as', None)
                | (as', Some buf) \<Rightarrow> (as', Some (CRC32 buf crc))))"

definition RomChecksum :: "kernel \<Rightarrow> u8 list \<Rightarrow> u8 list \<Rightarrow> kernel \<times> u32 option" where
  "RomChecksum as content header =
     (case ReadAt as content 0x40 0 of
        (as', None) \<Rightarrow> (as', None)
      | (as', Some buf) \<Rightarrow> fold (checksum_add content) (code_regions (IsDSi header) header) (as', Some (CRC32 buf 0)))"

section \<open>The list of codes\<close>

datatype ar_item =
    ARCode (item_Name: string) (item_Description: string) (item_Code: "u32 list")
  | ARCodeCat (item_Name: string) (item_Description: string) (item_OnlyOne: bool) (item_Children: "ar_item list")

text \<open>Two words a line, without the last newline.\<close>

definition item_text :: "u32 list \<Rightarrow> string" where
  "item_text ws = (if code_text ws = [] then [] else butlast (code_text ws))"

definition code_record :: "string \<Rightarrow> string \<Rightarrow> string \<Rightarrow> u32 list \<Rightarrow> bool \<Rightarrow> string list" where
  "code_record path name desc ws one = [''CODE'', path, name, desc, item_text ws, if one then ''1'' else ''0'']"

definition sub_path :: "string \<Rightarrow> string \<Rightarrow> string" where
  "sub_path path name = (if path = [] then name else path @ '' / '' @ name)"

fun Flatten :: "bool \<Rightarrow> ar_item list \<Rightarrow> string \<Rightarrow> string list \<Rightarrow> string list" where
  "Flatten one [] path out = out"
| "Flatten one (ARCode name desc ws # items) path out = Flatten one items path (out @ code_record path name desc ws one)"
| "Flatten one (ARCodeCat name desc one' children # items) path out =
     Flatten one items path (Flatten one' children (sub_path path name) out)"

record ar_entry =
  ae_Checksum :: u32
  ae_Name :: string
  ae_OnlyOne :: bool
  ae_Items :: "ar_item list"

text \<open>The database, \<open>None\<close> when melonDS cannot read it: its name and the entries of a game code.\<close>

type_synonym ar_database = "(string \<times> (u32 \<Rightarrow> ar_entry list)) option"

definition add_entry :: "u32 option \<Rightarrow> ar_entry \<Rightarrow> string list \<Rightarrow> string list" where
  "add_entry checksum e out =
     Flatten (ae_OnlyOne e) (ae_Items e) []
       (out @ [''ENTRY'', ae_Name e, if checksum = Some (ae_Checksum e) then ''1'' else ''0'', [], [], []])"

definition nativeCheatDbLookup :: "kernel \<Rightarrow> u8 list \<Rightarrow> ar_database \<Rightarrow> string list option" where
  "nativeCheatDbLookup as content db =
     (case ReadAt as content 4096 0 of
        (as', None) \<Rightarrow> None
      | (as', Some header) \<Rightarrow>
          let checksum = snd (RomChecksum as' content header)
          in case db of
               None \<Rightarrow> None
             | Some (name, entries) \<Rightarrow>
                 let es = entries (GameCodeAsU32 header)
                 in if es = [] then None
                    else Some (fold (add_entry checksum) es [''DB'', name, [], [], [], []]))"

section \<open>Lemmas\<close>

lemma CRC32_append: "CRC32 (a @ b) start = CRC32 b (CRC32 a start)"
  by (simp add: CRC32_def xor.assoc)

lemma crc_evaluation:
  "reflect 0xCE 8 = 0x73" "fold (\<lambda>_. crc_shift) [0..<8] 0x73000000 = 0xEDF73B3E" "reflect 0xEDF73B3E 32 = 0x7CDCEFB7"
  by (simp_all add: reflect_def reflect_step_def crc_shift_def upt_rec)

lemma CRC32_check: "CRC32 [0x31] 0 = 0x83DCEFB7"
  by (simp add: CRC32_def crc_byte_def Crc32Table_def crc_evaluation)

lemma segment_append: "segment xs off n @ segment xs (off + n) m = segment xs off (n + m)"
  by (metis segment_def take_add drop_drop add.commute)

lemma length_segment_le: "length (segment xs off n) \<le> n"
  by (simp add: segment_def)

lemma segment_take: "segment xs off n = segment xs off (length (segment xs off n))"
  by (simp add: segment_def min_def)

text \<open>What the kernel gives is the file's, and a read that ends well is whole.\<close>

lemma pread_segment: "pread as content off n = segment content off (length (pread as content off n)) \<and> length (pread as content off n) \<le> n"
  using segment_take length_segment_le by (fastforce simp: pread_def segment_def split: pread_answer.split)

lemma read_at_segment:
  "read_at as content off len got = (as', Some r) \<Longrightarrow> got = segment content off (length got) \<Longrightarrow> length got \<le> len \<Longrightarrow>
     r = segment content off len \<and> length r = len"
proof (induction as content off len got rule: read_at.induct)
  case (1 as content off len got)
  show ?case
  proof (cases "length got \<ge> len")
    case True
    with 1 show ?thesis by (simp add: read_at.simps [of as])
  next
    case False
    let ?new = "pread as content (off + length got) (len - length got)"
    have new: "?new \<noteq> []" "read_at (\<lambda>i. as (Suc i)) content off len (got @ ?new) = (as', Some r)"
      using "1.prems"(1) False by (auto simp: read_at.simps [of as] Let_def split: if_splits)
    have "got @ ?new = segment content off (length got) @ segment content (off + length got) (length ?new)"
      using "1.prems"(2) pread_segment by metis
    also have "\<dots> = segment content off (length (got @ ?new))" by (simp add: segment_append)
    finally have "got @ ?new = segment content off (length (got @ ?new))" .
    moreover have "length (got @ ?new) \<le> len" using pread_segment [of as content "off + length got" "len - length got"] False by (simp, linarith)
    ultimately show ?thesis using "1.IH" [OF False refl new(1)] new(2) by blast
  qed
qed

lemma ReadAt_segment:
  assumes "ReadAt as content len off = (as', Some r)"
  shows "r = segment content off len \<and> length r = len"
proof -
  have "([] :: u8 list) = segment content off (length ([] :: u8 list))" by (simp add: segment_def)
  moreover have "length ([] :: u8 list) \<le> len" by simp
  ultimately show ?thesis using read_at_segment assms unfolding ReadAt_def by blast
qed

text \<open>A kernel that makes progress.\<close>

definition progress :: "kernel \<Rightarrow> bool" where
  "progress as \<longleftrightarrow> (\<forall>i. \<exists>k > 0. as i = PRead k)"

lemma read_at_progress:
  "progress as \<Longrightarrow> off + len \<le> length content \<Longrightarrow> \<exists>as' r. read_at as content off len got = (as', Some r) \<and> progress as'"
proof (induction as content off len got rule: read_at.induct)
  case (1 as content off len got)
  show ?case
  proof (cases "length got \<ge> len")
    case True
    with 1 show ?thesis by (simp add: read_at.simps [of as])
  next
    case False
    obtain k where "as 0 = PRead k" "k > 0" using "1.prems"(1) by (auto simp: progress_def)
    then have new: "pread as content (off + length got) (len - length got) \<noteq> []"
      using False "1.prems"(2) by (simp add: pread_def segment_def)
    have "progress (\<lambda>i. as (Suc i))" using "1.prems"(1) by (simp add: progress_def)
    from "1.IH" [OF False refl new this "1.prems"(2)] False new show ?thesis by (simp add: read_at.simps [of as] Let_def)
  qed
qed

lemma checksum_fail: "fold (checksum_add content) rs (as, None) = (as, None)"
  by (induction rs) (simp_all add: checksum_add_def)

lemma region_zero: "cart_region content (off, 0) = []"
  by (simp add: cart_region_def segment_def)

lemma CRC32_Nil: "CRC32 [] crc = crc"
  by (simp add: CRC32_def xor.assoc)

definition region_ok :: "u8 list \<Rightarrow> u32 \<times> u32 \<Rightarrow> bool" where
  "region_ok content r \<longleftrightarrow> snd r = 0 \<or> snd r \<le> 0x1000000 \<and> unat (fst r) + unat (snd r) \<le> length content"

lemma segment_whole: "length (segment xs off n) = n \<Longrightarrow> n = 0 \<or> off + n \<le> length xs"
  by (auto simp: segment_def)

lemma checksum_add_ok:
  assumes "checksum_add content r (as, Some crc) = (as', Some crc')"
  shows "crc' = CRC32 (cart_region content r) crc \<and> region_ok content r"
proof (cases "snd r = 0")
  case True
  with assms show ?thesis by (cases r) (simp add: checksum_add_def region_ok_def region_zero CRC32_Nil)
next
  case False
  then obtain buf where buf: "ReadAt as content (unat (snd r)) (unat (fst r)) = (as', Some buf)" "crc' = CRC32 buf crc" "snd r \<le> 0x1000000"
    using assms by (auto simp: checksum_add_def split: if_splits prod.splits option.splits)
  from ReadAt_segment [OF buf(1)] segment_whole [of content "unat (fst r)" "unat (snd r)"] buf(2,3) show ?thesis
    by (auto simp: cart_region_def region_ok_def unat_eq_zero)
qed

lemma checksum_fold_ok:
  "fold (checksum_add content) rs (as, Some crc) = (as', Some c) \<Longrightarrow>
     c = fold (\<lambda>r crc. CRC32 (cart_region content r) crc) rs crc \<and> (\<forall>r \<in> set rs. region_ok content r)"
proof (induction rs arbitrary: as crc)
  case (Cons r rs)
  obtain as1 o1 where r: "checksum_add content r (as, Some crc) = (as1, o1)" by (meson surj_pair)
  then obtain crc1 where o1: "o1 = Some crc1" using Cons.prems by (cases o1) (simp_all add: checksum_fail)
  with checksum_add_ok [of content r as crc as1 crc1] r Cons show ?case by simp
qed simp

lemma checksum_fold_total:
  "progress as \<Longrightarrow> \<forall>r \<in> set rs. region_ok content r \<Longrightarrow> \<exists>as' c. fold (checksum_add content) rs (as, Some crc) = (as', Some c)"
proof (induction rs arbitrary: as crc)
  case (Cons r rs)
  have "\<exists>as1 crc1. checksum_add content r (as, Some crc) = (as1, Some crc1) \<and> progress as1"
  proof (cases "snd r = 0")
    case True
    with Cons.prems show ?thesis by (simp add: checksum_add_def)
  next
    case False
    with Cons.prems have "unat (fst r) + unat (snd r) \<le> length content" "\<not> snd r > 0x1000000" by (auto simp: region_ok_def)
    with read_at_progress [OF Cons.prems(1), of "unat (fst r)" "unat (snd r)" content "[]"] False show ?thesis
      by (fastforce simp: checksum_add_def ReadAt_def)
  qed
  with Cons show ?case by fastforce
qed simp

text \<open>The header of the padded cartridge is the one read.\<close>

lemma u32_at_prefix: "i + 4 \<le> length a \<Longrightarrow> u32_at (a @ b) i = u32_at a i"
  by (simp add: u32_at_def nth_append)

lemma code_regions_prefix: "0x1E0 \<le> length h \<Longrightarrow> code_regions dsi (h @ rest) = code_regions dsi h"
  by (simp add: code_regions_def u32_at_prefix)

lemma cart_region_pad: "region_ok content r \<Longrightarrow> cart_region (content @ pad) r = cart_region content r"
  by (auto simp: region_ok_def cart_region_def segment_def)

lemma fold_regions_pad:
  "\<forall>r \<in> set rs. region_ok content r \<Longrightarrow>
     fold (\<lambda>r crc. CRC32 (cart_region (content @ pad) r) crc) rs crc = fold (\<lambda>r crc. CRC32 (cart_region content r) crc) rs crc"
  by (induction rs arbitrary: crc) (simp_all add: cart_region_pad)

text \<open>The codes of a list of items in order, each with the path of its folder.\<close>

fun codes :: "bool \<Rightarrow> ar_item list \<Rightarrow> string \<Rightarrow> (string \<times> string \<times> string \<times> u32 list \<times> bool) list" where
  "codes one [] path = []"
| "codes one (ARCode name desc ws # items) path = (path, name, desc, ws, one) # codes one items path"
| "codes one (ARCodeCat name desc one' children # items) path = codes one' children (sub_path path name) @ codes one items path"

definition code_strings :: "string \<times> string \<times> string \<times> u32 list \<times> bool \<Rightarrow> string list" where
  "code_strings = (\<lambda>(path, name, desc, ws, one). code_record path name desc ws one)"

lemma Flatten_codes: "Flatten one items path out = out @ concat (map code_strings (codes one items path))"
  by (induction one items path out rule: Flatten.induct) (simp_all add: code_strings_def)

lemma item_text_parses: "ws \<noteq> [] \<Longrightarrow> even (length ws) \<Longrightarrow> ParseArCode (item_text ws) = Some ws"
  using ParseArCode_text code_text_last by (simp add: item_text_def)

definition entry_codes :: "ar_entry \<Rightarrow> (string \<times> string \<times> string \<times> u32 list \<times> bool) list" where
  "entry_codes e = codes (ae_OnlyOne e) (ae_Items e) []"

definition entry_strings :: "u32 option \<Rightarrow> ar_entry \<Rightarrow> string list" where
  "entry_strings checksum e =
     [''ENTRY'', ae_Name e, if checksum = Some (ae_Checksum e) then ''1'' else ''0'', [], [], []] @
     concat (map code_strings (entry_codes e))"

lemma fold_entries: "fold (add_entry checksum) es out = out @ concat (map (entry_strings checksum) es)"
  by (induction es arbitrary: out) (simp_all add: add_entry_def entry_strings_def Flatten_codes entry_codes_def)

section \<open>Properties\<close>


definition demo_rom :: "u8 list" where
  "demo_rom = replicate 0x2C 0 @ [4] @ replicate 0xFD3 0"

lemma demo_read:
  assumes "len \<le> 4096" "0 < len"
  shows "ReadAt (\<lambda>_. PRead 4096) demo_rom len 0 = (\<lambda>_. PRead 4096, Some (take len demo_rom))"
proof -
  have new: "pread (\<lambda>_. PRead 4096) demo_rom 0 len = take len demo_rom" "length (take len demo_rom) = len" "take len demo_rom \<noteq> []"
    using assms by (auto simp: pread_def segment_def demo_rom_def min_def)
  then show ?thesis
    unfolding ReadAt_def by (subst read_at.simps) (simp add: assms(2) Let_def read_at.simps [of _ _ _ _ "take len demo_rom"])
qed

lemma demo_header: "u32_at demo_rom 0x20 = 0" "u32_at demo_rom 0x2C = 4" "u32_at demo_rom 0x30 = 0" "u32_at demo_rom 0x3C = 0"
  "\<not> IsDSi demo_rom" "take 4096 demo_rom = demo_rom"
  by (simp_all add: u32_at_def IsDSi_def demo_rom_def nth_append)


text \<open>
  C20: The imported list is the database's codes in order, each with its folder, and the text of every code
  is one the emulator parses back to the code's words.
\<close>

theorem cheat_import_roundtrip:
  assumes "nativeCheatDbLookup as content (Some (name, entries)) = Some out"
    and "\<forall>g. \<forall>e \<in> set (entries g). \<forall>(path, name, desc, ws, one) \<in> set (entry_codes e). ws \<noteq> [] \<and> even (length ws)"
  shows "\<exists>g checksum. out = [''DB'', name, [], [], [], []] @ concat (map (entry_strings checksum) (entries g)) \<and>
    (\<forall>e \<in> set (entries g). \<forall>(path, name, desc, ws, one) \<in> set (entry_codes e). ParseArCode (item_text ws) = Some ws)"
proof -
  obtain as1 header where h: "ReadAt as content 4096 0 = (as1, Some header)"
    using assms(1) by (auto simp: nativeCheatDbLookup_def split: prod.splits option.splits)
  let ?g = "GameCodeAsU32 header" and ?c = "snd (RomChecksum as1 content header)"
  have "out = [''DB'', name, [], [], [], []] @ concat (map (entry_strings ?c) (entries ?g))"
    using assms(1) h by (auto simp: nativeCheatDbLookup_def Let_def fold_entries split: if_splits)
  moreover have "\<forall>e \<in> set (entries ?g). \<forall>(path, name, desc, ws, one) \<in> set (entry_codes e). ParseArCode (item_text ws) = Some ws"
    using assms(2) item_text_parses by fastforce
  ultimately show ?thesis by blast
qed

definition demo_entry :: ar_entry where
  "demo_entry = \<lparr>ae_Checksum = 7, ae_Name = ''Game'', ae_OnlyOne = False,
     ae_Items = [ARCodeCat ''Money'' [] True [ARCode ''Max'' ''All of it'' [0x12345678, 0x63]]]\<rparr>"

lemma cheat_import_roundtrip_witness:
  "\<exists>out checksum. nativeCheatDbLookup (\<lambda>_. PRead 4096) demo_rom (Some (''Codes'', \<lambda>_. [demo_entry])) = Some out \<and>
    out = [''DB'', ''Codes'', [], [], [], []] @ entry_strings checksum demo_entry \<and>
    entry_codes demo_entry = [(''Money'', ''Max'', ''All of it'', [0x12345678, 0x63], True)] \<and>
    ParseArCode (item_text [0x12345678, 0x63]) = Some [0x12345678, 0x63]"
proof -
  have r: "ReadAt (\<lambda>_. PRead 4096) demo_rom 4096 0 = (\<lambda>_. PRead 4096, Some demo_rom)" using demo_read [of 4096] demo_header(6) by simp
  then obtain out where out: "nativeCheatDbLookup (\<lambda>_. PRead 4096) demo_rom (Some (''Codes'', \<lambda>_. [demo_entry])) = Some out"
    by (simp add: nativeCheatDbLookup_def Let_def)
  have codes: "entry_codes demo_entry = [(''Money'', ''Max'', ''All of it'', [0x12345678, 0x63], True)]"
    by (simp add: entry_codes_def demo_entry_def sub_path_def)
  with cheat_import_roundtrip [OF out] out show ?thesis by auto
qed

end
