(* ===== verification/BitField.thy ===== *)
theory BitField
  imports Prelude
begin

unbundle bit_operations_syntax

text \<open>
  Fields of machine words, and the bit sets in which melonDS notes the memory that was written,
  \<^verbatim>\<open>NonStupidBitField\<close>: the test whether any bit of a range is set.
\<close>

section \<open>Fields of words\<close>

text \<open>\<open>fld w lo n\<close> is \<^verbatim>\<open>(w >> lo) & ((1 << n) - 1)\<close>.\<close>

definition fld :: "'a::len word \<Rightarrow> nat \<Rightarrow> nat \<Rightarrow> nat" where
  "fld w lo n = unat (take_bit n (drop_bit lo w))"

lemma fld_less [simp]: "fld w lo n < 2 ^ n"
proof -
  have "uint (take_bit n (drop_bit lo w)) = take_bit n (uint (drop_bit lo w))" by (rule unsigned_take_bit_eq)
  then have "int (unat (take_bit n (drop_bit lo w))) < 2 ^ n" by simp
  then show ?thesis unfolding fld_def by (metis of_nat_less_iff of_nat_numeral of_nat_power)
qed

section \<open>Ranges of bits\<close>

text \<open>
  The array of 64-bit entries; what lies behind its end in memory is \<open>junk\<close>.  A shift by the width of
  the type is taken modulo the width, as the ARM processors of the devices do.
\<close>

definition entry :: "(nat \<Rightarrow> u64) \<Rightarrow> u64 list \<Rightarrow> nat \<Rightarrow> u64" where
  "entry junk ws i = (if i < length ws then ws ! i else junk i)"

definition CheckRange :: "(nat \<Rightarrow> u64) \<Rightarrow> u64 list \<Rightarrow> nat \<Rightarrow> nat \<Rightarrow> bool" where
  "CheckRange junk ws start count =
     (let first = start div 64; n = (start + count + 63) div 64 - first; over = (start + count) mod 64 in
      if n > 1
      then (entry junk ws first AND push_bit (start mod 64) (- 1)) OR
           (if over \<noteq> 0 then entry junk ws (first + n - 1) AND NOT (push_bit over (- 1)) else entry junk ws (first + n - 1)) OR
           fold (\<lambda>i res. res OR entry junk ws i) [first + 1..<first + n - 1] 0 \<noteq> 0
      else entry junk ws first AND push_bit (start mod 64) (drop_bit ((64 - count) mod 64) (- 1)) \<noteq> 0)"

definition field_bit :: "u64 list \<Rightarrow> nat \<Rightarrow> bool" where
  "field_bit ws i \<longleftrightarrow> i div 64 < length ws \<and> bit (ws ! (i div 64)) (i mod 64)"

section \<open>Lemmas\<close>

lemma bit_ones [simp]: "bit (- 1 :: u64) n \<longleftrightarrow> n < 64"
  by simp

lemma word_nonzero_bit: "(w :: u64) \<noteq> 0 \<longleftrightarrow> (\<exists>n < 64. bit w n)"
  by (auto simp: bit_eq_iff)

lemma bit_fold_or: "bit (fold (\<lambda>i res. res OR f i) is a) n \<longleftrightarrow> bit (a :: u64) n \<or> (\<exists>i \<in> set is. bit (f i) n)"
  by (induction "is" arbitrary: a) (auto simp: bit_or_iff)

lemma bit_masks:
  "j < 64 \<Longrightarrow> bit (push_bit b (- 1) :: u64) j \<longleftrightarrow> b \<le> j"
  "j < 64 \<Longrightarrow> bit (NOT (push_bit b (- 1)) :: u64) j \<longleftrightarrow> j < b"
  "j < 64 \<Longrightarrow> 0 < n \<Longrightarrow> n \<le> 64 \<Longrightarrow> bit (push_bit b (drop_bit ((64 - n) mod 64) (- 1)) :: u64) j \<longleftrightarrow> b \<le> j \<and> j < b + n"
  by (auto simp: bit_push_bit_iff bit_not_iff bit_drop_bit_eq bit_mask_iff)

text \<open>With \<open>start = 64 a + b\<close> and \<open>start + count = 64 c + d\<close>, the bits of entry \<open>k\<close> that are in the range.\<close>

lemma CheckRange_split:
  assumes "b < 64" "d < 64" "64 * a + b < 64 * c + d"
  shows "CheckRange junk ws (64 * a + b) (64 * c + d - (64 * a + b)) \<longleftrightarrow>
    (\<exists>k j. j < 64 \<and> 64 * a + b \<le> 64 * k + j \<and> 64 * k + j < 64 * c + d \<and> bit (entry junk ws k) j)"
    (is "?C \<longleftrightarrow> ?E")
proof -
  let ?e = "entry junk ws" and ?m = "c + (if d > 0 then 1 else 0)"
  have last: "(64 * c + d + 63) div 64 = ?m" using assms(2) by auto
  have parts: "(64 * a + b) div 64 = a" "(64 * a + b) mod 64 = b" "(64 * c + d) mod 64 = d"
    "64 * a + b + (64 * c + d - (64 * a + b)) = 64 * c + d" using assms by auto
  show ?thesis
  proof (cases "?m - a > 1")
    case True
    define mid where "mid = fold (\<lambda>i res. res OR ?e i) [a + 1..<?m - 1] 0"
    define final where "final = (if d \<noteq> 0 then ?e (?m - 1) AND NOT (push_bit d (- 1)) else ?e (?m - 1))"
    have eq: "a + (?m - a) - 1 = ?m - 1" using True by auto
    then have "?C \<longleftrightarrow> (?e a AND push_bit b (- 1)) OR final OR mid \<noteq> 0"
      unfolding CheckRange_def Let_def parts last final_def mid_def if_P [OF True] eq by (simp only: or.assoc)
    also have "\<dots> \<longleftrightarrow> (\<exists>j < 64. bit (?e a) j \<and> b \<le> j \<or> bit (?e (?m - 1)) j \<and> (d \<noteq> 0 \<longrightarrow> j < d) \<or>
        (\<exists>k \<in> {a + 1..<?m - 1}. bit (?e k) j))"
    proof -
      have "bit ((?e a AND push_bit b (- 1)) OR final OR mid) j \<longleftrightarrow>
          bit (?e a) j \<and> b \<le> j \<or> bit (?e (?m - 1)) j \<and> (d \<noteq> 0 \<longrightarrow> j < d) \<or> (\<exists>k \<in> {a + 1..<?m - 1}. bit (?e k) j)" if "j < 64" for j
        by (cases "d = 0") (simp_all only: final_def mid_def bit_or_iff bit_and_iff bit_masks(1,2) [OF that] bit_fold_or if_True if_False
          bit_0_eq bot_apply set_upt, simp_all add: bit_and_iff bit_mask_iff that)
      then show ?thesis unfolding word_nonzero_bit by blast
    qed
    also have "\<dots> \<longleftrightarrow> ?E"
    proof
      assume "\<exists>j < 64. bit (?e a) j \<and> b \<le> j \<or> bit (?e (?m - 1)) j \<and> (d \<noteq> 0 \<longrightarrow> j < d) \<or> (\<exists>k \<in> {a + 1..<?m - 1}. bit (?e k) j)"
      then obtain j where j: "j < 64" "bit (?e a) j \<and> b \<le> j \<or> bit (?e (?m - 1)) j \<and> (d \<noteq> 0 \<longrightarrow> j < d) \<or>
        (\<exists>k \<in> {a + 1..<?m - 1}. bit (?e k) j)" by blast
      from j(2) show ?E
      proof (elim disjE bexE conjE)
        assume "bit (?e a) j" "b \<le> j"
        moreover have "64 * a + j < 64 * c + d" using True j(1) by (auto split: if_splits)
        ultimately show ?E using j(1) by (intro exI [of _ a] exI [of _ j]) simp
      next
        assume "bit (?e (?m - 1)) j" "d \<noteq> 0 \<longrightarrow> j < d"
        moreover have "64 * a + b \<le> 64 * (?m - 1) + j" "d \<noteq> 0 \<longrightarrow> j < d \<longrightarrow> 64 * (?m - 1) + j < 64 * c + d" "d = 0 \<longrightarrow> 64 * (?m - 1) + j < 64 * c + d"
          using True assms(1) j(1) by (auto split: if_splits)
        ultimately show ?E using j(1) by (intro exI [of _ "?m - 1"] exI [of _ j]) blast
      next
        fix k assume "k \<in> {a + 1..<?m - 1}" "bit (?e k) j"
        moreover from this(1) have "64 * a + b \<le> 64 * k + j" "64 * k + j < 64 * c + d" using assms(1) j(1) by (auto split: if_splits)
        ultimately show ?E using j(1) by blast
      qed
    next
      assume ?E
      then obtain k j where kj: "j < 64" "64 * a + b \<le> 64 * k + j" "64 * k + j < 64 * c + d" "bit (?e k) j" by blast
      have "a \<le> k" "k \<le> ?m - 1" using kj(1-3) assms(1,2) by (auto split: if_splits)
      then consider "k = a" | "k = ?m - 1" "k \<noteq> a" | "k \<in> {a + 1..<?m - 1}"
        by (metis Suc_eq_plus1 atLeastLessThan_iff le_neq_implies_less less_eq_Suc_le)
      then show "\<exists>j < 64. bit (?e a) j \<and> b \<le> j \<or> bit (?e (?m - 1)) j \<and> (d \<noteq> 0 \<longrightarrow> j < d) \<or> (\<exists>k \<in> {a + 1..<?m - 1}. bit (?e k) j)"
        using kj by cases (auto split: if_splits)
    qed
    finally show ?thesis .
  next
    case False
    let ?n = "64 * c + d - (64 * a + b)"
    have n: "0 < ?n" "?n \<le> 64" "b + ?n \<le> 64" using assms False by (auto split: if_splits)
    have "?C \<longleftrightarrow> ?e a AND push_bit b (drop_bit ((64 - ?n) mod 64) (- 1)) \<noteq> 0"
      unfolding CheckRange_def Let_def parts last using False by simp
    also have "\<dots> \<longleftrightarrow> (\<exists>j < 64. bit (?e a) j \<and> b \<le> j \<and> j < b + ?n)"
    proof -
      have "bit (?e a AND push_bit b (drop_bit ((64 - ?n) mod 64) (- 1))) j \<longleftrightarrow> bit (?e a) j \<and> b \<le> j \<and> j < b + ?n" if "j < 64" for j
        by (simp only: bit_and_iff bit_masks(3) [OF that n(1,2)])
      then show ?thesis unfolding word_nonzero_bit by blast
    qed
    also have "\<dots> \<longleftrightarrow> ?E"
    proof -
      have "64 * a + b \<le> 64 * k + j \<and> 64 * k + j < 64 * c + d \<longleftrightarrow> k = a \<and> b \<le> j \<and> j < b + ?n" if "j < 64" for k j
      proof
        assume kj: "64 * a + b \<le> 64 * k + j \<and> 64 * k + j < 64 * c + d"
        have "64 * c + d \<le> 64 * a + 64" using n(3) assms(3) by linarith
        with kj that have "k = a" by linarith
        moreover have "j < b + ?n" using kj assms(3) \<open>k = a\<close> by linarith
        ultimately show "k = a \<and> b \<le> j \<and> j < b + ?n" using kj by simp
      qed (use n assms(3) that in auto)
      then show ?thesis by metis
    qed
    finally show ?thesis .
  qed
qed

lemma CheckRange_exact:
  assumes "0 < count" "start + count \<le> 64 * length ws"
  shows "CheckRange junk ws start count \<longleftrightarrow> (\<exists>i. start \<le> i \<and> i < start + count \<and> field_bit ws i)"
proof -
  define a b c d where "a = start div 64" "b = start mod 64" "c = (start + count) div 64" "d = (start + count) mod 64"
  have s: "start = 64 * a + b" "start + count = 64 * c + d" "b < 64" "d < 64" by (simp_all add: a_b_c_d_def)
  then have "count = 64 * c + d - (64 * a + b)" "64 * a + b < 64 * c + d" using assms(1) by linarith+
  with CheckRange_split [OF s(3,4), of a c junk ws] s(1)
  have "CheckRange junk ws start count \<longleftrightarrow> (\<exists>k j. j < 64 \<and> start \<le> 64 * k + j \<and> 64 * k + j < start + count \<and> bit (entry junk ws k) j)"
    using s(2) by simp
  also have "\<dots> \<longleftrightarrow> (\<exists>i. start \<le> i \<and> i < start + count \<and> field_bit ws i)"
  proof
    assume "\<exists>k j. j < 64 \<and> start \<le> 64 * k + j \<and> 64 * k + j < start + count \<and> bit (entry junk ws k) j"
    then obtain k j where kj: "j < 64" "start \<le> 64 * k + j" "64 * k + j < start + count" "bit (entry junk ws k) j" by blast
    then have "k < length ws" using assms(2) by linarith
    with kj show "\<exists>i. start \<le> i \<and> i < start + count \<and> field_bit ws i"
      by (intro exI [of _ "64 * k + j"]) (simp add: field_bit_def entry_def)
  next
    assume "\<exists>i. start \<le> i \<and> i < start + count \<and> field_bit ws i"
    then obtain i where i: "start \<le> i" "i < start + count" "field_bit ws i" by blast
    then show "\<exists>k j. j < 64 \<and> start \<le> 64 * k + j \<and> 64 * k + j < start + count \<and> bit (entry junk ws k) j"
      by (intro exI [of _ "i div 64"] exI [of _ "i mod 64"]) (simp add: field_bit_def entry_def)
  qed
  finally show ?thesis .
qed

text \<open>A range that leaves the array depends on the memory behind it.\<close>

lemma CheckRange_outside: "CheckRange (\<lambda>_. 1) [0] 48 64" "\<not> CheckRange (\<lambda>_. 0) [0] 48 64"
  by (simp_all add: CheckRange_def entry_def flip: take_bit_eq_mask)

end
