(* ===== verification/VkCalls.thy ===== *)
theory VkCalls
  imports VkStreamUpload
begin

text \<open>
  The calls the DS renderers make on the command layer, as values: with the textures they name, the
  contents of the uniforms and the vertices.  A list of calls runs on the stream of \<open>VkStream\<close>, and
  its effect on the lines of a render target is read off it.
\<close>

datatype sampler_mode = NearestRepeat | NearestClampEdge | NearestClampBorder | LinearClampEdge

text \<open>The programs of the 2D renderers and the parent renderer, \<^verbatim>\<open>VulkanPrograms\<close>.\<close>

datatype program = LayerPre | SpritePre | SpritePass nat | Compositor | FinalPass | CaptureProgram | CapDown

text \<open>A binding: its number, then array element, texture and sampler, or the uniform's contents.\<close>

datatype 'u arg = TexArg nat nat nat sampler_mode | UniArg nat 'u

datatype 'u call =
    Rendering "(nat \<times> nat) list" "(nat \<times> nat) option"
  | EndPass
  | Viewport int int int int
  | Scissor int int int int
  | ClearColour nat "nat list"
  | ClearDepths
  | DrawCall program "'u arg list" int "int list" nat
  | Upload nat nat int int int int nat
  | Create nat texture_desc
  | Copy nat nat int int int
  | Readback nat int int int int
  | ExternalRead nat
  | Submit bool

section \<open>Running calls\<close>

text \<open>The bytes of one vertex value: the rectangles are floats, the sprites' and the capture's 16-bit integers.\<close>

definition value_bytes :: "program \<Rightarrow> nat" where
  "value_bytes p = (case p of SpritePre \<Rightarrow> 2 | SpritePass i \<Rightarrow> 2 | CaptureProgram \<Rightarrow> 2 | _ \<Rightarrow> 4)"

definition program_number :: "program \<Rightarrow> nat" where
  "program_number p = (case p of LayerPre \<Rightarrow> 1 | SpritePre \<Rightarrow> 2 | SpritePass i \<Rightarrow> 10 + i | Compositor \<Rightarrow> 3 | FinalPass \<Rightarrow> 4
     | CaptureProgram \<Rightarrow> 5 | CapDown \<Rightarrow> 6)"

definition arg_binding :: "('u \<Rightarrow> nat) \<Rightarrow> 'u arg \<Rightarrow> binding" where
  "arg_binding usize x = (case x of TexArg b i t m \<Rightarrow> BTexture t | UniArg b u \<Rightarrow> BUniform (usize u))"

text \<open>
  \<open>usize\<close> is the size of a uniform's contents, \<open>a\<close> the alignment of uniforms on the device, \<open>full\<close>
  whether the slot's descriptors are used up and \<open>ok\<close> whether images and buffers can be created.
\<close>

fun run_call :: "('u \<Rightarrow> nat) \<Rightarrow> nat \<Rightarrow> bool \<Rightarrow> bool \<Rightarrow> 'u call \<Rightarrow> stream \<Rightarrow> stream" where
  "run_call usize a full ok (Rendering cs d) s = BeginRendering cs d s"
| "run_call usize a full ok EndPass s = EndRendering s"
| "run_call usize a full ok (Viewport x y w h) s = SetViewport x y w h s"
| "run_call usize a full ok (Scissor x y w h) s = SetScissor x y w h s"
| "run_call usize a full ok (ClearColour i col) s = ClearColor i s"
| "run_call usize a full ok ClearDepths s = ClearDepth s"
| "run_call usize a full ok (DrawCall p args push vs n) s =
     Draw (program_number p) True full a (map (arg_binding usize) args) (value_bytes p * length vs) n s"
| "run_call usize a full ok (Upload t layer x y w h bpp) s = UploadTexture t w h bpp s"
| "run_call usize a full ok (Create t d) s = fst (CreateTexture ok t d s)"
| "run_call usize a full ok (Copy src dst layer y0 y1) s =
     (let s1 = Use src LTransferSrc {Transfer} {TransferRead} False s;
          s2 = Use dst LTransferDst {Transfer} {TransferWrite} True s1
      in emit (CCopyImage (tx_image (st_tex s2 src)) (tx_image (st_tex s2 dst))) s2)"
| "run_call usize a full ok (Readback t x y w h) s = fst (ReadTexture ok t s)"
| "run_call usize a full ok (ExternalRead t) s = PrepareForExternalRead t s"
| "run_call usize a full ok (Submit wait) s = Flush wait s"

text \<open>What a call needs to fit into the upload ring.\<close>

fun call_fits :: "('u \<Rightarrow> nat) \<Rightarrow> nat \<Rightarrow> 'u call \<Rightarrow> bool" where
  "call_fits usize a (DrawCall p args push vs n) \<longleftrightarrow>
     space_needed a (map (arg_binding usize) args) (value_bytes p * length vs) \<le> kRingSize"
| "call_fits usize a (Upload t layer x y w h bpp) \<longleftrightarrow> nat w * nat h * bpp \<le> kRingSize"
| "call_fits usize a _ \<longleftrightarrow> True"

section \<open>What the calls leave on a target\<close>

text \<open>
  A target is seen as \<open>lines\<close> of the 1x screen.  A clear or a draw with the compositor's rectangle
  replaces the lines inside the scissor, which the renderers set to whole lines.  A draw is noted with
  its bindings, each texture with the number of passes that have drawn into it so far: the contents
  that the draw samples.
\<close>

datatype 'u painted = Nothing | Cleared "nat list" | Drawn "('u arg \<times> nat) list"

record 'u canvas =
  cv_on :: bool
  cv_y :: int
  cv_h :: int
  cv_passes :: "nat \<Rightarrow> nat"
  cv_lines :: "nat \<Rightarrow> 'u painted"

definition paint_lines :: "int \<Rightarrow> 'u painted \<Rightarrow> 'u canvas \<Rightarrow> 'u canvas" where
  "paint_lines scale p c =
     (if cv_on c then c\<lparr>cv_lines := (\<lambda>l. if cv_y c \<le> int l * scale \<and> int l * scale < cv_y c + cv_h c then p else cv_lines c l)\<rparr> else c)"

definition sampled :: "(nat \<Rightarrow> nat) \<Rightarrow> 'u arg list \<Rightarrow> ('u arg \<times> nat) list" where
  "sampled passes = map (\<lambda>x. (x, case x of TexArg b i t m \<Rightarrow> passes t | UniArg b u \<Rightarrow> 0))"

definition count_pass :: "(nat \<times> nat) list \<Rightarrow> (nat \<Rightarrow> nat) \<Rightarrow> nat \<Rightarrow> nat" where
  "count_pass cs passes t = (if t \<in> fst ` set cs then Suc (passes t) else passes t)"

text \<open>The target is attachment 0 of a pass on \<open>t\<close>.\<close>

fun paint :: "int \<Rightarrow> nat \<Rightarrow> 'u call \<Rightarrow> 'u canvas \<Rightarrow> 'u canvas" where
  "paint scale t (Rendering cs d) c = c\<lparr>cv_on := (cs = [(t, 0)]), cv_passes := count_pass cs (cv_passes c)\<rparr>"
| "paint scale t EndPass c = c\<lparr>cv_on := False\<rparr>"
| "paint scale t (Scissor x y w h) c = c\<lparr>cv_y := y, cv_h := h\<rparr>"
| "paint scale t (ClearColour i col) c = paint_lines scale (Cleared col) c"
| "paint scale t (DrawCall p args push vs n) c = paint_lines scale (Drawn (sampled (cv_passes c) args)) c"
| "paint scale t _ c = c"

definition paints :: "int \<Rightarrow> nat \<Rightarrow> 'u call list \<Rightarrow> 'u canvas \<Rightarrow> 'u canvas" where
  "paints scale t = fold (paint scale t)"

section \<open>Lemmas\<close>

lemma run_call_reach: "stream_reach s \<Longrightarrow> 0 < a \<Longrightarrow> call_fits usize a c \<Longrightarrow> stream_reach (run_call usize a full ok c s)"
  by (cases c) (simp_all add: Let_def stream_reach.intros)

definition run_calls :: "('u \<Rightarrow> nat) \<Rightarrow> nat \<Rightarrow> bool \<Rightarrow> bool \<Rightarrow> 'u call list \<Rightarrow> stream \<Rightarrow> stream" where
  "run_calls usize a full ok = fold (run_call usize a full ok)"

lemma run_calls_reach:
  "stream_reach s \<Longrightarrow> 0 < a \<Longrightarrow> \<forall>c \<in> set cs. call_fits usize a c \<Longrightarrow> stream_reach (run_calls usize a full ok cs s)"
  unfolding run_calls_def by (induction cs arbitrary: s) (simp_all add: run_call_reach)

lemma AlignUp_le: "0 < a \<Longrightarrow> AlignUp v a \<le> v + a"
  using AlignUp_bounds(2) [of a v] by simp

text \<open>A bound of the space a draw needs from the sizes of its uniforms.\<close>

lemma space_needed_le:
  assumes "0 < a" "\<forall>x \<in> set args. case x of TexArg b i t m \<Rightarrow> True | UniArg b u \<Rightarrow> usize u \<le> m"
  shows "space_needed a (map (arg_binding usize) args) vb \<le> vb + 32 + length args * (m + 2 * a)"
proof -
  have "(\<Sum>b \<leftarrow> map (arg_binding usize) args. case b of BTexture t \<Rightarrow> 0 | BUniform n \<Rightarrow> AlignUp n a + a) \<le> length args * (m + 2 * a)"
    using assms(2)
  proof (induction args)
    case (Cons x xs)
    have "AlignUp n a + a \<le> m + 2 * a" if "n \<le> m" for n using AlignUp_le [OF assms(1), of n] that by linarith
    then have "(case arg_binding usize x of BTexture t \<Rightarrow> 0 | BUniform n \<Rightarrow> AlignUp n a + a) \<le> m + 2 * a"
      using Cons.prems by (cases x) (auto simp: arg_binding_def)
    with Cons show ?case by (simp add: add.assoc)
  qed simp
  moreover have "AlignUp vb 16 \<le> vb + 16" by (rule AlignUp_le) simp
  ultimately show ?thesis by (simp add: space_needed_def)
qed

end
