(* ===== verification/Gpu2D.thy ===== *)
theory Gpu2D
  imports BitField VkCalls
begin

unbundle bit_operations_syntax

text \<open>
  The 2D renderer of the DS, class \<^verbatim>\<open>VulkanRenderer2D\<close> of \<^verbatim>\<open>vk/GPU2D_Vulkan.cpp\<close>: what it reads from the
  emulated console, its own state, and the configuration it derives for the shaders from the
  registers: background layers and scanlines.

  The console's state belongs to melonDS; the fields the renderer reads are the records \<open>gpu2d\<close> (one
  of the two engines) and \<open>gpu\<close> (shared), with the fields' names and widths.
\<close>

section \<open>The console\<close>

type_synonym s32 = "32 word"

record gpu2d =
  g_Num :: nat
  g_Enabled :: bool
  g_DispCnt :: u32
  g_LayerEnable :: u8
  g_OBJEnable :: u8
  g_ForcedBlank :: u8
  g_BGCnt :: "u16 list"
  g_BGXPos :: "u16 list"
  g_BGYPos :: "u16 list"
  g_BGXRef :: "s32 list"
  g_BGYRef :: "s32 list"
  g_BGRotA :: "i16 list"
  g_BGRotB :: "i16 list"
  g_BGRotC :: "i16 list"
  g_BGRotD :: "i16 list"
  g_Win0Coords :: "u8 list"
  g_Win1Coords :: "u8 list"
  g_WinCnt :: "u8 list"
  g_Win0Active :: u8
  g_Win1Active :: u8
  g_BGMosaicSize :: "u8 list"
  g_OBJMosaicSize :: "u8 list"
  g_BGMosaicLine :: u32
  g_OBJMosaicLine :: u32
  g_BlendCnt :: u16
  g_EVA :: u8
  g_EVB :: u8
  g_EVY :: u8

text \<open>
  Of the rest of the console: the palette's backdrop colours, the sprites' memory, what the capture
  blocks hold (\<open>- 1\<close> for none), and the bits of the memory written since it was last read.
\<close>

record gpu =
  gp_ScreensEnabled :: bool
  gp_MasterBrightnessA :: u16
  gp_MasterBrightnessB :: u16
  gp_CaptureEnable :: bool
  gp_CaptureCnt :: u32
  gp_PaletteDirty :: u32
  gp_OAMDirty :: u32
  gp_RenderXPos :: u32
  gp_BackColor :: "nat \<Rightarrow> u16"
  gp_OAM :: "nat \<Rightarrow> u16 list"
  gp_CaptureBG :: "nat \<Rightarrow> int list"
  gp_CaptureOBJ :: "nat \<Rightarrow> int list"
  gp_BGDirty :: "nat \<Rightarrow> u64 list"
  gp_OBJDirty :: "nat \<Rightarrow> u64 list"
  gp_BGExtPalDirty :: "nat \<Rightarrow> u64 list"

section \<open>State\<close>

record bg_config =
  bc_Size :: "nat \<times> nat"
  bc_Type :: nat
  bc_PalOffset :: nat
  bc_TileOffset :: nat
  bc_MapOffset :: nat
  bc_Clamp :: bool

definition bg_zero :: bg_config where
  "bg_zero = \<lparr>bc_Size = (0, 0), bc_Type = 0, bc_PalOffset = 0, bc_TileOffset = 0, bc_MapOffset = 0, bc_Clamp = False\<rparr>"

record scanline =
  sc_BGOffset :: "(int \<times> int) list"
  sc_BGRotscale :: "int list list"
  sc_BackColor :: nat
  sc_WinRegs :: u32
  sc_WinMask :: u32
  sc_WinPos :: "int list"
  sc_BGMosaicEnable :: "bool list"
  sc_MosaicSize :: "nat list"

definition scanline_zero :: scanline where
  "scanline_zero = \<lparr>sc_BGOffset = replicate 4 (0, 0), sc_BGRotscale = replicate 2 [0, 0, 0, 0], sc_BackColor = 0, sc_WinRegs = 0,
     sc_WinMask = 0, sc_WinPos = [0, 0, 0, 0], sc_BGMosaicEnable = replicate 4 False, sc_MosaicSize = [0, 0, 0, 0]\<rparr>"

record sprite =
  sp_Position :: "int \<times> int"
  sp_Flip :: "bool \<times> bool"
  sp_Size :: "nat \<times> nat"
  sp_BoundSize :: "nat \<times> nat"
  sp_OBJMode :: nat
  sp_Type :: nat
  sp_PalOffset :: nat
  sp_TileOffset :: nat
  sp_TileStride :: nat
  sp_Rotscale :: int
  sp_BGPrio :: nat
  sp_Mosaic :: bool

definition sprite_zero :: sprite where
  "sprite_zero = \<lparr>sp_Position = (0, 0), sp_Flip = (False, False), sp_Size = (0, 0), sp_BoundSize = (0, 0), sp_OBJMode = 0,
     sp_Type = 0, sp_PalOffset = 0, sp_TileOffset = 0, sp_TileStride = 0, sp_Rotscale = 0, sp_BGPrio = 0, sp_Mosaic = False\<rparr>"

record compositor =
  co_BGPrio :: "int list"
  co_EnableOBJ :: bool
  co_Enable3D :: bool
  co_BlendCnt :: u16
  co_BlendEffect :: nat
  co_BlendCoef :: "nat list"

definition compositor_zero :: compositor where
  "compositor_zero = \<lparr>co_BGPrio = [0, 0, 0, 0], co_EnableOBJ = False, co_Enable3D = False, co_BlendCnt = 0, co_BlendEffect = 0,
     co_BlendCoef = [0, 0, 0]\<rparr>"

record renderer2d =
  r_Scale :: int
  r_LayerMask :: nat
  r_SpriteMask :: nat
  r_BG :: "bg_config list"
  r_Rotscale :: "int list list"
  r_Sprites :: "sprite list"
  r_Scanlines :: "scanline list"
  r_MosaicLines :: "nat list"
  r_Compositor :: compositor
  r_BGLayerTex :: "nat option list"
  r_NumSprites :: nat
  r_SpriteUseMosaic :: bool
  r_LastLine :: nat
  r_UnitEnabled :: bool
  r_DispCnt :: u32
  r_LayerEnable :: u8
  r_OBJEnable :: u8
  r_ForcedBlank :: u8
  r_BGCnt :: "u16 list"
  r_BlendCnt :: u16
  r_EVA :: u8
  r_EVB :: u8
  r_EVY :: u8
  r_BGVRAMRange :: "nat list list"
  r_LayerConfigDirty :: bool
  r_LastSpriteLine :: nat
  r_OAM :: "u16 list"
  r_SpriteDispCnt :: u32
  r_SpriteConfigDirty :: bool
  r_SpriteDirty :: bool

text \<open>\<open>NoRange\<close> marks a layer without such data.\<close>

definition NoRange :: nat where "NoRange = 0xFFFFFFFF"

definition r2d_Reset :: "gpu2d \<Rightarrow> renderer2d \<Rightarrow> renderer2d" where
  "r2d_Reset g r = r\<lparr>r_BGLayerTex := replicate 4 None,
     r_LayerMask := (if g_Num g = 0 then 512 else 128) - 1, r_SpriteMask := (if g_Num g = 0 then 256 else 128) - 1,
     r_BG := replicate 4 bg_zero, r_Rotscale := replicate 32 [0, 0, 0, 0], r_Sprites := replicate 128 sprite_zero,
     r_Scanlines := replicate 192 scanline_zero, r_MosaicLines := replicate 192 0, r_Compositor := compositor_zero,
     r_LastLine := 0, r_UnitEnabled := False, r_DispCnt := 0, r_LayerEnable := 0, r_OBJEnable := 0, r_ForcedBlank := 0,
     r_BGCnt := [0, 0, 0, 0], r_BlendCnt := 0, r_EVA := 0, r_EVB := 0, r_EVY := 0,
     r_BGVRAMRange := replicate 4 (replicate 4 NoRange), r_LayerConfigDirty := True, r_LastSpriteLine := 0,
     r_OAM := replicate 512 0, r_NumSprites := 0, r_SpriteUseMosaic := False, r_SpriteDispCnt := 0,
     r_SpriteConfigDirty := True, r_SpriteDirty := True\<rparr>"

section \<open>Is the screen on\<close>

definition IsScreenOn :: "gpu \<Rightarrow> gpu2d \<Rightarrow> bool" where
  "IsScreenOn gp g =
     (let mb = (if g_Num g \<noteq> 0 then gp_MasterBrightnessB gp else gp_MasterBrightnessA gp);
          layers = ucast (g_LayerEnable g) OR 0x20 :: u16; effect = fld (g_BlendCnt g) 6 2;
          bldlayers = g_BlendCnt g AND layers AND 0x3F; dispmode = fld (g_DispCnt g) 16 2 in
      if \<not> gp_ScreensEnabled gp then False
      else if \<not> g_Enabled g then False
      else if g_ForcedBlank g \<noteq> 0 then False
      else if (fld mb 14 2 = 1 \<or> fld mb 14 2 = 2) \<and> fld mb 0 5 \<ge> 16 then False
      else if (effect = 2 \<or> effect = 3) \<and> bldlayers = layers \<and> unat (g_EVY g) \<ge> 16 \<and> g_DispCnt g AND 0xE000 = 0 then False
      else if dispmode \<noteq> 1 \<and> (g_Num g \<noteq> 0 \<or> \<not> gp_CaptureEnable gp) then False
      else True)"

section \<open>Scanlines\<close>

text \<open>A text layer's offset: the vertical one follows the mosaic when the layer has it.\<close>

definition text_offset :: "gpu2d \<Rightarrow> nat \<Rightarrow> nat \<Rightarrow> int \<times> int" where
  "text_offset g layer line =
     (int (unat (g_BGXPos g ! layer)),
      if bit (g_BGCnt g ! layer) 6 then sint (ucast (g_BGYPos g ! layer) + g_BGMosaicLine g :: s32)
      else int (unat (g_BGYPos g ! layer)) + int line)"

definition rotscale_offset :: "gpu2d \<Rightarrow> nat \<Rightarrow> int \<times> int" where
  "rotscale_offset g k = (sint (g_BGXRef g ! k), sint (g_BGYRef g ! k))"

definition rotscale_params :: "gpu2d \<Rightarrow> nat \<Rightarrow> int list" where
  "rotscale_params g k = [sint (g_BGRotA g ! k), sint (g_BGRotB g ! k), sint (g_BGRotC g ! k), sint (g_BGRotD g ! k)]"

definition rotscale_layer2 :: "nat \<Rightarrow> bool" where
  "rotscale_layer2 mode \<longleftrightarrow> mode = 2 \<or> 4 \<le> mode \<and> mode \<le> 6"

definition rotscale_layer3 :: "nat \<Rightarrow> bool" where
  "rotscale_layer3 mode \<longleftrightarrow> 1 \<le> mode \<and> mode \<le> 5"

text \<open>The window registers, with all layers on where a window is off.\<close>

definition win_regs :: "gpu2d \<Rightarrow> u32" where
  "win_regs g =
     (if g_DispCnt g AND 0xE000 \<noteq> 0 then ucast (g_WinCnt g ! 2) else 0xFF) OR
     (if bit (g_DispCnt g) 15 then push_bit 8 (ucast (g_WinCnt g ! 3)) else 0xFF00) OR
     (if bit (g_DispCnt g) 14 then push_bit 16 (ucast (g_WinCnt g ! 1)) else 0xFF0000) OR
     (if bit (g_DispCnt g) 13 then push_bit 24 (ucast (g_WinCnt g ! 0)) else 0xFF000000)"

text \<open>One window on one line: its two positions, its mask bits and the new state.\<close>

definition window_line :: "bool \<Rightarrow> u8 \<Rightarrow> u8 list \<Rightarrow> (int \<times> int) \<times> u32 \<times> u8" where
  "window_line on active coords =
     (let x0 = int (unat (coords ! 0)); x1 = int (unat (coords ! 1)); both = (if active = 3 then 1 else 0) in
      if on \<and> bit active 0
      then if x0 \<le> x1 then ((x0, x1), both OR 2, active AND NOT 2) else ((x1, x0), both OR 4, active OR 2)
      else ((256, 256), 0, active))"

definition scanline_config :: "gpu \<Rightarrow> gpu2d \<Rightarrow> u32 \<Rightarrow> nat \<Rightarrow> scanline \<Rightarrow> scanline" where
  "scanline_config gp g dispcnt line old =
     (let mode = fld dispcnt 0 3; xmosaic = (g_BGMosaicSize g ! 0 > 0); x3d = fld (gp_RenderXPos gp) 0 9;
          is3d = bit dispcnt 3; mos = (\<lambda>l. bit (g_BGCnt g ! l) 6 \<and> xmosaic);
          w0 = window_line (bit (g_DispCnt g) 13) (g_Win0Active g) (g_Win0Coords g);
          w1 = window_line (bit (g_DispCnt g) 14) (g_Win1Active g) (g_Win1Coords g) in
      \<lparr>sc_BGOffset =
         [if is3d then (int x3d - (if x3d \<ge> 256 then 512 else 0), int line) else text_offset g 0 line,
          text_offset g 1 line,
          if rotscale_layer2 mode then rotscale_offset g 0 else text_offset g 2 line,
          if rotscale_layer3 mode then rotscale_offset g 1 else text_offset g 3 line],
       sc_BGRotscale =
         [if rotscale_layer2 mode then rotscale_params g 0 else sc_BGRotscale old ! 0,
          if rotscale_layer3 mode then rotscale_params g 1 else sc_BGRotscale old ! 1],
       sc_BackColor = unat (gp_BackColor gp (g_Num g)),
       sc_WinRegs = win_regs g,
       sc_WinMask = fst (snd w0) OR push_bit 3 (fst (snd w1)),
       sc_WinPos = [fst (fst w0), snd (fst w0), fst (fst w1), snd (fst w1)],
       sc_BGMosaicEnable = [\<not> is3d \<and> mos 0, mos 1, mos 2, mos 3],
       sc_MosaicSize = [unat (g_BGMosaicSize g ! 0), unat (g_BGMosaicSize g ! 1), unat (g_OBJMosaicSize g ! 0), unat (g_OBJMosaicSize g ! 1)]\<rparr>)"

definition window_states :: "gpu2d \<Rightarrow> gpu2d" where
  "window_states g =
     g\<lparr>g_Win0Active := snd (snd (window_line (bit (g_DispCnt g) 13) (g_Win0Active g) (g_Win0Coords g))),
       g_Win1Active := snd (snd (window_line (bit (g_DispCnt g) 14) (g_Win1Active g) (g_Win1Coords g)))\<rparr>"

definition UpdateScanlineConfig :: "gpu \<Rightarrow> nat \<Rightarrow> gpu2d \<times> renderer2d \<Rightarrow> gpu2d \<times> renderer2d" where
  "UpdateScanlineConfig gp line st =
     (case st of (g, r) \<Rightarrow>
        (window_states g,
         r\<lparr>r_Scanlines := (r_Scanlines r)[line := scanline_config gp g (r_DispCnt r) line (r_Scanlines r ! line)]\<rparr>))"

end
