(* ===== verification/Gpu2DLayers.thy ===== *)
theory Gpu2DLayers
  imports Gpu2D
begin

unbundle bit_operations_syntax

text \<open>
  The background layers of the 2D renderer: kind, size, place in video memory and the texture each
  layer is rendered into.
\<close>

section \<open>Layers\<close>

text \<open>The kinds of the layers in a mode: 0 none, 1 text, 2 affine, 3 extended, 4 large.\<close>

definition layertype :: "nat \<Rightarrow> nat list" where
  "layertype mode =
     (if mode = 0 then [1, 1, 1, 1] else if mode = 1 then [1, 1, 1, 2] else if mode = 2 then [1, 1, 2, 2]
      else if mode = 3 then [1, 1, 1, 3] else if mode = 4 then [1, 1, 2, 3] else if mode = 5 then [1, 1, 3, 3]
      else if mode = 6 then [0, 0, 4, 0] else [1, 1, 0, 0])"

definition BGBaseIndex :: "nat list list" where
  "BGBaseIndex = [[2, 10, 6, 14], [0, 4, 16, 20], [0, 4, 12, 16], [18, 19, 12, 16]]"

text \<open>Width, height and size of the map, by the size field.\<close>

definition text_sizes :: "(nat \<times> nat \<times> nat) list" where
  "text_sizes = [(256, 256, 0x800), (512, 256, 0x1000), (256, 512, 0x1000), (512, 512, 0x2000)]"

definition affine_sizes :: "(nat \<times> nat \<times> nat) list" where
  "affine_sizes = [(128, 128, 0x100), (256, 256, 0x400), (512, 512, 0x1000), (1024, 1024, 0x4000)]"

definition bitmap_sizes :: "(nat \<times> nat \<times> nat) list" where
  "bitmap_sizes = [(128, 128, 0x4000), (256, 256, 0x10000), (512, 256, 0x20000), (512, 512, 0x40000)]"

definition rotscale_sizes :: "(nat \<times> nat \<times> nat) list" where
  "rotscale_sizes = [(128, 128, 0x200), (256, 256, 0x800), (512, 512, 0x2000), (1024, 1024, 0x8000)]"

definition large_sizes :: "(nat \<times> nat \<times> nat) list" where
  "large_sizes = [(512, 1024, 0x80000), (1024, 512, 0x80000), (512, 256, 0x20000), (512, 512, 0x40000)]"

definition dims :: "nat \<times> nat \<times> nat \<Rightarrow> nat \<times> nat" where
  "dims = (\<lambda>(w, h, m). (w, h))"

definition map_size :: "nat \<times> nat \<times> nat \<Rightarrow> nat" where
  "map_size = (\<lambda>(w, h, m). m)"

text \<open>The last capture block among the blocks of a range of addresses, \<open>- 1\<close> for none.\<close>

definition capture_block :: "int list \<Rightarrow> nat \<Rightarrow> nat \<Rightarrow> nat \<Rightarrow> int" where
  "capture_block info n first beyond =
     fold (\<lambda>b cap. if info ! (b mod n) = - 1 then cap else info ! (b mod n)) [first div 0x4000..<(beyond + 0x3FFF) div 0x4000] (- 1)"

definition ext_palette :: "u32 \<Rightarrow> nat \<Rightarrow> u16 \<Rightarrow> nat" where
  "ext_palette dispcnt layer cnt =
     (if bit dispcnt 30 then 1 + 16 * (if layer < 2 \<and> bit cnt 13 then layer + 2 else layer) else 0)"

definition text_layer :: "u32 \<Rightarrow> nat \<Rightarrow> u16 \<Rightarrow> nat \<Rightarrow> nat \<Rightarrow> bg_config \<times> nat list \<times> nat" where
  "text_layer dispcnt layer cnt tile mp =
     (let size = text_sizes ! fld cnt 14 2 in
      (\<lparr>bc_Size = dims size, bc_Type = (if bit cnt 7 then 1 else 0), bc_PalOffset = (if bit cnt 7 then ext_palette dispcnt layer cnt else 0),
        bc_TileOffset = tile, bc_MapOffset = mp, bc_Clamp = False\<rparr>,
       [tile, if bit cnt 7 then 0x10000 else 0x8000, mp, map_size size],
       BGBaseIndex ! 0 ! fld cnt 14 2 + layer))"

definition affine_layer :: "nat \<Rightarrow> u16 \<Rightarrow> nat \<Rightarrow> nat \<Rightarrow> bg_config \<times> nat list \<times> nat" where
  "affine_layer layer cnt tile mp =
     (let size = affine_sizes ! fld cnt 14 2 in
      (\<lparr>bc_Size = dims size, bc_Type = 2, bc_PalOffset = 0, bc_TileOffset = tile, bc_MapOffset = mp, bc_Clamp = (\<not> bit cnt 13)\<rparr>,
       [tile, 0x4000, mp, map_size size],
       BGBaseIndex ! 1 ! fld cnt 14 2 + layer - 2))"

text \<open>A bitmap: with direct colour and a width of 128 or 256 it may show a display capture.\<close>

definition bitmap_layer :: "int list \<Rightarrow> nat \<Rightarrow> nat \<Rightarrow> u16 \<Rightarrow> bg_config \<times> nat list \<times> nat" where
  "bitmap_layer info n layer cnt =
     (let size = bitmap_sizes ! fld cnt 14 2; w = fst (dims size); mp = fld cnt 8 5 * 0x4000; direct = bit cnt 2;
          cap = (if direct \<and> (w = 128 \<or> w = 256) then capture_block info n mp (mp + map_size size * 2) else - 1);
          (ty, tile, mp2) =
            (if \<not> direct then (4, 0, mp)
             else if cap = - 1 then (5, 0, mp)
             else if w = 128 then (7, nat cap, mp div 0x100 mod 0x80)
             else (8, nat cap div 4, mp div 0x200 mod 0x100)) in
      (\<lparr>bc_Size = dims size, bc_Type = ty, bc_PalOffset = 0, bc_TileOffset = tile, bc_MapOffset = mp2, bc_Clamp = (\<not> bit cnt 13)\<rparr>,
       [NoRange, NoRange, mp, map_size size],
       BGBaseIndex ! 2 ! fld cnt 14 2 + layer - 2))"

definition rotscale_tiles_layer :: "u32 \<Rightarrow> nat \<Rightarrow> u16 \<Rightarrow> nat \<Rightarrow> nat \<Rightarrow> bg_config \<times> nat list \<times> nat" where
  "rotscale_tiles_layer dispcnt layer cnt tile mp =
     (let size = rotscale_sizes ! fld cnt 14 2 in
      (\<lparr>bc_Size = dims size, bc_Type = 3, bc_PalOffset = ext_palette dispcnt layer cnt, bc_TileOffset = tile, bc_MapOffset = mp,
        bc_Clamp = (\<not> bit cnt 13)\<rparr>,
       [tile, 0x10000, mp, map_size size],
       BGBaseIndex ! 1 ! fld cnt 14 2 + layer - 2))"

definition large_layer :: "u16 \<Rightarrow> nat \<Rightarrow> bg_config \<times> nat list \<times> nat" where
  "large_layer cnt mp =
     (let size = large_sizes ! fld cnt 14 2 in
      (\<lparr>bc_Size = dims size, bc_Type = 4, bc_PalOffset = 0, bc_TileOffset = 0, bc_MapOffset = 0, bc_Clamp = (\<not> bit cnt 13)\<rparr>,
       [NoRange, NoRange, mp, map_size size],
       BGBaseIndex ! 3 ! fld cnt 14 2))"

definition threed_layer :: "nat \<Rightarrow> nat \<Rightarrow> bg_config" where
  "threed_layer tile mp = \<lparr>bc_Size = (256, 192), bc_Type = 6, bc_PalOffset = 0, bc_TileOffset = tile, bc_MapOffset = mp, bc_Clamp = True\<rparr>"

text \<open>
  The configuration of one layer: the values for the shader, the ranges of memory it reads, and its
  texture; \<open>dispcnt\<close> is the renderer's copy of the register.
\<close>

definition layer_config ::
  "gpu \<Rightarrow> gpu2d \<Rightarrow> u32 \<Rightarrow> nat \<Rightarrow> bg_config \<times> nat list \<times> nat option \<Rightarrow> bg_config \<times> nat list \<times> nat option" where
  "layer_config gp g dispcnt layer old =
     (let ty = layertype (fld (g_DispCnt g) 0 3) ! layer; cnt = g_BGCnt g ! layer;
          tilebase = (if g_Num g = 0 then fld (g_DispCnt g) 24 3 * 0x10000 else 0);
          mapbase = (if g_Num g = 0 then fld (g_DispCnt g) 27 3 * 0x10000 else 0);
          tile = tilebase + fld cnt 2 4 * 0x4000; mp = mapbase + fld cnt 8 5 * 0x800;
          n = (if g_Num g = 0 then 32 else 8); wrap = (\<lambda>(c, rs, t). (c, rs, Some t)) in
      if ty = 0 then old
      else if layer = 0 \<and> bit (g_DispCnt g) 3 then (threed_layer tile mp, replicate 4 NoRange, snd (snd old))
      else if ty = 1 then wrap (text_layer dispcnt layer cnt tile mp)
      else if ty = 2 then wrap (affine_layer layer cnt tile mp)
      else if ty = 3 then
        (if bit cnt 7 then wrap (bitmap_layer (gp_CaptureBG gp (g_Num g)) n layer cnt)
         else wrap (rotscale_tiles_layer dispcnt layer cnt tile mp))
      else wrap (large_layer cnt mp))"

definition UpdateLayerConfig :: "gpu \<Rightarrow> gpu2d \<Rightarrow> renderer2d \<Rightarrow> renderer2d" where
  "UpdateLayerConfig gp g r =
     (let new = map (\<lambda>l. layer_config gp g (r_DispCnt r) l (r_BG r ! l, r_BGVRAMRange r ! l, r_BGLayerTex r ! l)) [0..<4] in
      r\<lparr>r_BG := map fst new, r_BGVRAMRange := map (\<lambda>x. fst (snd x)) new, r_BGLayerTex := map (\<lambda>x. snd (snd x)) new\<rparr>)"

section \<open>The layers' textures\<close>

text \<open>The sizes of the layer textures, in the order they are created.\<close>

definition bgsizes :: "(nat \<times> nat \<times> nat) list" where
  "bgsizes = [(128, 128, 2), (256, 256, 4), (256, 512, 4), (512, 256, 4), (512, 512, 4), (512, 1024, 1), (1024, 512, 1), (1024, 1024, 2)]"

definition AllBGLayerTex :: "(nat \<times> nat) list" where
  "AllBGLayerTex = concat (map (\<lambda>(w, h, k). replicate k (w, h)) bgsizes)"

lemma AllBGLayerTex_list:
  "AllBGLayerTex = [(128, 128), (128, 128), (256, 256), (256, 256), (256, 256), (256, 256), (256, 512), (256, 512), (256, 512), (256, 512),
     (512, 256), (512, 256), (512, 256), (512, 256), (512, 512), (512, 512), (512, 512), (512, 512), (512, 1024), (1024, 512),
     (1024, 1024), (1024, 1024)]"
  by (simp add: AllBGLayerTex_def bgsizes_def numeral_eq_Suc)

lemma less_4_cases: "(n :: nat) < 4 \<longleftrightarrow> n = 0 \<or> n = 1 \<or> n = 2 \<or> n = 3"
  by auto

lemma fld2_cases: "fld w lo 2 = 0 \<or> fld w lo 2 = 1 \<or> fld w lo 2 = 2 \<or> fld w lo 2 = 3"
  using fld_less [of w lo 2] by (auto simp: less_4_cases)

lemmas layer_kinds = text_layer_def affine_layer_def bitmap_layer_def rotscale_tiles_layer_def large_layer_def threed_layer_def

lemmas size_tables = text_sizes_def affine_sizes_def bitmap_sizes_def rotscale_sizes_def large_sizes_def dims_def map_size_def BGBaseIndex_def

text \<open>A texture's number from its size and the layer.\<close>

definition tex_base :: "nat \<times> nat \<Rightarrow> int" where
  "tex_base wh =
     (if wh = (128, 128) then - 2 else if wh = (256, 256) then 2 else if wh = (256, 512) then 6 else if wh = (512, 256) then 10
      else if wh = (512, 512) then 14 else if wh = (512, 1024) then 16 else if wh = (1024, 512) then 17 else 18)"

definition good_texture :: "nat \<Rightarrow> bg_config \<Rightarrow> nat \<Rightarrow> bool" where
  "good_texture layer c n \<longleftrightarrow> n < 22 \<and> AllBGLayerTex ! n = bc_Size c \<and> int n = tex_base (bc_Size c) + int layer"

lemma text_fits: "layer < 4 \<Longrightarrow> text_layer d layer cnt tile mp = (c, rs, n) \<Longrightarrow> good_texture layer c n"
  using fld2_cases [of cnt 14] by (auto simp: text_layer_def size_tables AllBGLayerTex_list less_4_cases good_texture_def tex_base_def)

lemma affine_fits: "layer = 2 \<or> layer = 3 \<Longrightarrow> affine_layer layer cnt tile mp = (c, rs, n) \<Longrightarrow> good_texture layer c n"
  using fld2_cases [of cnt 14] by (auto simp: affine_layer_def size_tables AllBGLayerTex_list good_texture_def tex_base_def)

lemma bitmap_fits: "layer = 2 \<or> layer = 3 \<Longrightarrow> bitmap_layer info k layer cnt = (c, rs, n) \<Longrightarrow> good_texture layer c n"
  using fld2_cases [of cnt 14]
  by (auto simp: bitmap_layer_def Let_def size_tables AllBGLayerTex_list good_texture_def tex_base_def split: prod.splits)

lemma rotscale_fits: "layer = 2 \<or> layer = 3 \<Longrightarrow> rotscale_tiles_layer d layer cnt tile mp = (c, rs, n) \<Longrightarrow> good_texture layer c n"
  using fld2_cases [of cnt 14] by (auto simp: rotscale_tiles_layer_def size_tables AllBGLayerTex_list good_texture_def tex_base_def)

lemma large_fits: "large_layer cnt mp = (c, rs, n) \<Longrightarrow> good_texture 2 c n"
  using fld2_cases [of cnt 14] by (auto simp: large_layer_def size_tables AllBGLayerTex_list good_texture_def tex_base_def)

text \<open>Which kinds a layer can have.\<close>

lemma layertype_cases:
  assumes "layer < 4" "mode < 8"
  shows "layertype mode ! layer \<in> {0, 1, 2, 3, 4}" "layertype mode ! layer \<in> {2, 3} \<longrightarrow> layer = 2 \<or> layer = 3"
    "layertype mode ! layer = 4 \<longrightarrow> layer = 2"
  using assms by (auto simp: layertype_def less_4_cases)

lemma layer_config_good:
  assumes "layer < 4" "layertype (fld (g_DispCnt g) 0 3) ! layer \<noteq> 0" "\<not> (layer = 0 \<and> bit (g_DispCnt g) 3)"
    and "layer_config gp g d layer old = (c, rs, t)"
  shows "\<exists>n. t = Some n \<and> good_texture layer c n"
proof -
  have mode: "fld (g_DispCnt g) 0 3 < 8" using fld_less [of "g_DispCnt g" 0 3] by simp
  note kinds = layertype_cases [OF assms(1) mode]
  show ?thesis
    using assms kinds unfolding layer_config_def Let_def
    by (auto split: if_splits prod.splits intro: text_fits affine_fits bitmap_fits rotscale_fits large_fits)
qed

text \<open>
  Every layer of every mode is rendered into a texture that exists and has exactly the layer's size, and
  no two layers of a frame share a texture.  The 3D layer has none of these.
\<close>

theorem layer_textures:
  assumes "layer < 4" "layertype (fld (g_DispCnt g) 0 3) ! layer \<noteq> 0" "\<not> (layer = 0 \<and> bit (g_DispCnt g) 3)"
  shows "\<exists>n. r_BGLayerTex (UpdateLayerConfig gp g r) ! layer = Some n \<and> n < length AllBGLayerTex \<and>
    AllBGLayerTex ! n = bc_Size (r_BG (UpdateLayerConfig gp g r) ! layer) \<and>
    (\<forall>other < 4. other \<noteq> layer \<and> layertype (fld (g_DispCnt g) 0 3) ! other \<noteq> 0 \<and> \<not> (other = 0 \<and> bit (g_DispCnt g) 3) \<longrightarrow>
       r_BGLayerTex (UpdateLayerConfig gp g r) ! other \<noteq> Some n)"
proof -
  let ?r = "UpdateLayerConfig gp g r"
  have good: "\<exists>n. r_BGLayerTex ?r ! l = Some n \<and> good_texture l (r_BG ?r ! l) n"
    if l: "l < 4" "layertype (fld (g_DispCnt g) 0 3) ! l \<noteq> 0" "\<not> (l = 0 \<and> bit (g_DispCnt g) 3)" for l
  proof -
    obtain c rs t where c: "layer_config gp g (r_DispCnt r) l (r_BG r ! l, r_BGVRAMRange r ! l, r_BGLayerTex r ! l) = (c, rs, t)"
      by (meson prod_cases3)
    then have "r_BG ?r ! l = c" "r_BGLayerTex ?r ! l = t" using l(1) by (simp_all add: UpdateLayerConfig_def Let_def)
    with layer_config_good [OF l c] show ?thesis by simp
  qed
  obtain n where n: "r_BGLayerTex ?r ! layer = Some n" "good_texture layer (r_BG ?r ! layer) n" using good [OF assms] by blast
  have "r_BGLayerTex ?r ! other \<noteq> Some n"
    if o: "other < 4" "other \<noteq> layer" "layertype (fld (g_DispCnt g) 0 3) ! other \<noteq> 0" "\<not> (other = 0 \<and> bit (g_DispCnt g) 3)" for other
  proof
    assume "r_BGLayerTex ?r ! other = Some n"
    with good [OF o(1,3,4)] have "good_texture other (r_BG ?r ! other) n" by auto
    with n(2) o(2) show False by (auto simp: good_texture_def)
  qed
  with n show ?thesis by (auto simp: good_texture_def AllBGLayerTex_list)
qed

definition demo_gpu2d :: gpu2d where
  "demo_gpu2d = \<lparr>g_Num = 0, g_Enabled = True, g_DispCnt = 0x00011F05, g_LayerEnable = 0x1F, g_OBJEnable = 1, g_ForcedBlank = 0,
     g_BGCnt = [0, 0x4000, 0x0084, 0xC080], g_BGXPos = [0, 0, 0, 0], g_BGYPos = [0, 0, 0, 0], g_BGXRef = [0, 0], g_BGYRef = [0, 0],
     g_BGRotA = [0x100, 0x100], g_BGRotB = [0, 0], g_BGRotC = [0, 0], g_BGRotD = [0x100, 0x100], g_Win0Coords = [0, 0, 0, 0],
     g_Win1Coords = [0, 0, 0, 0], g_WinCnt = [0, 0, 0, 0], g_Win0Active = 0, g_Win1Active = 0, g_BGMosaicSize = [0, 0],
     g_OBJMosaicSize = [0, 0], g_BGMosaicLine = 0, g_OBJMosaicLine = 0, g_BlendCnt = 0, g_EVA = 0, g_EVB = 0, g_EVY = 0\<rparr>"

definition demo_gpu :: gpu where
  "demo_gpu = \<lparr>gp_ScreensEnabled = True, gp_MasterBrightnessA = 0, gp_MasterBrightnessB = 0, gp_CaptureEnable = False,
     gp_CaptureCnt = 0, gp_PaletteDirty = 0xF, gp_OAMDirty = 3, gp_RenderXPos = 0, gp_BackColor = (\<lambda>_. 0),
     gp_OAM = (\<lambda>_. replicate 512 0x200), gp_CaptureBG = (\<lambda>_. replicate 32 (- 1)), gp_CaptureOBJ = (\<lambda>_. replicate 16 (- 1)),
     gp_BGDirty = (\<lambda>_. replicate 16 0), gp_OBJDirty = (\<lambda>_. replicate 8 0), gp_BGExtPalDirty = (\<lambda>_. [0])\<rparr>"

lemma demo_fields: "fld (g_DispCnt demo_gpu2d) 0 3 = 5" "\<not> bit (g_DispCnt demo_gpu2d) 3"
  by (simp_all add: demo_gpu2d_def fld_def)

lemma layer_textures_witness:
  "\<forall>r. \<exists>n. r_BGLayerTex (UpdateLayerConfig demo_gpu demo_gpu2d r) ! 3 = Some n \<and> n < length AllBGLayerTex \<and>
     AllBGLayerTex ! n = bc_Size (r_BG (UpdateLayerConfig demo_gpu demo_gpu2d r) ! 3) \<and>
     r_BGLayerTex (UpdateLayerConfig demo_gpu demo_gpu2d r) ! 2 \<noteq> Some n"
proof
  fix r
  have "layertype 5 ! 3 = 3" "layertype 5 ! 2 = 3" by (simp_all add: layertype_def)
  with layer_textures [of 3 demo_gpu2d demo_gpu r] show "\<exists>n. r_BGLayerTex (UpdateLayerConfig demo_gpu demo_gpu2d r) ! 3 = Some n \<and>
      n < length AllBGLayerTex \<and> AllBGLayerTex ! n = bc_Size (r_BG (UpdateLayerConfig demo_gpu demo_gpu2d r) ! 3) \<and>
      r_BGLayerTex (UpdateLayerConfig demo_gpu demo_gpu2d r) ! 2 \<noteq> Some n"
    by (fastforce simp: demo_fields)
qed

text \<open>
  The ranges of memory that are watched for changes: a bitmap with direct colour is twice as large as
  its range, and the range of a large bitmap starts where the map field says, though the layer is read
  from address 0.  Changes outside the range do not render the layer again.
\<close>

lemma direct_bitmap_range_half:
  assumes "bit cnt 2" "fld cnt 14 2 = 3"
  shows "fst (snd (bitmap_layer info n layer cnt)) ! 3 = 0x40000 \<and>
    fst (bc_Size (fst (bitmap_layer info n layer cnt))) * snd (bc_Size (fst (bitmap_layer info n layer cnt))) * 2 = 0x80000"
  using assms by (simp add: bitmap_layer_def Let_def size_tables)

lemma large_bitmap_range_shifted:
  "bc_MapOffset (fst (large_layer cnt mp)) = 0 \<and> fst (snd (large_layer cnt mp)) ! 2 = mp"
  by (simp add: large_layer_def Let_def)

end
