(* ===== verification/Gpu2DSprites.thy ===== *)
theory Gpu2DSprites
  imports Gpu2DLayers
begin

unbundle bit_operations_syntax

text \<open>
  The sprites of the 2D renderer: reading the sprite memory into the table for the shaders, and the
  vertices of the sprites' rectangles.
\<close>

section \<open>Reading the sprite memory\<close>

definition spritewidth :: "nat list" where
  "spritewidth = [8, 16, 8, 8, 16, 32, 8, 8, 32, 32, 16, 8, 64, 64, 32, 8]"

definition spriteheight :: "nat list" where
  "spriteheight = [8, 8, 16, 8, 16, 8, 32, 8, 32, 16, 32, 8, 64, 32, 64, 8]"

text \<open>The three words of a sprite.\<close>

type_synonym attribs = "u16 \<times> u16 \<times> u16"

definition attribs_of :: "u16 list \<Rightarrow> nat \<Rightarrow> attribs" where
  "attribs_of oam i = (oam ! (i * 4), oam ! (i * 4 + 1), oam ! (i * 4 + 2))"

definition sprite_x :: "attribs \<Rightarrow> int" where
  "sprite_x = (\<lambda>(a0, a1, a2). int (fld a1 0 9) - (if bit a1 8 then 512 else 0))"

definition sprite_y :: "attribs \<Rightarrow> int" where
  "sprite_y = (\<lambda>(a0, a1, a2). int (fld a0 0 8) - (if bit a0 7 then 256 else 0))"

definition sizeparam :: "attribs \<Rightarrow> nat" where
  "sizeparam = (\<lambda>(a0, a1, a2). fld a0 14 2 + 4 * fld a1 14 2)"

definition sprite_size :: "attribs \<Rightarrow> nat \<times> nat" where
  "sprite_size a = (spritewidth ! sizeparam a, spriteheight ! sizeparam a)"

text \<open>Sprites of double size have twice the bounds.\<close>

definition sprite_bounds :: "attribs \<Rightarrow> nat \<times> nat" where
  "sprite_bounds a = (let k = (if fld (fst a) 8 2 = 3 then 2 else 1) in (fst (sprite_size a) * k, snd (sprite_size a) * k))"

text \<open>Whether rows \<open>y\<close> to \<open>y + h - 1\<close> meet the lines \<open>ystart\<close> to \<open>yend - 1\<close>.\<close>

definition meets :: "nat \<Rightarrow> nat \<Rightarrow> int \<Rightarrow> nat \<Rightarrow> bool" where
  "meets ystart yend y h \<longleftrightarrow> y + int h > int ystart \<and> y < int yend"

definition sprite_skipped :: "u32 \<Rightarrow> nat \<Rightarrow> nat \<Rightarrow> attribs \<Rightarrow> bool" where
  "sprite_skipped dispcnt ystart yend a =
     (case a of (a0, a1, a2) \<Rightarrow>
        fld a0 8 2 = 2 \<or>
        sprite_x a \<le> - int (fst (sprite_bounds a)) \<or>
        \<not> (meets ystart yend (sprite_y a) (snd (sprite_bounds a)) \<or> meets ystart yend (int (fld a0 0 8)) (snd (sprite_bounds a))) \<or>
        fld a0 10 2 = 3 \<and> (dispcnt AND 0x60 = 0x60 \<or> fld a2 12 4 = 0))"

text \<open>Where a bitmap sprite's pixels are: type, offset and stride.\<close>

definition bitmap_sprite :: "u32 \<Rightarrow> int list \<Rightarrow> nat \<Rightarrow> attribs \<Rightarrow> nat \<times> nat \<times> nat" where
  "bitmap_sprite dispcnt info n a =
     (case a of (a0, a1, a2) \<Rightarrow>
        let tile = fld a2 0 10; w = fst (sprite_size a); h = snd (sprite_size a) in
        if bit dispcnt 6 then (2, tile * 2 ^ (7 + fld dispcnt 22 1), w * 2)
        else
          let is256 = bit dispcnt 5;
              off = (if is256 then tile mod 0x20 * 16 + tile div 0x20 * 0x1000 else tile mod 0x10 * 16 + tile div 0x10 * 0x800);
              stride = (if is256 then 512 else 256);
              cap = capture_block info n off (off + h * stride)
          in if cap = - 1 then (2, off, stride)
             else if is256 then (4, off mod 0x20000, nat cap div 4)
             else (3, off mod 0x8000, nat cap))"

text \<open>The same for a sprite of tiles, with its palette.\<close>

definition tile_sprite :: "u32 \<Rightarrow> attribs \<Rightarrow> nat \<times> nat \<times> nat \<times> nat" where
  "tile_sprite dispcnt a =
     (case a of (a0, a1, a2) \<Rightarrow>
        let tile = fld a2 0 10; w = fst (sprite_size a);
            off = (if bit dispcnt 4 then tile * 2 ^ (5 + fld dispcnt 20 2) else tile * 32);
            stride = (if bit dispcnt 4 then w div 8 * 32 * (if bit a0 13 then 2 else 1) else 32 * 32)
        in if bit a0 13 then (1, off, stride, if bit dispcnt 31 then 1 + fld a2 12 4 else 0)
           else (0, off, stride, fld a2 12 4 * 16))"

definition sprite_entry :: "u32 \<Rightarrow> int list \<Rightarrow> nat \<Rightarrow> attribs \<Rightarrow> sprite" where
  "sprite_entry dispcnt info n a =
     (case a of (a0, a1, a2) \<Rightarrow>
        let mode = fld a0 10 2; rot = bit a0 8; (ty, off, stride, pal) =
              (if mode = 3 then (case bitmap_sprite dispcnt info n a of (t, f, st) \<Rightarrow> (t, f, st, 1 + fld a2 12 4)) else tile_sprite dispcnt a)
        in \<lparr>sp_Position = (sprite_x a, sprite_y a), sp_Flip = (if rot then (False, False) else (bit a1 12, bit a1 13)),
             sp_Size = sprite_size a, sp_BoundSize = sprite_bounds a, sp_OBJMode = mode, sp_Type = ty, sp_PalOffset = pal,
             sp_TileOffset = off, sp_TileStride = stride, sp_Rotscale = (if rot then int (fld a1 9 5) else - 1),
             sp_BGPrio = fld a2 10 2, sp_Mosaic = bit a0 12 \<and> mode \<noteq> 2\<rparr>)"

text \<open>The table so far: the sprites, their number, and whether one uses the mosaic.  A full table ends the loop.\<close>

fun add_sprites :: "gpu2d \<Rightarrow> int list \<Rightarrow> nat \<Rightarrow> nat \<Rightarrow> nat \<Rightarrow> attribs list \<Rightarrow> sprite list \<times> nat \<times> bool \<Rightarrow> sprite list \<times> nat \<times> bool" where
  "add_sprites g info n ystart yend [] st = st"
| "add_sprites g info n ystart yend (a # as) (ss, k, mos) =
     (if sprite_skipped (g_DispCnt g) ystart yend a then add_sprites g info n ystart yend as (ss, k, mos)
      else if k \<ge> 128 then (ss, k, mos)
      else
        let s = sprite_entry (g_DispCnt g) info n a
        in add_sprites g info n ystart yend as (ss[k := s], k + 1, mos \<or> sp_Mosaic s \<and> g_OBJMosaicSize g ! 0 > 0))"

definition rotscales :: "u16 list \<Rightarrow> int list list" where
  "rotscales oam = map (\<lambda>i. map (\<lambda>j. sint (oam ! (i * 16 + 3 + j * 4))) [0..<4]) [0..<32]"

definition UpdateOAM :: "gpu \<Rightarrow> gpu2d \<Rightarrow> nat \<Rightarrow> nat \<Rightarrow> renderer2d \<Rightarrow> renderer2d" where
  "UpdateOAM gp g ystart yend r =
     (let n = (if g_Num g = 0 then 16 else 8);
          (ss, k, mos) = add_sprites g (gp_CaptureOBJ gp (g_Num g)) n ystart yend (map (attribs_of (r_OAM r)) [0..<128])
                           (r_Sprites r, r_NumSprites r, r_SpriteUseMosaic r)
      in r\<lparr>r_Rotscale := rotscales (r_OAM r), r_Sprites := ss, r_NumSprites := k, r_SpriteUseMosaic := mos\<rparr>)"

section \<open>Vertices\<close>

text \<open>The pre-rendered sprites: six vertices each, of three values; captures are not pre-rendered.\<close>

definition pre_vertices :: "nat \<Rightarrow> int list" where
  "pre_vertices i = concat (map (\<lambda>(x, y). [x, y, int i]) [(0, 1), (1, 0), (1, 1), (0, 1), (0, 0), (1, 0)])"

definition sprite_pre_data :: "renderer2d \<Rightarrow> int list" where
  "sprite_pre_data r = concat (map (\<lambda>i. if sp_Type (r_Sprites r ! i) \<ge> 3 then [] else pre_vertices i) [0..<r_NumSprites r])"

text \<open>The rectangle of a sprite on the screen: six vertices of five values.\<close>

definition quad :: "int \<Rightarrow> int \<Rightarrow> nat \<Rightarrow> nat \<Rightarrow> nat \<Rightarrow> int list" where
  "quad x y w h i =
     (let x1 = x + int w; y1 = y + int h in
      [x, y1, 0, 1, int i, x1, y, 1, 0, int i, x1, y1, 1, 1, int i, x, y1, 0, 1, int i, x, y, 0, 0, int i, x1, y, 1, 0, int i])"

definition sprite_quads :: "nat \<Rightarrow> nat \<Rightarrow> nat \<Rightarrow> sprite \<Rightarrow> int list" where
  "sprite_quads ystart yend i s =
     (let x = fst (sp_Position s); y = snd (sp_Position s); w = fst (sp_BoundSize s); h = snd (sp_BoundSize s); y2 = y mod 256 in
      (if meets ystart yend y h then quad x y w h i else []) @ (if meets ystart yend y2 h then quad x y2 w h i else []))"

definition sprite_data :: "bool \<Rightarrow> nat \<Rightarrow> nat \<Rightarrow> renderer2d \<Rightarrow> int list" where
  "sprite_data window ystart yend r =
     concat (map (\<lambda>i. if (sp_OBJMode (r_Sprites r ! i) = 2) \<noteq> window then [] else sprite_quads ystart yend i (r_Sprites r ! i))
       [0..<r_NumSprites r])"

section \<open>Lemmas\<close>

text \<open>The sprites shown are the ones not skipped, in order; 128 of them fit.\<close>

lemma add_sprites_spec:
  "length ss = 128 \<Longrightarrow> k + length as \<le> 128 \<Longrightarrow>
     (case add_sprites g info n ystart yend as (ss, k, mos) of (ss', k', mos') \<Rightarrow>
        length ss' = 128 \<and> k' = k + length (filter (\<lambda>a. \<not> sprite_skipped (g_DispCnt g) ystart yend a) as) \<and>
        take k' ss' = take k ss @ map (sprite_entry (g_DispCnt g) info n) (filter (\<lambda>a. \<not> sprite_skipped (g_DispCnt g) ystart yend a) as) \<and>
        mos' = (mos \<or> (\<exists>a \<in> set as. \<not> sprite_skipped (g_DispCnt g) ystart yend a \<and>
          sp_Mosaic (sprite_entry (g_DispCnt g) info n a) \<and> g_OBJMosaicSize g ! 0 > 0)))"
proof (induction g info n ystart yend as "(ss, k, mos)" arbitrary: ss k mos rule: add_sprites.induct)
  case (2 g info n ystart yend a as ss k mos)
  show ?case
  proof (cases "sprite_skipped (g_DispCnt g) ystart yend a")
    case True
    with 2 show ?thesis by (auto split: prod.splits)
  next
    case False
    then have "take (k + 1) (ss[k := s]) = take k ss @ [s]" for s
      using "2.prems" by (simp add: take_Suc_conv_app_nth)
    with 2 False show ?thesis by (auto simp: Let_def split: prod.splits)
  qed
qed simp

lemma length_quads: "length (sprite_quads ystart yend i s) \<le> 60"
  by (simp add: sprite_quads_def quad_def Let_def)

lemma length_concat_le: "(\<And>x. x \<in> set xs \<Longrightarrow> length (f x) \<le> m) \<Longrightarrow> length (concat (map f xs)) \<le> m * length xs"
  by (induction xs) (auto simp: add.commute add_mono)

text \<open>What the table holds after the sprite memory was read.\<close>

definition visible :: "gpu2d \<Rightarrow> u16 list \<Rightarrow> attribs list" where
  "visible g oam = filter (\<lambda>a. \<not> sprite_skipped (g_DispCnt g) 0 192 a) (map (attribs_of oam) [0..<128])"

definition reset_table :: "renderer2d \<Rightarrow> renderer2d" where
  "reset_table r = r\<lparr>r_NumSprites := 0, r_SpriteUseMosaic := False\<rparr>"

lemma sprite_table_all:
  assumes "length (r_Sprites r) = 128"
  shows "let r' = UpdateOAM gp g 0 192 (reset_table r) in
    take (r_NumSprites r') (r_Sprites r') =
      map (sprite_entry (g_DispCnt g) (gp_CaptureOBJ gp (g_Num g)) (if g_Num g = 0 then 16 else 8)) (visible g (r_OAM r)) \<and>
    r_NumSprites r' = length (visible g (r_OAM r)) \<and> r_NumSprites r' \<le> 128 \<and> length (r_Sprites r') = 128 \<and>
    length (sprite_pre_data r') \<le> 3 * 6 * 128 \<and> (\<forall>window ys ye. length (sprite_data window ys ye r') \<le> 5 * 6 * 256)"
proof -
  define n where "n = (if g_Num g = 0 then 16 else 8 :: nat)"
  define atts where "atts = map (attribs_of (r_OAM r)) [0..<128]"
  have len: "length atts = 128" by (simp add: atts_def)
  have vis: "visible g (r_OAM r) = filter (\<lambda>a. \<not> sprite_skipped (g_DispCnt g) 0 192 a) atts" by (simp add: visible_def atts_def)
  obtain ss k mos where run: "add_sprites g (gp_CaptureOBJ gp (g_Num g)) n 0 192 atts (r_Sprites r, 0, False) = (ss, k, mos)"
    by (meson prod_cases3)
  have spec: "length ss = 128" "k = length (visible g (r_OAM r))"
    "take k ss = map (sprite_entry (g_DispCnt g) (gp_CaptureOBJ gp (g_Num g)) n) (visible g (r_OAM r))"
    using add_sprites_spec [where ss = "r_Sprites r" and k = 0 and as = atts and g = g and info = "gp_CaptureOBJ gp (g_Num g)" and n = n
      and ystart = 0 and yend = 192 and mos = False] assms len unfolding run vis by auto
  have k: "k \<le> 128" unfolding spec(2) visible_def using length_filter_le [of _ "map (attribs_of (r_OAM r)) [0..<128]"] by simp
  define r' where "r' = UpdateOAM gp g 0 192 (reset_table r)"
  have r': "r_NumSprites r' = k" "r_Sprites r' = ss"
    using run unfolding r'_def UpdateOAM_def n_def atts_def by (simp_all add: reset_table_def split del: if_split)
  have "length (sprite_pre_data r') \<le> 18 * k"
    unfolding sprite_pre_data_def r' using length_concat_le [of "[0..<k]" "\<lambda>i. if sp_Type (ss ! i) \<ge> 3 then [] else pre_vertices i" 18]
    by (simp add: pre_vertices_def)
  then have "length (sprite_pre_data r') \<le> 3 * 6 * 128" using k by linarith
  moreover have "length (sprite_data window ys ye r') \<le> 60 * k" for window ys ye
    unfolding sprite_data_def r'
    using length_concat_le [of "[0..<k]" "\<lambda>i. if (sp_OBJMode (ss ! i) = 2) \<noteq> window then [] else sprite_quads ys ye i (ss ! i)" 60]
    by (simp add: length_quads)
  then have "length (sprite_data window ys ye r') \<le> 5 * 6 * 256" for window ys ye using k by (rule_tac order_trans [of _ "60 * k"]) simp_all
  ultimately show ?thesis unfolding r'_def [symmetric] Let_def n_def [symmetric] using spec k r' by simp
qed

lemma sprite_table_size:
  assumes "length (r_Sprites r) = 128"
  shows "r_NumSprites (UpdateOAM gp g 0 192 (reset_table r)) \<le> 128" "length (r_Sprites (UpdateOAM gp g 0 192 (reset_table r))) = 128"
    "length (sprite_pre_data (UpdateOAM gp g 0 192 (reset_table r))) \<le> 3 * 6 * 128"
  using sprite_table_all [OF assms, of gp g] by (simp_all add: Let_def)

text \<open>
  C25: Reading the sprite memory fills the table with exactly the sprites that are enabled and meet the
  screen, in order; never more than fit; and the vertices built from it stay within their buffers.
\<close>

theorem sprite_table:
  assumes "length (r_Sprites r) = 128"
  shows "let r' = UpdateOAM gp g 0 192 (reset_table r) in
    take (r_NumSprites r') (r_Sprites r') =
      map (sprite_entry (g_DispCnt g) (gp_CaptureOBJ gp (g_Num g)) (if g_Num g = 0 then 16 else 8)) (visible g (r_OAM r)) \<and>
    r_NumSprites r' = length (visible g (r_OAM r)) \<and> r_NumSprites r' \<le> 128 \<and> length (r_Sprites r') = 128 \<and>
    length (sprite_pre_data r') \<le> 3 * 6 * 128 \<and> (\<forall>window ys ye. length (sprite_data window ys ye r') \<le> 5 * 6 * 256)"
  using assms by (rule sprite_table_all)

definition demo_renderer :: renderer2d where
  "demo_renderer = r2d_Reset demo_gpu2d \<lparr>r_Scale = 2, r_LayerMask = 0, r_SpriteMask = 0, r_BG = [], r_Rotscale = [], r_Sprites = [],
     r_Scanlines = [], r_MosaicLines = [], r_Compositor = compositor_zero, r_BGLayerTex = [], r_NumSprites = 0, r_SpriteUseMosaic = False,
     r_LastLine = 0, r_UnitEnabled = False, r_DispCnt = 0, r_LayerEnable = 0, r_OBJEnable = 0, r_ForcedBlank = 0, r_BGCnt = [],
     r_BlendCnt = 0, r_EVA = 0, r_EVB = 0, r_EVY = 0, r_BGVRAMRange = [], r_LayerConfigDirty = False, r_LastSpriteLine = 0, r_OAM = [],
     r_SpriteDispCnt = 0, r_SpriteConfigDirty = False, r_SpriteDirty = False\<rparr>"

lemma demo_sprites: "length (r_Sprites demo_renderer) = 128" "r_OAM demo_renderer = replicate 512 0"
  by (simp_all add: demo_renderer_def r2d_Reset_def)

lemma sprite_table_witness:
  "let r' = UpdateOAM demo_gpu demo_gpu2d 0 192 (reset_table demo_renderer) in
    r_NumSprites r' = length (visible demo_gpu2d (replicate 512 0)) \<and> r_NumSprites r' \<le> 128 \<and> length (sprite_pre_data r') \<le> 3 * 6 * 128"
  using sprite_table [of demo_renderer demo_gpu demo_gpu2d] demo_sprites by (simp add: Let_def)

end
