(* ===== verification/Gpu2DRender.thy ===== *)
theory Gpu2DRender
  imports Gpu2DSprites
begin

unbundle bit_operations_syntax

text \<open>
  Drawing with the 2D renderer: rendering layers and sprites into their textures, compositing ranges of
  lines, and the work at each line, which compares the registers with those of the lines before and
  composites what was drawn so far when something changed.
\<close>

section \<open>Textures and uniforms\<close>

text \<open>The names of an engine's textures and of those the parent renderer shares.\<close>

definition tx :: "gpu2d \<Rightarrow> nat \<Rightarrow> nat" where "tx g k = 64 * g_Num g + k"

definition VRAMTex_BG :: nat where "VRAMTex_BG = 0"
definition VRAMTex_OBJ :: nat where "VRAMTex_OBJ = 1"
definition PalTex_BG :: nat where "PalTex_BG = 2"
definition PalTex_OBJ :: nat where "PalTex_OBJ = 3"
definition LayerTex :: "nat \<Rightarrow> nat" where "LayerTex n = 8 + n"
definition SpriteTex :: nat where "SpriteTex = 4"
definition OBJLayerTex :: nat where "OBJLayerTex = 5"
definition OBJDepthTex :: nat where "OBJDepthTex = 6"
definition OutputTex :: nat where "OutputTex = 7"
definition MosaicTex :: nat where "MosaicTex = 128"
definition AuxInputTex :: nat where "AuxInputTex = 129"
definition CaptureVRAMTex :: nat where "CaptureVRAMTex = 130"
definition FPOutputTex :: "nat \<Rightarrow> nat" where "FPOutputTex i = 131 + i"
definition CaptureOutput256Tex :: nat where "CaptureOutput256Tex = 133"
definition CaptureOutput128Tex :: nat where "CaptureOutput128Tex = 134"
definition CaptureSyncTex :: nat where "CaptureSyncTex = 135"
definition OutputTex3D :: nat where "OutputTex3D = 136"

text \<open>The parent renderer's configuration of the final pass and of a capture.\<close>

record final_config =
  fc_ScreenSwap :: "bool list"
  fc_ScaleFactor :: int
  fc_AuxLayer :: nat
  fc_DispModeA :: nat
  fc_DispModeB :: nat
  fc_BrightModeA :: nat
  fc_BrightModeB :: nat
  fc_BrightFactorA :: nat
  fc_BrightFactorB :: nat
  fc_AuxColorFactor :: rat

record capture_config =
  cc_CaptureSize :: "nat \<times> nat"
  cc_SrcALayer :: nat
  cc_SrcBLayer :: nat
  cc_SrcBOffset :: nat
  cc_DstMode :: nat
  cc_BlendFactors :: "nat \<times> nat"
  cc_SrcAOffset :: "int list"
  cc_SrcBColorFactor :: nat

datatype uniforms =
    ULayer nat "bg_config list"
  | USprite nat "int list list" "sprite list"
  | UScanline "scanline list"
  | USpriteScanline "nat list"
  | UCompositor compositor
  | UFinal final_config
  | UCapture capture_config

text \<open>The sizes of the structs, in bytes.\<close>

definition usize :: "uniforms \<Rightarrow> nat" where
  "usize u = (case u of ULayer m bgs \<Rightarrow> 16 + 4 * 32 | USprite m rs ss \<Rightarrow> 16 + 32 * 16 + 128 * 64 | UScanline ls \<Rightarrow> 192 * 160
     | USpriteScanline ls \<Rightarrow> 192 * 4 | UCompositor c \<Rightarrow> 48 | UFinal c \<Rightarrow> 816 | UCapture c \<Rightarrow> 816)"

type_synonym calls = "uniforms call list"

definition kRectVertices :: "int list" where
  "kRectVertices = [0, 1, 1, 0, 1, 1, 0, 1, 0, 0, 1, 0]"

definition ColorTarget :: "nat \<Rightarrow> nat \<Rightarrow> nat \<Rightarrow> texture_desc" where
  "ColorTarget w h layers = \<lparr>td_width = w, td_height = h, td_layers = layers, td_format = 37, td_renderTarget = True, td_depth = False\<rparr>"

definition DSColorTexture :: "nat \<Rightarrow> nat \<Rightarrow> nat \<Rightarrow> texture_desc" where
  "DSColorTexture w h layers = \<lparr>td_width = w, td_height = h, td_layers = layers, td_format = 8, td_renderTarget = False, td_depth = False\<rparr>"

definition vram_desc :: "nat \<Rightarrow> texture_desc" where
  "vram_desc h = \<lparr>td_width = 1024, td_height = h, td_layers = 1, td_format = 13, td_renderTarget = False, td_depth = False\<rparr>"

text \<open>
  Creating textures until one cannot be created, where the code gives up; \<open>ok\<close> says which can be.
\<close>

fun attempt :: "(nat \<Rightarrow> bool) \<Rightarrow> 'u call list \<Rightarrow> bool \<times> 'u call list" where
  "attempt ok [] = (True, [])"
| "attempt ok (c # cs) =
     (case c of
        Create t d \<Rightarrow> (if ok t then (case attempt ok cs of (b, ds) \<Rightarrow> (b, c # ds)) else (False, [c]))
      | _ \<Rightarrow> (case attempt ok cs of (b, ds) \<Rightarrow> (b, c # ds)))"

definition r2d_Init :: "(nat \<Rightarrow> bool) \<Rightarrow> gpu2d \<Rightarrow> bool \<times> calls" where
  "r2d_Init ok g =
     (let bgh = (if g_Num g = 0 then 512 else 128); objh = (if g_Num g = 0 then 256 else 128) in
      attempt ok
       ([Create (tx g VRAMTex_BG) (vram_desc bgh), Create (tx g VRAMTex_OBJ) (vram_desc objh),
         Create (tx g PalTex_BG) (DSColorTexture 256 65 1), Create (tx g PalTex_OBJ) (DSColorTexture 256 17 1)] @
        map (\<lambda>n. Create (tx g (LayerTex n)) (ColorTarget (fst (AllBGLayerTex ! n)) (snd (AllBGLayerTex ! n)) 1)) [0..<length AllBGLayerTex] @
        [Create (tx g SpriteTex) (ColorTarget 1024 512 1),
         Upload (tx g VRAMTex_BG) 0 0 0 1024 (int bgh) 1, Upload (tx g VRAMTex_OBJ) 0 0 0 1024 (int objh) 1,
         Upload (tx g PalTex_BG) 0 0 0 256 65 2, Upload (tx g PalTex_OBJ) 0 0 0 256 17 2]))"

definition screen_w :: "renderer2d \<Rightarrow> int" where "screen_w r = 256 * r_Scale r"
definition screen_h :: "renderer2d \<Rightarrow> int" where "screen_h r = 192 * r_Scale r"

definition r2d_SetScaleFactor :: "gpu2d \<Rightarrow> int \<Rightarrow> renderer2d \<Rightarrow> renderer2d \<times> calls" where
  "r2d_SetScaleFactor g scale r =
     (if scale = r_Scale r then (r, [])
      else
        let r1 = r\<lparr>r_Scale := scale\<rparr>; w = nat (screen_w r1); h = nat (screen_h r1) in
        (r1, [Create (tx g OBJLayerTex) (ColorTarget w h 2),
              Create (tx g OBJDepthTex) \<lparr>td_width = w, td_height = h, td_layers = 1, td_format = 124, td_renderTarget = True, td_depth = True\<rparr>,
              Create (tx g OutputTex) (ColorTarget w h 1)]))"

section \<open>Layers and sprites\<close>

definition PrerenderLayer :: "gpu2d \<Rightarrow> renderer2d \<Rightarrow> nat \<Rightarrow> calls" where
  "PrerenderLayer g r layer =
     (let cfg = r_BG r ! layer in
      if bc_Type cfg \<ge> 6 then []
      else case r_BGLayerTex r ! layer of
             None \<Rightarrow> []
           | Some n \<Rightarrow>
               [Rendering [(tx g (LayerTex n), 0)] None,
                Viewport 0 0 (int (fst (bc_Size cfg))) (int (snd (bc_Size cfg))),
                Scissor 0 0 (int (fst (bc_Size cfg))) (int (snd (bc_Size cfg))),
                DrawCall LayerPre
                  [TexArg 0 0 (tx g VRAMTex_BG) NearestClampEdge, TexArg 1 0 (tx g PalTex_BG) NearestClampEdge,
                   UniArg 2 (ULayer (r_LayerMask r) (r_BG r))]
                  (int layer) kRectVertices 6])"

definition PrerenderSprites :: "gpu2d \<Rightarrow> renderer2d \<Rightarrow> calls" where
  "PrerenderSprites g r =
     (let vs = sprite_pre_data r in
      if vs = [] then []
      else [Rendering [(tx g SpriteTex, 0)] None, Viewport 0 0 1024 512, Scissor 0 0 1024 512,
            DrawCall SpritePre
              [TexArg 0 0 (tx g VRAMTex_OBJ) NearestClampEdge, TexArg 1 0 (tx g PalTex_OBJ) NearestClampEdge,
               UniArg 2 (USprite (r_SpriteMask r) (r_Rotscale r) (r_Sprites r))]
              0 vs (length vs div 3)])"

definition RenderSprites :: "gpu2d \<Rightarrow> bool \<Rightarrow> nat \<Rightarrow> nat \<Rightarrow> nat \<Rightarrow> renderer2d \<Rightarrow> calls" where
  "RenderSprites g window ystart yend pass r =
     (let vs = sprite_data window ystart yend r in
      if window \<and> \<not> bit (g_DispCnt g) 15 \<or> vs = [] then []
      else [DrawCall (SpritePass pass)
              [TexArg 0 0 (tx g SpriteTex) NearestClampEdge, TexArg 1 0 CaptureOutput128Tex NearestRepeat,
               TexArg 2 0 CaptureOutput256Tex NearestRepeat, UniArg 3 (USprite (r_SpriteMask r) (r_Rotscale r) (r_Sprites r)),
               UniArg 4 (USpriteScanline (r_MosaicLines r))]
              (if pass = 0 then 1 else 0) vs (length vs div 5)])"

definition line_scissor :: "renderer2d \<Rightarrow> nat \<Rightarrow> nat \<Rightarrow> uniforms call" where
  "line_scissor r ystart yend = Scissor 0 (int ystart * r_Scale r) (screen_w r) ((int yend - int ystart) * r_Scale r)"

definition DoRenderSprites :: "gpu2d \<Rightarrow> nat \<Rightarrow> renderer2d \<Rightarrow> calls" where
  "DoRenderSprites g line r =
     (let ystart = r_LastSpriteLine r in
      if line \<le> ystart then []
      else [Rendering [(tx g OBJLayerTex, 0), (tx g OBJLayerTex, 1)] (Some (tx g OBJDepthTex, 0)),
            Viewport 0 0 (screen_w r) (screen_h r), line_scissor r ystart line,
            ClearColour 0 [0, 0, 0, 0], ClearColour 1 [0, 0, 0, 0], ClearDepths] @
           (if r_SpriteUseMosaic r then RenderSprites g False ystart line 0 r else []) @
           RenderSprites g True ystart line 1 r @ RenderSprites g False ystart line 2 r)"

section \<open>Compositing\<close>

definition compositor_config :: "renderer2d \<Rightarrow> compositor" where
  "compositor_config r =
     \<lparr>co_BGPrio = map (\<lambda>l. if bit (r_LayerEnable r) l then int (fld (r_BGCnt r ! l) 0 2) else - 1) [0..<4],
       co_EnableOBJ = bit (r_LayerEnable r) 4, co_Enable3D = bit (r_DispCnt r) 3, co_BlendCnt = r_BlendCnt r,
       co_BlendEffect = fld (r_BlendCnt r) 6 2, co_BlendCoef = [unat (r_EVA r), unat (r_EVB r), unat (r_EVY r)]\<rparr>"

definition UpdateCompositorConfig :: "renderer2d \<Rightarrow> renderer2d" where
  "UpdateCompositorConfig r = r\<lparr>r_Compositor := compositor_config r\<rparr>"

definition layer_binding :: "gpu2d \<Rightarrow> renderer2d \<Rightarrow> nat \<Rightarrow> uniforms arg" where
  "layer_binding g r i =
     TexArg 0 i
       (if i = 0 \<and> bit (r_DispCnt r) 3 then OutputTex3D
        else case r_BGLayerTex r ! i of None \<Rightarrow> tx g (LayerTex 0) | Some n \<Rightarrow> tx g (LayerTex n))
       (if bc_Clamp (r_BG r ! i) then NearestClampBorder else NearestRepeat)"

definition compositor_args :: "gpu2d \<Rightarrow> renderer2d \<Rightarrow> uniforms arg list" where
  "compositor_args g r =
     map (layer_binding g r) [0..<4] @
     [TexArg 1 0 (tx g OBJLayerTex) NearestClampEdge, TexArg 2 0 CaptureOutput128Tex NearestRepeat,
      TexArg 3 0 CaptureOutput256Tex NearestRepeat, TexArg 4 0 MosaicTex NearestClampEdge,
      UniArg 5 (ULayer (r_LayerMask r) (r_BG r)), UniArg 6 (UScanline (r_Scanlines r)), UniArg 7 (UCompositor (r_Compositor r))]"

definition blank_colour :: "gpu2d \<Rightarrow> renderer2d \<Rightarrow> nat list" where
  "blank_colour g r = (if \<not> r_UnitEnabled r \<and> g_Num g = 0 then [0, 0, 0, 1] else [1, 1, 1, 1])"

definition r2d_RenderScreen :: "gpu2d \<Rightarrow> nat \<Rightarrow> nat \<Rightarrow> renderer2d \<Rightarrow> renderer2d \<times> calls" where
  "r2d_RenderScreen g ystart yend r =
     (if yend \<le> ystart then (r, [])
      else
        let pre = [Rendering [(tx g OutputTex, 0)] None, Viewport 0 0 (screen_w r) (screen_h r), line_scissor r ystart yend] in
        if r_ForcedBlank r \<noteq> 0 \<or> \<not> r_UnitEnabled r then (r, pre @ [ClearColour 0 (blank_colour g r)])
        else
          let r1 = UpdateCompositorConfig r
          in (r1, pre @ [DrawCall Compositor (compositor_args g r1) (r_Scale r1) kRectVertices 6]))"

section \<open>What changed\<close>

definition bg_mask :: "nat \<Rightarrow> u16" where
  "bg_mask layer = (if layer < 2 then 0xFFBC else 0xDFBC)"

definition layer_reg_dirty :: "gpu2d \<Rightarrow> renderer2d \<Rightarrow> nat \<Rightarrow> bool" where
  "layer_reg_dirty g r layer =
     (let d = g_DispCnt g XOR r_DispCnt r in
      layer = 0 \<and> d AND 0x8 \<noteq> 0 \<or> layer \<ge> 2 \<and> d AND 0x7 \<noteq> 0 \<or> d AND 0x7F000000 \<noteq> 0 \<or>
      (g_BGCnt g ! layer XOR r_BGCnt r ! layer) AND bg_mask layer \<noteq> 0)"

definition comp_reg_dirty :: "gpu2d \<Rightarrow> renderer2d \<Rightarrow> bool" where
  "comp_reg_dirty g r =
     ((g_DispCnt g XOR r_DispCnt r) AND 0xE008 \<noteq> 0 \<or> (g_LayerEnable g XOR r_LayerEnable r) AND 0x1F \<noteq> 0 \<or>
      r_UnitEnabled r \<noteq> g_Enabled g \<or> r_ForcedBlank r \<noteq> g_ForcedBlank g \<or>
      (\<exists>layer \<in> set [0..<4]. (g_BGCnt g ! layer XOR r_BGCnt r ! layer) AND NOT (bg_mask layer) \<noteq> 0) \<or>
      g_BlendCnt g \<noteq> r_BlendCnt r \<or> g_EVA g \<noteq> r_EVA r \<or> g_EVB g \<noteq> r_EVB r \<or> g_EVY g \<noteq> r_EVY r)"

text \<open>The written parts of the background memory; the second engine's quarter is seen four times.\<close>

definition bg_dirty :: "gpu \<Rightarrow> gpu2d \<Rightarrow> bool \<Rightarrow> u64 list" where
  "bg_dirty gp g on =
     (if \<not> on then replicate 16 0 else if g_Num g = 0 then gp_BGDirty gp 0 else concat (replicate 4 (take 4 (gp_BGDirty gp 1))))"

definition ext_pal_dirty :: "gpu \<Rightarrow> gpu2d \<Rightarrow> bool \<Rightarrow> u64 list" where
  "ext_pal_dirty gp g on = (if on then gp_BGExtPalDirty gp (g_Num g) else [0])"

definition range_dirty :: "(nat \<Rightarrow> u64) \<Rightarrow> u64 list \<Rightarrow> nat \<Rightarrow> nat \<Rightarrow> bool" where
  "range_dirty junk ws off len =
     (let rstart = off div 512 mod 1024; rcount = len div 512 in
      if rstart + rcount > 1024
      then CheckRange junk ws rstart (1024 - rstart) \<or> CheckRange junk ws 0 (rcount - (1024 - rstart))
      else CheckRange junk ws rstart rcount)"

definition palmask :: "gpu2d \<Rightarrow> u32" where "palmask g = push_bit (g_Num g * 2) 1"

definition layer_mem_dirty :: "(nat \<Rightarrow> u64) \<Rightarrow> gpu \<Rightarrow> gpu2d \<Rightarrow> bool \<Rightarrow> renderer2d \<Rightarrow> nat \<Rightarrow> bool" where
  "layer_mem_dirty junk gp g on r layer =
     (let rs = r_BGVRAMRange r ! layer; cfg = r_BG r ! layer; ty = bc_Type cfg; pal = bc_PalOffset cfg in
      (\<exists>k \<in> set [0, 2]. rs ! k \<noteq> NoRange \<and> range_dirty junk (bg_dirty gp g on) (rs ! k) (rs ! (k + 1))) \<or>
      (if (ty = 1 \<or> ty = 3) \<and> pal > 0 then CheckRange junk (ext_pal_dirty gp g on) (pal - 1) (pal - 1 + 16)
       else ty \<le> 4 \<and> gp_PaletteDirty gp AND palmask g \<noteq> 0))"

text \<open>The rows of the memory's texture to upload: the runs of entries with a written part, 32 rows each.\<close>

fun run_end :: "u64 list \<Rightarrow> nat" where
  "run_end [] = 0"
| "run_end (w # ws) = (if w = 0 then 0 else Suc (run_end ws))"

lemma run_end_le: "run_end ws \<le> length ws"
  by (induction ws) auto

function dirty_runs :: "u64 list \<Rightarrow> nat \<Rightarrow> (nat \<times> nat) list" where
  "dirty_runs ws i =
     (if i \<ge> length ws then []
      else if ws ! i = 0 then dirty_runs ws (i + 1)
      else let e = i + 1 + run_end (drop (i + 1) ws) in (i, e) # dirty_runs ws e)"
  by pat_completeness auto
termination by (relation "measure (\<lambda>(ws, i). length ws - i)") auto

declare dirty_runs.simps [simp del]

definition vram_uploads :: "nat \<Rightarrow> u64 list \<Rightarrow> calls" where
  "vram_uploads t ws = map (\<lambda>(a, b). Upload t 0 0 (int (a * 32)) 1024 (int (b * 32) - int (a * 32)) 1) (dirty_runs ws 0)"

section \<open>A line\<close>

definition take_registers :: "gpu2d \<Rightarrow> renderer2d \<Rightarrow> renderer2d" where
  "take_registers g r =
     r\<lparr>r_UnitEnabled := g_Enabled g, r_DispCnt := g_DispCnt g, r_LayerEnable := g_LayerEnable g, r_OBJEnable := g_OBJEnable g,
       r_ForcedBlank := g_ForcedBlank g, r_BGCnt := map (\<lambda>l. g_BGCnt g ! l) [0..<4], r_BlendCnt := g_BlendCnt g, r_EVA := g_EVA g,
       r_EVB := g_EVB g, r_EVY := g_EVY g\<rparr>"

text \<open>Compositing the lines so far, before the registers are taken over.\<close>

definition catch_up :: "gpu2d \<Rightarrow> bool \<Rightarrow> nat \<Rightarrow> renderer2d \<Rightarrow> renderer2d \<times> calls" where
  "catch_up g changed line r =
     (let sprites = (if (changed \<or> r_SpriteDirty r) \<and> line > 0 then DoRenderSprites g line r else []);
          (r1, screen) = (if changed \<and> line > 0
                          then (case r2d_RenderScreen g (r_LastLine r) line r of (u, cs) \<Rightarrow> (u\<lparr>r_LastLine := line\<rparr>, cs)) else (r, []))
      in (r1, sprites @ screen))"

text \<open>The sprites, read again when they or their memory changed.\<close>

definition refresh_sprites :: "gpu \<Rightarrow> gpu2d \<Rightarrow> nat \<Rightarrow> renderer2d \<Rightarrow> renderer2d \<times> calls" where
  "refresh_sprites gp g line r =
     (if \<not> r_SpriteDirty r then (r, [])
      else
        let r1 = UpdateOAM gp g 0 192 (reset_table r)
        in (r1\<lparr>r_LastSpriteLine := line\<rparr>, Upload (tx g PalTex_OBJ) 0 0 0 256 17 2 # PrerenderSprites g r1))"

definition UpdateAndRender :: "(nat \<Rightarrow> u64) \<Rightarrow> bool \<Rightarrow> nat \<Rightarrow> gpu \<times> gpu2d \<times> renderer2d \<Rightarrow> (gpu \<times> gpu2d \<times> renderer2d) \<times> calls" where
  "UpdateAndRender junk partial line st =
     (case st of (gp, g, r) \<Rightarrow>
        let on = IsScreenOn gp g;
            dirty = (\<lambda>l. layer_reg_dirty g r l \<or> layer_mem_dirty junk gp g on r l);
            layers = filter dirty [0..<4];
            changed = (comp_reg_dirty g r \<or> layers \<noteq> [] \<or> partial);
            (r1, c1) = catch_up g changed line r;
            r2 = take_registers g r1;
            r3 = (if layers \<noteq> [] \<or> r_LayerConfigDirty r2 then UpdateLayerConfig gp g r2 else r2);
            (g1, r4) = UpdateScanlineConfig gp line (g, r3);
            n = (if g_Num g = 0 then 1024 else 256);
            c2 = (if CheckRange junk (bg_dirty gp g on) 0 n then vram_uploads (tx g VRAMTex_BG) (take (n div 64) (bg_dirty gp g on)) else []);
            c3 = (if gp_PaletteDirty gp AND palmask g \<noteq> 0 \<or> CheckRange junk (ext_pal_dirty gp g on) 0 64
                  then [Upload (tx g PalTex_BG) 0 0 0 256 65 2] else []);
            c4 = concat (map (PrerenderLayer g r4) layers);
            (r5, c5) = refresh_sprites gp g line r4
        in ((gp\<lparr>gp_PaletteDirty := gp_PaletteDirty gp AND NOT (palmask g)\<rparr>, g1, r5\<lparr>r_LayerConfigDirty := False, r_SpriteDirty := False\<rparr>),
            c1 @ c2 @ c3 @ c4 @ c5))"

definition r2d_VBlank :: "gpu2d \<Rightarrow> renderer2d \<Rightarrow> renderer2d \<times> calls" where
  "r2d_VBlank g r =
     (case r2d_RenderScreen g (r_LastLine r) 192 r of
        (r1, cs) \<Rightarrow> (r1\<lparr>r_LastSpriteLine := 0, r_LastLine := 0\<rparr>, DoRenderSprites g 192 r @ cs))"

definition obj_dirty :: "gpu \<Rightarrow> gpu2d \<Rightarrow> bool \<Rightarrow> u64 list" where
  "obj_dirty gp g on =
     (if \<not> on then replicate 8 0 else if g_Num g = 0 then gp_OBJDirty gp 0 else take 4 (gp_OBJDirty gp 1) @ replicate 4 0)"

definition r2d_DrawSprites :: "nat \<Rightarrow> gpu \<times> gpu2d \<times> renderer2d \<Rightarrow> (gpu \<times> gpu2d \<times> renderer2d) \<times> calls" where
  "r2d_DrawSprites line st =
     (case st of (gp, g, r) \<Rightarrow>
        let on = IsScreenOn gp g; oammask = push_bit (g_Num g) 1;
            changed = ((g_DispCnt g XOR r_SpriteDispCnt r) AND 0x80F000F0 \<noteq> 0);
            uploads = vram_uploads (tx g VRAMTex_OBJ) (take (if g_Num g = 0 then 8 else 4) (obj_dirty gp g on));
            oam = (gp_OAMDirty gp AND oammask \<noteq> 0 \<or> r_SpriteConfigDirty r);
            r1 = r\<lparr>r_MosaicLines := (r_MosaicLines r)[line := unat (g_OBJMosaicLine g)], r_SpriteDispCnt := g_DispCnt g\<rparr>;
            r2 = (if oam then r1\<lparr>r_OAM := gp_OAM gp (g_Num g), r_SpriteConfigDirty := False\<rparr> else r1);
            gp1 = (if oam then gp\<lparr>gp_OAMDirty := gp_OAMDirty gp AND NOT oammask\<rparr> else gp)
        in ((gp1, g, if changed \<or> uploads \<noteq> [] \<or> oam then r2\<lparr>r_SpriteDirty := True\<rparr> else r2), uploads))"

end
