(* ===== verification/Gpu2DFrame.thy ===== *)
theory Gpu2DFrame
  imports Gpu2DRender
begin

unbundle bit_operations_syntax

text \<open>
  A frame of the 2D renderer.  The renderer composites late, a range of lines at a time; the result is
  compared with compositing every line as soon as its registers are known.
\<close>

section \<open>A frame\<close>

text \<open>
  The console before the sprites of line \<open>n\<close> are noted and when line \<open>n\<close> is drawn: anything may happen
  to it between the two and from line to line.
\<close>

type_synonym console = "nat \<Rightarrow> (gpu \<times> gpu2d) \<times> gpu \<times> gpu2d"

definition line_step :: "(nat \<Rightarrow> u64) \<Rightarrow> (nat \<Rightarrow> bool) \<Rightarrow> console \<Rightarrow> nat \<Rightarrow> renderer2d \<Rightarrow> renderer2d \<times> calls" where
  "line_step junk partial con n r =
     (let ((gp0, g0), (gp, g)) = con n;
          ((gp1, g1, r1), cs1) = r2d_DrawSprites n (gp0, g0, r);
          ((gp2, g2, r2), cs2) = UpdateAndRender junk (partial n) n (gp, g, r1)
      in (r2, cs1 @ cs2))"

fun run_lines :: "(nat \<Rightarrow> u64) \<Rightarrow> (nat \<Rightarrow> bool) \<Rightarrow> console \<Rightarrow> nat \<Rightarrow> renderer2d \<Rightarrow> renderer2d \<times> calls" where
  "run_lines junk partial con 0 r = (r, [])"
| "run_lines junk partial con (Suc n) r =
     (let (r1, cs1) = run_lines junk partial con n r; (r2, cs2) = line_step junk partial con n r1 in (r2, cs1 @ cs2))"

definition run_frame :: "(nat \<Rightarrow> u64) \<Rightarrow> (nat \<Rightarrow> bool) \<Rightarrow> console \<Rightarrow> renderer2d \<Rightarrow> renderer2d \<times> calls" where
  "run_frame junk partial con r =
     (let (r1, cs1) = run_lines junk partial con 192 r; (r2, cs2) = r2d_VBlank (snd (snd (con 192))) r1 in (r2, cs1 @ cs2))"

text \<open>Compositing line \<open>n\<close> as soon as it has been drawn.\<close>

definition line_at_once :: "(nat \<Rightarrow> u64) \<Rightarrow> (nat \<Rightarrow> bool) \<Rightarrow> console \<Rightarrow> nat \<Rightarrow> renderer2d \<Rightarrow> calls" where
  "line_at_once junk partial con n r =
     (let (r1, cs) = run_lines junk partial con (Suc n) r in cs @ snd (r2d_RenderScreen (snd (snd (con n))) n (Suc n) r1))"

section \<open>What a line shows\<close>

text \<open>The textures the engine draws itself besides the layers: sprites and output.\<close>

definition own_targets :: "gpu2d \<Rightarrow> nat set" where
  "own_targets g = tx g ` {SpriteTex, OBJLayerTex, OutputTex}"

text \<open>
  What line \<open>l\<close> shows of a draw: the bindings, of the scanlines only its own; the contents of the
  textures as numbers of passes, apart from the engine's own targets.
\<close>

fun seen_arg :: "gpu2d \<Rightarrow> nat \<Rightarrow> uniforms arg \<times> nat \<Rightarrow> uniforms arg \<times> nat" where
  "seen_arg g l (TexArg b i t m, v) = (TexArg b i t m, if t \<in> own_targets g then 0 else v)"
| "seen_arg g l (UniArg b u, v) = (UniArg b (case u of UScanline ls \<Rightarrow> UScanline [ls ! l] | _ \<Rightarrow> u), v)"

definition seen :: "gpu2d \<Rightarrow> nat \<Rightarrow> uniforms painted \<Rightarrow> uniforms painted" where
  "seen g l p = (case p of Drawn xs \<Rightarrow> Drawn (map (seen_arg g l) xs) | _ \<Rightarrow> p)"

definition look :: "gpu2d \<Rightarrow> renderer2d \<Rightarrow> (nat \<Rightarrow> nat) \<Rightarrow> uniforms painted" where
  "look g r passes =
     (if r_ForcedBlank r \<noteq> 0 \<or> \<not> r_UnitEnabled r then Cleared (blank_colour g r)
      else Drawn (sampled passes (compositor_args g (UpdateCompositorConfig r))))"

definition alike :: "gpu2d \<Rightarrow> (nat \<Rightarrow> nat) \<Rightarrow> (nat \<Rightarrow> nat) \<Rightarrow> bool" where
  "alike g ps qs \<longleftrightarrow> (\<forall>t. t \<notin> own_targets g \<longrightarrow> ps t = qs t)"

lemma alike_refl: "alike g ps ps"
  by (simp add: alike_def)

lemma alike_trans: "alike g ps qs \<Longrightarrow> alike g qs rs \<Longrightarrow> alike g ps rs"
  by (simp add: alike_def)

lemma seen_sampled: "alike g ps qs \<Longrightarrow> map (seen_arg g l) (sampled ps args) = map (seen_arg g l) (sampled qs args)"
  by (auto simp: sampled_def alike_def split: arg.splits)

lemma seen_look: "alike g ps qs \<Longrightarrow> seen g l (look g r ps) = seen g l (look g r qs)"
  by (simp add: seen_def look_def seen_sampled split del: if_split) (simp add: seen_sampled)

text \<open>Only the engine's number matters of the console.\<close>

lemma Num_only:
  assumes "g_Num g = g_Num h"
  shows "tx g = tx h" "look g = look h" "own_targets g = own_targets h" "seen g = seen h" "alike g = alike h"
proof -
  show tx: "tx g = tx h" by (simp add: tx_def fun_eq_iff assms)
  then have "layer_binding g = layer_binding h" by (intro ext) (simp only: layer_binding_def)
  then show "look g = look h" by (intro ext) (simp only: look_def compositor_args_def blank_colour_def assms tx)
  show own: "own_targets g = own_targets h" by (simp add: own_targets_def tx)
  have "seen_arg g l x = seen_arg h l x" for l x
    by (cases x; cases "fst x") (auto simp: own)
  then have "seen_arg g = seen_arg h" by (intro ext)
  then show "seen g = seen h" by (intro ext) (simp only: seen_def)
  from own show "alike g = alike h" by (simp add: alike_def fun_eq_iff)
qed

section \<open>Painting the calls\<close>

lemma paints_append [simp]: "paints k t (cs @ ds) c = paints k t ds (paints k t cs c)"
  by (simp add: paints_def)

lemma paints_Nil [simp]: "paints k t [] c = c"
  by (simp add: paints_def)

lemma paints_Cons [simp]: "paints k t (x # cs) c = paints k t cs (paint k t x c)"
  by (simp add: paints_def)

lemma paint_lines_off [simp]: "\<not> cv_on c \<Longrightarrow> paint_lines k p c = c"
  by (simp add: paint_lines_def)

definition quiet :: "gpu2d \<Rightarrow> calls \<Rightarrow> bool" where
  "quiet g cs \<longleftrightarrow> (\<forall>k c. cv_lines (paints k (tx g OutputTex) cs c) = cv_lines c \<and> alike g (cv_passes (paints k (tx g OutputTex) cs c)) (cv_passes c))"

lemma quiet_append: "quiet g cs \<Longrightarrow> quiet g ds \<Longrightarrow> quiet g (cs @ ds)"
  unfolding quiet_def using alike_trans by (metis paints_append)

lemma quiet_Nil: "quiet g []"
  by (simp add: quiet_def alike_refl)

lemma tx_eq [simp]: "tx g i = tx g j \<longleftrightarrow> i = j"
  by (simp add: tx_def)

lemma alike_count: "fst ` set cs \<subseteq> own_targets g \<Longrightarrow> alike g (count_pass cs ps) ps"
  by (auto simp: alike_def count_pass_def)

lemma quiet_Upload: "quiet g cs \<Longrightarrow> quiet g (Upload t a b x y w h # cs)"
  by (simp add: quiet_def)

lemma quiet_uploads: "quiet g (vram_uploads t ws)"
proof -
  have "quiet g (map (\<lambda>(a, b). Upload t 0 0 (int (a * 32)) 1024 (int (b * 32) - int (a * 32)) 1) xs)" for xs
    by (induction xs) (auto intro: quiet_Nil quiet_Upload)
  then show ?thesis by (simp add: vram_uploads_def)
qed

lemmas target_names = SpriteTex_def OBJLayerTex_def OutputTex_def

lemma quiet_RenderSprites:
  "\<not> cv_on c \<Longrightarrow> paints k t (RenderSprites g w ys ye p r) c = c"
  by (simp add: RenderSprites_def Let_def)

lemma quiet_sprites: "quiet g (DoRenderSprites g line r)"
proof (cases "line \<le> r_LastSpriteLine r")
  case False
  have "alike g (count_pass [(tx g OBJLayerTex, 0), (tx g OBJLayerTex, 1)] ps) ps" for ps
    by (rule alike_count) (auto simp: own_targets_def)
  with False show ?thesis by (simp add: quiet_def DoRenderSprites_def Let_def line_scissor_def quiet_RenderSprites)
qed (simp add: DoRenderSprites_def quiet_Nil)

lemma quiet_prerender: "quiet g (PrerenderSprites g r)"
proof -
  have "alike g (count_pass [(tx g SpriteTex, 0)] ps) ps" for ps by (rule alike_count) (auto simp: own_targets_def)
  then show ?thesis by (simp add: quiet_def PrerenderSprites_def Let_def alike_refl target_names)
qed

lemma quiet_refresh: "quiet g (snd (refresh_sprites gp g line r))"
  by (simp add: refresh_sprites_def Let_def quiet_Nil quiet_Upload quiet_prerender)

text \<open>The calls of a range of lines: they show the current registers, and touch no other line.\<close>

lemma screen_lines:
  assumes "r_Scale r = k" "0 < k" "ys < ye" "c' = paints k (tx g OutputTex) (snd (r2d_RenderScreen g ys ye r)) c"
  shows "\<exists>ps. alike g ps (cv_passes c) \<and> cv_passes c' = ps \<and>
    cv_lines c' = (\<lambda>l. if ys \<le> l \<and> l < ye then look g r ps else cv_lines c l)"
proof -
  let ?ps = "count_pass [(tx g OutputTex, 0)] (cv_passes c)"
  have range: "int ys * k \<le> int l * k \<and> int l * k < int ys * k + (int ye - int ys) * k \<longleftrightarrow> ys \<le> l \<and> l < ye" for l
  proof -
    have "int ys * k + (int ye - int ys) * k = int ye * k" by (simp add: algebra_simps)
    then show ?thesis using assms(2) by simp
  qed
  have "alike g ?ps (cv_passes c)" by (rule alike_count) (auto simp: own_targets_def)
  moreover have "cv_passes c' = ?ps \<and> cv_lines c' = (\<lambda>l. if ys \<le> l \<and> l < ye then look g r ?ps else cv_lines c l)"
    using assms(1,3) unfolding assms(4)
    by (auto simp: r2d_RenderScreen_def Let_def line_scissor_def paint_lines_def range look_def UpdateCompositorConfig_def)
  ultimately show ?thesis by blast
qed

section \<open>One line\<close>

text \<open>The registers that the compositor reads, taken over when nothing critical changed.\<close>

lemma masked_bit: "(v XOR w) AND m = 0 \<Longrightarrow> bit m n \<Longrightarrow> bit v n \<longleftrightarrow> bit (w :: 'a::len word) n"
proof -
  assume v: "(v XOR w) AND m = 0" and n: "bit m n"
  have "\<not> bit ((v XOR w) AND m) n" by (simp add: v)
  with n show ?thesis unfolding bit_and_iff bit_xor_iff by blast
qed

lemma masked_low:
  assumes "(v XOR w) AND m = 0" "\<forall>n < k. bit m n"
  shows "fld v 0 k = fld (w :: 'a::len word) 0 k"
proof -
  have "take_bit k v = take_bit k w" using assms by (auto simp: bit_eq_iff bit_take_bit_iff masked_bit)
  then show ?thesis by (simp add: fld_def)
qed

lemma compositor_kept:
  assumes "\<not> comp_reg_dirty g r"
  shows "compositor_config (take_registers g r) = compositor_config r" "bit (g_DispCnt g) 3 = bit (r_DispCnt r) 3"
    "g_ForcedBlank g = r_ForcedBlank r" "g_Enabled g = r_UnitEnabled r"
proof -
  have d: "(g_DispCnt g XOR r_DispCnt r) AND 0xE008 = 0" and l: "(g_LayerEnable g XOR r_LayerEnable r) AND 0x1F = 0"
    and c: "layer < 4 \<Longrightarrow> (g_BGCnt g ! layer XOR r_BGCnt r ! layer) AND NOT (bg_mask layer) = 0" for layer
    using assms by (auto simp: comp_reg_dirty_def)
  show three: "bit (g_DispCnt g) 3 = bit (r_DispCnt r) 3" by (rule masked_bit [OF d]) simp
  have "bit (g_LayerEnable g) n = bit (r_LayerEnable r) n" if "n < 5" for n
  proof (rule masked_bit [OF l])
    have "(0x1F :: u8) = mask 5" by (simp add: mask_eq_exp_minus_1)
    moreover have "bit (mask 5 :: u8) n" using that by (simp only: bit_mask_iff) simp
    ultimately show "bit (0x1F :: u8) n" by metis
  qed
  moreover have "fld (g_BGCnt g ! layer) 0 2 = fld (r_BGCnt r ! layer) 0 2" if "layer < 4" for layer
    by (rule masked_low [OF c [OF that]]) (simp add: bg_mask_def less_Suc_eq numeral_2_eq_2)
  ultimately show "compositor_config (take_registers g r) = compositor_config r"
    using three assms by (simp add: compositor_config_def take_registers_def comp_reg_dirty_def upt_rec)
  show "g_ForcedBlank g = r_ForcedBlank r" "g_Enabled g = r_UnitEnabled r" using assms by (auto simp: comp_reg_dirty_def)
qed

text \<open>Two states of the renderer that composite the same, except for line \<open>n\<close>.\<close>

definition agrees :: "nat \<Rightarrow> renderer2d \<Rightarrow> renderer2d \<Rightarrow> bool" where
  "agrees n r r' \<longleftrightarrow> r_BG r' = r_BG r \<and> r_BGLayerTex r' = r_BGLayerTex r \<and> r_LayerMask r' = r_LayerMask r \<and>
     (\<forall>l. l \<noteq> n \<longrightarrow> r_Scanlines r' ! l = r_Scanlines r ! l) \<and> bit (r_DispCnt r') 3 = bit (r_DispCnt r) 3 \<and>
     compositor_config r' = compositor_config r \<and> r_UnitEnabled r' = r_UnitEnabled r \<and> r_ForcedBlank r' = r_ForcedBlank r"

lemma compositor_config_fields [simp]:
  "compositor_config (r\<lparr>r_Compositor := x1\<rparr>) = compositor_config r" "compositor_config (r\<lparr>r_LastLine := x2\<rparr>) = compositor_config r"
  "compositor_config (r\<lparr>r_LastSpriteLine := x2\<rparr>) = compositor_config r" "compositor_config (r\<lparr>r_Scanlines := x3\<rparr>) = compositor_config r"
  "compositor_config (r\<lparr>r_LayerConfigDirty := x4\<rparr>) = compositor_config r" "compositor_config (r\<lparr>r_SpriteDirty := x4\<rparr>) = compositor_config r"
  "compositor_config (r\<lparr>r_MosaicLines := x5\<rparr>) = compositor_config r" "compositor_config (r\<lparr>r_SpriteDispCnt := x6\<rparr>) = compositor_config r"
  "compositor_config (r\<lparr>r_OAM := x7\<rparr>) = compositor_config r" "compositor_config (r\<lparr>r_SpriteConfigDirty := x4\<rparr>) = compositor_config r"
  "compositor_config (r\<lparr>r_NumSprites := x2\<rparr>) = compositor_config r" "compositor_config (r\<lparr>r_SpriteUseMosaic := x4\<rparr>) = compositor_config r"
  "compositor_config (r\<lparr>r_Sprites := x8\<rparr>) = compositor_config r" "compositor_config (r\<lparr>r_Rotscale := x9\<rparr>) = compositor_config r"
  by (simp_all add: compositor_config_def)

lemma seen_agrees:
  assumes "agrees n r r'" "l \<noteq> n"
  shows "seen g l (look g r' ps) = seen g l (look g r ps)"
proof -
  have "layer_binding g (UpdateCompositorConfig r') = layer_binding g (UpdateCompositorConfig r)"
    using assms(1) by (simp add: agrees_def layer_binding_def UpdateCompositorConfig_def fun_eq_iff)
  with assms show ?thesis
    by (simp add: agrees_def seen_def look_def blank_colour_def compositor_args_def sampled_def UpdateCompositorConfig_def)
qed

lemma agrees_refl: "agrees n r r"
  by (simp add: agrees_def)

lemma agrees_trans: "agrees n r s \<Longrightarrow> agrees n s t \<Longrightarrow> agrees n r t"
  by (auto simp: agrees_def)

lemma agrees_sprites:
  assumes "r2d_DrawSprites n (gp, g, r) = ((gp', g', r'), cs)"
  shows "agrees m r r' \<and> r_LastLine r' = r_LastLine r \<and> r_LayerConfigDirty r' = r_LayerConfigDirty r \<and> r_Scale r' = r_Scale r \<and> quiet g cs"
  using assms by (auto simp: r2d_DrawSprites_def Let_def agrees_def intro: quiet_uploads quiet_Nil split: if_splits)

lemma agrees_refresh:
  assumes "refresh_sprites gp g line r = (r', cs)"
  shows "agrees m r r' \<and> r_LastLine r' = r_LastLine r \<and> r_Scale r' = r_Scale r"
  using assms by (auto simp: refresh_sprites_def UpdateOAM_def reset_table_def Let_def agrees_def split: if_splits prod.splits)

text \<open>
  The effect of one line: nothing critical changed and the composited state is the same, or the lines
  before were composited as they were.
\<close>

definition line_kept :: "gpu2d \<Rightarrow> nat \<Rightarrow> renderer2d \<Rightarrow> uniforms canvas \<Rightarrow> renderer2d \<Rightarrow> uniforms canvas \<Rightarrow> bool" where
  "line_kept g n r c r' c' \<longleftrightarrow>
     r_LastLine r' = r_LastLine r \<and> agrees n r r' \<and> cv_lines c' = cv_lines c \<and> alike g (cv_passes c') (cv_passes c)"

definition line_flushed :: "gpu2d \<Rightarrow> nat \<Rightarrow> renderer2d \<Rightarrow> uniforms canvas \<Rightarrow> renderer2d \<Rightarrow> uniforms canvas \<Rightarrow> bool" where
  "line_flushed g n r c r' c' \<longleftrightarrow>
     r_LastLine r' = n \<and> (\<forall>l. seen g l (cv_lines c' l) =
       (if r_LastLine r \<le> l \<and> l < n then seen g l (look g r (cv_passes c)) else seen g l (cv_lines c l)))"

lemma quiet_layers: "cv_lines (paints k (tx g OutputTex) (concat (map (PrerenderLayer g r) ls)) c) = cv_lines c"
proof -
  have one: "cv_lines (paints k (tx g OutputTex) (PrerenderLayer g r l) c) = cv_lines c" for l c
    by (auto simp: PrerenderLayer_def Let_def OutputTex_def LayerTex_def split: option.splits)
  show ?thesis by (induction ls arbitrary: c) (simp_all add: one)
qed

lemma agrees_take:
  assumes "\<not> comp_reg_dirty g r"
  shows "agrees n r (take_registers g r)"
  using compositor_kept [OF assms] by (simp add: agrees_def take_registers_def)

lemma agrees_scanline: "agrees n r (r\<lparr>r_Scanlines := (r_Scanlines r)[n := x]\<rparr>)"
  by (simp add: agrees_def)

text \<open>\<open>UpdateAndRender\<close>, in the order of the code; with the layers that are rendered again.\<close>

definition dirty_layers :: "(nat \<Rightarrow> u64) \<Rightarrow> gpu \<Rightarrow> gpu2d \<Rightarrow> renderer2d \<Rightarrow> nat list" where
  "dirty_layers junk gp g r = filter (\<lambda>l. layer_reg_dirty g r l \<or> layer_mem_dirty junk gp g (IsScreenOn gp g) r l) [0..<4]"

lemma UpdateAndRender_parts:
  assumes "UpdateAndRender junk partial n (gp, g, r) = ((gp', g', r'), cs)"
  obtains r1 c1 r2 r3 c2 r5 c5 where
    "catch_up g (comp_reg_dirty g r \<or> dirty_layers junk gp g r \<noteq> [] \<or> partial) n r = (r1, c1)"
    "r2 = (if dirty_layers junk gp g r \<noteq> [] \<or> r_LayerConfigDirty r1 then UpdateLayerConfig gp g (take_registers g r1) else take_registers g r1)"
    "r3 = r2\<lparr>r_Scanlines := (r_Scanlines r2)[n := scanline_config gp g (r_DispCnt r2) n (r_Scanlines r2 ! n)]\<rparr>"
    "quiet g c2" "refresh_sprites gp g n r3 = (r5, c5)"
    "cs = c1 @ c2 @ concat (map (PrerenderLayer g r3) (dirty_layers junk gp g r)) @ c5"
    "r' = r5\<lparr>r_LayerConfigDirty := False, r_SpriteDirty := False\<rparr>"
proof -
  have uploads: "quiet g ((if a then vram_uploads t ws else []) @ (if b then [Upload u x0 x1 x2 x3 x4 x5] else []))" for a b t u x0 x1 x2 x3 x4 x5 ws
    by (auto intro: quiet_Nil quiet_Upload quiet_uploads quiet_append)
  show ?thesis
    using assms that [OF _ _ _ uploads]
    unfolding UpdateAndRender_def Let_def prod.case dirty_layers_def [symmetric] UpdateScanlineConfig_def
    by (auto simp: take_registers_def split: prod.splits split del: if_split)
qed

lemma quietD:
  assumes "quiet g cs"
  shows "cv_lines (paints k (tx g OutputTex) cs c) = cv_lines c" "alike g (cv_passes (paints k (tx g OutputTex) cs c)) (cv_passes c)"
  using assms by (simp_all add: quiet_def)

text \<open>Catching up composites the lines since the last time with the state as it was.\<close>

lemma catch_up_effect:
  assumes "catch_up g changed n r = (r1, c1)" "r_Scale r = k" "0 < k" "r_LastLine r \<le> n" "c' = paints k (tx g OutputTex) c1 c"
  shows "r_Scale r1 = k \<and> r_LayerConfigDirty r1 = r_LayerConfigDirty r \<and>
    (if changed \<or> n = 0 then (0 < n \<longrightarrow> r_LastLine r1 = n) \<and>
       (\<forall>l. seen g l (cv_lines c' l) = (if r_LastLine r \<le> l \<and> l < n then seen g l (look g r (cv_passes c)) else seen g l (cv_lines c l)))
     else r1 = r \<and> quiet g c1)"
proof (cases "changed \<and> 0 < n")
  case False
  then show ?thesis using assms(1,2,4) quiet_sprites [of g n r] quietD(1) [OF quiet_sprites [of g n r], of k c] unfolding assms(5)
    by (auto simp: catch_up_def quiet_Nil)
next
  case True
  obtain u cs where u: "r2d_RenderScreen g (r_LastLine r) n r = (u, cs)" by fastforce
  let ?c = "paints k (tx g OutputTex) (DoRenderSprites g n r) c"
  note q = quietD [OF quiet_sprites [of g n r], where k = k and c = c]
  have c1: "r1 = u\<lparr>r_LastLine := n\<rparr>" "c' = paints k (tx g OutputTex) cs ?c"
    using assms(1,5) True u by (auto simp: catch_up_def)
  have r1: "r_Scale u = k \<and> r_LayerConfigDirty u = r_LayerConfigDirty r"
    using u assms(2) by (auto simp: r2d_RenderScreen_def UpdateCompositorConfig_def Let_def split: if_splits)
  have "seen g l (cv_lines c' l) = (if r_LastLine r \<le> l \<and> l < n then seen g l (look g r (cv_passes c)) else seen g l (cv_lines c l))" for l
  proof (cases "r_LastLine r < n")
    case True
    from screen_lines [OF assms(2,3) True, of c' g ?c] obtain ps where "alike g ps (cv_passes ?c)"
      "cv_lines c' = (\<lambda>l. if r_LastLine r \<le> l \<and> l < n then look g r ps else cv_lines ?c l)"
      unfolding u c1(2) by auto
    with q show ?thesis by (simp add: seen_look [OF alike_trans])
  next
    case False
    then have "cs = []" using u by (simp add: r2d_RenderScreen_def)
    moreover have "\<not> (r_LastLine r \<le> l \<and> l < n)" using False by simp
    ultimately show ?thesis using q(1) by (auto simp: c1(2))
  qed
  with True r1 show ?thesis by (simp add: c1(1))
qed

lemma update_effect:
  assumes "UpdateAndRender junk partial n (gp, g, r) = ((gp', g', r'), cs)" "r_Scale r = k" "0 < k" "r_LastLine r \<le> n"
    and "0 < n \<Longrightarrow> \<not> r_LayerConfigDirty r" and c': "c' = paints k (tx g OutputTex) cs c"
  shows "r_Scale r' = k \<and> \<not> r_LayerConfigDirty r' \<and> (line_kept g n r c r' c' \<or> line_flushed g n r c r' c')"
proof -
  let ?t = "tx g OutputTex" and ?ls = "dirty_layers junk gp g r"
  let ?ch = "comp_reg_dirty g r \<or> ?ls \<noteq> [] \<or> partial"
  obtain r1 c1 r2 r3 c2 r5 c5 where
    p1: "catch_up g ?ch n r = (r1, c1)" and
    p2: "r2 = (if ?ls \<noteq> [] \<or> r_LayerConfigDirty r1 then UpdateLayerConfig gp g (take_registers g r1) else take_registers g r1)" and
    p3: "r3 = r2\<lparr>r_Scanlines := (r_Scanlines r2)[n := scanline_config gp g (r_DispCnt r2) n (r_Scanlines r2 ! n)]\<rparr>" and
    p4: "quiet g c2" and p5: "refresh_sprites gp g n r3 = (r5, c5)" and
    p6: "cs = c1 @ c2 @ concat (map (PrerenderLayer g r3) ?ls) @ c5" and
    p7: "r' = r5\<lparr>r_LayerConfigDirty := False, r_SpriteDirty := False\<rparr>"
    by (rule UpdateAndRender_parts [OF assms(1)]) blast
  have q5: "quiet g c5" using quiet_refresh [of g gp n r3] p5 by simp
  note sprites = agrees_refresh [OF p5]
  have r2: "r_Scale r2 = r_Scale r1 \<and> r_LastLine r2 = r_LastLine r1" by (simp add: p2 UpdateLayerConfig_def take_registers_def Let_def)
  note up = catch_up_effect [OF p1 assms(2,3,4), of "paints k ?t c1 c" c]
  have r': "r_Scale r' = k \<and> \<not> r_LayerConfigDirty r' \<and> r_LastLine r' = r_LastLine r1"
    using up sprites [of 0] r2 by (simp add: p7 p3)
  have lines: "cv_lines c' = cv_lines (paints k ?t c1 c)"
    by (simp add: c' p6 quietD(1) [OF q5] quietD(1) [OF p4] quiet_layers)
  show ?thesis
  proof (cases "?ch \<or> n = 0")
    case True
    then have "line_flushed g n r c r' c'" using up r' lines assms(1,4) catch_up_def [of g ?ch n r] p1
      by (cases "n = 0") (auto simp: line_flushed_def)
    with r' show ?thesis by blast
  next
    case False
    then have r1: "r1 = r" "quiet g c1" and dirty: "\<not> comp_reg_dirty g r" "?ls = []" using up by auto
    have "r2 = take_registers g r" using assms(5) False by (simp add: p2 r1 dirty)
    then have "agrees n r r3" unfolding p3 using agrees_take [OF dirty(1)] agrees_scanline agrees_trans by blast
    with sprites [of n] have "agrees n r r5" using agrees_trans by blast
    then have "agrees n r r'" by (simp add: p7 agrees_def)
    moreover have "alike g (cv_passes c') (cv_passes c)"
      using quietD(2) [OF r1(2)] quietD(2) [OF p4] quietD(2) [OF q5] alike_trans unfolding c' p6 dirty(2) by (simp, blast)
    moreover have "cv_lines c' = cv_lines c" by (simp add: lines quietD(1) [OF r1(2)])
    ultimately show ?thesis using r' r1 by (simp add: line_kept_def)
  qed
qed

text \<open>Nothing shows yet that is not as if each line had been composited at once.\<close>

definition shows_so_far :: "gpu2d \<Rightarrow> (nat \<Rightarrow> uniforms painted) \<Rightarrow> nat \<Rightarrow> renderer2d \<Rightarrow> uniforms canvas \<Rightarrow> bool" where
  "shows_so_far g now n r c \<longleftrightarrow> r_LastLine r \<le> n \<and> (\<forall>l < n. seen g l (now l) =
     (if l < r_LastLine r then seen g l (cv_lines c l) else seen g l (look g r (cv_passes c))))"

lemma shows_step:
  assumes "shows_so_far g now n r c" "line_kept g n r c r' c' \<or> line_flushed g n r c r' c'"
    and "seen g n (now n) = seen g n (look g r' (cv_passes c'))"
  shows "shows_so_far g now (Suc n) r' c'"
  using assms(2)
proof
  assume "line_kept g n r c r' c'"
  then have "r_LastLine r' = r_LastLine r" "cv_lines c' = cv_lines c"
    and same: "l \<noteq> n \<Longrightarrow> seen g l (look g r' (cv_passes c')) = seen g l (look g r (cv_passes c))" for l
    unfolding line_kept_def by (auto simp: seen_agrees seen_look)
  with assms(1,3) show ?thesis by (auto simp: shows_so_far_def less_Suc_eq)
next
  assume "line_flushed g n r c r' c'"
  with assms(1,3) show ?thesis by (auto simp: shows_so_far_def line_flushed_def less_Suc_eq)
qed

definition steady :: "gpu2d \<Rightarrow> console \<Rightarrow> bool" where
  "steady g con \<longleftrightarrow> (\<forall>n \<le> 192. g_Num (snd (fst (con n))) = g_Num g \<and> g_Num (snd (snd (con n))) = g_Num g)"

lemma line_step_effect:
  assumes "line_step junk partial con n r = (r', cs)" "n \<le> 192" "steady g con" "r_Scale r = k" "0 < k" "r_LastLine r \<le> n"
    and "0 < n \<Longrightarrow> \<not> r_LayerConfigDirty r" "c' = paints k (tx g OutputTex) cs c"
  shows "r_Scale r' = k \<and> \<not> r_LayerConfigDirty r' \<and> (line_kept g n r c r' c' \<or> line_flushed g n r c r' c')"
proof -
  obtain gp0 g0 gp1 g1 where con: "con n = ((gp0, g0), (gp1, g1))" by (metis surj_pair)
  obtain s1 r1 cs1 where d: "r2d_DrawSprites n (gp0, g0, r) = (s1, cs1)" "snd (snd s1) = r1" by fastforce
  obtain s2 cs2 where u: "UpdateAndRender junk (partial n) n (gp1, g1, r1) = (s2, cs2)" by fastforce
  have out: "r' = snd (snd s2)" "cs = cs1 @ cs2"
    using assms(1) d u by (auto simp: line_step_def con split: prod.splits)
  have num: "g_Num g0 = g_Num g" "g_Num g1 = g_Num g" using assms(2,3) con by (force simp: steady_def)+
  note n0 = Num_only [OF num(1)] and n1 = Num_only [OF num(2)]
  obtain gp' g' where "s1 = (gp', g', r1)" using d(2) by (metis prod.collapse)
  from agrees_sprites [OF d(1) [unfolded this], of n]
  have r1: "agrees n r r1" "agrees m r r1" "r_LastLine r1 = r_LastLine r" "r_LayerConfigDirty r1 = r_LayerConfigDirty r"
    "r_Scale r1 = r_Scale r" "quiet g cs1" for m
    using agrees_sprites [OF d(1) [unfolded \<open>s1 = (gp', g', r1)\<close>]] unfolding quiet_def n0 by auto
  let ?c = "paints k (tx g OutputTex) cs1 c"
  note q = quietD [OF r1(6), of k c]
  have c': "c' = paints k (tx g1 OutputTex) cs2 ?c" using assms(8) by (simp add: out(2) n1)
  have "r_Scale r' = k \<and> \<not> r_LayerConfigDirty r' \<and> (line_kept g1 n r1 ?c r' c' \<or> line_flushed g1 n r1 ?c r' c')"
    using update_effect [where partial = "partial n" and gp = gp1 and g = g1 and r = r1 and gp' = "fst s2" and g' = "fst (snd s2)"
      and r' = r' and cs = cs2 and c = ?c] u out(1) r1(3-5) assms(4-7) c' by simp
  moreover have "line_kept g n r c r' c'" if "line_kept g1 n r1 ?c r' c'"
    using that q r1(1,3) agrees_trans alike_trans unfolding line_kept_def n1 by metis
  moreover have "line_flushed g n r c r' c'" if "line_flushed g1 n r1 ?c r' c'"
  proof -
    have "seen g l (look g r1 (cv_passes ?c)) = seen g l (look g r (cv_passes c))" for l
      using seen_agrees [OF r1(2) [of "Suc l"]] seen_look [OF q(2)] by simp
    with that q(1) r1(3) show ?thesis unfolding line_flushed_def n1 by simp
  qed
  ultimately show ?thesis by blast
qed

section \<open>The whole frame\<close>

lemma line_at_once_look:
  assumes "run_lines junk partial con (Suc n) r = (r', cs)" "g_Num (snd (snd (con n))) = g_Num g" "r_Scale r' = k" "0 < k"
    and "c' = paints k (tx g OutputTex) cs c"
  shows "seen g n (cv_lines (paints k (tx g OutputTex) (line_at_once junk partial con n r) c) n) = seen g n (look g r' (cv_passes c'))"
proof -
  let ?h = "snd (snd (con n))"
  note num = Num_only [OF assms(2)]
  from screen_lines [OF assms(3,4), of n "Suc n" _ ?h c'] obtain ps where ps: "alike g ps (cv_passes c')"
    "cv_lines (paints k (tx g OutputTex) (snd (r2d_RenderScreen ?h n (Suc n) r')) c') n = look g r' ps"
    unfolding num by auto
  show ?thesis using assms(1) ps(2) seen_look [OF ps(1)] by (simp add: line_at_once_def assms(5) split_def)
qed

lemma run_lines_effect:
  assumes "steady g con" "r_Scale r = k" "0 < k" "r_LastLine r = 0" "n \<le> 192" "run_lines junk partial con n r = (r', cs)"
    and c': "c' = paints k (tx g OutputTex) cs c"
  shows "r_Scale r' = k \<and> (0 < n \<longrightarrow> \<not> r_LayerConfigDirty r') \<and>
    shows_so_far g (\<lambda>l. cv_lines (paints k (tx g OutputTex) (line_at_once junk partial con l r) c) l) n r' c'"
  using assms(5,6) c'
proof (induction n arbitrary: r' cs c')
  case 0
  with assms(2,4) show ?case by (simp add: shows_so_far_def)
next
  case (Suc n)
  obtain r1 cs1 where r1: "run_lines junk partial con n r = (r1, cs1)" by fastforce
  obtain cs2 where cs2: "line_step junk partial con n r1 = (r', cs2)" "cs = cs1 @ cs2"
    using Suc.prems(2) r1 by (auto split: prod.splits)
  let ?c = "paints k (tx g OutputTex) cs1 c"
  have IH: "r_Scale r1 = k" "0 < n \<Longrightarrow> \<not> r_LayerConfigDirty r1"
    "shows_so_far g (\<lambda>l. cv_lines (paints k (tx g OutputTex) (line_at_once junk partial con l r) c) l) n r1 ?c"
    using Suc.IH [OF _ r1 refl] Suc.prems(1) by auto
  have c'': "c' = paints k (tx g OutputTex) cs2 ?c" using Suc.prems(3) cs2(2) by simp
  have step: "r_Scale r' = k \<and> \<not> r_LayerConfigDirty r' \<and> (line_kept g n r1 ?c r' c' \<or> line_flushed g n r1 ?c r' c')"
    by (rule line_step_effect [OF cs2(1) _ assms(1) IH(1) assms(3) _ IH(2) c'']) (use Suc.prems(1) IH(3) in \<open>auto simp: shows_so_far_def\<close>)
  have "seen g n (cv_lines (paints k (tx g OutputTex) (line_at_once junk partial con n r) c) n) = seen g n (look g r' (cv_passes c'))"
    by (rule line_at_once_look [OF Suc.prems(2) _ _ assms(3) Suc.prems(3)]) (use assms(1) step Suc.prems(1) in \<open>auto simp: steady_def\<close>)
  with step IH(3) show ?case by (simp add: shows_step)
qed



end
