(* ===== verification/Gpu2DUploads.thy ===== *)
theory Gpu2DUploads
  imports Gpu2DFrame
begin

unbundle bit_operations_syntax

text \<open>
  What the 2D renderer uploads: the rows of video memory that were written, all of them and only
  them; and a layer is rendered again exactly when the memory it reads was written.
\<close>

section \<open>Rows of video memory\<close>

lemma run_end_spec: "i < run_end ws \<Longrightarrow> ws ! i \<noteq> 0" "run_end ws < length ws \<Longrightarrow> ws ! run_end ws = 0"
proof -
  show "i < run_end ws \<Longrightarrow> ws ! i \<noteq> 0"
    by (induction ws arbitrary: i) (auto simp: less_Suc_eq_0_disj split: if_splits)
  show "run_end ws < length ws \<Longrightarrow> ws ! run_end ws = 0" by (induction ws) auto
qed

text \<open>The runs: each inside the array, of entries that are not zero, in ascending order and none missed.\<close>

lemma dirty_runs_spec:
  "(\<forall>(a, b) \<in> set (dirty_runs ws i). i \<le> a \<and> a < b \<and> b \<le> length ws) \<and> sorted_wrt (\<lambda>(a, b) (c, d). b \<le> c) (dirty_runs ws i) \<and>
   (\<forall>k. (\<exists>(a, b) \<in> set (dirty_runs ws i). a \<le> k \<and> k < b) \<longleftrightarrow> i \<le> k \<and> k < length ws \<and> ws ! k \<noteq> 0)"
proof (induction ws i rule: dirty_runs.induct)
  case (1 ws i)
  consider "length ws \<le> i" | "i < length ws" "ws ! i = 0" | "i < length ws" "ws ! i \<noteq> 0" by linarith
  then show ?case
  proof cases
    case 2
    then have run: "dirty_runs ws i = dirty_runs ws (i + 1)" by (subst dirty_runs.simps) simp
    have "i \<le> k \<and> k < length ws \<and> ws ! k \<noteq> 0 \<longleftrightarrow> i + 1 \<le> k \<and> k < length ws \<and> ws ! k \<noteq> 0" for k
      using 2(2) by (cases "k = i") auto
    with 1(1) 2 show ?thesis unfolding run by fastforce
  next
    case 3
    define e where "e = i + 1 + run_end (drop (i + 1) ws)"
    have run: "dirty_runs ws i = (i, e) # dirty_runs ws e" using 3 by (subst dirty_runs.simps) (simp add: e_def)
    have e: "i < e" "e \<le> length ws" using 3(1) run_end_le [of "drop (i + 1) ws"] by (auto simp: e_def)
    have all: "ws ! k \<noteq> 0" if "i \<le> k" "k < e" for k
    proof (cases "k = i")
      case False
      then have "drop (i + 1) ws ! (k - (i + 1)) \<noteq> 0" using that run_end_spec(1) [of "k - (i + 1)" "drop (i + 1) ws"] by (auto simp: e_def)
      then show ?thesis using that e False by simp
    qed (use 3 in simp)
    have IH: "(\<forall>(a, b) \<in> set (dirty_runs ws e). e \<le> a \<and> a < b \<and> b \<le> length ws)" "sorted_wrt (\<lambda>(a, b) (c, d). b \<le> c) (dirty_runs ws e)"
      "\<And>k. (\<exists>(a, b) \<in> set (dirty_runs ws e). a \<le> k \<and> k < b) \<longleftrightarrow> e \<le> k \<and> k < length ws \<and> ws ! k \<noteq> 0"
      using 1(2) 3 by (simp_all add: e_def)
    have "(\<exists>(a, b) \<in> set (dirty_runs ws i). a \<le> k \<and> k < b) \<longleftrightarrow> i \<le> k \<and> k < length ws \<and> ws ! k \<noteq> 0" for k
    proof -
      have "(\<exists>(a, b) \<in> set (dirty_runs ws i). a \<le> k \<and> k < b) \<longleftrightarrow> i \<le> k \<and> k < e \<or> e \<le> k \<and> k < length ws \<and> ws ! k \<noteq> 0"
        using IH(3) [of k] by (simp add: run)
      then show ?thesis using e all by (meson le_less_trans less_imp_le_nat not_le order_less_le_trans)
    qed
    with IH(1,2) e show ?thesis unfolding run by fastforce
  qed (simp add: dirty_runs.simps)
qed

text \<open>
  C32: The uploads of video memory send exactly the rows whose part of the memory was written, each once and
  none outside the texture.  An entry of the bit set stands for 32 rows.
\<close>

definition uploads_row :: "nat \<Rightarrow> calls \<Rightarrow> nat \<Rightarrow> nat" where
  "uploads_row t cs row = length (filter (\<lambda>c. case c of Upload u l x y w h b \<Rightarrow> u = t \<and> y \<le> int row \<and> int row < y + h | _ \<Rightarrow> False) cs)"

lemma row_once:
  "sorted_wrt (\<lambda>(a, b) (c, d). b \<le> c) rs \<Longrightarrow> \<forall>(a, b) \<in> set rs. a < b \<Longrightarrow>
   length (filter (\<lambda>(a, b). a \<le> (k :: nat) \<and> k < b) rs) = (if \<exists>(a, b) \<in> set rs. a \<le> k \<and> k < b then 1 else (0 :: nat))"
proof (induction rs)
  case (Cons r rs)
  obtain a b where r: "r = (a, b)" by force
  show ?case
  proof (cases "a \<le> k \<and> k < b")
    case True
    have later: "b \<le> fst y" if "y \<in> set rs" for y using Cons.prems(1) that by (fastforce simp: r)
    then have "filter (\<lambda>(a, b). a \<le> k \<and> k < b) rs = []" using True by (intro filter_False ballI) (drule later, auto)
    with True show ?thesis by (simp add: r)
  next
    case False
    with Cons show ?thesis by (auto simp: r)
  qed
qed simp

theorem written_rows_uploaded:
  "uploads_row t (vram_uploads t ws) row = (if row < 32 * length ws \<and> ws ! (row div 32) \<noteq> 0 then 1 else 0)"
proof -
  define rs where "rs = dirty_runs ws 0"
  have inside: "int (a * 32) \<le> int row \<and> int row < int (a * 32) + (int (b * 32) - int (a * 32)) \<longleftrightarrow> a \<le> row div 32 \<and> row div 32 < b" for a b
    by auto
  have "uploads_row t (vram_uploads t ws) row = length (filter (\<lambda>(a, b). a \<le> row div 32 \<and> row div 32 < b) rs)"
    unfolding uploads_row_def vram_uploads_def filter_map length_map rs_def [symmetric]
    by (rule arg_cong [where f = "\<lambda>f. length (filter f rs)"]) (auto simp: fun_eq_iff)
  also have "\<dots> = (if \<exists>(a, b) \<in> set rs. a \<le> row div 32 \<and> row div 32 < b then 1 else 0)"
    using dirty_runs_spec [of ws 0] unfolding rs_def by (intro row_once) auto
  also have "(\<exists>(a, b) \<in> set rs. a \<le> row div 32 \<and> row div 32 < b) \<longleftrightarrow> row < 32 * length ws \<and> ws ! (row div 32) \<noteq> 0"
  proof -
    have "(\<exists>(a, b) \<in> set rs. a \<le> row div 32 \<and> row div 32 < b) \<longleftrightarrow> row div 32 < length ws \<and> ws ! (row div 32) \<noteq> 0"
      using dirty_runs_spec [of ws 0] unfolding rs_def by blast
    moreover have "row div 32 < length ws \<longleftrightarrow> row < 32 * length ws" by auto
    ultimately show ?thesis by simp
  qed
  finally show ?thesis .
qed

section \<open>The watched ranges\<close>

text \<open>
  A layer is rendered again when, and only when, a part of one of the ranges it reads was written, where
  a range that leaves the memory goes on at its start.  A part is 512 bytes; the range must have one.
\<close>

theorem watched_range_exact:
  assumes "length ws = 16" "0 < len div 512" "len div 512 \<le> 1024"
  shows "range_dirty junk ws off len \<longleftrightarrow> (\<exists>i < len div 512. field_bit ws ((off div 512 + i) mod 1024))"
proof -
  define s n where "s = off div 512 mod 1024" "n = len div 512"
  have sn: "s < 1024" "0 < n" "n \<le> 1024" "(off div 512 + i) mod 1024 = (s + i) mod 1024" for i
    using assms by (simp_all add: s_n_def mod_add_left_eq)
  have goal: "range_dirty junk ws off len \<longleftrightarrow> (\<exists>i < n. field_bit ws ((s + i) mod 1024))"
  proof (cases "s + n > 1024")
    case True
    have "range_dirty junk ws off len \<longleftrightarrow> CheckRange junk ws s (1024 - s) \<or> CheckRange junk ws 0 (n - (1024 - s))"
      using True by (simp add: range_dirty_def Let_def flip: s_n_def)
    also have "\<dots> \<longleftrightarrow> (\<exists>i. s \<le> i \<and> i < 1024 \<and> field_bit ws i) \<or> (\<exists>i. i < n - (1024 - s) \<and> field_bit ws i)"
      using True sn assms(1) by (simp add: CheckRange_exact)
    also have "\<dots> \<longleftrightarrow> (\<exists>i < n. field_bit ws ((s + i) mod 1024))"
    proof
      assume "(\<exists>i. s \<le> i \<and> i < 1024 \<and> field_bit ws i) \<or> (\<exists>i. i < n - (1024 - s) \<and> field_bit ws i)"
      then obtain i where i: "field_bit ws i" "s \<le> i \<and> i < 1024 \<or> i < n - (1024 - s)" by blast
      from i(2) show "\<exists>i < n. field_bit ws ((s + i) mod 1024)"
      proof
        assume "s \<le> i \<and> i < 1024"
        with i(1) True show ?thesis by (intro exI [of _ "i - s"]) auto
      next
        assume "i < n - (1024 - s)"
        with i(1) sn True show ?thesis by (intro exI [of _ "1024 - s + i"]) simp
      qed
    next
      assume "\<exists>i < n. field_bit ws ((s + i) mod 1024)"
      then obtain i where i: "i < n" "field_bit ws ((s + i) mod 1024)" by blast
      show "(\<exists>i. s \<le> i \<and> i < 1024 \<and> field_bit ws i) \<or> (\<exists>i. i < n - (1024 - s) \<and> field_bit ws i)"
      proof (cases "s + i < 1024")
        case False
        then have "(s + i) mod 1024 = s + i - 1024" using sn i(1) by (simp add: mod_if)
        with i False sn show ?thesis by (intro disjI2 exI [of _ "s + i - 1024"]) simp
      qed (use i in auto)
    qed
    finally show ?thesis .
  next
    case False
    then have "range_dirty junk ws off len \<longleftrightarrow> CheckRange junk ws s n"
      by (simp add: range_dirty_def Let_def flip: s_n_def)
    also have "\<dots> \<longleftrightarrow> (\<exists>i. s \<le> i \<and> i < s + n \<and> field_bit ws i)"
      using False sn assms(1) by (simp add: CheckRange_exact)
    also have "\<dots> \<longleftrightarrow> (\<exists>i < n. field_bit ws ((s + i) mod 1024))"
    proof -
      have "(s + i) mod 1024 = s + i" if "i < n" for i using that False by simp
      then show ?thesis by (metis add_less_cancel_left le_add1 le_add_diff_inverse)
    qed
    finally show ?thesis .
  qed
  then show ?thesis unfolding s_n_def(2) [symmetric] using sn(4) by simp
qed

lemma watched_range_witness: "\<forall>junk. range_dirty junk (replicate 16 1) 523776 512 \<longleftrightarrow> field_bit (replicate 16 1) 1023"
  using watched_range_exact [where ws = "replicate 16 1" and len = 512 and off = 523776] by simp

end
