(* ===== verification/VkPrograms.thy ===== *)
theory VkPrograms
  imports VkCalls
begin

text \<open>
  The programs of the DS renderers, \<^verbatim>\<open>VulkanRenderer::CreatePrograms\<close>: the resources each takes, its
  vertices, its push constant and the render pass it draws in; and when a list of calls uses them so.
\<close>

section \<open>Programs\<close>

datatype slot_kind = ImageSampler | UniformBuffer

text \<open>A set of bindings: number, kind and count of each, and the elements it has.\<close>

type_synonym layout = "(nat \<times> slot_kind \<times> nat) list"

definition set_layout :: "program \<Rightarrow> layout" where
  "set_layout p = (case p of
       LayerPre \<Rightarrow> [(0, ImageSampler, 1), (1, ImageSampler, 1), (2, UniformBuffer, 1)]
     | SpritePre \<Rightarrow> [(0, ImageSampler, 1), (1, ImageSampler, 1), (2, UniformBuffer, 1)]
     | SpritePass i \<Rightarrow> [(0, ImageSampler, 1), (1, ImageSampler, 1), (2, ImageSampler, 1), (3, UniformBuffer, 1), (4, UniformBuffer, 1)]
     | Compositor \<Rightarrow> [(0, ImageSampler, 4), (1, ImageSampler, 1), (2, ImageSampler, 1), (3, ImageSampler, 1), (4, ImageSampler, 1),
                        (5, UniformBuffer, 1), (6, UniformBuffer, 1), (7, UniformBuffer, 1)]
     | FinalPass \<Rightarrow> [(0, ImageSampler, 1), (1, ImageSampler, 1), (2, ImageSampler, 1), (3, UniformBuffer, 1)]
     | CaptureProgram \<Rightarrow> [(0, ImageSampler, 1), (1, ImageSampler, 1), (2, UniformBuffer, 1)]
     | CapDown \<Rightarrow> [(0, ImageSampler, 1)])"

definition vertex_stride :: "program \<Rightarrow> nat" where
  "vertex_stride p = (case p of SpritePre \<Rightarrow> 3 * 2 | SpritePass i \<Rightarrow> 5 * 2 | CaptureProgram \<Rightarrow> 4 * 2 | _ \<Rightarrow> 2 * 4)"

definition push_bytes :: "program \<Rightarrow> nat" where
  "push_bytes p = (case p of SpritePre \<Rightarrow> 0 | FinalPass \<Rightarrow> 0 | CaptureProgram \<Rightarrow> 0 | _ \<Rightarrow> 4)"

text \<open>The render pass: the number of colour attachments and whether there is a depth attachment.\<close>

definition program_pass :: "program \<Rightarrow> nat \<times> bool" where
  "program_pass p = (case p of SpritePass i \<Rightarrow> (2, True) | FinalPass \<Rightarrow> (2, False) | _ \<Rightarrow> (1, False))"

text \<open>The colour components written to each attachment, red first; the depth test and the depth writes.\<close>

definition colour_masks :: "program \<Rightarrow> (bool \<times> bool \<times> bool \<times> bool) list" where
  "colour_masks p = (case p of
       SpritePass i \<Rightarrow>
         (if i = 0 then [(False, False, False, False), (False, True, False, True)]
          else if i = 1 then [(False, False, False, False), (False, False, True, False)]
          else [(True, True, True, True), (True, True, False, True)])
     | FinalPass \<Rightarrow> [(True, True, True, True), (True, True, True, True)]
     | _ \<Rightarrow> [(True, True, True, True)])"

definition depth_used :: "program \<Rightarrow> bool" where
  "depth_used p \<longleftrightarrow> p = SpritePass 2"

section \<open>Well-typed calls\<close>

definition layout_slots :: "layout \<Rightarrow> (nat \<times> nat \<times> slot_kind) list" where
  "layout_slots xs = concat (map (\<lambda>(b, kind, n). map (\<lambda>i. (b, i, kind)) [0..<n]) xs)"

definition arg_slot :: "'u arg \<Rightarrow> nat \<times> nat \<times> slot_kind" where
  "arg_slot x = (case x of TexArg b i t m \<Rightarrow> (b, i, ImageSampler) | UniArg b u \<Rightarrow> (b, 0, UniformBuffer))"

text \<open>
  A draw binds exactly the program's resources and its vertices are as many as it says, and it is in a
  pass the program was made for.  The state is the pass that is open; uploads, copies and the like
  end it.
\<close>

definition draw_typed :: "program \<Rightarrow> 'u arg list \<Rightarrow> int list \<Rightarrow> nat \<Rightarrow> bool" where
  "draw_typed p args vs n \<longleftrightarrow> map arg_slot args = layout_slots (set_layout p) \<and> value_bytes p * length vs = vertex_stride p * n \<and> 0 < n"

fun open_pass :: "'u call \<Rightarrow> (nat \<times> bool) option \<Rightarrow> (nat \<times> bool) option" where
  "open_pass (Rendering cs d) st = Some (length cs, d \<noteq> None)"
| "open_pass (Viewport x y w h) st = st"
| "open_pass (Scissor x y w h) st = st"
| "open_pass (ClearColour i col) st = st"
| "open_pass ClearDepths st = st"
| "open_pass (DrawCall p args push vs n) st = st"
| "open_pass _ st = None"

fun call_typed :: "(nat \<times> bool) option \<Rightarrow> 'u call \<Rightarrow> bool" where
  "call_typed st (Viewport x y w h) \<longleftrightarrow> st \<noteq> None"
| "call_typed st (Scissor x y w h) \<longleftrightarrow> st \<noteq> None"
| "call_typed st (ClearColour i col) \<longleftrightarrow> (\<exists>n d. st = Some (n, d) \<and> i < n)"
| "call_typed st ClearDepths \<longleftrightarrow> (\<exists>n. st = Some (n, True))"
| "call_typed st (DrawCall p args push vs n) \<longleftrightarrow> st = Some (program_pass p) \<and> draw_typed p args vs n"
| "call_typed st _ \<longleftrightarrow> True"

fun calls_typed :: "(nat \<times> bool) option \<Rightarrow> 'u call list \<Rightarrow> bool" where
  "calls_typed st [] \<longleftrightarrow> True"
| "calls_typed st (c # cs) \<longleftrightarrow> call_typed st c \<and> calls_typed (open_pass c st) cs"

lemma calls_typed_append: "calls_typed st (cs @ ds) \<longleftrightarrow> calls_typed st cs \<and> calls_typed (fold open_pass cs st) ds"
  by (induction cs arbitrary: st) auto

lemma typed_anywhere_append: "(\<And>st. calls_typed st cs) \<Longrightarrow> (\<And>st. calls_typed st ds) \<Longrightarrow> calls_typed st (cs @ ds)"
  by (simp add: calls_typed_append)

end
