(* ===== verification/Gpu2DCalls.thy ===== *)
theory Gpu2DCalls
  imports Gpu2DUploads VkPrograms
begin

unbundle bit_operations_syntax

text \<open>
  The blocks of calls of which a frame of the 2D renderer consists, whatever happens between the lines.
  Each fits into the upload ring and is well typed.
\<close>

section \<open>Blocks\<close>

definition table_ok :: "renderer2d \<Rightarrow> bool" where
  "table_ok r \<longleftrightarrow> length (r_Sprites r) = 128 \<and> r_NumSprites r \<le> 128"

lemma sprite_data_length: "length (sprite_data w ys ye r) \<le> 60 * r_NumSprites r"
  unfolding sprite_data_def
  using length_concat_le [of "[0..<r_NumSprites r]" "\<lambda>i. if (sp_OBJMode (r_Sprites r ! i) = 2) \<noteq> w then [] else sprite_quads ys ye i (r_Sprites r ! i)" 60]
  by (simp add: length_quads)

inductive blocks :: "calls \<Rightarrow> bool" where
  none: "blocks []"
| append: "blocks cs \<Longrightarrow> blocks ds \<Longrightarrow> blocks (cs @ ds)"
| upload: "nat w * nat h * b \<le> 0x80000 \<Longrightarrow> blocks [Upload t l x y w h b]"
| sprites: "table_ok r \<Longrightarrow> blocks (DoRenderSprites g line r)"
| screen: "blocks (snd (r2d_RenderScreen g ys ye r))"
| layer: "blocks (PrerenderLayer g r l)"
| presprites: "r_NumSprites r \<le> 128 \<Longrightarrow> blocks (PrerenderSprites g r)"

lemma blocks_if: "blocks cs \<Longrightarrow> blocks (if b then cs else [])"
  by (simp add: blocks.none)

lemma blocks_Cons: "nat w * nat h * b \<le> 0x80000 \<Longrightarrow> blocks cs \<Longrightarrow> blocks (Upload t l x y w h b # cs)"
  using blocks.append [OF blocks.upload] by fastforce

lemma blocks_concat: "(\<And>x. x \<in> set xs \<Longrightarrow> blocks (f x)) \<Longrightarrow> blocks (concat (map f xs))"
  by (induction xs) (simp_all add: blocks.none blocks.append)

lemma blocks_vram: "length ws \<le> 16 \<Longrightarrow> blocks (vram_uploads t ws)"
proof -
  assume ws: "length ws \<le> 16"
  have "blocks [Upload t 0 0 (int (x * 32)) 1024 (int (y * 32) - int (x * 32)) 1]" if "(x, y) \<in> set (dirty_runs ws 0)" for x y
  proof -
    have "y \<le> 16" using dirty_runs_spec [of ws 0] that ws by fastforce
    then have "nat (int (y * 32) - int (x * 32)) \<le> 512" by simp
    then show ?thesis by (intro blocks.upload) simp
  qed
  then have "blocks (concat (map (\<lambda>(x, y). [Upload t 0 0 (int (x * 32)) 1024 (int (y * 32) - int (x * 32)) 1]) (dirty_runs ws 0)))"
    by (intro blocks_concat) auto
  then show ?thesis by (simp add: vram_uploads_def split_def concat_map_singleton)
qed

section \<open>A frame consists of blocks\<close>

lemma table_DrawSprites:
  assumes "r2d_DrawSprites n (gp, g, r) = ((gp', g', r'), cs)" "table_ok r"
  shows "table_ok r'" "blocks cs"
proof -
  have "length (take (if g_Num g = 0 then 8 else 4) (obj_dirty gp g (IsScreenOn gp g))) \<le> 16" by auto
  from blocks_vram [OF this] assms(1) show "blocks cs" by (auto simp: r2d_DrawSprites_def Let_def)
  show "table_ok r'" using assms by (auto simp: r2d_DrawSprites_def Let_def table_ok_def split: if_splits)
qed

lemma table_refresh:
  assumes "refresh_sprites gp g line r = (r', cs)" "table_ok r"
  shows "table_ok r'" "blocks cs"
proof -
  let ?r = "UpdateOAM gp g 0 192 (reset_table r)"
  have "length (r_Sprites r) = 128" using assms(2) by (simp add: table_ok_def)
  from sprite_table_size [OF this] have ok: "r_NumSprites ?r \<le> 128" "length (r_Sprites ?r) = 128" by simp_all
  with assms show "table_ok r'" "blocks cs"
    by (auto simp: refresh_sprites_def Let_def table_ok_def split: if_splits intro!: blocks.none blocks_Cons blocks.presprites)
qed

lemma table_update:
  assumes "UpdateAndRender junk partial n (gp, g, r) = ((gp', g', r'), cs)" "table_ok r"
  shows "table_ok r' \<and> blocks cs"
proof -
  let ?ls = "filter (\<lambda>l. layer_reg_dirty g r l \<or> layer_mem_dirty junk gp g (IsScreenOn gp g) r l) [0..<4]"
  let ?ch = "comp_reg_dirty g r \<or> ?ls \<noteq> [] \<or> partial"
  obtain r1 c1 where r1: "catch_up g ?ch n r = (r1, c1)" by fastforce
  have "blocks (case r2d_RenderScreen g (r_LastLine r) n r of (u, cs) \<Rightarrow> cs)"
    using blocks.screen [of g "r_LastLine r" n r] by (simp add: split_def)
  then have ok1: "table_ok r1" "blocks c1"
    using r1 blocks.sprites [OF assms(2)] assms(2)
    by (auto simp: catch_up_def table_ok_def r2d_RenderScreen_def UpdateCompositorConfig_def Let_def split: if_splits
      intro: blocks.append blocks.none)
  let ?r2 = "take_registers g r1"
  let ?r3 = "if ?ls \<noteq> [] \<or> r_LayerConfigDirty ?r2 then UpdateLayerConfig gp g ?r2 else ?r2"
  obtain g1 r4 where r4: "UpdateScanlineConfig gp n (g, ?r3) = (g1, r4)" by fastforce
  have "table_ok r4" using r4 ok1(1) by (auto simp: UpdateScanlineConfig_def UpdateLayerConfig_def take_registers_def table_ok_def Let_def)
  obtain r5 c5 where r5: "refresh_sprites gp g n r4 = (r5, c5)" by fastforce
  note ok5 = table_refresh [OF r5 \<open>table_ok r4\<close>]
  have "blocks (vram_uploads t (take ((if g_Num g = 0 then 1024 else 256) div 64) ws))" for t ws by (rule blocks_vram) auto
  then have up: "blocks (if b then vram_uploads t (take ((if g_Num g = 0 then 1024 else 256) div 64) ws) else [])" for b t ws
    by (rule blocks_if)
  have pal: "blocks (if b then [Upload t 0 0 0 256 65 2] else [])" for b t by (rule blocks_if) (simp add: blocks.upload)
  have pre: "blocks (concat (map (PrerenderLayer g r4) ls))" for ls by (rule blocks_concat) (rule blocks.layer)
  show ?thesis
    using assms(1) ok1(2) ok5 up pre pal r1 r4 r5
    unfolding UpdateAndRender_def Let_def prod.case
    by (auto simp: table_ok_def intro!: blocks.append split del: if_split)
qed

lemma table_VBlank: "r2d_VBlank g r = (r', cs) \<Longrightarrow> table_ok r \<Longrightarrow> table_ok r' \<and> blocks cs"
  using blocks.append [OF blocks.sprites blocks.screen, of r g 192 g "r_LastLine r" 192 r]
  by (auto simp: r2d_VBlank_def r2d_RenderScreen_def UpdateCompositorConfig_def table_ok_def Let_def split: if_splits)

section \<open>Blocks fit\<close>

definition fits :: "nat \<Rightarrow> calls \<Rightarrow> bool" where
  "fits a cs \<longleftrightarrow> (\<forall>c \<in> set cs. call_fits usize a c)"

lemma fits_simps [simp]: "fits a []" "fits a (c # cs) \<longleftrightarrow> call_fits usize a c \<and> fits a cs" "fits a (cs @ ds) \<longleftrightarrow> fits a cs \<and> fits a ds"
  by (auto simp: fits_def)

text \<open>A draw with at most eight bindings, with the largest uniform and the most vertices there are.\<close>

lemma draw_fits:
  assumes "0 < a" "a \<le> 256" "length args \<le> 11" "value_bytes p * length vs \<le> 0x10000"
  shows "call_fits usize a (DrawCall p args push vs n)"
proof -
  have "usize u \<le> 192 * 160" for u by (simp add: usize_def split: uniforms.split)
  then have "space_needed a (map (arg_binding usize) args) (value_bytes p * length vs) \<le>
      value_bytes p * length vs + 32 + length args * (192 * 160 + 2 * a)"
    by (intro space_needed_le [OF assms(1)]) (auto split: arg.split)
  also have "\<dots> \<le> 0x10000 + 32 + 11 * (192 * 160 + 2 * 256)" using assms by (intro add_mono mult_mono) simp_all
  finally show ?thesis by (simp add: kRingSize_def)
qed

lemma fits_RenderSprites:
  assumes "0 < a" "a \<le> 256" "table_ok r"
  shows "fits a (RenderSprites g w ys ye p r)"
proof -
  have "value_bytes (SpritePass p) * length (sprite_data w ys ye r) \<le> 0x10000"
    using sprite_data_length [of w ys ye r] assms(3) by (simp add: value_bytes_def table_ok_def)
  then show ?thesis unfolding RenderSprites_def Let_def using assms(1,2) by (auto intro!: draw_fits simp del: call_fits.simps)
qed

lemma sprite_pre_length: "length (sprite_pre_data r) \<le> 18 * r_NumSprites r"
  unfolding sprite_pre_data_def
  using length_concat_le [of "[0..<r_NumSprites r]" "\<lambda>i. if sp_Type (r_Sprites r ! i) \<ge> 3 then [] else pre_vertices i" 18]
  by (simp add: pre_vertices_def)

lemma blocks_fit:
  assumes "blocks cs" "0 < a" "a \<le> 256"
  shows "fits a cs"
  using assms(1)
proof induction
  case (sprites r g line)
  then show ?case by (simp add: DoRenderSprites_def Let_def line_scissor_def fits_RenderSprites assms(2,3))
next
  case (screen g ys ye r)
  show ?case
    by (auto simp: r2d_RenderScreen_def Let_def kRectVertices_def value_bytes_def compositor_args_def line_scissor_def simp del: call_fits.simps(1)
      intro!: draw_fits assms(2,3))
next
  case (layer g r l)
  show ?case
    by (auto simp: PrerenderLayer_def Let_def kRectVertices_def value_bytes_def simp del: call_fits.simps(1)
      intro!: draw_fits assms(2,3) split: option.split)
next
  case (presprites r g)
  with sprite_pre_length [of r] have "length (sprite_pre_data r) * 2 \<le> 0x10000" by simp
  then show ?case
    by (auto simp: PrerenderSprites_def Let_def value_bytes_def simp del: call_fits.simps(1) intro!: draw_fits assms(2,3))
qed (simp_all add: kRingSize_def)

section \<open>Blocks are well typed\<close>

lemma concat_length: "(\<And>x. x \<in> set xs \<Longrightarrow> k dvd length (f x)) \<Longrightarrow> k dvd length (concat (map f xs))"
  by (induction xs) auto

lemma vertex_lengths: "length (pre_vertices i) = 18" "length (quad x y w h i) = 30"
  by (simp_all add: pre_vertices_def quad_def Let_def)

lemma vertices_whole: "3 dvd length (sprite_pre_data r)" "5 dvd length (sprite_data w ys ye r)"
proof -
  show "3 dvd length (sprite_pre_data r)" unfolding sprite_pre_data_def by (rule concat_length) (simp add: vertex_lengths)
  show "5 dvd length (sprite_data w ys ye r)" unfolding sprite_data_def
    by (rule concat_length) (simp add: sprite_quads_def Let_def vertex_lengths)
qed

lemma div_pos: "0 < k \<Longrightarrow> k dvd length xs \<Longrightarrow> xs \<noteq> [] \<Longrightarrow> 0 < length xs div (k :: nat)"
  by (cases xs) (auto simp: dvd_imp_le div_greater_zero_iff)

text \<open>The programs' slots, written out.\<close>

lemma slots:
  "layout_slots (set_layout LayerPre) = [(0, 0, ImageSampler), (1, 0, ImageSampler), (2, 0, UniformBuffer)]"
  "layout_slots (set_layout SpritePre) = [(0, 0, ImageSampler), (1, 0, ImageSampler), (2, 0, UniformBuffer)]"
  "layout_slots (set_layout (SpritePass i)) =
     [(0, 0, ImageSampler), (1, 0, ImageSampler), (2, 0, ImageSampler), (3, 0, UniformBuffer), (4, 0, UniformBuffer)]"
  "layout_slots (set_layout Compositor) = [(0, 0, ImageSampler), (0, 1, ImageSampler), (0, 2, ImageSampler), (0, 3, ImageSampler),
     (1, 0, ImageSampler), (2, 0, ImageSampler), (3, 0, ImageSampler), (4, 0, ImageSampler), (5, 0, UniformBuffer), (6, 0, UniformBuffer),
     (7, 0, UniformBuffer)]"
  "layout_slots (set_layout FinalPass) = [(0, 0, ImageSampler), (1, 0, ImageSampler), (2, 0, ImageSampler), (3, 0, UniformBuffer)]"
  "layout_slots (set_layout CaptureProgram) = [(0, 0, ImageSampler), (1, 0, ImageSampler), (2, 0, UniformBuffer)]"
  "layout_slots (set_layout CapDown) = [(0, 0, ImageSampler)]"
  by (simp_all add: layout_slots_def set_layout_def upt_rec)

lemma typed_RenderSprites: "st = Some (2, True) \<Longrightarrow> calls_typed st (RenderSprites g w ys ye p r)"
  "fold open_pass (RenderSprites g w ys ye p r) st = st"
  using vertices_whole(2) [of w ys ye r] div_pos [of 5 "sprite_data w ys ye r"]
  by (auto simp: RenderSprites_def Let_def program_pass_def draw_typed_def slots arg_slot_def value_bytes_def vertex_stride_def)

lemma compositor_slots: "map arg_slot (compositor_args g r) = layout_slots (set_layout Compositor)"
  by (simp add: compositor_args_def slots arg_slot_def layer_binding_def upt_rec)

lemma blocks_typed: "blocks cs \<Longrightarrow> calls_typed st cs"
proof (induction arbitrary: st rule: blocks.induct)
  case (append cs ds)
  then show ?case by (simp add: calls_typed_append)
next
  case (sprites r g line)
  then show ?case by (auto simp: DoRenderSprites_def Let_def line_scissor_def calls_typed_append typed_RenderSprites)
next
  case (screen g ys ye r)
  show ?case by (auto simp: r2d_RenderScreen_def Let_def line_scissor_def draw_typed_def compositor_slots program_pass_def kRectVertices_def
      value_bytes_def vertex_stride_def)
next
  case (layer g r l)
  show ?case
    by (simp add: PrerenderLayer_def Let_def draw_typed_def slots arg_slot_def program_pass_def kRectVertices_def value_bytes_def
      vertex_stride_def split: option.split)
next
  case (presprites r g)
  show ?case using vertices_whole(1) [of r] div_pos [of 3 "sprite_pre_data r"]
    by (auto simp: PrerenderSprites_def Let_def draw_typed_def slots arg_slot_def program_pass_def value_bytes_def vertex_stride_def)
qed simp_all

end
