(* ===== verification/GpuScreen.thy ===== *)
theory GpuScreen
  imports Gpu2DCalls
begin

unbundle bit_operations_syntax

text \<open>
  The renderer of the DS screens, class \<^verbatim>\<open>VulkanRenderer\<close> of \<^verbatim>\<open>vk/GPU_Vulkan.cpp\<close>: the two 2D engines, the
  final pass over both screens, and the display capture with its way back into video memory.
\<close>

section \<open>State\<close>

record renderer =
  n_Scale :: int
  n_BackBuffer :: nat
  n_AuxUsageMask :: u8
  n_DispCntA :: u32
  n_DispCntB :: u32
  n_MasterBrightnessA :: u16
  n_MasterBrightnessB :: u16
  n_CaptureCnt :: u32
  n_NeedPartialRender :: bool
  n_LastLine :: nat
  n_LastCapLine :: nat
  n_Aux0VRAMCap :: int
  n_FinalPassConfig :: final_config
  n_CaptureConfig :: capture_config
  n_AuxInputBuffer :: "u16 list list"
  n_A :: renderer2d
  n_B :: renderer2d

text \<open>
  The console as the renderer sees it: the shared state and the two engines; which screen is on top;
  the banks of video memory seen by the processor, their contents and the captures they hold
  (\<^verbatim>\<open>GetCaptureBlock_LCDC\<close>); and the display FIFO.
\<close>

record lcd =
  lc_gpu :: gpu
  lc_A :: gpu2d
  lc_B :: gpu2d
  lc_ScreenSwap :: bool
  lc_VRAMMap_LCDC :: u32
  lc_VRAM :: "nat \<Rightarrow> u16 list"
  lc_CaptureBlock :: "nat \<Rightarrow> int"
  lc_DispFIFOBuffer :: "u16 list"

definition final_zero :: final_config where
  "final_zero = \<lparr>fc_ScreenSwap = replicate 192 False, fc_ScaleFactor = 0, fc_AuxLayer = 0, fc_DispModeA = 0, fc_DispModeB = 0,
     fc_BrightModeA = 0, fc_BrightModeB = 0, fc_BrightFactorA = 0, fc_BrightFactorB = 0, fc_AuxColorFactor = 0\<rparr>"

definition capture_zero :: capture_config where
  "capture_zero = \<lparr>cc_CaptureSize = (0, 0), cc_SrcALayer = 0, cc_SrcBLayer = 0, cc_SrcBOffset = 0, cc_DstMode = 0,
     cc_BlendFactors = (0, 0), cc_SrcAOffset = replicate 192 0, cc_SrcBColorFactor = 0\<rparr>"

definition rend_Reset :: "lcd \<Rightarrow> renderer \<Rightarrow> renderer" where
  "rend_Reset l n = n\<lparr>n_FinalPassConfig := final_zero, n_CaptureConfig := capture_zero, n_AuxUsageMask := 0, n_DispCntA := 0,
     n_DispCntB := 0, n_MasterBrightnessA := 0, n_MasterBrightnessB := 0, n_CaptureCnt := 0, n_NeedPartialRender := False,
     n_LastLine := 0, n_LastCapLine := 0, n_Aux0VRAMCap := - 1, n_A := r2d_Reset (lc_A l) (n_A n), n_B := r2d_Reset (lc_B l) (n_B n)\<rparr>"

section \<open>Starting\<close>

text \<open>The mosaic table: 16 rows of 256 positions, counting up to the mosaic's size and from 0 again.\<close>

fun mosaic_row :: "nat \<Rightarrow> nat \<Rightarrow> nat \<Rightarrow> nat list" where
  "mosaic_row m 0 mosx = []"
| "mosaic_row m (Suc k) mosx = mosx # mosaic_row m k (if mosx = m then 0 else mosx + 1)"

definition mosaic_tex :: "nat list" where
  "mosaic_tex = concat (map (\<lambda>m. mosaic_row m 256 0) [0..<16])"

definition Target :: "nat \<Rightarrow> nat \<Rightarrow> nat \<Rightarrow> texture_desc" where
  "Target w h layers = ColorTarget w h layers"

definition capture_targets :: "int \<Rightarrow> (nat \<times> texture_desc) list" where
  "capture_targets k =
     [(CaptureOutput256Tex, Target (nat (256 * k)) (nat (256 * k)) 4), (CaptureOutput128Tex, Target (nat (128 * k)) (nat (128 * k)) 16),
      (CaptureVRAMTex, Target (nat (256 * k)) (nat (256 * k)) 1), (FPOutputTex 0, Target (nat (256 * k)) (nat (192 * k)) 2),
      (FPOutputTex 1, Target (nat (256 * k)) (nat (192 * k)) 2)]"

definition rend_SetScaleFactor :: "int \<Rightarrow> renderer \<Rightarrow> renderer \<times> calls" where
  "rend_SetScaleFactor scale n =
     (if scale = n_Scale n then (n, [])
      else
        (n\<lparr>n_Scale := scale\<rparr>,
         map (\<lambda>(t, d). Create t d) (capture_targets scale) @
         concat (map (\<lambda>(t, d). concat (map (\<lambda>layer. [Rendering [(t, layer)] None, ClearColour 0 [0, 0, 0, 0]]) [0..<td_layers d]))
           (capture_targets scale)) @
         [EndPass]))"

definition rend_SetRenderSettings :: "lcd \<Rightarrow> int \<Rightarrow> renderer \<Rightarrow> renderer \<times> calls" where
  "rend_SetRenderSettings l scale n =
     (let (n1, cs1) = rend_SetScaleFactor scale n; (a, cs2) = r2d_SetScaleFactor (lc_A l) scale (n_A n1);
          (b, cs3) = r2d_SetScaleFactor (lc_B l) scale (n_B n1)
      in (n1\<lparr>n_A := a, n_B := b\<rparr>, cs1 @ cs2 @ cs3))"

text \<open>\<open>ready3d\<close> is whether the 3D renderer could be started; the stream and the programs are.\<close>

definition rend_Init :: "(nat \<Rightarrow> bool) \<Rightarrow> bool \<Rightarrow> lcd \<Rightarrow> renderer \<Rightarrow> bool \<times> renderer \<times> calls" where
  "rend_Init ok ready3d l n =
     (let (b1, cs1) = attempt ok
            [Create MosaicTex \<lparr>td_width = 256, td_height = 16, td_layers = 1, td_format = 14, td_renderTarget = False, td_depth = False\<rparr>,
             Upload MosaicTex 0 0 0 256 16 1, Create AuxInputTex (DSColorTexture 256 256 2),
             Upload AuxInputTex 0 0 0 256 256 2, Upload AuxInputTex 1 0 0 256 256 2,
             Create CaptureSyncTex (Target 256 256 1)];
          (b2, cs2) = (if b1 then r2d_Init ok (lc_A l) else (False, []));
          (b3, cs3) = (if b2 then r2d_Init ok (lc_B l) else (False, []))
      in if b3 \<and> ready3d
         then (case rend_SetRenderSettings l 1 n of (n1, cs4) \<Rightarrow> (True, n1, cs1 @ cs2 @ cs3 @ cs4 @ [Submit False]))
         else (False, n, cs1 @ cs2 @ cs3))"

section \<open>The final pass\<close>

definition kFinalPassVertices :: "int list" where
  "kFinalPassVertices = [- 1, 1, 1, - 1, 1, 1, - 1, 1, - 1, - 1, 1, - 1]"

text \<open>The capture that the bank of video memory to be shown holds, \<open>- 1\<close> for none.\<close>

definition shown_capture :: "lcd \<Rightarrow> renderer \<Rightarrow> int" where
  "shown_capture l n =
     (let bank = fld (n_DispCntA n) 18 2 in
      if bit (n_AuxUsageMask n) 0 \<and> bit (lc_VRAMMap_LCDC l) bank then lc_CaptureBlock l (bank * 0x20000) else - 1)"

definition final_config_of :: "renderer \<Rightarrow> int \<Rightarrow> final_config \<Rightarrow> final_config" where
  "final_config_of n vramcap c =
     (let mode = fld (n_DispCntA n) 16 2;
          c1 = c\<lparr>fc_ScaleFactor := n_Scale n, fc_DispModeA := mode, fc_DispModeB := fld (n_DispCntB n) 16 1,
                 fc_BrightModeA := fld (n_MasterBrightnessA n) 14 2, fc_BrightModeB := fld (n_MasterBrightnessB n) 14 2,
                 fc_BrightFactorA := min (fld (n_MasterBrightnessA n) 0 5) 16, fc_BrightFactorB := min (fld (n_MasterBrightnessB n) 0 5) 16\<rparr>
      in if mode = 2 \<and> vramcap \<noteq> - 1 then c1\<lparr>fc_AuxLayer := nat vramcap div 4, fc_AuxColorFactor := 255 / 4\<rparr>
         else if mode \<ge> 2 then c1\<lparr>fc_AuxLayer := mode - 2, fc_AuxColorFactor := 62\<rparr>
         else c1)"

definition final_pass :: "nat \<Rightarrow> nat \<Rightarrow> renderer \<Rightarrow> calls" where
  "final_pass ystart yend n =
     [Rendering [(FPOutputTex (n_BackBuffer n), 0), (FPOutputTex (n_BackBuffer n), 1)] None,
      Viewport 0 0 (256 * n_Scale n) (192 * n_Scale n),
      Scissor 0 (int ystart * n_Scale n) (256 * n_Scale n) ((int yend - int ystart) * n_Scale n)]"

definition rend_RenderScreen :: "lcd \<Rightarrow> nat \<Rightarrow> nat \<Rightarrow> renderer \<Rightarrow> renderer \<times> calls" where
  "rend_RenderScreen l ystart yend n =
     (if yend \<le> ystart then (n, [])
      else
        let vramcap = shown_capture l n; n1 = n\<lparr>n_Aux0VRAMCap := vramcap\<rparr> in
        if \<not> gp_ScreensEnabled (lc_gpu l) then (n1, final_pass ystart yend n1 @ [ClearColour 0 [0, 0, 0, 1], ClearColour 1 [0, 0, 0, 1]])
        else
          let cfg = final_config_of n1 vramcap (n_FinalPassConfig n1); mode = fld (n_DispCntA n1) 16 2;
              up0 = (if bit (n_AuxUsageMask n1) 0 \<and> vramcap = - 1 then [Upload AuxInputTex 0 0 0 256 256 2] else []);
              up1 = (if bit (n_AuxUsageMask n1) 1 then [Upload AuxInputTex 1 0 0 256 192 2] else []);
              aux = (if mode = 2 \<and> vramcap \<noteq> - 1 then CaptureOutput256Tex else AuxInputTex)
          in (n1\<lparr>n_FinalPassConfig := cfg\<rparr>,
              up0 @ up1 @ final_pass ystart yend n1 @
              [DrawCall FinalPass
                 [TexArg 0 0 (tx (lc_A l) OutputTex) NearestClampEdge, TexArg 1 0 (tx (lc_B l) OutputTex) NearestClampEdge,
                  TexArg 2 0 aux NearestRepeat, UniArg 3 (UFinal cfg)]
                 0 kFinalPassVertices 6]))"

section \<open>Display capture\<close>

definition capture_size :: "u32 \<Rightarrow> nat \<times> nat" where
  "capture_size capcnt = (if fld capcnt 20 2 = 0 then (128, 128) else (256, 64 * fld capcnt 20 2))"

text \<open>Two triangles from destination rows \<open>ya\<close> to \<open>yb\<close>, showing source rows \<open>ta\<close> to \<open>tb\<close>.\<close>

definition capture_quad :: "int \<Rightarrow> int \<Rightarrow> int \<Rightarrow> int \<Rightarrow> int \<Rightarrow> int list" where
  "capture_quad w ya yb ta tb = [0, yb, 0, tb, w, ya, w, ta, w, yb, w, tb, 0, yb, 0, tb, 0, ya, 0, ta, w, ya, w, ta]"

definition capture_vertices :: "int \<Rightarrow> int \<Rightarrow> int \<Rightarrow> int \<Rightarrow> int \<Rightarrow> int \<Rightarrow> int list" where
  "capture_vertices w h y0 y1 t0 t1 =
     (if y1 > h then let t2 = t0 + (h - y0) in capture_quad w y0 h t0 t2 @ capture_quad w 0 (y1 - h) t2 t1
      else capture_quad w y0 y1 t0 t1)"

text \<open>The rows copied aside when the source is the bank captured into.\<close>

definition copy_rows :: "nat \<Rightarrow> int \<Rightarrow> int \<Rightarrow> calls" where
  "copy_rows bank y0 y1 = (if y1 \<le> y0 then [] else [Copy CaptureOutput256Tex CaptureVRAMTex (int bank) y0 y1])"

definition copy_aside :: "nat \<Rightarrow> int \<Rightarrow> int \<Rightarrow> calls" where
  "copy_aside bank y0 y1 = (if y1 > 256 then copy_rows bank y0 256 @ copy_rows bank 0 (y1 - 256) else copy_rows bank y0 y1)"

text \<open>The second source: texture, layer and colour factor, and what is copied for it.\<close>

definition capture_source_b :: "renderer \<Rightarrow> nat \<Rightarrow> nat \<Rightarrow> nat \<times> nat \<times> nat \<times> calls" where
  "capture_source_b n ystart yend =
     (let d = n_DispCntA n; c = n_CaptureCnt n; dstmode = fld c 29 2; evb = min (fld c 8 5) 16; block = fld d 18 2;
          off = (if fld d 16 2 = 2 then 0 else fld c 26 2); use_b = (dstmode = 1 \<or> dstmode = 2 \<and> evb > 0) in
      if use_b \<and> n_Aux0VRAMCap n \<noteq> - 1
      then if fld c 16 2 = block then (CaptureVRAMTex, 0, 255, copy_aside block (int (off * 64 + ystart)) (int (off * 64 + yend)))
           else (CaptureOutput256Tex, block, 255, [])
      else (AuxInputTex, fld c 25 1, 248, []))"

definition capture_target :: "u32 \<Rightarrow> nat \<times> nat" where
  "capture_target c =
     (if fld c 20 2 = 0 then (CaptureOutput128Tex, fld c 16 2 * 4 + fld c 18 2) else (CaptureOutput256Tex, fld c 16 2))"

definition DoCapture :: "lcd \<Rightarrow> nat \<Rightarrow> nat \<Rightarrow> renderer \<Rightarrow> renderer \<times> calls" where
  "DoCapture l ystart yend0 n =
     (let d = n_DispCntA n; c = n_CaptureCnt n; (w, h) = capture_size c; yend = min yend0 h; srcA = fld c 24 1; srcB = fld c 25 1;
          srcBoffset = (if fld d 16 2 = 2 then 0 else fld c 26 2) in
      if ystart \<ge> h \<or> yend \<le> ystart then (n, [])
      else
        let (texB, layerB, factorB, copies) = capture_source_b n ystart yend; (target, targetLayer) = capture_target c;
            cfg = (n_CaptureConfig n)\<lparr>cc_CaptureSize := (w, h), cc_SrcALayer := srcA, cc_SrcBOffset := (if srcB = 0 then 64 * srcBoffset else 0),
                    cc_SrcBLayer := layerB, cc_DstMode := fld c 29 2, cc_BlendFactors := (min (fld c 0 5) 16, min (fld c 8 5) 16),
                    cc_SrcBColorFactor := factorB\<rparr>;
            dstoff = (if fld c 20 2 = 0 then 0 else fld c 18 2); bufferheight = (if fld c 20 2 = 0 then 128 else 256);
            vs = capture_vertices (int w) bufferheight (int (dstoff * 64 + ystart)) (int (dstoff * 64 + yend)) (int ystart) (int yend);
            size = (if fld c 20 2 = 0 then 128 else 256) * n_Scale n
        in (n\<lparr>n_CaptureConfig := cfg\<rparr>,
            copies @
            [Rendering [(target, targetLayer)] None, Viewport 0 0 size size, Scissor 0 0 size size,
             DrawCall CaptureProgram
               [TexArg 0 0 (if srcA = 1 then OutputTex3D else tx (lc_A l) OutputTex) NearestClampBorder,
                TexArg 1 0 texB NearestRepeat, UniArg 2 (UCapture cfg)]
               0 vs (length vs div 4)]))"

section \<open>Lines\<close>

definition need_capture :: "lcd \<Rightarrow> renderer \<Rightarrow> bool" where
  "need_capture l n \<longleftrightarrow> gp_CaptureEnable (lc_gpu l) \<and> (n_CaptureCnt n XOR gp_CaptureCnt (lc_gpu l)) AND 0x7FFFFFFF \<noteq> 0"

definition need_render :: "lcd \<Rightarrow> renderer \<Rightarrow> bool" where
  "need_render l n \<longleftrightarrow>
     (n_DispCntA n XOR g_DispCnt (lc_A l)) AND 0xF0000 \<noteq> 0 \<or> (n_DispCntB n XOR g_DispCnt (lc_B l)) AND 0x10000 \<noteq> 0 \<or>
     n_MasterBrightnessA n \<noteq> gp_MasterBrightnessA (lc_gpu l) \<or> n_MasterBrightnessB n \<noteq> gp_MasterBrightnessB (lc_gpu l) \<or>
     need_capture l n"

text \<open>The console's registers are kept for the lines to come.\<close>

definition rend_take :: "lcd \<Rightarrow> nat \<Rightarrow> renderer \<Rightarrow> renderer" where
  "rend_take l line n =
     n\<lparr>n_DispCntA := g_DispCnt (lc_A l), n_DispCntB := g_DispCnt (lc_B l), n_MasterBrightnessA := gp_MasterBrightnessA (lc_gpu l),
       n_MasterBrightnessB := gp_MasterBrightnessB (lc_gpu l), n_CaptureCnt := gp_CaptureCnt (lc_gpu l),
       n_FinalPassConfig := (n_FinalPassConfig n)\<lparr>fc_ScreenSwap := (fc_ScreenSwap (n_FinalPassConfig n))[line := lc_ScreenSwap l]\<rparr>\<rparr>"

text \<open>The horizontal scroll of the 3D layer, of nine bits with sign, in steps of 1/256.\<close>

definition scroll_3d :: "u32 \<Rightarrow> int" where
  "scroll_3d xpos = (let x = int (fld xpos 0 9) in x - (if x \<ge> 256 then 512 else 0))"

definition note_scroll :: "lcd \<Rightarrow> nat \<Rightarrow> renderer \<Rightarrow> renderer" where
  "note_scroll l line n =
     (let c = gp_CaptureCnt (lc_gpu l); cfg = n_CaptureConfig n;
          x = (if fld c 24 1 = 0 then 0 else scroll_3d (gp_RenderXPos (lc_gpu l))) in
      if gp_CaptureEnable (lc_gpu l) \<and> fld c 29 2 \<noteq> 1 then n\<lparr>n_CaptureConfig := cfg\<lparr>cc_SrcAOffset := (cc_SrcAOffset cfg)[line := x]\<rparr>\<rparr> else n)"

definition put_words :: "nat \<Rightarrow> u16 list \<Rightarrow> u16 list \<Rightarrow> u16 list" where
  "put_words off xs buf = take off buf @ xs @ drop (off + length xs) buf"

definition note_vram :: "lcd \<Rightarrow> nat \<Rightarrow> renderer \<Rightarrow> renderer" where
  "note_vram l line n =
     (let d = g_DispCnt (lc_A l); c = gp_CaptureCnt (lc_gpu l); mode = fld d 16 2; bank = fld d 18 2;
          checkcap = (gp_CaptureEnable (lc_gpu l) \<and> fld c 29 2 \<noteq> 0);
          yoff = (if mode \<noteq> 2 then fld c 26 2 * 0x4000 else 0); off = (line * 256 + yoff) mod 0x10000;
          row = (if bit (lc_VRAMMap_LCDC l) bank then map (\<lambda>i. lc_VRAM l bank ! (off + i)) [0..<256] else replicate 256 0) in
      if mode = 2 \<or> checkcap \<and> fld c 25 1 = 0
      then n\<lparr>n_AuxUsageMask := n_AuxUsageMask n OR 1, n_AuxInputBuffer := (n_AuxInputBuffer n)[0 := put_words off row (n_AuxInputBuffer n ! 0)]\<rparr>
      else n)"

definition note_fifo :: "lcd \<Rightarrow> nat \<Rightarrow> renderer \<Rightarrow> renderer" where
  "note_fifo l line n =
     (let d = g_DispCnt (lc_A l); c = gp_CaptureCnt (lc_gpu l); checkcap = (gp_CaptureEnable (lc_gpu l) \<and> fld c 29 2 \<noteq> 0) in
      if fld d 16 2 = 3 \<or> checkcap \<and> fld c 25 1 = 1
      then n\<lparr>n_AuxUsageMask := n_AuxUsageMask n OR 2,
             n_AuxInputBuffer := (n_AuxInputBuffer n)[1 := put_words (line * 256) (take 256 (lc_DispFIFOBuffer l)) (n_AuxInputBuffer n ! 1)]\<rparr>
      else n)"

definition rend_DrawScanline :: "(nat \<Rightarrow> u64) \<Rightarrow> lcd \<Rightarrow> nat \<Rightarrow> renderer \<Rightarrow> lcd \<times> renderer \<times> calls" where
  "rend_DrawScanline junk l line n =
     (let rend = need_render l n; capt = need_capture l n;
          ((gp1, gA, a), cs1) = UpdateAndRender junk rend line (lc_gpu l, lc_A l, n_A n);
          ((gp2, gB, b), cs2) = UpdateAndRender junk rend line (gp1, lc_B l, n_B n);
          l1 = l\<lparr>lc_gpu := gp2, lc_A := gA, lc_B := gB\<rparr>; n1 = n\<lparr>n_NeedPartialRender := rend, n_A := a, n_B := b\<rparr>;
          (n2, cs3) = (if rend \<and> line > 0
                       then (case rend_RenderScreen l1 (n_LastLine n1) line n1 of (m, cs) \<Rightarrow> (m\<lparr>n_LastLine := line\<rparr>, cs)) else (n1, []));
          (n3, cs4) = (if capt \<and> line > 0
                       then (case DoCapture l1 (n_LastCapLine n2) line n2 of (m, cs) \<Rightarrow> (m\<lparr>n_LastCapLine := line\<rparr>, cs)) else (n2, []))
      in (l1, note_fifo l1 line (note_vram l1 line (note_scroll l1 line (rend_take l1 line n3))), cs1 @ cs2 @ cs3 @ cs4))"

definition rend_DrawSprites :: "lcd \<Rightarrow> nat \<Rightarrow> renderer \<Rightarrow> lcd \<times> renderer \<times> calls" where
  "rend_DrawSprites l line n =
     (let ((gp1, gA, a), cs1) = r2d_DrawSprites line (lc_gpu l, lc_A l, n_A n); ((gp2, gB, b), cs2) = r2d_DrawSprites line (gp1, lc_B l, n_B n)
      in (l\<lparr>lc_gpu := gp2, lc_A := gA, lc_B := gB\<rparr>, n\<lparr>n_A := a, n_B := b\<rparr>, cs1 @ cs2))"

definition rend_VBlank :: "lcd \<Rightarrow> renderer \<Rightarrow> renderer \<times> calls" where
  "rend_VBlank l n =
     (let (a, cs1) = r2d_VBlank (lc_A l) (n_A n); (b, cs2) = r2d_VBlank (lc_B l) (n_B n);
          (n1, cs3) = rend_RenderScreen l (n_LastLine n) 192 (n\<lparr>n_A := a, n_B := b\<rparr>);
          (n2, cs4) = (if gp_CaptureEnable (lc_gpu l) then DoCapture l (n_LastCapLine n1) 192 n1 else (n1, []))
      in (n2\<lparr>n_LastLine := 0, n_LastCapLine := 0\<rparr>, cs1 @ cs2 @ cs3 @ cs4))"

definition rend_VBlankEnd :: "renderer \<Rightarrow> renderer" where
  "rend_VBlankEnd n = n\<lparr>n_AuxUsageMask := 0\<rparr>"

text \<open>A new capture: both engines look at their layers and sprites again.\<close>

definition AllocCapture :: "renderer \<Rightarrow> renderer" where
  "AllocCapture n = n\<lparr>n_A := (n_A n)\<lparr>r_LayerConfigDirty := True, r_SpriteConfigDirty := True\<rparr>,
     n_B := (n_B n)\<lparr>r_LayerConfigDirty := True, r_SpriteConfigDirty := True\<rparr>\<rparr>"

definition GetFramebuffers :: "renderer \<Rightarrow> nat \<times> calls" where
  "GetFramebuffers n = (let front = FPOutputTex (if n_BackBuffer n = 0 then 1 else 0) in (front, [ExternalRead front, Submit False]))"

end
