(* ===== verification/GpuCapture.thy ===== *)
theory GpuCapture
  imports GpuScreen
begin

unbundle bit_operations_syntax

text \<open>
  Display captures: which rows of the capture's texture show which lines, and the way of a finished
  capture back into the console's video memory.
\<close>

section \<open>Into video memory\<close>

text \<open>A pixel of the downscaled capture in the console's format.\<close>

definition PackPixel :: "u32 \<Rightarrow> u16" where
  "PackPixel p =
     (let r = (fld p 0 8 * 31 + 127) div 255; g = (fld p 8 8 * 31 + 127) div 255; b = (fld p 16 8 * 31 + 127) div 255;
          a = (if fld p 24 8 \<noteq> 0 then 1 else 0 :: nat)
      in word_of_nat (r OR push_bit 5 g OR push_bit 10 b OR push_bit 15 a))"

definition PackCapture :: "u32 list \<Rightarrow> u16 list" where
  "PackCapture = map PackPixel"

definition DownscaleCapture :: "int \<Rightarrow> int \<Rightarrow> nat \<Rightarrow> calls" where
  "DownscaleCapture w h layer =
     [Rendering [(CaptureSyncTex, 0)] None, Viewport 0 0 w h, Scissor 0 0 w h,
      DrawCall CapDown [TexArg 0 0 (if w = 128 then CaptureOutput128Tex else CaptureOutput256Tex) NearestRepeat]
        (int layer) kRectVertices 6]"

text \<open>A bank of video memory, with its parts of 512 bytes that were written.\<close>

record bank =
  vb_words :: "u16 list"
  vb_dirty :: "bool list"

text \<open>The blocks from \<open>pos\<close> to \<open>e\<close>: a block is 64 rows of 256 words, and 64 parts.\<close>

definition put_blocks :: "nat \<Rightarrow> nat \<Rightarrow> u16 list \<Rightarrow> bank \<Rightarrow> bank" where
  "put_blocks pos e ws v =
     v\<lparr>vb_words := put_words (pos * 16384) ws (vb_words v),
       vb_dirty := map (\<lambda>j. pos * 64 \<le> j \<and> j < e * 64 \<or> vb_dirty v ! j) [0..<length (vb_dirty v)]\<rparr>"

text \<open>
  \<open>pixels w y h\<close> are the pixels that the GPU returns of \<open>h\<close> rows from row \<open>y\<close> on, \<open>w * h\<close> of them.  A start beyond the bank's four blocks
  does not occur: callers take it from two bits.
\<close>

function sync_blocks :: "(nat \<Rightarrow> nat \<Rightarrow> nat \<Rightarrow> u32 list) \<Rightarrow> nat \<Rightarrow> nat \<Rightarrow> nat \<Rightarrow> bank \<Rightarrow> bank \<times> calls" where
  "sync_blocks pixels len pos i v =
     (if i \<ge> len \<or> pos \<ge> 4 then (v, [])
      else
        let e = min (pos + len) 4; rows = (e - pos) * 64;
            v1 = put_blocks pos e (PackCapture (pixels 256 (pos * 64) rows)) v;
            (v2, cs) = sync_blocks pixels len ((pos + (e - pos)) mod 4) (i + (e - pos)) v1
        in (v2, Readback CaptureSyncTex 0 (int (pos * 64)) 256 (int rows) # cs))"
  by pat_completeness auto
termination by (relation "measure (\<lambda>(pixels, len, pos, i, v). len - i)") auto

declare sync_blocks.simps [simp del]

text \<open>A capture of 128 by 128 has its own texture and fits into one block.\<close>

definition SyncVRAMCapture :: "(nat \<Rightarrow> nat \<Rightarrow> nat \<Rightarrow> u32 list) \<Rightarrow> nat \<Rightarrow> nat \<Rightarrow> nat \<Rightarrow> bank \<Rightarrow> bank \<times> calls" where
  "SyncVRAMCapture pixels b start len v =
     (if len = 0
      then (put_blocks start (start + 1) (PackCapture (pixels 128 0 128)) v,
            DownscaleCapture 128 128 (b * 4 + start) @ [Readback CaptureSyncTex 0 0 128 128])
      else (case sync_blocks pixels len start 0 v of (v1, cs) \<Rightarrow> (v1, DownscaleCapture 256 256 b @ cs)))"

section \<open>Packing\<close>

text \<open>The value that an 8-bit normalised target holds for \<open>c\<close> of 31, rounded to the nearest.\<close>

definition unorm8 :: "nat \<Rightarrow> nat" where
  "unorm8 c = (c * 510 + 31) div 62"

lemma unorm8_back: "c < 32 \<Longrightarrow> (unorm8 c * 31 + 127) div 255 = c"
proof -
  assume "c < 32"
  then have "c \<in> set [0..<32]" by simp
  then show ?thesis unfolding unorm8_def by (simp add: upt_rec)
qed

lemma packed_parts:
  assumes "r < 32" "g < 32" "b < 32" "a < 2"
  shows "fld (word_of_nat (r OR push_bit 5 g OR push_bit 10 b OR push_bit 15 a) :: u16) 0 5 = r"
    "fld (word_of_nat (r OR push_bit 5 g OR push_bit 10 b OR push_bit 15 a) :: u16) 5 5 = g"
    "fld (word_of_nat (r OR push_bit 5 g OR push_bit 10 b OR push_bit 15 a) :: u16) 10 5 = b"
    "fld (word_of_nat (r OR push_bit 5 g OR push_bit 10 b OR push_bit 15 a) :: u16) 15 1 = a"
proof -
  let ?w = "word_of_nat (r OR push_bit 5 g OR push_bit 10 b OR push_bit 15 a) :: u16"
  have small: "take_bit 5 r = r" "take_bit 5 g = g" "take_bit 5 b = b" "take_bit 1 a = a"
    using assms by (simp_all add: take_bit_eq_mod)
  have bits: "bit r i \<Longrightarrow> i < 5" "bit g i \<Longrightarrow> i < 5" "bit b i \<Longrightarrow> i < 5" "bit a i \<Longrightarrow> i < 1" for i
    using small by (metis bit_take_bit_iff)+
  have w: "bit ?w i \<longleftrightarrow> i < 16 \<and> (bit r i \<or> 5 \<le> i \<and> bit g (i - 5) \<or> 10 \<le> i \<and> bit b (i - 10) \<or> 15 \<le> i \<and> bit a (i - 15))" for i
    by (simp add: bit_of_nat_iff bit_or_iff bit_push_bit_iff)
  have get: "fld ?w k m = x" if "\<And>i. i < m \<Longrightarrow> bit ?w (k + i) \<longleftrightarrow> bit x i" "take_bit m x = x" "k + m \<le> 16" for k m x
  proof -
    have "take_bit m (drop_bit k ?w) = take_bit m (word_of_nat x)"
      using that(1,3) by (auto simp: bit_eq_iff bit_take_bit_iff bit_drop_bit_eq bit_of_nat_iff)
    moreover have "unat (take_bit m (word_of_nat x :: u16)) = take_bit m x"
    proof -
      have "unat (take_bit m (word_of_nat x :: u16)) = take_bit m (unat (word_of_nat x :: u16))" by (rule unsigned_take_bit_eq)
      moreover have "unat (word_of_nat x :: u16) = take_bit 16 x" by (simp add: unat_of_nat take_bit_eq_mod)
      ultimately show ?thesis using that(3) by (simp add: take_bit_take_bit min_def)
    qed
    ultimately show ?thesis using that(2) by (simp add: fld_def)
  qed
  show "fld ?w 0 5 = r" by (rule get) (use small in \<open>auto simp: w dest: bits\<close>)
  show "fld ?w 5 5 = g" by (rule get) (use small in \<open>auto simp: w dest: bits\<close>)
  show "fld ?w 10 5 = b" by (rule get) (use small in \<open>auto simp: w dest: bits\<close>)
  show "fld ?w 15 1 = a" by (rule get) (use small in \<open>auto simp: w dest: bits\<close>)
qed

text \<open>
  A capture loses nothing on its way back: a pixel whose components were reduced to 5 bits comes out of
  the packing with these components, and the alpha bit set unless its alpha is 0.
\<close>

theorem capture_pixel_roundtrip:
  assumes "fld p 0 8 = unorm8 r" "fld p 8 8 = unorm8 g" "fld p 16 8 = unorm8 b" "r < 32" "g < 32" "b < 32"
  shows "fld (PackPixel p) 0 5 = r \<and> fld (PackPixel p) 5 5 = g \<and> fld (PackPixel p) 10 5 = b \<and> (fld (PackPixel p) 15 1 = 1 \<longleftrightarrow> fld p 24 8 \<noteq> 0)"
proof -
  define a where "a = (if fld p 24 8 \<noteq> 0 then 1 else 0 :: nat)"
  have "PackPixel p = word_of_nat (r OR push_bit 5 g OR push_bit 10 b OR push_bit 15 a)"
    unfolding PackPixel_def Let_def assms(1-3) a_def using assms(4-6) by (simp only: unorm8_back)
  moreover have "a < 2" by (simp add: a_def)
  ultimately show ?thesis using packed_parts [OF assms(4-6)] by (simp only:) (simp add: a_def)
qed

lemma capture_pixel_witness:
  "fld (PackPixel 0xFF08FF84) 0 5 = 16 \<and> fld (PackPixel 0xFF08FF84) 5 5 = 31 \<and> fld (PackPixel 0xFF08FF84) 10 5 = 1"
  using capture_pixel_roundtrip [of "0xFF08FF84" 16 31 1] by (simp add: fld_def unorm8_def)

section \<open>Syncing\<close>



text \<open>A capture that goes on at the bank's start writes one block too many: here blocks 0 and 1 instead of 0.\<close>

lemma sync_wrapped:
  "SyncVRAMCapture pixels b 3 2 v =
    (put_blocks 0 2 (PackCapture (pixels 256 0 128)) (put_blocks 3 4 (PackCapture (pixels 256 192 64)) v),
     DownscaleCapture 256 256 b @ [Readback CaptureSyncTex 0 192 256 64, Readback CaptureSyncTex 0 0 256 128])"
  by (simp add: SyncVRAMCapture_def sync_blocks.simps numeral_2_eq_2)

section \<open>Captured rows\<close>

text \<open>The rectangles of a draw, from the vertices: destination rows and source rows.\<close>

definition capture_parts :: "int list \<Rightarrow> (int \<times> int \<times> int \<times> int) list" where
  "capture_parts vs = map (\<lambda>k. (vs ! (24 * k + 5), vs ! (24 * k + 1), vs ! (24 * k + 7), vs ! (24 * k + 3))) [0..<length vs div 24]"

text \<open>The rows of the target, of height \<open>h\<close>, that a rectangle covers, each with the line it shows.\<close>

definition part_rows :: "int \<Rightarrow> int \<times> int \<times> int \<times> int \<Rightarrow> (int \<times> int) set" where
  "part_rows h p = (case p of (ya, yb, ta, tb) \<Rightarrow> {(y, ta + (y - ya)) |y. 0 \<le> y \<and> y < h \<and> min ya yb \<le> y \<and> y < max ya yb})"

definition captured :: "int \<Rightarrow> int list \<Rightarrow> (int \<times> int) set" where
  "captured h vs = (\<Union>p \<in> set (capture_parts vs). part_rows h p)"

lemma quad_parts:
  "capture_parts (capture_quad w ya yb ta tb) = [(ya, yb, ta, tb)]"
  "capture_parts (capture_quad w ya yb ta tb @ capture_quad w' yc yd tc td) = [(ya, yb, ta, tb), (yc, yd, tc, td)]"
  by (simp_all add: capture_parts_def capture_quad_def upt_rec)

text \<open>
  C30: Capturing lines \<open>t0\<close> to \<open>t1\<close> into a target of \<open>h\<close> rows, starting inside it: each line goes to its own
  row, and the rows go on at the target's start.
\<close>

theorem capture_rows:
  assumes "0 \<le> off" "off + t0 < h" "0 \<le> t0" "t0 < t1" "t1 - t0 \<le> h"
  shows "captured h (capture_vertices w h (off + t0) (off + t1) t0 t1) = {((off + t) mod h, t) |t. t0 \<le> t \<and> t < t1}"
proof (cases "off + t1 > h")
  case False
  then have "captured h (capture_vertices w h (off + t0) (off + t1) t0 t1) = part_rows h (off + t0, off + t1, t0, t1)"
    by (simp add: captured_def capture_vertices_def quad_parts)
  also have "\<dots> = {((off + t) mod h, t) |t. t0 \<le> t \<and> t < t1}"
  proof (intro set_eqI iffI)
    fix x assume "x \<in> part_rows h (off + t0, off + t1, t0, t1)"
    then obtain y where "x = (y, y - off)" "off + t0 \<le> y" "y < off + t1" "0 \<le> y" "y < h"
      using assms(4) by (auto simp: part_rows_def min_def max_def)
    then show "x \<in> {((off + t) mod h, t) |t. t0 \<le> t \<and> t < t1}" by (intro CollectI exI [of _ "y - off"]) simp
  next
    fix x assume "x \<in> {((off + t) mod h, t) |t. t0 \<le> t \<and> t < t1}"
    then obtain t where "x = ((off + t) mod h, t)" "t0 \<le> t" "t < t1" by blast
    with False assms show "x \<in> part_rows h (off + t0, off + t1, t0, t1)" by (auto simp: part_rows_def intro!: exI [of _ "off + t"])
  qed
  finally show ?thesis .
next
  case True
  then have "captured h (capture_vertices w h (off + t0) (off + t1) t0 t1) =
      part_rows h (off + t0, h, t0, h - off) \<union> part_rows h (0, off + t1 - h, h - off, t1)"
    by (simp add: captured_def capture_vertices_def quad_parts Let_def)
  also have "\<dots> = {((off + t) mod h, t) |t. t0 \<le> t \<and> t < t1}"
  proof (intro set_eqI iffI)
    fix x assume "x \<in> part_rows h (off + t0, h, t0, h - off) \<union> part_rows h (0, off + t1 - h, h - off, t1)"
    then consider y where "x = (y, y - off)" "off + t0 \<le> y" "y < h" | y where "x = (y, h - off + y)" "0 \<le> y" "y < off + t1 - h"
      using assms(2) True by (auto simp: part_rows_def)
    then show "x \<in> {((off + t) mod h, t) |t. t0 \<le> t \<and> t < t1}"
    proof cases
      case 1
      with assms True show ?thesis by (intro CollectI exI [of _ "y - off"]) simp
    next
      case 2
      then have "(off + (h - off + y)) mod h = y" using assms by simp
      with 2 assms show ?thesis by (intro CollectI exI [of _ "h - off + y"]) simp
    qed
  next
    fix x assume "x \<in> {((off + t) mod h, t) |t. t0 \<le> t \<and> t < t1}"
    then obtain t where t: "x = ((off + t) mod h, t)" "t0 \<le> t" "t < t1" by blast
    show "x \<in> part_rows h (off + t0, h, t0, h - off) \<union> part_rows h (0, off + t1 - h, h - off, t1)"
    proof (cases "off + t < h")
      case True
      with t assms show ?thesis by (auto simp: part_rows_def intro!: exI [of _ "off + t"])
    next
      case False
      then have "0 \<le> off + t - h" "off + t - h < h" using t assms by linarith+
      then have "(off + t) mod h = off + t - h" by (metis minus_mod_self2 mod_pos_pos_trivial)
      with False t assms show ?thesis by (auto simp: part_rows_def intro!: exI [of _ "off + t - h"])
    qed
  qed
  finally show ?thesis .
qed

lemma capture_rows_witness:
  "captured 256 (capture_vertices 256 256 (128 + 100) (128 + 192) 100 192) = {((128 + t) mod 256, t) |t. 100 \<le> t \<and> t < 192}"
  by (rule capture_rows) simp_all

text \<open>
  Starting beyond the target's last row, which happens when the register changes in the middle of a
  capture that goes on at the target's start: lines before the range are drawn over again, with the
  settings of now.
\<close>

lemma capture_redraws: "(0, 64) \<in> captured 256 (capture_vertices 256 256 (192 + 100) (192 + 192) 100 192)"
  by (simp add: captured_def capture_vertices_def Let_def quad_parts part_rows_def)

end
