(* ===== verification/GpuFrame.thy ===== *)
theory GpuFrame
  imports GpuCapture
begin

unbundle bit_operations_syntax

text \<open>
  Everything the renderer of the screens does in a frame, on the command layer: all calls are well typed,
  fit into the upload ring, and keep the layer in its rules.
\<close>

section \<open>Blocks of the renderer\<close>

inductive rend_blocks :: "calls \<Rightarrow> bool" where
  engine: "blocks cs \<Longrightarrow> rend_blocks cs"
| append: "rend_blocks cs \<Longrightarrow> rend_blocks ds \<Longrightarrow> rend_blocks (cs @ ds)"
| final: "rend_blocks (snd (rend_RenderScreen l ys ye n))"
| capture: "rend_blocks (snd (DoCapture l ys ye n))"

lemma rend_none: "rend_blocks []"
  by (intro rend_blocks.engine blocks.none)

lemma capture_vertices_length: "length (capture_vertices w h y0 y1 t0 t1) = (if y1 > h then 48 else 24)"
  by (simp add: capture_vertices_def capture_quad_def Let_def)

lemma copies_all:
  assumes "capture_source_b n ys ye = (t, layer, f, cs)"
  shows "fits a cs" "calls_typed st cs"
  using assms by (auto simp: capture_source_b_def copy_aside_def copy_rows_def Let_def split: if_splits)

text \<open>The forms that the calls of the final pass and of a capture take.\<close>

lemma final_cases:
  obtains (none) "snd (rend_RenderScreen l ys ye n) = []"
  | (blank) n1 where "snd (rend_RenderScreen l ys ye n) = final_pass ys ye n1 @ [ClearColour 0 [0, 0, 0, 1], ClearColour 1 [0, 0, 0, 1]]"
  | (draw) b0 b1 n1 t0 t1 t2 cfg where "snd (rend_RenderScreen l ys ye n) =
      (if b0 then [Upload AuxInputTex 0 0 0 256 256 2] else []) @ (if b1 then [Upload AuxInputTex 1 0 0 256 192 2] else []) @
      final_pass ys ye n1 @
      [DrawCall FinalPass [TexArg 0 0 t0 NearestClampEdge, TexArg 1 0 t1 NearestClampEdge, TexArg 2 0 t2 NearestRepeat, UniArg 3 (UFinal cfg)]
         0 kFinalPassVertices 6]"
proof -
  consider "ye \<le> ys" | "\<not> ye \<le> ys" "\<not> gp_ScreensEnabled (lc_gpu l)" | "\<not> ye \<le> ys" "gp_ScreensEnabled (lc_gpu l)" by blast
  then show thesis
  proof cases
    case 3
    then show thesis by (intro draw) (simp only: rend_RenderScreen_def Let_def if_False not_True_eq_False snd_conv)
  qed (use none blank in \<open>simp_all add: rend_RenderScreen_def Let_def\<close>)
qed

lemma capture_cases:
  obtains (none) "snd (DoCapture l ys ye n) = []"
  | (draw) ye' t layer f cs target tl size x cfg w h y0 y1 a b where "capture_source_b n ys ye' = (t, layer, f, cs)"
    "snd (DoCapture l ys ye n) = cs @
      [Rendering [(target, tl)] None, Viewport 0 0 size size, Scissor 0 0 size size,
       DrawCall CaptureProgram [TexArg 0 0 x NearestClampBorder, TexArg 1 0 t NearestRepeat, UniArg 2 (UCapture cfg)]
         0 (capture_vertices w h y0 y1 a b) (length (capture_vertices w h y0 y1 a b) div 4)]"
proof -
  obtain w h where wh: "capture_size (n_CaptureCnt n) = (w, h)" by force
  obtain t layer f cs where b: "capture_source_b n ys (min ye h) = (t, layer, f, cs)" by (metis surj_pair)
  obtain target tl where t: "capture_target (n_CaptureCnt n) = (target, tl)" by force
  show thesis
  proof (cases "h \<le> ys \<or> min ye h \<le> ys")
    case True
    then show thesis by (intro none) (simp add: DoCapture_def wh Let_def)
  next
    case False
    then show thesis by (intro draw [OF b]) (simp only: DoCapture_def wh b t Let_def prod.case if_False snd_conv)
  qed
qed

lemma rend_fit:
  assumes "rend_blocks cs" "0 < a" "a \<le> 256"
  shows "fits a cs"
  using assms(1)
proof induction
  case (final l ys ye n)
  show ?case
  proof (cases rule: final_cases [of l ys ye n])
    case (draw b0 b1 n1 t0 t1 t2 cfg)
    then show ?thesis
      by (simp add: final_pass_def kRingSize_def draw_fits [OF assms(2,3)] kFinalPassVertices_def value_bytes_def del: call_fits.simps(1))
  qed (auto simp: final_pass_def)
next
  case (capture l ys ye n)
  show ?case
  proof (cases rule: capture_cases [of l ys ye n])
    case (draw ye' t layer f cs target tl size x cfg w h y0 y1 a' b)
    then show ?thesis
      by (simp add: copies_all(1) draw_fits [OF assms(2,3)] capture_vertices_length value_bytes_def del: call_fits.simps(1))
  qed simp
qed (simp_all add: blocks_fit assms(2,3))

lemma rend_typed: "rend_blocks cs \<Longrightarrow> calls_typed st cs"
proof (induction arbitrary: st rule: rend_blocks.induct)
  case (append cs ds)
  then show ?case by (simp add: calls_typed_append)
next
  case (final l ys ye n)
  show ?case
  proof (cases rule: final_cases [of l ys ye n])
    case (draw b0 b1 n1 t0 t1 t2 cfg)
    then show ?thesis
      by (simp add: final_pass_def draw_typed_def slots arg_slot_def program_pass_def kFinalPassVertices_def value_bytes_def vertex_stride_def)
  qed (auto simp: final_pass_def)
next
  case (capture l ys ye n)
  show ?case
  proof (cases rule: capture_cases [of l ys ye n])
    case (draw ye' t layer f cs target tl size x cfg w h y0 y1 a' b)
    then show ?thesis
      by (simp add: calls_typed_append copies_all(2) draw_typed_def slots arg_slot_def program_pass_def capture_vertices_length
        value_bytes_def vertex_stride_def)
  qed simp
qed (simp_all add: blocks_typed)

section \<open>A frame\<close>

text \<open>The console before the sprites of line \<open>k\<close> are noted and when the line is drawn; and at the end of the frame.\<close>

fun rend_lines :: "(nat \<Rightarrow> u64) \<Rightarrow> (nat \<Rightarrow> lcd \<times> lcd) \<Rightarrow> nat \<Rightarrow> renderer \<Rightarrow> renderer \<times> calls" where
  "rend_lines junk con 0 n = (n, [])"
| "rend_lines junk con (Suc k) n =
     (let (n1, cs1) = rend_lines junk con k n; (l2, n2, cs2) = rend_DrawSprites (fst (con k)) k n1;
          (l3, n3, cs3) = rend_DrawScanline junk (snd (con k)) k n2
      in (n3, cs1 @ cs2 @ cs3))"

definition rend_frame :: "(nat \<Rightarrow> u64) \<Rightarrow> (nat \<Rightarrow> lcd \<times> lcd) \<Rightarrow> renderer \<Rightarrow> renderer \<times> calls" where
  "rend_frame junk con n =
     (let (n1, cs1) = rend_lines junk con 192 n; (n2, cs2) = rend_VBlank (snd (con 192)) n1; n3 = rend_VBlankEnd n2
      in (n3, cs1 @ cs2 @ snd (GetFramebuffers n3)))"

definition tables_ok :: "renderer \<Rightarrow> bool" where
  "tables_ok n \<longleftrightarrow> table_ok (n_A n) \<and> table_ok (n_B n)"

lemma engines_kept:
  "n_A (fst (rend_RenderScreen l ys ye n)) = n_A n" "n_B (fst (rend_RenderScreen l ys ye n)) = n_B n"
  "n_A (fst (DoCapture l ys ye n)) = n_A n" "n_B (fst (DoCapture l ys ye n)) = n_B n"
  by (simp_all add: rend_RenderScreen_def DoCapture_def Let_def split_def)

lemma notes_kept:
  "n_A (note_fifo l k n) = n_A n" "n_B (note_fifo l k n) = n_B n" "n_A (note_vram l k n) = n_A n" "n_B (note_vram l k n) = n_B n"
  "n_A (note_scroll l k n) = n_A n" "n_B (note_scroll l k n) = n_B n" "n_A (rend_take l k n) = n_A n" "n_B (rend_take l k n) = n_B n"
  by (simp_all add: note_fifo_def note_vram_def note_scroll_def rend_take_def Let_def)

lemma sprites_step:
  assumes "rend_DrawSprites l k n = (l', n', cs)" "tables_ok n"
  shows "tables_ok n' \<and> rend_blocks cs"
proof -
  obtain gp1 gA a cs1 where a: "r2d_DrawSprites k (lc_gpu l, lc_A l, n_A n) = ((gp1, gA, a), cs1)" by (metis surj_pair)
  obtain gp2 gB b cs2 where b: "r2d_DrawSprites k (gp1, lc_B l, n_B n) = ((gp2, gB, b), cs2)" by (metis surj_pair)
  have "table_ok (n_A n)" "table_ok (n_B n)" using assms(2) by (simp_all add: tables_ok_def)
  with table_DrawSprites [OF a] table_DrawSprites [OF b] assms(1) show ?thesis
    by (auto simp: rend_DrawSprites_def a b tables_ok_def intro: rend_blocks.append rend_blocks.engine)
qed

lemma scanline_step:
  assumes "rend_DrawScanline junk l k n = (l', n', cs)" "tables_ok n"
  shows "tables_ok n' \<and> rend_blocks cs"
proof -
  let ?rend = "need_render l n"
  obtain gp1 gA a cs1 where a: "UpdateAndRender junk ?rend k (lc_gpu l, lc_A l, n_A n) = ((gp1, gA, a), cs1)" by (metis surj_pair)
  obtain gp2 gB b cs2 where b: "UpdateAndRender junk ?rend k (gp1, lc_B l, n_B n) = ((gp2, gB, b), cs2)" by (metis surj_pair)
  define l1 n1 where ln: "l1 = l\<lparr>lc_gpu := gp2, lc_A := gA, lc_B := gB\<rparr>" "n1 = n\<lparr>n_NeedPartialRender := ?rend, n_A := a, n_B := b\<rparr>"
  define s where "s = (if ?rend \<and> k > 0 then (case rend_RenderScreen l1 (n_LastLine n1) k n1 of (m, cs) \<Rightarrow> (m\<lparr>n_LastLine := k\<rparr>, cs)) else (n1, []))"
  define c where "c = (if need_capture l n \<and> k > 0
      then (case DoCapture l1 (n_LastCapLine (fst s)) k (fst s) of (m, cs) \<Rightarrow> (m\<lparr>n_LastCapLine := k\<rparr>, cs)) else (fst s, []))"
  have out: "n' = note_fifo l1 k (note_vram l1 k (note_scroll l1 k (rend_take l1 k (fst c))))" "cs = cs1 @ cs2 @ snd s @ snd c"
    using assms(1) unfolding rend_DrawScanline_def Let_def a b prod.case ln [symmetric] s_def [symmetric] c_def
    by (auto split: prod.splits)
  have ab: "table_ok a" "table_ok b" "blocks cs1" "blocks cs2"
    using table_update [OF a] table_update [OF b] assms(2) by (simp_all add: tables_ok_def)
  have s: "n_A (fst s) = a" "n_B (fst s) = b" "rend_blocks (snd s)"
    using engines_kept(1,2) [of l1 "n_LastLine n1" k n1] rend_blocks.final [of l1 "n_LastLine n1" k n1]
    by (auto simp: s_def ln(2) rend_none split: prod.split)
  have c: "n_A (fst c) = a" "n_B (fst c) = b" "rend_blocks (snd c)"
    using engines_kept(3,4) [of l1 "n_LastCapLine (fst s)" k "fst s"] rend_blocks.capture [of l1 "n_LastCapLine (fst s)" k "fst s"] s
    by (auto simp: c_def rend_none split: prod.split)
  show ?thesis using ab s(3) c by (auto simp: out tables_ok_def notes_kept intro: rend_blocks.append rend_blocks.engine)
qed

lemma lines_step: "rend_lines junk con k n = (n', cs) \<Longrightarrow> tables_ok n \<Longrightarrow> tables_ok n' \<and> rend_blocks cs"
proof (induction k arbitrary: n' cs)
  case (Suc k)
  obtain n1 cs1 where 1: "rend_lines junk con k n = (n1, cs1)" by force
  obtain l2 n2 cs2 where 2: "rend_DrawSprites (fst (con k)) k n1 = (l2, n2, cs2)" by (metis surj_pair)
  obtain l3 n3 cs3 where 3: "rend_DrawScanline junk (snd (con k)) k n2 = (l3, n3, cs3)" by (metis surj_pair)
  have out: "n' = n3" "cs = cs1 @ cs2 @ cs3" using Suc.prems(1) by (auto simp: 1 2 3)
  show ?case using Suc.IH [OF 1 Suc.prems(2)] sprites_step [OF 2] scanline_step [OF 3] by (auto simp: out intro: rend_blocks.append)
qed (simp add: rend_none)

lemma vblank_step:
  assumes "rend_VBlank l n = (n', cs)" "tables_ok n"
  shows "tables_ok n' \<and> rend_blocks cs"
proof -
  obtain a cs1 where a: "r2d_VBlank (lc_A l) (n_A n) = (a, cs1)" by force
  obtain b cs2 where b: "r2d_VBlank (lc_B l) (n_B n) = (b, cs2)" by force
  define s where "s = rend_RenderScreen l (n_LastLine n) 192 (n\<lparr>n_A := a, n_B := b\<rparr>)"
  define c where "c = (if gp_CaptureEnable (lc_gpu l) then DoCapture l (n_LastCapLine (fst s)) 192 (fst s) else (fst s, []))"
  have out: "n' = (fst c)\<lparr>n_LastLine := 0, n_LastCapLine := 0\<rparr>" "cs = cs1 @ cs2 @ snd s @ snd c"
    using assms(1) unfolding rend_VBlank_def Let_def a b prod.case s_def [symmetric] c_def by (auto split: prod.splits)
  have ab: "table_ok a" "table_ok b" "blocks cs1" "blocks cs2"
    using table_VBlank [OF a] table_VBlank [OF b] assms(2) by (simp_all add: tables_ok_def)
  have s: "n_A (fst s) = a" "n_B (fst s) = b" "rend_blocks (snd s)" unfolding s_def by (simp_all add: engines_kept rend_blocks.final)
  then have c: "n_A (fst c) = a" "n_B (fst c) = b" "rend_blocks (snd c)" by (simp_all add: c_def engines_kept rend_blocks.capture rend_none)
  show ?thesis using ab s(3) c by (auto simp: out tables_ok_def intro: rend_blocks.append rend_blocks.engine)
qed

lemma frame_blocks:
  assumes "tables_ok n"
  shows "tables_ok (fst (rend_frame junk con n)) \<and> (\<exists>cs front. rend_blocks cs \<and> snd (rend_frame junk con n) = cs @ [ExternalRead front, Submit False])"
proof -
  obtain n1 cs1 where 1: "rend_lines junk con 192 n = (n1, cs1)" by force
  obtain n2 cs2 where 2: "rend_VBlank (snd (con 192)) n1 = (n2, cs2)" by force
  have ok: "tables_ok n2" "rend_blocks (cs1 @ cs2)"
    using lines_step [OF 1 assms] vblank_step [OF 2] by (auto intro: rend_blocks.append)
  have "tables_ok (rend_VBlankEnd n2)" using ok(1) by (simp add: tables_ok_def rend_VBlankEnd_def)
  with ok(2) show ?thesis by (auto simp: rend_frame_def 1 2 GetFramebuffers_def Let_def intro!: exI [of _ "cs1 @ cs2"])
qed

text \<open>
  C22: Every call of a frame is well typed: each draw binds exactly what its program takes, with as many
  vertices as it says, in a pass of the number and kind of attachments its pipeline was made for; and
  no clear, viewport or scissor is set outside a pass.
\<close>

theorem frame_well_typed:
  assumes "tables_ok n"
  shows "calls_typed st (snd (rend_frame junk con n)) \<and> tables_ok (fst (rend_frame junk con n))"
  using frame_blocks [OF assms, of junk con] by (auto simp: calls_typed_append rend_typed)

text \<open>
  C23: A frame keeps the command layer in its rules: whatever the console does between the lines, each call
  fits into the upload ring, so that the layer's guarantees hold for all that the frame draws.
\<close>

theorem frame_calls_fit:
  assumes "tables_ok n" "0 < a" "a \<le> 256" "stream_reach s"
  shows "stream_reach (run_calls usize a full ok (snd (rend_frame junk con n)) s)"
proof -
  obtain cs front where cs: "rend_blocks cs" "snd (rend_frame junk con n) = cs @ [ExternalRead front, Submit False]"
    using frame_blocks [OF assms(1), of junk con] by blast
  have "\<forall>c \<in> set (snd (rend_frame junk con n)). call_fits usize a c"
    using rend_fit [OF cs(1) assms(2,3)] by (auto simp: fits_def cs(2))
  then show ?thesis by (rule run_calls_reach [OF assms(4,2)])
qed

definition demo_screen :: renderer where
  "demo_screen = \<lparr>n_Scale = 1, n_BackBuffer = 0, n_AuxUsageMask = 0, n_DispCntA = 0, n_DispCntB = 0, n_MasterBrightnessA = 0,
     n_MasterBrightnessB = 0, n_CaptureCnt = 0, n_NeedPartialRender = False, n_LastLine = 0, n_LastCapLine = 0, n_Aux0VRAMCap = - 1,
     n_FinalPassConfig = final_zero, n_CaptureConfig = capture_zero, n_AuxInputBuffer = [replicate 65536 0, replicate 49152 0],
     n_A = demo_renderer, n_B = demo_renderer\<rparr>"

lemma demo_tables: "tables_ok demo_screen"
  by (simp add: tables_ok_def table_ok_def demo_screen_def demo_renderer_def r2d_Reset_def)

lemma frame_well_typed_witness: "\<forall>junk con. calls_typed None (snd (rend_frame junk con demo_screen))"
  using frame_well_typed [OF demo_tables] by blast

lemma frame_calls_fit_witness:
  "\<forall>junk con. stream_reach (run_calls usize 256 False True (snd (rend_frame junk con demo_screen)) stream_new)"
  using frame_calls_fit [OF demo_tables, of 256 stream_new] by (simp add: stream_reach.intros)

end
