(* ===== verification/Gpu3DSpans.thy ===== *)
theory Gpu3DSpans
  imports Gpu2DRender "HOL-Library.Signed_Division"
begin

unbundle bit_operations_syntax

text \<open>
  The 3D renderer of the DS, class \<^verbatim>\<open>VulkanCompute3D\<close> of \<^verbatim>\<open>vk/GPU3D_Vulkan.cpp\<close>, first part: the edges of
  the polygons.  For each row of a polygon the renderer says which edge is on its left and which on its
  right, with the slopes that the shaders interpolate along.
\<close>

section \<open>Polygons\<close>

text \<open>
  What the renderer reads of a polygon of the emulated console.  The whole numbers of 32 bits with sign
  are integers; \<open>Gpu3DRows.edge_in_range\<close> shows that those of the slopes do not overflow.
\<close>

record vertex3 =
  v_FinalPosition :: "int \<times> int"
  v_HiresPosition :: "int \<times> int"
  v_FinalColor :: "int list"
  v_TexCoords :: "int \<times> int"

record polygon =
  p_Vertices :: "vertex3 list"
  p_VTop :: nat
  p_VBottom :: nat
  p_FacingView :: bool
  p_FinalZ :: "int list"
  p_FinalW :: "int list"
  p_WBuffer :: bool
  p_IsShadowMask :: bool
  p_Attr :: u32
  p_TexParam :: u32
  p_TexPalette :: u32

record span_y =
  sy_Z :: "int \<times> int"
  sy_W :: "int \<times> int"
  sy_Color :: "int list \<times> int list"
  sy_Texcoord :: "(int \<times> int) \<times> (int \<times> int)"
  sy_I :: "int \<times> int"
  sy_Linear :: bool
  sy_IRecip :: int
  sy_W0n :: int
  sy_W0d :: int
  sy_W1d :: int
  sy_Increment :: int
  sy_X :: "int \<times> int"
  sy_Y :: "int \<times> int"
  sy_XMin :: int
  sy_XMax :: int
  sy_DxInitial :: int
  sy_XCovIncr :: int
  sy_IsDummy :: bool

text \<open>The extent of a polygon, of the record \<^verbatim>\<open>RenderPolygon\<close>: its left and right ends with their rows.\<close>

record extent =
  x_XMin :: int
  x_XMax :: int
  x_XMinY :: int
  x_XMaxY :: int

section \<open>One edge\<close>

type_synonym positions = "nat \<Rightarrow> int \<times> int"

definition attrs_at :: "polygon \<Rightarrow> nat \<Rightarrow> int \<times> int \<times> int list \<times> (int \<times> int)" where
  "attrs_at p v = (p_FinalZ p ! v, p_FinalW p ! v, v_FinalColor (p_Vertices p ! v), v_TexCoords (p_Vertices p ! v))"

definition SetupAttrs :: "polygon \<Rightarrow> nat \<Rightarrow> nat \<Rightarrow> span_y \<Rightarrow> span_y" where
  "SetupAttrs p f t s =
     (let (z0, w0, c0, t0) = attrs_at p f; (z1, w1, c1, t1) = attrs_at p t
      in s\<lparr>sy_Z := (z0, z1), sy_W := (w0, w1), sy_Color := (c0, c1), sy_Texcoord := (t0, t1)\<rparr>)"

text \<open>The extent after an edge from \<open>xmin\<close> at row \<open>ymin\<close> to \<open>xmax\<close> at row \<open>ymax\<close>.\<close>

definition widen :: "int \<Rightarrow> int \<Rightarrow> int \<Rightarrow> int \<Rightarrow> extent \<Rightarrow> extent" where
  "widen xmin ymin xmax ymax e =
     (let e1 = (if xmin < x_XMin e then e\<lparr>x_XMin := xmin, x_XMinY := ymin\<rparr> else e)
      in if xmax > x_XMax e1 then e1\<lparr>x_XMax := xmax, x_XMaxY := ymax\<rparr> else e1)"

text \<open>A polygon of no height: a single row, from a vertex; \<open>side\<close> is the right one.  The fields not set keep their old contents.\<close>

definition SetupYSpanDummy :: "polygon \<Rightarrow> nat \<Rightarrow> bool \<Rightarrow> positions \<Rightarrow> extent \<times> span_y \<Rightarrow> extent \<times> span_y" where
  "SetupYSpanDummy p v side pos st =
     (case st of (e, s) \<Rightarrow>
        let x0 = fst (pos v) - (if side then 1 else 0); y = snd (pos v) in
        (widen x0 y x0 y e,
         SetupAttrs p v v
           (s\<lparr>sy_DxInitial := (if side then - 0x40000 else 0), sy_X := (x0, x0), sy_XMin := x0, sy_XMax := x0, sy_Y := (y, y),
              sy_Increment := 0, sy_I := (0, 0), sy_IRecip := 0, sy_Linear := True, sy_XCovIncr := 0, sy_IsDummy := True\<rparr>)))"

text \<open>The columns of an edge and the rows of its two ends.\<close>

definition edge_columns :: "bool \<Rightarrow> int \<times> int \<Rightarrow> int \<times> int \<Rightarrow> int \<times> int \<times> int \<times> int" where
  "edge_columns side a b =
     (case (a, b) of ((x0, y0), (x1, y1)) \<Rightarrow>
        if x1 > x0 then (x0, x1 - 1, y0, y1)
        else if x1 < x0 then (x1, x0 - 1, y1, y0)
        else let x = x0 - (if side then 1 else 0) in (x, x, y0, y0))"

text \<open>The slope, of 18 fractional bits: the reciprocal of the height times the width.\<close>

definition slope :: "int \<Rightarrow> int \<Rightarrow> int \<Rightarrow> int" where
  "slope dx xlen ylen = (if ylen = 0 then 0 else if ylen = xlen then 0x40000 else \<bar>dx * (0x40000 sdiv ylen)\<bar>)"

definition dx_initial :: "bool \<Rightarrow> bool \<Rightarrow> int \<Rightarrow> int" where
  "dx_initial side negative incr =
     (if side
      then if incr > 0x40000 then (if negative then 0x20000 + 0x40000 else incr - 0x20000)
           else if incr \<noteq> 0 then (if negative then 0x40000 else 0) else - 0x40000
      else if incr > 0x40000 then (if negative then incr - 0x20000 + 0x40000 else 0x20000)
           else if incr \<noteq> 0 then (if negative then 0x40000 else 0) else 0)"

definition SetupYSpan :: "polygon \<Rightarrow> nat \<Rightarrow> nat \<Rightarrow> bool \<Rightarrow> positions \<Rightarrow> extent \<times> span_y \<Rightarrow> extent \<times> span_y" where
  "SetupYSpan p f t side pos st =
     (case st of (e, s) \<Rightarrow>
        let (x0, y0) = pos f; (x1, y1) = pos t; s1 = SetupAttrs p f t s; (w0, w1) = sy_W s1;
            (xmin, xmax, miny, maxy) = edge_columns side (x0, y0) (x1, y1); negative = x1 < x0;
            xlen = xmax + 1 - xmin; ylen = y1 - y0; incr = slope (x1 - x0) xlen ylen; xmajor = incr > 0x40000;
            (i0, i1) = (if xmajor then if side then (x0 - 1, x1 - 1) else (x0, x1) else (y0, y1));
            odd0 = (w0 AND 1 \<noteq> 0 \<and> w1 AND 1 = 0)
        in (widen xmin miny xmax maxy e,
            s1\<lparr>sy_X := (x0, x1), sy_Y := (y0, y1), sy_XMin := xmin, sy_XMax := xmax, sy_IsDummy := False, sy_Increment := incr,
               sy_DxInitial := dx_initial side negative incr, sy_I := (i0, i1),
               sy_XCovIncr := (if xmajor then (ylen * 1024) sdiv xlen else sy_XCovIncr s1),
               sy_IRecip := (if i0 \<noteq> i1 then 0x40000000 sdiv (i1 - i0) else 0),
               sy_Linear := (w0 = w1 \<and> w0 AND 0x7E = 0 \<and> w1 AND 0x7E = 0),
               sy_W0n := (if odd0 then (w0 - 1) div 2 else w0 div 2), sy_W0d := (if odd0 then (w0 + 1) div 2 else w0 div 2),
               sy_W1d := w1 div 2\<rparr>))"

section \<open>The rows of a polygon\<close>

text \<open>The next vertex around the polygon, of \<open>n\<close> vertices, upwards or downwards in their numbers.\<close>

definition next_vertex :: "bool \<Rightarrow> nat \<Rightarrow> nat \<Rightarrow> nat" where
  "next_vertex up n v = (if up then if v + 1 \<ge> n then 0 else v + 1 else if v = 0 then n - 1 else v - 1)"

text \<open>One side: the edge's two vertices.  Edges that end above row \<open>y\<close> are left behind, up to the bottom vertex.\<close>

partial_function (option) walk :: "bool \<Rightarrow> nat \<Rightarrow> nat \<Rightarrow> positions \<Rightarrow> int \<Rightarrow> nat \<times> nat \<Rightarrow> (nat \<times> nat) option" where
  "walk up n vbot pos y e =
     (if y \<ge> snd (pos (snd e)) \<and> fst e \<noteq> vbot then walk up n vbot pos y (snd e, next_vertex up n (snd e)) else Some e)"

declare walk.simps [code]

text \<open>
  The spans set up so far, and a row: the number of the polygon, the numbers of its left and right span
  and the row's number.  \<open>old\<close> are the contents of the array from the frame before.
\<close>

type_synonym row = "nat \<times> nat \<times> nat \<times> int"

record span_setup =
  u_spans :: "span_y list"
  u_extent :: extent

definition add_span :: "(nat \<Rightarrow> span_y) \<Rightarrow> (extent \<times> span_y \<Rightarrow> extent \<times> span_y) \<Rightarrow> span_setup \<Rightarrow> span_setup" where
  "add_span old f u =
     (case f (u_extent u, old (length (u_spans u))) of (e, s) \<Rightarrow> u\<lparr>u_spans := u_spans u @ [s], u_extent := e\<rparr>)"

text \<open>A side at row \<open>y\<close>: its edge, the number of its span, and the setup.\<close>

definition side_row ::
  "(nat \<Rightarrow> span_y) \<Rightarrow> polygon \<Rightarrow> bool \<Rightarrow> positions \<Rightarrow> int \<Rightarrow> (nat \<times> nat) \<times> nat \<times> span_setup \<Rightarrow> ((nat \<times> nat) \<times> nat \<times> span_setup) option" where
  "side_row old p side pos y st =
     (case st of (e, k, u) \<Rightarrow>
        if y \<ge> snd (pos (snd e)) \<and> fst e \<noteq> p_VBottom p
        then (case walk (p_FacingView p \<noteq> side) (length (p_Vertices p)) (p_VBottom p) pos y e of
                None \<Rightarrow> None
              | Some e' \<Rightarrow> Some (e', length (u_spans u), add_span old (SetupYSpan p (fst e') (snd e') side pos) u))
        else Some st)"

fun rows ::
  "(nat \<Rightarrow> span_y) \<Rightarrow> polygon \<Rightarrow> nat \<Rightarrow> positions \<Rightarrow> int list \<Rightarrow> (nat \<times> nat) \<times> nat \<Rightarrow> (nat \<times> nat) \<times> nat \<Rightarrow> span_setup \<Rightarrow> (span_setup \<times> row list) option" where
  "rows old p i pos [] l r u = Some (u, [])"
| "rows old p i pos (y # ys) l r u =
     (case side_row old p False pos y (fst l, snd l, u) of
        None \<Rightarrow> None
      | Some (el, kl, u1) \<Rightarrow>
          (case side_row old p True pos y (fst r, snd r, u1) of
             None \<Rightarrow> None
           | Some (er, kr, u2) \<Rightarrow>
               (case rows old p i pos ys (el, kl) (er, kr) u2 of
                  None \<Rightarrow> None
                | Some (u3, rs) \<Rightarrow> Some (u3, (i, kl, kr, y) # rs))))"

text \<open>The vertices on the screen: with the finer coordinates, or the console's own.\<close>

definition scaled :: "bool \<Rightarrow> int \<Rightarrow> polygon \<Rightarrow> positions" where
  "scaled hires k p v =
     (let vx = p_Vertices p ! v; h = v_HiresPosition vx; f = v_FinalPosition vx
      in if hires then ((fst h * k) div 16, (snd h * k) div 16) else (fst f * k, snd f * k))"

definition y_top :: "int \<Rightarrow> positions \<Rightarrow> nat \<Rightarrow> int" where
  "y_top h pos n = fold (\<lambda>v m. min (snd (pos v)) m) [0..<n] h"

definition y_bot :: "positions \<Rightarrow> nat \<Rightarrow> int" where
  "y_bot pos n = fold (\<lambda>v m. max (snd (pos v)) m) [0..<n] 0"

text \<open>The leftmost and rightmost of the vertices 0, 1 and the last.\<close>

definition flat_left :: "positions \<Rightarrow> nat \<Rightarrow> nat" where
  "flat_left pos n = (let a = (if fst (pos 1) < fst (pos 0) then 1 else 0) in if fst (pos (n - 1)) < fst (pos a) then n - 1 else a)"

definition flat_right :: "positions \<Rightarrow> nat \<Rightarrow> nat" where
  "flat_right pos n = (let a = (if fst (pos 1) > fst (pos 0) then 1 else 0) in if fst (pos (n - 1)) > fst (pos a) then n - 1 else a)"

text \<open>A polygon: its rows, its top and bottom row, and the setup with its spans added; \<open>olde\<close> is its extent of the frame before.\<close>

definition polygon_rows ::
  "(nat \<Rightarrow> span_y) \<Rightarrow> extent \<Rightarrow> bool \<Rightarrow> int \<Rightarrow> nat \<Rightarrow> polygon \<Rightarrow> span_y list \<Rightarrow> (span_setup \<times> row list \<times> int \<times> int) option" where
  "polygon_rows old olde hires k i p spans =
     (let n = length (p_Vertices p); pos = scaled hires k p; top = y_top (192 * k) pos n; bot = y_bot pos n; b = length spans;
          u = \<lparr>u_spans = spans, u_extent = olde\<lparr>x_XMin := 256 * k, x_XMax := 0\<rparr>\<rparr> in
      if bot = top
      then let u1 = add_span old (SetupYSpanDummy p (flat_left pos n) False pos) u;
               u2 = add_span old (SetupYSpanDummy p (flat_right pos n) True pos) u1
           in Some (u2, [(i, b, b + 1, top)], top, bot + 1)
      else let v = p_VTop p; l = (v, next_vertex (p_FacingView p) n v); r = (v, next_vertex (\<not> p_FacingView p) n v);
               u1 = add_span old (SetupYSpan p (fst l) (snd l) False pos) u;
               u2 = add_span old (SetupYSpan p (fst r) (snd r) True pos) u1
           in (case rows old p i pos [top..bot - 1] (l, b) (r, b + 1) u2 of
                 None \<Rightarrow> None
               | Some (u3, rs) \<Rightarrow> Some (u3, rs, top, bot)))"

end
