(* ===== verification/Gpu3DRows.thy ===== *)
theory Gpu3DRows
  imports Gpu3DSpans
begin

text \<open>
  The rows of a polygon: the walk along its edges returns, each row gets an edge on either side that
  reaches over it, and the number of edges set up is bounded by the number of vertices.
\<close>

section \<open>Around the polygon\<close>

definition steps_to :: "bool \<Rightarrow> nat \<Rightarrow> nat \<Rightarrow> nat \<Rightarrow> nat" where
  "steps_to up n v b = (if up then if v \<le> b then b - v else b + n - v else if b \<le> v then v - b else v + n - b)"

lemma next_vertex_less: "v < n \<Longrightarrow> next_vertex up n v < n"
  by (auto simp: next_vertex_def)

lemma steps_next: "v < n \<Longrightarrow> b < n \<Longrightarrow> v \<noteq> b \<Longrightarrow> steps_to up n v b = Suc (steps_to up n (next_vertex up n v) b)"
  by (auto simp: steps_to_def next_vertex_def)

lemma steps_both: "v < n \<Longrightarrow> b < n \<Longrightarrow> steps_to up n v b + steps_to (\<not> up) n v b \<le> n"
  by (auto simp: steps_to_def)

text \<open>The walk returns: it comes to the bottom vertex at the latest.\<close>

lemma walk_returns:
  assumes "fst e < n" "snd e = next_vertex up n (fst e)" "vbot < n"
  shows "\<exists>c. walk up n vbot pos y e = Some (c, next_vertex up n c) \<and> c < n \<and> steps_to up n c vbot \<le> steps_to up n (fst e) vbot \<and>
    (y < snd (pos (next_vertex up n c)) \<or> c = vbot) \<and> (snd (pos (fst e)) \<le> y \<longrightarrow> snd (pos c) \<le> y) \<and>
    (y \<ge> snd (pos (snd e)) \<and> fst e \<noteq> vbot \<longrightarrow> steps_to up n c vbot < steps_to up n (fst e) vbot)"
  using assms
proof (induction "steps_to up n (fst e) vbot" arbitrary: e rule: less_induct)
  case less
  show ?case
  proof (cases "y \<ge> snd (pos (snd e)) \<and> fst e \<noteq> vbot")
    case False
    then have "walk up n vbot pos y e = Some e" by (subst walk.simps) (simp only: if_False)
    with False less.prems show ?thesis by (intro exI [of _ "fst e"]) (auto simp: prod_eq_iff)
  next
    case True
    let ?e = "(snd e, next_vertex up n (snd e))"
    have d: "steps_to up n (fst e) vbot = Suc (steps_to up n (snd e) vbot)" using steps_next [of "fst e" n vbot up] less.prems True by simp
    have "walk up n vbot pos y e = walk up n vbot pos y ?e" using True by (subst walk.simps) simp
    moreover have "snd e < n" using next_vertex_less less.prems by simp
    ultimately show ?thesis using less.hyps [of ?e] d less.prems(3) True by fastforce
  qed
qed

section \<open>Edges and rows\<close>

lemma SetupYSpan_Y: "sy_Y (snd (SetupYSpan p f t side pos st)) = (snd (pos f), snd (pos t))"
  by (simp add: SetupYSpan_def Let_def split_def)

definition side_ok :: "bool \<Rightarrow> nat \<Rightarrow> positions \<Rightarrow> span_setup \<Rightarrow> nat \<times> nat \<Rightarrow> nat \<Rightarrow> bool" where
  "side_ok up n pos u e k \<longleftrightarrow> fst e < n \<and> snd e = next_vertex up n (fst e) \<and> k < length (u_spans u) \<and>
     sy_Y (u_spans u ! k) = (snd (pos (fst e)), snd (pos (snd e)))"

definition grows :: "span_setup \<Rightarrow> span_setup \<Rightarrow> bool" where
  "grows u u' \<longleftrightarrow> (\<exists>ss. u_spans u' = u_spans u @ ss)"

lemma grows_refl: "grows u u"
  by (simp add: grows_def)

lemma grows_trans: "grows u v \<Longrightarrow> grows v w \<Longrightarrow> grows u w"
  by (auto simp: grows_def)

lemma grows_nth: "grows u u' \<Longrightarrow> k < length (u_spans u) \<Longrightarrow> u_spans u' ! k = u_spans u ! k \<and> k < length (u_spans u')"
  by (auto simp: grows_def nth_append)

lemma add_span_grows:
  "grows u (add_span old f u)" "length (u_spans (add_span old f u)) = Suc (length (u_spans u))"
  "u_spans (add_span old f u) ! length (u_spans u) = snd (f (u_extent u, old (length (u_spans u))))"
  by (simp_all add: add_span_def grows_def split_def)

lemma side_ok_grows: "side_ok up n pos u e k \<Longrightarrow> grows u u' \<Longrightarrow> side_ok up n pos u' e k"
  using grows_nth [of u u' k] by (simp add: side_ok_def)

lemma side_ok_new: "c < n \<Longrightarrow> nx = next_vertex up n c \<Longrightarrow>
    side_ok up n pos (add_span old (SetupYSpan p c nx side pos) u) (c, nx) (length (u_spans u))"
  by (simp add: side_ok_def add_span_grows SetupYSpan_Y)

lemma side_row_ok:
  assumes "side_ok up n pos u e k" "p_VBottom p < n" "n = length (p_Vertices p)" "up = (p_FacingView p \<noteq> side)"
  shows "\<exists>e' k' u'. side_row old p side pos y (e, k, u) = Some (e', k', u') \<and> side_ok up n pos u' e' k' \<and> grows u u' \<and>
    length (u_spans u') + steps_to up n (fst e') (p_VBottom p) \<le> length (u_spans u) + steps_to up n (fst e) (p_VBottom p) \<and>
    (y < snd (pos (snd e')) \<or> fst e' = p_VBottom p) \<and> (snd (pos (fst e)) \<le> y \<longrightarrow> snd (pos (fst e')) \<le> y)"
proof (cases "y \<ge> snd (pos (snd e)) \<and> fst e \<noteq> p_VBottom p")
  case False
  then have "side_row old p side pos y (e, k, u) = Some (e, k, u)" by (auto simp: side_row_def)
  moreover have "y < snd (pos (snd e)) \<or> fst e = p_VBottom p" using False by auto
  ultimately show ?thesis using assms(1) grows_refl by blast
next
  case True
  have "fst e < n" "snd e = next_vertex up n (fst e)" using assms(1) by (simp_all add: side_ok_def)
  from walk_returns [OF this assms(2), of pos y] True obtain c where c: "walk up n (p_VBottom p) pos y e = Some (c, next_vertex up n c)"
    "c < n" "y < snd (pos (next_vertex up n c)) \<or> c = p_VBottom p" "snd (pos (fst e)) \<le> y \<longrightarrow> snd (pos c) \<le> y"
    "steps_to up n c (p_VBottom p) < steps_to up n (fst e) (p_VBottom p)" by blast
  let ?u = "add_span old (SetupYSpan p c (next_vertex up n c) side pos) u"
  have "side_row old p side pos y (e, k, u) = Some ((c, next_vertex up n c), length (u_spans u), ?u)"
    using True c(1) unfolding assms(3,4) by (simp add: side_row_def)
  with c side_ok_new [OF c(2) refl] show ?thesis by (auto simp: add_span_grows)
qed

definition reaches :: "span_y \<Rightarrow> int \<Rightarrow> bool" where
  "reaches s y \<longleftrightarrow> fst (sy_Y s) \<le> y \<and> y < snd (sy_Y s)"

text \<open>The rows that are set up, for the rows \<open>ys\<close>; \<open>covered\<close> when the polygon's bottom is below all of them.\<close>

definition row_ok :: "bool \<Rightarrow> nat \<Rightarrow> span_setup \<Rightarrow> row \<Rightarrow> bool" where
  "row_ok covered i u r = (case r of (j, kl, kr, y) \<Rightarrow> j = i \<and> kl < length (u_spans u) \<and> kr < length (u_spans u) \<and>
     (covered \<longrightarrow> reaches (u_spans u ! kl) y \<and> reaches (u_spans u ! kr) y))"

lemma row_ok_grows: "row_ok c i u r \<Longrightarrow> grows u u' \<Longrightarrow> row_ok c i u' r"
  using grows_nth [of u u'] by (auto simp: row_ok_def)

definition row_y :: "row \<Rightarrow> int" where
  "row_y r = (case r of (j, kl, kr, y) \<Rightarrow> y)"

lemma rows_ok:
  assumes "p_VBottom p < n" "n = length (p_Vertices p)" "upl = p_FacingView p" "upr = (\<not> p_FacingView p)"
    and "side_ok upl n pos u (fst l) (snd l)" "side_ok upr n pos u (fst r) (snd r)"
    and "sorted ys" "covered \<Longrightarrow> (\<forall>y \<in> set ys. y < snd (pos (p_VBottom p)) \<and> snd (pos (fst (fst l))) \<le> y \<and> snd (pos (fst (fst r))) \<le> y)"
  shows "\<exists>u' rs. rows old p i pos ys l r u = Some (u', rs) \<and> map row_y rs = ys \<and> (\<forall>x \<in> set rs. row_ok covered i u' x) \<and> grows u u' \<and>
    length (u_spans u') \<le> length (u_spans u) + steps_to upl n (fst (fst l)) (p_VBottom p) + steps_to upr n (fst (fst r)) (p_VBottom p)"
  using assms(5-8)
proof (induction ys arbitrary: l r u)
  case Nil
  then show ?case by (simp add: grows_refl)
next
  case (Cons y ys)
  have upl: "upl = (p_FacingView p \<noteq> False)" and upr: "upr = (p_FacingView p \<noteq> True)" using assms(3,4) by simp_all
  from side_row_ok [OF Cons.prems(1) assms(1,2) upl, of old y] obtain el kl u1 where L:
    "side_row old p False pos y (fst l, snd l, u) = Some (el, kl, u1)" "side_ok upl n pos u1 el kl" "grows u u1"
    "length (u_spans u1) + steps_to upl n (fst el) (p_VBottom p) \<le> length (u_spans u) + steps_to upl n (fst (fst l)) (p_VBottom p)"
    "y < snd (pos (snd el)) \<or> fst el = p_VBottom p" "snd (pos (fst (fst l))) \<le> y \<longrightarrow> snd (pos (fst el)) \<le> y" by blast
  from side_row_ok [OF side_ok_grows [OF Cons.prems(2) L(3)] assms(1,2) upr, of old y] obtain er kr u2 where R:
    "side_row old p True pos y (fst r, snd r, u1) = Some (er, kr, u2)" "side_ok upr n pos u2 er kr" "grows u1 u2"
    "length (u_spans u2) + steps_to upr n (fst er) (p_VBottom p) \<le> length (u_spans u1) + steps_to upr n (fst (fst r)) (p_VBottom p)"
    "y < snd (pos (snd er)) \<or> fst er = p_VBottom p" "snd (pos (fst (fst r))) \<le> y \<longrightarrow> snd (pos (fst er)) \<le> y" by blast
  have l2: "side_ok upl n pos u2 el kl" using side_ok_grows [OF L(2) R(3)] .
  have ord: "sorted ys" "\<forall>z \<in> set ys. y \<le> z" using Cons.prems(3) by auto
  have next_ok: "covered \<Longrightarrow> (\<forall>z \<in> set ys. z < snd (pos (p_VBottom p)) \<and> snd (pos (fst (fst (el, kl)))) \<le> z \<and> snd (pos (fst (fst (er, kr)))) \<le> z)"
    using Cons.prems(4) L(6) R(6) ord(2) by force
  from Cons.IH [OF _ _ ord(1) next_ok, of u2] l2 R(2) obtain u3 rs where IH: "rows old p i pos ys (el, kl) (er, kr) u2 = Some (u3, rs)"
    "map row_y rs = ys" "\<forall>x \<in> set rs. row_ok covered i u3 x" "grows u2 u3"
    "length (u_spans u3) \<le> length (u_spans u2) + steps_to upl n (fst el) (p_VBottom p) + steps_to upr n (fst er) (p_VBottom p)" by auto
  have "reaches (u_spans u2 ! kl) y \<and> reaches (u_spans u2 ! kr) y" if covered
    using Cons.prems(4) [OF that] L(5,6) R(5,6) l2 R(2) by (auto simp: reaches_def side_ok_def)
  then have "row_ok covered i u2 (i, kl, kr, y)" using l2 R(2) by (simp add: row_ok_def side_ok_def)
  with IH L(1,3) R(1,3) show ?case
    using L(4) R(4) by (auto simp: row_y_def intro: row_ok_grows grows_trans)
qed

section \<open>Polygons\<close>

lemma y_bot_ge: "v < n \<Longrightarrow> snd (pos v) \<le> y_bot pos n"
proof -
  have "m \<le> fold (\<lambda>v m. max (snd (pos v)) m) vs m \<and> (\<forall>v \<in> set vs. snd (pos v) \<le> fold (\<lambda>v m. max (snd (pos v)) m) vs m)" for vs m
  proof (induction vs arbitrary: m)
    case (Cons v vs)
    from Cons.IH [of "max (snd (pos v)) m"] show ?case by (auto simp del: max.bounded_iff)
  qed simp
  then show "v < n \<Longrightarrow> snd (pos v) \<le> y_bot pos n" unfolding y_bot_def by simp
qed

text \<open>
  A polygon's rows are set up whatever its vertices are: the setup returns, with one entry for each row
  from top to bottom, all of this polygon and with spans that were set up, and with at most two spans
  more than the polygon has vertices; the spans of the polygons before stay.  When the top and bottom
  vertex are where the polygon begins and ends, each row's edges reach over it.
\<close>

theorem polygon_rows_ok:
  assumes "p_VTop p < n" "p_VBottom p < n" "n = length (p_Vertices p)" "pos = scaled hires k p"
  shows "\<exists>u rs top bot. polygon_rows old olde hires k i p spans = Some (u, rs, top, bot) \<and>
    map row_y rs = [top..bot - 1] \<and> take (length spans) (u_spans u) = spans \<and> length (u_spans u) \<le> length spans + n + 2 \<and>
    (\<forall>r \<in> set rs. row_ok (snd (pos (p_VTop p)) = top \<and> snd (pos (p_VBottom p)) = bot) i u r)"
proof -
  define top bot b where tb: "top = y_top (192 * k) pos n" "bot = y_bot pos n" "b = length spans"
  define u where "u = \<lparr>u_spans = spans, u_extent = olde\<lparr>x_XMin := 256 * k, x_XMax := 0\<rparr>\<rparr>"
  show ?thesis
  proof (cases "bot = top")
    case True
    let ?u1 = "add_span old (SetupYSpanDummy p (flat_left pos n) False pos) u"
    let ?u2 = "add_span old (SetupYSpanDummy p (flat_right pos n) True pos) ?u1"
    have "polygon_rows old olde hires k i p spans = Some (?u2, [(i, b, b + 1, top)], top, top + 1)"
      using True by (simp add: polygon_rows_def Let_def tb u_def flip: assms(3,4))
    moreover have "grows u ?u2" using add_span_grows(1) grows_trans by blast
    then have "take b (u_spans ?u2) = spans" by (auto simp: grows_def u_def tb)
    moreover have "length (u_spans ?u2) = b + 2" by (simp add: add_span_grows u_def tb)
    moreover have "snd (pos (p_VBottom p)) \<noteq> top + 1" using y_bot_ge [OF assms(2), of pos] True by (simp add: tb)
    ultimately show ?thesis by (auto simp: row_y_def row_ok_def tb)
  next
    case False
    define v l r where vlr: "v = p_VTop p" "l = (v, next_vertex (p_FacingView p) n v)" "r = (v, next_vertex (\<not> p_FacingView p) n v)"
    define u1 where "u1 = add_span old (SetupYSpan p (fst l) (snd l) False pos) u"
    define u2 where "u2 = add_span old (SetupYSpan p (fst r) (snd r) True pos) u1"
    have len: "length (u_spans u1) = b + 1" "length (u_spans u2) = b + 2" "grows u u1" "grows u1 u2"
      by (simp_all add: u1_def u2_def add_span_grows u_def tb)
    have sl: "side_ok (p_FacingView p) n pos u1 l b"
      using side_ok_new [where c = v and n = n and up = "p_FacingView p" and u = u] assms(1) by (simp add: u1_def vlr u_def tb)
    have sr: "side_ok (\<not> p_FacingView p) n pos u2 r (b + 1)"
      using side_ok_new [where c = v and n = n and up = "\<not> p_FacingView p" and u = u1] assms(1) len(1) by (simp add: u2_def vlr)
    let ?c = "snd (pos (p_VTop p)) = top \<and> snd (pos (p_VBottom p)) = bot"
    have cov: "?c \<Longrightarrow> \<forall>y \<in> set [top..bot - 1]. y < snd (pos (p_VBottom p)) \<and> snd (pos (fst (fst (l, b)))) \<le> y \<and> snd (pos (fst (fst (r, b + 1)))) \<le> y"
      by (simp add: vlr)
    have sorted: "sorted [top..bot - 1]" by simp
    have sl2: "side_ok (p_FacingView p) n pos u2 (fst (l, b)) (snd (l, b))" and sr2: "side_ok (\<not> p_FacingView p) n pos u2 (fst (r, b + 1)) (snd (r, b + 1))"
      using side_ok_grows [OF sl len(4)] sr by simp_all
    from rows_ok [where covered = "?c" and old = old and i = i, OF assms(2,3) refl refl sl2 sr2 sorted cov] obtain u3 rs where R:
      "rows old p i pos [top..bot - 1] (l, b) (r, b + 1) u2 = Some (u3, rs)" "map row_y rs = [top..bot - 1]"
      "\<forall>x \<in> set rs. row_ok ?c i u3 x" "grows u2 u3"
      "length (u_spans u3) \<le> length (u_spans u2) + steps_to (p_FacingView p) n (fst l) (p_VBottom p) + steps_to (\<not> p_FacingView p) n (fst r) (p_VBottom p)"
      by auto
    have "polygon_rows old olde hires k i p spans = Some (u3, rs, top, bot)"
      using False R(1) by (simp add: polygon_rows_def Let_def tb u_def u1_def u2_def vlr flip: assms(3,4))
    moreover have "length (u_spans u3) \<le> b + n + 2"
      using R(5) len(2) steps_both [OF assms(1,2), of "p_FacingView p"] by (simp add: vlr)
    moreover have "take b (u_spans u3) = spans"
      using grows_trans [OF grows_trans [OF len(3,4)] R(4)] by (auto simp: grows_def u_def tb)
    ultimately show ?thesis using R(2,3) by (auto simp: tb(3))
  qed
qed

definition demo_triangle :: polygon where
  "demo_triangle =
     \<lparr>p_Vertices = map (\<lambda>(x, y). \<lparr>v_FinalPosition = (x, y), v_HiresPosition = (16 * x, 16 * y), v_FinalColor = [0, 0, 0], v_TexCoords = (0, 0)\<rparr>)
        [(10, 2), (20, 5), (4, 9)],
      p_VTop = 0, p_VBottom = 2, p_FacingView = False, p_FinalZ = [0, 0, 0], p_FinalW = [1, 1, 1], p_WBuffer = False, p_IsShadowMask = False,
      p_Attr = 0, p_TexParam = 0, p_TexPalette = 0\<rparr>"

lemma polygon_rows_witness:
  "\<forall>old olde spans. \<exists>u rs. polygon_rows old olde False 1 7 demo_triangle spans = Some (u, rs, 2, 9) \<and> map row_y rs = [2..8] \<and>
    length (u_spans u) \<le> length spans + 5"
proof (intro allI)
  fix old olde spans
  have d: "p_VTop demo_triangle < 3" "p_VBottom demo_triangle < 3" "3 = length (p_Vertices demo_triangle)" by (simp_all add: demo_triangle_def)
  from polygon_rows_ok [OF d refl, where hires = False and k = 1 and i = 7 and old = old and olde = olde and spans = spans] obtain u rs top bot where
    r: "polygon_rows old olde False 1 7 demo_triangle spans = Some (u, rs, top, bot)" "map row_y rs = [top..bot - 1]"
    "length (u_spans u) \<le> length spans + 3 + 2" by blast
  have "y_top 192 (scaled False 1 demo_triangle) 3 = 2" "y_bot (scaled False 1 demo_triangle) 3 = 9"
    by (simp_all add: y_top_def y_bot_def scaled_def demo_triangle_def upt_rec Let_def)
  with r(1) have "top = 2" "bot = 9" by (auto simp: polygon_rows_def Let_def demo_triangle_def numeral_3_eq_3 split: option.splits if_splits)
  with r show "\<exists>u rs. polygon_rows old olde False 1 7 demo_triangle spans = Some (u, rs, 2, 9) \<and> map row_y rs = [2..8] \<and>
    length (u_spans u) \<le> length spans + 5" by auto
qed

section \<open>Widths\<close>

lemma abs_sdiv_le: "\<bar>a sdiv b\<bar> \<le> \<bar>a\<bar>" for a b :: int
proof (cases "b = 0")
  case False
  have "0 \<le> \<bar>a\<bar> div \<bar>b\<bar>" using False by (simp add: pos_imp_zdiv_nonneg_iff)
  then have "\<bar>a sdiv b\<bar> = \<bar>sgn a * sgn b\<bar> * (\<bar>a\<bar> div \<bar>b\<bar>)" by (simp add: signed_divide_int_def abs_mult)
  also have "\<dots> \<le> \<bar>a\<bar> div \<bar>b\<bar>" using False by (auto simp: abs_mult sgn_if)
  also have "\<dots> \<le> \<bar>a\<bar>" using False zdiv_mono2 [of "\<bar>a\<bar>" 1 "\<bar>b\<bar>"] by simp
  finally show ?thesis .
qed (simp add: signed_divide_int_def)

text \<open>
  No intermediate value of an edge's slope leaves the 32 bits of the code's integers, for vertices within
  the largest screen: 16 times the console's, and a margin of its height above and below.
\<close>

theorem edge_in_range:
  assumes "0 \<le> x0" "x0 \<le> 4096" "0 \<le> x1" "x1 \<le> 4096" "\<bar>y0\<bar> \<le> 6144" "\<bar>y1\<bar> \<le> 6144" "edge_columns side (x0, y0) (x1, y1) = (xmin, xmax, a, b)"
  shows "slope (x1 - x0) (xmax + 1 - xmin) (y1 - y0) \<le> 0x40000000 \<and>
    \<bar>dx_initial side negative (slope (x1 - x0) (xmax + 1 - xmin) (y1 - y0))\<bar> < 2 ^ 31 \<and> \<bar>(y1 - y0) * 1024\<bar> < 2 ^ 31 \<and>
    xmax + 1 - xmin \<ge> 0 \<and> xmin \<ge> - 1 \<and> xmax < 4096 + (if side then 0 else 1)"
proof -
  let ?r = "0x40000 sdiv (y1 - y0) :: int"
  have "\<bar>x1 - x0\<bar> * \<bar>?r\<bar> \<le> 4096 * 0x40000" using assms(1-4) abs_sdiv_le [of "0x40000" "y1 - y0"] by (intro mult_mono) auto
  then have s: "slope (x1 - x0) (xmax + 1 - xmin) (y1 - y0) \<le> 0x40000000" "0 \<le> slope (x1 - x0) (xmax + 1 - xmin) (y1 - y0)"
    by (auto simp: slope_def abs_mult)
  then have "\<bar>dx_initial side negative (slope (x1 - x0) (xmax + 1 - xmin) (y1 - y0))\<bar> < 2 ^ 31" by (auto simp: dx_initial_def)
  moreover have "\<bar>(y1 - y0) * 1024\<bar> < 2 ^ 31" using assms(5,6) by (simp add: abs_mult)
  ultimately show ?thesis using s(1) assms(1-4,7) by (auto simp: edge_columns_def Let_def split: if_splits)
qed

lemma edge_in_range_witness: "slope 4096 4096 1 \<le> 0x40000000"
  using edge_in_range [of 0 4096 0 1 False 0 4095 0 1 False] by (simp add: edge_columns_def)

end
