(* ===== verification/Gpu3DTiles.thy ===== *)
theory Gpu3DTiles
  imports Gpu3DRows
begin

unbundle bit_operations_syntax

text \<open>
  The 3D renderer, second part: the compute shaders and their numbers, the division of the screen into
  tiles at each scale, and the colours and depths of the console as the shaders take them.
\<close>

section \<open>Shaders\<close>

datatype raster_kind =
    R_NoTexture | R_NoTextureToon | R_NoTextureHighlight | R_UseTextureDecal | R_UseTextureModulate | R_UseTextureToon
  | R_UseTextureHighlight | R_ShadowMask

text \<open>The shaders; the flag is the depth buffer's mode, W instead of Z.\<close>

datatype shader3d =
    InterpSpans bool | BinCombined | DepthBlend bool | Rasterise raster_kind bool | ClearCoarseBinMask
  | ClearIndirectWorkCount | CalcOffsets | SortWork | FinalPass3D nat

definition kShaders :: "shader3d list" where
  "kShaders =
     [InterpSpans False, InterpSpans True, BinCombined, DepthBlend False, DepthBlend True,
      Rasterise R_NoTexture False, Rasterise R_NoTextureToon False, Rasterise R_NoTextureHighlight False,
      Rasterise R_UseTextureDecal False, Rasterise R_UseTextureModulate False, Rasterise R_UseTextureToon False,
      Rasterise R_UseTextureHighlight False, Rasterise R_ShadowMask False,
      Rasterise R_NoTexture True, Rasterise R_NoTextureToon True, Rasterise R_NoTextureHighlight True,
      Rasterise R_UseTextureDecal True, Rasterise R_UseTextureModulate True, Rasterise R_UseTextureToon True,
      Rasterise R_UseTextureHighlight True, Rasterise R_ShadowMask True,
      ClearCoarseBinMask, ClearIndirectWorkCount, CalcOffsets, SortWork,
      FinalPass3D 0, FinalPass3D 1, FinalPass3D 2, FinalPass3D 3, FinalPass3D 4, FinalPass3D 5, FinalPass3D 6, FinalPass3D 7]"

text \<open>The numbers of the pipelines.\<close>

definition P_InterpXSpansZ :: nat where "P_InterpXSpansZ = 0"
definition P_InterpXSpansW :: nat where "P_InterpXSpansW = 1"
definition P_BinCombined :: nat where "P_BinCombined = 2"
definition P_DepthBlendZ :: nat where "P_DepthBlendZ = 3"
definition P_DepthBlendW :: nat where "P_DepthBlendW = 4"
definition P_RasteriseFirst :: nat where "P_RasteriseFirst = 5"
definition P_ClearCoarseBinMask :: nat where "P_ClearCoarseBinMask = P_RasteriseFirst + 16"
definition P_ClearIndirectWorkCount :: nat where "P_ClearIndirectWorkCount = P_ClearCoarseBinMask + 1"
definition P_CalculateWorkListOffset :: nat where "P_CalculateWorkListOffset = P_ClearIndirectWorkCount + 1"
definition P_SortWork :: nat where "P_SortWork = P_CalculateWorkListOffset + 1"
definition P_FinalPassFirst :: nat where "P_FinalPassFirst = P_SortWork + 1"
definition P_Count :: nat where "P_Count = P_FinalPassFirst + 8"

definition raster_number :: "raster_kind \<Rightarrow> nat" where
  "raster_number r =
     (case r of R_NoTexture \<Rightarrow> 0 | R_NoTextureToon \<Rightarrow> 1 | R_NoTextureHighlight \<Rightarrow> 2 | R_UseTextureDecal \<Rightarrow> 3
      | R_UseTextureModulate \<Rightarrow> 4 | R_UseTextureToon \<Rightarrow> 5 | R_UseTextureHighlight \<Rightarrow> 6 | R_ShadowMask \<Rightarrow> 7)"

definition RasteriseIndex :: "raster_kind \<Rightarrow> bool \<Rightarrow> nat" where
  "RasteriseIndex r wbuffer = P_RasteriseFirst + (if wbuffer then 8 else 0) + raster_number r"

lemmas pipeline_numbers =
  P_InterpXSpansZ_def P_InterpXSpansW_def P_BinCombined_def P_DepthBlendZ_def P_DepthBlendW_def P_RasteriseFirst_def
  P_ClearCoarseBinMask_def P_ClearIndirectWorkCount_def P_CalculateWorkListOffset_def P_SortWork_def P_FinalPassFirst_def P_Count_def

text \<open>Each number is that of the shader it is named after.\<close>

lemma kShaders_raster: "kShaders ! RasteriseIndex r w = Rasterise r w"
  by (cases r; cases w) (simp_all add: kShaders_def RasteriseIndex_def raster_number_def pipeline_numbers)

lemma kShaders_count: "length kShaders = P_Count"
  by (simp add: kShaders_def pipeline_numbers)

lemma kShaders_final: "f < 8 \<Longrightarrow> kShaders ! (P_FinalPassFirst + f) = FinalPass3D f"
proof -
  assume "f < 8"
  then have "f \<in> {0, 1, 2, 3, 4, 5, 6, 7}" by auto
  then show ?thesis by (auto simp: kShaders_def pipeline_numbers)
qed

lemma kShaders_at:
  "kShaders ! P_InterpXSpansZ = InterpSpans False" "kShaders ! P_InterpXSpansW = InterpSpans True" "kShaders ! P_BinCombined = BinCombined"
  "kShaders ! P_DepthBlendZ = DepthBlend False" "kShaders ! P_DepthBlendW = DepthBlend True"
  "kShaders ! P_ClearCoarseBinMask = ClearCoarseBinMask" "kShaders ! P_ClearIndirectWorkCount = ClearIndirectWorkCount"
  "kShaders ! P_CalculateWorkListOffset = CalcOffsets" "kShaders ! P_SortWork = SortWork"
  by (simp_all add: kShaders_def pipeline_numbers)

section \<open>Tiles\<close>

text \<open>The highest bit of a byte, and the size of the tiles in units of 8.\<close>

definition GetMSBit :: "u8 \<Rightarrow> u8" where
  "GetMSBit v =
     (let a = v OR drop_bit 1 v; b = a OR drop_bit 2 a; c = b OR drop_bit 4 b in c - drop_bit 1 c)"

definition TileScale :: "nat \<Rightarrow> u8" where
  "TileScale scale = (let t = push_bit 1 (GetMSBit (word_of_nat (2 * scale div 9))) in if t = 0 then t + 1 else t)"

record tiling =
  g_ScreenWidth :: nat
  g_ScreenHeight :: nat
  g_TileSize :: nat
  g_CoarseTileCountY :: nat
  g_ClearLocal :: nat
  g_CoarseTileArea :: nat
  g_CoarseTileW :: nat
  g_CoarseTileH :: nat
  g_TilesPerLine :: nat
  g_TileLines :: nat
  g_MaxWorkTiles :: nat

definition CoarseTileCountX :: nat where "CoarseTileCountX = 8"

definition tiling_at :: "nat \<Rightarrow> tiling" where
  "tiling_at scale =
     (let w = 256 * scale; h = 192 * scale; t = min (8 * unat (TileScale scale)) 32; cy = (if t < 32 then 4 else 6);
          pl = w div t; tl = h div t
      in \<lparr>g_ScreenWidth = w, g_ScreenHeight = h, g_TileSize = t, g_CoarseTileCountY = cy, g_ClearLocal = (if t < 32 then 64 else 48),
          g_CoarseTileArea = CoarseTileCountX * cy, g_CoarseTileW = CoarseTileCountX * t, g_CoarseTileH = cy * t,
          g_TilesPerLine = pl, g_TileLines = tl, g_MaxWorkTiles = pl * tl * 16\<rparr>)"

text \<open>The buffers in the order of their bindings, and their sizes in bytes.\<close>

datatype gbuf =
    Polygons | XSpans | YSpans | ColorTiles | DepthTiles | AttrTiles | ResultBuf | BinResult | WorkDesc | MetaBuf | SetupIdx

definition kMaxYSpanSetups :: nat where "kMaxYSpanSetups = 6144 * 2"
definition kMaxVariants :: nat where "kMaxVariants = 256"
definition kBinStride :: nat where "kBinStride = 2048 div 32"
definition kCoarseBinStride :: nat where "kCoarseBinStride = kBinStride div 32"

definition max_indices :: "nat \<Rightarrow> nat" where "max_indices scale = 64 * 2048 * scale"

definition SpanSetupY_bytes :: nat where "SpanSetupY_bytes = 4 * 31"
definition SpanSetupX_bytes :: nat where "SpanSetupX_bytes = 4 * 24"
definition RenderPolygon_bytes :: nat where "RenderPolygon_bytes = 4 * 10"
definition MetaUniform_bytes :: nat where "MetaUniform_bytes = 4 * (4 + 4 * 34 + 6 + 2)"
definition BinResultHeader_bytes :: nat where "BinResultHeader_bytes = 4 * (4 * kMaxVariants + kMaxVariants + 4)"
definition SortWork_offset :: nat where "SortWork_offset = 4 * (4 * kMaxVariants + kMaxVariants)"

definition buffer_bytes :: "nat \<Rightarrow> gbuf \<Rightarrow> nat" where
  "buffer_bytes scale b =
     (let g = tiling_at scale; tiles = g_TilesPerLine g * g_TileLines g in
      case b of
        Polygons \<Rightarrow> RenderPolygon_bytes * 2048
      | XSpans \<Rightarrow> SpanSetupX_bytes * max_indices scale
      | YSpans \<Rightarrow> SpanSetupY_bytes * kMaxYSpanSetups
      | ColorTiles \<Rightarrow> 4 * g_TileSize g * g_TileSize g * g_MaxWorkTiles g
      | DepthTiles \<Rightarrow> 4 * g_TileSize g * g_TileSize g * g_MaxWorkTiles g
      | AttrTiles \<Rightarrow> 4 * g_TileSize g * g_TileSize g * g_MaxWorkTiles g
      | ResultBuf \<Rightarrow> 4 * 3 * 2 * g_ScreenWidth g * g_ScreenHeight g
      | BinResult \<Rightarrow> BinResultHeader_bytes + tiles * kCoarseBinStride * 4 + tiles * kBinStride * 4 + tiles * kBinStride * 4
      | WorkDesc \<Rightarrow> g_MaxWorkTiles g * 2 * 4 * 2
      | MetaBuf \<Rightarrow> MetaUniform_bytes
      | SetupIdx \<Rightarrow> max_indices scale * 2 * 4)"

text \<open>The size of a tile doubles when the scale does, from 4.5 times on, up to 32.\<close>

lemma TileScale_at:
  assumes "1 \<le> scale" "scale \<le> 16"
  shows "min (8 * unat (TileScale scale)) 32 = (if scale < 5 then 8 else if scale < 9 then 16 else 32)"
proof -
  have "scale \<in> {1, 2, 3, 4, 5, 6, 7, 8, 9, 10, 11, 12, 13, 14, 15, 16}" using assms by (simp add: insert_iff) arith
  then show ?thesis by (auto simp: TileScale_def GetMSBit_def Let_def)
qed

text \<open>
  At each scale the divisions by the sizes of tiles, coarse tiles and work groups leave no rest.\<close>

lemma tiling_values:
  assumes "1 \<le> scale" "scale \<le> 16"
  shows "tiling_at scale =
    \<lparr>g_ScreenWidth = 256 * scale, g_ScreenHeight = 192 * scale, g_TileSize = (if scale < 5 then 8 else if scale < 9 then 16 else 32),
     g_CoarseTileCountY = (if scale < 9 then 4 else 6), g_ClearLocal = (if scale < 9 then 64 else 48),
     g_CoarseTileArea = (if scale < 9 then 32 else 48), g_CoarseTileW = (if scale < 5 then 64 else if scale < 9 then 128 else 256),
     g_CoarseTileH = (if scale < 5 then 32 else if scale < 9 then 64 else 192),
     g_TilesPerLine = (if scale < 5 then 32 else if scale < 9 then 16 else 8) * scale,
     g_TileLines = (if scale < 5 then 24 else if scale < 9 then 12 else 6) * scale,
     g_MaxWorkTiles = (if scale < 5 then 12288 else if scale < 9 then 3072 else 768) * scale * scale\<rparr>"
  using assms by (simp add: tiling_at_def TileScale_at CoarseTileCountX_def)

theorem tiles_cover_screen:
  assumes "1 \<le> scale" "scale \<le> 16" "g = tiling_at scale"
  shows "g_TilesPerLine g * g_TileSize g = g_ScreenWidth g \<and> g_TileLines g * g_TileSize g = g_ScreenHeight g \<and>
    g_CoarseTileW g dvd g_ScreenWidth g \<and> g_CoarseTileH g dvd g_ScreenHeight g \<and>
    g_ClearLocal g dvd g_TilesPerLine g * g_TileLines g \<and> 32 dvd g_ScreenWidth g \<and>
    (\<forall>b. buffer_bytes scale b < 2 ^ 31)"
proof -
  have n: "\<exists>k. scale = k" by simp
  have sq: "scale * scale \<le> 16 * 16" using assms(2) by (intro mult_le_mono)
  have cw: "(if scale < 5 then 64 else if scale < 9 then 128 else 256) dvd 256 * scale"
    by (auto simp: dvd_def intro: exI [of _ "4 * scale"] exI [of _ "2 * scale"])
  have ch: "(if scale < 5 then 32 else if scale < 9 then 64 else 192) dvd 192 * scale"
    by (auto simp: dvd_def intro: exI [of _ "6 * scale"] exI [of _ "3 * scale"])
  have l: "(if scale < 9 then 64 else 48) dvd (if scale < 5 then 32 else if scale < 9 then 16 else 8) * scale * ((if scale < 5 then 24 else if scale < 9 then 12 else 6) * scale)"
    by (auto simp: dvd_def intro: exI [of _ "12 * scale * scale"] exI [of _ "3 * scale * scale"] exI [of _ "scale * scale"])
  have w: "32 dvd 256 * scale" by (simp add: dvd_def exI [of _ "8 * scale"])
  have b: "buffer_bytes scale b < 2 ^ 31" for b
  proof (cases b)
    case XSpans
    then show ?thesis using assms(2) by (simp add: buffer_bytes_def Let_def SpanSetupX_bytes_def max_indices_def)
  next
    case ColorTiles
    then show ?thesis using assms sq by (simp add: buffer_bytes_def Let_def tiling_values)
  qed (use assms sq in \<open>simp_all add: buffer_bytes_def Let_def tiling_values max_indices_def RenderPolygon_bytes_def SpanSetupY_bytes_def
        kMaxYSpanSetups_def BinResultHeader_bytes_def kMaxVariants_def kCoarseBinStride_def kBinStride_def MetaUniform_bytes_def\<close>)
  show ?thesis using assms cw ch l w b by (simp add: tiling_values)
qed

lemma tiles_cover_screen_witness: "g_TileSize (tiling_at 5) * g_TilesPerLine (tiling_at 5) = 1280 \<and> buffer_bytes 5 SetupIdx < 2 ^ 31"
  using tiles_cover_screen [of 5 "tiling_at 5"] by (simp add: tiling_values mult.commute)

section \<open>Colours and depths\<close>

text \<open>Five bits of a component become six, as the console does it; \<open>n\<close> is the component's place.\<close>

definition six_bits :: "u32 \<Rightarrow> u32" where
  "six_bits x = (let r = x AND 0x3E in if r \<noteq> 0 then r + 1 else r)"

definition rgb6 :: "u32 \<Rightarrow> u32" where
  "rgb6 color =
     (let r = six_bits (push_bit 1 color); g = six_bits (drop_bit 4 color); b = six_bits (drop_bit 9 color)
      in r OR push_bit 8 g OR push_bit 16 b)"

definition rgba6 :: "u32 \<Rightarrow> u32 \<Rightarrow> u32" where
  "rgba6 color a = rgb6 color OR push_bit 24 a"

text \<open>A pixel of the clear bitmap: its colour, and its depth with the fog flag.\<close>

definition clear_color :: "u16 \<Rightarrow> u32" where
  "clear_color color = rgba6 (ucast color) (if color AND 0x8000 \<noteq> 0 then 31 else 0)"

definition depth24 :: "u32 \<Rightarrow> u32" where
  "depth24 v = (v AND 0x7FFF) * 0x200 + 0x1FF"

definition clear_depth :: "u16 \<Rightarrow> u32" where
  "clear_depth val = depth24 (ucast val) OR push_bit 9 (ucast val AND 0x8000)"

text \<open>The five bits of each component can be read off the six, and likewise depth and fog flag.\<close>

lemma bit_low_mask: "bit (2 ^ k - 1 :: int) n \<longleftrightarrow> n < k"
  by (simp add: bit_mask_iff flip: mask_eq_exp_minus_1)

lemma bit_shifted_mask: "bit (2 ^ j * (2 ^ k - 1) :: int) n \<longleftrightarrow> j \<le> n \<and> n < j + k"
  using bit_push_bit_iff [of j "2 ^ k - 1 :: int" n] by (auto simp: push_bit_eq_mult bit_low_mask mult.commute)

lemma bit_1F: "bit (0x1F :: int) n \<longleftrightarrow> n < 5"
  using bit_low_mask [of 5 n] by simp

lemma bit_1FF: "bit (0x1FF :: int) n \<longleftrightarrow> n < 9"
  using bit_low_mask [of 9 n] by simp

lemma bit_7FFF: "bit (0x7FFF :: int) n \<longleftrightarrow> n < 15"
  using bit_low_mask [of 15 n] by simp

lemma bit_3E: "bit (0x3E :: int) n \<longleftrightarrow> 1 \<le> n \<and> n < 6"
  using bit_shifted_mask [of 1 5 n] by simp

lemma bit_FFFE00: "bit (0xFFFE00 :: int) n \<longleftrightarrow> 9 \<le> n \<and> n < 24"
  using bit_shifted_mask [of 9 15 n] by simp

lemma bit_8000: "bit (0x8000 :: int) n \<longleftrightarrow> n = 15"
  using bit_shifted_mask [of 15 1 n] by simp arith

lemma bit_1000000: "bit (0x1000000 :: int) n \<longleftrightarrow> n = 24"
  using bit_shifted_mask [of 24 1 n] by simp arith

lemma bit_3E0: "bit (0x3E0 :: int) n \<longleftrightarrow> 5 \<le> n \<and> n < 10"
  using bit_shifted_mask [of 5 5 n] by simp

lemma bit_7C00: "bit (0x7C00 :: int) n \<longleftrightarrow> 10 \<le> n \<and> n < 15"
  using bit_shifted_mask [of 10 5 n] by simp

lemmas bit_constants = bit_3E0 bit_7C00 bit_1F bit_1FF bit_7FFF bit_3E bit_FFFE00 bit_8000 bit_1000000

lemma bit_twice: "bit (c * 2 :: u32) n \<longleftrightarrow> n < 32 \<and> n \<noteq> 0 \<and> bit c (n - 1)"
  using bit_double_iff [of c n] by (auto simp: mult.commute)

lemmas bits3d = bit_simps bit_constants bit_twice

lemma six_bits_or: "six_bits x = (x AND 0x3E) OR (if x AND 0x3E \<noteq> 0 then 1 else 0)"
proof -
  have "(x AND 0x3E) + 1 = (x AND 0x3E) OR 1" by (rule disjunctive_add) (auto simp: bits3d)
  then show ?thesis by (simp add: six_bits_def Let_def)
qed

lemma bit_six_bits: "bit (six_bits x) n \<longleftrightarrow> (if n = 0 then x AND 0x3E \<noteq> 0 else n \<le> 5 \<and> bit x n)"
  by (auto simp: six_bits_or bits3d)

lemma rgb6_components:
  "drop_bit 1 (rgb6 c) AND 0x1F = c AND 0x1F"
  "drop_bit 9 (rgb6 c) AND 0x1F = drop_bit 5 c AND 0x1F"
  "drop_bit 17 (rgb6 c) AND 0x1F = drop_bit 10 c AND 0x1F"
  by (rule bit_word_eqI; auto simp: rgb6_def Let_def bits3d bit_six_bits)+

lemma depth24_or: "depth24 v = push_bit 9 (v AND 0x7FFF) OR 0x1FF"
proof -
  have "(v AND 0x7FFF) * 0x200 = push_bit 9 (v AND 0x7FFF)" by (simp add: push_bit_eq_mult)
  moreover have "push_bit 9 (v AND 0x7FFF) + 0x1FF = push_bit 9 (v AND 0x7FFF) OR 0x1FF"
    by (rule disjunctive_add) (auto simp: bits3d)
  ultimately show ?thesis by (simp add: depth24_def)
qed

lemma bit_clear_depth: "bit (clear_depth v) n \<longleftrightarrow> n < 9 \<or> 9 \<le> n \<and> n < 24 \<and> bit v (n - 9) \<or> n = 24 \<and> bit v 15"
  by (auto simp: clear_depth_def depth24_or bits3d)

text \<open>The pixel of the console that a colour and a depth stand for.\<close>

definition pixel_of_color :: "u32 \<Rightarrow> u16" where
  "pixel_of_color x =
     ucast ((drop_bit 1 x AND 0x1F) OR push_bit 5 (drop_bit 9 x AND 0x1F) OR push_bit 10 (drop_bit 17 x AND 0x1F)) OR
     (if bit x 24 then 0x8000 else 0)"

definition pixel_of_depth :: "u32 \<Rightarrow> u16" where
  "pixel_of_depth x = ucast (drop_bit 9 x AND 0x7FFF) OR (if bit x 24 then 0x8000 else 0)"

lemma rgba6_components:
  "drop_bit 1 (rgba6 c a) AND 0x1F = c AND 0x1F"
  "drop_bit 9 (rgba6 c a) AND 0x1F = drop_bit 5 c AND 0x1F"
  "drop_bit 17 (rgba6 c a) AND 0x1F = drop_bit 10 c AND 0x1F"
  by (rule bit_word_eqI; auto simp: rgba6_def rgb6_def Let_def bits3d bit_six_bits)+

lemma rgba6_alpha: "bit (rgba6 c a) 24 \<longleftrightarrow> bit a 0"
  by (auto simp: rgba6_def rgb6_def Let_def bits3d bit_six_bits)

theorem clear_bitmap_roundtrip: "pixel_of_color (clear_color v) = v \<and> pixel_of_depth (clear_depth w) = w"
proof
  have "v AND 0x8000 = 0 \<longleftrightarrow> \<not> bit v 15" using and_exp_eq_0_iff_not_bit [of v 15] by simp
  then have a: "bit (clear_color v) 24 \<longleftrightarrow> bit v 15" by (simp add: clear_color_def rgba6_alpha bits3d)
  show "pixel_of_color (clear_color v) = v"
    unfolding pixel_of_color_def a unfolding clear_color_def rgba6_components
  proof (rule bit_word_eqI)
    fix n
    assume "n < LENGTH(16)"
    then consider "n < 5" | "5 \<le> n" "n < 10" | "10 \<le> n" "n < 15" | "n = 15" by fastforce
    then show "bit (ucast ((ucast v AND 0x1F :: u32) OR push_bit 5 (drop_bit 5 (ucast v) AND 0x1F) OR
      push_bit 10 (drop_bit 10 (ucast v) AND 0x1F)) OR (if bit v 15 then 0x8000 else 0) :: u16) n \<longleftrightarrow> bit v n"
      by cases (simp_all add: bits3d)
  qed
  show "pixel_of_depth (clear_depth w) = w"
    unfolding pixel_of_depth_def
  proof (rule bit_word_eqI)
    fix n
    assume "n < LENGTH(16)"
    then consider "n < 15" | "n = 15" by fastforce
    then show "bit (ucast (drop_bit 9 (clear_depth w) AND 0x7FFF) OR (if bit (clear_depth w) 24 then 0x8000 else 0) :: u16) n \<longleftrightarrow> bit w n"
      by cases (auto simp: bit_clear_depth bits3d)
  qed
qed

end
