(* ===== verification/Gpu3DVariants.thy ===== *)
theory Gpu3DVariants
  imports Gpu3DTiles
begin

unbundle bit_operations_syntax

text \<open>
  The 3D renderer, third part: the variants.  Polygons that are drawn with the same texture array,
  sampler and blend mode share a variant, and each variant is one dispatch of a rasteriser.  The
  renderer finds the variant of a polygon with the help of hints: the polygon before, and the variant
  last used with its texture or its display capture.
\<close>

section \<open>Textures\<close>

text \<open>
  \<open>va_Tex\<close> is the array of textures of the cache, \<open>va_Capture\<close> 1 and 2 a display capture of 128 and 256
  columns.
\<close>

record variant =
  va_Tex :: "nat option"
  va_Capture :: nat
  va_Sampler :: "nat option"
  va_Width :: nat
  va_Height :: nat
  va_BlendMode :: nat
  va_CaptureYOffset :: int

text \<open>The comparison of the code leaves the size out.\<close>

definition same_variant :: "variant \<Rightarrow> variant \<Rightarrow> bool" where
  "same_variant v w \<longleftrightarrow> va_Tex v = va_Tex w \<and> va_Capture v = va_Capture w \<and> va_Sampler v = va_Sampler w \<and>
     va_BlendMode v = va_BlendMode w \<and> va_CaptureYOffset v = va_CaptureYOffset w"

definition Textured :: "variant \<Rightarrow> bool" where
  "Textured v \<longleftrightarrow> va_Tex v \<noteq> None \<or> va_Capture v \<noteq> 0"

definition TextureWidth :: "u32 \<Rightarrow> nat" where
  "TextureWidth p = 8 * 2 ^ unat (drop_bit 20 p AND 7)"

definition TextureHeight :: "u32 \<Rightarrow> nat" where
  "TextureHeight p = 8 * 2 ^ unat (drop_bit 23 p AND 7)"

definition texture_type :: "u32 \<Rightarrow> nat" where
  "texture_type p = unat (drop_bit 26 p AND 7)"

definition wrap_mode :: "bool \<Rightarrow> bool \<Rightarrow> nat" where
  "wrap_mode wrap mirror = (if wrap then if mirror then 2 else 1 else 0)"

definition sampler_of :: "u32 \<Rightarrow> nat" where
  "sampler_of p = wrap_mode (bit p 16) (bit p 18) + wrap_mode (bit p 17) (bit p 19) * 3"

text \<open>The key of a texture in melonDS's cache: without sampling and coordinates, and without the palette where there is none.\<close>

definition cache_key :: "u32 \<Rightarrow> u32 \<Rightarrow> u64" where
  "cache_key texParam palBase =
     (let p = texParam AND NOT 0xC00F0000; key = ucast p :: u64; fmt = texture_type p in
      if fmt \<noteq> 7
      then let k = key OR push_bit 32 (ucast palBase) in if fmt = 5 then k AND NOT (push_bit 29 1) else k
      else key)"

text \<open>The last block of captured video memory that the texture touches; \<open>info\<close> is the array \<^verbatim>\<open>captureinfo\<close>, -1 for none.\<close>

definition capture_blocks :: "u32 \<Rightarrow> nat list" where
  "capture_blocks p =
     (let start = 8 * unat (p AND 0xFFFF); stop = start + TextureHeight p * TextureWidth p * 2
      in [start div 0x8000..<(stop + 0x7FFF) div 0x8000])"

definition texture_capture :: "(nat \<Rightarrow> int) \<Rightarrow> u32 \<Rightarrow> int" where
  "texture_capture info p =
     (if texture_type p = 7 \<and> (TextureWidth p = 128 \<or> TextureWidth p = 256)
      then fold (\<lambda>b c. if info b = - 1 then c else info b) (capture_blocks p) (- 1)
      else - 1)"

section \<open>The variant of a polygon\<close>

text \<open>A hint: of a captured block, or of an entry of the texture cache.\<close>

datatype hint = CaptureHint nat | CacheHint u64

definition blend_mode :: "polygon \<Rightarrow> nat" where
  "blend_mode p = (if p_IsShadowMask p then 4 else unat (drop_bit 4 (p_Attr p) AND 3))"

definition plain_variant :: "polygon \<Rightarrow> variant" where
  "plain_variant p =
     \<lparr>va_Tex = None, va_Capture = 0, va_Sampler = None, va_Width = 0, va_Height = 0, va_BlendMode = blend_mode p,
      va_CaptureYOffset = - 1\<rparr>"

text \<open>
  The variant the polygon needs, with the layer of its texture and the hint to look at; \<open>cache\<close> gives the
  texture array and layer of a key, which stay as they are during a frame.
\<close>

definition texture_variant :: "(nat \<Rightarrow> int) \<Rightarrow> (u64 \<Rightarrow> nat \<times> nat) \<Rightarrow> polygon \<Rightarrow> variant \<times> nat \<times> hint" where
  "texture_variant info cache p =
     (let t = p_TexParam p; addr = unat (t AND 0xFFFF); cap = texture_capture info t; v = (plain_variant p)\<lparr>va_Sampler := Some (sampler_of t)\<rparr> in
      if cap \<noteq> - 1
      then if TextureWidth t = 128
           then (v\<lparr>va_Capture := 1, va_CaptureYOffset := int (addr div 32 mod 128)\<rparr>, nat cap, CaptureHint (nat cap))
           else (v\<lparr>va_Capture := 2, va_CaptureYOffset := int (addr div 64 mod 256)\<rparr>, nat cap div 4, CaptureHint (nat cap))
      else let key = cache_key t (p_TexPalette p); (tex, layer) = cache key
           in (v\<lparr>va_Tex := Some tex\<rparr>, layer, CacheHint key))"

definition own_variant :: "bool \<Rightarrow> (nat \<Rightarrow> int) \<Rightarrow> (u64 \<Rightarrow> nat \<times> nat) \<Rightarrow> polygon \<Rightarrow> variant \<times> (nat \<times> hint) option" where
  "own_variant maps info cache p =
     (if maps \<and> texture_type (p_TexParam p) \<noteq> 0
      then case texture_variant info cache p of (v, layer, h) \<Rightarrow> (v, Some (layer, h))
      else (plain_variant p, None))"

section \<open>The table of variants\<close>

record variants =
  vs_table :: "variant list"
  vs_prev :: nat
  vs_layer :: nat
  vs_hint :: "hint \<Rightarrow> nat"

definition same_texture :: "polygon \<Rightarrow> polygon \<Rightarrow> bool" where
  "same_texture q p \<longleftrightarrow> p_TexParam q = p_TexParam p \<and> p_TexPalette q = p_TexPalette p \<and>
     p_Attr q AND 0x30 = p_Attr p AND 0x30 \<and> p_IsShadowMask q = p_IsShadowMask p"

text \<open>The last entry that equals the variant.\<close>

fun find_variant :: "variant \<Rightarrow> variant list \<Rightarrow> nat \<Rightarrow> nat option" where
  "find_variant v tab 0 = None"
| "find_variant v tab (Suc j) = (if same_variant (tab ! j) v then Some j else find_variant v tab j)"

definition set_hint :: "(nat \<times> hint) option \<Rightarrow> nat \<Rightarrow> variants \<Rightarrow> variants" where
  "set_hint lh k s = (case lh of None \<Rightarrow> s | Some (layer, h) \<Rightarrow> s\<lparr>vs_hint := (vs_hint s)(h := k)\<rparr>)"

definition hinted :: "variant \<Rightarrow> (nat \<times> hint) option \<Rightarrow> variants \<Rightarrow> nat option" where
  "hinted v lh s =
     (case lh of None \<Rightarrow> None
      | Some (layer, h) \<Rightarrow>
          (let k = vs_hint s h in if k < length (vs_table s) \<and> same_variant (vs_table s ! k) v then Some k else None))"

definition set_layer :: "(nat \<times> hint) option \<Rightarrow> variants \<Rightarrow> variants" where
  "set_layer lh s = (case lh of None \<Rightarrow> s | Some (layer, h) \<Rightarrow> s\<lparr>vs_layer := layer\<rparr>)"

definition new_variant :: "variant \<Rightarrow> polygon \<Rightarrow> variants \<Rightarrow> variants" where
  "new_variant v p s =
     s\<lparr>vs_prev := length (vs_table s),
       vs_table := vs_table s @ [v\<lparr>va_Width := TextureWidth (p_TexParam p), va_Height := TextureHeight (p_TexParam p)\<rparr>]\<rparr>"

definition look_up :: "variant \<Rightarrow> (nat \<times> hint) option \<Rightarrow> polygon \<Rightarrow> variants \<Rightarrow> variants" where
  "look_up v lh p s =
     (case hinted v lh s of
        Some k \<Rightarrow> s\<lparr>vs_prev := k\<rparr>
      | None \<Rightarrow>
          (let s1 = (case find_variant v (vs_table s) (length (vs_table s)) of Some k \<Rightarrow> s\<lparr>vs_prev := k\<rparr> | None \<Rightarrow> new_variant v p s)
           in set_hint lh (vs_prev s1) s1))"

definition polygon_variant :: "bool \<Rightarrow> (nat \<Rightarrow> int) \<Rightarrow> (u64 \<Rightarrow> nat \<times> nat) \<Rightarrow> polygon option \<Rightarrow> polygon \<Rightarrow> variants \<Rightarrow> variants" where
  "polygon_variant maps info cache prev p s =
     (if (case prev of None \<Rightarrow> False | Some q \<Rightarrow> same_texture q p) then s
      else case own_variant maps info cache p of (v, lh) \<Rightarrow> look_up v lh p (set_layer lh s))"

text \<open>All polygons of a frame in order, with the variant and layer of each.\<close>

fun frame_variants ::
  "bool \<Rightarrow> (nat \<Rightarrow> int) \<Rightarrow> (u64 \<Rightarrow> nat \<times> nat) \<Rightarrow> polygon option \<Rightarrow> polygon list \<Rightarrow> variants \<Rightarrow> variants \<times> (nat \<times> nat) list" where
  "frame_variants maps info cache prev [] s = (s, [])"
| "frame_variants maps info cache prev (p # ps) s =
     (let s1 = polygon_variant maps info cache prev p s; (s2, rs) = frame_variants maps info cache (Some p) ps s1
      in (s2, (vs_prev s1, vs_layer s1) # rs))"

text \<open>A frame starts with an empty table; the hints of the cache's entries are those of the frame before.\<close>

definition variants_start :: "(u64 \<Rightarrow> nat) \<Rightarrow> variants" where
  "variants_start old = \<lparr>vs_table = [], vs_prev = 0, vs_layer = 0, vs_hint = (\<lambda>h. case h of CaptureHint b \<Rightarrow> 0 | CacheHint k \<Rightarrow> old k)\<rparr>"

section \<open>The variant found is the polygon's own\<close>

lemma same_variant_refl: "same_variant v v"
  by (simp add: same_variant_def)

lemma same_variant_size [simp]:
  "same_variant (v\<lparr>va_Width := a, va_Height := b\<rparr>) w = same_variant v w"
  "same_variant w (v\<lparr>va_Width := a, va_Height := b\<rparr>) = same_variant w v"
  by (simp_all add: same_variant_def)

lemma same_variant_sym: "same_variant v w \<longleftrightarrow> same_variant w v"
  by (auto simp: same_variant_def)

lemma same_variant_trans: "same_variant u v \<Longrightarrow> same_variant v w \<Longrightarrow> same_variant u w"
  by (simp add: same_variant_def)

lemma find_variant_Some: "find_variant v tab n = Some j \<Longrightarrow> j < n \<and> same_variant (tab ! j) v"
  by (induction n) (auto split: if_splits)

lemma find_variant_None: "find_variant v tab n = None \<Longrightarrow> j < n \<Longrightarrow> \<not> same_variant (tab ! j) v"
  by (induction n) (auto simp: less_Suc_eq split: if_splits)

text \<open>No two entries of the table are alike.\<close>

definition table_ok :: "variants \<Rightarrow> bool" where
  "table_ok s \<longleftrightarrow> (\<forall>i < length (vs_table s). \<forall>j < i. \<not> same_variant (vs_table s ! i) (vs_table s ! j))"

text \<open>The current variant and layer are right for the polygon.\<close>

definition right_for :: "bool \<Rightarrow> (nat \<Rightarrow> int) \<Rightarrow> (u64 \<Rightarrow> nat \<times> nat) \<Rightarrow> polygon \<Rightarrow> variant list \<Rightarrow> nat \<times> nat \<Rightarrow> bool" where
  "right_for maps info cache p tab r \<longleftrightarrow>
     (case own_variant maps info cache p of (v, lh) \<Rightarrow>
        fst r < length tab \<and> same_variant (tab ! fst r) v \<and> (\<forall>layer h. lh = Some (layer, h) \<longrightarrow> snd r = layer))"

definition extends :: "variant list \<Rightarrow> variant list \<Rightarrow> bool" where
  "extends tab tab' \<longleftrightarrow> (\<exists>vs. tab' = tab @ vs)"

lemma extends_trans: "extends a b \<Longrightarrow> extends b c \<Longrightarrow> extends a c"
  by (auto simp: extends_def)

lemma right_for_extends: "right_for maps info cache p tab r \<Longrightarrow> extends tab tab' \<Longrightarrow> right_for maps info cache p tab' r"
  by (auto simp: right_for_def extends_def nth_append split: prod.splits)

lemma set_hint_other [simp]: "vs_table (set_hint lh k s) = vs_table s" "vs_prev (set_hint lh k s) = vs_prev s" "vs_layer (set_hint lh k s) = vs_layer s"
  by (simp_all add: set_hint_def split: option.split)

lemma set_layer_other [simp]: "vs_table (set_layer lh s) = vs_table s" "vs_hint (set_layer lh s) = vs_hint s"
  by (simp_all add: set_layer_def split: option.split)

lemma look_up_ok:
  assumes "table_ok s"
  shows "table_ok (look_up v lh p s) \<and> extends (vs_table s) (vs_table (look_up v lh p s)) \<and> vs_layer (look_up v lh p s) = vs_layer s \<and>
    vs_prev (look_up v lh p s) < length (vs_table (look_up v lh p s)) \<and>
    same_variant (vs_table (look_up v lh p s) ! vs_prev (look_up v lh p s)) v"
proof (cases "hinted v lh s")
  case (Some k)
  then have "k < length (vs_table s) \<and> same_variant (vs_table s ! k) v" by (auto simp: hinted_def Let_def split: option.splits if_splits)
  with Some assms show ?thesis by (simp add: look_up_def extends_def table_ok_def)
next
  case None
  show ?thesis
  proof (cases "find_variant v (vs_table s) (length (vs_table s))")
    case (Some k)
    with None find_variant_Some [OF this] assms show ?thesis by (simp add: look_up_def extends_def table_ok_def)
  next
    case n: None
    have d: "\<not> same_variant (vs_table s ! j) v" if "j < length (vs_table s)" for j using find_variant_None [OF n that] .
    show ?thesis using None n assms d
      by (auto simp: look_up_def new_variant_def extends_def table_ok_def nth_append less_Suc_eq same_variant_refl dest: same_variant_sym [THEN iffD1])
  qed
qed

text \<open>Equal texture attributes give equal variants.\<close>

lemma same_texture_own:
  assumes "same_texture q p"
  shows "own_variant maps info cache q = own_variant maps info cache p"
proof -
  have b: "drop_bit 4 a AND 3 = drop_bit 4 (a AND 0x30)" for a :: u32 by (simp add: drop_bit_and)
  have "drop_bit 4 (p_Attr q) AND 3 = drop_bit 4 (p_Attr p) AND 3" unfolding b using assms by (simp only: same_texture_def)
  with assms have "plain_variant q = plain_variant p" by (simp add: plain_variant_def blend_mode_def same_texture_def)
  moreover have "p_TexParam q = p_TexParam p" "p_TexPalette q = p_TexPalette p" using assms by (simp_all add: same_texture_def)
  ultimately show ?thesis unfolding own_variant_def texture_variant_def by metis
qed

lemma polygon_variant_ok:
  assumes "table_ok s" "\<forall>q. prev = Some q \<longrightarrow> right_for maps info cache q (vs_table s) (vs_prev s, vs_layer s)"
    and s'_def: "s' = polygon_variant maps info cache prev p s"
  shows "table_ok s' \<and> extends (vs_table s) (vs_table s') \<and> right_for maps info cache p (vs_table s') (vs_prev s', vs_layer s')"
proof (cases "case prev of None \<Rightarrow> False | Some q \<Rightarrow> same_texture q p")
  case True
  then obtain q where q: "prev = Some q" "same_texture q p" by (auto split: option.splits)
  then have "right_for maps info cache p (vs_table s) (vs_prev s, vs_layer s)" using assms(2) same_texture_own [of q p] by (simp add: right_for_def)
  with q assms(1) show ?thesis by (simp add: s'_def polygon_variant_def extends_def)
next
  case False
  obtain v lh where v: "own_variant maps info cache p = (v, lh)" by force
  have "table_ok (set_layer lh s)" using assms(1) by (simp add: table_ok_def)
  from look_up_ok [OF this, of v lh p] show ?thesis
    by (auto simp: s'_def polygon_variant_def False v right_for_def) (auto simp: set_layer_def)
qed

lemma frame_variants_ok:
  assumes "table_ok s" "\<forall>q. prev = Some q \<longrightarrow> right_for maps info cache q (vs_table s) (vs_prev s, vs_layer s)"
    "frame_variants maps info cache prev ps s = (s', rs)"
  shows "length rs = length ps \<and> table_ok s' \<and> extends (vs_table s) (vs_table s') \<and>
    (\<forall>i < length ps. right_for maps info cache (ps ! i) (vs_table s') (rs ! i))"
  using assms
proof (induction ps arbitrary: prev s rs)
  case Nil
  then show ?case by (simp add: extends_def)
next
  case (Cons p ps)
  define s1 where "s1 = polygon_variant maps info cache prev p s"
  obtain rs1 where rs1: "frame_variants maps info cache (Some p) ps s1 = (s', rs1)" "rs = (vs_prev s1, vs_layer s1) # rs1"
    using Cons.prems(3) by (auto simp: s1_def Let_def split: prod.splits)
  have ok: "table_ok s1" "extends (vs_table s) (vs_table s1)" "right_for maps info cache p (vs_table s1) (vs_prev s1, vs_layer s1)"
    using polygon_variant_ok [OF Cons.prems(1,2) s1_def] by simp_all
  have ih: "length rs1 = length ps" "table_ok s'" "extends (vs_table s1) (vs_table s')"
    "\<forall>i < length ps. right_for maps info cache (ps ! i) (vs_table s') (rs1 ! i)"
    using Cons.IH [OF ok(1) _ rs1(1)] ok(3) by simp_all
  have "right_for maps info cache p (vs_table s') (vs_prev s1, vs_layer s1)" using right_for_extends [OF ok(3) ih(3)] .
  then have "\<forall>i < length (p # ps). right_for maps info cache ((p # ps) ! i) (vs_table s') (rs ! i)"
    using ih(4) by (auto simp: rs1(2) less_Suc_eq_0_disj)
  then show ?case using ih(1,2) extends_trans [OF ok(2) ih(3)] by (simp add: rs1(2))
qed

lemma polygon_variant_length:
  "length (vs_table (polygon_variant maps info cache prev p s)) \<le> Suc (length (vs_table s))"
  by (auto simp: polygon_variant_def look_up_def new_variant_def Let_def split: option.split prod.split)

text \<open>
  At most as many variants as polygons.\<close>

lemma frame_variants_length:
  "length (vs_table (fst (frame_variants maps info cache prev ps s))) \<le> length (vs_table s) + length ps"
proof (induction ps arbitrary: prev s)
  case (Cons p ps)
  show ?case using Cons.IH [of "Some p" "polygon_variant maps info cache prev p s"] polygon_variant_length [of maps info cache prev p s]
    by (simp add: Let_def split_def)
qed simp

lemma variants_start_ok: "table_ok (variants_start old)" "vs_table (variants_start old) = []"
  by (simp_all add: table_ok_def variants_start_def)


text \<open>Two polygons without texture and, in between, one with a texture of the cache that an old hint misleads.\<close>

definition quad3 :: "u32 \<Rightarrow> u32 \<Rightarrow> polygon" where
  "quad3 attr tex = \<lparr>p_Vertices = [], p_VTop = 0, p_VBottom = 0, p_FacingView = True, p_FinalZ = [], p_FinalW = [], p_WBuffer = False,
     p_IsShadowMask = False, p_Attr = attr, p_TexParam = tex, p_TexPalette = 0\<rparr>"


section \<open>Sizes\<close>

text \<open>Each entry of the table has the size of a polygon that it is the variant of.\<close>

definition has_size :: "bool \<Rightarrow> (nat \<Rightarrow> int) \<Rightarrow> (u64 \<Rightarrow> nat \<times> nat) \<Rightarrow> polygon set \<Rightarrow> variant \<Rightarrow> bool" where
  "has_size maps info cache P w \<longleftrightarrow>
     (\<exists>q \<in> P. same_variant w (fst (own_variant maps info cache q)) \<and>
        va_Width w = TextureWidth (p_TexParam q) \<and> va_Height w = TextureHeight (p_TexParam q))"

definition sized :: "bool \<Rightarrow> (nat \<Rightarrow> int) \<Rightarrow> (u64 \<Rightarrow> nat \<times> nat) \<Rightarrow> polygon set \<Rightarrow> variant list \<Rightarrow> bool" where
  "sized maps info cache P tab \<longleftrightarrow> (\<forall>w \<in> set tab. has_size maps info cache P w)"

lemma polygon_variant_sized:
  assumes "sized maps info cache P (vs_table s)" "p \<in> P"
  shows "sized maps info cache P (vs_table (polygon_variant maps info cache prev p s))"
proof -
  obtain v lh where v: "own_variant maps info cache p = (v, lh)" by force
  have "sized maps info cache P (vs_table (look_up v lh p t))" if "vs_table t = vs_table s" for t
  proof -
    have "vs_table (look_up v lh p t) = vs_table s \<or>
      vs_table (look_up v lh p t) = vs_table s @ [v\<lparr>va_Width := TextureWidth (p_TexParam p), va_Height := TextureHeight (p_TexParam p)\<rparr>]"
      by (auto simp: look_up_def new_variant_def Let_def that split: option.split)
    moreover have "has_size maps info cache P (v\<lparr>va_Width := TextureWidth (p_TexParam p), va_Height := TextureHeight (p_TexParam p)\<rparr>)"
      unfolding has_size_def by (rule bexI [OF _ assms(2)]) (simp add: v same_variant_refl)
    ultimately show ?thesis using assms(1) by (auto simp: sized_def)
  qed
  then show ?thesis using assms(1) by (simp add: polygon_variant_def v split: option.split)
qed

lemma frame_variants_sized:
  assumes "sized maps info cache P (vs_table s)" "set ps \<subseteq> P"
  shows "sized maps info cache P (vs_table (fst (frame_variants maps info cache prev ps s)))"
  using assms by (induction ps arbitrary: prev s) (simp_all add: Let_def split_def polygon_variant_sized)

text \<open>Where an array of the cache holds textures of one size, the size of a variant is that of all its polygons.\<close>

theorem variant_sizes:
  assumes "frame_variants maps info cache None ps (variants_start old) = (s, rs)" "i < length ps"
    "va_Tex (fst (own_variant maps info cache (ps ! i))) \<noteq> None"
    "\<forall>p \<in> set ps. \<forall>q \<in> set ps. fst (cache (cache_key (p_TexParam p) (p_TexPalette p))) = fst (cache (cache_key (p_TexParam q) (p_TexPalette q))) \<longrightarrow>
       TextureWidth (p_TexParam p) = TextureWidth (p_TexParam q) \<and> TextureHeight (p_TexParam p) = TextureHeight (p_TexParam q)"
  shows "va_Width (vs_table s ! fst (rs ! i)) = TextureWidth (p_TexParam (ps ! i)) \<and>
    va_Height (vs_table s ! fst (rs ! i)) = TextureHeight (p_TexParam (ps ! i))"
proof -
  let ?w = "vs_table s ! fst (rs ! i)" and ?v = "fst (own_variant maps info cache (ps ! i))"
  have r: "fst (rs ! i) < length (vs_table s)" "same_variant ?w ?v"
    using frame_variants_ok [OF variants_start_ok(1) _ assms(1)] assms(2) by (auto simp: right_for_def split_def)
  have "sized maps info cache (set ps) (vs_table s)"
    using frame_variants_sized [of maps info cache "set ps" "variants_start old" ps None] assms(1) by (simp add: sized_def variants_start_def)
  then obtain q where q: "q \<in> set ps" "same_variant ?w (fst (own_variant maps info cache q))"
    "va_Width ?w = TextureWidth (p_TexParam q)" "va_Height ?w = TextureHeight (p_TexParam q)"
    using r(1) unfolding sized_def has_size_def by (meson nth_mem)
  have t: "va_Tex (fst (own_variant maps info cache q)) = va_Tex ?v" using q(2) r(2) by (simp add: same_variant_def)
  have tex: "va_Tex (fst (own_variant maps info cache p)) \<noteq> None \<Longrightarrow>
    va_Tex (fst (own_variant maps info cache p)) = Some (fst (cache (cache_key (p_TexParam p) (p_TexPalette p))))" for p
    by (auto simp: own_variant_def texture_variant_def plain_variant_def Let_def split: if_splits prod.splits)
  have "fst (cache (cache_key (p_TexParam q) (p_TexPalette q))) = fst (cache (cache_key (p_TexParam (ps ! i)) (p_TexPalette (ps ! i))))"
    using tex [of q] tex [of "ps ! i"] t assms(3) by simp
  moreover have "ps ! i \<in> set ps" using assms(2) by simp
  ultimately show ?thesis using assms(4) q(1) unfolding q(3,4) by blast
qed

lemma variant_sizes_witness:
  "\<exists>s rs. frame_variants True (\<lambda>b. - 1) (\<lambda>k. (7, 3)) None [quad3 0 0x09100000] (variants_start (\<lambda>k. 0)) = (s, rs) \<and>
     va_Width (vs_table s ! fst (rs ! 0)) = 16 \<and> va_Height (vs_table s ! fst (rs ! 0)) = 32"
proof -
  obtain s rs where f: "frame_variants True (\<lambda>b. - 1) (\<lambda>k. (7, 3)) None [quad3 0 0x09100000] (variants_start (\<lambda>k. 0)) = (s, rs)" by force
  have t: "texture_type 0x09100000 = 2" "TextureWidth 0x09100000 = 16" "TextureHeight 0x09100000 = 32"
    by (simp_all add: texture_type_def TextureWidth_def TextureHeight_def)
  have "va_Tex (fst (own_variant True (\<lambda>b. - 1) (\<lambda>k. (7, 3)) ([quad3 0 0x09100000] ! 0))) \<noteq> None"
    by (simp add: own_variant_def quad3_def t texture_variant_def texture_capture_def Let_def)
  from variant_sizes [OF f _ this] f t show ?thesis by (simp add: quad3_def)
qed

text \<open>
  Display captures: two textures of the same capture and first row but of different heights share a
  variant, which has the height of the first; the shader divides the coordinates of both by it.
\<close>

theorem capture_heights_shared:
  "(let (s, rs) = frame_variants True (\<lambda>b. 0) cache None [quad3 0 0x1E500000, quad3 0 0x1DD00000] (variants_start old) in
    map fst rs = [0, 0] \<and> map va_Height (vs_table s) = [128]) \<and> TextureHeight 0x1DD00000 = 64"
proof -
  have t: "texture_type 0x1E500000 = 7" "TextureWidth 0x1E500000 = 256" "TextureHeight 0x1E500000 = 128"
    "texture_type 0x1DD00000 = 7" "TextureWidth 0x1DD00000 = 256" "TextureHeight 0x1DD00000 = 64"
    "sampler_of 0x1E500000 = 0" "sampler_of 0x1DD00000 = 0"
    by (simp_all add: texture_type_def TextureWidth_def TextureHeight_def sampler_of_def wrap_mode_def)
  have c: "texture_capture (\<lambda>b. 0) 0x1E500000 = 0" "texture_capture (\<lambda>b. 0) 0x1DD00000 = 0"
    by (simp_all add: texture_capture_def t capture_blocks_def upt_conv_Cons)
  show ?thesis
    by (simp add: quad3_def polygon_variant_def own_variant_def texture_variant_def t c same_texture_def look_up_def hinted_def
      set_layer_def new_variant_def variants_start_def plain_variant_def blend_mode_def same_variant_def set_hint_def Let_def)
qed

end
