(* ===== verification/Gpu3DPolygons.thy ===== *)
theory Gpu3DPolygons
  imports Gpu3DRows
begin

text \<open>
  All polygons of a frame: their spans and rows are put into the same two arrays, one polygon after the
  other.  The shaders find the row \<open>y\<close> of a polygon at its first row's index plus its distance from the
  polygon's top.
\<close>

section \<open>The polygons of a frame\<close>

text \<open>A polygon in the frame: the index of its first row, its extent and its first row and the row after its last.\<close>

type_synonym placed = "nat \<times> extent \<times> int \<times> int"

fun all_rows ::
  "(nat \<Rightarrow> span_y) \<Rightarrow> (nat \<Rightarrow> extent) \<Rightarrow> bool \<Rightarrow> int \<Rightarrow> nat \<Rightarrow> polygon list \<Rightarrow> span_y list \<Rightarrow> row list \<Rightarrow> (span_y list \<times> row list \<times> placed list) option" where
  "all_rows old olde hires k i [] spans rws = Some (spans, rws, [])"
| "all_rows old olde hires k i (p # ps) spans rws =
     (case polygon_rows old (olde i) hires k i p spans of
        None \<Rightarrow> None
      | Some (u, rs, ytop, ybot) \<Rightarrow>
          (case all_rows old olde hires k (i + 1) ps (u_spans u) (rws @ rs) of
             None \<Rightarrow> None
           | Some (ss, rr, xs) \<Rightarrow> Some (ss, rr, (length rws, u_extent u, ytop, ybot) # xs)))"

definition frame_rows ::
  "(nat \<Rightarrow> span_y) \<Rightarrow> (nat \<Rightarrow> extent) \<Rightarrow> bool \<Rightarrow> int \<Rightarrow> polygon list \<Rightarrow> (span_y list \<times> row list \<times> placed list) option" where
  "frame_rows old olde hires k ps = all_rows old olde hires k 0 ps [] []"

section \<open>What the shaders find\<close>

definition polygon_ok :: "polygon \<Rightarrow> bool" where
  "polygon_ok p \<longleftrightarrow> p_VTop p < length (p_Vertices p) \<and> p_VBottom p < length (p_Vertices p)"

text \<open>The polygon's top and bottom vertex are where it begins and ends.\<close>

definition spans_rows :: "bool \<Rightarrow> int \<Rightarrow> polygon \<Rightarrow> int \<Rightarrow> int \<Rightarrow> bool" where
  "spans_rows hires k p ytop ybot \<longleftrightarrow> snd (scaled hires k p (p_VTop p)) = ytop \<and> snd (scaled hires k p (p_VBottom p)) = ybot"

text \<open>Row \<open>y\<close> of polygon \<open>i\<close>, looked up as the shaders do.\<close>

definition found_row :: "span_y list \<Rightarrow> row list \<Rightarrow> nat \<Rightarrow> bool \<Rightarrow> placed \<Rightarrow> int \<Rightarrow> bool" where
  "found_row ss rr i covered x y \<longleftrightarrow>
     (case x of (first, e, ytop, ybot) \<Rightarrow>
        first + nat (y - ytop) < length rr \<and>
        (case rr ! (first + nat (y - ytop)) of (j, kl, kr, y') \<Rightarrow> j = i \<and> y' = y \<and> kl < length ss \<and> kr < length ss \<and>
           (covered \<longrightarrow> reaches (ss ! kl) y \<and> reaches (ss ! kr) y)))"

definition placed_ok :: "bool \<Rightarrow> int \<Rightarrow> span_y list \<Rightarrow> row list \<Rightarrow> nat \<Rightarrow> polygon \<Rightarrow> placed \<Rightarrow> bool" where
  "placed_ok hires k ss rr i p x \<longleftrightarrow>
     (case x of (first, e, ytop, ybot) \<Rightarrow> \<forall>y. ytop \<le> y \<and> y < ybot \<longrightarrow> found_row ss rr i (spans_rows hires k p ytop ybot) x y)"

lemma found_row_extends:
  assumes "found_row ss rr i c x y"
  shows "found_row (ss @ ss') (rr @ rr') i c x y"
proof -
  obtain first e ytop ybot where x: "x = (first, e, ytop, ybot)" by (metis surj_pair)
  obtain j kl kr y' where r: "rr ! (first + nat (y - ytop)) = (j, kl, kr, y')" by (metis surj_pair)
  have "(rr @ rr') ! (first + nat (y - ytop)) = (j, kl, kr, y')" using assms r by (simp add: found_row_def x nth_append)
  then show ?thesis using assms r by (auto simp: found_row_def x nth_append)
qed

lemma placed_ok_extends: "placed_ok hires k ss rr i p x \<Longrightarrow> placed_ok hires k (ss @ ss') (rr @ rr') i p x"
  by (auto simp: placed_ok_def intro: found_row_extends)

lemma y_top_le: "v < n \<Longrightarrow> y_top h pos n \<le> snd (pos v)"
proof -
  have "fold (\<lambda>v m. min (snd (pos v)) m) vs m \<le> m \<and> (\<forall>v \<in> set vs. fold (\<lambda>v m. min (snd (pos v)) m) vs m \<le> snd (pos v))" for vs m
  proof (induction vs arbitrary: m)
    case (Cons v vs)
    from Cons.IH [of "min (snd (pos v)) m"] show ?case by (auto simp del: min.bounded_iff)
  qed simp
  then show "v < n \<Longrightarrow> y_top h pos n \<le> snd (pos v)" unfolding y_top_def by simp
qed

text \<open>One polygon after the rows \<open>rws\<close>.\<close>

lemma polygon_placed:
  assumes "polygon_ok p"
  shows "\<exists>u rs ytop ybot. polygon_rows old e hires k i p spans = Some (u, rs, ytop, ybot) \<and> (\<exists>ss. u_spans u = spans @ ss) \<and>
    length (u_spans u) \<le> length spans + length (p_Vertices p) + 2 \<and> int (length rs) = max 0 (ybot - ytop) \<and>
    placed_ok hires k (u_spans u) (rws @ rs) i p (length rws, u_extent u, ytop, ybot)"
proof -
  define n where "n = length (p_Vertices p)"
  have "p_VTop p < n" "p_VBottom p < n" "n = length (p_Vertices p)" using assms by (simp_all add: polygon_ok_def n_def)
  from polygon_rows_ok [OF this refl, of old e hires k i spans] obtain u rs ytop ybot where r:
    "polygon_rows old e hires k i p spans = Some (u, rs, ytop, ybot)" "map row_y rs = [ytop..ybot - 1]" "take (length spans) (u_spans u) = spans"
    "length (u_spans u) \<le> length spans + n + 2" "\<forall>r \<in> set rs. row_ok (spans_rows hires k p ytop ybot) i u r"
    unfolding spans_rows_def by blast
  have len: "length rs = nat (ybot - ytop)" using arg_cong [OF r(2), of length] by simp
  have "found_row (u_spans u) (rws @ rs) i (spans_rows hires k p ytop ybot) (length rws, u_extent u, ytop, ybot) y" if "ytop \<le> y" "y < ybot" for y
  proof -
    have j: "nat (y - ytop) < length rs" using that by (simp add: len)
    have "row_y (rs ! nat (y - ytop)) = [ytop..ybot - 1] ! nat (y - ytop)" using r(2) j nth_map by metis
    also have "\<dots> = y" using that by simp
    finally have "row_y (rs ! nat (y - ytop)) = y" .
    moreover have "row_ok (spans_rows hires k p ytop ybot) i u (rs ! nat (y - ytop))" using r(5) j by simp
    ultimately show ?thesis using j by (auto simp: found_row_def row_ok_def row_y_def)
  qed
  moreover have "\<exists>ss. u_spans u = spans @ ss" using r(3) append_take_drop_id [of "length spans" "u_spans u"] by metis
  ultimately show ?thesis using r(1,4) len by (auto simp: placed_ok_def n_def)
qed

lemma all_rows_ok:
  assumes "\<forall>p \<in> set ps. polygon_ok p"
  shows "\<exists>ss rr xs. all_rows old olde hires k i ps spans rws = Some (ss, rr, xs) \<and> (\<exists>s r. ss = spans @ s \<and> rr = rws @ r) \<and>
    length ss \<le> length spans + (\<Sum>p \<leftarrow> ps. length (p_Vertices p) + 2) \<and> length xs = length ps \<and>
    (\<forall>j < length ps. placed_ok hires k ss rr (i + j) (ps ! j) (xs ! j))"
  using assms
proof (induction ps arbitrary: i spans rws)
  case (Cons p ps)
  then have "polygon_ok p" by simp
  from polygon_placed [OF this, of old "olde i" hires k i spans rws] obtain u rs ytop ybot ss0 where p:
    "polygon_rows old (olde i) hires k i p spans = Some (u, rs, ytop, ybot)" "u_spans u = spans @ ss0"
    "length (u_spans u) \<le> length spans + length (p_Vertices p) + 2" "int (length rs) = max 0 (ybot - ytop)"
    "placed_ok hires k (u_spans u) (rws @ rs) i p (length rws, u_extent u, ytop, ybot)" by blast
  from Cons.IH [of "i + 1" "u_spans u" "rws @ rs"] Cons.prems obtain ss rr xs s r where q:
    "all_rows old olde hires k (i + 1) ps (u_spans u) (rws @ rs) = Some (ss, rr, xs)" "ss = u_spans u @ s" "rr = (rws @ rs) @ r"
    "length ss \<le> length (u_spans u) + (\<Sum>p \<leftarrow> ps. length (p_Vertices p) + 2)" "length xs = length ps"
    "\<forall>j < length ps. placed_ok hires k ss rr (i + 1 + j) (ps ! j) (xs ! j)" by auto
  have "placed_ok hires k ss rr i p (length rws, u_extent u, ytop, ybot)" using placed_ok_extends [OF p(5)] q(2,3) by simp
  then have "\<forall>j < length (p # ps). placed_ok hires k ss rr (i + j) ((p # ps) ! j) (((length rws, u_extent u, ytop, ybot) # xs) ! j)"
    using q(6) by (auto simp: less_Suc_eq_0_disj)
  then show ?case using p q by auto
qed simp

text \<open>
  C26: The number of rows of a polygon.\<close>

definition polygon_height :: "bool \<Rightarrow> int \<Rightarrow> polygon \<Rightarrow> nat" where
  "polygon_height hires k p =
     (let n = length (p_Vertices p); pos = scaled hires k p; a = y_top (192 * k) pos n; b = y_bot pos n
      in if b = a then 1 else nat (b - a))"

lemma polygon_rows_y:
  assumes "polygon_rows old e hires k i p spans = Some (u, rs, a, b)"
  shows "nat (b - a) = polygon_height hires k p"
  using assms by (auto simp: polygon_rows_def polygon_height_def Let_def split: if_splits option.splits)

lemma all_rows_count:
  assumes "\<forall>p \<in> set ps. polygon_ok p" "all_rows old olde hires k i ps spans rws = Some (ss, rr, xs)"
  shows "length rr = length rws + (\<Sum>p \<leftarrow> ps. polygon_height hires k p)"
  using assms
proof (induction ps arbitrary: i spans rws xs)
  case (Cons p ps)
  then have "polygon_ok p" by simp
  from polygon_placed [OF this, of old "olde i" hires k i spans rws] obtain u rs a b where p:
    "polygon_rows old (olde i) hires k i p spans = Some (u, rs, a, b)" "int (length rs) = max 0 (b - a)" by blast
  then obtain xs' where q: "all_rows old olde hires k (i + 1) ps (u_spans u) (rws @ rs) = Some (ss, rr, xs')"
    using Cons.prems(2) by (auto split: option.splits)
  have "length rs = polygon_height hires k p" using polygon_rows_y [OF p(1)] p(2) by linarith
  then show ?case using Cons.IH [OF _ q] Cons.prems(1) by simp
qed simp

lemma frame_rows_all:
  assumes "\<forall>p \<in> set ps. polygon_ok p"
  shows "\<exists>ss rr xs. frame_rows old olde hires k ps = Some (ss, rr, xs) \<and> length xs = length ps \<and>
    length ss \<le> (\<Sum>p \<leftarrow> ps. length (p_Vertices p) + 2) \<and> length rr = (\<Sum>p \<leftarrow> ps. polygon_height hires k p) \<and>
    (\<forall>i < length ps. placed_ok hires k ss rr i (ps ! i) (xs ! i))"
proof -
  from all_rows_ok [OF assms, of old olde hires k 0 "[]" "[]"] obtain ss rr xs where
    r: "all_rows old olde hires k 0 ps [] [] = Some (ss, rr, xs)" "length xs = length ps"
    "length ss \<le> (\<Sum>p \<leftarrow> ps. length (p_Vertices p) + 2)" "\<forall>j < length ps. placed_ok hires k ss rr j (ps ! j) (xs ! j)" by auto
  with all_rows_count [OF assms r(1)] show ?thesis by (simp add: frame_rows_def)
qed



section \<open>How many rows\<close>

text \<open>
  The array of rows is made for 64 * 2048 * scale of them, without a check when they are written.  The
  polygons on the screen have at most its height, so 682 always fit; 683 of full height do not.
\<close>

lemma polygon_height_le:
  assumes "1 \<le> k" "\<forall>v < length (p_Vertices p). 0 \<le> snd (scaled hires k p v) \<and> snd (scaled hires k p v) \<le> 192 * k"
  shows "polygon_height hires k p \<le> nat (192 * k)"
proof -
  have "y_bot pos n \<le> h" if "\<forall>v < n. snd (pos v) \<le> h" "0 \<le> h" for pos n h
    unfolding y_bot_def using that by (induction n) auto
  moreover have "0 \<le> y_top h pos n" if "\<forall>v < n. 0 \<le> snd (pos v)" "0 \<le> h" for pos n h
    unfolding y_top_def using that by (induction n) auto
  ultimately have "y_bot (scaled hires k p) (length (p_Vertices p)) \<le> 192 * k" "0 \<le> y_top (192 * k) (scaled hires k p) (length (p_Vertices p))"
    using assms by simp_all
  then show ?thesis using assms(1) by (simp add: polygon_height_def Let_def) arith
qed

definition full_triangle :: polygon where
  "full_triangle = demo_triangle\<lparr>p_Vertices := map (\<lambda>(x, y). \<lparr>v_FinalPosition = (x, y), v_HiresPosition = (16 * x, 16 * y),
     v_FinalColor = [0, 0, 0], v_TexCoords = (0, 0)\<rparr>) [(0, 0), (256, 0), (0, 192)]\<rparr>"

theorem rows_capacity_exceeded:
  "\<forall>old olde. \<exists>ss rr xs. frame_rows old olde False 1 (replicate 683 full_triangle) = Some (ss, rr, xs) \<and> length rr > 64 * 2048"
proof (intro allI)
  fix old olde
  have ok: "\<forall>p \<in> set (replicate 683 full_triangle). polygon_ok p" by (simp add: polygon_ok_def full_triangle_def demo_triangle_def)
  have "y_top 192 (scaled False 1 full_triangle) 3 = 0" "y_bot (scaled False 1 full_triangle) 3 = 192"
    by (simp_all add: y_top_def y_bot_def scaled_def full_triangle_def upt_rec Let_def)
  then have "polygon_height False 1 full_triangle = 192" by (simp add: polygon_height_def full_triangle_def Let_def numeral_3_eq_3)
  then have "(\<Sum>p \<leftarrow> replicate 683 full_triangle. polygon_height False 1 p) > 64 * 2048" by (simp add: sum_list_replicate)
  with frame_rows_all [OF ok, of old olde False 1]
  show "\<exists>ss rr xs. frame_rows old olde False 1 (replicate 683 full_triangle) = Some (ss, rr, xs) \<and> length rr > 64 * 2048" by auto
qed

end
