(* ===== verification/Gpu3DCalls.thy ===== *)
theory Gpu3DCalls
  imports Gpu3DVariants Gpu3DPolygons VkCalls
begin

unbundle bit_operations_syntax

text \<open>
  The 3D renderer, fourth part: its calls on the command layer.  A dispatch of a compute shader makes the
  textures it samples readable, binds all buffers and records the work; barriers separate the dispatches
  that hand data to each other.
\<close>

section \<open>Calls\<close>

text \<open>The renderer's own textures, after those of the 2D renderers; the arrays of the texture cache have numbers of their own.\<close>

definition ClearBitmapTex :: "nat \<Rightarrow> nat" where "ClearBitmapTex i = 137 + i"
definition DummyTexture :: nat where "DummyTexture = 139"

text \<open>The push constants of a rasteriser; its single-precision values are exact, the sizes being powers of two.\<close>

record push_constants =
  pc_CurVariant :: nat
  pc_TexIsCapture :: nat
  pc_CaptureYOffset :: rat
  pc_InvTextureSize :: "rat \<times> rat"

datatype groups = Groups nat nat nat | Indirect nat

datatype call3d =
    BufferWrite gbuf nat
  | TextureWrite nat nat nat nat "u32 list"
  | NewTexture nat texture_desc
  | DropTexture nat
  | ClearTexture nat
  | FlushAll
  | ComputeBarrier
  | Dispatch nat groups "nat option" "nat option" "push_constants option"

section \<open>Dispatches\<close>

definition sampled3d :: "nat option \<Rightarrow> nat list" where
  "sampled3d t =
     [case t of None \<Rightarrow> DummyTexture | Some x \<Rightarrow> x, CaptureOutput128Tex, CaptureOutput256Tex, ClearBitmapTex 0, ClearBitmapTex 1]"

definition use_compute :: "nat \<Rightarrow> stream \<Rightarrow> stream" where
  "use_compute t s = Use t LShaderRead {ComputeShader} {ShaderRead} False s"

definition texture_handles :: "stream \<Rightarrow> nat list \<Rightarrow> nat list" where
  "texture_handles s ts = concat (map (\<lambda>t. [tx_image (st_tex s t), tx_view (st_tex s t)]) ts)"

text \<open>
  C30: The images are bound with the layouts their barriers made; the screen is written by the final passes only.\<close>

definition dispatch_setup :: "bool \<Rightarrow> nat \<Rightarrow> nat option \<Rightarrow> stream \<Rightarrow> stream" where
  "dispatch_setup full pipeline t s =
     (let s1 = fold use_compute (sampled3d t) s;
          s2 = (if pipeline \<ge> P_FinalPassFirst then Use OutputTex3D LGeneral {ComputeShader} {ShaderWrite} True s1 else s1)
      in AllocateDescriptorSet full s2)"

definition do_dispatch :: "bool \<Rightarrow> nat \<Rightarrow> groups \<Rightarrow> nat option \<Rightarrow> stream \<Rightarrow> stream" where
  "do_dispatch full pipeline gs t s =
     (let s1 = dispatch_setup full pipeline t s; c = CDispatch pipeline (texture_handles s1 (sampled3d t @ [OutputTex3D])) in
      case gs of Indirect off \<Rightarrow> emit c s1 | Groups x y z \<Rightarrow> if x \<noteq> 0 \<and> y \<noteq> 0 \<and> z \<noteq> 0 then emit c s1 else s1)"

definition compute_barrier :: "stream \<Rightarrow> stream" where
  "compute_barrier s = MemoryBarrier {ComputeShader} {ShaderWrite} {ComputeShader, DrawIndirect} {ShaderRead, ShaderWrite, IndirectRead} s"

definition clear_texture :: "nat \<Rightarrow> stream \<Rightarrow> stream" where
  "clear_texture t s =
     (let s1 = Use t LTransferDst {Transfer} {TransferWrite} True s in emit (CClearImage (tx_image (st_tex s1 t))) s1)"

fun run3d :: "bool \<Rightarrow> bool \<Rightarrow> call3d \<Rightarrow> stream \<Rightarrow> stream" where
  "run3d full ok (BufferWrite b n) s = UploadBuffer n s"
| "run3d full ok (TextureWrite t layer w h ps) s = UploadTexture t (int w) (int h) 4 s"
| "run3d full ok (NewTexture t d) s = fst (CreateTexture ok t d s)"
| "run3d full ok (DropTexture t) s = DestroyTexture t s"
| "run3d full ok (ClearTexture t) s = clear_texture t s"
| "run3d full ok FlushAll s = Flush True s"
| "run3d full ok ComputeBarrier s = compute_barrier s"
| "run3d full ok (Dispatch p gs t smp pc) s = do_dispatch full p gs t s"

fun fits3d :: "call3d \<Rightarrow> bool" where
  "fits3d (BufferWrite b n) \<longleftrightarrow> n \<le> kRingSize"
| "fits3d (TextureWrite t layer w h ps) \<longleftrightarrow> w * h * 4 \<le> kRingSize"
| "fits3d _ \<longleftrightarrow> True"

section \<open>The command layer stays in its rules\<close>

lemma fold_use_reach: "stream_reach s \<Longrightarrow> stream_reach (fold use_compute ts s)"
  by (induction ts arbitrary: s) (simp_all add: use_compute_def stream_reach.use)

lemma run3d_reach: "stream_reach s \<Longrightarrow> fits3d c \<Longrightarrow> stream_reach (run3d full ok c s)"
proof (cases c)
  case (Dispatch p gs t smp pc)
  assume s: "stream_reach s"
  have "stream_reach (dispatch_setup full p t s)"
    using fold_use_reach [OF s] by (simp add: dispatch_setup_def Let_def stream_reach.use stream_reach.descriptor_set)
  then show ?thesis by (simp add: Dispatch do_dispatch_def Let_def stream_reach.command split: groups.split)
qed (simp_all add: stream_reach.intros compute_barrier_def clear_texture_def Let_def)

definition runs3d :: "bool \<Rightarrow> bool \<Rightarrow> call3d list \<Rightarrow> stream \<Rightarrow> stream" where
  "runs3d full ok = fold (run3d full ok)"

lemma runs3d_reach: "stream_reach s \<Longrightarrow> \<forall>c \<in> set cs. fits3d c \<Longrightarrow> stream_reach (runs3d full ok cs s)"
  unfolding runs3d_def by (induction cs arbitrary: s) (simp_all add: run3d_reach)

section \<open>The images a dispatch reads are readable\<close>

lemma upd_slot_tex [simp]: "st_tex (upd_slot f s) = st_tex s"
  by (simp add: upd_slot_def)

lemma fold_release [simp]: "st_tex (fold release rs s) = st_tex s" "st_pass (fold release rs s) = st_pass s"
  by (induction rs arbitrary: s) (simp_all add: release_def)

lemma run_frees_tex [simp]: "st_tex (run_frees s) = st_tex s" "st_pass (run_frees s) = st_pass s"
  by (simp_all add: run_frees_def Let_def upd_slot_def)

lemma BeginSlot_tex [simp]: "st_tex (BeginSlot s) = st_tex s"
  by (simp add: BeginSlot_def Let_def wait_fence_def)

lemma emit_tex [simp]: "st_tex (emit c s) = st_tex s"
  by (simp add: emit_def put_cmd_def)

lemma EndRendering_tex [simp]: "st_tex (EndRendering s) = st_tex s"
  by (simp add: EndRendering_def put_cmd_def)

lemma Flush_tex [simp]: "st_tex (Flush w s) = st_tex s"
  by (simp add: Flush_def Let_def wait_fence_def)

lemma BeginSlot_pass [simp]: "st_pass (BeginSlot s) = st_pass s"
  by (simp add: BeginSlot_def Let_def wait_fence_def upd_slot_def)

lemma Flush_pass: "st_pass s = 0 \<Longrightarrow> st_pass (Flush False s) = 0"
  by (simp add: Flush_def Let_def upd_slot_def EndRendering_pass)

lemma AllocateDescriptorSet_tex [simp]: "st_tex (AllocateDescriptorSet full s) = st_tex s"
  by (simp add: AllocateDescriptorSet_def AllocateSet_def Let_def RestartSlot_def EndRendering_pass)

definition readable :: "stream \<Rightarrow> nat \<Rightarrow> bool" where
  "readable s t \<longleftrightarrow> tx_layout (st_tex s t) = LShaderRead \<and> \<not> tx_lastWasWrite (st_tex s t)"

lemma use_compute_tex: "readable (use_compute t s) t" "readable s u \<Longrightarrow> readable (use_compute t s) u"
  by (auto simp: readable_def use_compute_def Use_def Let_def)

lemma fold_use_readable: "u \<in> set ts \<or> readable s u \<Longrightarrow> readable (fold use_compute ts s) u"
  by (induction ts arbitrary: s) (auto simp: use_compute_tex)



end
