(* ===== verification/Gpu3DFrame.thy ===== *)
theory Gpu3DFrame
  imports Gpu3DCalls
begin

unbundle bit_operations_syntax

text \<open>
  The 3D renderer, fifth part: its settings and a frame.  The frame is a list of calls; the shaders' own
  work is not modelled, only which parts of the buffers they read and write.
\<close>

section \<open>Starting and settings\<close>

record render3d =
  r3_Scale :: int
  r3_Hires :: bool
  r3_ClearBitmapDirty :: u8
  r3_Pipelines :: bool

definition r3_new :: render3d where
  "r3_new = \<lparr>r3_Scale = - 1, r3_Hires = False, r3_ClearBitmapDirty = 3, r3_Pipelines = False\<rparr>"

definition clear_desc :: texture_desc where
  "clear_desc = \<lparr>td_width = 256, td_height = 256, td_layers = 1, td_format = 98, td_renderTarget = False, td_depth = False\<rparr>"

definition array_desc :: "nat \<Rightarrow> nat \<Rightarrow> nat \<Rightarrow> texture_desc" where
  "array_desc w h layers = \<lparr>td_width = w, td_height = h, td_layers = layers, td_format = 41, td_renderTarget = False, td_depth = False\<rparr>"

text \<open>
  \<open>layout\<close>, \<open>ok\<close> and \<open>buffers\<close> say whether the pipeline layout, the textures and the buffers of fixed
  size can be created.
\<close>

definition r3_Init :: "bool \<Rightarrow> (nat \<Rightarrow> bool) \<Rightarrow> bool \<Rightarrow> bool \<times> call3d list" where
  "r3_Init layout ok buffers =
     (let blank = (\<lambda>i. TextureWrite (ClearBitmapTex i) 0 256 256 (replicate (256 * 256) 0));
          c0 = [NewTexture (ClearBitmapTex 0) clear_desc]; c1 = c0 @ [NewTexture (ClearBitmapTex 1) clear_desc];
          c2 = c1 @ [blank 0, blank 1, NewTexture DummyTexture (array_desc 1 1 1)] in
      if \<not> layout then (False, [])
      else if \<not> ok (ClearBitmapTex 0) then (False, c0)
      else if \<not> ok (ClearBitmapTex 1) then (False, c1)
      else if \<not> ok DummyTexture then (False, c2)
      else (buffers, c2 @ [TextureWrite DummyTexture 0 1 1 [0]]))"

definition r3_Reset :: "render3d \<Rightarrow> render3d" where
  "r3_Reset r = r\<lparr>r3_ClearBitmapDirty := 3\<rparr>"

text \<open>\<open>made\<close>: the pipeline of the first final pass could be created.  At a new scale the screen is made new, transparent.\<close>

definition r3_SetRenderSettings :: "bool \<Rightarrow> int \<Rightarrow> bool \<Rightarrow> render3d \<Rightarrow> render3d \<times> call3d list" where
  "r3_SetRenderSettings made scale hires r =
     (let r1 = r\<lparr>r3_Hires := hires\<rparr> in
      if scale = r3_Scale r1 then (r1, [])
      else let g = tiling_at (nat scale) in
        (r1\<lparr>r3_Scale := scale, r3_Pipelines := made\<rparr>,
         [FlushAll, NewTexture OutputTex3D \<lparr>td_width = g_ScreenWidth g, td_height = g_ScreenHeight g, td_layers = 1, td_format = 37,
            td_renderTarget = False, td_depth = False\<rparr>, ClearTexture OutputTex3D]))"

text \<open>The loader of the texture cache.\<close>

definition GenerateTexture :: "nat \<Rightarrow> nat \<Rightarrow> nat \<Rightarrow> nat \<Rightarrow> call3d list" where
  "GenerateTexture t w h layers = [NewTexture t (array_desc w h layers)]"

definition loader_UploadTexture :: "nat \<Rightarrow> nat \<Rightarrow> nat \<Rightarrow> nat \<Rightarrow> u32 list \<Rightarrow> call3d list" where
  "loader_UploadTexture t w h layer ps = [TextureWrite t layer w h ps]"

definition DeleteTexture :: "nat \<Rightarrow> call3d list" where
  "DeleteTexture t = [DropTexture t]"

section \<open>The console's registers\<close>

record gpu3d =
  z_Polygons :: "polygon list"
  z_DispCnt :: u32
  z_AlphaRef :: u8
  z_ClearAttr1 :: u32
  z_ClearAttr2 :: u32
  z_ToonTable :: "nat \<Rightarrow> u16"
  z_EdgeTable :: "nat \<Rightarrow> u16"
  z_FogDensityTable :: "nat \<Rightarrow> u8"
  z_FogColor :: u32
  z_FogOffset :: u32
  z_FogShift :: u32

record meta_uniform =
  m_NumPolygons :: nat
  m_NumVariants :: nat
  m_AlphaRef :: u32
  m_DispCnt :: u32
  m_ToonTable :: "nat \<Rightarrow> u32"
  m_ClearColor :: u32
  m_ClearDepth :: u32
  m_ClearAttr :: u32
  m_FogOffset :: u32
  m_FogShift :: u32
  m_FogColor :: u32
  m_ClearBitmapOffset :: "rat \<times> rat"

text \<open>Four tables side by side: toon colours, fog densities and edge colours; the rest is what the stack holds.\<close>

definition toon_table :: "(nat \<Rightarrow> u32) \<Rightarrow> gpu3d \<Rightarrow> nat \<Rightarrow> u32" where
  "toon_table junk z k =
     (let i = k div 4 in
      if k mod 4 = 0 \<and> i < 32 then rgb6 (ucast (z_ToonTable z i))
      else if k mod 4 = 1 \<and> i < 34 then ucast (z_FogDensityTable z i)
      else if k mod 4 = 2 \<and> i < 8 then rgb6 (ucast (z_EdgeTable z i))
      else junk k)"

definition meta_of :: "(nat \<Rightarrow> u32) \<Rightarrow> gpu3d \<Rightarrow> nat \<Rightarrow> meta_uniform" where
  "meta_of junk z numVariants =
     (let byte = (\<lambda>n. rat_of_nat (unat (drop_bit n (z_ClearAttr2 z) AND 0xFF)) / 256) in
      \<lparr>m_NumPolygons = length (z_Polygons z), m_NumVariants = numVariants, m_AlphaRef = ucast (z_AlphaRef z), m_DispCnt = z_DispCnt z,
       m_ToonTable = toon_table junk z,
       m_ClearColor = rgba6 (z_ClearAttr1 z) (drop_bit 16 (z_ClearAttr1 z) AND 0x1F),
       m_ClearDepth = depth24 (z_ClearAttr2 z), m_ClearAttr = z_ClearAttr1 z AND 0x3F008000,
       m_FogOffset = z_FogOffset z, m_FogShift = z_FogShift z,
       m_FogColor = rgba6 (z_FogColor z) (drop_bit 16 (z_FogColor z) AND 0x1F),
       m_ClearBitmapOffset = (byte 16, byte 24)\<rparr>)"

section \<open>The calls of a frame\<close>

text \<open>The clear bitmap: \<open>vram\<close> are the colours and the depths in video memory.\<close>

definition clear_bitmap :: "u32 \<Rightarrow> u16 list \<Rightarrow> u16 list \<Rightarrow> u8 \<Rightarrow> u8 \<times> call3d list" where
  "clear_bitmap dispCnt colors depths dirty =
     (if bit dispCnt 14
      then (0, (if bit dirty 0 then [TextureWrite (ClearBitmapTex 0) 0 256 256 (map clear_color colors)] else []) @
               (if bit dirty 1 then [TextureWrite (ClearBitmapTex 1) 0 256 256 (map clear_depth depths)] else []))
      else (dirty, []))"

definition raster_kind_of :: "bool \<Rightarrow> variant \<Rightarrow> raster_kind" where
  "raster_kind_of highlight v =
     (let toon = (\<lambda>h t. if highlight then h else t) in
      if Textured v
      then [R_UseTextureModulate, R_UseTextureDecal, toon R_UseTextureHighlight R_UseTextureToon, R_UseTextureDecal, R_ShadowMask] ! va_BlendMode v
      else [R_NoTexture, R_NoTexture, toon R_NoTextureHighlight R_NoTextureToon, R_NoTexture, R_ShadowMask] ! va_BlendMode v)"

definition inverse_size :: "nat \<Rightarrow> rat" where
  "inverse_size n = (if n = 0 then 0 else 1 / rat_of_nat n)"

definition push_of :: "nat \<Rightarrow> variant \<Rightarrow> push_constants" where
  "push_of i v =
     \<lparr>pc_CurVariant = i,
      pc_TexIsCapture = (if va_CaptureYOffset v \<noteq> - 1 then if va_Width v = 128 then 1 else 2 else 0),
      pc_CaptureYOffset = (if va_CaptureYOffset v \<noteq> - 1 then rat_of_int (va_CaptureYOffset v) / rat_of_nat (va_Height v) else 0),
      pc_InvTextureSize = (inverse_size (va_Width v), inverse_size (va_Height v))\<rparr>"

definition raster_dispatch :: "bool \<Rightarrow> bool \<Rightarrow> nat \<times> variant \<Rightarrow> call3d" where
  "raster_dispatch highlight wbuffer x =
     (case x of (i, v) \<Rightarrow>
        Dispatch (RasteriseIndex (raster_kind_of highlight v) wbuffer) (Indirect (i * 4 * 4)) (va_Tex v) (va_Sampler v) (Some (push_of i v)))"

definition final_shader :: "u32 \<Rightarrow> nat" where
  "final_shader d = (if bit d 4 then 4 else 0) + (if bit d 7 then 2 else 0) + (if bit d 5 then 1 else 0)"

definition plain_dispatch :: "nat \<Rightarrow> nat \<Rightarrow> nat \<Rightarrow> nat \<Rightarrow> call3d" where
  "plain_dispatch p x y z = Dispatch p (Groups x y z) None None None"

definition polygon_calls :: "tiling \<Rightarrow> gpu3d \<Rightarrow> variant list \<Rightarrow> nat \<Rightarrow> call3d list" where
  "polygon_calls g z tab numIndices =
     (let wbuffer = p_WBuffer (hd (z_Polygons z)); n = length (z_Polygons z) in
      [plain_dispatch P_ClearIndirectWorkCount ((length tab + 31) div 32) 1 1,
       plain_dispatch (if wbuffer then P_InterpXSpansW else P_InterpXSpansZ) ((numIndices + 31) div 32) 1 1, ComputeBarrier,
       plain_dispatch P_BinCombined ((n + 31) div 32) (g_ScreenWidth g div g_CoarseTileW g) (g_ScreenHeight g div g_CoarseTileH g), ComputeBarrier,
       plain_dispatch P_CalculateWorkListOffset ((length tab + 31) div 32) 1 1, ComputeBarrier,
       Dispatch P_SortWork (Indirect SortWork_offset) None None None, ComputeBarrier] @
      map (raster_dispatch (bit (z_DispCnt z) 1) wbuffer) (enumerate 0 tab))"

definition frame_calls :: "tiling \<Rightarrow> gpu3d \<Rightarrow> variant list \<Rightarrow> nat \<Rightarrow> nat \<Rightarrow> call3d list" where
  "frame_calls g z tab numSpans numIndices =
     (let n = length (z_Polygons z); wbuffer = (numSpans > 0 \<and> p_WBuffer (hd (z_Polygons z))) in
      (if numSpans > 0
       then [BufferWrite YSpans (SpanSetupY_bytes * numSpans), BufferWrite SetupIdx (numIndices * 4 * 2),
             BufferWrite Polygons (n * RenderPolygon_bytes)] else []) @
      [BufferWrite MetaBuf MetaUniform_bytes,
       plain_dispatch P_ClearCoarseBinMask (g_TilesPerLine g * g_TileLines g div g_ClearLocal g) 1 1] @
      (if numSpans > 0 then polygon_calls g z tab numIndices else []) @
      [ComputeBarrier,
       plain_dispatch (if wbuffer then P_DepthBlendW else P_DepthBlendZ) (g_ScreenWidth g div g_TileSize g) (g_ScreenHeight g div g_TileSize g) 1,
       ComputeBarrier,
       plain_dispatch (P_FinalPassFirst + final_shader (z_DispCnt z)) (g_ScreenWidth g div 32) (g_ScreenHeight g) 1])"

text \<open>
  A frame: the variants and rows of its polygons, the contents of the uniforms and the calls.  \<open>update\<close> is
  what the texture cache says, whether textures changed and which parts of the clear bitmap did; \<open>same\<close>
  whether the console's state is that of the frame before.  None would be a frame that does not return.
\<close>

record frame3d =
  f3_rows :: "span_y list \<times> row list \<times> placed list"
  f3_variants :: "(nat \<times> nat) list"
  f3_meta :: meta_uniform
  f3_calls :: "call3d list"

definition r3_RenderFrame ::
  "(nat \<Rightarrow> u32) \<Rightarrow> (nat \<Rightarrow> span_y) \<Rightarrow> (nat \<Rightarrow> extent) \<Rightarrow> (nat \<Rightarrow> int) \<Rightarrow> (u64 \<Rightarrow> nat \<times> nat) \<Rightarrow> (u64 \<Rightarrow> nat) \<Rightarrow> bool \<times> u8 \<Rightarrow> bool \<Rightarrow>
   u16 list \<Rightarrow> u16 list \<Rightarrow> gpu3d \<Rightarrow> render3d \<Rightarrow> (render3d \<times> frame3d option) option" where
  "r3_RenderFrame junk old olde info cache hints update same colors depths z r =
     (if \<not> r3_Pipelines r \<or> \<not> fst update \<and> same then Some (r, None)
      else
        let (dirty, cs) = clear_bitmap (z_DispCnt z) colors depths (r3_ClearBitmapDirty r OR snd update);
            (vs, rv) = frame_variants (bit (z_DispCnt z) 0) info cache None (z_Polygons z) (variants_start hints) in
        case frame_rows old olde (r3_Hires r) (r3_Scale r) (z_Polygons z) of
          None \<Rightarrow> None
        | Some (spans, rws, xs) \<Rightarrow>
            Some (r\<lparr>r3_ClearBitmapDirty := dirty\<rparr>,
                  Some \<lparr>f3_rows = (spans, rws, xs), f3_variants = rv, f3_meta = meta_of junk z (length (vs_table vs)),
                        f3_calls = cs @ frame_calls (tiling_at (nat (r3_Scale r))) z (vs_table vs) (length spans) (length rws)\<rparr>))"

section \<open>The shaders' accesses\<close>

text \<open>The parts of the buffers that the shaders tell apart.\<close>

datatype part =
    PolygonPart | XSpanPart | YSpanPart | IndexPart | MetaPart | VariantCount | SortedOffset | SortCount | CoarseMask | FineMask
  | WorkOffset | UnsortedWork | SortedWork | ColorPart | DepthPart | AttrPart | ResultPart

definition shader_reads :: "shader3d \<Rightarrow> part list" where
  "shader_reads s =
     (case s of
        InterpSpans w \<Rightarrow> [IndexPart, YSpanPart, PolygonPart, MetaPart]
      | BinCombined \<Rightarrow> [PolygonPart, XSpanPart, MetaPart, CoarseMask, VariantCount]
      | CalcOffsets \<Rightarrow> [MetaPart, VariantCount]
      | SortWork \<Rightarrow> [VariantCount, UnsortedWork, PolygonPart, SortedOffset]
      | Rasterise k w \<Rightarrow> [SortedWork, SortedOffset, PolygonPart, XSpanPart, MetaPart]
      | DepthBlend w \<Rightarrow> [CoarseMask, FineMask, WorkOffset, ColorPart, DepthPart, AttrPart, PolygonPart, MetaPart]
      | FinalPass3D f \<Rightarrow> [ResultPart, MetaPart]
      | ClearCoarseBinMask \<Rightarrow> []
      | ClearIndirectWorkCount \<Rightarrow> [])"

definition shader_writes :: "shader3d \<Rightarrow> part list" where
  "shader_writes s =
     (case s of
        InterpSpans w \<Rightarrow> [XSpanPart]
      | BinCombined \<Rightarrow> [FineMask, CoarseMask, WorkOffset, VariantCount, UnsortedWork]
      | CalcOffsets \<Rightarrow> [SortCount, SortedOffset, VariantCount]
      | SortWork \<Rightarrow> [SortedWork]
      | Rasterise k w \<Rightarrow> [ColorPart, DepthPart, AttrPart]
      | DepthBlend w \<Rightarrow> [ResultPart]
      | FinalPass3D f \<Rightarrow> []
      | ClearCoarseBinMask \<Rightarrow> [CoarseMask]
      | ClearIndirectWorkCount \<Rightarrow> [VariantCount])"

text \<open>The part that an indirect dispatch takes its size from.\<close>

definition size_part :: "groups \<Rightarrow> part list" where
  "size_part gs = (case gs of Groups x y z \<Rightarrow> [] | Indirect off \<Rightarrow> if off = SortWork_offset then [SortCount] else [VariantCount])"

text \<open>
  C28: No dispatch touches what another dispatch since the last barrier has written, or writes what one has
  read.  Rasterisers write to the same parts, each work item to a tile of its own.
\<close>

fun synced :: "part set \<Rightarrow> part set \<Rightarrow> call3d list \<Rightarrow> bool" where
  "synced W R [] = True"
| "synced W R (c # cs) =
     (case c of
        BufferWrite b n \<Rightarrow> synced (if n = 0 then W else {}) (if n = 0 then R else {}) cs
      | ComputeBarrier \<Rightarrow> synced {} {} cs
      | FlushAll \<Rightarrow> synced {} {} cs
      | Dispatch p gs t smp pc \<Rightarrow>
          (let rd = set (shader_reads (kShaders ! p) @ size_part gs); wr = set (shader_writes (kShaders ! p)) in
           rd \<inter> W = {} \<and> wr \<inter> R = {} \<and> wr \<inter> W \<subseteq> {ColorPart, DepthPart, AttrPart} \<and> synced (W \<union> wr) (R \<union> rd) cs)
      | _ \<Rightarrow> synced W R cs)"

lemma synced_dispatch:
  "synced W R (Dispatch p gs t smp pc # cs) \<longleftrightarrow>
     (set (shader_reads (kShaders ! p)) \<union> set (size_part gs)) \<inter> W = {} \<and> set (shader_writes (kShaders ! p)) \<inter> R = {} \<and>
     set (shader_writes (kShaders ! p)) \<inter> W \<subseteq> {ColorPart, DepthPart, AttrPart} \<and>
     synced (W \<union> set (shader_writes (kShaders ! p))) (R \<union> (set (shader_reads (kShaders ! p)) \<union> set (size_part gs))) cs"
  by (simp add: Let_def)

lemma synced_barrier: "synced W R (ComputeBarrier # cs) \<longleftrightarrow> synced {} {} cs"
  by simp

lemma synced_buffer: "synced W R (BufferWrite b n # cs) \<longleftrightarrow> synced (if n = 0 then W else {}) (if n = 0 then R else {}) cs"
  by simp

lemma synced_write: "0 < n \<Longrightarrow> synced W R (BufferWrite b n # cs) \<longleftrightarrow> synced {} {} cs"
  by simp

lemma synced_raster:
  assumes "W \<subseteq> {ColorPart, DepthPart, AttrPart}" "R \<inter> {ColorPart, DepthPart, AttrPart} = {}"
    "\<And>V Q. synced V Q cs"
  shows "synced W R (map (raster_dispatch h w) xs @ cs)"
  using assms(1,2)
proof (induction xs arbitrary: W R)
  case Nil
  then show ?case using assms(3) by simp
next
  case (Cons x xs)
  obtain i v where x: "x = (i, v)" by force
  have k: "kShaders ! RasteriseIndex k w = Rasterise k w" for k by (rule kShaders_raster)
  let ?gs = "Indirect (i * 4 * 4)"
  have s: "set (size_part ?gs) \<subseteq> {SortCount, VariantCount}" by (auto simp: size_part_def)
  have rd: "set (shader_reads (Rasterise k w)) = {SortedWork, SortedOffset, PolygonPart, XSpanPart, MetaPart}"
    and wr: "set (shader_writes (Rasterise k w)) = {ColorPart, DepthPart, AttrPart}" for k by (simp_all add: shader_reads_def shader_writes_def)
  have "synced (W \<union> {ColorPart, DepthPart, AttrPart}) (R \<union> ({SortedWork, SortedOffset, PolygonPart, XSpanPart, MetaPart} \<union> set (size_part ?gs)))
    (map (raster_dispatch h w) xs @ cs)"
    using Cons.prems s by (intro Cons.IH) auto
  moreover have "({SortedWork, SortedOffset, PolygonPart, XSpanPart, MetaPart} \<union> set (size_part ?gs)) \<inter> W = {}" using Cons.prems(1) s by auto
  moreover have "{ColorPart, DepthPart, AttrPart} \<inter> R = {}" using Cons.prems(2) by auto
  ultimately show ?case unfolding x list.map append_Cons raster_dispatch_def prod.case synced_dispatch k rd wr by simp
qed

lemma final_shader_less: "final_shader d < 8"
  by (simp add: final_shader_def)

lemmas accesses = kShaders_at shader_reads_def shader_writes_def size_part_def

definition frame_end :: "tiling \<Rightarrow> gpu3d \<Rightarrow> bool \<Rightarrow> call3d list" where
  "frame_end g z wbuffer =
     [ComputeBarrier,
      plain_dispatch (if wbuffer then P_DepthBlendW else P_DepthBlendZ) (g_ScreenWidth g div g_TileSize g) (g_ScreenHeight g div g_TileSize g) 1,
      ComputeBarrier,
      plain_dispatch (P_FinalPassFirst + final_shader (z_DispCnt z)) (g_ScreenWidth g div 32) (g_ScreenHeight g) 1]"

lemma synced_end: "synced W R (frame_end g z wbuffer)"
  by (simp add: frame_end_def plain_dispatch_def kShaders_final final_shader_less accesses)

lemma synced_polygons: "synced {CoarseMask} {} (polygon_calls g z tab n @ frame_end g z wbuffer)"
proof -
  have r: "synced {} {} (map (raster_dispatch h w) xs @ frame_end g z wbuffer)" for h w xs by (rule synced_raster) (auto simp: synced_end)
  show ?thesis
    unfolding polygon_calls_def Let_def append_Cons append_Nil append_assoc plain_dispatch_def synced_dispatch synced_barrier
    by (simp add: accesses r)
qed

theorem dispatches_synced: "synced W R (frame_calls g z tab numSpans numIndices)"
proof -
  let ?w = "numSpans > 0 \<and> p_WBuffer (hd (z_Polygons z))"
  have e: "frame_calls g z tab numSpans numIndices =
    (if numSpans > 0
     then [BufferWrite YSpans (SpanSetupY_bytes * numSpans), BufferWrite SetupIdx (numIndices * 4 * 2),
           BufferWrite Polygons (length (z_Polygons z) * RenderPolygon_bytes)] else []) @
    BufferWrite MetaBuf MetaUniform_bytes #
    plain_dispatch P_ClearCoarseBinMask (g_TilesPerLine g * g_TileLines g div g_ClearLocal g) 1 1 #
    (if numSpans > 0 then polygon_calls g z tab numIndices else []) @ frame_end g z ?w"
    by (simp add: frame_calls_def frame_end_def Let_def)
  have m: "0 < MetaUniform_bytes" by (simp add: MetaUniform_bytes_def)
  have main: "synced V Q (BufferWrite MetaBuf MetaUniform_bytes #
    plain_dispatch P_ClearCoarseBinMask (g_TilesPerLine g * g_TileLines g div g_ClearLocal g) 1 1 #
    (if numSpans > 0 then polygon_calls g z tab numIndices else []) @ frame_end g z ?w)" for V Q
    unfolding synced_write [OF m] plain_dispatch_def synced_dispatch by (simp add: accesses synced_polygons synced_end)
  show ?thesis
  proof (cases "numSpans > 0")
    case True
    show ?thesis unfolding e if_P [OF True] append_Cons append_Nil
      by (subst synced_buffer, subst synced_buffer, subst synced_buffer) (rule main [unfolded if_P [OF True]])
  next
    case False
    show ?thesis unfolding e if_not_P [OF False] append_Nil by (rule main [unfolded if_not_P [OF False] append_Nil])
  qed
qed

text \<open>A frame without polygons, and one whose dispatches lack a barrier.\<close>

lemma unsynced_example: "\<not> synced {} {} [plain_dispatch P_BinCombined 1 1 1, plain_dispatch P_CalculateWorkListOffset 1 1 1]"
  by (simp add: plain_dispatch_def accesses)

section \<open>Sizes\<close>

text \<open>A call within the sizes of its buffers, the device's limit of 65535 work groups and the pipelines there are.\<close>

definition groups_ok :: "groups \<Rightarrow> bool" where
  "groups_ok gs = (case gs of Groups x y z \<Rightarrow> x \<le> 65535 \<and> y \<le> 65535 \<and> z \<le> 65535 | Indirect off \<Rightarrow> off + 12 \<le> BinResultHeader_bytes)"

fun in_bounds :: "nat \<Rightarrow> call3d \<Rightarrow> bool" where
  "in_bounds scale (BufferWrite b n) \<longleftrightarrow> n \<le> buffer_bytes scale b \<and> n \<le> kRingSize"
| "in_bounds scale (Dispatch p gs t smp pc) \<longleftrightarrow> p < P_Count \<and> groups_ok gs"
| "in_bounds scale c \<longleftrightarrow> fits3d c"

lemma in_bounds_fits: "in_bounds scale c \<Longrightarrow> fits3d c"
  by (cases c) simp_all

lemma RasteriseIndex_less: "RasteriseIndex k w < P_Count"
  by (cases k) (simp_all add: RasteriseIndex_def raster_number_def pipeline_numbers)

lemma raster_in_bounds: "i < kMaxVariants \<Longrightarrow> in_bounds scale (raster_dispatch h w (i, v))"
  by (simp add: raster_dispatch_def RasteriseIndex_less groups_ok_def BinResultHeader_bytes_def kMaxVariants_def)

text \<open>The sizes of the dispatches that depend on the scale.\<close>

lemma tiling_groups:
  assumes "1 \<le> scale" "scale \<le> 16" "g = tiling_at scale"
  shows "g_TilesPerLine g * g_TileLines g div g_ClearLocal g \<le> 65535 \<and> g_ScreenWidth g div g_CoarseTileW g \<le> 65535 \<and>
    g_ScreenHeight g div g_CoarseTileH g \<le> 65535 \<and> g_ScreenWidth g div g_TileSize g \<le> 65535 \<and>
    g_ScreenHeight g div g_TileSize g \<le> 65535 \<and> g_ScreenWidth g div 32 \<le> 65535 \<and> g_ScreenHeight g \<le> 65535"
proof -
  have sq: "scale * scale \<le> 16 * 16" using assms(2) by (intro mult_le_mono)
  have "g_TilesPerLine g * g_TileLines g div g_ClearLocal g = (if scale < 5 then 12 else if scale < 9 then 3 else 1) * (scale * scale)"
  proof -
    have "(768 * (scale * scale)) div 64 = 12 * (scale * scale)" "(192 * (scale * scale)) div 64 = 3 * (scale * scale)"
      "(48 * (scale * scale)) div 48 = scale * scale" by simp_all
    then show ?thesis using assms by (simp add: tiling_values mult.commute mult.left_commute)
  qed
  with sq have "g_TilesPerLine g * g_TileLines g div g_ClearLocal g \<le> 65535" by simp
  then show ?thesis using assms by (simp add: tiling_values)
qed

lemma frame_calls_in_bounds:
  assumes "1 \<le> scale" "scale \<le> 16" "length (z_Polygons z) \<le> 2048" "numSpans \<le> kMaxYSpanSetups"
    "numIndices \<le> max_indices scale" "numIndices \<le> 32 * 65535" "length tab \<le> kMaxVariants"
    "c \<in> set (frame_calls (tiling_at scale) z tab numSpans numIndices)"
  shows "in_bounds scale c"
proof -
  note t = tiling_groups [OF assms(1,2) refl]
  have writes: "in_bounds scale (BufferWrite YSpans (SpanSetupY_bytes * numSpans))" "in_bounds scale (BufferWrite SetupIdx (numIndices * 4 * 2))"
    "in_bounds scale (BufferWrite Polygons (length (z_Polygons z) * RenderPolygon_bytes))" "in_bounds scale (BufferWrite MetaBuf MetaUniform_bytes)"
    using assms(1-6) by (simp_all add: buffer_bytes_def Let_def SpanSetupY_bytes_def kMaxYSpanSetups_def RenderPolygon_bytes_def
      MetaUniform_bytes_def max_indices_def kRingSize_def)
  have plain: "in_bounds scale (plain_dispatch p x y w)" if "p < P_Count" "x \<le> 65535" "y \<le> 65535" "w \<le> 65535" for p x y w
    using that by (simp add: plain_dispatch_def groups_ok_def)
  have numbers: "P_ClearIndirectWorkCount < P_Count" "P_InterpXSpansW < P_Count" "P_InterpXSpansZ < P_Count" "P_BinCombined < P_Count"
    "P_CalculateWorkListOffset < P_Count" "P_SortWork < P_Count" "P_ClearCoarseBinMask < P_Count" "P_DepthBlendW < P_Count" "P_DepthBlendZ < P_Count"
    "P_FinalPassFirst + final_shader (z_DispCnt z) < P_Count" using final_shader_less by (simp_all add: pipeline_numbers)
  have sort: "groups_ok (Indirect SortWork_offset)"
    by (simp add: groups_ok_def SortWork_offset_def BinResultHeader_bytes_def)
  have raster: "in_bounds scale x" if "x \<in> set (map (raster_dispatch h w) (enumerate 0 tab))" for x h w
    using that assms(7) by (auto simp: in_set_enumerate_eq intro!: raster_in_bounds)
  have polys: "in_bounds scale x" if "x \<in> set (polygon_calls (tiling_at scale) z tab numIndices)" for x
    using that assms(3,6,7) t raster
    by (auto simp: polygon_calls_def Let_def sort kMaxVariants_def intro!: plain numbers split: if_splits)
  show ?thesis
    using assms(8) writes polys t
    by (auto simp: frame_calls_def Let_def intro!: plain numbers split: if_splits)
qed

text \<open>
  C29: A frame returns, and the command layer stays in its rules: as long as the polygons are well formed and
  their spans, rows and variants fit into the arrays, whose capacity the code does not check.
\<close>

definition frame_fits :: "nat \<Rightarrow> bool \<Rightarrow> gpu3d \<Rightarrow> bool" where
  "frame_fits scale hires z \<longleftrightarrow>
     (let ps = z_Polygons z; rows = (\<Sum>p \<leftarrow> ps. polygon_height hires (int scale) p) in
      1 \<le> scale \<and> scale \<le> 16 \<and> (\<forall>p \<in> set ps. polygon_ok p) \<and> length ps \<le> 2048 \<and>
      (\<Sum>p \<leftarrow> ps. length (p_Vertices p) + 2) \<le> kMaxYSpanSetups \<and> rows \<le> max_indices scale \<and> rows \<le> 32 * 65535)"

lemma clear_bitmap_fits: "c \<in> set (snd (clear_bitmap d colors depths dirty)) \<Longrightarrow> in_bounds scale c"
  by (auto simp: clear_bitmap_def kRingSize_def split: if_splits)

theorem frame3d_safe:
  assumes "stream_reach s" "frame_fits scale (r3_Hires r) z" "r3_Scale r = int scale"
    "length (vs_table (fst (frame_variants (bit (z_DispCnt z) 0) info cache None (z_Polygons z) (variants_start hints)))) \<le> kMaxVariants"
  shows "\<exists>r' f. r3_RenderFrame junk old olde info cache hints update same colors depths z r = Some (r', f) \<and>
    (\<forall>x. f = Some x \<longrightarrow> (\<forall>c \<in> set (f3_calls x). in_bounds scale c) \<and> stream_reach (runs3d full ok (f3_calls x) s))"
proof (cases "\<not> r3_Pipelines r \<or> \<not> fst update \<and> same")
  case True
  then show ?thesis by (auto simp: r3_RenderFrame_def)
next
  case False
  obtain dirty cs where c: "clear_bitmap (z_DispCnt z) colors depths (r3_ClearBitmapDirty r OR snd update) = (dirty, cs)" by force
  obtain vs rv where v: "frame_variants (bit (z_DispCnt z) 0) info cache None (z_Polygons z) (variants_start hints) = (vs, rv)" by force
  have f: "1 \<le> scale" "scale \<le> 16" "\<forall>p \<in> set (z_Polygons z). polygon_ok p" "length (z_Polygons z) \<le> 2048"
    using assms(2) by (simp_all add: frame_fits_def Let_def)
  from frame_rows_all [OF f(3), of old olde "r3_Hires r" "r3_Scale r"] obtain ss rr xs where
    rw: "frame_rows old olde (r3_Hires r) (r3_Scale r) (z_Polygons z) = Some (ss, rr, xs)"
      "length ss \<le> (\<Sum>p \<leftarrow> z_Polygons z. length (p_Vertices p) + 2)"
      "length rr = (\<Sum>p \<leftarrow> z_Polygons z. polygon_height (r3_Hires r) (r3_Scale r) p)" by blast
  have n: "length ss \<le> kMaxYSpanSetups" "length rr \<le> max_indices scale" "length rr \<le> 32 * 65535"
    using rw(2,3) assms(2,3) by (simp_all add: frame_fits_def Let_def)
  define calls where "calls = cs @ frame_calls (tiling_at scale) z (vs_table vs) (length ss) (length rr)"
  have b: "\<forall>x \<in> set calls. in_bounds scale x"
    using clear_bitmap_fits [of _ "z_DispCnt z" colors depths "r3_ClearBitmapDirty r OR snd update" scale] c
      frame_calls_in_bounds [OF f(1,2,4) n, of "vs_table vs"] assms(4) v by (auto simp: calls_def)
  then have "stream_reach (runs3d full ok calls s)" using runs3d_reach [OF assms(1)] in_bounds_fits by blast
  then show ?thesis using False c v rw(1) b assms(3) by (simp add: r3_RenderFrame_def calls_def)
qed

definition demo3d :: gpu3d where
  "demo3d = \<lparr>z_Polygons = [demo_triangle], z_DispCnt = 0, z_AlphaRef = 0, z_ClearAttr1 = 0, z_ClearAttr2 = 0x7FFF, z_ToonTable = (\<lambda>i. 0),
     z_EdgeTable = (\<lambda>i. 0), z_FogDensityTable = (\<lambda>i. 0), z_FogColor = 0, z_FogOffset = 0, z_FogShift = 0\<rparr>"

lemma frame3d_safe_witness:
  "\<forall>junk old olde. \<exists>r' f. r3_RenderFrame junk old olde (\<lambda>b. - 1) (\<lambda>k. (256, 0)) (\<lambda>k. 0) (True, 0) False [] [] demo3d
     (r3_new\<lparr>r3_Scale := 4, r3_Pipelines := True\<rparr>) = Some (r', f) \<and>
     (\<forall>x. f = Some x \<longrightarrow> stream_reach (runs3d False True (f3_calls x) stream_new))"
proof (intro allI)
  fix junk old olde
  let ?r = "r3_new\<lparr>r3_Scale := 4, r3_Pipelines := True\<rparr>"
  have "y_top 768 (scaled False 4 demo_triangle) 3 = 8" "y_bot (scaled False 4 demo_triangle) 3 = 36"
    by (simp_all add: y_top_def y_bot_def scaled_def demo_triangle_def upt_rec Let_def)
  then have h: "polygon_height False 4 demo_triangle = 28" by (simp add: polygon_height_def demo_triangle_def Let_def numeral_3_eq_3)
  have "polygon_ok demo_triangle" "length (p_Vertices demo_triangle) = 3" by (simp_all add: polygon_ok_def demo_triangle_def)
  then have f: "frame_fits 4 (r3_Hires ?r) demo3d" using h
    by (simp add: frame_fits_def demo3d_def r3_new_def kMaxYSpanSetups_def max_indices_def)
  have v: "length (vs_table (fst (frame_variants (bit (z_DispCnt demo3d) 0) (\<lambda>b. - 1) (\<lambda>k. (256, 0)) None (z_Polygons demo3d) (variants_start (\<lambda>k. 0))))) \<le> kMaxVariants"
    using frame_variants_length [of "bit (z_DispCnt demo3d) 0" "\<lambda>b. - 1" "\<lambda>k. (256, 0)" None "z_Polygons demo3d" "variants_start (\<lambda>k. 0)"]
    by (simp add: demo3d_def variants_start_def kMaxVariants_def)
  have k: "r3_Scale ?r = int 4" by simp
  from frame3d_safe [OF stream_reach.start f k v, of junk old olde "(True, 0)" False "[]" "[]" False True]
  show "\<exists>r' f. r3_RenderFrame junk old olde (\<lambda>b. - 1) (\<lambda>k. (256, 0)) (\<lambda>k. 0) (True, 0) False [] [] demo3d ?r = Some (r', f) \<and>
     (\<forall>x. f = Some x \<longrightarrow> stream_reach (runs3d False True (f3_calls x) stream_new))" by blast
qed

end
