(* ===== verification/PresentScreens.thy ===== *)
theory PresentScreens
  imports Prelude "HOL-Library.Signed_Division"
begin

unbundle bit_operations_syntax

text \<open>
  What the two presenters share, \<^verbatim>\<open>Presenter.h\<close>: the places of the screens on the phone's display, the
  settings, the pixels of a software frame, and where a vertex of a screen ends up.  Positions are exact
  rational numbers; the code calculates them in single precision.
\<close>

section \<open>Layout and settings\<close>

datatype screen_filter = Nearest | Bilinear | SharpBilinear | Scanlines | LcdGrid | Xbrz | Crt

record screen_quad =
  q_screen :: int
  q_x :: rat
  q_y :: rat
  q_w :: rat
  q_h :: rat
  q_rotation :: int
  q_opacity :: rat

record present_settings =
  s_filter :: screen_filter
  s_colorCorrection :: bool
  s_backgroundArgb :: u32

definition settings_new :: present_settings where
  "settings_new = \<lparr>s_filter = SharpBilinear, s_colorCorrection = False, s_backgroundArgb = 0xFF000000\<rparr>"

text \<open>A clear colour, from 0 to 1, red first.\<close>

definition argb_channel :: "u32 \<Rightarrow> nat \<Rightarrow> rat" where
  "argb_channel c n = rat_of_nat (unat (drop_bit n c AND 0xFF)) / 255"

definition clear_rgba :: "u32 \<Rightarrow> rat \<times> rat \<times> rat \<times> rat" where
  "clear_rgba c = (argb_channel c 16, argb_channel c 8, argb_channel c 0, argb_channel c 24)"

text \<open>The quarter turns of a rotation in degrees, whatever its sign.\<close>

definition quarter_turns :: "int \<Rightarrow> int" where
  "quarter_turns r = ((r sdiv 90) smod 4 + 4) smod 4"

lemma quarter_turns_range: "0 \<le> quarter_turns r \<and> quarter_turns r < 4"
proof -
  have "- 4 < (r sdiv 90) smod 4" "(r sdiv 90) smod 4 < 4" using smod_int_range [of 4 "r sdiv 90"] by auto
  then show ?thesis using smod_int_range [of 4 "(r sdiv 90) smod 4 + 4"] by (simp add: quarter_turns_def signed_modulo_int_def sgn_if)
qed

definition sideways_quad :: "screen_quad \<Rightarrow> bool" where
  "sideways_quad q \<longleftrightarrow> quarter_turns (q_rotation q) = 1 \<or> quarter_turns (q_rotation q) = 3"

text \<open>The size of a quad along the axes of its texture.\<close>

definition out_size :: "screen_quad \<Rightarrow> rat \<times> rat" where
  "out_size q = (if sideways_quad q then (q_h q, q_w q) else (q_w q, q_h q))"

text \<open>The time between frames at a refresh rate, in nanoseconds.\<close>

definition interval_ns :: "rat \<Rightarrow> nat" where
  "interval_ns hz = nat \<lfloor>1000000000 / hz\<rfloor>"

section \<open>Pixels\<close>

text \<open>Exchanging red and blue, and making a pixel opaque.\<close>

definition swap_rb :: "u32 \<Rightarrow> u32" where
  "swap_rb p = (p AND 0x0000FF00) OR (drop_bit 16 p AND 0xFF) OR push_bit 16 (p AND 0xFF)"

definition opaque_pixel :: "bool \<Rightarrow> u32 \<Rightarrow> u32" where
  "opaque_pixel bgra p = (if bgra then swap_rb p else p) OR 0xFF000000"

definition read_pixels :: "bool \<Rightarrow> u32 list \<Rightarrow> u32 list" where
  "read_pixels bgra = map (opaque_pixel bgra)"

section \<open>Vertices\<close>

text \<open>Mixing two values, as the shaders do; the corners of a quad are 0 and 1 on both axes.\<close>

definition mix :: "rat \<Rightarrow> rat \<Rightarrow> rat \<Rightarrow> rat" where
  "mix a b t = a * (1 - t) + b * t"

text \<open>The point of the texture that a corner of the quad shows.\<close>

definition corner_uv :: "int \<Rightarrow> rat \<times> rat \<Rightarrow> rat \<times> rat" where
  "corner_uv rot p =
     (case p of (x, y) \<Rightarrow>
        if rot = 1 then (y, 1 - x) else if rot = 2 then (1 - x, 1 - y) else if rot = 3 then (1 - y, x) else (x, y))"

text \<open>The OpenGL presenter: y points up, from -1 to 1 over the surface of size \<open>(w, h)\<close>; pixels count from the bottom.\<close>

definition gl_rect :: "nat \<times> nat \<Rightarrow> screen_quad \<Rightarrow> rat \<times> rat \<times> rat \<times> rat" where
  "gl_rect sz q =
     (case sz of (w, h) \<Rightarrow>
        (q_x q / of_nat w * 2 - 1, 1 - q_y q / of_nat h * 2, (q_x q + q_w q) / of_nat w * 2 - 1, 1 - (q_y q + q_h q) / of_nat h * 2))"

definition rect_point :: "rat \<times> rat \<times> rat \<times> rat \<Rightarrow> rat \<times> rat \<Rightarrow> rat \<times> rat" where
  "rect_point r p = (case r of (x0, y0, x1, y1) \<Rightarrow> (mix x0 x1 (fst p), mix y0 y1 (snd p)))"

definition viewport :: "nat \<times> nat \<Rightarrow> rat \<times> rat \<Rightarrow> rat \<times> rat" where
  "viewport sz c = ((fst c + 1) / 2 * of_nat (fst sz), (snd c + 1) / 2 * of_nat (snd sz))"

definition gl_pixel :: "nat \<times> nat \<Rightarrow> screen_quad \<Rightarrow> rat \<times> rat \<Rightarrow> rat \<times> rat" where
  "gl_pixel sz q p = (case viewport sz (rect_point (gl_rect sz q) p) of (x, y) \<Rightarrow> (x, of_nat (snd sz) - y))"

text \<open>
  The Vulkan presenter: y points down; the picture is turned to the panel's own orientation, \<open>t\<close> quarter
  turns, over the panel's \<open>extent\<close>.
\<close>

definition vk_rect :: "nat \<times> nat \<Rightarrow> screen_quad \<Rightarrow> rat \<times> rat \<times> rat \<times> rat" where
  "vk_rect sz q =
     (case sz of (w, h) \<Rightarrow>
        (q_x q / of_nat w * 2 - 1, q_y q / of_nat h * 2 - 1, (q_x q + q_w q) / of_nat w * 2 - 1, (q_y q + q_h q) / of_nat h * 2 - 1))"

datatype transform = Identity | Rotate90 | Rotate180 | Rotate270 | OtherTransform

text \<open>Cosine and sine of the turn.\<close>

definition turn :: "transform \<Rightarrow> rat \<times> rat" where
  "turn t = (case t of Rotate90 \<Rightarrow> (0, 1) | Rotate180 \<Rightarrow> (- 1, 0) | Rotate270 \<Rightarrow> (0, - 1) | _ \<Rightarrow> (1, 0))"

definition pre_rotation :: "transform \<Rightarrow> rat \<times> rat \<times> rat \<times> rat" where
  "pre_rotation t = (case turn t of (c, s) \<Rightarrow> (c, s, - s, c))"

text \<open>The matrix is given by columns.\<close>

definition mat_apply :: "rat \<times> rat \<times> rat \<times> rat \<Rightarrow> rat \<times> rat \<Rightarrow> rat \<times> rat" where
  "mat_apply m p = (case m of (a, b, c, d) \<Rightarrow> (a * fst p + c * snd p, b * fst p + d * snd p))"

definition vk_pixel :: "transform \<Rightarrow> nat \<times> nat \<Rightarrow> nat \<times> nat \<Rightarrow> screen_quad \<Rightarrow> rat \<times> rat \<Rightarrow> rat \<times> rat" where
  "vk_pixel t extent sz q p = viewport extent (mat_apply (pre_rotation t) (rect_point (vk_rect sz q) p))"

section \<open>Both presenters draw a screen in the same place\<close>

definition turned_sideways :: "transform \<Rightarrow> bool" where
  "turned_sideways t \<longleftrightarrow> t = Rotate90 \<or> t = Rotate270"

text \<open>
  C34: The panel's pixel that a pixel of the app's surface of size \<open>(w, h)\<close> is shown on.\<close>

definition panel_pixel :: "transform \<Rightarrow> nat \<times> nat \<Rightarrow> rat \<times> rat \<Rightarrow> rat \<times> rat" where
  "panel_pixel t sz p =
     (case (sz, p) of ((w, h), (x, y)) \<Rightarrow>
        (case t of Rotate90 \<Rightarrow> (of_nat h - y, x) | Rotate180 \<Rightarrow> (of_nat w - x, of_nat h - y) | Rotate270 \<Rightarrow> (y, of_nat w - x) | _ \<Rightarrow> (x, y)))"

definition quad_point :: "screen_quad \<Rightarrow> rat \<times> rat \<Rightarrow> rat \<times> rat" where
  "quad_point q p = (q_x q + q_w q * fst p, q_y q + q_h q * snd p)"

lemma half_scale: "(w :: rat) \<noteq> 0 \<Longrightarrow> (mix (x / w * 2 - 1) ((x + d) / w * 2 - 1) t + 1) / 2 * w = x + d * t"
  by (simp add: mix_def field_simps)

lemma half_scale_down: "(w :: rat) \<noteq> 0 \<Longrightarrow> w - (mix (1 - x / w * 2) (1 - (x + d) / w * 2) t + 1) / 2 * w = x + d * t"
  by (simp add: mix_def field_simps)

lemma half_scale_back: "(w :: rat) \<noteq> 0 \<Longrightarrow> (- mix (x / w * 2 - 1) ((x + d) / w * 2 - 1) t + 1) / 2 * w = w - (x + d * t)"
  by (simp add: mix_def field_simps)

theorem presenters_agree:
  assumes "0 < w" "0 < h" "extent = (if turned_sideways t then (h, w) else (w, h))"
  shows "gl_pixel (w, h) q p = quad_point q p \<and> vk_pixel t extent (w, h) q p = panel_pixel t (w, h) (gl_pixel (w, h) q p)"
proof -
  have n: "(of_nat w :: rat) \<noteq> 0" "(of_nat h :: rat) \<noteq> 0" using assms(1,2) by simp_all
  have g: "gl_pixel (w, h) q p = quad_point q p"
    using half_scale [OF n(1)] half_scale_down [OF n(2)] by (simp add: gl_pixel_def gl_rect_def rect_point_def viewport_def quad_point_def)
  have "vk_pixel t extent (w, h) q p = panel_pixel t (w, h) (quad_point q p)"
    using half_scale [OF n(1)] half_scale [OF n(2)] half_scale_back [OF n(1)] half_scale_back [OF n(2)]
    by (cases t) (simp_all add: vk_pixel_def vk_rect_def rect_point_def viewport_def quad_point_def pre_rotation_def turn_def mat_apply_def
      panel_pixel_def assms(3) turned_sideways_def)
  with g show ?thesis by simp
qed

lemma presenters_agree_witness:
  "vk_pixel Rotate90 (2400, 1080) (1080, 2400) \<lparr>q_screen = 0, q_x = 28, q_y = 100, q_w = 1024, q_h = 768, q_rotation = 0, q_opacity = 1\<rparr> (1, 0) = (2300, 1052)"
  using presenters_agree [of 1080 2400 "(2400, 1080)" Rotate90
      "\<lparr>q_screen = 0, q_x = 28, q_y = 100, q_w = 1024, q_h = 768, q_rotation = 0, q_opacity = 1\<rparr>" "(1, 0)"]
  by (simp add: turned_sideways_def panel_pixel_def quad_point_def)

text \<open>Exchanging red and blue twice gives the pixel without its alpha.\<close>

lemma bit_FF: "bit (0xFF :: int) n \<longleftrightarrow> n < 8"
proof -
  have "(0xFF :: int) = mask 8" by (simp add: mask_eq_exp_minus_1)
  then show ?thesis by (metis bit_mask_iff possible_bit_int)
qed

end
