(* ===== verification/GlPresenter.thy ===== *)
theory GlPresenter
  imports PresentScreens
begin

unbundle bit_operations_syntax

text \<open>
  The OpenGL ES presenter, \<^verbatim>\<open>GLPresenter.cpp\<close>: the context with its small offscreen surface, the
  window's surface, the texture of software frames and frames of a hardware renderer.

  EGL and OpenGL are kept as far as the presenter relies on them: which surface is current, which objects
  exist and the pixels of the texture.  The answers of the calls that can fail are arguments.
\<close>

section \<open>State\<close>

datatype egl_surface = NoSurface | Pbuffer | WindowSurface nat

text \<open>
  \<open>gp_current\<close> is the surface that is current with the context, None when the context is not current;
  \<open>gp_softTexture\<close> the layers of the texture; \<open>gp_vote\<close> the rate the window was last asked for and
  \<open>gp_interval\<close> the time between frames in nanoseconds.
\<close>

record gl_presenter =
  gp_display :: bool
  gp_context :: bool
  gp_pbuffer :: bool
  gp_current :: "egl_surface option"
  gp_surface :: "nat option"
  gp_window :: "nat option"
  gp_size :: "nat \<times> nat"
  gp_swappyReady :: bool
  gp_interval :: nat
  gp_program :: bool
  gp_vao :: bool
  gp_softTexture :: "u32 list list option"
  gp_soft :: "nat \<times> nat \<times> nat"
  gp_softBgra :: bool
  gp_hwTexture :: nat
  gp_hw :: "nat \<times> nat"
  gp_useHardware :: bool
  gp_haveFrame :: bool
  gp_layout :: "screen_quad list"
  gp_settings :: present_settings
  gp_targetHz :: rat
  gp_vote :: "rat option"

definition gl_presenter_new :: gl_presenter where
  "gl_presenter_new = \<lparr>gp_display = False, gp_context = False, gp_pbuffer = False, gp_current = None, gp_surface = None, gp_window = None,
     gp_size = (0, 0), gp_swappyReady = False, gp_interval = 0, gp_program = False, gp_vao = False, gp_softTexture = None, gp_soft = (0, 0, 0),
     gp_softBgra = True, gp_hwTexture = 0, gp_hw = (0, 0), gp_useHardware = False, gp_haveFrame = False, gp_layout = [], gp_settings = settings_new,
     gp_targetHz = 60, gp_vote = None\<rparr>"

section \<open>The window\<close>

definition gl_HasWindow :: "gl_presenter \<Rightarrow> bool" where
  "gl_HasWindow v \<longleftrightarrow> gp_surface v \<noteq> None \<and> gp_window v \<noteq> None"

definition offscreen :: "gl_presenter \<Rightarrow> egl_surface" where
  "offscreen v = (if gp_pbuffer v then Pbuffer else NoSurface)"

text \<open>\<open>ok\<close>: the call succeeds; otherwise what was current stays so.\<close>

definition MakeCurrent :: "bool \<Rightarrow> gl_presenter \<Rightarrow> gl_presenter" where
  "MakeCurrent ok v = (if ok then v\<lparr>gp_current := Some (case gp_surface v of Some n \<Rightarrow> WindowSurface n | None \<Rightarrow> offscreen v)\<rparr> else v)"

definition DestroyWindowSurface :: "bool \<Rightarrow> gl_presenter \<Rightarrow> gl_presenter" where
  "DestroyWindowSurface ok v =
     (let v1 = (if gp_surface v \<noteq> None then (if ok then v\<lparr>gp_current := Some (offscreen v)\<rparr> else v)\<lparr>gp_surface := None\<rparr> else v)
      in if gp_window v1 \<noteq> None then v1\<lparr>gp_window := None, gp_vote := None\<rparr> else v1)"

definition gl_ReleaseWindow :: "bool \<Rightarrow> gl_presenter \<Rightarrow> gl_presenter" where
  "gl_ReleaseWindow ok v = DestroyWindowSurface ok v"

definition gl_SetTargetRefreshRate :: "rat \<Rightarrow> gl_presenter \<Rightarrow> gl_presenter" where
  "gl_SetTargetRefreshRate hz v =
     (let v1 = v\<lparr>gp_targetHz := hz\<rparr> in
      if gp_window v1 = None then v1
      else let v2 = v1\<lparr>gp_vote := Some hz\<rparr> in if gp_swappyReady v2 \<and> hz > 0 then v2\<lparr>gp_interval := interval_ns hz\<rparr> else v2)"

text \<open>
  The answers around a window: letting go of the old surface, the new surface if it can be created,
  making it current, and its size.
\<close>

record window_answer =
  wa_release :: bool
  wa_surface :: "nat option"
  wa_current :: bool
  wa_size :: "nat \<times> nat"

definition gl_SetWindow :: "window_answer \<Rightarrow> nat option \<Rightarrow> gl_presenter \<Rightarrow> gl_presenter" where
  "gl_SetWindow a w v =
     (let v1 = gl_ReleaseWindow (wa_release a) v in
      if w = None then v1
      else
        let v2 = v1\<lparr>gp_window := w, gp_surface := wa_surface a\<rparr> in
        if gp_surface v2 = None then v2\<lparr>gp_window := None\<rparr>
        else gl_SetTargetRefreshRate (gp_targetHz v2) ((MakeCurrent (wa_current a) v2)\<lparr>gp_size := wa_size a\<rparr>))"

section \<open>Start and end\<close>

text \<open>
  The answers at the start: the display, its configuration, the context, the offscreen surface, making it
  current, the two shaders and the program; whether the app can be reached, frame pacing, and the pacing
  library's interval for 60 frames per second.
\<close>

record init_answer =
  ia_display :: bool
  ia_initialize :: bool
  ia_config :: bool
  ia_context :: bool
  ia_pbuffer :: bool
  ia_current :: bool
  ia_vertexShader :: bool
  ia_fragmentShader :: bool
  ia_link :: bool
  ia_env :: bool
  ia_swappy :: bool
  ia_interval60 :: nat

definition CreateProgram :: "init_answer \<Rightarrow> gl_presenter \<Rightarrow> gl_presenter \<times> bool" where
  "CreateProgram a v =
     (if \<not> ia_vertexShader a \<or> \<not> ia_fragmentShader a then (v, False)
      else (v\<lparr>gp_program := True\<rparr>, ia_link a))"

definition gl_Init :: "init_answer \<Rightarrow> gl_presenter \<Rightarrow> gl_presenter \<times> bool" where
  "gl_Init a v =
     (let v1 = v\<lparr>gp_display := ia_display a\<rparr> in
      if \<not> ia_display a \<or> \<not> ia_initialize a then (v1, False)
      else if \<not> ia_config a then (v1, False)
      else
        let v2 = v1\<lparr>gp_context := ia_context a\<rparr> in
        if \<not> ia_context a then (v2, False)
        else case CreateProgram a (MakeCurrent (ia_current a) (v2\<lparr>gp_pbuffer := ia_pbuffer a\<rparr>)) of
               (v3, False) \<Rightarrow> (v3, False)
             | (v3, True) \<Rightarrow>
                 let v4 = v3\<lparr>gp_vao := True\<rparr> in
                 if \<not> ia_env a then (v4, True)
                 else let v5 = v4\<lparr>gp_swappyReady := ia_swappy a\<rparr>
                      in (if ia_swappy a then v5\<lparr>gp_interval := ia_interval60 a\<rparr> else v5, True))"

text \<open>\<open>ok\<close>: the calls that make a surface current succeed.\<close>

definition gl_Shutdown :: "bool \<Rightarrow> gl_presenter \<Rightarrow> gl_presenter" where
  "gl_Shutdown ok v =
     (if \<not> gp_display v then v
      else (MakeCurrent ok (gl_ReleaseWindow ok v))\<lparr>gp_softTexture := None, gp_vao := False, gp_program := False, gp_swappyReady := False,
             gp_current := None, gp_pbuffer := False, gp_context := False, gp_display := False\<rparr>)"

section \<open>Frames\<close>

definition gl_SetLayout :: "screen_quad list \<Rightarrow> gl_presenter \<Rightarrow> gl_presenter" where
  "gl_SetLayout l v = v\<lparr>gp_layout := l\<rparr>"

definition gl_SetSettings :: "present_settings \<Rightarrow> gl_presenter \<Rightarrow> gl_presenter" where
  "gl_SetSettings s v = v\<lparr>gp_settings := s\<rparr>"

text \<open>The screens replace the first layers of the texture.\<close>

definition gl_UploadSoftwareFrame :: "u32 list list \<Rightarrow> nat \<Rightarrow> nat \<Rightarrow> bool \<Rightarrow> gl_presenter \<Rightarrow> gl_presenter" where
  "gl_UploadSoftwareFrame screens w h bgra v =
     (let n = length screens;
          v1 = (if gp_softTexture v = None \<or> (w, h, n) \<noteq> gp_soft v
                then v\<lparr>gp_softTexture := Some (replicate n (replicate (w * h) 0)), gp_soft := (w, h, n)\<rparr> else v)
      in v1\<lparr>gp_softTexture := map_option (\<lambda>layers. map (take (w * h)) screens @ drop n layers) (gp_softTexture v1), gp_softBgra := bgra,
            gp_useHardware := False, gp_haveFrame := True\<rparr>)"

definition gl_SetHardwareFrame :: "nat \<Rightarrow> nat \<Rightarrow> nat \<Rightarrow> gl_presenter \<Rightarrow> gl_presenter" where
  "gl_SetHardwareFrame t w h v = v\<lparr>gp_hwTexture := t, gp_hw := (w, h), gp_useHardware := True, gp_haveFrame := True\<rparr>"

text \<open>A screen drawn: the rectangle, the sizes and the layer, with its opacity, turn and flags.\<close>

record gl_draw =
  g_rect :: "rat \<times> rat \<times> rat \<times> rat"
  g_texSize :: "nat \<times> nat"
  g_outSize :: "rat \<times> rat"
  g_layer :: int
  g_opacity :: rat
  g_rotation :: int
  g_filter :: screen_filter
  g_colorCorrect :: bool
  g_swapRB :: bool

definition gl_draws :: "gl_presenter \<Rightarrow> gl_draw list" where
  "gl_draws v =
     map (\<lambda>q. \<lparr>g_rect = gl_rect (gp_size v) q, g_texSize = (if gp_useHardware v then gp_hw v else (fst (gp_soft v), fst (snd (gp_soft v)))),
                g_outSize = out_size q, g_layer = q_screen q, g_opacity = q_opacity q, g_rotation = quarter_turns (q_rotation q),
                g_filter = s_filter (gp_settings v), g_colorCorrect = s_colorCorrection (gp_settings v),
                g_swapRB = (\<not> gp_useHardware v \<and> gp_softBgra v)\<rparr>)
       (filter (\<lambda>q. \<not> (q_w q \<le> 0 \<or> q_h q \<le> 0 \<or> q_opacity q \<le> 0)) (gp_layout v))"

text \<open>Linear filtering of the texture.\<close>

definition linear_filter :: "screen_filter \<Rightarrow> bool" where
  "linear_filter f \<longleftrightarrow> f \<noteq> Nearest \<and> f \<noteq> LcdGrid"

datatype gl_texture = SoftTexture "u32 list list" | HwTexture nat | NoTexture

text \<open>A picture: the surface it is drawn on, the one that is shown, the background, the texture and the screens.\<close>

record gl_picture =
  gpc_target :: "egl_surface option"
  gpc_shown :: nat
  gpc_background :: "rat \<times> rat \<times> rat \<times> rat"
  gpc_texture :: gl_texture
  gpc_linear :: bool
  gpc_draws :: "gl_draw list"

datatype swap_result = Swapped | SwapFailed | BadSurface

definition gl_texture_of :: "gl_presenter \<Rightarrow> gl_texture" where
  "gl_texture_of v =
     (if gp_useHardware v then HwTexture (gp_hwTexture v) else case gp_softTexture v of None \<Rightarrow> NoTexture | Some layers \<Rightarrow> SoftTexture layers)"

text \<open>\<open>ok\<close>: the offscreen surface can be made current when the window's surface is lost.\<close>

definition gl_Present :: "swap_result \<Rightarrow> bool \<Rightarrow> gl_presenter \<Rightarrow> gl_presenter \<times> bool \<times> gl_picture option" where
  "gl_Present r ok v =
     (case gp_surface v of
        None \<Rightarrow> (v, False, None)
      | Some n \<Rightarrow>
          if gp_window v = None then (v, False, None)
          else
            let p = \<lparr>gpc_target = gp_current v, gpc_shown = n, gpc_background = clear_rgba (s_backgroundArgb (gp_settings v)),
                      gpc_texture = gl_texture_of v, gpc_linear = linear_filter (s_filter (gp_settings v)),
                      gpc_draws = (if gp_haveFrame v then gl_draws v else [])\<rparr>
            in (case r of
                  Swapped \<Rightarrow> (v, True, Some p)
                | SwapFailed \<Rightarrow> (v, False, Some p)
                | BadSurface \<Rightarrow> (DestroyWindowSurface ok v, False, Some p)))"

text \<open>
  Reading a screen into a buffer.  \<open>hw\<close> gives the pixels of a layer of a hardware texture, None when
  there is no such layer; then nothing is read and the buffer keeps what it has.
\<close>

definition resize_pixels :: "nat \<Rightarrow> u32 list \<Rightarrow> u32 list" where
  "resize_pixels n ps = take n ps @ replicate (n - length ps) 0"

definition gl_layer :: "(nat \<Rightarrow> int \<Rightarrow> u32 list option) \<Rightarrow> int \<Rightarrow> gl_presenter \<Rightarrow> u32 list option" where
  "gl_layer hw screen v =
     (if gp_useHardware v then hw (gp_hwTexture v) screen
      else case gp_softTexture v of
             None \<Rightarrow> None
           | Some layers \<Rightarrow> if 0 \<le> screen \<and> screen < int (length layers) then Some (layers ! nat screen) else None)"

definition gl_ReadScreen :: "(nat \<Rightarrow> int \<Rightarrow> u32 list option) \<Rightarrow> int \<Rightarrow> u32 list \<Rightarrow> gl_presenter \<Rightarrow> (u32 list \<times> nat \<times> nat) option" where
  "gl_ReadScreen hw screen old v =
     (let (w, h) = (if gp_useHardware v then gp_hw v else (fst (gp_soft v), fst (snd (gp_soft v)))) in
      if (if gp_useHardware v then gp_hwTexture v = 0 else gp_softTexture v = None) \<or> \<not> gp_haveFrame v then None
      else
        let ps = (case gl_layer hw screen v of Some ps \<Rightarrow> ps | None \<Rightarrow> resize_pixels (w * h) old)
        in Some (read_pixels (\<not> gp_useHardware v \<and> gp_softBgra v) ps, w, h))"

end
