(* ===== verification/VkPresenter.thy ===== *)
theory VkPresenter
  imports PresentScreens
begin

unbundle bit_operations_syntax

text \<open>
  The Vulkan presenter, \<^verbatim>\<open>VulkanPresenter.cpp\<close>: the window with its surface and swapchain, two frame
  slots, the software frame kept on the processor, and frames of renderers on the same device.

  Vulkan is kept as far as the presenter relies on it.  The answers of the calls that can fail are
  arguments.  An image view is its handle, by which the code compares, with the identity of the object,
  since a new object can get the handle of a destroyed one.
\<close>

section \<open>State\<close>

type_synonym view = "nat \<times> nat"

text \<open>
  A fence is signalled, waits for work that was submitted, or was reset without work; then waiting for
  it does not end.
\<close>

datatype fence = Signalled | Submitted | ResetOnly

text \<open>
  A frame slot: its fence; the sizes of the staging buffer and of the texture, width, height and layers;
  the texture's view and pixels; the software frame it holds; what the descriptor set points at, with the
  handle remembered for it; and the view of an external image.
\<close>

record frame_slot =
  fs_fence :: fence
  fs_staging :: nat
  fs_texture :: "(nat \<times> nat \<times> nat) option"
  fs_view :: view
  fs_pixels :: "u32 list"
  fs_textureVersion :: nat
  fs_textureReady :: bool
  fs_set :: "view option"
  fs_boundView :: nat
  fs_externalView :: "view option"

definition frame_slot_new :: frame_slot where
  "frame_slot_new = \<lparr>fs_fence = Signalled, fs_staging = 0, fs_texture = None, fs_view = (0, 0), fs_pixels = [], fs_textureVersion = 0,
     fs_textureReady = False, fs_set = None, fs_boundView = 0, fs_externalView = None\<rparr>"

text \<open>
  Windows, textures and images are numbers, 0 is null.  \<open>vp_images\<close> is the number of images of the
  swapchain, each with a view, a framebuffer and a semaphore; \<open>vp_vote\<close> the rate the window was last asked
  for, and \<open>vp_interval\<close> the time between frames the frame pacing library was given.
\<close>

record vk_presenter =
  vp_initialized :: bool
  vp_frames :: "frame_slot list"
  vp_frameIndex :: nat
  vp_window :: "nat option"
  vp_surface :: bool
  vp_swapchain :: bool
  vp_images :: nat
  vp_extent :: "nat \<times> nat"
  vp_transform :: transform
  vp_logical :: "nat \<times> nat"
  vp_swappyReady :: bool
  vp_needRecreate :: bool
  vp_softPixels :: "u32 list"
  vp_soft :: "nat \<times> nat \<times> nat"
  vp_softBgra :: bool
  vp_softVersion :: nat
  vp_haveFrame :: bool
  vp_extTexture :: nat
  vp_ext :: "nat \<times> nat \<times> nat"
  vp_useExternal :: bool
  vp_extImage :: nat
  vp_extBgra :: bool
  vp_useExternalImage :: bool
  vp_layout :: "screen_quad list"
  vp_settings :: present_settings
  vp_targetHz :: rat
  vp_vote :: "rat option"
  vp_interval :: nat

definition kFramesInFlight :: nat where "kFramesInFlight = 2"

definition vk_presenter_new :: vk_presenter where
  "vk_presenter_new = \<lparr>vp_initialized = False, vp_frames = replicate kFramesInFlight frame_slot_new, vp_frameIndex = 0, vp_window = None,
     vp_surface = False, vp_swapchain = False, vp_images = 0, vp_extent = (0, 0), vp_transform = Identity, vp_logical = (0, 0),
     vp_swappyReady = False, vp_needRecreate = False, vp_softPixels = [], vp_soft = (0, 0, 0), vp_softBgra = True, vp_softVersion = 0,
     vp_haveFrame = False, vp_extTexture = 0, vp_ext = (0, 0, 0), vp_useExternal = False, vp_extImage = 0, vp_extBgra = False,
     vp_useExternalImage = False, vp_layout = [], vp_settings = settings_new, vp_targetHz = 60, vp_vote = None, vp_interval = 0\<rparr>"

section \<open>Window and swapchain\<close>

definition vk_SetTargetRefreshRate :: "rat \<Rightarrow> vk_presenter \<Rightarrow> vk_presenter" where
  "vk_SetTargetRefreshRate hz v =
     (let v1 = v\<lparr>vp_targetHz := hz\<rparr> in
      if vp_window v1 = None then v1
      else v1\<lparr>vp_vote := Some hz, vp_interval := (if vp_swappyReady v1 \<and> hz > 0 then interval_ns hz else vp_interval v1)\<rparr>)"

text \<open>
  What the device answers when a swapchain is made: whether the queue can present to the surface, the
  surface's transform, extent, formats with colour spaces, and numbers of images; whether the swapchain
  could be created and with how many images; and whether frame pacing is available.
\<close>

record swap_answer =
  sw_supported :: bool
  sw_transform :: transform
  sw_extent :: "nat \<times> nat"
  sw_formats :: "(nat \<times> nat) list"
  sw_minImages :: nat
  sw_maxImages :: nat
  sw_created :: bool
  sw_count :: nat
  sw_swappy :: bool

definition surface_format :: nat where "surface_format = 37"
definition srgb_space :: nat where "srgb_space = 0"

definition chosen_format :: "(nat \<times> nat) list \<Rightarrow> nat \<times> nat" where
  "chosen_format fs =
     fold (\<lambda>f c. if f = (surface_format, srgb_space) then f else c) fs (if fs = [] then (surface_format, srgb_space) else hd fs)"

definition image_count :: "nat \<Rightarrow> nat \<Rightarrow> nat" where
  "image_count least most = (let n = max (least + 1) 3 in if most > 0 then min n most else n)"

definition CreateSwapchain :: "swap_answer \<Rightarrow> vk_presenter \<Rightarrow> vk_presenter \<times> bool" where
  "CreateSwapchain a v =
     (if \<not> sw_supported a then (v, False)
      else
        let t = sw_transform a; sideways = turned_sideways t; e = (if sideways then (snd (sw_extent a), fst (sw_extent a)) else sw_extent a);
            v1 = v\<lparr>vp_transform := t, vp_extent := e, vp_logical := (if sideways then (snd e, fst e) else e)\<rparr> in
        if fst (chosen_format (sw_formats a)) \<noteq> surface_format then (v1, False)
        else if \<not> sw_created a then (v1\<lparr>vp_swapchain := False\<rparr>, False)
        else (vk_SetTargetRefreshRate (vp_targetHz v1)
                (v1\<lparr>vp_swapchain := True, vp_images := sw_count a, vp_swappyReady := sw_swappy a, vp_needRecreate := False\<rparr>), True))"

text \<open>Waiting for the device ends the work of all slots.\<close>

definition finish_slots :: "frame_slot list \<Rightarrow> frame_slot list" where
  "finish_slots = map (\<lambda>f. if fs_fence f = Submitted then f\<lparr>fs_fence := Signalled\<rparr> else f)"

definition DestroySwapchain :: "vk_presenter \<Rightarrow> vk_presenter" where
  "DestroySwapchain v =
     (if \<not> vp_swapchain v then v
      else v\<lparr>vp_frames := finish_slots (vp_frames v), vp_images := 0, vp_swapchain := False, vp_swappyReady := False\<rparr>)"

definition vk_ReleaseWindow :: "vk_presenter \<Rightarrow> vk_presenter" where
  "vk_ReleaseWindow v = (DestroySwapchain v)\<lparr>vp_surface := False, vp_window := None, vp_vote := None\<rparr>"

text \<open>\<open>surface\<close>: whether a surface can be created for the window.\<close>

definition vk_SetWindow :: "bool \<Rightarrow> swap_answer \<Rightarrow> nat option \<Rightarrow> vk_presenter \<Rightarrow> vk_presenter" where
  "vk_SetWindow surface a w v =
     (let v1 = vk_ReleaseWindow v in
      if w = None \<or> \<not> vp_initialized v1 then v1
      else if \<not> surface then v1
      else case CreateSwapchain a (v1\<lparr>vp_window := w, vp_surface := True\<rparr>) of
             (v2, ok) \<Rightarrow> if ok then v2 else vk_ReleaseWindow v2)"

definition vk_HasWindow :: "vk_presenter \<Rightarrow> bool" where
  "vk_HasWindow v = vp_swapchain v"

text \<open>\<open>ready\<close> and \<open>pipeline\<close>: whether there is a device and whether the pipeline could be created.\<close>

definition vk_Init :: "bool \<Rightarrow> bool \<Rightarrow> vk_presenter \<Rightarrow> vk_presenter \<times> bool" where
  "vk_Init ready pipeline v =
     (if vp_initialized v then (v, True)
      else if \<not> ready then (v, False)
      else let v1 = v\<lparr>vp_frames := map (\<lambda>f. f\<lparr>fs_fence := Signalled, fs_set := None\<rparr>) (vp_frames v)\<rparr>
           in if pipeline then (v1\<lparr>vp_initialized := True\<rparr>, True) else (v1, False))"

definition vk_Shutdown :: "vk_presenter \<Rightarrow> vk_presenter" where
  "vk_Shutdown v =
     (if \<not> vp_initialized v then v
      else (vk_ReleaseWindow v)\<lparr>vp_frames := replicate kFramesInFlight frame_slot_new, vp_initialized := False\<rparr>)"

section \<open>Frames\<close>

definition vk_SetLayout :: "screen_quad list \<Rightarrow> vk_presenter \<Rightarrow> vk_presenter" where
  "vk_SetLayout l v = v\<lparr>vp_layout := l\<rparr>"

definition vk_SetSettings :: "present_settings \<Rightarrow> vk_presenter \<Rightarrow> vk_presenter" where
  "vk_SetSettings s v = v\<lparr>vp_settings := s\<rparr>"

text \<open>The screens of a software frame, each of \<open>w * h\<close> pixels.\<close>

definition vk_UploadSoftwareFrame :: "u32 list list \<Rightarrow> nat \<Rightarrow> nat \<Rightarrow> bool \<Rightarrow> vk_presenter \<Rightarrow> vk_presenter" where
  "vk_UploadSoftwareFrame screens w h bgra v =
     v\<lparr>vp_softPixels := concat (map (take (w * h)) screens), vp_soft := (w, h, length screens), vp_softBgra := bgra,
       vp_softVersion := vp_softVersion v + 1, vp_haveFrame := True, vp_useExternal := False, vp_useExternalImage := False\<rparr>"

definition vk_SetExternalFrame :: "nat \<Rightarrow> nat \<Rightarrow> nat \<Rightarrow> nat \<Rightarrow> vk_presenter \<Rightarrow> vk_presenter" where
  "vk_SetExternalFrame t w h layers v =
     v\<lparr>vp_extTexture := t, vp_ext := (w, h, layers), vp_useExternal := True, vp_useExternalImage := False, vp_haveFrame := True\<rparr>"

text \<open>\<open>bgra\<close>: the image's format has blue first.\<close>

definition vk_SetExternalImage :: "nat \<Rightarrow> bool \<Rightarrow> nat \<Rightarrow> nat \<Rightarrow> vk_presenter \<Rightarrow> vk_presenter" where
  "vk_SetExternalImage i bgra w h v =
     v\<lparr>vp_extImage := i, vp_extBgra := bgra, vp_ext := (w, h, 1), vp_useExternalImage := True, vp_useExternal := False, vp_haveFrame := True\<rparr>"

definition vk_DropExternalImage :: "vk_presenter \<Rightarrow> vk_presenter" where
  "vk_DropExternalImage v =
     (if vp_useExternalImage v then v\<lparr>vp_extImage := 0, vp_useExternalImage := False, vp_haveFrame := False\<rparr> else v)"

definition vk_DropExternalFrames :: "vk_presenter \<Rightarrow> vk_presenter" where
  "vk_DropExternalFrames v =
     (let v1 = vk_DropExternalImage v;
          v2 = (if vp_useExternal v1 then v1\<lparr>vp_extTexture := 0, vp_useExternal := False, vp_haveFrame := False\<rparr> else v1)
      in v2\<lparr>vp_frames := map (\<lambda>f. f\<lparr>fs_boundView := 0\<rparr>) (vp_frames v2)\<rparr>)"

text \<open>Waiting for a slot's fence; None when the wait does not end.\<close>

definition wait_slot_fence :: "frame_slot \<Rightarrow> frame_slot option" where
  "wait_slot_fence f = (case fs_fence f of ResetOnly \<Rightarrow> None | _ \<Rightarrow> Some (f\<lparr>fs_fence := Signalled\<rparr>))"

definition put_slot :: "nat \<Rightarrow> frame_slot \<Rightarrow> vk_presenter \<Rightarrow> vk_presenter" where
  "put_slot k f v = v\<lparr>vp_frames := (vp_frames v)[k := f]\<rparr>"

definition WaitSlot :: "int \<Rightarrow> vk_presenter \<Rightarrow> vk_presenter option" where
  "WaitSlot slot v =
     (if \<not> vp_initialized v \<or> slot < 0 \<or> slot \<ge> int kFramesInFlight then Some v
      else map_option (\<lambda>f. put_slot (nat slot) f v) (wait_slot_fence (vp_frames v ! nat slot)))"

definition BindView :: "view \<Rightarrow> frame_slot \<Rightarrow> frame_slot" where
  "BindView w f = (if fs_boundView f = fst w then f else f\<lparr>fs_set := Some w, fs_boundView := fst w\<rparr>)"

text \<open>
  The slot's texture for the software frame.  \<open>im\<close> is the view of a new texture, None when it cannot
  be created, and \<open>staging\<close> whether a staging buffer can be.  The third result says whether the commands
  copy the frame into the texture.
\<close>

definition PrepareFrameTexture :: "view option \<Rightarrow> bool \<Rightarrow> vk_presenter \<Rightarrow> frame_slot \<Rightarrow> frame_slot \<times> bool \<times> bool" where
  "PrepareFrameTexture im staging v f =
     (if \<not> vp_haveFrame v then (f, False, False)
      else
        let bytes = length (vp_softPixels v) * 4;
            resized = (case fs_texture f of None \<Rightarrow> (0, 0, 0) | Some d \<Rightarrow> d) \<noteq> vp_soft v;
            f1 = (if resized
                  then f\<lparr>fs_texture := (case im of None \<Rightarrow> None | Some w \<Rightarrow> Some (vp_soft v)),
                         fs_view := (case im of None \<Rightarrow> (0, 0) | Some w \<Rightarrow> w),
                         fs_textureReady := False, fs_textureVersion := 0, fs_boundView := 0\<rparr>
                  else f);
            f2 = (if fs_staging f1 < bytes then f1\<lparr>fs_staging := (if staging then bytes else 0)\<rparr> else f1) in
        if fs_texture f2 = None \<or> fs_staging f2 = 0 then (f2, False, False)
        else
          let copy = fs_textureVersion f2 \<noteq> vp_softVersion v;
              f3 = (if copy then f2\<lparr>fs_textureVersion := vp_softVersion v, fs_textureReady := True\<rparr> else f2);
              f4 = (if fs_textureReady f3 then BindView (fs_view f3) f3 else f3)
          in (f4, fs_textureReady f4, copy))"

section \<open>Presenting\<close>

datatype vk_result = VkSuccess | VkSuboptimal | VkOutOfDate | VkError

text \<open>
  What happens while a frame is presented: the answers when the swapchain is made again; acquiring an
  image; new views and buffers; the renderer's view of its texture; submitting and presenting.
\<close>

record present_env =
  pe_swap :: swap_answer
  pe_acquire :: vk_result
  pe_imageView :: "view option"
  pe_textureView :: view
  pe_texture :: "view option"
  pe_staging :: bool
  pe_submitted :: bool
  pe_present :: vk_result

text \<open>A screen drawn: the rectangle, the turn, the sizes and the layer, with its opacity and flags.\<close>

record screen_draw =
  d_rect :: "rat \<times> rat \<times> rat \<times> rat"
  d_preRotation :: "rat \<times> rat \<times> rat \<times> rat"
  d_texSize :: "nat \<times> nat"
  d_outSize :: "rat \<times> rat"
  d_layer :: int
  d_opacity :: rat
  d_rotation :: int
  d_filter :: screen_filter
  d_colorCorrect :: bool
  d_swapRB :: bool

definition screen_draws :: "vk_presenter \<Rightarrow> nat \<times> nat \<times> nat \<Rightarrow> bool \<Rightarrow> screen_draw list" where
  "screen_draws v tex swapRB =
     (case tex of (texW, texH, texLayers) \<Rightarrow>
        map (\<lambda>q. \<lparr>d_rect = vk_rect (vp_logical v) q, d_preRotation = pre_rotation (vp_transform v), d_texSize = (texW, texH),
                   d_outSize = out_size q, d_layer = q_screen q, d_opacity = q_opacity q, d_rotation = quarter_turns (q_rotation q),
                   d_filter = s_filter (vp_settings v), d_colorCorrect = s_colorCorrection (vp_settings v), d_swapRB = swapRB\<rparr>)
          (filter (\<lambda>q. \<not> (q_w q \<le> 0 \<or> q_h q \<le> 0 \<or> q_opacity q \<le> 0 \<or> q_screen q \<ge> int texLayers)) (vp_layout v)))"

text \<open>The picture to draw: the slot, whether there is one, its size and layers, whether red and blue are exchanged, and whether the frame is copied.\<close>

definition choose_picture :: "present_env \<Rightarrow> vk_presenter \<Rightarrow> frame_slot \<Rightarrow> frame_slot \<times> bool \<times> (nat \<times> nat \<times> nat) \<times> bool \<times> bool" where
  "choose_picture e v f0 =
     (let f = (if fs_externalView f0 \<noteq> None then f0\<lparr>fs_externalView := None, fs_boundView := 0\<rparr> else f0) in
      if vp_useExternalImage v \<and> vp_extImage v \<noteq> 0
      then let w = (case pe_imageView e of None \<Rightarrow> (0, 0) | Some w \<Rightarrow> w)
           in (BindView w (f\<lparr>fs_externalView := pe_imageView e\<rparr>), pe_imageView e \<noteq> None, (fst (vp_ext v), fst (snd (vp_ext v)), 1), False, False)
      else if vp_useExternal v \<and> vp_extTexture v \<noteq> 0
      then (BindView (pe_textureView e) f, True, vp_ext v, False, False)
      else case PrepareFrameTexture (pe_texture e) (pe_staging e) v f of
             (f1, ok, copy) \<Rightarrow> (f1, ok, vp_soft v, vp_softBgra v, copy))"

text \<open>
  What the display is given: the background, and the screens drawn from what the descriptor set points
  at, of the texture's pixels when the picture is a software frame.
\<close>

record picture =
  pc_background :: "rat \<times> rat \<times> rat \<times> rat"
  pc_set :: "view option"
  pc_pixels :: "u32 list"
  pc_draws :: "screen_draw list"

definition record_picture :: "vk_presenter \<Rightarrow> frame_slot \<Rightarrow> bool \<Rightarrow> nat \<times> nat \<times> nat \<Rightarrow> bool \<Rightarrow> picture" where
  "record_picture v f ok tex swapRB =
     \<lparr>pc_background = clear_rgba (s_backgroundArgb (vp_settings v)), pc_set = fs_set f, pc_pixels = fs_pixels f,
      pc_draws = (if ok \<and> fst (vp_logical v) > 0 \<and> snd (vp_logical v) > 0 then screen_draws v tex swapRB else [])\<rparr>"

definition present_result :: "vk_result \<Rightarrow> vk_presenter \<Rightarrow> vk_presenter \<times> bool" where
  "present_result r v =
     (case r of VkSuccess \<Rightarrow> (v, True) | VkSuboptimal \<Rightarrow> (v\<lparr>vp_needRecreate := True\<rparr>, True) | VkOutOfDate \<Rightarrow> (v\<lparr>vp_needRecreate := True\<rparr>, False)
      | VkError \<Rightarrow> (v, False))"

definition draw_frame :: "present_env \<Rightarrow> vk_presenter \<Rightarrow> frame_slot \<Rightarrow> vk_presenter \<times> bool \<times> picture option" where
  "draw_frame e v f0 =
     (let k = vp_frameIndex v; (f, ok, tex, swapRB, copy) = choose_picture e v (f0\<lparr>fs_fence := ResetOnly\<rparr>) in
      if \<not> pe_submitted e then (put_slot k f v, False, None)
      else
        let f1 = (if copy then f\<lparr>fs_pixels := vp_softPixels v\<rparr> else f)\<lparr>fs_fence := Submitted\<rparr>; p = record_picture v f1 ok tex swapRB;
            (v1, shown) = present_result (pe_present e) ((put_slot k f1 v)\<lparr>vp_frameIndex := (k + 1) mod kFramesInFlight\<rparr>)
        in (v1, shown, Some p))"

text \<open>The result says whether something was shown; None when the wait for the slot does not end.\<close>

definition vk_Present :: "present_env \<Rightarrow> vk_presenter \<Rightarrow> (vk_presenter \<times> bool \<times> picture option) option" where
  "vk_Present e v =
     (if \<not> vp_swapchain v then Some (v, False, None)
      else
        let (v1, ok) = (if vp_needRecreate v then CreateSwapchain (pe_swap e) (DestroySwapchain v) else (v, True)) in
        if \<not> ok then Some (v1, False, None)
        else case wait_slot_fence (vp_frames v1 ! vp_frameIndex v1) of
               None \<Rightarrow> None
             | Some f \<Rightarrow>
                 Some (case pe_acquire e of
                         VkOutOfDate \<Rightarrow> ((put_slot (vp_frameIndex v1) f v1)\<lparr>vp_needRecreate := True\<rparr>, False, None)
                       | VkError \<Rightarrow> (put_slot (vp_frameIndex v1) f v1, False, None)
                       | _ \<Rightarrow> draw_frame e v1 f))"

section \<open>Reading a screen back\<close>

text \<open>
  \<open>gpu\<close> is what reading the external image or a layer of the external texture gives, None when it
  fails.
\<close>

definition vk_ReadScreen :: "(nat \<Rightarrow> u32 list option) \<Rightarrow> int \<Rightarrow> vk_presenter \<Rightarrow> (u32 list \<times> nat \<times> nat) option" where
  "vk_ReadScreen gpu screen v =
     (if vp_useExternalImage v \<and> vp_extImage v \<noteq> 0
      then if screen \<noteq> 0 then None
           else map_option (\<lambda>ps. (read_pixels (vp_extBgra v) ps, fst (vp_ext v), fst (snd (vp_ext v)))) (gpu 0)
      else if vp_useExternal v \<and> vp_extTexture v \<noteq> 0
      then if screen \<ge> int (snd (snd (vp_ext v))) then None
           else map_option (\<lambda>ps. (read_pixels False ps, fst (vp_ext v), fst (snd (vp_ext v)))) (gpu (nat screen))
      else case vp_soft v of (w, h, layers) \<Rightarrow>
             if \<not> vp_haveFrame v \<or> screen \<ge> int layers then None
             else Some (read_pixels (vp_softBgra v) (segment (vp_softPixels v) (w * h * nat screen) (w * h)), w, h))"

end
