(* ===== verification/VkPresenterRuns.thy ===== *)
theory VkPresenterRuns
  imports VkPresenter
begin

text \<open>
  What holds of the Vulkan presenter after any sequence of calls: which objects it has, what the textures
  of its frame slots hold, and when presenting returns.
\<close>

section \<open>Runs\<close>

inductive vk_run :: "bool \<Rightarrow> vk_presenter \<Rightarrow> bool" for submits :: bool where
  start: "vk_run submits vk_presenter_new"
| init: "vk_run submits v \<Longrightarrow> vk_run submits (fst (vk_Init ready pipeline v))"
| shutdown: "vk_run submits v \<Longrightarrow> vk_run submits (vk_Shutdown v)"
| set_window: "vk_run submits v \<Longrightarrow> vk_run submits (vk_SetWindow surface a w v)"
| release_window: "vk_run submits v \<Longrightarrow> vk_run submits (vk_ReleaseWindow v)"
| rate: "vk_run submits v \<Longrightarrow> vk_run submits (vk_SetTargetRefreshRate hz v)"
| layout: "vk_run submits v \<Longrightarrow> vk_run submits (vk_SetLayout l v)"
| settings: "vk_run submits v \<Longrightarrow> vk_run submits (vk_SetSettings s v)"
| upload: "vk_run submits v \<Longrightarrow> vk_run submits (vk_UploadSoftwareFrame screens w h bgra v)"
| external: "vk_run submits v \<Longrightarrow> vk_run submits (vk_SetExternalFrame t w h layers v)"
| image: "vk_run submits v \<Longrightarrow> vk_run submits (vk_SetExternalImage i bgra w h v)"
| drop_image: "vk_run submits v \<Longrightarrow> vk_run submits (vk_DropExternalImage v)"
| drop_frames: "vk_run submits v \<Longrightarrow> vk_run submits (vk_DropExternalFrames v)"
| wait: "vk_run submits v \<Longrightarrow> WaitSlot slot v = Some v' \<Longrightarrow> vk_run submits v'"
| present: "vk_run submits v \<Longrightarrow> vk_Present e v = Some (v', r) \<Longrightarrow> submits \<longrightarrow> pe_submitted e \<Longrightarrow> vk_run submits v'"

section \<open>Windows\<close>

text \<open>
  A swapchain only on a surface, a surface only with a window and after the start; without a swapchain no
  images are left and there is no frame pacing; two slots.
\<close>

definition window_ok :: "vk_presenter \<Rightarrow> bool" where
  "window_ok v \<longleftrightarrow> (vp_swapchain v \<longrightarrow> vp_surface v) \<and> (vp_surface v \<longleftrightarrow> vp_window v \<noteq> None) \<and> (vp_surface v \<longrightarrow> vp_initialized v) \<and>
     (\<not> vp_swapchain v \<longrightarrow> vp_images v = 0 \<and> \<not> vp_swappyReady v) \<and> (vp_swapchain v \<longrightarrow> vp_vote v = Some (vp_targetHz v)) \<and>
     length (vp_frames v) = kFramesInFlight \<and> vp_frameIndex v < kFramesInFlight"

lemma finish_slots_length [simp]: "length (finish_slots fs) = length fs"
  by (simp add: finish_slots_def)

lemma put_slot_fields [simp]:
  "vp_swapchain (put_slot k f v) = vp_swapchain v" "vp_surface (put_slot k f v) = vp_surface v" "vp_window (put_slot k f v) = vp_window v"
  "vp_initialized (put_slot k f v) = vp_initialized v" "vp_images (put_slot k f v) = vp_images v" "vp_swappyReady (put_slot k f v) = vp_swappyReady v"
  "vp_vote (put_slot k f v) = vp_vote v" "vp_targetHz (put_slot k f v) = vp_targetHz v" "vp_frameIndex (put_slot k f v) = vp_frameIndex v"
  "length (vp_frames (put_slot k f v)) = length (vp_frames v)" "vp_soft (put_slot k f v) = vp_soft v" "vp_softPixels (put_slot k f v) = vp_softPixels v"
  "vp_softVersion (put_slot k f v) = vp_softVersion v"
  by (simp_all add: put_slot_def)

lemma window_ok_put_slot [simp]: "window_ok (put_slot k f v) = window_ok v"
  by (simp add: window_ok_def)

lemma window_ok_recreate [simp]: "window_ok (v\<lparr>vp_needRecreate := b\<rparr>) = window_ok v"
  by (simp add: window_ok_def)

lemma window_ok_index [simp]: "window_ok v \<Longrightarrow> n < kFramesInFlight \<Longrightarrow> window_ok (v\<lparr>vp_frameIndex := n\<rparr>)"
  by (auto simp: window_ok_def)

lemma DestroySwapchain_ok: "window_ok v \<Longrightarrow> window_ok (DestroySwapchain v) \<and> \<not> vp_swapchain (DestroySwapchain v)"
  by (auto simp: window_ok_def DestroySwapchain_def)

lemma CreateSwapchain_ok:
  assumes "window_ok v" "vp_surface v" "\<not> vp_swapchain v"
  shows "window_ok (fst (CreateSwapchain a v)) \<and> vp_surface (fst (CreateSwapchain a v))"
  using assms by (auto simp: CreateSwapchain_def Let_def window_ok_def vk_SetTargetRefreshRate_def)

lemma vk_ReleaseWindow_ok: "window_ok v \<Longrightarrow> window_ok (vk_ReleaseWindow v) \<and> \<not> vp_swapchain (vk_ReleaseWindow v) \<and> \<not> vp_surface (vk_ReleaseWindow v)"
  using DestroySwapchain_ok [of v] by (auto simp: vk_ReleaseWindow_def window_ok_def)

lemma present_result_ok: "window_ok v \<Longrightarrow> window_ok (fst (present_result r v))"
  by (cases r) (simp_all add: present_result_def)

lemma draw_frame_ok: "window_ok v \<Longrightarrow> window_ok (fst (draw_frame e v f))"
proof -
  assume v: "window_ok v"
  obtain f1 ok tex swapRB copy where c: "choose_picture e v (f\<lparr>fs_fence := ResetOnly\<rparr>) = (f1, ok, tex, swapRB, copy)" by (metis surj_pair)
  have "window_ok ((put_slot (vp_frameIndex v) g v)\<lparr>vp_frameIndex := (vp_frameIndex v + 1) mod kFramesInFlight\<rparr>)" for g
    using v by (simp add: kFramesInFlight_def)
  then show ?thesis using v present_result_ok by (simp add: draw_frame_def c Let_def split_def)
qed

lemma vk_Present_ok:
  assumes "window_ok v" "vk_Present e v = Some (v', r)"
  shows "window_ok v'"
proof (cases "vp_swapchain v")
  case True
  define w where "w = (if vp_needRecreate v then CreateSwapchain (pe_swap e) (DestroySwapchain v) else (v, True))"
  have s: "vp_surface (DestroySwapchain v)" using assms(1) True by (simp add: window_ok_def DestroySwapchain_def)
  have w: "window_ok (fst w)" using CreateSwapchain_ok [of "DestroySwapchain v"] DestroySwapchain_ok [OF assms(1)] s assms(1) by (simp add: w_def)
  from assms(2) True show ?thesis using w draw_frame_ok [OF w]
    by (auto simp: vk_Present_def w_def [symmetric] split_def split: if_splits option.splits vk_result.splits)
      (metis fst_conv)+
qed (use assms in \<open>simp add: vk_Present_def\<close>)

lemma vk_SetWindow_ok: "window_ok v \<Longrightarrow> window_ok (vk_SetWindow surface a w v)"
proof -
  assume v: "window_ok v"
  note r = vk_ReleaseWindow_ok [OF v]
  show ?thesis
  proof (cases "w = None \<or> \<not> vp_initialized (vk_ReleaseWindow v) \<or> \<not> surface")
    case True
    then show ?thesis using r by (auto simp: vk_SetWindow_def Let_def)
  next
    case False
    let ?v = "(vk_ReleaseWindow v)\<lparr>vp_window := w, vp_surface := True\<rparr>"
    have "window_ok ?v" "vp_surface ?v" "\<not> vp_swapchain ?v" using r False by (auto simp: window_ok_def)
    from CreateSwapchain_ok [OF this] vk_ReleaseWindow_ok False show ?thesis
      by (auto simp: vk_SetWindow_def Let_def split_def)
  qed
qed

theorem vk_windows: "vk_run submits v \<Longrightarrow> window_ok v"
proof (induction rule: vk_run.induct)
  case (wait v slot v')
  then show ?case by (auto simp: WaitSlot_def split: if_splits)
qed (auto simp: vk_SetWindow_ok vk_ReleaseWindow_ok intro: vk_Present_ok,
  auto simp: window_ok_def vk_presenter_new_def vk_Init_def Let_def vk_Shutdown_def vk_ReleaseWindow_def DestroySwapchain_def
    vk_SetTargetRefreshRate_def vk_SetLayout_def vk_SetSettings_def vk_UploadSoftwareFrame_def vk_SetExternalFrame_def vk_SetExternalImage_def
    vk_DropExternalImage_def vk_DropExternalFrames_def kFramesInFlight_def)

section \<open>What the slots hold\<close>

text \<open>
  A slot that is ready and has the current version holds the current frame; one that has a version is
  ready.  A slot remembers the handle of the view that its descriptor set points at, if any.
\<close>

definition slot_ok :: "vk_presenter \<Rightarrow> frame_slot \<Rightarrow> bool" where
  "slot_ok v f \<longleftrightarrow> fs_textureVersion f \<le> vp_softVersion v \<and>
     (fs_fence f \<noteq> ResetOnly \<and> fs_textureReady f \<and> fs_textureVersion f = vp_softVersion v \<longrightarrow>
        fs_texture f = Some (vp_soft v) \<and> fs_pixels f = vp_softPixels v) \<and>
     (fs_textureVersion f \<noteq> 0 \<longrightarrow> fs_textureReady f) \<and> (fs_boundView f \<noteq> 0 \<longrightarrow> (\<exists>i. fs_set f = Some (fs_boundView f, i)))"

definition slots_ok :: "vk_presenter \<Rightarrow> bool" where
  "slots_ok v \<longleftrightarrow> (\<forall>f \<in> set (vp_frames v). slot_ok v f)"

definition same_soft :: "vk_presenter \<Rightarrow> vk_presenter \<Rightarrow> bool" where
  "same_soft v v' \<longleftrightarrow> vp_soft v' = vp_soft v \<and> vp_softPixels v' = vp_softPixels v \<and> vp_softVersion v' = vp_softVersion v"

lemma slot_ok_same: "same_soft v v' \<Longrightarrow> slot_ok v' f = slot_ok v f"
  by (simp add: slot_ok_def same_soft_def)

lemma slots_ok_same: "same_soft v v' \<Longrightarrow> vp_frames v' = vp_frames v \<Longrightarrow> slots_ok v' = slots_ok v"
  using slot_ok_same by (simp add: slots_ok_def)

lemma finish_slots_ok: "\<forall>f \<in> set fs. slot_ok v f \<Longrightarrow> \<forall>f \<in> set (finish_slots fs). slot_ok v f"
  by (auto simp: finish_slots_def slot_ok_def)

lemma DestroySwapchain_slots: "slots_ok v \<Longrightarrow> slots_ok (DestroySwapchain v) \<and> same_soft v (DestroySwapchain v)"
proof -
  assume v: "slots_ok v"
  have s: "same_soft v (DestroySwapchain v)" by (simp add: DestroySwapchain_def same_soft_def)
  have "\<forall>f \<in> set (vp_frames (DestroySwapchain v)). slot_ok v f"
    using v finish_slots_ok [of "vp_frames v" v] by (simp add: DestroySwapchain_def slots_ok_def)
  with s slot_ok_same [OF s] show ?thesis by (simp add: slots_ok_def)
qed

lemma CreateSwapchain_slots: "vp_frames (fst (CreateSwapchain a v)) = vp_frames v \<and> same_soft v (fst (CreateSwapchain a v))"
  by (simp add: CreateSwapchain_def vk_SetTargetRefreshRate_def Let_def same_soft_def)

lemma vk_ReleaseWindow_slots: "slots_ok v \<Longrightarrow> slots_ok (vk_ReleaseWindow v)"
  using DestroySwapchain_slots [of v] slots_ok_same [of "DestroySwapchain v" "vk_ReleaseWindow v"]
  by (simp add: vk_ReleaseWindow_def same_soft_def)

lemma vk_SetWindow_slots:
  assumes "slots_ok v"
  shows "slots_ok (vk_SetWindow surface a w v)"
proof -
  note r = vk_ReleaseWindow_slots [OF assms]
  let ?v = "(vk_ReleaseWindow v)\<lparr>vp_window := w, vp_surface := True\<rparr>"
  have "slots_ok ?v" using r slots_ok_same [of "vk_ReleaseWindow v" ?v] by (simp add: same_soft_def)
  then have "slots_ok (fst (CreateSwapchain a ?v))" using CreateSwapchain_slots [of a ?v] slots_ok_same [of ?v "fst (CreateSwapchain a ?v)"] by simp
  with r vk_ReleaseWindow_slots show ?thesis by (simp add: vk_SetWindow_def Let_def split_def)
qed

lemma put_slot_slots:
  assumes "slots_ok v" "slot_ok v f"
  shows "slots_ok (put_slot k f v)"
proof -
  have "same_soft v (put_slot k f v)" by (simp add: same_soft_def)
  moreover have "\<forall>g \<in> set (vp_frames (put_slot k f v)). slot_ok v g"
    using assms set_update_subset_insert [of "vp_frames v" k f] by (auto simp: put_slot_def slots_ok_def)
  ultimately show ?thesis using slot_ok_same by (simp add: slots_ok_def)
qed

lemma wait_slot_ok: "slot_ok v f \<Longrightarrow> wait_slot_fence f = Some g \<Longrightarrow> slot_ok v g \<and> fs_fence g = Signalled"
  by (auto simp: wait_slot_fence_def slot_ok_def split: fence.splits)

lemma BindView_fields [simp]:
  "fs_fence (BindView w f) = fs_fence f" "fs_texture (BindView w f) = fs_texture f" "fs_pixels (BindView w f) = fs_pixels f"
  "fs_textureVersion (BindView w f) = fs_textureVersion f" "fs_textureReady (BindView w f) = fs_textureReady f"
  "fs_view (BindView w f) = fs_view f" "fs_staging (BindView w f) = fs_staging f" "fs_externalView (BindView w f) = fs_externalView f"
  by (simp_all add: BindView_def)

lemma BindView_bound: "fs_boundView f \<noteq> 0 \<longrightarrow> (\<exists>i. fs_set f = Some (fs_boundView f, i)) \<Longrightarrow>
    fs_boundView (BindView w f) \<noteq> 0 \<longrightarrow> (\<exists>i. fs_set (BindView w f) = Some (fs_boundView (BindView w f), i))"
  by (cases w) (auto simp: BindView_def)

text \<open>After the preparation a slot that is not copied to is as before or has no frame; one that is has the current version.\<close>

lemma PrepareFrameTexture_ok:
  assumes "slot_ok v f" "PrepareFrameTexture im staging v f = (g, ok, copy)" "fs_fence f = ResetOnly"
  shows "fs_textureVersion g \<le> vp_softVersion v \<and> fs_fence g = ResetOnly \<and> (fs_textureVersion g \<noteq> 0 \<longrightarrow> fs_textureReady g) \<and>
    (fs_boundView g \<noteq> 0 \<longrightarrow> (\<exists>i. fs_set g = Some (fs_boundView g, i))) \<and>
    (ok \<longrightarrow> fs_texture g = Some (vp_soft v) \<and> fs_textureVersion g = vp_softVersion v \<and> fs_textureReady g \<and> vp_haveFrame v) \<and>
    (copy \<longrightarrow> ok) \<and> (\<not> copy \<and> fs_textureReady g \<longrightarrow> fs_textureVersion g = fs_textureVersion f \<and> fs_texture g = fs_texture f \<and>
       fs_pixels g = fs_pixels f \<and> fs_textureReady f)"
proof (cases "vp_haveFrame v")
  case True
  define resized where "resized \<longleftrightarrow> (case fs_texture f of None \<Rightarrow> (0, 0, 0) | Some d \<Rightarrow> d) \<noteq> vp_soft v"
  define f1 where "f1 = (if resized
    then f\<lparr>fs_texture := (case im of None \<Rightarrow> None | Some w \<Rightarrow> Some (vp_soft v)), fs_view := (case im of None \<Rightarrow> (0, 0) | Some w \<Rightarrow> w),
           fs_textureReady := False, fs_textureVersion := 0, fs_boundView := 0\<rparr> else f)"
  define f2 where "f2 = (if fs_staging f1 < length (vp_softPixels v) * 4 then f1\<lparr>fs_staging := (if staging then length (vp_softPixels v) * 4 else 0)\<rparr> else f1)"
  have f2: "fs_textureVersion f2 \<le> vp_softVersion v" "fs_fence f2 = ResetOnly" "fs_textureVersion f2 \<noteq> 0 \<longrightarrow> fs_textureReady f2"
    "fs_boundView f2 \<noteq> 0 \<longrightarrow> (\<exists>i. fs_set f2 = Some (fs_boundView f2, i))"
    "fs_texture f2 \<noteq> None \<longrightarrow> fs_texture f2 = Some (vp_soft v)"
    "fs_textureReady f2 \<longrightarrow> fs_textureVersion f2 = fs_textureVersion f \<and> fs_texture f2 = fs_texture f \<and> fs_pixels f2 = fs_pixels f \<and> fs_textureReady f"
    using assms(1,3) by (auto simp: f2_def f1_def slot_ok_def resized_def split: option.splits)
  show ?thesis
  proof (cases "fs_texture f2 = None \<or> fs_staging f2 = 0")
    case none: True
    then have "(g, ok, copy) = (f2, False, False)"
      using assms(2) True unfolding PrepareFrameTexture_def Let_def resized_def [symmetric] f1_def [symmetric] f2_def [symmetric] by simp
    with f2 show ?thesis by simp
  next
    case False
    define f3 where "f3 = (if fs_textureVersion f2 \<noteq> vp_softVersion v then f2\<lparr>fs_textureVersion := vp_softVersion v, fs_textureReady := True\<rparr> else f2)"
    have g: "g = (if fs_textureReady f3 then BindView (fs_view f3) f3 else f3)" "ok = fs_textureReady g"
      "copy = (fs_textureVersion f2 \<noteq> vp_softVersion v)"
      using assms(2) True False unfolding PrepareFrameTexture_def Let_def resized_def [symmetric] f1_def [symmetric] f2_def [symmetric] f3_def [symmetric]
      by auto
    have f3: "fs_textureVersion f3 = vp_softVersion v" "fs_fence f3 = ResetOnly" "fs_boundView f3 \<noteq> 0 \<longrightarrow> (\<exists>i. fs_set f3 = Some (fs_boundView f3, i))"
      "fs_texture f3 = fs_texture f2" "fs_pixels f3 = fs_pixels f2" "copy \<longrightarrow> fs_textureReady f3" "\<not> copy \<longrightarrow> f3 = f2"
      using f2 by (simp_all add: f3_def g(3))
    show ?thesis using f2(3,5,6) f3 True False BindView_bound [OF f3(3)] by (auto simp: g(1,2))
  qed
qed (use assms in \<open>auto simp: PrepareFrameTexture_def slot_ok_def\<close>)

section \<open>Drawing\<close>

text \<open>The slot after the picture was chosen, and once its commands have been submitted.\<close>

lemma choose_picture_ok:
  assumes "slot_ok v f0" "fs_fence f0 = Signalled" "choose_picture e v (f0\<lparr>fs_fence := ResetOnly\<rparr>) = (f, ok, tex, swapRB, copy)"
  shows "slot_ok v f \<and> slot_ok v ((if copy then f\<lparr>fs_pixels := vp_softPixels v\<rparr> else f)\<lparr>fs_fence := Submitted\<rparr>)"
proof -
  define g where "g = (if fs_externalView (f0\<lparr>fs_fence := ResetOnly\<rparr>) \<noteq> None then (f0\<lparr>fs_fence := ResetOnly\<rparr>)\<lparr>fs_externalView := None, fs_boundView := 0\<rparr>
    else f0\<lparr>fs_fence := ResetOnly\<rparr>)"
  have g: "fs_fence g = ResetOnly" "fs_textureVersion g = fs_textureVersion f0" "fs_texture g = fs_texture f0" "fs_pixels g = fs_pixels f0"
    "fs_textureReady g = fs_textureReady f0" "fs_textureVersion g \<le> vp_softVersion v"
    "fs_boundView g \<noteq> 0 \<longrightarrow> (\<exists>i. fs_set g = Some (fs_boundView g, i))"
    using assms(1) by (auto simp: g_def slot_ok_def)
  have versioned: "fs_textureVersion f0 \<noteq> 0 \<longrightarrow> fs_textureReady f0" using assms(1) by (simp add: slot_ok_def)
  have held: "fs_textureReady f0 \<and> fs_textureVersion f0 = vp_softVersion v \<longrightarrow> fs_texture f0 = Some (vp_soft v) \<and> fs_pixels f0 = vp_softPixels v"
    using assms(1,2) by (simp add: slot_ok_def)
  have bind: "slot_ok v (BindView w h) \<and> slot_ok v ((BindView w h)\<lparr>fs_fence := Submitted\<rparr>)"
    if "fs_fence h = ResetOnly" "fs_textureVersion h = fs_textureVersion f0" "fs_texture h = fs_texture f0" "fs_pixels h = fs_pixels f0"
      "fs_textureReady h = fs_textureReady f0" "fs_boundView h \<noteq> 0 \<longrightarrow> (\<exists>i. fs_set h = Some (fs_boundView h, i))" for w h
    using that held versioned g(2,6) BindView_bound [OF that(6), of w] by (simp add: slot_ok_def)
  consider (ext_image) "vp_useExternalImage v \<and> vp_extImage v \<noteq> 0"
    | (ext) "\<not> (vp_useExternalImage v \<and> vp_extImage v \<noteq> 0)" "vp_useExternal v \<and> vp_extTexture v \<noteq> 0"
    | (soft) "\<not> (vp_useExternalImage v \<and> vp_extImage v \<noteq> 0)" "\<not> (vp_useExternal v \<and> vp_extTexture v \<noteq> 0)" by blast
  then show ?thesis
  proof cases
    case ext_image
    then have "f = BindView (case pe_imageView e of None \<Rightarrow> (0, 0) | Some w \<Rightarrow> w) (g\<lparr>fs_externalView := pe_imageView e\<rparr>)" "\<not> copy"
      using assms(3) unfolding choose_picture_def Let_def g_def [symmetric] by simp_all
    then show ?thesis using g bind [of "g\<lparr>fs_externalView := pe_imageView e\<rparr>"] by simp
  next
    case ext
    have "f = BindView (pe_textureView e) g" "\<not> copy" using assms(3) ext unfolding choose_picture_def Let_def g_def [symmetric] by auto
    then show ?thesis using g bind [of g "pe_textureView e"] by simp
  next
    case soft
    then obtain p: "PrepareFrameTexture (pe_texture e) (pe_staging e) v g = (f, ok, copy)"
      using assms(3) unfolding choose_picture_def Let_def g_def [symmetric] by (auto split: prod.splits)
    have "slot_ok v g" using g versioned by (simp add: slot_ok_def)
    from PrepareFrameTexture_ok [OF this p g(1)] show ?thesis using held g by (cases copy) (auto simp: slot_ok_def)
  qed
qed

lemma present_result_soft: "vp_frames (fst (present_result r v)) = vp_frames v \<and> same_soft v (fst (present_result r v))"
  by (cases r) (simp_all add: present_result_def same_soft_def)

lemma draw_frame_slots:
  assumes "slots_ok v" "slot_ok v f0" "fs_fence f0 = Signalled"
  shows "slots_ok (fst (draw_frame e v f0))"
proof -
  obtain f ok tex swapRB copy where c: "choose_picture e v (f0\<lparr>fs_fence := ResetOnly\<rparr>) = (f, ok, tex, swapRB, copy)" by (metis surj_pair)
  note s = choose_picture_ok [OF assms(2,3) c]
  let ?f1 = "(if copy then f\<lparr>fs_pixels := vp_softPixels v\<rparr> else f)\<lparr>fs_fence := Submitted\<rparr>"
  let ?v1 = "(put_slot (vp_frameIndex v) ?f1 v)\<lparr>vp_frameIndex := (vp_frameIndex v + 1) mod kFramesInFlight\<rparr>"
  have "slots_ok (put_slot (vp_frameIndex v) ?f1 v)" "slots_ok (put_slot (vp_frameIndex v) f v)"
    using s put_slot_slots [OF assms(1)] by blast+
  moreover have "slots_ok ?v1 = slots_ok (put_slot (vp_frameIndex v) ?f1 v)" by (rule slots_ok_same) (simp_all add: same_soft_def)
  moreover have "slots_ok (fst (present_result (pe_present e) ?v1)) = slots_ok ?v1"
    using present_result_soft [of "pe_present e" ?v1] by (intro slots_ok_same) simp_all
  ultimately show ?thesis by (cases copy) (simp_all add: draw_frame_def c Let_def split_def)
qed

text \<open>The cases of presenting: \<open>w\<close> is the presenter once its swapchain is as it should be.\<close>

lemma vk_Present_cases:
  assumes "vk_Present e v = Some (v', shown, p)"
  obtains (idle) "\<not> vp_swapchain v" "v' = v" "p = None" "\<not> shown"
  | (lost) w where "vp_swapchain v" "CreateSwapchain (pe_swap e) (DestroySwapchain v) = (w, False)" "v' = w" "p = None" "\<not> shown"
  | (acquire) w f where "vp_swapchain v" "w = v \<or> CreateSwapchain (pe_swap e) (DestroySwapchain v) = (w, True)"
      "wait_slot_fence (vp_frames w ! vp_frameIndex w) = Some f" "p = None"
      "v' = put_slot (vp_frameIndex w) f w \<or> v' = (put_slot (vp_frameIndex w) f w)\<lparr>vp_needRecreate := True\<rparr>" "\<not> shown"
  | (draw) w f where "vp_swapchain v" "w = v \<or> CreateSwapchain (pe_swap e) (DestroySwapchain v) = (w, True)"
      "wait_slot_fence (vp_frames w ! vp_frameIndex w) = Some f" "(v', shown, p) = draw_frame e w f"
proof (cases "vp_swapchain v")
  case False
  with assms show thesis by (intro idle) (simp_all add: vk_Present_def)
next
  case True
  obtain w ok where w: "(if vp_needRecreate v then CreateSwapchain (pe_swap e) (DestroySwapchain v) else (v, True)) = (w, ok)" by force
  have P: "vk_Present e v = (if \<not> ok then Some (w, False, None)
    else case wait_slot_fence (vp_frames w ! vp_frameIndex w) of None \<Rightarrow> None
      | Some f \<Rightarrow> Some (case pe_acquire e of VkOutOfDate \<Rightarrow> ((put_slot (vp_frameIndex w) f w)\<lparr>vp_needRecreate := True\<rparr>, False, None)
          | VkError \<Rightarrow> (put_slot (vp_frameIndex w) f w, False, None) | _ \<Rightarrow> draw_frame e w f))"
    using True w by (simp add: vk_Present_def)
  show thesis
  proof (cases ok)
    case False
    then show thesis using w P assms by (intro lost [of w]) (auto simp: True split: if_splits)
  next
    case ok: True
    then have w': "w = v \<or> CreateSwapchain (pe_swap e) (DestroySwapchain v) = (w, True)" using w by (auto split: if_splits)
    obtain f where f: "wait_slot_fence (vp_frames w ! vp_frameIndex w) = Some f" using P assms ok by (auto split: option.splits)
    show thesis
    proof (cases "pe_acquire e")
      case VkSuccess
      then show thesis using P assms ok f by (intro draw [OF True w' f]) simp
    next
      case VkSuboptimal
      then show thesis using P assms ok f by (intro draw [OF True w' f]) simp
    next
      case VkOutOfDate
      then show thesis using P assms ok f by (intro acquire [OF True w' f]) simp_all
    next
      case VkError
      then show thesis using P assms ok f by (intro acquire [OF True w' f]) simp_all
    qed
  qed
qed

lemma recreated_slots:
  assumes "slots_ok v" "w = v \<or> CreateSwapchain (pe_swap e) (DestroySwapchain v) = (w, b)"
  shows "slots_ok w \<and> same_soft v w"
proof (cases "w = v")
  case True
  with assms(1) show ?thesis by (simp add: same_soft_def)
next
  case False
  then have w: "w = fst (CreateSwapchain (pe_swap e) (DestroySwapchain v))" using assms(2) by (metis fst_conv)
  have "slots_ok (DestroySwapchain v)" "same_soft v (DestroySwapchain v)" using DestroySwapchain_slots [OF assms(1)] by simp_all
  then show ?thesis using CreateSwapchain_slots [of "pe_swap e" "DestroySwapchain v"] slots_ok_same [of "DestroySwapchain v" w]
    by (simp add: w same_soft_def)
qed

lemma vk_Present_slots:
  assumes "slots_ok v" "window_ok v" "vk_Present e v = Some (v', r)"
  shows "slots_ok v'"
proof -
  obtain shown p where r: "r = (shown, p)" by force
  have idx: "vp_frames w ! vp_frameIndex w \<in> set (vp_frames w)" if "window_ok w" for w using that by (simp add: window_ok_def)
  from assms(3) [unfolded r] show ?thesis
  proof (cases rule: vk_Present_cases)
    case (lost w)
    then show ?thesis using recreated_slots [OF assms(1)] by metis
  next
    case (acquire w f)
    have w: "slots_ok w" using recreated_slots [OF assms(1) acquire(2)] by simp
    have "window_ok w" using acquire(1,2) assms(2) CreateSwapchain_ok [of "DestroySwapchain v" "pe_swap e"] DestroySwapchain_ok [OF assms(2)]
      by (auto simp: window_ok_def DestroySwapchain_def)
    then have "slot_ok w f" using wait_slot_ok [OF _ acquire(3)] idx w by (auto simp: slots_ok_def)
    then have "slots_ok (put_slot (vp_frameIndex w) f w)" using put_slot_slots [OF w] by simp
    then show ?thesis using acquire(5) slots_ok_same [of "put_slot (vp_frameIndex w) f w" v'] by (auto simp: same_soft_def)
  next
    case (draw w f)
    have w: "slots_ok w" using recreated_slots [OF assms(1) draw(2)] by simp
    have "window_ok w" using draw(1,2) assms(2) CreateSwapchain_ok [of "DestroySwapchain v" "pe_swap e"] DestroySwapchain_ok [OF assms(2)]
      by (auto simp: window_ok_def DestroySwapchain_def)
    then have "slot_ok w f" "fs_fence f = Signalled" using wait_slot_ok [OF _ draw(3)] idx w by (auto simp: slots_ok_def)
    from draw_frame_slots [OF w this, of e] draw(4) show ?thesis by (metis fst_conv)
  qed (use assms(1) in simp)
qed

end
