(* ===== verification/VkPresenterFrames.thy ===== *)
theory VkPresenterFrames
  imports VkPresenterRuns
begin

text \<open>
  What presenting does, after any sequence of calls: it returns, and shows the software frame that was
  handed over last; what happens after a submission that failed; and reading a screen back.
\<close>

section \<open>What always holds\<close>

definition slots_idle :: "vk_presenter \<Rightarrow> bool" where
  "slots_idle v \<longleftrightarrow> (\<forall>f \<in> set (vp_frames v). fs_boundView f = 0 \<and> \<not> fs_textureReady f)"

text \<open>Before the start, the slots hold nothing; work that was promised to a fence has been submitted.\<close>

definition presenter_ok :: "bool \<Rightarrow> vk_presenter \<Rightarrow> bool" where
  "presenter_ok submits v \<longleftrightarrow> window_ok v \<and> slots_ok v \<and> (\<not> vp_initialized v \<longrightarrow> slots_idle v) \<and>
     (submits \<longrightarrow> (\<forall>f \<in> set (vp_frames v). fs_fence f \<noteq> ResetOnly))"

lemma presenter_ok_same:
  assumes "presenter_ok submits v" "window_ok v'" "same_soft v v'" "vp_frames v' = vp_frames v" "vp_initialized v' = vp_initialized v"
  shows "presenter_ok submits v'"
  using assms slots_ok_same [OF assms(3,4)] by (simp add: presenter_ok_def slots_idle_def)

lemma finish_slots_fences: "f \<in> set (finish_slots fs) \<Longrightarrow> \<exists>g \<in> set fs. (fs_fence f = ResetOnly \<longrightarrow> fs_fence g = ResetOnly) \<and>
    fs_boundView f = fs_boundView g \<and> fs_textureReady f = fs_textureReady g"
  by (force simp: finish_slots_def)

lemma DestroySwapchain_presenter_ok: "presenter_ok submits v \<Longrightarrow> presenter_ok submits (DestroySwapchain v)"
  using DestroySwapchain_ok [of v] DestroySwapchain_slots [of v] finish_slots_fences [of _ "vp_frames v"]
  by (auto simp: presenter_ok_def DestroySwapchain_def slots_idle_def)

lemma vk_ReleaseWindow_presenter_ok: "presenter_ok submits v \<Longrightarrow> presenter_ok submits (vk_ReleaseWindow v)"
  using presenter_ok_same [OF DestroySwapchain_presenter_ok, of submits v "vk_ReleaseWindow v"] vk_ReleaseWindow_ok [of v]
  by (simp add: vk_ReleaseWindow_def same_soft_def presenter_ok_def)

lemma CreateSwapchain_initialized: "vp_initialized (fst (CreateSwapchain a v)) = vp_initialized v"
  by (simp add: CreateSwapchain_def vk_SetTargetRefreshRate_def Let_def)

lemma CreateSwapchain_presenter_ok:
  assumes "presenter_ok submits v" "vp_surface v" "\<not> vp_swapchain v"
  shows "presenter_ok submits (fst (CreateSwapchain a v))"
  using assms presenter_ok_same [OF assms(1)] CreateSwapchain_ok [of v a] CreateSwapchain_slots [of a v] CreateSwapchain_initialized [of a v]
  by (simp add: presenter_ok_def)

lemma vk_SetWindow_presenter_ok: "presenter_ok submits v \<Longrightarrow> presenter_ok submits (vk_SetWindow surface a w v)"
proof -
  assume "presenter_ok submits v"
  note r = vk_ReleaseWindow_presenter_ok [OF this]
  let ?r = "vk_ReleaseWindow v"
  let ?v = "?r\<lparr>vp_window := w, vp_surface := True\<rparr>"
  have swap: "\<not> vp_swapchain ?r" using \<open>presenter_ok submits v\<close> vk_ReleaseWindow_ok by (simp add: presenter_ok_def)
  show ?thesis
  proof (cases "w = None \<or> \<not> vp_initialized ?r \<or> \<not> surface")
    case True
    then show ?thesis using r by (auto simp: vk_SetWindow_def Let_def)
  next
    case False
    have "window_ok ?v" using r False swap by (auto simp: presenter_ok_def window_ok_def)
    then have "presenter_ok submits ?v" by (rule presenter_ok_same [OF r]) (simp_all add: same_soft_def)
    from CreateSwapchain_presenter_ok [OF this, of a] swap have "presenter_ok submits (fst (CreateSwapchain a ?v))" by simp
    with vk_ReleaseWindow_presenter_ok [OF this] False show ?thesis by (auto simp: vk_SetWindow_def Let_def split_def)
  qed
qed

text \<open>A presenter whose swapchain was made again, or that keeps it.\<close>

lemma recreated_presenter_ok:
  assumes "presenter_ok submits v" "vp_swapchain v" "w = v \<or> CreateSwapchain a (DestroySwapchain v) = (w, b)"
  shows "presenter_ok submits w \<and> vp_initialized w \<and> same_soft v w"
proof -
  have init: "vp_initialized v" "vp_surface v" using assms(1,2) by (auto simp: presenter_ok_def window_ok_def)
  show ?thesis
  proof (cases "w = v")
    case True
    then show ?thesis using assms(1) init by (simp add: same_soft_def)
  next
    case False
    then have w: "w = fst (CreateSwapchain a (DestroySwapchain v))" using assms(3) by (metis fst_conv)
    have "vp_surface (DestroySwapchain v)" "vp_initialized (DestroySwapchain v)" "\<not> vp_swapchain (DestroySwapchain v)"
      using init by (auto simp: DestroySwapchain_def)
    then show ?thesis
      using CreateSwapchain_presenter_ok [OF DestroySwapchain_presenter_ok [OF assms(1)], of a] CreateSwapchain_initialized [of a "DestroySwapchain v"]
        CreateSwapchain_slots [of a "DestroySwapchain v"] DestroySwapchain_slots [of v] assms(1)
      by (simp add: w presenter_ok_def same_soft_def)
  qed
qed

lemma presenter_ok_slot: "presenter_ok submits v \<Longrightarrow> vp_frames v ! vp_frameIndex v \<in> set (vp_frames v)"
  by (simp add: presenter_ok_def window_ok_def)

lemma put_slot_fences:
  assumes "\<forall>g \<in> set (vp_frames v). fs_fence g \<noteq> ResetOnly" "fs_fence f \<noteq> ResetOnly"
  shows "\<forall>g \<in> set (vp_frames (put_slot k f v)). fs_fence g \<noteq> ResetOnly"
  using assms set_update_subset_insert [of "vp_frames v" k f] by (auto simp: put_slot_def)

lemma draw_frame_frames:
  "pe_submitted e \<Longrightarrow> \<exists>f1. fs_fence f1 = Submitted \<and> vp_frames (fst (draw_frame e v f)) = vp_frames (put_slot (vp_frameIndex v) f1 v)"
proof -
  assume s: "pe_submitted e"
  obtain g ok tex swapRB copy where c: "choose_picture e v (f\<lparr>fs_fence := ResetOnly\<rparr>) = (g, ok, tex, swapRB, copy)" by (metis surj_pair)
  show ?thesis using s present_result_soft
    by (intro exI [of _ "(if copy then g\<lparr>fs_pixels := vp_softPixels v\<rparr> else g)\<lparr>fs_fence := Submitted\<rparr>"]) (simp add: draw_frame_def c Let_def split_def)
qed

lemma present_result_initialized: "vp_initialized (fst (present_result r v)) = vp_initialized v"
  by (cases r) (simp_all add: present_result_def)

lemma draw_frame_initialized: "vp_initialized (fst (draw_frame e v f)) = vp_initialized v"
  by (simp add: draw_frame_def Let_def split_def present_result_initialized)

lemma vk_Present_presenter_ok:
  assumes "presenter_ok submits v" "vk_Present e v = Some (v', r)" "submits \<longrightarrow> pe_submitted e"
  shows "presenter_ok submits v'"
proof -
  have base: "window_ok v' \<and> slots_ok v'"
    using vk_Present_ok [OF _ assms(2)] vk_Present_slots [OF _ _ assms(2)] assms(1) by (simp add: presenter_ok_def)
  obtain shown p where r: "r = (shown, p)" by force
  from assms(2) [unfolded r] show ?thesis
  proof (cases rule: vk_Present_cases)
    case idle
    with assms(1) show ?thesis by simp
  next
    case (lost w)
    then show ?thesis using recreated_presenter_ok [OF assms(1), of w] by blast
  next
    case (acquire w f)
    note w = recreated_presenter_ok [OF assms(1) acquire(1,2)]
    have "fs_fence f = Signalled" using acquire(3) by (auto simp: wait_slot_fence_def split: fence.splits)
    then have "submits \<longrightarrow> (\<forall>g \<in> set (vp_frames (put_slot (vp_frameIndex w) f w)). fs_fence g \<noteq> ResetOnly)"
      using w put_slot_fences [of w f "vp_frameIndex w"] by (auto simp: presenter_ok_def)
    with acquire(5) base w show ?thesis by (auto simp: presenter_ok_def)
  next
    case (draw w f)
    note w = recreated_presenter_ok [OF assms(1) draw(1,2)]
    have v': "v' = fst (draw_frame e w f)" using draw(4) by (metis fst_conv)
    have "\<forall>g \<in> set (vp_frames v'). fs_fence g \<noteq> ResetOnly" if sub: submits
    proof -
      obtain f1 where f1: "fs_fence f1 = Submitted" "vp_frames v' = vp_frames (put_slot (vp_frameIndex w) f1 w)"
        using draw_frame_frames [of e w f] assms(3) sub by (auto simp: v')
      have "\<forall>g \<in> set (vp_frames w). fs_fence g \<noteq> ResetOnly" using w sub by (simp add: presenter_ok_def)
      from put_slot_fences [OF this, of f1] f1 show ?thesis by simp
    qed
    with base w draw_frame_initialized [of e w f] show ?thesis by (simp add: presenter_ok_def v')
  qed
qed

lemma slots_ok_newer:
  assumes "slots_ok v" "vp_frames v' = vp_frames v" "vp_softVersion v < vp_softVersion v'"
  shows "slots_ok v'"
  using assms by (fastforce simp: slots_ok_def slot_ok_def)

lemma presenter_ok_start: "presenter_ok submits vk_presenter_new"
  by (simp add: presenter_ok_def window_ok_def slots_ok_def slot_ok_def slots_idle_def vk_presenter_new_def frame_slot_new_def kFramesInFlight_def)

lemma vk_Init_presenter_ok: "presenter_ok submits v \<Longrightarrow> presenter_ok submits (fst (vk_Init ready pipeline v))"
  by (auto simp: presenter_ok_def window_ok_def slots_ok_def slot_ok_def slots_idle_def vk_Init_def Let_def)

lemma vk_Shutdown_presenter_ok: "presenter_ok submits v \<Longrightarrow> presenter_ok submits (vk_Shutdown v)"
proof (cases "vp_initialized v")
  case True
  assume "presenter_ok submits v"
  then have "\<not> vp_swapchain (vk_ReleaseWindow v)" "\<not> vp_surface (vk_ReleaseWindow v)" "window_ok (vk_ReleaseWindow v)"
    using vk_ReleaseWindow_ok by (auto simp: presenter_ok_def)
  then show ?thesis using True
    by (auto simp: vk_Shutdown_def presenter_ok_def window_ok_def slots_ok_def slot_ok_def slots_idle_def frame_slot_new_def)
qed (simp add: vk_Shutdown_def)

lemma vk_DropExternalFrames_presenter_ok: "presenter_ok submits v \<Longrightarrow> presenter_ok submits (vk_DropExternalFrames v)"
  by (force simp: vk_DropExternalFrames_def vk_DropExternalImage_def Let_def presenter_ok_def window_ok_def slots_ok_def slot_ok_def slots_idle_def)

lemma WaitSlot_presenter_ok:
  assumes "presenter_ok submits v" "WaitSlot slot v = Some v'"
  shows "presenter_ok submits v'"
proof (cases "v' = v")
  case False
  then obtain f where f: "v' = put_slot (nat slot) f v" "wait_slot_fence (vp_frames v ! nat slot) = Some f" "vp_initialized v" "nat slot < kFramesInFlight"
    using assms(2) by (auto simp: WaitSlot_def split: if_splits)
  have "vp_frames v ! nat slot \<in> set (vp_frames v)" using f(4) assms(1) by (simp add: presenter_ok_def window_ok_def)
  then have "slot_ok v f \<and> fs_fence f = Signalled" using wait_slot_ok [OF _ f(2)] assms(1) by (auto simp: presenter_ok_def slots_ok_def)
  then show ?thesis using assms(1) f(3) put_slot_slots [of v f] put_slot_fences [of v f] by (auto simp: f(1) presenter_ok_def)
qed (use assms in simp)

lemma vk_run_ok: "vk_run submits v \<Longrightarrow> presenter_ok submits v"
proof (induction rule: vk_run.induct)
  case start
  show ?case by (rule presenter_ok_start)
next
  case (init v ready pipeline)
  then show ?case by (simp add: vk_Init_presenter_ok)
next
  case (upload v screens w h bgra)
  let ?u = "vk_UploadSoftwareFrame screens w h bgra v"
  have "slots_ok ?u" using upload slots_ok_newer [of v ?u] by (simp add: vk_UploadSoftwareFrame_def presenter_ok_def)
  with upload show ?case by (auto simp: presenter_ok_def window_ok_def slots_idle_def vk_UploadSoftwareFrame_def)
next
  case (present v e v' r)
  then show ?case using vk_Present_presenter_ok by simp
next
  case (wait v slot v')
  then show ?case using WaitSlot_presenter_ok by simp
qed (simp_all add: vk_Shutdown_presenter_ok vk_SetWindow_presenter_ok vk_ReleaseWindow_presenter_ok vk_DropExternalFrames_presenter_ok,
  auto simp: presenter_ok_def window_ok_def slots_ok_def slot_ok_def slots_idle_def vk_SetTargetRefreshRate_def Let_def vk_SetLayout_def vk_SetSettings_def
    vk_SetExternalFrame_def vk_SetExternalImage_def vk_DropExternalImage_def)


section \<open>Presenting returns\<close>

lemma recreated_returns:
  assumes "presenter_ok True w"
  shows "\<exists>f. wait_slot_fence (vp_frames w ! vp_frameIndex w) = Some f"
  using assms presenter_ok_slot [OF assms] by (auto simp: presenter_ok_def wait_slot_fence_def split: fence.splits)

lemma presents:
  assumes "vk_run True v"
  shows "(\<exists>v' r. vk_Present e v = Some (v', r)) \<and> (\<exists>v'. WaitSlot slot v = Some v')"
proof
  note v = vk_run_ok [OF assms]
  show "\<exists>v'. WaitSlot slot v = Some v'"
    using v by (auto simp: WaitSlot_def presenter_ok_def window_ok_def wait_slot_fence_def split: fence.splits)
  show "\<exists>v' r. vk_Present e v = Some (v', r)"
  proof (cases "vp_swapchain v")
    case True
    obtain w ok where w: "(if vp_needRecreate v then CreateSwapchain (pe_swap e) (DestroySwapchain v) else (v, True)) = (w, ok)" by force
    then have "w = v \<or> CreateSwapchain (pe_swap e) (DestroySwapchain v) = (w, ok)" by (auto split: if_splits)
    from recreated_presenter_ok [OF v True this] recreated_returns [of w] obtain f where
      "wait_slot_fence (vp_frames w ! vp_frameIndex w) = Some f" by blast
    then show ?thesis using True w by (auto simp: vk_Present_def split: vk_result.splits) (metis surj_pair)+
  qed (auto simp: vk_Present_def)
qed

text \<open>
  C33: While every submission succeeds, presenting a frame and waiting for a slot always return.\<close>

theorem present_returns:
  assumes "vk_run True v"
  shows "(\<exists>v' r. vk_Present e v = Some (v', r)) \<and> (\<exists>v'. WaitSlot slot v = Some v')"
  by (rule presents [OF assms])

text \<open>An environment in which everything succeeds, at the display's size of 4 by 3 with three images.\<close>

definition all_well :: present_env where
  "all_well = \<lparr>pe_swap = \<lparr>sw_supported = True, sw_transform = Identity, sw_extent = (4, 3), sw_formats = [(37, 0)], sw_minImages = 2, sw_maxImages = 0,
     sw_created = True, sw_count = 3, sw_swappy = True\<rparr>, pe_acquire = VkSuccess, pe_imageView = Some (9, 9), pe_textureView = (8, 8),
     pe_texture = Some (7, 7), pe_staging = True, pe_submitted = True, pe_present = VkSuccess\<rparr>"

definition started :: vk_presenter where
  "started = vk_SetWindow True (pe_swap all_well) (Some 1) (fst (vk_Init True True vk_presenter_new))"

lemma started_run: "vk_run submits started"
  unfolding started_def by (intro vk_run.set_window vk_run.init vk_run.start)

lemma present_returns_witness: "(\<exists>v' r. vk_Present all_well started = Some (v', r)) \<and> (\<exists>v'. WaitSlot 1 started = Some v')"
  by (rule present_returns [OF started_run])

text \<open>
  A submission that failed leaves the slot's fence reset with no work to signal it, and the same slot is
  the next one: then presenting does not return, whatever the answers are.
\<close>

lemma PrepareFrameTexture_fence: "fs_fence (fst (PrepareFrameTexture im staging v f)) = fs_fence f"
  by (simp add: PrepareFrameTexture_def Let_def)

lemma choose_picture_fence: "fs_fence (fst (choose_picture e v f)) = fs_fence f"
  by (simp add: choose_picture_def Let_def split_def PrepareFrameTexture_fence)

lemma draw_frame_failed:
  assumes "\<not> pe_submitted e" "window_ok v"
  shows "vp_frameIndex (fst (draw_frame e v f)) = vp_frameIndex v \<and>
    fs_fence (vp_frames (fst (draw_frame e v f)) ! vp_frameIndex v) = ResetOnly \<and> vp_swapchain (fst (draw_frame e v f)) = vp_swapchain v \<and>
    vp_needRecreate (fst (draw_frame e v f)) = vp_needRecreate v"
proof -
  obtain g ok tex swapRB copy where c: "choose_picture e v (f\<lparr>fs_fence := ResetOnly\<rparr>) = (g, ok, tex, swapRB, copy)" by (metis surj_pair)
  have "fs_fence g = ResetOnly" using choose_picture_fence [of e v "f\<lparr>fs_fence := ResetOnly\<rparr>"] c by simp
  with c assms show ?thesis by (simp add: draw_frame_def Let_def put_slot_def window_ok_def)
qed

theorem present_hangs_after_failed_submit:
  assumes "vk_run submits v" "vp_swapchain v" "\<not> vp_needRecreate v" "vk_Present e v = Some (v', shown, p)"
    "\<not> pe_submitted e" "pe_acquire e = VkSuccess"
  shows "vk_Present e' v' = None"
proof -
  have P: "(v', shown, p) = draw_frame e v f" if "wait_slot_fence (vp_frames v ! vp_frameIndex v) = Some f" for f
    using assms(2,3,4,6) that by (simp add: vk_Present_def)
  obtain f where f: "wait_slot_fence (vp_frames v ! vp_frameIndex v) = Some f" using assms(2,3,4) by (auto simp: vk_Present_def split: option.splits)
  have "v' = fst (draw_frame e v f)" using P [OF f] by (metis fst_conv)
  with draw_frame_failed [OF assms(5), of v f] vk_run_ok [OF assms(1)] assms(2,3) show ?thesis
    by (simp add: vk_Present_def presenter_ok_def wait_slot_fence_def)
qed

lemma present_hangs_after_failed_submit_witness:
  "vk_Present all_well (fst (the (vk_Present (all_well\<lparr>pe_submitted := False\<rparr>) started))) = None"
proof -
  let ?e = "all_well\<lparr>pe_submitted := False\<rparr>"
  have s: "vp_swapchain started" "\<not> vp_needRecreate started" by (simp_all add: started_def all_well_def vk_SetWindow_def vk_ReleaseWindow_def vk_Init_def
      vk_presenter_new_def DestroySwapchain_def CreateSwapchain_def Let_def turned_sideways_def chosen_format_def surface_format_def srgb_space_def
      vk_SetTargetRefreshRate_def)
  obtain v' shown p where "vk_Present ?e started = Some (v', shown, p)" using presents [OF started_run, of ?e] by (metis surj_pair)
  with present_hangs_after_failed_submit [OF started_run s this, of all_well] show ?thesis by (simp add: all_well_def)
qed


section \<open>The frame that is shown\<close>

lemma PrepareFrameTexture_succeeds:
  assumes "slot_ok v f" "vp_haveFrame v" "vp_softVersion v \<noteq> 0" "vp_softPixels v \<noteq> []" "vp_soft v \<noteq> (0, 0, 0)"
  shows "fst (snd (PrepareFrameTexture (Some w) True v f))"
proof -
  have ready: "fs_textureVersion f = vp_softVersion v \<longrightarrow> fs_textureReady f" using assms(1,3) by (simp add: slot_ok_def)
  have texture: "(case fs_texture f of None \<Rightarrow> (0, 0, 0) | Some d \<Rightarrow> d) = vp_soft v \<longrightarrow> fs_texture f \<noteq> None"
    using assms(5) by (metis option.simps(4))
  have soft: "\<exists>a b c. vp_soft v = (a, b, c)" by (metis surj_pair)
  have staging: "\<not> fs_staging f < length (vp_softPixels v) * 4 \<longrightarrow> 0 < fs_staging f" using assms(4) by (cases "vp_softPixels v") auto
  show ?thesis
  proof (cases "(case fs_texture f of None \<Rightarrow> (0, 0, 0) | Some d \<Rightarrow> d) = vp_soft v")
    case True
    then show ?thesis using assms(2,4) ready texture staging by (simp add: PrepareFrameTexture_def Let_def)
  next
    case False
    then show ?thesis using assms(2-4) staging soft by (simp add: PrepareFrameTexture_def Let_def)
  qed
qed

text \<open>The picture of a software frame: the commands draw from a texture with the latest pixels.\<close>

lemma draw_frame_picture:
  assumes "slot_ok v f" "fs_fence f = Signalled" "draw_frame e v f = (v', shown, Some p)"
    "vp_haveFrame v" "\<not> (vp_useExternalImage v \<and> vp_extImage v \<noteq> 0)" "\<not> (vp_useExternal v \<and> vp_extTexture v \<noteq> 0)"
    "vp_softVersion v \<noteq> 0" "vp_softPixels v \<noteq> []" "vp_soft v \<noteq> (0, 0, 0)" "pe_texture e = Some w" "pe_staging e"
  shows "\<exists>g. p = record_picture v g True (vp_soft v) (vp_softBgra v) \<and> fs_pixels g = vp_softPixels v \<and> fs_texture g = Some (vp_soft v)"
proof -
  define f0 where "f0 = f\<lparr>fs_fence := ResetOnly\<rparr>"
  define f1 where "f1 = (if fs_externalView f0 \<noteq> None then f0\<lparr>fs_externalView := None, fs_boundView := 0\<rparr> else f0)"
  obtain g ok copy where g: "PrepareFrameTexture (Some w) True v f1 = (g, ok, copy)" by (metis surj_pair)
  have c: "choose_picture e v f0 = (g, ok, vp_soft v, vp_softBgra v, copy)"
    using assms(5,6,10,11) g unfolding choose_picture_def Let_def f1_def [symmetric] by auto
  have held: "fs_textureReady f \<and> fs_textureVersion f = vp_softVersion v \<longrightarrow> fs_texture f = Some (vp_soft v) \<and> fs_pixels f = vp_softPixels v"
    using assms(1,2) by (simp add: slot_ok_def)
  have f1: "slot_ok v f1" "fs_fence f1 = ResetOnly" "fs_textureVersion f1 = fs_textureVersion f" "fs_pixels f1 = fs_pixels f" "fs_textureReady f1 = fs_textureReady f"
    using assms(1) by (auto simp: f1_def f0_def slot_ok_def)
  have ok: ok using PrepareFrameTexture_succeeds [OF f1(1) assms(4,7,8,9), of w] g by simp
  note P = PrepareFrameTexture_ok [OF f1(1) g f1(2)]
  let ?g = "(if copy then g\<lparr>fs_pixels := vp_softPixels v\<rparr> else g)\<lparr>fs_fence := Submitted\<rparr>"
  have "p = record_picture v ?g ok (vp_soft v) (vp_softBgra v)"
    using assms(3) by (auto simp: draw_frame_def f0_def [symmetric] c Let_def split_def split: if_splits)
  moreover have "fs_pixels ?g = vp_softPixels v" "fs_texture ?g = Some (vp_soft v)" using P ok held f1 by auto
  ultimately show ?thesis using ok by (intro exI [of _ ?g]) simp
qed

text \<open>
  C32: What presenting does not change, once the swapchain is as it should be.\<close>

definition same_look :: "vk_presenter \<Rightarrow> vk_presenter \<Rightarrow> bool" where
  "same_look v v' \<longleftrightarrow> same_soft v v' \<and> vp_softBgra v' = vp_softBgra v \<and> vp_haveFrame v' = vp_haveFrame v \<and> vp_layout v' = vp_layout v \<and>
     vp_settings v' = vp_settings v \<and> vp_useExternal v' = vp_useExternal v \<and> vp_useExternalImage v' = vp_useExternalImage v \<and>
     vp_extTexture v' = vp_extTexture v \<and> vp_extImage v' = vp_extImage v \<and> vp_ext v' = vp_ext v"

lemma recreated_look: "w = v \<or> CreateSwapchain a (DestroySwapchain v) = (w, b) \<Longrightarrow> same_look v w"
proof (cases "w = v")
  case False
  assume "w = v \<or> CreateSwapchain a (DestroySwapchain v) = (w, b)"
  with False have "w = fst (CreateSwapchain a (DestroySwapchain v))" by (metis fst_conv)
  then show ?thesis
    by (simp add: same_look_def same_soft_def CreateSwapchain_def DestroySwapchain_def vk_SetTargetRefreshRate_def Let_def)
qed (simp add: same_look_def same_soft_def)

lemma draw_frame_look: "same_look v (fst (draw_frame e v f)) \<and> vp_logical (fst (draw_frame e v f)) = vp_logical v \<and>
    vp_transform (fst (draw_frame e v f)) = vp_transform v"
  by (cases "pe_present e") (simp_all add: draw_frame_def present_result_def Let_def split_def put_slot_def same_look_def same_soft_def)

lemma screen_draws_same:
  "vp_layout v' = vp_layout v \<Longrightarrow> vp_settings v' = vp_settings v \<Longrightarrow> vp_logical v' = vp_logical v \<Longrightarrow> vp_transform v' = vp_transform v \<Longrightarrow>
    screen_draws v' tex s = screen_draws v tex s"
  by (simp add: screen_draws_def)


text \<open>Two screens of two pixels, presented twice: the second slot gets its own copy.\<close>

definition two_screens :: vk_presenter where
  "two_screens = vk_SetLayout [\<lparr>q_screen = 1, q_x = 0, q_y = 0, q_w = 4, q_h = 3, q_rotation = 0, q_opacity = 1\<rparr>]
     (vk_UploadSoftwareFrame [[1, 2], [3, 4]] 2 1 True started)"

lemma two_screens_run: "vk_run submits two_screens"
  unfolding two_screens_def by (intro vk_run.layout vk_run.upload started_run)

lemmas started_simps = started_def all_well_def vk_SetWindow_def vk_ReleaseWindow_def vk_Init_def vk_presenter_new_def DestroySwapchain_def
  CreateSwapchain_def Let_def turned_sideways_def chosen_format_def surface_format_def srgb_space_def vk_SetTargetRefreshRate_def

lemma two_screens_fields:
  "vp_haveFrame two_screens" "\<not> vp_useExternalImage two_screens" "\<not> vp_useExternal two_screens" "vp_softVersion two_screens = 1"
  "vp_softPixels two_screens = [1, 2, 3, 4]" "vp_soft two_screens = (2, 1, 2)" "vp_logical two_screens = (4, 3)"
  by (simp_all add: two_screens_def vk_SetLayout_def vk_UploadSoftwareFrame_def started_simps)

lemma two_screens_presents: "\<exists>v' p. vk_Present all_well two_screens = Some (v', True, Some p)"
proof -
  have v: "vp_swapchain two_screens" "\<not> vp_needRecreate two_screens" "wait_slot_fence (vp_frames two_screens ! vp_frameIndex two_screens) \<noteq> None"
    by (simp_all add: two_screens_def vk_SetLayout_def vk_UploadSoftwareFrame_def started_simps wait_slot_fence_def frame_slot_new_def kFramesInFlight_def)
  then obtain f where "wait_slot_fence (vp_frames two_screens ! vp_frameIndex two_screens) = Some f" by auto
  moreover have "pe_acquire all_well = VkSuccess" "pe_submitted all_well" "pe_present all_well = VkSuccess" by (simp_all add: all_well_def)
  ultimately show ?thesis using v(1,2) by (simp add: vk_Present_def draw_frame_def present_result_def Let_def split_def)
qed


section \<open>Reading a screen back\<close>

lemma segment_concat:
  assumes "\<forall>s \<in> set ss. length s = n" "k < length ss"
  shows "segment (concat ss) (n * k) n = ss ! k"
  using assms
proof (induction ss arbitrary: k)
  case (Cons s ss)
  show ?case
  proof (cases k)
    case 0
    then show ?thesis using Cons.prems by (simp add: segment_def)
  next
    case (Suc j)
    then have "drop (n * k) (concat (s # ss)) = drop (n * j) (concat ss)" using Cons.prems by simp
    then show ?thesis using Cons.IH [of j] Cons.prems Suc by (simp add: segment_def)
  qed
qed simp

text \<open>A screen that is read back is the one handed over, made opaque and with its colours in order, also after it was presented.\<close>

theorem read_back_screen:
  assumes "\<forall>s \<in> set screens. length s = w * h" "k < length screens"
    "v' = vk_UploadSoftwareFrame screens w h bgra v \<or> vk_Present e (vk_UploadSoftwareFrame screens w h bgra v) = Some (v', r)"
  shows "vk_ReadScreen gpu (int k) v' = Some (read_pixels bgra (screens ! k), w, h)"
proof -
  let ?u = "vk_UploadSoftwareFrame screens w h bgra v"
  have "map (take (w * h)) screens = screens" using assms(1) by (simp add: map_idI)
  then have u: "vp_softPixels ?u = concat screens" "vp_soft ?u = (w, h, length screens)" "vp_softBgra ?u = bgra" "vp_haveFrame ?u"
    "\<not> vp_useExternal ?u" "\<not> vp_useExternalImage ?u" by (simp_all add: vk_UploadSoftwareFrame_def)
  have look: "same_look ?u v'"
  proof (cases "v' = ?u")
    case False
    obtain shown p where r: "r = (shown, p)" by force
    from assms(3) False have "vk_Present e ?u = Some (v', shown, p)" by (simp add: r)
    then show ?thesis
    proof (cases rule: vk_Present_cases)
      case (lost w)
      then show ?thesis using recreated_look by blast
    next
      case (acquire w f)
      from acquire(5) recreated_look [OF acquire(2)] show ?thesis by (auto simp: same_look_def same_soft_def put_slot_def)
    next
      case (draw w f)
      then have "v' = fst (draw_frame e w f)" by (metis fst_conv)
      with draw_frame_look [of w e f] recreated_look [OF draw(2)] show ?thesis by (simp add: same_look_def same_soft_def)
    qed (simp add: same_look_def same_soft_def)
  qed (simp add: same_look_def same_soft_def)
  show ?thesis using u look assms(2) segment_concat [OF assms(1,2)] by (simp add: vk_ReadScreen_def same_look_def same_soft_def)
qed

lemma read_back_screen_witness:
  "vk_ReadScreen (\<lambda>_. None) 1 (vk_UploadSoftwareFrame [[1, 2], [0xFF336699, 4]] 2 1 True started) =
     Some ([0xFF996633, 0xFF040000], 2, 1)"
  using read_back_screen [of "[[1, 2], [0xFF336699, 4]]" 2 1 1 _ True started all_well _ "\<lambda>_. None"]
  by (simp add: read_pixels_def opaque_pixel_def swap_rb_def)

text \<open>The screens that are there are the only ones that can be read.\<close>

lemma read_back_none: "\<not> vp_useExternal v \<Longrightarrow> \<not> vp_useExternalImage v \<Longrightarrow> int (snd (snd (vp_soft v))) \<le> k \<Longrightarrow> vk_ReadScreen gpu k v = None"
  by (simp add: vk_ReadScreen_def split_def)

section \<open>A view with a handle that was used before\<close>

text \<open>
  The renderer's texture was made again while the presenter kept its slot: when the new view has the old
  one's handle, the screens are drawn from a view that is gone.
\<close>

theorem stale_view_shown:
  assumes "vk_run submits v" "vk_Present e v = Some (v', shown, Some p)" "vp_useExternal v" "vp_extTexture v \<noteq> 0" "\<not> vp_useExternalImage v"
    "\<not> vp_needRecreate v" "fs_externalView (vp_frames v ! vp_frameIndex v) = None" "fs_boundView (vp_frames v ! vp_frameIndex v) = fst (pe_textureView e)"
  shows "pc_set p = fs_set (vp_frames v ! vp_frameIndex v)"
proof -
  let ?f = "vp_frames v ! vp_frameIndex v"
  obtain f where f: "wait_slot_fence ?f = Some f" "(v', shown, Some p) = draw_frame e v f"
    using assms(2,6) by (auto simp: vk_Present_def split: if_splits option.splits vk_result.splits)
  have "f = ?f\<lparr>fs_fence := Signalled\<rparr>" using f(1) by (auto simp: wait_slot_fence_def split: fence.splits)
  then show ?thesis using f(2) assms(3,4,5,7,8)
    by (auto simp: draw_frame_def choose_picture_def Let_def BindView_def record_picture_def split_def split: if_splits)
qed

end
