(* ===== verification/GlPresenterRuns.thy ===== *)
theory GlPresenterRuns
  imports GlPresenter VkPresenterFrames
begin

text \<open>
  What holds of the OpenGL ES presenter after any sequence of calls: frames are drawn on the surface that
  is shown, and the texture holds the last software frame; and where it does as the Vulkan presenter.
\<close>

section \<open>Runs\<close>

text \<open>\<open>works\<close>: making a surface current never fails.\<close>

inductive gl_run :: "bool \<Rightarrow> gl_presenter \<Rightarrow> bool" for works :: bool where
  start: "gl_run works gl_presenter_new"
| init: "gl_run works v \<Longrightarrow> works \<longrightarrow> ia_current a \<Longrightarrow> gl_run works (fst (gl_Init a v))"
| shutdown: "gl_run works v \<Longrightarrow> works \<longrightarrow> ok \<Longrightarrow> gl_run works (gl_Shutdown ok v)"
| set_window: "gl_run works v \<Longrightarrow> works \<longrightarrow> wa_release a \<and> wa_current a \<Longrightarrow> gl_run works (gl_SetWindow a w v)"
| release_window: "gl_run works v \<Longrightarrow> works \<longrightarrow> ok \<Longrightarrow> gl_run works (gl_ReleaseWindow ok v)"
| rate: "gl_run works v \<Longrightarrow> gl_run works (gl_SetTargetRefreshRate hz v)"
| layout: "gl_run works v \<Longrightarrow> gl_run works (gl_SetLayout l v)"
| settings: "gl_run works v \<Longrightarrow> gl_run works (gl_SetSettings s v)"
| upload: "gl_run works v \<Longrightarrow> gl_run works (gl_UploadSoftwareFrame screens w h bgra v)"
| hardware: "gl_run works v \<Longrightarrow> gl_run works (gl_SetHardwareFrame t w h v)"
| present: "gl_run works v \<Longrightarrow> works \<longrightarrow> ok \<Longrightarrow> gl_run works (fst (gl_Present r ok v))"

section \<open>Surfaces\<close>

text \<open>
  A surface exactly with a window, and with a window the refresh rate is asked for; when making a surface
  current works, the window's surface is the current one and none that was destroyed is.  The texture has
  as many layers as are remembered.
\<close>

definition surfaces_ok :: "bool \<Rightarrow> gl_presenter \<Rightarrow> bool" where
  "surfaces_ok works v \<longleftrightarrow> (gp_surface v = None \<longleftrightarrow> gp_window v = None) \<and> (gp_window v \<noteq> None \<longrightarrow> gp_vote v = Some (gp_targetHz v)) \<and>
     (works \<longrightarrow> (\<forall>n. gp_current v = Some (WindowSurface n) \<longleftrightarrow> gp_surface v = Some n)) \<and>
     (\<forall>layers. gp_softTexture v = Some layers \<longrightarrow> length layers = snd (snd (gp_soft v)))"

lemma offscreen_not_window [simp]: "offscreen v \<noteq> WindowSurface n" "WindowSurface n \<noteq> offscreen v"
  by (simp_all add: offscreen_def)

lemma MakeCurrent_surfaces: "surfaces_ok works v \<Longrightarrow> works \<longrightarrow> ok \<Longrightarrow> surfaces_ok works (MakeCurrent ok v)"
  by (auto simp: surfaces_ok_def MakeCurrent_def split: option.splits)

lemma surfaces_ok_fields [simp]:
  "surfaces_ok works (v\<lparr>gp_display := b\<rparr>) = surfaces_ok works v" "surfaces_ok works (v\<lparr>gp_context := b\<rparr>) = surfaces_ok works v"
  "surfaces_ok works (v\<lparr>gp_pbuffer := b\<rparr>) = surfaces_ok works v" "surfaces_ok works (v\<lparr>gp_program := b\<rparr>) = surfaces_ok works v"
  "surfaces_ok works (v\<lparr>gp_vao := b\<rparr>) = surfaces_ok works v" "surfaces_ok works (v\<lparr>gp_swappyReady := b\<rparr>) = surfaces_ok works v"
  "surfaces_ok works (v\<lparr>gp_interval := i\<rparr>) = surfaces_ok works v"
  by (simp_all add: surfaces_ok_def)

lemma DestroyWindowSurface_surfaces:
  "surfaces_ok works v \<Longrightarrow> works \<longrightarrow> ok \<Longrightarrow> surfaces_ok works (DestroyWindowSurface ok v) \<and> gp_window (DestroyWindowSurface ok v) = None"
  by (auto simp: surfaces_ok_def DestroyWindowSurface_def Let_def offscreen_def)

lemma DestroyWindowSurface_fields [simp]:
  "gp_softTexture (DestroyWindowSurface ok v) = gp_softTexture v" "gp_soft (DestroyWindowSurface ok v) = gp_soft v"
  "gp_targetHz (DestroyWindowSurface ok v) = gp_targetHz v" "gp_haveFrame (DestroyWindowSurface ok v) = gp_haveFrame v"
  "gp_useHardware (DestroyWindowSurface ok v) = gp_useHardware v" "gp_hwTexture (DestroyWindowSurface ok v) = gp_hwTexture v"
  "gp_layout (DestroyWindowSurface ok v) = gp_layout v" "gp_settings (DestroyWindowSurface ok v) = gp_settings v"
  "gp_softBgra (DestroyWindowSurface ok v) = gp_softBgra v" "gp_hw (DestroyWindowSurface ok v) = gp_hw v"
  by (simp_all add: DestroyWindowSurface_def Let_def)

lemma gl_SetWindow_surfaces:
  assumes "surfaces_ok works v" "works \<longrightarrow> wa_release a \<and> wa_current a"
  shows "surfaces_ok works (gl_SetWindow a w v)"
proof -
  let ?r = "DestroyWindowSurface (wa_release a) v"
  have r: "surfaces_ok works ?r" "gp_window ?r = None" using DestroyWindowSurface_surfaces [OF assms(1)] assms(2) by auto
  then show ?thesis using assms(2)
    by (auto simp: gl_SetWindow_def gl_ReleaseWindow_def Let_def gl_SetTargetRefreshRate_def MakeCurrent_def surfaces_ok_def split: option.splits)
qed

lemma gl_Init_surfaces: "surfaces_ok works v \<Longrightarrow> works \<longrightarrow> ia_current a \<Longrightarrow> surfaces_ok works (fst (gl_Init a v))"
  by (cases "ia_link a") (simp_all add: gl_Init_def CreateProgram_def Let_def MakeCurrent_surfaces)

lemma gl_Shutdown_surfaces:
  assumes "surfaces_ok works v" "works \<longrightarrow> ok"
  shows "surfaces_ok works (gl_Shutdown ok v)"
proof -
  let ?m = "MakeCurrent ok (DestroyWindowSurface ok v)"
  note d = DestroyWindowSurface_surfaces [OF assms]
  have "surfaces_ok works ?m" by (rule MakeCurrent_surfaces) (use d assms(2) in simp_all)
  moreover have "gp_window ?m = None" using d by (cases ok) (simp_all add: MakeCurrent_def)
  ultimately show ?thesis using assms(1) by (simp add: gl_Shutdown_def gl_ReleaseWindow_def surfaces_ok_def)
qed

lemma gl_Upload_surfaces: "surfaces_ok works v \<Longrightarrow> surfaces_ok works (gl_UploadSoftwareFrame screens w h bgra v)"
proof (cases "(w, h, length screens) = gp_soft v")
  case True
  assume "surfaces_ok works v"
  moreover have "snd (snd (gp_soft v)) = length screens" using True by (metis snd_conv)
  ultimately show ?thesis by (auto simp: gl_UploadSoftwareFrame_def Let_def surfaces_ok_def)
qed (simp add: gl_UploadSoftwareFrame_def Let_def surfaces_ok_def)

lemma gl_run_surfaces: "gl_run works v \<Longrightarrow> surfaces_ok works v"
proof (induction rule: gl_run.induct)
  case (present v ok r)
  then show ?case using DestroyWindowSurface_surfaces [of works v ok] by (auto simp: gl_Present_def Let_def split: option.split swap_result.split)
next
  case start
  show ?case by (simp add: surfaces_ok_def gl_presenter_new_def)
qed (simp_all add: gl_Init_surfaces gl_Shutdown_surfaces gl_SetWindow_surfaces gl_Upload_surfaces gl_ReleaseWindow_def DestroyWindowSurface_surfaces,
  simp_all add: surfaces_ok_def gl_SetTargetRefreshRate_def Let_def gl_SetLayout_def gl_SetSettings_def gl_SetHardwareFrame_def)

section \<open>What is shown\<close>

text \<open>The texture after an upload has the screens as its layers.\<close>

lemma uploaded_texture:
  assumes "surfaces_ok works v" "\<forall>s \<in> set screens. length s = w * h"
  shows "gp_softTexture (gl_UploadSoftwareFrame screens w h bgra v) = Some screens"
proof -
  have "map (take (w * h)) screens = screens" using assms(2) by (simp add: map_idI)
  moreover have "snd (snd (gp_soft v)) = length screens" if "(w, h, length screens) = gp_soft v" using that by (metis snd_conv)
  ultimately show ?thesis using assms(1) by (auto simp: gl_UploadSoftwareFrame_def Let_def surfaces_ok_def)
qed

text \<open>
  C35: A frame is drawn on the surface that is shown then, from the screens that were handed over last; and it
  is shown unless the display refuses.
\<close>

theorem gl_shows_frame:
  assumes "gl_run True v" "\<forall>s \<in> set screens. length s = w * h" "v1 = gl_UploadSoftwareFrame screens w h bgra v" "gl_HasWindow v1"
  shows "\<exists>n p. gl_Present r ok v1 = (if r = BadSurface then DestroyWindowSurface ok v1 else v1, r = Swapped, Some p) \<and> gp_surface v1 = Some n \<and>
    gpc_shown p = n \<and> gpc_target p = Some (WindowSurface n) \<and> gpc_texture p = SoftTexture screens \<and> gpc_draws p = gl_draws v1 \<and>
    gpc_background p = clear_rgba (s_backgroundArgb (gp_settings v))"
proof -
  have v: "surfaces_ok True v" using gl_run_surfaces [OF assms(1)] .
  then have v1: "surfaces_ok True v1" unfolding assms(3) by (rule gl_Upload_surfaces)
  obtain n where n: "gp_surface v1 = Some n" "gp_window v1 \<noteq> None" using assms(4) by (auto simp: gl_HasWindow_def)
  have "gp_current v1 = Some (WindowSurface n)" using v1 n(1) by (simp add: surfaces_ok_def)
  moreover have "gp_softTexture v1 = Some screens" "gp_haveFrame v1" "\<not> gp_useHardware v1" "gp_settings v1 = gp_settings v"
    using uploaded_texture [OF v assms(2)] by (simp_all add: assms(3)) (simp_all add: gl_UploadSoftwareFrame_def Let_def)
  ultimately show ?thesis using n by (cases r) (simp_all add: gl_Present_def gl_texture_of_def)
qed

definition gl_started :: gl_presenter where
  "gl_started = gl_SetWindow \<lparr>wa_release = True, wa_surface = Some 5, wa_current = True, wa_size = (4, 3)\<rparr> (Some 1)
     (fst (gl_Init \<lparr>ia_display = True, ia_initialize = True, ia_config = True, ia_context = True, ia_pbuffer = True, ia_current = True,
        ia_vertexShader = True, ia_fragmentShader = True, ia_link = True, ia_env = True, ia_swappy = True, ia_interval60 = 16666667\<rparr> gl_presenter_new))"

lemma gl_started_run: "gl_run works gl_started"
  unfolding gl_started_def by (intro gl_run.set_window gl_run.init gl_run.start) simp_all

lemma gl_shows_frame_witness:
  "\<exists>p. snd (gl_Present Swapped True (gl_UploadSoftwareFrame [[1, 2], [3, 4]] 2 1 True gl_started)) = (True, Some p) \<and>
    gpc_target p = Some (WindowSurface 5) \<and> gpc_texture p = SoftTexture [[1, 2], [3, 4]]"
proof -
  have w: "gl_HasWindow (gl_UploadSoftwareFrame [[1, 2], [3, 4]] 2 1 True gl_started)"
    "gp_surface (gl_UploadSoftwareFrame [[1, 2], [3, 4]] 2 1 True gl_started) = Some 5"
    by (simp_all add: gl_started_def gl_HasWindow_def gl_UploadSoftwareFrame_def gl_SetWindow_def gl_ReleaseWindow_def DestroyWindowSurface_def
      gl_SetTargetRefreshRate_def MakeCurrent_def gl_Init_def CreateProgram_def gl_presenter_new_def Let_def)
  then show ?thesis
    using gl_shows_frame [of gl_started "[[1, 2], [3, 4]]" 2 1 "gl_UploadSoftwareFrame [[1, 2], [3, 4]] 2 1 True gl_started" True Swapped True,
      OF gl_started_run _ refl w(1)] by auto
qed

section \<open>Reading a screen back\<close>

text \<open>Both presenters read the same pixels of a software frame.\<close>

lemma gl_read_back:
  assumes "surfaces_ok works v" "\<forall>s \<in> set screens. length s = w * h" "k < length screens"
  shows "gl_ReadScreen hw (int k) old (gl_UploadSoftwareFrame screens w h bgra v) = Some (read_pixels bgra (screens ! k), w, h)"
proof -
  have "gp_soft (gl_UploadSoftwareFrame screens w h bgra v) = (w, h, length screens)" by (auto simp: gl_UploadSoftwareFrame_def Let_def)
  moreover have "\<not> gp_useHardware (gl_UploadSoftwareFrame screens w h bgra v)" "gp_haveFrame (gl_UploadSoftwareFrame screens w h bgra v)"
    "gp_softBgra (gl_UploadSoftwareFrame screens w h bgra v) = bgra" by (simp_all add: gl_UploadSoftwareFrame_def Let_def)
  ultimately show ?thesis using uploaded_texture [OF assms(1,2)] assms(3) by (simp add: gl_ReadScreen_def gl_layer_def)
qed

theorem presenters_read_alike:
  assumes "gl_run works g" "\<forall>s \<in> set screens. length s = w * h" "k < length screens"
  shows "gl_ReadScreen hw (int k) old (gl_UploadSoftwareFrame screens w h bgra g) =
    vk_ReadScreen gpu (int k) (vk_UploadSoftwareFrame screens w h bgra v)"
  using gl_read_back [OF gl_run_surfaces [OF assms(1)] assms(2,3)] read_back_screen [OF assms(2,3), of _ bgra v] by simp

lemma presenters_read_alike_witness:
  "gl_ReadScreen hw 0 [] (gl_UploadSoftwareFrame [[1, 2]] 2 1 False gl_started) = vk_ReadScreen gpu 0 (vk_UploadSoftwareFrame [[1, 2]] 2 1 False started)"
  using presenters_read_alike [OF gl_started_run, of "[[1, 2]]" 2 1 0 _ _ False] by simp

text \<open>
  A screen that the frame does not have: the OpenGL ES presenter reports success and leaves the buffer,
  the Vulkan one reports that there is none.
\<close>

theorem gl_reads_missing_screen:
  assumes "gl_run works g" "\<forall>s \<in> set screens. length s = w * h" "length screens \<le> k"
  shows "gl_ReadScreen hw (int k) [] (gl_UploadSoftwareFrame screens w h bgra g) = Some (replicate (w * h) 0xFF000000, w, h) \<and>
    vk_ReadScreen gpu (int k) (vk_UploadSoftwareFrame screens w h bgra v) = None"
proof
  let ?g = "gl_UploadSoftwareFrame screens w h bgra g"
  have "gp_soft ?g = (w, h, length screens)" by (auto simp: gl_UploadSoftwareFrame_def Let_def)
  moreover have "\<not> gp_useHardware ?g" "gp_haveFrame ?g" "gp_softBgra ?g = bgra" by (simp_all add: gl_UploadSoftwareFrame_def Let_def)
  moreover have "opaque_pixel b 0 = 0xFF000000" for b by (simp add: opaque_pixel_def swap_rb_def)
  ultimately show "gl_ReadScreen hw (int k) [] ?g = Some (replicate (w * h) 0xFF000000, w, h)"
    using uploaded_texture [OF gl_run_surfaces [OF assms(1)] assms(2)] assms(3)
    by (simp add: gl_ReadScreen_def gl_layer_def resize_pixels_def read_pixels_def)
  show "vk_ReadScreen gpu (int k) (vk_UploadSoftwareFrame screens w h bgra v) = None"
    using assms(3) by (simp add: vk_ReadScreen_def vk_UploadSoftwareFrame_def)
qed

section \<open>Both presenters draw alike\<close>

text \<open>A screen as the Vulkan presenter draws it, seen as one of the OpenGL ES presenter.\<close>

definition as_gl :: "nat \<times> nat \<Rightarrow> screen_quad \<Rightarrow> screen_draw \<Rightarrow> gl_draw" where
  "as_gl sz q d = \<lparr>g_rect = gl_rect sz q, g_texSize = d_texSize d, g_outSize = d_outSize d, g_layer = d_layer d, g_opacity = d_opacity d,
     g_rotation = d_rotation d, g_filter = d_filter d, g_colorCorrect = d_colorCorrect d, g_swapRB = d_swapRB d\<rparr>"

text \<open>With the same layout, settings and software frame, both draw the same screens if all of them are there.\<close>

theorem presenters_draw_alike:
  assumes "gp_layout g = vp_layout v" "gp_settings g = vp_settings v" "gp_size g = vp_logical v" "gp_soft g = vp_soft v" "gp_softBgra g = vp_softBgra v"
    "\<not> gp_useHardware g" "\<forall>q \<in> set (vp_layout v). q_screen q < int (snd (snd (vp_soft v)))"
  shows "gl_draws g = map2 (as_gl (vp_logical v)) (filter (\<lambda>q. \<not> (q_w q \<le> 0 \<or> q_h q \<le> 0 \<or> q_opacity q \<le> 0)) (vp_layout v))
    (screen_draws v (vp_soft v) (vp_softBgra v))"
proof -
  obtain tw th tl where soft: "vp_soft v = (tw, th, tl)" by (metis surj_pair)
  let ?P = "\<lambda>q. \<not> (q_w q \<le> 0 \<or> q_h q \<le> 0 \<or> q_opacity q \<le> 0)"
  have f: "filter (\<lambda>q. \<not> (q_w q \<le> 0 \<or> q_h q \<le> 0 \<or> q_opacity q \<le> 0 \<or> q_screen q \<ge> int tl)) (vp_layout v) = filter ?P (vp_layout v)"
    using assms(7) by (intro filter_cong) (auto simp: soft)
  have z: "zip xs (map f xs) = map (\<lambda>x. (x, f x)) xs" for f :: "screen_quad \<Rightarrow> screen_draw" and xs
    by (induction xs) simp_all
  show ?thesis unfolding screen_draws_def soft prod.case f by (simp add: gl_draws_def z assms(1-6) as_gl_def soft)
qed

lemma presenters_draw_alike_witness:
  "gl_draws (gl_SetLayout (vp_layout two_screens) (gl_UploadSoftwareFrame [[1, 2], [3, 4]] 2 1 True gl_started)) =
    map2 (as_gl (4, 3)) (vp_layout two_screens) (screen_draws two_screens (2, 1, 2) True)"
proof -
  let ?g = "gl_SetLayout (vp_layout two_screens) (gl_UploadSoftwareFrame [[1, 2], [3, 4]] 2 1 True gl_started)"
  have g: "gp_layout ?g = vp_layout two_screens" "gp_settings ?g = vp_settings two_screens" "gp_size ?g = vp_logical two_screens"
    "gp_soft ?g = vp_soft two_screens" "gp_softBgra ?g = vp_softBgra two_screens" "\<not> gp_useHardware ?g"
    by (simp_all add: two_screens_fields)
      (simp_all add: two_screens_def vk_SetLayout_def vk_UploadSoftwareFrame_def started_simps gl_SetLayout_def gl_started_def gl_UploadSoftwareFrame_def
        gl_SetWindow_def gl_ReleaseWindow_def DestroyWindowSurface_def gl_SetTargetRefreshRate_def MakeCurrent_def gl_Init_def CreateProgram_def gl_presenter_new_def)
  have l: "vp_layout two_screens = [\<lparr>q_screen = 1, q_x = 0, q_y = 0, q_w = 4, q_h = 3, q_rotation = 0, q_opacity = 1\<rparr>]" "vp_softBgra two_screens"
    by (simp_all add: two_screens_def vk_SetLayout_def vk_UploadSoftwareFrame_def)
  show ?thesis using presenters_draw_alike [OF g] by (simp add: l two_screens_fields)
qed

end
