(* ===== verification/Presenters.thy ===== *)
theory Presenters
  imports GlPresenterRuns SessionLoop
begin

text \<open>
  The session and its presenters: what the session relies on when it calls a presenter, the record
  \<open>presenter\<close> and its operations in \<open>Session\<close>, is what both presenters do.
\<close>

section \<open>Calls on a presenter\<close>

text \<open>
  A presenter's operations, \<^verbatim>\<open>Presenter.h\<close>: \<open>'w\<close> are the answers around a window, \<open>'u\<close> a frame in
  memory, \<open>'d\<close> the size of a texture and \<open>'a\<close> the answers while a frame is presented.
\<close>

record ('p, 'w, 'u, 'd, 'a) output_ops =
  oo_release :: "'p \<Rightarrow> 'p"
  oo_window :: "'w \<Rightarrow> nat \<Rightarrow> 'p \<Rightarrow> 'p"
  oo_rate :: "rat \<Rightarrow> 'p \<Rightarrow> 'p"
  oo_layout :: "nat \<Rightarrow> 'p \<Rightarrow> 'p"
  oo_settings :: "nat \<Rightarrow> 'p \<Rightarrow> 'p"
  oo_upload :: "'u \<Rightarrow> 'p \<Rightarrow> 'p"
  oo_texture :: "nat \<Rightarrow> 'd \<Rightarrow> 'p \<Rightarrow> 'p"
  oo_present :: "'a \<Rightarrow> 'p \<Rightarrow> ('p \<times> bool) option"

datatype ('w, 'u, 'd, 'a) output_call =
  Release | Window 'w nat | Rate rat | Layout nat | Settings nat | Upload 'u | Texture nat 'd nat | Show 'a

text \<open>A presenter that is called; the result of every frame presented is kept.  None when a call does not return.\<close>

fun drive :: "('p, 'w, 'u, 'd, 'a) output_ops \<Rightarrow> ('w, 'u, 'd, 'a) output_call list \<Rightarrow> 'p \<Rightarrow> ('p \<times> bool list) option" where
  "drive ops [] v = Some (v, [])"
| "drive ops (Release # cs) v = drive ops cs (oo_release ops v)"
| "drive ops (Window a w # cs) v = drive ops cs (oo_window ops a w v)"
| "drive ops (Rate hz # cs) v = drive ops cs (oo_rate ops hz v)"
| "drive ops (Layout l # cs) v = drive ops cs (oo_layout ops l v)"
| "drive ops (Settings s # cs) v = drive ops cs (oo_settings ops s v)"
| "drive ops (Upload u # cs) v = drive ops cs (oo_upload ops u v)"
| "drive ops (Texture t d k # cs) v = drive ops cs (oo_texture ops t d v)"
| "drive ops (Show a # cs) v =
     (case oo_present ops a v of
        None \<Rightarrow> None
      | Some (v1, shown) \<Rightarrow> map_option (\<lambda>(v2, rs). (v2, shown # rs)) (drive ops cs v1))"

text \<open>What the session expects of the calls; \<open>lost\<close> is what is left when a presenter loses what it draws to.\<close>

definition after_present :: "(presenter \<Rightarrow> presenter) \<Rightarrow> present_answer \<Rightarrow> presenter \<Rightarrow> presenter" where
  "after_present lost k p = (case k of SurfaceLost \<Rightarrow> lost p | _ \<Rightarrow> p)"

inductive expected :: "(presenter \<Rightarrow> presenter) \<Rightarrow> ('w, 'u, 'd, 'a) output_call list \<Rightarrow> presenter \<Rightarrow> bool list \<Rightarrow> presenter \<Rightarrow> bool"
  for lost :: "presenter \<Rightarrow> presenter" where
  finished: "expected lost [] p [] p"
| release: "expected lost cs (ReleaseWindow p) rs p' \<Longrightarrow> expected lost (Release # cs) p rs p'"
| window: "expected lost cs (SetWindow dv w p) rs p' \<Longrightarrow> expected lost (Window a w # cs) p rs p'"
| rate: "expected lost cs (SetTargetRefreshRate hz p) rs p' \<Longrightarrow> expected lost (Rate hz # cs) p rs p'"
| layout: "expected lost cs (p\<lparr>pr_layout := l\<rparr>) rs p' \<Longrightarrow> expected lost (Layout l # cs) p rs p'"
| settings: "expected lost cs (p\<lparr>pr_settings := s\<rparr>) rs p' \<Longrightarrow> expected lost (Settings s # cs) p rs p'"
| upload: "expected lost cs (show_frame Uploaded p) rs p' \<Longrightarrow> expected lost (Upload u # cs) p rs p'"
| texture: "expected lost cs (show_frame (CoreTexture t k) p) rs p' \<Longrightarrow> expected lost (Texture t d k # cs) p rs p'"
| present: "expected lost cs (after_present lost k p) rs p' \<Longrightarrow> expected lost (Show a # cs) p ((k = Presented) # rs) p'"

section \<open>The interface\<close>

text \<open>
  \<open>sees v p\<close>: the session sees the presenter \<open>v\<close> as \<open>p\<close>.  Every operation keeps this; a window is
  taken or not, and a frame is presented, not shown, or loses what it is drawn to.
\<close>

locale session_presenter =
  fixes ops :: "('p, 'w, 'u, 'd, 'a) output_ops"
    and sees :: "'p \<Rightarrow> presenter \<Rightarrow> bool"
    and lost :: "presenter \<Rightarrow> presenter"
  assumes sees_release: "sees v p \<Longrightarrow> sees (oo_release ops v) (ReleaseWindow p)"
    and sees_window: "sees v p \<Longrightarrow> \<exists>dv. sees (oo_window ops a w v) (SetWindow dv w p)"
    and sees_rate: "sees v p \<Longrightarrow> sees (oo_rate ops hz v) (SetTargetRefreshRate hz p)"
    and sees_layout: "sees v p \<Longrightarrow> sees (oo_layout ops l v) (p\<lparr>pr_layout := l\<rparr>)"
    and sees_settings: "sees v p \<Longrightarrow> sees (oo_settings ops s v) (p\<lparr>pr_settings := s\<rparr>)"
    and sees_upload: "sees v p \<Longrightarrow> sees (oo_upload ops u v) (show_frame Uploaded p)"
    and sees_texture: "sees v p \<Longrightarrow> sees (oo_texture ops t d v) (show_frame (CoreTexture t k) p)"
    and sees_present: "sees v p \<Longrightarrow> oo_present ops x v = Some (v', shown) \<Longrightarrow> \<exists>r. (r = Presented) = shown \<and> sees v' (after_present lost r p)"
    and present_needs_window: "sees v p \<Longrightarrow> \<not> pr_ready p \<Longrightarrow> oo_present ops x v = Some (v, False)"
begin

text \<open>A presenter that is called does what the session expects.\<close>

lemma drive_expected: "sees v p \<Longrightarrow> drive ops cs v = Some (v', rs) \<Longrightarrow> \<exists>p'. expected lost cs p rs p' \<and> sees v' p'"
proof (induction cs arbitrary: v p v' rs)
  case Nil
  then show ?case using expected.finished by auto
next
  case (Cons c cs)
  have one: "\<exists>p'. expected lost (c # cs) p rs p' \<and> sees v' p'"
    if "sees v1 p1" "drive ops cs v1 = Some (v', rs)" "\<And>p'. expected lost cs p1 rs p' \<Longrightarrow> expected lost (c # cs) p rs p'" for v1 p1
    using Cons.IH [OF that(1,2)] that(3) by blast
  show ?case
  proof (cases c)
    case (Window a w)
    with Cons.prems sees_window obtain dv where "sees (oo_window ops a w v) (SetWindow dv w p)" by blast
    with Cons.prems Window expected.window [of lost cs dv w p] show ?thesis by (intro one) simp_all
  next
    case (Show a)
    then obtain v1 shown rs1 where v1: "oo_present ops a v = Some (v1, shown)" "drive ops cs v1 = Some (v', rs1)" "rs = shown # rs1"
      using Cons.prems(2) by (auto split: option.splits)
    obtain r where r: "(r = Presented) = shown" "sees v1 (after_present lost r p)" using sees_present [OF Cons.prems(1) v1(1)] by blast
    from Cons.IH [OF r(2) v1(2)] obtain p' where "expected lost cs (after_present lost r p) rs1 p'" "sees v' p'" by blast
    with expected.present [OF this(1), of a] r(1) v1(3) Show show ?thesis by auto
  next
    case Release
    with Cons.prems sees_release expected.release show ?thesis by (intro one) simp_all
  next
    case (Rate hz)
    with Cons.prems sees_rate expected.rate show ?thesis by (intro one) simp_all
  next
    case (Layout l)
    with Cons.prems sees_layout expected.layout show ?thesis by (intro one) simp_all
  next
    case (Settings t)
    with Cons.prems sees_settings expected.settings show ?thesis by (intro one) simp_all
  next
    case (Upload u)
    with Cons.prems sees_upload expected.upload show ?thesis by (intro one) simp_all
  next
    case (Texture t d k)
    with Cons.prems sees_texture expected.texture show ?thesis by (intro one) simp_all
  qed
qed

text \<open>Without a window to draw to, nothing is shown.\<close>

lemma nothing_shown: "sees v p \<Longrightarrow> drive ops [Release, Show a] v = Some (v', rs) \<Longrightarrow> rs = [False]"
  using present_needs_window [OF sees_release, of v p a] by (simp add: ReleaseWindow_def)

end

text \<open>A presenter that also shows images of a core, and forgets a core's frames.\<close>

locale image_presenter = session_presenter ops sees lost
  for ops :: "('p, 'w, 'u, 'd, 'a) output_ops" and sees :: "'p \<Rightarrow> presenter \<Rightarrow> bool" and lost :: "presenter \<Rightarrow> presenter" +
  fixes show_image :: "nat \<Rightarrow> 'i \<Rightarrow> 'p \<Rightarrow> 'p" and drop_image :: "'p \<Rightarrow> 'p" and drop_frames :: "'p \<Rightarrow> 'p"
  assumes sees_image: "sees v p \<Longrightarrow> sees (show_image i f v) (show_frame (CoreImage i k) p)"
    and sees_drop_image: "sees v p \<Longrightarrow> sees (drop_image v) (DropExternalImage p)"
    and sees_drop_frames: "sees v p \<Longrightarrow> sees (drop_frames v) (DropExternalFrames p)"
begin

text \<open>After a core's frames were dropped, what is shown is not of a core, however the presenter is called, until a core shows a frame.\<close>

definition no_core :: "presenter \<Rightarrow> bool" where
  "no_core p \<longleftrightarrow> (case pr_shown p of CoreTexture t k \<Rightarrow> False | CoreImage i k \<Rightarrow> False | _ \<Rightarrow> True)"

lemma dropped_frames:
  assumes "sees v p" "drive ops cs (drop_frames v) = Some (v', rs)" "\<forall>t d k. Texture t d k \<notin> set cs" "\<And>p. no_core p \<Longrightarrow> no_core (lost p)"
  shows "\<exists>p'. sees v' p' \<and> no_core p'"
proof -
  have n: "no_core (DropExternalFrames p)"
    by (cases "pr_shown p") (simp_all add: no_core_def DropExternalFrames_def DropExternalImage_def Let_def)
  obtain p' where p': "expected lost cs (DropExternalFrames p) rs p'" "sees v' p'" using drive_expected [OF sees_drop_frames [OF assms(1)] assms(2)] by blast
  have "no_core p'" using p'(1) n assms(3)
  proof (induction rule: expected.induct)
    case (present cs k p rs p' a)
    then show ?case using assms(4) by (cases k) (simp_all add: after_present_def)
  qed (auto simp: no_core_def ReleaseWindow_def SetWindow_def SetTargetRefreshRate_def show_frame_def)
  with p'(2) show ?thesis by blast
qed

end

section \<open>The Vulkan presenter\<close>

text \<open>Layouts and settings are numbered by the session; \<open>lay\<close> and \<open>sett\<close> give them.\<close>

definition vk_shows :: "vk_presenter \<Rightarrow> shown \<Rightarrow> bool" where
  "vk_shows v s =
     (case s of
        NoFrame \<Rightarrow> \<not> vp_haveFrame v \<and> \<not> vp_useExternal v \<and> \<not> vp_useExternalImage v
      | Uploaded \<Rightarrow> vp_haveFrame v \<and> \<not> vp_useExternal v \<and> \<not> vp_useExternalImage v
      | CoreTexture t k \<Rightarrow> vp_haveFrame v \<and> vp_useExternal v \<and> \<not> vp_useExternalImage v \<and> vp_extTexture v = t
      | CoreImage i k \<Rightarrow> vp_haveFrame v \<and> \<not> vp_useExternal v \<and> vp_useExternalImage v \<and> vp_extImage v = i)"

definition vk_sees :: "(nat \<Rightarrow> screen_quad list) \<Rightarrow> (nat \<Rightarrow> present_settings) \<Rightarrow> vk_presenter \<Rightarrow> presenter \<Rightarrow> bool" where
  "vk_sees lay sett v p \<longleftrightarrow> window_ok v \<and> vp_initialized v \<and> pr_window p = vp_window v \<and> pr_ready p = vp_swapchain v \<and> pr_rate p = vp_targetHz v \<and>
     vp_layout v = lay (pr_layout p) \<and> vp_settings v = sett (pr_settings p) \<and> vk_shows v (pr_shown p)"

definition vk_ops :: "(nat \<Rightarrow> screen_quad list) \<Rightarrow> (nat \<Rightarrow> present_settings) \<Rightarrow>
    (vk_presenter, bool \<times> swap_answer, u32 list list \<times> nat \<times> nat \<times> bool, nat \<times> nat \<times> nat, present_env) output_ops" where
  "vk_ops lay sett = \<lparr>oo_release = vk_ReleaseWindow, oo_window = (\<lambda>(surface, a) w. vk_SetWindow surface a (Some w)),
     oo_rate = vk_SetTargetRefreshRate, oo_layout = (\<lambda>l. vk_SetLayout (lay l)), oo_settings = (\<lambda>s. vk_SetSettings (sett s)),
     oo_upload = (\<lambda>(screens, w, h, bgra). vk_UploadSoftwareFrame screens w h bgra),
     oo_texture = (\<lambda>t (w, h, layers). vk_SetExternalFrame t w h layers),
     oo_present = (\<lambda>e v. map_option (\<lambda>(v', shown, p). (v', shown)) (vk_Present e v))\<rparr>"

definition vk_lost :: "presenter \<Rightarrow> presenter" where
  "vk_lost p = p\<lparr>pr_ready := False\<rparr>"

text \<open>
  C31: What the window and presenting do not touch.\<close>

definition same_view :: "vk_presenter \<Rightarrow> vk_presenter \<Rightarrow> bool" where
  "same_view v v' \<longleftrightarrow> same_look v v' \<and> vp_targetHz v' = vp_targetHz v \<and> vp_initialized v' = vp_initialized v"

lemma same_view_refl [simp]: "same_view v v"
  by (simp add: same_view_def same_look_def same_soft_def)

lemma same_view_trans: "same_view u v \<Longrightarrow> same_view v w \<Longrightarrow> same_view u w"
  by (simp add: same_view_def same_look_def same_soft_def)

lemma vk_sees_view: "vk_sees lay sett v p \<Longrightarrow> same_view v v' \<Longrightarrow> window_ok v' \<Longrightarrow> pr_window p' = vp_window v' \<Longrightarrow> pr_ready p' = vp_swapchain v' \<Longrightarrow>
    pr_rate p' = pr_rate p \<Longrightarrow> pr_layout p' = pr_layout p \<Longrightarrow> pr_settings p' = pr_settings p \<Longrightarrow> pr_shown p' = pr_shown p \<Longrightarrow> vk_sees lay sett v' p'"
  by (cases "pr_shown p") (simp_all add: vk_sees_def same_view_def same_look_def same_soft_def vk_shows_def)

lemma release_view: "same_view v (vk_ReleaseWindow v) \<and> vp_window (vk_ReleaseWindow v) = None"
  by (simp add: same_view_def same_look_def same_soft_def vk_ReleaseWindow_def DestroySwapchain_def)

lemma create_view: "same_view v (fst (CreateSwapchain a v)) \<and> vp_window (fst (CreateSwapchain a v)) = vp_window v \<and>
    (\<not> vp_swapchain v \<longrightarrow> vp_swapchain (fst (CreateSwapchain a v)) = snd (CreateSwapchain a v))"
  by (simp add: same_view_def same_look_def same_soft_def CreateSwapchain_def vk_SetTargetRefreshRate_def Let_def)

lemma window_view:
  assumes "vp_initialized v" "window_ok v"
  shows "same_view v (vk_SetWindow surface a (Some w) v) \<and>
    vp_window (vk_SetWindow surface a (Some w) v) = (if vp_swapchain (vk_SetWindow surface a (Some w) v) then Some w else None)"
proof -
  let ?r = "vk_ReleaseWindow v"
  let ?v = "?r\<lparr>vp_window := Some w, vp_surface := True\<rparr>"
  have r: "same_view v ?r" "vp_window ?r = None" "\<not> vp_swapchain ?r" using release_view vk_ReleaseWindow_ok [OF assms(2)] by simp_all
  have v: "same_view v ?v" using r(1) by (simp add: same_view_def same_look_def same_soft_def)
  obtain c ok where c: "CreateSwapchain a ?v = (c, ok)" by force
  have cv: "same_view v c" "vp_window c = Some w" "vp_swapchain c = ok" using create_view [of ?v a] same_view_trans [OF v] r(3) by (simp_all add: c)
  have swap: "\<not> vp_swapchain (vk_ReleaseWindow c)" by (simp add: vk_ReleaseWindow_def DestroySwapchain_def)
  have "vp_initialized ?r" using r(1) assms(1) by (simp add: same_view_def)
  then show ?thesis using r cv c swap release_view [of c] same_view_trans [OF cv(1)] by (cases ok) (simp_all add: vk_SetWindow_def Let_def)
qed

lemma draw_view: "same_view v (fst (draw_frame e v f)) \<and> vp_window (fst (draw_frame e v f)) = vp_window v \<and>
    vp_swapchain (fst (draw_frame e v f)) = vp_swapchain v"
  using draw_frame_look [of v e f] draw_frame_initialized [of e v f]
  by (cases "pe_present e") (simp_all add: same_view_def draw_frame_def present_result_def Let_def split_def)

lemma put_view: "same_view v (put_slot k f v)" "same_view v ((put_slot k f v)\<lparr>vp_needRecreate := b\<rparr>)"
  by (simp_all add: same_view_def same_look_def same_soft_def put_slot_def)

lemma destroy_view: "same_view v (DestroySwapchain v) \<and> vp_window (DestroySwapchain v) = vp_window v \<and> \<not> vp_swapchain (DestroySwapchain v)"
  by (simp add: same_view_def same_look_def same_soft_def DestroySwapchain_def)

lemma recreated_view:
  assumes "vp_swapchain v" "w = v \<or> CreateSwapchain a (DestroySwapchain v) = (w, b)"
  shows "same_view v w \<and> vp_window w = vp_window v \<and> (w = v \<or> vp_swapchain w = b)"
proof (cases "w = v")
  case False
  then have c: "CreateSwapchain a (DestroySwapchain v) = (w, b)" using assms(2) by simp
  show ?thesis using create_view [of "DestroySwapchain v" a] destroy_view [of v] same_view_trans [of v "DestroySwapchain v" w] by (simp add: c)
qed simp

lemma present_view:
  assumes "vk_Present e v = Some (v', shown, p)" "vp_swapchain v"
  shows "same_view v v' \<and> vp_window v' = vp_window v \<and> (shown \<longrightarrow> vp_swapchain v')"
  using assms(1)
proof (cases rule: vk_Present_cases)
  case (lost w)
  with recreated_view [OF assms(2), of w "pe_swap e" False] show ?thesis by auto
next
  case (acquire w f)
  note w = recreated_view [OF assms(2) acquire(2)]
  from acquire(5) consider "v' = put_slot (vp_frameIndex w) f w" | "v' = (put_slot (vp_frameIndex w) f w)\<lparr>vp_needRecreate := True\<rparr>" by blast
  then have v': "same_view w v' \<and> vp_window v' = vp_window w" using put_view [of w] by cases simp_all
  have "same_view v v'" by (rule same_view_trans [of v w]) (use w v' in simp_all)
  with w v' acquire(6) show ?thesis by simp
next
  case (draw w f)
  have "v' = fst (draw_frame e w f)" using draw(4) by (metis fst_conv)
  with draw_view [of w e f] have v': "same_view w v'" "vp_window v' = vp_window w" "vp_swapchain v' = vp_swapchain w" by simp_all
  note w = recreated_view [OF assms(2) draw(2)]
  have "same_view v v'" by (rule same_view_trans [of v w]) (use w v'(1) in simp_all)
  with w v'(2,3) assms(2) show ?thesis by auto
qed (use assms(2) in simp)


lemma vk_sees_release:
  assumes "vk_sees lay sett v p"
  shows "vk_sees lay sett (vk_ReleaseWindow v) (ReleaseWindow p)"
proof -
  have "window_ok v" using assms by (simp add: vk_sees_def)
  from vk_ReleaseWindow_ok [OF this] release_view [of v] show ?thesis
    by (intro vk_sees_view [OF assms, of "vk_ReleaseWindow v"]) (simp_all add: ReleaseWindow_def)
qed

lemma vk_sees_window:
  assumes "vk_sees lay sett v p"
  shows "\<exists>dv. vk_sees lay sett (vk_SetWindow surface a (Some w) v) (SetWindow dv w p)"
proof -
  define u where "u = vk_SetWindow surface a (Some w) v"
  have v: "vp_initialized v" "window_ok v" using assms by (simp_all add: vk_sees_def)
  have u: "same_view v u" "vp_window u = (if vp_swapchain u then Some w else None)" "window_ok u"
    using window_view [OF v, of surface a w] vk_SetWindow_ok [OF v(2)] by (simp_all add: u_def)
  define dv where "dv = \<lparr>dv_vulkan = True, dv_vkPresenter = True, dv_surface = (\<lambda>_ :: nat. vp_swapchain u)\<rparr>"
  have "dv_surface dv w = vp_swapchain u" by (simp add: dv_def)
  with u(2) have "vk_sees lay sett u (SetWindow dv w p)"
    by (intro vk_sees_view [OF assms u(1) u(3)]) (simp_all add: SetWindow_def ReleaseWindow_def)
  then show ?thesis unfolding u_def by blast
qed

lemma window_ok_frames [simp]:
  "window_ok (vk_UploadSoftwareFrame screens w h bgra v) = window_ok v" "window_ok (vk_SetExternalFrame t w h layers v) = window_ok v"
  "window_ok (vk_SetExternalImage t bgra w h v) = window_ok v" "window_ok (vk_DropExternalImage v) = window_ok v"
  "window_ok (vk_DropExternalFrames v) = window_ok v" "window_ok (vk_SetLayout l v) = window_ok v" "window_ok (vk_SetSettings s v) = window_ok v"
  by (simp_all add: window_ok_def vk_UploadSoftwareFrame_def vk_SetExternalFrame_def vk_SetExternalImage_def vk_DropExternalImage_def
      vk_DropExternalFrames_def vk_SetLayout_def vk_SetSettings_def Let_def)

lemma vk_sees_present:
  assumes "vk_sees lay sett v p" "vk_Present e v = Some (v', shown, pic)"
  shows "\<exists>r. (r = Presented) = shown \<and> vk_sees lay sett v' (after_present vk_lost r p)"
proof (cases "vp_swapchain v")
  case True
  note view = present_view [OF assms(2) True]
  have ok: "window_ok v'" using assms(1) vk_Present_ok [OF _ assms(2)] by (simp add: vk_sees_def)
  let ?r = "if shown then Presented else if vp_swapchain v' then NotShown else SurfaceLost"
  have "vk_sees lay sett v' (after_present vk_lost ?r p)"
    using view assms(1) True by (intro vk_sees_view [OF assms(1) _ ok]) (auto simp: vk_sees_def after_present_def vk_lost_def)
  then show ?thesis by (intro exI [of _ ?r]) simp
next
  case False
  then have "v' = v" "\<not> shown" using assms(2) by (simp_all add: vk_Present_def)
  then show ?thesis using assms(1) by (intro exI [of _ NotShown]) (simp add: after_present_def)
qed

lemma vk_sees_rate: "vk_sees lay sett v p \<Longrightarrow> vk_sees lay sett (vk_SetTargetRefreshRate hz v) (SetTargetRefreshRate hz p)"
  by (cases "pr_shown p") (auto simp: vk_sees_def window_ok_def vk_shows_def vk_SetTargetRefreshRate_def SetTargetRefreshRate_def Let_def)

lemma vk_sees_frames:
  "vk_sees lay sett v p \<Longrightarrow> vk_sees lay sett (vk_UploadSoftwareFrame screens w h bgra v) (show_frame Uploaded p)"
  "vk_sees lay sett v p \<Longrightarrow> vk_sees lay sett (vk_SetExternalFrame t w h layers v) (show_frame (CoreTexture t k) p)"
  "vk_sees lay sett v p \<Longrightarrow> vk_sees lay sett (vk_SetExternalImage t bgra w h v) (show_frame (CoreImage t k) p)"
  by (simp_all add: vk_sees_def)
    (simp_all add: vk_shows_def vk_UploadSoftwareFrame_def vk_SetExternalFrame_def vk_SetExternalImage_def show_frame_def)

lemma vk_sees_drops:
  "vk_sees lay sett v p \<Longrightarrow> vk_sees lay sett (vk_DropExternalImage v) (DropExternalImage p)"
  "vk_sees lay sett v p \<Longrightarrow> vk_sees lay sett (vk_DropExternalFrames v) (DropExternalFrames p)"
  by (cases "pr_shown p"; simp add: vk_sees_def; simp add: vk_shows_def vk_DropExternalImage_def DropExternalImage_def
      vk_DropExternalFrames_def DropExternalFrames_def Let_def)+

interpretation vk: session_presenter "vk_ops lay sett" "vk_sees lay sett" vk_lost
proof unfold_locales
  fix v p x v' shown
  assume "vk_sees lay sett v p" "oo_present (vk_ops lay sett) x v = Some (v', shown)"
  then show "\<exists>r. (r = Presented) = shown \<and> vk_sees lay sett v' (after_present vk_lost r p)"
    using vk_sees_present by (auto simp: vk_ops_def)
qed (auto simp: vk_ops_def vk_sees_release vk_sees_window vk_sees_rate vk_sees_frames split: prod.splits,
  auto simp: vk_sees_def vk_shows_def vk_Present_def split: shown.splits, simp_all add: vk_SetLayout_def vk_SetSettings_def)

interpretation vk_images: image_presenter "vk_ops lay sett" "vk_sees lay sett" vk_lost "\<lambda>i (bgra, w, h). vk_SetExternalImage i bgra w h"
  vk_DropExternalImage vk_DropExternalFrames
  by unfold_locales (auto simp: vk_sees_frames vk_sees_drops)

section \<open>The OpenGL ES presenter\<close>

definition gl_shows :: "gl_presenter \<Rightarrow> shown \<Rightarrow> bool" where
  "gl_shows v s =
     (case s of
        NoFrame \<Rightarrow> \<not> gp_haveFrame v
      | Uploaded \<Rightarrow> gp_haveFrame v \<and> \<not> gp_useHardware v
      | CoreTexture t k \<Rightarrow> gp_haveFrame v \<and> gp_useHardware v \<and> gp_hwTexture v = t
      | CoreImage i k \<Rightarrow> False)"

definition gl_sees :: "(nat \<Rightarrow> screen_quad list) \<Rightarrow> (nat \<Rightarrow> present_settings) \<Rightarrow> gl_presenter \<Rightarrow> presenter \<Rightarrow> bool" where
  "gl_sees lay sett v p \<longleftrightarrow> surfaces_ok False v \<and> pr_window p = gp_window v \<and> pr_ready p = gl_HasWindow v \<and> pr_rate p = gp_targetHz v \<and>
     gp_layout v = lay (pr_layout p) \<and> gp_settings v = sett (pr_settings p) \<and> gl_shows v (pr_shown p)"

definition gl_ops :: "(nat \<Rightarrow> screen_quad list) \<Rightarrow> (nat \<Rightarrow> present_settings) \<Rightarrow>
    (gl_presenter, window_answer, u32 list list \<times> nat \<times> nat \<times> bool, nat \<times> nat, swap_result \<times> bool) output_ops" where
  "gl_ops lay sett = \<lparr>oo_release = gl_ReleaseWindow True, oo_window = (\<lambda>a w. gl_SetWindow a (Some w)),
     oo_rate = gl_SetTargetRefreshRate, oo_layout = (\<lambda>l. gl_SetLayout (lay l)), oo_settings = (\<lambda>s. gl_SetSettings (sett s)),
     oo_upload = (\<lambda>(screens, w, h, bgra). gl_UploadSoftwareFrame screens w h bgra),
     oo_texture = (\<lambda>t (w, h). gl_SetHardwareFrame t w h),
     oo_present = (\<lambda>(r, ok) v. case gl_Present r ok v of (v', shown, p) \<Rightarrow> Some (v', shown))\<rparr>"

lemma gl_ready: "surfaces_ok works v \<Longrightarrow> gl_HasWindow v \<longleftrightarrow> gp_window v \<noteq> None"
  by (auto simp: gl_HasWindow_def surfaces_ok_def)

lemma gl_sees_destroy: "gl_sees lay sett v p \<Longrightarrow> gl_sees lay sett (DestroyWindowSurface ok v) (ReleaseWindow p)"
  using DestroyWindowSurface_surfaces [of False v ok] gl_ready [of False "DestroyWindowSurface ok v"]
  by (cases "pr_shown p") (simp_all add: gl_sees_def ReleaseWindow_def gl_shows_def)

lemma gl_window_view:
  "gp_targetHz (gl_SetWindow a (Some w) v) = gp_targetHz v \<and> gp_layout (gl_SetWindow a (Some w) v) = gp_layout v \<and>
    gp_settings (gl_SetWindow a (Some w) v) = gp_settings v \<and> gp_haveFrame (gl_SetWindow a (Some w) v) = gp_haveFrame v \<and>
    gp_useHardware (gl_SetWindow a (Some w) v) = gp_useHardware v \<and> gp_hwTexture (gl_SetWindow a (Some w) v) = gp_hwTexture v \<and>
    gp_window (gl_SetWindow a (Some w) v) = (if wa_surface a = None then None else Some w)"
  by (simp add: gl_SetWindow_def gl_ReleaseWindow_def gl_SetTargetRefreshRate_def MakeCurrent_def Let_def)

lemma gl_sees_window: "gl_sees lay sett v p \<Longrightarrow> \<exists>dv. gl_sees lay sett (gl_SetWindow a (Some w) v) (SetWindow dv w p)"
proof -
  assume s: "gl_sees lay sett v p"
  let ?v = "gl_SetWindow a (Some w) v"
  let ?dv = "\<lparr>dv_vulkan = True, dv_vkPresenter = True, dv_surface = (\<lambda>_. wa_surface a \<noteq> None)\<rparr>"
  have ok: "surfaces_ok False ?v" using s gl_SetWindow_surfaces by (simp add: gl_sees_def)
  have "gl_shows ?v (pr_shown p) = gl_shows v (pr_shown p)" using gl_window_view by (simp add: gl_shows_def split: shown.split)
  with s ok gl_ready [OF ok] gl_window_view [of a w v] have "gl_sees lay sett ?v (SetWindow ?dv w p)"
    by (simp add: gl_sees_def SetWindow_def ReleaseWindow_def)
  then show ?thesis by blast
qed

lemma gl_sees_present:
  assumes "gl_sees lay sett v p" "gl_Present r ok v = (v', shown, pic)"
  shows "\<exists>k. (k = Presented) = shown \<and> gl_sees lay sett v' (after_present ReleaseWindow k p)"
proof (cases "gl_HasWindow v")
  case True
  then obtain n where n: "gp_surface v = Some n" "gp_window v \<noteq> None" by (auto simp: gl_HasWindow_def)
  let ?k = "case r of Swapped \<Rightarrow> Presented | SwapFailed \<Rightarrow> NotShown | BadSurface \<Rightarrow> SurfaceLost"
  have "v' = (if r = BadSurface then DestroyWindowSurface ok v else v)" "shown = (r = Swapped)"
    using assms(2) n by (cases r; simp add: gl_Present_def Let_def)+
  then show ?thesis using assms(1) gl_sees_destroy by (intro exI [of _ ?k]) (cases r; simp add: after_present_def)
next
  case False
  then have "v' = v" "\<not> shown" using assms(2) by (auto simp: gl_Present_def gl_HasWindow_def split: option.splits)
  then show ?thesis using assms(1) by (intro exI [of _ NotShown]) (simp add: after_present_def)
qed

lemma gl_sees_upload: "gl_sees lay sett v p \<Longrightarrow> gl_sees lay sett (gl_UploadSoftwareFrame screens w h bgra v) (show_frame Uploaded p)"
  using gl_Upload_surfaces [of False v screens w h bgra]
  by (simp add: gl_sees_def show_frame_def gl_shows_def) (simp add: gl_UploadSoftwareFrame_def Let_def gl_HasWindow_def)

lemma gl_sees_rate: "gl_sees lay sett v p \<Longrightarrow> gl_sees lay sett (gl_SetTargetRefreshRate hz v) (SetTargetRefreshRate hz p)"
  by (cases "pr_shown p") (simp_all add: gl_sees_def surfaces_ok_def gl_shows_def gl_SetTargetRefreshRate_def SetTargetRefreshRate_def gl_HasWindow_def Let_def)

interpretation gl: session_presenter "gl_ops lay sett" "gl_sees lay sett" ReleaseWindow
proof unfold_locales
  fix v p x v' shown
  assume s: "gl_sees lay sett v p" "oo_present (gl_ops lay sett) x v = Some (v', shown)"
  obtain r ok pic where "gl_Present r ok v = (v', shown, pic)" using s(2) by (cases x) (auto simp: gl_ops_def split: prod.splits)
  with gl_sees_present [OF s(1)] show "\<exists>r. (r = Presented) = shown \<and> gl_sees lay sett v' (after_present ReleaseWindow r p)" by blast
next
  fix v p x
  assume "gl_sees lay sett v p" "\<not> pr_ready p"
  then show "oo_present (gl_ops lay sett) x v = Some (v, False)"
    by (cases x) (auto simp: gl_ops_def gl_sees_def gl_HasWindow_def gl_Present_def split: option.splits)
qed (auto simp: gl_ops_def gl_ReleaseWindow_def gl_sees_destroy gl_sees_window gl_sees_upload gl_sees_rate,
  auto simp: gl_sees_def surfaces_ok_def gl_shows_def gl_SetLayout_def gl_SetSettings_def gl_SetHardwareFrame_def show_frame_def gl_HasWindow_def
    split: shown.splits)

section \<open>Both do what the session expects\<close>


text \<open>What the session sees of the two presenters when they have started.\<close>

definition seen_started :: presenter where
  "seen_started = \<lparr>pr_window = Some 1, pr_ready = True, pr_rate = 60, pr_layout = 0, pr_settings = 0, pr_shown = NoFrame\<rparr>"

lemma started_seen: "vk_sees (\<lambda>_. []) (\<lambda>_. settings_new) started seen_started" "gl_sees (\<lambda>_. []) (\<lambda>_. settings_new) gl_started seen_started"
proof -
  have "window_ok started" using vk_run_ok [OF started_run] by (auto simp: presenter_ok_def)
  then show "vk_sees (\<lambda>_. []) (\<lambda>_. settings_new) started seen_started"
    by (simp add: vk_sees_def seen_started_def vk_shows_def) (simp add: started_simps)
  show "gl_sees (\<lambda>_. []) (\<lambda>_. settings_new) gl_started seen_started"
    using gl_run_surfaces [OF gl_started_run, of False]
    by (simp add: gl_sees_def seen_started_def gl_shows_def)
      (simp add: gl_started_def gl_HasWindow_def gl_SetWindow_def gl_ReleaseWindow_def DestroyWindowSurface_def gl_SetTargetRefreshRate_def
        MakeCurrent_def gl_Init_def CreateProgram_def gl_presenter_new_def Let_def)
qed

definition vk_calls :: "(bool \<times> swap_answer, u32 list list \<times> nat \<times> nat \<times> bool, nat \<times> nat \<times> nat, present_env) output_call list" where
  "vk_calls = [Upload ([[1, 2]], 2, 1, True), Show all_well]"

definition gl_calls :: "(window_answer, u32 list list \<times> nat \<times> nat \<times> bool, nat \<times> nat, swap_result \<times> bool) output_call list" where
  "gl_calls = [Upload ([[1, 2]], 2, 1, True), Show (BadSurface, True)]"


text \<open>The Vulkan presenter shows nothing of a core whose frames were dropped, as long as no core shows a frame.\<close>

theorem dropped_frames_not_shown:
  assumes "vk_sees lay sett v p" "drive (vk_ops lay sett) cs (vk_DropExternalFrames v) = Some (v', rs)" "\<forall>t d k. Texture t d k \<notin> set cs"
  shows "\<not> vp_useExternal v' \<and> \<not> vp_useExternalImage v'"
proof -
  obtain p' where "vk_sees lay sett v' p'" "vk_images.no_core p'"
    using vk_images.dropped_frames [OF assms] by (auto simp: vk_images.no_core_def vk_lost_def)
  then show ?thesis by (cases "pr_shown p'") (simp_all add: vk_sees_def vk_shows_def vk_images.no_core_def)
qed

end
