(* ===== verification/VkContext.thy ===== *)
theory VkContext
  imports Files
begin

unbundle bit_operations_syntax

text \<open>
  The Vulkan context, \<^verbatim>\<open>VulkanContext.cpp\<close>: the device with its queue, extensions and features, the
  pipeline cache that is kept between runs, single command buffers, and images and buffers.

  What the driver answers is an argument.  Of an object it is kept whether it exists, of the pipeline
  cache also the data it was made from.
\<close>

section \<open>Names of results\<close>

datatype vk_code =
  VK_SUCCESS | VK_NOT_READY | VK_TIMEOUT | VK_SUBOPTIMAL_KHR | VK_ERROR_OUT_OF_HOST_MEMORY | VK_ERROR_OUT_OF_DEVICE_MEMORY
  | VK_ERROR_INITIALIZATION_FAILED | VK_ERROR_DEVICE_LOST | VK_ERROR_EXTENSION_NOT_PRESENT | VK_ERROR_FEATURE_NOT_PRESENT
  | VK_ERROR_SURFACE_LOST_KHR | VK_ERROR_NATIVE_WINDOW_IN_USE_KHR | VK_ERROR_OUT_OF_DATE_KHR | VK_OTHER int

fun VkResultName :: "vk_code \<Rightarrow> string" where
  "VkResultName VK_SUCCESS = ''VK_SUCCESS''"
| "VkResultName VK_NOT_READY = ''VK_NOT_READY''"
| "VkResultName VK_TIMEOUT = ''VK_TIMEOUT''"
| "VkResultName VK_SUBOPTIMAL_KHR = ''VK_SUBOPTIMAL_KHR''"
| "VkResultName VK_ERROR_OUT_OF_HOST_MEMORY = ''VK_ERROR_OUT_OF_HOST_MEMORY''"
| "VkResultName VK_ERROR_OUT_OF_DEVICE_MEMORY = ''VK_ERROR_OUT_OF_DEVICE_MEMORY''"
| "VkResultName VK_ERROR_INITIALIZATION_FAILED = ''VK_ERROR_INITIALIZATION_FAILED''"
| "VkResultName VK_ERROR_DEVICE_LOST = ''VK_ERROR_DEVICE_LOST''"
| "VkResultName VK_ERROR_EXTENSION_NOT_PRESENT = ''VK_ERROR_EXTENSION_NOT_PRESENT''"
| "VkResultName VK_ERROR_FEATURE_NOT_PRESENT = ''VK_ERROR_FEATURE_NOT_PRESENT''"
| "VkResultName VK_ERROR_SURFACE_LOST_KHR = ''VK_ERROR_SURFACE_LOST_KHR''"
| "VkResultName VK_ERROR_NATIVE_WINDOW_IN_USE_KHR = ''VK_ERROR_NATIVE_WINDOW_IN_USE_KHR''"
| "VkResultName VK_ERROR_OUT_OF_DATE_KHR = ''VK_ERROR_OUT_OF_DATE_KHR''"
| "VkResultName (VK_OTHER n) = ''VK_ERROR_(other)''"

section \<open>State\<close>

text \<open>A graphics processor and its driver: vendor, device and the identification of its pipeline caches.\<close>

record gpu_identity =
  gi_vendor :: u32
  gi_device :: u32
  gi_uuid :: bytes

record queue_family =
  qf_graphics :: bool
  qf_compute :: bool

text \<open>The optional features the renderers use.\<close>

record device_features =
  df_geometryShader :: bool
  df_logicOp :: bool
  df_samplerAnisotropy :: bool
  df_fragmentStoresAndAtomics :: bool
  df_shaderClipDistance :: bool

text \<open>\<open>vc_pipelineCache\<close>: the data the cache was made from, empty when it started anew.\<close>

record vk_context =
  vc_instance :: bool
  vc_physicalDevice :: bool
  vc_device :: bool
  vc_allocator :: bool
  vc_oncePool :: bool
  vc_queueFamily :: nat
  vc_properties :: gpu_identity
  vc_cachePath :: string
  vc_pipelineCache :: "bytes option"

definition no_gpu :: gpu_identity where
  "no_gpu = \<lparr>gi_vendor = 0, gi_device = 0, gi_uuid = replicate 16 0\<rparr>"

definition vk_context_new :: vk_context where
  "vk_context_new = \<lparr>vc_instance = False, vc_physicalDevice = False, vc_device = False, vc_allocator = False, vc_oncePool = False,
     vc_queueFamily = 0, vc_properties = no_gpu, vc_cachePath = [], vc_pipelineCache = None\<rparr>"

definition vc_Ready :: "vk_context \<Rightarrow> bool" where
  "vc_Ready c = vc_device c"

text \<open>
  The driver: the instance, the graphics processors with their identity, the queue families, extensions
  and features of the first one, the extensions the frame pacing library wants, the device, the
  allocator, a pipeline cache from data and an empty one, and the command pool.
\<close>

record driver =
  dr_instance :: bool
  dr_gpus :: nat
  dr_identity :: gpu_identity
  dr_families :: "queue_family list"
  dr_available :: "string list"
  dr_swappy :: "string list"
  dr_supported :: device_features
  dr_device :: bool
  dr_allocator :: bool
  dr_cache :: "bytes \<Rightarrow> bool"
  dr_pool :: bool

section \<open>What is asked of the device\<close>

text \<open>The first queue family that does graphics and compute.\<close>

fun find_family :: "queue_family list \<Rightarrow> nat \<Rightarrow> nat option" where
  "find_family [] i = None"
| "find_family (q # qs) i = (if qf_graphics q \<and> qf_compute q then Some i else find_family qs (i + 1))"

definition swapchain_ext :: string where "swapchain_ext = ''VK_KHR_swapchain''"
definition border_ext :: string where "border_ext = ''VK_EXT_custom_border_color''"

definition addExt :: "string list \<Rightarrow> string \<Rightarrow> string list \<Rightarrow> string list \<times> bool" where
  "addExt available name exts =
     (if name \<in> set exts then (exts, True) else if name \<notin> set available then (exts, False) else (exts @ [name], True))"

text \<open>The extensions, and whether border colours can be chosen.\<close>

definition device_extensions :: "string list \<Rightarrow> string list \<Rightarrow> string list \<times> bool" where
  "device_extensions available swappy =
     (let e0 = swapchain_ext # filter (\<lambda>n. n \<noteq> swapchain_ext) swappy;
          e1 = fst (addExt available ''VK_KHR_image_format_list'' e0);
          e2 = fst (addExt available ''VK_EXT_shader_stencil_export'' e1);
          e3 = fst (addExt available ''VK_EXT_external_memory_host'' e2);
          e4 = fst (addExt available ''VK_EXT_tooling_info'' e3)
      in addExt available border_ext e4)"

text \<open>The features are the supported ones of those the renderers use.\<close>

definition device_features_asked :: "device_features \<Rightarrow> device_features" where
  "device_features_asked s =
     \<lparr>df_geometryShader = df_geometryShader s, df_logicOp = df_logicOp s, df_samplerAnisotropy = df_samplerAnisotropy s,
       df_fragmentStoresAndAtomics = df_fragmentStoresAndAtomics s, df_shaderClipDistance = df_shaderClipDistance s\<rparr>"

record device_request =
  rq_family :: nat
  rq_extensions :: "string list"
  rq_features :: device_features
  rq_customBorder :: bool

text \<open>None when there is no graphics processor or no queue for both kinds of work.\<close>

definition request_of :: "driver \<Rightarrow> device_request option" where
  "request_of d =
     (if dr_gpus d = 0 then None
      else case find_family (dr_families d) 0 of
             None \<Rightarrow> None
           | Some i \<Rightarrow>
               let (exts, border) = device_extensions (dr_available d) (dr_swappy d)
               in Some \<lparr>rq_family = i, rq_extensions = exts, rq_features = device_features_asked (dr_supported d), rq_customBorder = border\<rparr>)"

section \<open>The pipeline cache\<close>

definition read_le32 :: "bytes \<Rightarrow> nat \<Rightarrow> u32" where
  "read_le32 bs i = ucast (bs ! i) OR push_bit 8 (ucast (bs ! (i + 1))) OR push_bit 16 (ucast (bs ! (i + 2))) OR push_bit 24 (ucast (bs ! (i + 3)))"

text \<open>The data's header names the processor and the driver.\<close>

definition cache_usable :: "gpu_identity \<Rightarrow> bytes \<Rightarrow> bool" where
  "cache_usable g blob \<longleftrightarrow> length blob \<ge> 16 + 16 \<and> read_le32 blob 8 = gi_vendor g \<and> read_le32 blob 12 = gi_device g \<and>
     take 16 (drop 16 blob) = gi_uuid g"

definition cache_path :: "string \<Rightarrow> string" where
  "cache_path dir = dir @ ''/vk_pipeline_cache.bin''"

definition load_cache :: "driver \<Rightarrow> read_answers \<Rightarrow> fs \<Rightarrow> string \<Rightarrow> gpu_identity \<Rightarrow> bytes option" where
  "load_cache d r disk path g =
     (let (ok, blob) = ReadWholeFile r path disk []; initial = (if ok \<and> cache_usable g blob then blob else []) in
      if dr_cache d initial then Some initial else if dr_cache d [] then Some [] else None)"

text \<open>The answers when the cache is written: its size, its data, and the kernel's.\<close>

record cache_answers =
  ca_size :: "nat option"
  ca_data :: "bytes option"
  ca_write :: write_answers

text \<open>None when writing the file does not return.\<close>

definition SavePipelineCache :: "cache_answers \<Rightarrow> vk_context \<Rightarrow> fs \<Rightarrow> fs option" where
  "SavePipelineCache a c disk =
     (if vc_pipelineCache c = None then Some disk
      else case ca_size a of
             None \<Rightarrow> Some disk
           | Some n \<Rightarrow>
               if n = 0 then Some disk
               else case ca_data a of
                      None \<Rightarrow> Some disk
                    | Some data \<Rightarrow> map_option (\<lambda>(ok, tr). hd tr) (WriteFileAtomic (ca_write a) (vc_cachePath c) data disk))"

section \<open>Start and end\<close>

definition context_cleared :: "vk_context \<Rightarrow> vk_context" where
  "context_cleared c = c\<lparr>vc_oncePool := False, vc_pipelineCache := None, vc_allocator := False, vc_device := False, vc_instance := False,
     vc_physicalDevice := False\<rparr>"

definition vc_Shutdown :: "cache_answers \<Rightarrow> vk_context \<Rightarrow> fs \<Rightarrow> (vk_context \<times> fs) option" where
  "vc_Shutdown a c disk =
     (if vc_device c then map_option (\<lambda>disk'. (context_cleared c, disk')) (SavePipelineCache a c disk)
      else Some (context_cleared c, disk))"

text \<open>Without a pipeline cache, ending writes nothing; the start ends so when it fails.\<close>

definition vc_Init :: "driver \<Rightarrow> read_answers \<Rightarrow> fs \<Rightarrow> string \<Rightarrow> vk_context \<Rightarrow> vk_context \<times> bool" where
  "vc_Init d r disk dir c =
     (if vc_Ready c then (c, True)
      else if \<not> dr_instance d then (c, False)
      else
        let c1 = c\<lparr>vc_instance := True\<rparr> in
        if dr_gpus d = 0 then (context_cleared c1, False)
        else
          let c2 = c1\<lparr>vc_physicalDevice := True, vc_properties := dr_identity d\<rparr> in
          case request_of d of
            None \<Rightarrow> (context_cleared c2, False)
          | Some rq \<Rightarrow>
              let c3 = c2\<lparr>vc_queueFamily := rq_family rq\<rparr> in
              if \<not> dr_device d then (context_cleared c3, False)
              else if \<not> dr_allocator d then (context_cleared (c3\<lparr>vc_device := True\<rparr>), False)
              else
                let path = cache_path dir
                in (c3\<lparr>vc_device := True, vc_allocator := True, vc_cachePath := path,
                       vc_pipelineCache := load_cache d r disk path (dr_identity d), vc_oncePool := dr_pool d\<rparr>, True))"

section \<open>Single command buffers\<close>

datatype once_event = Recorded | Submitted_once | Waited | Freed

text \<open>\<open>alloc\<close>, \<open>submit\<close> and \<open>wait\<close>: the calls succeed.\<close>

definition EndOnce :: "bool \<Rightarrow> bool \<Rightarrow> once_event list \<times> bool" where
  "EndOnce submit wait =
     (if submit then ([Submitted_once, Waited, Freed], wait) else ([Submitted_once, Freed], False))"

definition BeginOnce :: "bool \<Rightarrow> bool" where
  "BeginOnce alloc = alloc"

definition RunOnce :: "bool \<Rightarrow> bool \<Rightarrow> bool \<Rightarrow> once_event list \<times> bool" where
  "RunOnce alloc submit wait =
     (if \<not> BeginOnce alloc then ([], False) else case EndOnce submit wait of (es, ok) \<Rightarrow> (Recorded # es, ok))"

section \<open>Images and buffers\<close>

text \<open>Handles are numbers, 0 is null; \<open>live\<close> are the objects that exist.\<close>

record image_resource =
  im_image :: nat
  im_view :: nat
  im_size :: "nat \<times> nat \<times> nat"
  im_format :: nat

definition image_new :: image_resource where
  "image_new = \<lparr>im_image = 0, im_view = 0, im_size = (0, 0, 0), im_format = 0\<rparr>"

definition image_Destroy :: "image_resource \<Rightarrow> nat set \<Rightarrow> image_resource \<times> nat set" where
  "image_Destroy r live = (r\<lparr>im_view := 0, im_image := 0, im_size := (0, 0, 0)\<rparr>, live - {im_view r, im_image r})"

text \<open>\<open>im\<close> and \<open>vw\<close>: the handles of the new objects, if they can be created.\<close>

definition image_Create :: "nat option \<Rightarrow> nat option \<Rightarrow> nat \<times> nat \<times> nat \<Rightarrow> nat \<Rightarrow> image_resource \<Rightarrow> nat set \<Rightarrow> image_resource \<times> nat set \<times> bool" where
  "image_Create im vw sz fmt r live =
     (case image_Destroy r live of
        (r1, live1) \<Rightarrow>
          (case im of
             None \<Rightarrow> (r1, live1, False)
           | Some i \<Rightarrow>
               (r1\<lparr>im_image := i, im_view := (case vw of None \<Rightarrow> 0 | Some v \<Rightarrow> v), im_size := sz, im_format := fmt\<rparr>,
                insert i live1 \<union> set_option vw, True)))"

record buffer_resource =
  bu_buffer :: nat
  bu_mapped :: bool
  bu_size :: nat

definition buffer_new :: buffer_resource where
  "buffer_new = \<lparr>bu_buffer = 0, bu_mapped = False, bu_size = 0\<rparr>"

definition buffer_Destroy :: "buffer_resource \<Rightarrow> nat set \<Rightarrow> buffer_resource \<times> nat set" where
  "buffer_Destroy r live = (r\<lparr>bu_buffer := 0, bu_mapped := False, bu_size := 0\<rparr>, live - {bu_buffer r})"

definition buffer_Create :: "nat option \<Rightarrow> nat \<Rightarrow> bool \<Rightarrow> buffer_resource \<Rightarrow> nat set \<Rightarrow> buffer_resource \<times> nat set \<times> bool" where
  "buffer_Create buffer bytes hostVisible r live =
     (case buffer_Destroy r live of
        (r1, live1) \<Rightarrow>
          (case buffer of
             None \<Rightarrow> (r1, live1, False)
           | Some b \<Rightarrow> (r1\<lparr>bu_buffer := b, bu_mapped := hostVisible, bu_size := bytes\<rparr>, insert b live1, True)))"

section \<open>The start succeeds completely or leaves nothing\<close>

definition context_ok :: "vk_context \<Rightarrow> bool" where
  "context_ok c \<longleftrightarrow> (vc_device c \<longrightarrow> vc_instance c \<and> vc_physicalDevice c \<and> vc_allocator c) \<and>
     (\<not> vc_device c \<longrightarrow> context_cleared c = c)"

lemma context_cleared_simps [simp]:
  "vc_device (context_cleared c) = False" "context_cleared (context_cleared c) = context_cleared c" "vc_cachePath (context_cleared c) = vc_cachePath c"
  by (simp_all add: context_cleared_def)

lemma context_cleared_ok: "context_ok (context_cleared c)"
  by (simp add: context_ok_def)

inductive context_run :: "vk_context \<Rightarrow> fs \<Rightarrow> bool" where
  start: "context_run vk_context_new disk"
| init: "context_run c disk \<Longrightarrow> context_run (fst (vc_Init d r disk dir c)) disk"
| shutdown: "context_run c disk \<Longrightarrow> vc_Shutdown a c disk = Some (c', disk') \<Longrightarrow> context_run c' disk'"
| save: "context_run c disk \<Longrightarrow> SavePipelineCache a c disk = Some disk' \<Longrightarrow> context_run c disk'"
| others: "context_run c disk \<Longrightarrow> context_run c disk'"

lemma vc_Init_cases:
  assumes "\<not> vc_device c"
  obtains (refused) "vc_Init d r disk dir c = (c, False)" "\<not> dr_instance d"
  | (failed) c' where "vc_Init d r disk dir c = (context_cleared c', False)"
  | (ready) rq c' where "vc_Init d r disk dir c = (c', True)" "request_of d = Some rq" "vc_instance c'" "vc_physicalDevice c'" "vc_device c'" "vc_allocator c'"
      "vc_queueFamily c' = rq_family rq" "vc_properties c' = dr_identity d" "vc_cachePath c' = cache_path dir"
      "vc_pipelineCache c' = load_cache d r disk (cache_path dir) (dr_identity d)"
proof (cases "dr_instance d \<and> dr_gpus d \<noteq> 0 \<and> dr_device d \<and> dr_allocator d \<and> request_of d \<noteq> None")
  case True
  then obtain rq where rq: "request_of d = Some rq" by auto
  let ?c = "fst (vc_Init d r disk dir c)"
  have "snd (vc_Init d r disk dir c)" "vc_instance ?c" "vc_physicalDevice ?c" "vc_device ?c" "vc_allocator ?c" "vc_queueFamily ?c = rq_family rq"
    "vc_properties ?c = dr_identity d" "vc_cachePath ?c = cache_path dir"
    "vc_pipelineCache ?c = load_cache d r disk (cache_path dir) (dr_identity d)"
    using True rq assms by (simp_all add: vc_Init_def vc_Ready_def Let_def)
  then show thesis by (intro ready [of ?c rq]) (simp_all add: rq prod_eq_iff)
next
  case False
  show thesis
  proof (cases "dr_instance d")
    case True
    with False assms have "\<exists>c'. vc_Init d r disk dir c = (context_cleared c', False)"
      by (auto simp: vc_Init_def vc_Ready_def Let_def split: option.splits)
    then show thesis using failed by blast
  next
    case False
    with assms show thesis by (intro refused) (simp_all add: vc_Init_def vc_Ready_def)
  qed
qed

lemma vc_Init_ok: "context_ok c \<Longrightarrow> context_ok (fst (vc_Init d r disk dir c))"
proof (cases "vc_device c")
  case False
  assume c: "context_ok c"
  from False show ?thesis by (cases rule: vc_Init_cases [of c d r disk dir]) (use c context_cleared_ok in \<open>simp_all add: context_ok_def\<close>)
qed (simp add: vc_Init_def vc_Ready_def)

lemma context_run_ok: "context_run c disk \<Longrightarrow> context_ok c"
proof (induction rule: context_run.induct)
  case start
  show ?case by (simp add: context_ok_def context_cleared_def vk_context_new_def)
next
  case (shutdown c disk a c' disk')
  then have "c' = context_cleared c" by (auto simp: vc_Shutdown_def split: if_splits)
  then show ?case by (simp add: context_cleared_ok)
qed (simp_all add: vc_Init_ok)

text \<open>
  After the start reports success there are the instance, the device and the allocator, with a queue
  for both kinds of work; after a failure nothing is left, as after an end.
\<close>

lemma find_family_nth: "find_family qs i = Some k \<Longrightarrow> i \<le> k \<and> k < i + length qs \<and> qf_graphics (qs ! (k - i)) \<and> qf_compute (qs ! (k - i)) \<and>
    (\<forall>j < k - i. \<not> (qf_graphics (qs ! j) \<and> qf_compute (qs ! j)))"
proof (induction qs i rule: find_family.induct)
  case (2 q qs i)
  show ?case
  proof (cases "qf_graphics q \<and> qf_compute q")
    case False
    with 2 have k: "i + 1 \<le> k" "k < i + 1 + length qs" "qf_graphics (qs ! (k - (i + 1)))" "qf_compute (qs ! (k - (i + 1)))"
      "\<forall>j < k - (i + 1). \<not> (qf_graphics (qs ! j) \<and> qf_compute (qs ! j))" by auto
    have n: "k - i = Suc (k - (i + 1))" using k(1) by simp
    show ?thesis unfolding n using k False by (auto simp: less_Suc_eq_0_disj)
  qed (use 2 in auto)
qed simp


definition phone :: driver where
  "phone = \<lparr>dr_instance = True, dr_gpus = 1, dr_identity = \<lparr>gi_vendor = 0x5143, gi_device = 0x43050A01, gi_uuid = replicate 16 7\<rparr>,
     dr_families = [\<lparr>qf_graphics = False, qf_compute = True\<rparr>, \<lparr>qf_graphics = True, qf_compute = True\<rparr>],
     dr_available = [''VK_KHR_swapchain'', ''VK_EXT_custom_border_color'', ''VK_GOOGLE_display_timing''], dr_swappy = [''VK_GOOGLE_display_timing''],
     dr_supported = \<lparr>df_geometryShader = True, df_logicOp = False, df_samplerAnisotropy = True, df_fragmentStoresAndAtomics = True, df_shaderClipDistance = True\<rparr>,
     dr_device = True, dr_allocator = True, dr_cache = (\<lambda>_. True), dr_pool = True\<rparr>"



section \<open>What is asked of the device is there\<close>

lemma addExt_fst: "set (fst (addExt av n es)) = set es \<union> (if n \<in> set av then {n} else {}) \<and> (distinct es \<longrightarrow> distinct (fst (addExt av n es))) \<and>
    (snd (addExt av n es) = (n \<in> set (fst (addExt av n es))))"
  by (auto simp: addExt_def)

text \<open>
  An extension is asked for once, and only when the device has it, the frame pacing library wants it or
  it is the swapchain's; border colours can be chosen exactly when their extension is asked for.
\<close>

theorem extensions_there:
  assumes "distinct swappy"
  shows "distinct (fst (device_extensions av swappy)) \<and>
    set (fst (device_extensions av swappy)) \<subseteq> set av \<union> set swappy \<union> {swapchain_ext} \<and> swapchain_ext \<in> set (fst (device_extensions av swappy)) \<and>
    set swappy \<subseteq> set (fst (device_extensions av swappy)) \<and>
    snd (device_extensions av swappy) = (border_ext \<in> set (fst (device_extensions av swappy)))"
proof -
  let ?e0 = "swapchain_ext # filter (\<lambda>n. n \<noteq> swapchain_ext) swappy"
  have e0: "distinct ?e0" "set ?e0 = set swappy \<union> {swapchain_ext}" using assms by auto
  show ?thesis unfolding device_extensions_def Let_def using e0 by (auto simp: addExt_fst split: if_splits)
qed

lemma extensions_there_witness:
  "set (fst (device_extensions [''VK_EXT_tooling_info''] [''VK_GOOGLE_display_timing''])) \<subseteq>
    {''VK_EXT_tooling_info''} \<union> {''VK_GOOGLE_display_timing''} \<union> {swapchain_ext}"
  using extensions_there [of "[''VK_GOOGLE_display_timing'']" "[''VK_EXT_tooling_info'']"] by simp

text \<open>No feature is asked for that the device does not support.\<close>

lemma features_supported: "device_features_asked s = s"
  by (simp add: device_features_asked_def)

section \<open>The pipeline cache comes back on the same processor\<close>

lemma cache_usable_unique: "cache_usable g blob \<Longrightarrow> cache_usable g' blob \<Longrightarrow> g' = g"
  by (cases g; cases g') (simp add: cache_usable_def)

text \<open>
  \<open>data\<close> is what the driver of processor \<open>g\<close> gives, with its own header.  When the file was written and can
  be read, the next start on the same processor and driver makes its cache from it, and on any other one starts anew.
\<close>

theorem pipeline_cache_comes_back:
  assumes "vc_pipelineCache c \<noteq> None" "vc_cachePath c = cache_path dir" "ca_size a = Some n" "n \<noteq> 0" "ca_data a = Some data"
    "cache_usable g data" "WriteFileAtomic (ca_write a) (cache_path dir) data disk = Some (True, tr)"
    "ra_open r" "ra_tell r" "ra_read r = None" "\<forall>blob. dr_cache d blob"
  shows "SavePipelineCache a c disk = Some (hd tr) \<and>
    load_cache d r (hd tr) (cache_path dir) (dr_identity d) = Some (if dr_identity d = g then data else [])"
proof
  show "SavePipelineCache a c disk = Some (hd tr)" using assms by (auto simp: SavePipelineCache_def)
  have "ReadWholeFile r (cache_path dir) (hd tr) [] = (True, data)"
    using WriteFileAtomic_result(3) [OF assms(7)] assms(8-10) by (auto simp: ReadWholeFile_def)
  moreover have "cache_usable (dr_identity d) data = (dr_identity d = g)" using assms(6) cache_usable_unique by blast
  ultimately show "load_cache d r (hd tr) (cache_path dir) (dr_identity d) = Some (if dr_identity d = g then data else [])"
    using assms(11) by (simp add: load_cache_def)
qed

definition phone_cache :: bytes where
  "phone_cache = [32, 0, 0, 0, 1, 0, 0, 0, 0x43, 0x51, 0, 0, 1, 0x0A, 5, 0x43] @ replicate 16 7 @ [9]"

lemma phone_cache_usable: "cache_usable (dr_identity phone) phone_cache"
  by code_simp

lemma pipeline_cache_comes_back_witness:
  "\<exists>tr. WriteFileAtomic (slow_kernel\<lparr>wa_writes := [Wrote 40]\<rparr>) (cache_path ''/c'') phone_cache small_disk = Some (True, tr) \<and>
    load_cache phone \<lparr>ra_open = True, ra_tell = True, ra_read = None\<rparr> (hd tr) (cache_path ''/c'') (dr_identity phone) = Some phone_cache"
proof -
  let ?k = "slow_kernel\<lparr>wa_writes := [Wrote 40]\<rparr>" and ?r = "\<lparr>ra_open = True, ra_tell = True, ra_read = None\<rparr>"
  have "map_option fst (WriteFileAtomic ?k (cache_path ''/c'') phone_cache small_disk) = Some True" by code_simp
  then obtain tr where w: "WriteFileAtomic ?k (cache_path ''/c'') phone_cache small_disk = Some (True, tr)" by auto
  have d: "\<forall>blob. dr_cache phone blob" by (simp add: phone_def)
  let ?a = "\<lparr>ca_size = Some 33, ca_data = Some phone_cache, ca_write = ?k\<rparr>"
  have "load_cache phone ?r (hd tr) (cache_path ''/c'') (dr_identity phone) = Some (if dr_identity phone = dr_identity phone then phone_cache else [])"
    by (rule pipeline_cache_comes_back [of "vk_context_new\<lparr>vc_pipelineCache := Some [], vc_cachePath := cache_path ''/c''\<rparr>" _ ?a 33 phone_cache _ small_disk,
          THEN conjunct2]) (use w d phone_cache_usable in simp_all)
  with w show ?thesis by auto
qed

section \<open>Nothing is leaked\<close>

text \<open>A command buffer that was made is freed once, after its work is done or was refused.\<close>

lemma once_freed: "fst (RunOnce alloc submit wait) = [] \<and> \<not> alloc \<or> (\<exists>es. fst (RunOnce alloc submit wait) = es @ [Freed] \<and> Freed \<notin> set es \<and>
    (submit \<longrightarrow> Waited \<in> set es))"
  by (cases alloc; cases submit) (auto simp: RunOnce_def BeginOnce_def EndOnce_def)

lemma once_result: "snd (RunOnce alloc submit wait) \<longleftrightarrow> alloc \<and> submit \<and> wait"
  by (simp add: RunOnce_def BeginOnce_def EndOnce_def)

text \<open>An image holds exactly the objects that exist of those made for it, and after the end none.\<close>

lemma image_objects:
  assumes "live = others \<union> ({im_image r, im_view r} - {0})" "others \<inter> {0, im_image r, im_view r} = {}"
  shows "snd (image_Destroy r live) = others \<and>
    image_Create (Some i) v sz fmt r live =
      (\<lparr>im_image = i, im_view = (case v of None \<Rightarrow> 0 | Some w \<Rightarrow> w), im_size = sz, im_format = fmt\<rparr>, others \<union> {i} \<union> set_option v, True)"
proof
  show d: "snd (image_Destroy r live) = others" using assms by (auto simp: image_Destroy_def)
  then show "image_Create (Some i) v sz fmt r live =
      (\<lparr>im_image = i, im_view = (case v of None \<Rightarrow> 0 | Some w \<Rightarrow> w), im_size = sz, im_format = fmt\<rparr>, others \<union> {i} \<union> set_option v, True)"
    by (cases r) (auto simp: image_Create_def image_Destroy_def)
qed

lemma buffer_objects:
  assumes "live = others \<union> ({bu_buffer r} - {0})" "others \<inter> {0, bu_buffer r} = {}"
  shows "snd (buffer_Destroy r live) = others \<and>
    buffer_Create (Some b) bytes host r live = (\<lparr>bu_buffer = b, bu_mapped = host, bu_size = bytes\<rparr>, others \<union> {b}, True)"
proof
  show d: "snd (buffer_Destroy r live) = others" using assms by (auto simp: buffer_Destroy_def)
  then show "buffer_Create (Some b) bytes host r live = (\<lparr>bu_buffer = b, bu_mapped = host, bu_size = bytes\<rparr>, others \<union> {b}, True)"
    by (cases r) (auto simp: buffer_Create_def buffer_Destroy_def)
qed

end
