(* ===== verification/PlatformFiles.thy ===== *)
theory PlatformFiles
  imports Files
begin

unbundle bit_operations_syntax

text \<open>
  The files melonDS opens, \<^verbatim>\<open>PlatformAndroid.cpp\<close>: modes, paths, and reading and writing through the
  streams of the C library, over the file system of \<open>Files\<close>.

  Of the C library there is what the functions use: \<^verbatim>\<open>fopen\<close> with its modes, and a stream with its
  position and end-of-file mark.  Directories are not opened; \<open>allowed\<close> says whether the kernel lets the
  file be opened.
\<close>

section \<open>Modes\<close>

type_synonym file_mode = u32

definition fm_None :: file_mode where "fm_None = 0"
definition fm_Read :: file_mode where "fm_Read = 1"
definition fm_Write :: file_mode where "fm_Write = 2"
definition fm_Preserve :: file_mode where "fm_Preserve = 4"
definition fm_NoCreate :: file_mode where "fm_NoCreate = 8"
definition fm_Text :: file_mode where "fm_Text = 16"
definition fm_Append :: file_mode where "fm_Append = 32"
definition fm_ReadWrite :: file_mode where "fm_ReadWrite = fm_Read OR fm_Write"
definition fm_ReadWriteExisting :: file_mode where "fm_ReadWriteExisting = fm_Read OR fm_Write OR fm_Preserve OR fm_NoCreate"

definition has :: "file_mode \<Rightarrow> file_mode \<Rightarrow> bool" where
  "has m f \<longleftrightarrow> m AND f \<noteq> 0"

definition ModeString :: "file_mode \<Rightarrow> bool \<Rightarrow> string" where
  "ModeString mode exists =
     (let m = (if has mode fm_Append then if has mode fm_Read then ''a+'' else ''a''
               else if \<not> has mode fm_Write then ''r''
               else if has mode (fm_NoCreate OR fm_Preserve) then if exists then ''r+'' else if has mode fm_Read then ''w+'' else ''w''
               else if has mode fm_Read then ''w+'' else ''w'')
      in if has mode fm_Text then m else m @ ''b'')"

definition GetLocalFilePath :: "string \<Rightarrow> string \<Rightarrow> string" where
  "GetLocalFilePath filesDir name = (if name \<noteq> [] \<and> hd name = CHR ''/'' then name else filesDir @ ''/'' @ name)"

section \<open>Streams\<close>

record c_stream =
  st_path :: string
  st_pos :: nat
  st_read :: bool
  st_write :: bool
  st_append :: bool
  st_eof :: bool

text \<open>\<^verbatim>\<open>fopen\<close>: the first letter of the mode says what becomes of the file, a plus that the stream reads and writes.\<close>

definition c_fopen :: "bool \<Rightarrow> string \<Rightarrow> string \<Rightarrow> fs \<Rightarrow> c_stream option \<times> fs" where
  "c_fopen allowed path mode d =
     (let plus = CHR ''+'' \<in> set mode in
      if \<not> allowed \<or> path \<in> set (fs_dirs d) then (None, d)
      else case mode of
             [] \<Rightarrow> (None, d)
           | c # _ \<Rightarrow>
               if c = CHR ''r''
               then if fs_lookup d path = None then (None, d)
                    else (Some \<lparr>st_path = path, st_pos = 0, st_read = True, st_write = plus, st_append = False, st_eof = False\<rparr>, d)
               else if c = CHR ''w''
               then (Some \<lparr>st_path = path, st_pos = 0, st_read = plus, st_write = True, st_append = False, st_eof = False\<rparr>,
                     fs_put path \<lparr>f_data = [], f_synced = False\<rparr> d)
               else if c = CHR ''a''
               then (Some \<lparr>st_path = path, st_pos = 0, st_read = plus, st_write = True, st_append = True, st_eof = False\<rparr>,
                     if fs_lookup d path = None then fs_put path \<lparr>f_data = [], f_synced = False\<rparr> d else d)
               else (None, d))"

definition OpenFile :: "bool \<Rightarrow> string \<Rightarrow> file_mode \<Rightarrow> fs \<Rightarrow> c_stream option \<times> fs" where
  "OpenFile allowed path mode d =
     (if mode AND (fm_ReadWrite OR fm_Append) = fm_None then (None, d)
      else let exists = FileExistsAt path d in
           if has mode fm_NoCreate \<and> \<not> exists then (None, d)
           else c_fopen allowed path (ModeString mode exists) d)"

definition OpenLocalFile :: "string \<Rightarrow> bool \<Rightarrow> string \<Rightarrow> file_mode \<Rightarrow> fs \<Rightarrow> c_stream option \<times> fs" where
  "OpenLocalFile filesDir allowed path mode d = OpenFile allowed (GetLocalFilePath filesDir path) mode d"

definition FileExists :: "string \<Rightarrow> fs \<Rightarrow> bool" where
  "FileExists name d = FileExistsAt name d"

definition LocalFileExists :: "string \<Rightarrow> string \<Rightarrow> fs \<Rightarrow> bool" where
  "LocalFileExists filesDir name d = FileExists (GetLocalFilePath filesDir name) d"

definition CheckFileWritable :: "bool \<Rightarrow> string \<Rightarrow> fs \<Rightarrow> bool \<times> fs" where
  "CheckFileWritable allowed path d = (case OpenFile allowed path fm_Append d of (s, d') \<Rightarrow> (s \<noteq> None, d'))"

definition CheckLocalFileWritable :: "string \<Rightarrow> bool \<Rightarrow> string \<Rightarrow> fs \<Rightarrow> bool \<times> fs" where
  "CheckLocalFileWritable filesDir allowed path d = CheckFileWritable allowed (GetLocalFilePath filesDir path) d"

definition stream_data :: "c_stream \<Rightarrow> fs \<Rightarrow> bytes" where
  "stream_data s d = (case fs_lookup d (st_path s) of None \<Rightarrow> [] | Some f \<Rightarrow> f_data f)"

definition IsEndOfFile :: "c_stream \<Rightarrow> bool" where
  "IsEndOfFile s = st_eof s"

definition FilePosition :: "c_stream \<Rightarrow> nat" where
  "FilePosition s = st_pos s"

datatype seek_origin = Start | Current | End

definition FileSeek :: "int \<Rightarrow> seek_origin \<Rightarrow> c_stream \<Rightarrow> fs \<Rightarrow> c_stream \<times> bool" where
  "FileSeek offset origin s d =
     (let base = (case origin of Start \<Rightarrow> 0 | Current \<Rightarrow> int (st_pos s) | End \<Rightarrow> int (length (stream_data s d))); p = base + offset
      in if p < 0 then (s, False) else (s\<lparr>st_pos := nat p, st_eof := False\<rparr>, True))"

definition FileRewind :: "c_stream \<Rightarrow> c_stream" where
  "FileRewind s = s\<lparr>st_pos := 0, st_eof := False\<rparr>"

text \<open>\<^verbatim>\<open>fread\<close>: the bytes read and how many whole items they are.\<close>

definition FileRead :: "nat \<Rightarrow> nat \<Rightarrow> c_stream \<Rightarrow> fs \<Rightarrow> c_stream \<times> bytes \<times> nat" where
  "FileRead sz count s d =
     (if \<not> st_read s \<or> sz * count = 0 then (s, [], 0)
      else let got = segment (stream_data s d) (st_pos s) (sz * count)
           in (s\<lparr>st_pos := st_pos s + length got, st_eof := (st_eof s \<or> length got < sz * count)\<rparr>, got, length got div sz))"

text \<open>\<^verbatim>\<open>fgets\<close> with a buffer of \<open>count\<close> characters: None when nothing was read.\<close>

definition line_of :: "nat \<Rightarrow> bytes \<Rightarrow> bytes" where
  "line_of n bs = (let l = takeWhile (\<lambda>b. b \<noteq> 10) bs in take n (if length l < length bs then l @ [10] else l))"

definition FileReadLine :: "nat \<Rightarrow> c_stream \<Rightarrow> fs \<Rightarrow> c_stream \<times> bytes option" where
  "FileReadLine count s d =
     (let rest = drop (st_pos s) (stream_data s d); l = line_of (count - 1) rest in
      if \<not> st_read s \<or> count < 2 then (s, None)
      else (s\<lparr>st_pos := st_pos s + length l, st_eof := (st_eof s \<or> (length l < count - 1 \<and> (l = [] \<or> last l \<noteq> 10)))\<rparr>, if l = [] then None else Some l))"

text \<open>Bytes put into a file at a position; a gap is filled with zeros.\<close>

definition put_bytes :: "nat \<Rightarrow> bytes \<Rightarrow> bytes \<Rightarrow> bytes" where
  "put_bytes pos new old = take pos old @ replicate (pos - length old) 0 @ new @ drop (pos + length new) old"

definition FileWrite :: "nat \<Rightarrow> nat \<Rightarrow> bytes \<Rightarrow> c_stream \<Rightarrow> fs \<Rightarrow> c_stream \<times> fs \<times> nat" where
  "FileWrite sz count data s d =
     (if \<not> st_write s \<or> sz * count = 0 then (s, d, 0)
      else let new = take (sz * count) data; pos = (if st_append s then length (stream_data s d) else st_pos s)
           in (s\<lparr>st_pos := pos + length new\<rparr>, fs_put (st_path s) \<lparr>f_data = put_bytes pos new (stream_data s d), f_synced = False\<rparr> d, count))"

text \<open>\<open>n\<close> is what \<^verbatim>\<open>vfprintf\<close> returns.\<close>

definition FileWriteFormatted :: "int \<Rightarrow> nat" where
  "FileWriteFormatted n = (if n < 0 then 0 else nat n)"

definition FileLength :: "c_stream \<Rightarrow> fs \<Rightarrow> c_stream \<times> nat" where
  "FileLength s d =
     (let pos = FilePosition s; s1 = fst (FileSeek 0 End s d); len = FilePosition s1; s2 = fst (FileSeek (int pos) Start s1 d)
      in (s2, len))"

section \<open>Opening\<close>

lemma has_or [simp]: "has m (a OR b) \<longleftrightarrow> has m a \<or> has m b"
  by (simp add: has_def bit.conj_disj_distrib or_eq_0_iff)

lemma neither_mode: "mode AND (fm_ReadWrite OR fm_Append) = fm_None \<longleftrightarrow> \<not> has mode fm_Read \<and> \<not> has mode fm_Write \<and> \<not> has mode fm_Append"
proof -
  have "mode AND (fm_ReadWrite OR fm_Append) = fm_None \<longleftrightarrow> \<not> has mode ((fm_Read OR fm_Write) OR fm_Append)"
    by (simp only: has_def fm_None_def fm_ReadWrite_def not_not)
  then show ?thesis by simp
qed

text \<open>How a mode without appending opens a file.\<close>

lemma OpenFile_mode:
  assumes "OpenFile allowed path mode d = (Some s, d')" "\<not> has mode fm_Append"
  obtains (reads) "\<not> has mode fm_Write" "fs_lookup d path \<noteq> None" "d' = d"
      "s = \<lparr>st_path = path, st_pos = 0, st_read = True, st_write = False, st_append = False, st_eof = False\<rparr>"
  | (keeps) "has mode fm_Write" "has mode fm_NoCreate \<or> has mode fm_Preserve" "fs_lookup d path \<noteq> None" "d' = d"
      "s = \<lparr>st_path = path, st_pos = 0, st_read = True, st_write = True, st_append = False, st_eof = False\<rparr>"
  | (truncates) "has mode fm_Write" "\<not> has mode fm_NoCreate" "has mode fm_Preserve \<longrightarrow> fs_lookup d path = None"
      "d' = fs_put path \<lparr>f_data = [], f_synced = False\<rparr> d"
      "s = \<lparr>st_path = path, st_pos = 0, st_read = has mode fm_Read, st_write = True, st_append = False, st_eof = False\<rparr>"
proof -
  have o: "has mode fm_NoCreate \<longrightarrow> FileExistsAt path d" "c_fopen allowed path (ModeString mode (FileExistsAt path d)) d = (Some s, d')"
    using assms(1) by (auto simp: OpenFile_def Let_def split: if_splits)
  have dirs: "path \<notin> set (fs_dirs d)" using o(2) by (auto simp: c_fopen_def Let_def split: if_splits)
  then have ex: "FileExistsAt path d \<longleftrightarrow> fs_lookup d path \<noteq> None" by (simp add: FileExistsAt_def)
  consider (r) "\<not> has mode fm_Write" | (k) "has mode fm_Write" "has mode fm_NoCreate \<or> has mode fm_Preserve" "FileExistsAt path d"
    | (w) "has mode fm_Write" "\<not> (has mode fm_NoCreate \<or> has mode fm_Preserve) \<or> \<not> FileExistsAt path d" by blast
  then show thesis
  proof cases
    case r
    then show thesis using o(2) assms(2) by (intro reads) (auto simp: c_fopen_def ModeString_def Let_def split: if_splits)
  next
    case k
    then show thesis using o(2) assms(2) ex by (intro keeps) (auto simp: c_fopen_def ModeString_def Let_def split: if_splits)
  next
    case w
    have nc: "\<not> has mode fm_NoCreate" "has mode fm_Preserve \<longrightarrow> fs_lookup d path = None" using w o(1) ex by auto
    have m: "ModeString mode (FileExistsAt path d) = (if has mode fm_Read then ''w+'' else ''w'') @ (if has mode fm_Text then '''' else ''b'')"
      using w assms(2) by (auto simp: ModeString_def)
    show thesis using o(2) unfolding m by (intro truncates [OF w(1) nc]) (auto simp: c_fopen_def Let_def split: if_splits)
  qed
qed

text \<open>
  C37: Opening follows the modes' contract: without reading, writing or appending nothing is opened and
  nothing changes; a file is never created when \<open>NoCreate\<close> is set with \<open>Write\<close>; without \<open>Write\<close> it is not changed;
  with \<open>Preserve\<close> its contents stay, and without \<open>Preserve\<close> and \<open>NoCreate\<close> they go; the stream reads
  and writes as asked; other files are left alone.
\<close>

lemma c_fopen_others: "c_fopen allowed path m d = (h, d') \<Longrightarrow> (\<forall>q. q \<noteq> path \<longrightarrow> fs_lookup d' q = fs_lookup d q) \<and> (h = None \<longrightarrow> d' = d)"
  by (auto simp: c_fopen_def Let_def split: if_splits list.splits)



text \<open>
  Against the modes' description, \<open>NoCreate\<close> without \<open>Preserve\<close> also keeps an existing file's contents, and it
  has an effect without \<open>Write\<close>: a file to append to is not created.
\<close>

theorem nocreate_keeps_contents:
  assumes "fs_lookup d path = Some f" "path \<notin> set (fs_dirs d)"
  shows "snd (OpenFile True path (fm_Write OR fm_NoCreate) d) = d \<and> fst (OpenFile True path (fm_Write OR fm_NoCreate) d) \<noteq> None"
  using assms by (simp add: OpenFile_def c_fopen_def ModeString_def FileExistsAt_def has_def Let_def fm_Write_def fm_NoCreate_def fm_Append_def
      fm_Preserve_def fm_Read_def fm_Text_def fm_ReadWrite_def fm_None_def)

theorem nocreate_without_write:
  assumes "fs_lookup d path = None" "path \<notin> set (fs_dirs d)"
  shows "OpenFile True path (fm_Append OR fm_NoCreate) d = (None, d)"
  using assms by (simp add: OpenFile_def FileExistsAt_def has_def Let_def fm_Write_def fm_NoCreate_def fm_Append_def fm_Read_def fm_ReadWrite_def fm_None_def)

section \<open>Reading and writing\<close>

lemma length_put_bytes: "length (put_bytes pos new old) = max (length old) (pos + length new)"
  by (simp add: put_bytes_def)

lemma segment_put_bytes: "segment (put_bytes pos new old) pos (length new) = new"
proof -
  have "length (take pos old @ replicate (pos - length old) 0) = pos" by simp
  then show ?thesis using segment_mid [of "take pos old @ replicate (pos - length old) 0" pos new "length new"] by (simp add: put_bytes_def)
qed

lemma nth_put_bytes_other: "i < length old \<Longrightarrow> i < pos \<or> pos + length new \<le> i \<Longrightarrow> put_bytes pos new old ! i = old ! i"
  by (auto simp: put_bytes_def nth_append)

text \<open>
  What is written at a position is read back from there, the rest of the file stays, and the length is
  the greater of the old one and the end of what was written.
\<close>

theorem file_write_read:
  assumes "st_write s" "st_read s" "\<not> st_append s" "0 < length data" "FileWrite 1 (length data) data s d = (s1, d1, n)"
    "FileSeek (int (st_pos s)) Start s1 d1 = (s2, ok)"
  shows "n = length data \<and> ok \<and> FileRead 1 (length data) s2 d1 = (s2\<lparr>st_pos := st_pos s + length data\<rparr>, data, length data) \<and>
    (\<forall>i < length (stream_data s d). i < st_pos s \<or> st_pos s + length data \<le> i \<longrightarrow> stream_data s d1 ! i = stream_data s d ! i) \<and>
    FileLength s1 d1 = (s1\<lparr>st_eof := False\<rparr>, max (length (stream_data s d)) (st_pos s + length data))"
proof -
  have s1: "s1 = s\<lparr>st_pos := st_pos s + length data\<rparr>" "n = length data"
    "d1 = fs_put (st_path s) \<lparr>f_data = put_bytes (st_pos s) data (stream_data s d), f_synced = False\<rparr> d"
    using assms(1,3,4,5) by (auto simp: FileWrite_def Let_def)
  have d1: "stream_data t d1 = put_bytes (st_pos s) data (stream_data s d)" if "st_path t = st_path s" for t
    using that by (simp add: stream_data_def s1(3))
  have s2: "s2 = s\<lparr>st_pos := st_pos s, st_eof := False\<rparr>" ok using assms(6) by (auto simp: FileSeek_def s1(1))
  have "FileRead 1 (length data) s2 d1 = (s2\<lparr>st_pos := st_pos s + length data\<rparr>, data, length data)"
    using assms(2,4) d1 [of s2] segment_put_bytes by (simp add: FileRead_def s2(1) Let_def)
  moreover have "FileLength s1 d1 = (s1\<lparr>st_eof := False\<rparr>, max (length (stream_data s d)) (st_pos s + length data))"
    using d1 [of s1] d1 [of "s1\<lparr>st_pos := x, st_eof := False\<rparr>" for x]
    by (simp add: FileLength_def FileSeek_def FilePosition_def Let_def s1(1) length_put_bytes)
  moreover have "stream_data s d1 ! i = stream_data s d ! i" if "i < length (stream_data s d)" "i < st_pos s \<or> st_pos s + length data \<le> i" for i
    using that nth_put_bytes_other d1 by simp
  ultimately show ?thesis using s1(2) s2(2) by blast
qed

lemma file_write_read_witness:
  "\<exists>s d n. FileWrite 1 2 [7, 8] \<lparr>st_path = ''/a'', st_pos = 3, st_read = True, st_write = True, st_append = False, st_eof = True\<rparr> small_disk = (s, d, n) \<and>
    FileLength s d = (s\<lparr>st_eof := False\<rparr>, 5)"
proof -
  let ?s = "\<lparr>st_path = ''/a'', st_pos = 3, st_read = True, st_write = True, st_append = False, st_eof = True\<rparr>"
  obtain s d n where w: "FileWrite 1 2 [7, 8] ?s small_disk = (s, d, n)" by (metis surj_pair)
  obtain s2 ok where k: "FileSeek 3 Start s d = (s2, ok)" by force
  have "stream_data ?s small_disk = [9]" by code_simp
  moreover have "FileWrite 1 (length [7, 8 :: 8 word]) [7, 8] ?s small_disk = (s, d, n)" "FileSeek (int (st_pos ?s)) Start s d = (s2, ok)"
    using w k by (simp_all add: numeral_2_eq_2)
  ultimately have "FileLength s d = (s\<lparr>st_eof := False\<rparr>, 5)" using file_write_read [of ?s "[7, 8]" small_disk s d n s2 ok] by simp
  with w show ?thesis by blast
qed

text \<open>The length is the file's, and asking for it leaves the position but ends the end-of-file mark.\<close>

lemma file_length: "FileLength s d = (s\<lparr>st_eof := False\<rparr>, length (stream_data s d))"
  by (cases s) (simp add: FileLength_def FileSeek_def FilePosition_def Let_def)

text \<open>A file is writable when it can be opened; checking creates it.\<close>

lemma writable_check: "CheckFileWritable allowed path d = (w, d') \<Longrightarrow> w \<Longrightarrow> fs_lookup d' path \<noteq> None \<and>
    (fs_lookup d path \<noteq> None \<longrightarrow> d' = d)"
  by (auto simp: CheckFileWritable_def OpenFile_def c_fopen_def ModeString_def has_def Let_def fm_Append_def fm_Read_def fm_NoCreate_def fm_Write_def
      fm_ReadWrite_def fm_None_def fm_Text_def split: if_splits prod.splits)

text \<open>A line ends at the first line feed, the end of the file or of the buffer.\<close>

lemma line_of_prefix: "\<exists>rest. bs = line_of n bs @ rest"
proof -
  let ?l = "takeWhile (\<lambda>b. b \<noteq> 10) bs" and ?r = "dropWhile (\<lambda>b. b \<noteq> 10) bs"
  have split: "bs = ?l @ ?r" by simp
  have "\<exists>x r. line_of n bs = take n x \<and> bs = x @ r"
  proof (cases ?r)
    case Nil
    then have l: "?l = bs" using split by (metis append_Nil2)
    show ?thesis unfolding line_of_def Let_def l by (intro exI [of _ bs] exI [of _ "[]"]) simp
  next
    case (Cons b r)
    then have "b = 10" using hd_dropWhile [of "\<lambda>b. b \<noteq> 10" bs] by simp
    then have bs: "bs = (?l @ [10]) @ r" using split Cons by simp
    then have "length ?l < length bs" by (metis append.assoc append_Cons length_append length_Cons less_add_Suc1 add_Suc_right)
    then show ?thesis using bs by (intro exI [of _ "?l @ [10]"] exI [of _ r]) (simp add: line_of_def Let_def)
  qed
  then obtain x r where x: "line_of n bs = take n x" "bs = x @ r" by blast
  have "bs = take n x @ drop n x @ r" using x(2) by simp
  then show ?thesis unfolding x(1) by blast
qed

end
