(* ===== verification/Platform.thy ===== *)
theory Platform
  imports PlatformFiles Topology LogRing
begin

text \<open>
  The rest of what melonDS asks of the host, \<^verbatim>\<open>PlatformAndroid.cpp\<close>: calls handed to the console's core
  or to the session, log lines, threads, semaphores and mutexes, the clock, and the devices that are not
  there: other consoles, networks, cameras and the AAC decoder.
\<close>

section \<open>Calls handed on\<close>

text \<open>The core that created the console, by number, or the session when there is none.\<close>

datatype host = CoreOf nat | TheSession

definition Host :: "nat option \<Rightarrow> host" where
  "Host userdata = (case userdata of Some c \<Rightarrow> CoreOf c | None \<Rightarrow> TheSession)"

datatype platform_call =
  ToCoreStopped int | ToMicStart | ToMicStop | ToReadMic int | ToGuitarKey int | ToRumble u32 | ToMotion int
  | ToNdsSave bytes u32 u32 u32 | ToGbaSave bytes u32 u32 u32 | ToFirmware | ToDateTime int int int int int int

definition SignalStop :: "int \<Rightarrow> nat option \<Rightarrow> host \<times> platform_call" where
  "SignalStop reason u = (Host u, ToCoreStopped reason)"

definition WriteNDSSave :: "bytes \<Rightarrow> u32 \<Rightarrow> u32 \<Rightarrow> u32 \<Rightarrow> nat option \<Rightarrow> (host \<times> platform_call) option" where
  "WriteNDSSave savedata savelen off len u = map_option (\<lambda>c. (CoreOf c, ToNdsSave savedata savelen off len)) u"

definition WriteGBASave :: "bytes \<Rightarrow> u32 \<Rightarrow> u32 \<Rightarrow> u32 \<Rightarrow> nat option \<Rightarrow> (host \<times> platform_call) option" where
  "WriteGBASave savedata savelen off len u = map_option (\<lambda>c. (CoreOf c, ToGbaSave savedata savelen off len)) u"

definition WriteFirmware :: "nat option \<Rightarrow> (host \<times> platform_call) option" where
  "WriteFirmware u = map_option (\<lambda>c. (CoreOf c, ToFirmware)) u"

definition WriteDateTime :: "int \<Rightarrow> int \<Rightarrow> int \<Rightarrow> int \<Rightarrow> int \<Rightarrow> int \<Rightarrow> nat option \<Rightarrow> (host \<times> platform_call) option" where
  "WriteDateTime y mo d h mi s u = map_option (\<lambda>c. (CoreOf c, ToDateTime y mo d h mi s)) u"

definition Mic_Start :: "nat option \<Rightarrow> host \<times> platform_call" where
  "Mic_Start u = (Host u, ToMicStart)"

definition Mic_Stop :: "nat option \<Rightarrow> host \<times> platform_call" where
  "Mic_Stop u = (Host u, ToMicStop)"

definition Mic_ReadInput :: "int \<Rightarrow> nat option \<Rightarrow> host \<times> platform_call" where
  "Mic_ReadInput maxlength u = (Host u, ToReadMic maxlength)"

definition Addon_KeyDown :: "int \<Rightarrow> nat option \<Rightarrow> host \<times> platform_call" where
  "Addon_KeyDown key u = (Host u, ToGuitarKey key)"

definition Addon_RumbleStart :: "u32 \<Rightarrow> nat option \<Rightarrow> host \<times> platform_call" where
  "Addon_RumbleStart len u = (Host u, ToRumble len)"

definition Addon_RumbleStop :: "nat option \<Rightarrow> host \<times> platform_call" where
  "Addon_RumbleStop u = (Host u, ToRumble 0)"

definition Addon_MotionQuery :: "int \<Rightarrow> nat option \<Rightarrow> host \<times> platform_call" where
  "Addon_MotionQuery type u = (Host u, ToMotion type)"

section \<open>Log lines\<close>

text \<open>melonDS's levels are 0 to 3; any other is taken for information.\<close>

definition platform_level :: "nat \<Rightarrow> LogLevel" where
  "platform_level n = (if n = 0 then Debug else if n = 1 then Info else if n = 2 then Warn else if n = 3 then Error else Info)"

text \<open>\<open>fmt\<close> is the formatted text, None a null pointer.\<close>

definition Log :: "nat \<Rightarrow> string option \<Rightarrow> log_buffer \<Rightarrow> log_buffer" where
  "Log level fmt g = (case fmt of None \<Rightarrow> g | Some t \<Rightarrow> LogRaw (platform_level level) t g)"

section \<open>Threads and mutexes\<close>

record pthread =
  pt_joinable :: bool
  pt_done :: bool

text \<open>The thread, and whether it was put on the middle cores before it runs its function.\<close>

definition Thread_Create :: "(nat list \<Rightarrow> bool) \<Rightarrow> CpuTopology \<Rightarrow> nat \<Rightarrow> pthread \<times> bool" where
  "Thread_Create sched topo ncpu = (\<lparr>pt_joinable = True, pt_done = False\<rparr>, PinCurrentThread sched topo ncpu Mid)"

text \<open>None: the function has not ended, and the caller waits.\<close>

definition Thread_Wait :: "pthread \<Rightarrow> pthread option" where
  "Thread_Wait t = (if pt_joinable t then if pt_done t then Some (t\<lparr>pt_joinable := False\<rparr>) else None else Some t)"

definition Thread_Free :: "pthread \<Rightarrow> pthread" where
  "Thread_Free t = (if pt_joinable t then t\<lparr>pt_joinable := False\<rparr> else t)"

text \<open>A mutex is the thread that holds it; locking one that is held waits.\<close>

definition Mutex_Lock :: "nat \<Rightarrow> nat option \<Rightarrow> nat option option" where
  "Mutex_Lock t m = (if m = None then Some (Some t) else None)"

definition Mutex_Unlock :: "nat option \<Rightarrow> nat option" where
  "Mutex_Unlock m = None"

definition Mutex_TryLock :: "nat \<Rightarrow> nat option \<Rightarrow> nat option \<times> bool" where
  "Mutex_TryLock t m = (if m = None then (Some t, True) else (m, False))"

lemma mutex_one_holder: "Mutex_Lock t m = Some m' \<Longrightarrow> m = None \<and> m' = Some t" "Mutex_TryLock t m = (m', True) \<Longrightarrow> m = None \<and> m' = Some t"
  "Mutex_TryLock t m = (m', False) \<Longrightarrow> m' = m \<and> m \<noteq> None"
  by (auto simp: Mutex_Lock_def Mutex_TryLock_def split: if_splits)

section \<open>Semaphores\<close>

text \<open>
  The count, the threads asleep in a wait, and those that were woken and will look at the count again.
\<close>

record semaphore =
  se_count :: int
  se_asleep :: "nat list"
  se_woken :: "nat list"

definition Semaphore_Create :: semaphore where
  "Semaphore_Create = \<lparr>se_count = 0, se_asleep = [], se_woken = []\<rparr>"

definition Semaphore_Reset :: "semaphore \<Rightarrow> semaphore" where
  "Semaphore_Reset s = s\<lparr>se_count := 0\<rparr>"

text \<open>A thread starts to wait: it takes one, or sleeps.  The second result says whether it has one.\<close>

definition Semaphore_Wait :: "nat \<Rightarrow> semaphore \<Rightarrow> semaphore \<times> bool" where
  "Semaphore_Wait t s = (if se_count s > 0 then (s\<lparr>se_count := se_count s - 1\<rparr>, True) else (s\<lparr>se_asleep := se_asleep s @ [t]\<rparr>, False))"

text \<open>A thread that was woken looks again.\<close>

definition wake_up :: "nat \<Rightarrow> semaphore \<Rightarrow> semaphore \<times> bool" where
  "wake_up t s =
     (let s1 = s\<lparr>se_woken := remove1 t (se_woken s)\<rparr> in
      if se_count s1 > 0 then (s1\<lparr>se_count := se_count s1 - 1\<rparr>, True) else (s1\<lparr>se_asleep := se_asleep s1 @ [t]\<rparr>, False))"

text \<open>Without a time the answer is immediate; with one the wait starts as any other and may end at its time.\<close>

definition Semaphore_TryWait :: "int \<Rightarrow> nat \<Rightarrow> semaphore \<Rightarrow> semaphore \<times> bool" where
  "Semaphore_TryWait timeout t s =
     (if timeout = 0 then if se_count s \<le> 0 then (s, False) else (s\<lparr>se_count := se_count s - 1\<rparr>, True) else Semaphore_Wait t s)"

definition time_out :: "nat \<Rightarrow> semaphore \<Rightarrow> semaphore \<times> bool" where
  "time_out t s =
     (let s1 = s\<lparr>se_woken := remove1 t (se_woken s), se_asleep := (if t \<in> set (se_woken s) then se_asleep s else remove1 t (se_asleep s))\<rparr>
      in if se_count s1 > 0 then (s1\<lparr>se_count := se_count s1 - 1\<rparr>, True) else (s1, False))"

text \<open>Of several threads asleep any may be the one that is woken, here the one at \<open>k\<close>.\<close>

definition notify_one :: "nat \<Rightarrow> semaphore \<Rightarrow> semaphore" where
  "notify_one k s =
     (if se_asleep s = [] then s
      else let t = se_asleep s ! (k mod length (se_asleep s)) in s\<lparr>se_asleep := remove1 t (se_asleep s), se_woken := se_woken s @ [t]\<rparr>)"

definition notify_all :: "semaphore \<Rightarrow> semaphore" where
  "notify_all s = s\<lparr>se_asleep := [], se_woken := se_woken s @ se_asleep s\<rparr>"

definition Semaphore_Post :: "int \<Rightarrow> nat \<Rightarrow> semaphore \<Rightarrow> semaphore" where
  "Semaphore_Post count k s = (let s1 = s\<lparr>se_count := se_count s + count\<rparr> in if count = 1 then notify_one k s1 else notify_all s1)"

text \<open>
  What threads can do, with the number of units posted, taken, and dropped by resets.  A thread may wake
  up without being told.
\<close>

inductive sem_run :: "semaphore \<Rightarrow> int \<Rightarrow> int \<Rightarrow> int \<Rightarrow> bool" where
  create: "sem_run Semaphore_Create 0 0 0"
| reset: "sem_run s p k x \<Longrightarrow> sem_run (Semaphore_Reset s) p k (x + se_count s)"
| wait: "sem_run s p k x \<Longrightarrow> Semaphore_Wait t s = (s', b) \<Longrightarrow> sem_run s' p (k + (if b then 1 else 0)) x"
| try_wait: "sem_run s p k x \<Longrightarrow> Semaphore_TryWait timeout t s = (s', b) \<Longrightarrow> sem_run s' p (k + (if b then 1 else 0)) x"
| woken: "sem_run s p k x \<Longrightarrow> t \<in> set (se_woken s) \<Longrightarrow> wake_up t s = (s', b) \<Longrightarrow> sem_run s' p (k + (if b then 1 else 0)) x"
| timeout: "sem_run s p k x \<Longrightarrow> t \<in> set (se_woken s) \<union> set (se_asleep s) \<Longrightarrow> time_out t s = (s', b) \<Longrightarrow> sem_run s' p (k + (if b then 1 else 0)) x"
| spurious: "sem_run s p k x \<Longrightarrow> sem_run (notify_one i s) p k x"
| post: "sem_run s p k x \<Longrightarrow> 0 \<le> n \<Longrightarrow> sem_run (Semaphore_Post n i s) (p + n) k x"

text \<open>While a thread sleeps there are at least as many that were woken as there is to take.\<close>

definition sem_ok :: "semaphore \<Rightarrow> bool" where
  "sem_ok s \<longleftrightarrow> 0 \<le> se_count s \<and> (se_asleep s \<noteq> [] \<longrightarrow> se_count s \<le> int (length (se_woken s)))"

lemma notify_one_ok: "0 \<le> c \<Longrightarrow> (se_asleep s \<noteq> [] \<longrightarrow> c \<le> int (length (se_woken s)) + 1) \<Longrightarrow> sem_ok (notify_one k (s\<lparr>se_count := c\<rparr>))"
  by (auto simp: sem_ok_def notify_one_def Let_def)

lemma notify_one_count: "se_count (notify_one k s) = se_count s"
  by (simp add: notify_one_def Let_def)

lemma sem_run_ok: "sem_run s p k x \<Longrightarrow> sem_ok s \<and> p = se_count s + k + x"
proof (induction rule: sem_run.induct)
  case (woken s p k x t s' b)
  have "length (remove1 t (se_woken s)) = length (se_woken s) - 1" "0 < length (se_woken s)"
    using woken(2) by (auto simp: length_remove1 intro: length_pos_if_in_set)
  with woken show ?case by (auto simp: wake_up_def sem_ok_def Let_def split: if_splits)
next
  case (timeout s p k x t s' b)
  have "remove1 t (se_woken s) = se_woken s" if "t \<notin> set (se_woken s)" using that by (simp add: remove1_idem)
  moreover have "length (remove1 t (se_woken s)) = length (se_woken s) - 1 \<and> 0 < length (se_woken s)" if "t \<in> set (se_woken s)"
    using that by (auto simp: length_remove1 intro: length_pos_if_in_set)
  ultimately show ?case using timeout by (cases "t \<in> set (se_woken s)") (auto simp: time_out_def sem_ok_def Let_def split: if_splits)
next
  case (spurious s p k x i)
  then show ?case using notify_one_ok [of "se_count s" s i] notify_one_count [of i s] by (auto simp: sem_ok_def)
next
  case (post s p k x n i)
  show ?case
  proof (cases "n = 1")
    case True
    with post notify_one_ok [of "se_count s + 1" s i] notify_one_count [of i "s\<lparr>se_count := se_count s + 1\<rparr>"]
    show ?thesis by (auto simp: Semaphore_Post_def sem_ok_def Let_def)
  next
    case False
    with post show ?thesis by (auto simp: Semaphore_Post_def notify_all_def sem_ok_def Let_def)
  qed
qed (auto simp: Semaphore_Create_def Semaphore_Reset_def Semaphore_Wait_def Semaphore_TryWait_def sem_ok_def split: if_splits)

text \<open>
  C38: No wake-up is lost: while there is something to take and a thread waits, one that was woken takes it
  when it runs next.  What was posted was taken, dropped by a reset, or is still there.
\<close>

theorem semaphore_wakes:
  assumes "sem_run s posted taken dropped" "0 < se_count s" "se_asleep s @ se_woken s \<noteq> []"
  shows "(\<exists>t \<in> set (se_woken s). snd (wake_up t s)) \<and> posted = taken + dropped + se_count s \<and> 0 \<le> se_count s"
proof -
  note ok = sem_run_ok [OF assms(1)]
  have "se_woken s \<noteq> []" using ok assms(2,3) by (auto simp: sem_ok_def)
  then obtain t where "t \<in> set (se_woken s)" by (cases "se_woken s") auto
  then show ?thesis using ok assms(2) by (auto simp: wake_up_def sem_ok_def Let_def intro!: bexI [of _ t])
qed

lemma semaphore_wakes_witness:
  "\<exists>t \<in> set (se_woken (Semaphore_Post 1 0 (fst (Semaphore_Wait 4 Semaphore_Create)))).
     snd (wake_up t (Semaphore_Post 1 0 (fst (Semaphore_Wait 4 Semaphore_Create))))"
proof -
  obtain s b where s: "Semaphore_Wait 4 Semaphore_Create = (s, b)" by force
  have "sem_run (Semaphore_Post 1 0 s) (0 + 1) (0 + (if b then 1 else 0)) 0" by (intro sem_run.post sem_run.wait [OF sem_run.create s]) simp
  moreover have "0 < se_count (Semaphore_Post 1 0 s)" "se_asleep (Semaphore_Post 1 0 s) @ se_woken (Semaphore_Post 1 0 s) \<noteq> []"
    using s by (auto simp: Semaphore_Wait_def Semaphore_Create_def Semaphore_Post_def notify_one_def Let_def)
  ultimately show ?thesis using semaphore_wakes s by fastforce
qed

text \<open>An immediate try takes one exactly when there is one, and never waits.\<close>

lemma try_immediately: "Semaphore_TryWait 0 t s = (s', b) \<Longrightarrow> b = (0 < se_count s) \<and> se_asleep s' = se_asleep s \<and> se_woken s' = se_woken s"
  by (auto simp: Semaphore_TryWait_def split: if_splits)

section \<open>The clock\<close>

text \<open>\<open>ns\<close>: the steady clock in nanoseconds.\<close>

definition GetMSCount :: "nat \<Rightarrow> u64" where
  "GetMSCount ns = word_of_nat (ns div 1000000)"

definition GetUSCount :: "nat \<Rightarrow> u64" where
  "GetUSCount ns = word_of_nat (ns div 1000)"

section \<open>Devices that are not there\<close>

text \<open>Sending gives back the length, receiving nothing: there are no other consoles and no network.\<close>

datatype mp_call = SendPacket int | RecvPacket | SendCmd int | SendReply int | SendAck int | RecvHostPacket | RecvReplies | NetSend int | NetRecv

fun MP_result :: "mp_call \<Rightarrow> int" where
  "MP_result (SendPacket len) = len"
| "MP_result RecvPacket = 0"
| "MP_result (SendCmd len) = len"
| "MP_result (SendReply len) = len"
| "MP_result (SendAck len) = len"
| "MP_result RecvHostPacket = 0"
| "MP_result RecvReplies = 0"
| "MP_result (NetSend len) = len"
| "MP_result NetRecv = 0"

text \<open>A neutral grey picture.\<close>

definition Camera_CaptureFrame :: "u32 list \<Rightarrow> int \<Rightarrow> int \<Rightarrow> bool \<Rightarrow> u32 list" where
  "Camera_CaptureFrame frame w h yuv =
     (let fill = (if yuv then 0x80808080 else 0xFF808080); n = nat (if yuv then w * h div 2 else w * h) in replicate n fill @ drop n frame)"

lemma camera_fills: "0 \<le> w \<Longrightarrow> 0 \<le> h \<Longrightarrow> length frame = nat (w * h) \<Longrightarrow> Camera_CaptureFrame frame w h False = replicate (nat (w * h)) 0xFF808080"
  by (simp add: Camera_CaptureFrame_def)

text \<open>The decoder is never there; loading from no library finds nothing.\<close>

definition AAC_Init :: "nat option" where "AAC_Init = None"
definition AAC_Configure :: bool where "AAC_Configure = False"
definition AAC_DecodeFrame :: bool where "AAC_DecodeFrame = False"

definition DynamicLibrary_LoadFunction :: "(nat \<Rightarrow> string \<Rightarrow> nat option) \<Rightarrow> nat option \<Rightarrow> string \<Rightarrow> nat option" where
  "DynamicLibrary_LoadFunction dlsym lib name = (case lib of None \<Rightarrow> None | Some l \<Rightarrow> dlsym l name)"

end
