(* ===== verification/JavaBridge.thy ===== *)
theory JavaBridge
  imports PresentScreens SessionStates SessionThread
begin

unbundle bit_operations_syntax

text \<open>
  The app's calls, \<^verbatim>\<open>JniBridge.cpp\<close>: how strings, layouts and arrays pass between Java and the native code,
  and what the calls hand to the session.

  A Java string is a list of UTF-16 units.  Java's two encodings are those of its documentation: the
  modified UTF-8 that \<^verbatim>\<open>GetStringUTFChars\<close> gives, and standard UTF-8 as the string's constructor decodes it.
\<close>

section \<open>Strings\<close>

type_synonym java_string = "u16 list"

definition byte_of :: "nat \<Rightarrow> u8" where "byte_of n = word_of_nat n"
definition unit_of :: "nat \<Rightarrow> u16" where "unit_of n = word_of_nat n"

lemma unat_byte_of [simp]: "n < 256 \<Longrightarrow> unat (byte_of n) = n"
  by (simp add: byte_of_def unsigned_of_nat take_bit_nat_eq_self)

lemma unit_of_unat [simp]: "unit_of (unat u) = u"
  by (simp add: unit_of_def)

lemma unat_unit: "unat (u :: u16) < 65536"
  using unat_bound [of u] by simp

text \<open>Modified UTF-8: every unit alone, the null character and the halves of a pair included.\<close>

definition modified_unit :: "u16 \<Rightarrow> bytes" where
  "modified_unit u =
     (let n = unat u in
      if n \<noteq> 0 \<and> n < 128 then [byte_of n]
      else if n < 2048 then [byte_of (192 + n div 64), byte_of (128 + n mod 64)]
      else [byte_of (224 + n div 4096), byte_of (128 + n div 64 mod 64), byte_of (128 + n mod 64)])"

definition modified_utf8 :: "java_string \<Rightarrow> bytes" where
  "modified_utf8 s = concat (map modified_unit s)"

text \<open>The string is copied up to its first null byte.\<close>

definition ToString :: "java_string option \<Rightarrow> bytes" where
  "ToString s = (case s of None \<Rightarrow> [] | Some s \<Rightarrow> takeWhile (\<lambda>b. b \<noteq> 0) (modified_utf8 s))"

text \<open>Standard UTF-8; None when it is malformed, where Java puts replacement characters.\<close>

definition tail_byte :: "u8 \<Rightarrow> bool" where
  "tail_byte b \<longleftrightarrow> 128 \<le> unat b \<and> unat b < 192"

definition surrogate :: "nat \<Rightarrow> bool" where
  "surrogate n \<longleftrightarrow> 0xD800 \<le> n \<and> n < 0xE000"

fun utf8_decode :: "bytes \<Rightarrow> java_string option" where
  "utf8_decode [] = Some []"
| "utf8_decode (b # bs) =
     (let n = unat b in
      if n < 128 then map_option (\<lambda>s. unit_of n # s) (utf8_decode bs)
      else case bs of
             [] \<Rightarrow> None
           | b1 # bs1 \<Rightarrow>
               if \<not> tail_byte b1 then None
               else if 194 \<le> n \<and> n < 224 then map_option (\<lambda>s. unit_of ((n - 192) * 64 + (unat b1 - 128)) # s) (utf8_decode bs1)
               else case bs1 of
                      [] \<Rightarrow> None
                    | b2 # bs2 \<Rightarrow>
                        if \<not> tail_byte b2 then None
                        else if 224 \<le> n \<and> n < 240
                        then let c = (n - 224) * 4096 + (unat b1 - 128) * 64 + (unat b2 - 128)
                             in if c < 2048 \<or> surrogate c then None else map_option (\<lambda>s. unit_of c # s) (utf8_decode bs2)
                        else case bs2 of
                               [] \<Rightarrow> None
                             | b3 # bs3 \<Rightarrow>
                                 if \<not> tail_byte b3 \<or> \<not> (240 \<le> n \<and> n < 245) then None
                                 else let c = (n - 240) * 262144 + (unat b1 - 128) * 4096 + (unat b2 - 128) * 64 + (unat b3 - 128)
                                      in if c < 65536 \<or> c \<ge> 0x110000 then None
                                         else map_option (\<lambda>s. unit_of (0xD800 + (c - 65536) div 1024) # unit_of (0xDC00 + (c - 65536) mod 1024) # s)
                                                (utf8_decode bs3))"

definition NewJavaString :: "bytes \<Rightarrow> java_string option" where
  "NewJavaString bs = utf8_decode bs"

text \<open>The three forms of a unit, by the bytes as numbers.\<close>

lemma decode_two:
  assumes "2 \<le> a" "a < 32" "b < 64"
  shows "utf8_decode (byte_of (192 + a) # byte_of (128 + b) # bs) = map_option (\<lambda>s. unit_of (a * 64 + b) # s) (utf8_decode bs)"
  using assms by (simp add: tail_byte_def)

lemma decode_three:
  assumes "a < 16" "b < 64" "c < 64" "n = a * 4096 + b * 64 + c" "2048 \<le> n"
  shows "utf8_decode (byte_of (224 + a) # byte_of (128 + b) # byte_of (128 + c) # bs) =
    (if surrogate n then None else map_option (\<lambda>s. unit_of n # s) (utf8_decode bs))"
proof -
  have "\<not> n < 2048" using assms(5) by simp
  with assms(1-3) show ?thesis unfolding assms(4) by (simp add: tail_byte_def Let_def)
qed

lemma unit_parts:
  fixes n :: nat
  shows "n div 64 * 64 + n mod 64 = n" "n div 4096 * 4096 + n div 64 mod 64 * 64 + n mod 64 = n"
proof -
  show "n div 64 * 64 + n mod 64 = n" by simp
  have "n div 4096 = n div 64 div 64" by (simp add: div_mult2_eq [symmetric])
  moreover have "n div 64 div 64 * 64 + n div 64 mod 64 = n div 64" by simp
  ultimately show "n div 4096 * 4096 + n div 64 mod 64 * 64 + n mod 64 = n" using \<open>n div 64 * 64 + n mod 64 = n\<close> by linarith
qed

lemma decode_unit:
  assumes "u \<noteq> 0"
  shows "utf8_decode (modified_unit u @ bs) = (if surrogate (unat u) then None else map_option (\<lambda>s. u # s) (utf8_decode bs))"
proof -
  define n where "n = unat u"
  have n: "0 < n" "n < 65536" "unit_of n = u" using assms unat_unit [of u] by (simp_all add: n_def unat_gt_0)
  consider (one) "n < 128" | (two) "128 \<le> n" "n < 2048" | (three) "2048 \<le> n" by linarith
  then show ?thesis
  proof cases
    case one
    then show ?thesis using n by (simp add: modified_unit_def n_def [symmetric] surrogate_def)
  next
    case two
    have m: "modified_unit u = [byte_of (192 + n div 64), byte_of (128 + n mod 64)]" using two by (simp add: modified_unit_def n_def [symmetric])
    have r: "2 \<le> n div 64" "n div 64 < 32" "n mod 64 < 64" "\<not> surrogate n" using two by (auto simp: surrogate_def)
    show ?thesis unfolding m append.simps decode_two [OF r(1-3)] unit_parts(1) n(3) n_def [symmetric] using r(4) by simp
  next
    case three
    have m: "modified_unit u = [byte_of (224 + n div 4096), byte_of (128 + n div 64 mod 64), byte_of (128 + n mod 64)]"
      using three by (simp add: modified_unit_def n_def [symmetric] Let_def)
    have r: "n div 4096 < 16" "n div 64 mod 64 < 64" "n mod 64 < 64" using n(2) by auto
    show ?thesis unfolding m append.simps decode_three [OF r unit_parts(2) [symmetric] three] n(3) n_def [symmetric] by (rule refl)
  qed
qed

lemma modified_no_null: "0 \<notin> set (modified_unit u)"
proof -
  have "unat u < 65536" by (rule unat_unit)
  have z: "byte_of n \<noteq> 0" if "0 < n" "n < 256" for n
  proof
    assume "byte_of n = 0"
    then have "unat (byte_of n) = 0" by simp
    with that show False by simp
  qed
  have "unat u < 2048 \<Longrightarrow> 192 + unat u div 64 < 256" "224 + unat u div 4096 < 256" "128 + unat u div 64 mod 64 < 256" "128 + unat u mod 64 < 256"
    using \<open>unat u < 65536\<close> by auto
  with z show ?thesis by (auto simp: modified_unit_def Let_def)
qed

lemma ToString_all: "ToString (Some s) = modified_utf8 s"
proof -
  have "\<forall>b \<in> set (modified_utf8 s). b \<noteq> 0" using modified_no_null by (fastforce simp: modified_utf8_def)
  then show ?thesis by (simp add: ToString_def takeWhile_eq_all_conv)
qed

text \<open>
  A string without null characters and without characters beyond the basic plane is the same again when
  the native code hands it back.  One with such a character, as an emoji in a file's name, is malformed
  then: native code and app mean different files by it.
\<close>

lemma modified_decode:
  "0 \<notin> set s \<Longrightarrow> utf8_decode (modified_utf8 s) = (if \<exists>u \<in> set s. surrogate (unat u) then None else Some s)"
proof (induction s)
  case (Cons u s)
  then show ?case using decode_unit [of u "modified_utf8 s"] by (auto simp: modified_utf8_def)
qed (simp add: modified_utf8_def)

theorem java_names_roundtrip:
  assumes "0 \<notin> set s" "\<forall>u \<in> set s. \<not> surrogate (unat u)"
  shows "NewJavaString (ToString (Some s)) = Some s"
  unfolding NewJavaString_def ToString_all modified_decode [OF assms(1)] using assms(2) by auto

lemma java_names_roundtrip_witness: "NewJavaString (ToString (Some [0x50, 0x6F, 0x6B, 0xE9, 0x30DD])) = Some [0x50, 0x6F, 0x6B, 0xE9, 0x30DD]"
  by (rule java_names_roundtrip) (simp_all add: surrogate_def)

theorem java_emoji_lost:
  assumes "0 \<notin> set s" "u \<in> set s" "surrogate (unat u)"
  shows "NewJavaString (ToString (Some s)) = None"
  unfolding NewJavaString_def ToString_all modified_decode [OF assms(1)] using assms(2,3) by auto

section \<open>Layouts\<close>

fun layout_quads :: "rat list \<Rightarrow> screen_quad list" where
  "layout_quads (a # x # y # w # h # r # c # rest) =
     \<lparr>q_screen = c_trunc a, q_x = x, q_y = y, q_w = w, q_h = h, q_rotation = c_trunc r, q_opacity = c\<rparr> # layout_quads rest"
| "layout_quads _ = []"

text \<open>How the app writes a layout, and what comes out; a rest of fewer than seven numbers is ignored.\<close>

definition quad_floats :: "screen_quad \<Rightarrow> rat list" where
  "quad_floats q = [of_int (q_screen q), q_x q, q_y q, q_w q, q_h q, of_int (q_rotation q), q_opacity q]"

lemma layout_short: "length xs < 7 \<Longrightarrow> layout_quads xs = []"
  by (cases xs rule: layout_quads.cases) simp_all

theorem layout_arrives: "length rest < 7 \<Longrightarrow> layout_quads (concat (map quad_floats qs) @ rest) = qs"
  by (induction qs) (simp_all add: layout_short quad_floats_def)

section \<open>Settings, results and arrays\<close>

definition filter_number :: "screen_filter \<Rightarrow> int" where
  "filter_number f = (case f of Nearest \<Rightarrow> 0 | Bilinear \<Rightarrow> 1 | SharpBilinear \<Rightarrow> 2 | Scanlines \<Rightarrow> 3 | LcdGrid \<Rightarrow> 4 | Xbrz \<Rightarrow> 5 | Crt \<Rightarrow> 6)"

text \<open>The filters by number; None for a number that names no filter.\<close>

definition nativeSetPresentSettings :: "int \<Rightarrow> bool \<Rightarrow> int \<Rightarrow> present_settings option" where
  "nativeSetPresentSettings n colorCorrect background =
     map_option (\<lambda>f. \<lparr>s_filter = f, s_colorCorrection = colorCorrect, s_backgroundArgb = word_of_int background\<rparr>)
       (find (\<lambda>f. filter_number f = n) [Nearest, Bilinear, SharpBilinear, Scanlines, LcdGrid, Xbrz, Crt])"

lemma settings_arrive: "nativeSetPresentSettings (filter_number f) c b = Some \<lparr>s_filter = f, s_colorCorrection = c, s_backgroundArgb = word_of_int b\<rparr>"
  by (cases f) (simp_all add: nativeSetPresentSettings_def filter_number_def)

text \<open>An error's text, or null when there is none; the same for a game, the firmware and a cartridge in the slot.\<close>

definition error_result :: "bytes \<Rightarrow> java_string option option" where
  "error_result err = (if err = [] then None else Some (NewJavaString err))"

text \<open>A screenshot: width, height, number of screens and the pixels, or null.\<close>

definition nativeScreenshot :: "(u32 list \<times> int \<times> int \<times> nat) option \<Rightarrow> u32 list option" where
  "nativeScreenshot shot =
     map_option (\<lambda>(pixels, w, h, screens). [word_of_int w, word_of_int h, word_of_nat screens] @ pixels) shot"

definition nativeGet3dsFrameSize :: "(int \<times> int) option \<Rightarrow> int list option" where
  "nativeGet3dsFrameSize sz = map_option (\<lambda>(w, h). [w, h]) sz"

definition nativeGet3dsLoadProgress :: "int \<Rightarrow> nat \<Rightarrow> nat \<Rightarrow> int list" where
  "nativeGet3dsLoadProgress phase ready all = [phase, int ready, int all]"

text \<open>Accelerometer and gyroscope from six numbers; missing ones stay 0.\<close>

definition nativeSetMotion :: "rat list \<Rightarrow> rat list" where
  "nativeSetMotion values = (let v = take 6 (values @ replicate 6 0) in SetMotion (take 3 v) (drop 3 v))"

definition nativeSetCheats :: "java_string option list option \<Rightarrow> bytes list" where
  "nativeSetCheats codes = map ToString (case codes of None \<Rightarrow> [] | Some cs \<Rightarrow> cs)"

text \<open>\<open>fl\<close> rounds to single precision.\<close>

definition nativeGetStats :: "(rat \<Rightarrow> rat) \<Rightarrow> emu_stats \<Rightarrow> rat list" where
  "nativeGetStats fl s = [es_fps s, es_speed s, es_frameTimeMs s, es_presentFps s, es_headroom s, fl (of_int (es_status s)),
     fl (of_int (es_renderScale s)), es_rewindSeconds s, es_rewindMemoryMb s]"

definition nativeGetLog :: "bytes list \<Rightarrow> java_string option list" where
  "nativeGetLog lines = map NewJavaString lines"

section \<open>Input\<close>

definition nativeSetKeys :: "int \<Rightarrow> input_state \<Rightarrow> input_state" where
  "nativeSetKeys m s = SetKeys (word_of_int m) s"

definition nativeSetTouch :: "bool \<Rightarrow> int \<Rightarrow> int \<Rightarrow> input_state \<Rightarrow> input_state" where
  "nativeSetTouch down x y s = SetTouch down x y s"

definition nativeSetAnalog :: "(rat \<Rightarrow> rat) \<Rightarrow> int \<Rightarrow> rat \<Rightarrow> rat \<Rightarrow> input_state \<Rightarrow> input_state" where
  "nativeSetAnalog fl stick x y s = SetAnalog fl stick x y s"

definition nativeSetPointer :: "(rat \<Rightarrow> rat) \<Rightarrow> bool \<Rightarrow> rat \<Rightarrow> rat \<Rightarrow> input_state \<Rightarrow> input_state" where
  "nativeSetPointer fl down x y s = SetPointer fl down x y s"

definition nativeSetLidClosed :: "bool \<Rightarrow> input_state \<Rightarrow> input_state" where
  "nativeSetLidClosed lidClosed s = SetLidClosed lidClosed s"

definition nativeSetGuitarKeys :: "int \<Rightarrow> u32" where
  "nativeSetGuitarKeys m = word_of_int m"

text \<open>A key the app sets is set for the core when its frame takes the input.\<close>

lemma keys_arrive: "in_keys (fst (take_input fl (nativeSetKeys m s))) = word_of_int m AND 0x7FFF"
  by (simp add: take_input_def nativeSetKeys_def SetKeys_def Let_def)

end
