(* ===== verification/JavaCalls.thy ===== *)
theory JavaCalls
  imports JavaBridge LogRing ThreeDs
begin

unbundle bit_operations_syntax

text \<open>
  The app's calls in \<^verbatim>\<open>JniBridge.cpp\<close> that act on the session and its settings, over the session's own
  operations, and the switches of \<^verbatim>\<open>EmuSession.h\<close> that any thread may set.
\<close>

section \<open>Different names stay different\<close>

text \<open>A native string's bytes as characters, and back.\<close>

definition native_string :: "java_string option \<Rightarrow> string" where
  "native_string s = map (\<lambda>b. char_of (unat b)) (ToString s)"

definition bytes_of :: "string \<Rightarrow> bytes" where
  "bytes_of s = map (\<lambda>c. byte_of (of_char c)) s"

lemma byte_char [simp]: "byte_of (unat (b :: u8) mod 256) = b"
  using unat_bound [of b] by (simp add: byte_of_def)

lemma bytes_of_native [simp]: "bytes_of (native_string s) = ToString s"
  by (simp add: bytes_of_def native_string_def comp_def)

lemma byte_of_eq: "m < 256 \<Longrightarrow> n < 256 \<Longrightarrow> byte_of m = byte_of n \<longleftrightarrow> m = n"
  by (metis unat_byte_of)

text \<open>A unit's first byte says how many bytes it has.\<close>

lemma modified_unit_prefix:
  assumes "modified_unit u @ xs = modified_unit v @ ys"
  shows "u = v \<and> xs = ys"
proof -
  define m n where "m = unat u" and "n = unat v"
  have lt: "m < 65536" "n < 65536" using unat_unit by (simp_all add: m_def n_def)
  have q: "k div 64 < 32" if "k < 2048" for k :: nat using that by simp
  have r: "k div 4096 < 16" if "k < 65536" for k :: nat using that by simp
  have split64: "a = b" if "a div 64 = b div 64" "a mod 64 = b mod 64" for a b :: nat
    using that by (metis div_mult_mod_eq)
  have split4096: "a = b" if "a div 4096 = b div 4096" "a div 64 mod 64 = b div 64 mod 64" "a mod 64 = b mod 64" for a b :: nat
    using that unit_parts(2) [of a] unit_parts(2) [of b] by metis
  have "m = n \<and> xs = ys"
    using assms lt q [of m] q [of n] r [of m] r [of n] split64 [of m n] split4096 [of m n]
    by (auto simp: modified_unit_def Let_def m_def [symmetric] n_def [symmetric] byte_of_eq split: if_splits)
  then show ?thesis by (metis m_def n_def unit_of_unat)
qed

lemma modified_unit_nonempty: "modified_unit u \<noteq> []"
  by (simp add: modified_unit_def Let_def)

lemma modified_utf8_inj: "modified_utf8 s = modified_utf8 t \<Longrightarrow> s = t"
proof (induction s arbitrary: t)
  case Nil
  then show ?case by (cases t) (simp_all add: modified_utf8_def modified_unit_nonempty)
next
  case (Cons u s)
  then obtain v t' where t: "t = v # t'" by (cases t) (auto simp: modified_utf8_def modified_unit_nonempty)
  have "modified_unit u @ modified_utf8 s = modified_unit v @ modified_utf8 t'" using Cons.prems by (simp add: t modified_utf8_def)
  then show ?case using modified_unit_prefix Cons.IH [of t'] t by blast
qed

lemma native_string_inj: "native_string (Some s) = native_string (Some t) \<longleftrightarrow> s = t"
  by (metis ToString_all bytes_of_native modified_utf8_inj)

section \<open>Settings\<close>

definition nativeSetConfigInt :: "java_string option \<Rightarrow> int \<Rightarrow> config_store \<Rightarrow> config_store" where
  "nativeSetConfigInt key v c = SetInt (native_string key) v c"

definition nativeSetConfigFloat :: "java_string option \<Rightarrow> rat \<Rightarrow> config_store \<Rightarrow> config_store" where
  "nativeSetConfigFloat key v c = SetFloat (native_string key) v c"

definition nativeSetConfigString :: "java_string option \<Rightarrow> java_string option \<Rightarrow> config_store \<Rightarrow> config_store" where
  "nativeSetConfigString key v c = SetString (native_string key) (native_string v) c"

text \<open>
  What a core reads under a key is the value the app set last under this key, whatever characters the keys
  have and whatever is set under other keys.
\<close>

lemma map_of_native: "map_of (map (\<lambda>(k, v). (native_string (Some k), v)) kvs) (native_string (Some j)) = map_of kvs j"
  by (induction kvs) (auto simp: native_string_inj)

lemma fold_native:
  "fold (\<lambda>(k, v). f (native_string (Some k)) v) kvs = fold (\<lambda>(k, v). f k v) (map (\<lambda>(k, v). (native_string (Some k), v)) kvs)"
  by (induction kvs) auto

theorem settings_from_app:
  "GetInt (fold (\<lambda>(k, v). nativeSetConfigInt (Some k) v) kvs config_new) (native_string (Some j)) d =
     (case map_of (rev kvs) j of Some v \<Rightarrow> v | None \<Rightarrow> d)"
  unfolding nativeSetConfigInt_def fold_native [of SetInt] ints.get_configured
  by (simp only: rev_map map_of_native)

section \<open>Switches\<close>

text \<open>The atomic switches any thread sets; the other inputs are in \<open>input_state\<close>.\<close>

record ui_switches =
  ui_blowActive :: bool
  ui_guitarKeys :: u32
  ui_light :: rat
  ui_speedMode :: int
  ui_rewinding :: bool

definition ui_new :: ui_switches where
  "ui_new = \<lparr>ui_blowActive = False, ui_guitarKeys = 0, ui_light = 1 / 2, ui_speedMode = 0, ui_rewinding = False\<rparr>"

definition SetBlow :: "bool \<Rightarrow> ui_switches \<Rightarrow> ui_switches" where
  "SetBlow active u = u\<lparr>ui_blowActive := active\<rparr>"

definition SetGuitarKeys :: "u32 \<Rightarrow> ui_switches \<Rightarrow> ui_switches" where
  "SetGuitarKeys m u = u\<lparr>ui_guitarKeys := m\<rparr>"

definition SetLight :: "rat \<Rightarrow> ui_switches \<Rightarrow> ui_switches" where
  "SetLight level u = u\<lparr>ui_light := level\<rparr>"

definition SetSpeedMode :: "int \<Rightarrow> ui_switches \<Rightarrow> ui_switches" where
  "SetSpeedMode m u = u\<lparr>ui_speedMode := m\<rparr>"

definition SetRewinding :: "bool \<Rightarrow> ui_switches \<Rightarrow> ui_switches" where
  "SetRewinding active u = u\<lparr>ui_rewinding := active\<rparr>"

section \<open>Games\<close>

text \<open>\<open>load\<close> creates a core and loads the game under the key that names its saves.\<close>

definition nativeLoadGame ::
  "'c core_ops \<Rightarrow> device \<Rightarrow> (bytes \<Rightarrow> bool) \<Rightarrow> (string \<Rightarrow> system \<Rightarrow> bytes \<Rightarrow> 'c \<times> string) \<Rightarrow> bytes option \<Rightarrow> java_string option \<Rightarrow>
   java_string option \<Rightarrow> 'c session \<Rightarrow> 'c session \<times> java_string option option" where
  "nativeLoadGame ops dv looksLikeGba load rom fileName gameKey s =
     (case LoadGame ops dv looksLikeGba (load (native_string gameKey)) rom (native_string fileName) s of
        (s1, err) \<Rightarrow> (s1, error_result (bytes_of err)))"

definition nativeBootFirmware :: "'c core_ops \<Rightarrow> device \<Rightarrow> 'c \<times> string \<Rightarrow> 'c session \<Rightarrow> 'c session \<times> java_string option option" where
  "nativeBootFirmware ops dv booted s = (case BootFirmware ops dv booted s of (s1, err) \<Rightarrow> (s1, error_result (bytes_of err)))"

definition nativeLoadGbaRom ::
  "(bytes \<Rightarrow> 'c \<Rightarrow> 'c \<times> string) \<Rightarrow> bytes option \<Rightarrow> 'c session \<Rightarrow> 'c session \<times> java_string option option" where
  "nativeLoadGbaRom insert_cart rom s = (case LoadGbaSlotRom insert_cart rom s of (s1, err) \<Rightarrow> (s1, error_result (bytes_of err)))"

definition nativeGetSystem :: "'c core_ops \<Rightarrow> 'c session \<Rightarrow> java_string option" where
  "nativeGetSystem ops s = NewJavaString (bytes_of (SystemName ops s))"

text \<open>\<open>frame\<close> is a core's frame size; only a 3DS core is asked.\<close>

definition ThreeDsFrameSize :: "'c core_ops \<Rightarrow> ('c \<Rightarrow> int \<times> int) \<Rightarrow> 'c session \<Rightarrow> (int \<times> int) option" where
  "ThreeDsFrameSize ops frame s =
     (case ss_core s of None \<Rightarrow> None | Some c \<Rightarrow> if co_SystemName ops c = ''3DS'' then Some (frame c) else None)"

section \<open>States\<close>

definition nativeSaveState ::
  "'c core_ops \<Rightarrow> bool \<Rightarrow> write_answers \<Rightarrow> write_answers \<Rightarrow> (nat \<Rightarrow> (u32 list \<times> int \<times> int) option) \<Rightarrow> java_string option \<Rightarrow>
   java_string option \<Rightarrow> 'c session \<Rightarrow> fs \<Rightarrow> (bool \<times> fs) option" where
  "nativeSaveState ops renames k kt read path thumbPath s d = SaveState ops renames k kt read (native_string path) (native_string thumbPath) s d"

definition nativeLoadState :: "'c core_ops \<Rightarrow> read_answers \<Rightarrow> java_string option \<Rightarrow> fs \<Rightarrow> 'c session \<Rightarrow> 'c session \<times> bool" where
  "nativeLoadState ops k path d s = LoadState ops k (native_string path) d s"

definition nativeUndoSaveState :: "bool \<Rightarrow> java_string option \<Rightarrow> fs \<Rightarrow> fs \<times> bool" where
  "nativeUndoSaveState renames path d = UndoSaveState renames (native_string path) d"

section \<open>The surface\<close>

text \<open>
  References to windows: \<^verbatim>\<open>ANativeWindow_fromSurface\<close> takes one for the call, the session keeps one of its
  current window, and the call gives its own back.
\<close>

definition acquire_window :: "nat option \<Rightarrow> (nat \<Rightarrow> int) \<Rightarrow> nat \<Rightarrow> int" where
  "acquire_window w r = (case w of None \<Rightarrow> r | Some n \<Rightarrow> r(n := r n + 1))"

definition release_window :: "nat option \<Rightarrow> (nat \<Rightarrow> int) \<Rightarrow> nat \<Rightarrow> int" where
  "release_window w r = (case w of None \<Rightarrow> r | Some n \<Rightarrow> r(n := r n - 1))"

text \<open>The references in the order the calls take them, oldest first, with the session's new state.\<close>

definition nativeSetSurface :: "device \<Rightarrow> nat option \<Rightarrow> 'c session \<Rightarrow> (nat \<Rightarrow> int) \<Rightarrow> 'c session \<times> (nat \<Rightarrow> int) list" where
  "nativeSetSurface dv w s r =
     (let r1 = acquire_window w r;
          rs = (if ss_gl s = None then [r1] else let r2 = release_window (ss_window s) r1 in [r1, r2, acquire_window w r2])
      in (SetSurface dv w s, rs @ [release_window w (last rs)]))"

text \<open>The session's references: one of its window and none of any other.\<close>

definition window_refs :: "'c session \<Rightarrow> nat \<Rightarrow> int" where
  "window_refs s n = (if ss_window s = Some n then 1 else 0)"

fun set_surfaces :: "device \<Rightarrow> nat option list \<Rightarrow> 'c session \<Rightarrow> (nat \<Rightarrow> int) \<Rightarrow> 'c session \<times> (nat \<Rightarrow> int)" where
  "set_surfaces dv [] s r = (s, r)"
| "set_surfaces dv (w # ws) s r = (case nativeSetSurface dv w s r of (s1, rs) \<Rightarrow> set_surfaces dv ws s1 (last rs))"

lemma SetSurface_window: "ss_window (SetSurface dv w s) = (if ss_gl s = None then ss_window s else w)"
  by (auto simp: SetSurface_def Let_def on_output_def on_vk_def on_gl_def split: option.splits)

lemma nativeSetSurface_refs:
  assumes "\<And>n. r n = other n + window_refs s n" "nativeSetSurface dv w s r = (s1, rs)"
  shows "last rs n = other n + window_refs s1 n"
proof -
  have "s1 = SetSurface dv w s" using assms(2) by (auto simp: nativeSetSurface_def Let_def)
  moreover have "rs \<noteq> []" using assms(2) by (auto simp: nativeSetSurface_def Let_def)
  ultimately show ?thesis using assms
    by (auto simp: nativeSetSurface_def Let_def window_refs_def SetSurface_window acquire_window_def release_window_def split: if_splits option.splits)
qed

lemma nativeSetSurface_held:
  assumes "\<And>n. r n = other n + window_refs s n" "\<And>n. 0 \<le> other n" "nativeSetSurface dv w s r = (s1, rs)" "r' \<in> set rs"
  shows "0 \<le> r' n \<and> (r' = last rs \<or> w = Some n \<longrightarrow> other n \<le> r' n)"
  using assms
  by (auto simp: nativeSetSurface_def Let_def window_refs_def acquire_window_def release_window_def split: if_splits option.splits)

lemma set_surfaces_refs:
  assumes "set_surfaces dv ws s r = (s1, r1)" "\<And>n. r n = other n + window_refs s n"
  shows "r1 n = other n + window_refs s1 n"
  using assms
proof (induction ws arbitrary: s r)
  case (Cons w ws)
  obtain s2 rs where c: "nativeSetSurface dv w s r = (s2, rs)" by (metis surj_pair)
  show ?case
  proof (rule Cons.IH [of s2 "last rs"])
    show "set_surfaces dv ws s2 (last rs) = (s1, r1)" using Cons.prems(1) c by simp
    show "last rs n = other n + window_refs s2 n" for n by (rule nativeSetSurface_refs [OF Cons.prems(2) c])
  qed
qed simp

section \<open>The end of the emulation thread\<close>

text \<open>The core goes first, then the Vulkan presenter and the device it used, then the OpenGL ES presenter; the session's window is given back.\<close>

definition thread_end :: "'c core_ops \<Rightarrow> device \<Rightarrow> 'c session \<Rightarrow> (nat \<Rightarrow> int) \<Rightarrow> 'c session \<times> (nat \<Rightarrow> int)" where
  "thread_end ops dv s r =
     (let s1 = SwapCore ops dv None s
      in (s1\<lparr>ss_vk := None, ss_vulkan := False, ss_gl := None, ss_window := None\<rparr>, release_window (ss_window s1) r))"

lemma calls_window: "ss_window (on_output f s) = ss_window s" "ss_window (on_vk f s) = ss_window s" "ss_window (fst (VulkanOutput dv s)) = ss_window s"
  by (simp_all add: on_output_def on_vk_def on_gl_def VulkanOutput_def Vulkan_def)

lemma UpdateOutput_window: "ss_window (UpdateOutput ops dv s) = ss_window s"
proof -
  obtain s1 avail where p: "(if (case ss_core s of None \<Rightarrow> False | Some c \<Rightarrow> co_WantsVulkan ops c) then VulkanOutput dv s
    else (s, False)) = (s1, avail)" by fastforce
  then have "ss_window s1 = ss_window s" by (metis calls_window(3) fst_conv)
  then show ?thesis unfolding UpdateOutput_def p Let_def split by (simp add: calls_window split: option.split)
qed

lemma SwapCore_window: "ss_window (SwapCore ops dv c s) = ss_window s"
  by (simp add: SwapCore_def UpdateOutput_window Let_def ss_log_def calls_window)

text \<open>Then no core, presenter or device is left, and every window has only the references others hold.\<close>

lemma thread_end_releases:
  assumes "thread_end ops dv s r = (s1, r1)" "\<And>n. r n = other n + window_refs s n"
  shows "ss_core s1 = None \<and> ss_gl s1 = None \<and> ss_vk s1 = None \<and> \<not> ss_vulkan s1 \<and> r1 n = other n"
  using assms by (auto simp: thread_end_def Let_def SwapCore_window release_window_def window_refs_def split: option.splits)

text \<open>
  Whatever surfaces the app sets in whatever order, the calls leave each window with the references others
  hold and one more for the session's current window; when the emulation thread ends, with those of others.
\<close>

theorem surface_references:
  assumes "set_surfaces dv ws s r = (s1, r1)" "\<And>n. r n = other n + window_refs s n" "thread_end ops dv s1 r1 = (s2, r2)"
  shows "r1 n = other n + window_refs s1 n \<and> r2 n = other n \<and> ss_gl s2 = None \<and> ss_vk s2 = None"
  using set_surfaces_refs [OF assms(1,2)] thread_end_releases [OF assms(3)] by blast

lemma surface_references_witness:
  "\<forall>(ops :: unit core_ops) dv. snd (thread_end ops dv (fst (set_surfaces dv [Some 7, Some 7, Some 8] (session_new :: unit session) (\<lambda>_. 0)))
     (snd (set_surfaces dv [Some 7, Some 7, Some 8] (session_new :: unit session) (\<lambda>_. 0)))) 8 = 0"
proof (intro allI)
  fix ops :: "unit core_ops" and dv
  obtain s1 r1 where c: "set_surfaces dv [Some 7, Some 7, Some 8] (session_new :: unit session) (\<lambda>_. 0) = (s1, r1)" by (metis surj_pair)
  obtain s2 r2 where e: "thread_end ops dv s1 r1 = (s2, r2)" by (metis surj_pair)
  have "r1 8 = 0 + window_refs s1 8 \<and> r2 8 = 0 \<and> ss_gl s2 = None \<and> ss_vk s2 = None"
    by (rule surface_references [OF c _ e]) (simp add: window_refs_def session_new_def)
  then show "snd (thread_end ops dv (fst (set_surfaces dv [Some 7, Some 7, Some 8] (session_new :: unit session) (\<lambda>_. 0)))
     (snd (set_surfaces dv [Some 7, Some 7, Some 8] (session_new :: unit session) (\<lambda>_. 0)))) 8 = 0"
    unfolding c fst_conv snd_conv e by blast
qed

end
