(* ===== verification/ThreeDsFiles.thy ===== *)
theory ThreeDsFiles
  imports ThreeDs LogRing "HOL-Library.Multiset"
begin

text \<open>
  What \<^verbatim>\<open>ThreeDsCore.cpp\<close> gives the 3DS engine besides its environment: the descriptors behind the file
  handles of \<open>ThreeDsVfs\<close> with the remaining file functions, log lines, sensors and directories.
\<close>

section \<open>Descriptors\<close>

text \<open>
  The descriptors the process has open, and the handles the engine has, each with its descriptor.  \<open>n\<close> is
  the descriptor the kernel gives to \<^verbatim>\<open>dup\<close> or \<^verbatim>\<open>open\<close>.
\<close>

record vfs_state =
  vs_open :: "int list"
  vs_handles :: "(int \<times> vfs_handle) list"

definition vfs_open :: "int \<Rightarrow> (string \<times> nat option) option \<Rightarrow> (string \<Rightarrow> open_flags \<Rightarrow> nat option) \<Rightarrow> string option \<Rightarrow> bool \<Rightarrow> bool \<Rightarrow> bool \<Rightarrow>
    vfs_state \<Rightarrow> vfs_state \<times> bool" where
  "vfs_open n active opened path rd wr update s =
     (case VfsOpen active opened path rd wr update of
        None \<Rightarrow> (s, False)
      | Some h \<Rightarrow> (s\<lparr>vs_open := n # vs_open s, vs_handles := (n, h) # vs_handles s\<rparr>, True))"

text \<open>Closing the handle at \<open>k\<close>; \<open>r\<close> is what \<^verbatim>\<open>close\<close> returns, after which the descriptor is free even if it reports an error.\<close>

definition VfsClose :: "int \<Rightarrow> nat option \<Rightarrow> vfs_state \<Rightarrow> vfs_state \<times> int" where
  "VfsClose r k s =
     (case k of
        None \<Rightarrow> (s, - 1)
      | Some i \<Rightarrow>
          (s\<lparr>vs_open := remove1 (fst (vs_handles s ! i)) (vs_open s), vs_handles := take i (vs_handles s) @ drop (i + 1) (vs_handles s)\<rparr>, r))"

definition VfsGetPath :: "vfs_handle \<Rightarrow> string" where
  "VfsGetPath h = vh_path h"

text \<open>The engine's calls; the kernel gives descriptors that are not open.\<close>

inductive vfs_run :: "int list \<Rightarrow> vfs_state \<Rightarrow> bool" for fds where
  start: "vfs_run fds \<lparr>vs_open = fds, vs_handles = []\<rparr>"
| open_file: "vfs_run fds s \<Longrightarrow> n \<notin> set (vs_open s) \<Longrightarrow> vfs_run fds (fst (vfs_open n active opened path rd wr update s))"
| close_file: "vfs_run fds s \<Longrightarrow> i < length (vs_handles s) \<Longrightarrow> vfs_run fds (fst (VfsClose r (Some i) s))"
| move: "vfs_run fds s \<Longrightarrow> i < length (vs_handles s) \<Longrightarrow> vs_handles s ! i = (n, h) \<Longrightarrow>
    vfs_run fds (s\<lparr>vs_handles := (vs_handles s)[i := (n, h\<lparr>vh_pos := p\<rparr>)]\<rparr>)"

lemma drop_nth_mset: "i < length xs \<Longrightarrow> mset (take i xs @ drop (i + 1) xs) = mset xs - {#xs ! i#}"
proof -
  assume i: "i < length xs"
  then have "xs = take i xs @ xs ! i # drop (i + 1) xs" by (simp add: id_take_nth_drop)
  then have "mset xs = mset (take i xs @ drop (i + 1) xs) + {#xs ! i#}" by (metis mset_append mset.simps(2) union_mset_add_mset_right add_mset_add_single)
  then show ?thesis by simp
qed

text \<open>
  The open descriptors are those of the start and one for each handle: the game's own descriptor is never
  closed by the engine, and once the handles are closed nothing is left open.
\<close>

lemma add_mset_minus: "x \<in># B \<Longrightarrow> A + B - {#x#} = A + (B - {#x#})"
  by (metis diff_union_swap2 insert_DiffM union_mset_add_mset_right add_mset_remove_trivial)

lemma handle_update_fst: "i < length hs \<Longrightarrow> hs ! i = (n, h) \<Longrightarrow> map fst (hs[i := (n, h')]) = map fst hs"
  by (simp add: map_update list_update_same_conv)

theorem vfs_descriptors:
  assumes "vfs_run fds s" "distinct fds"
  shows "mset (vs_open s) = mset fds + mset (map fst (vs_handles s)) \<and> distinct (vs_open s) \<and> set fds \<subseteq> set (vs_open s)"
  using assms(1)
proof (induction rule: vfs_run.induct)
  case start
  show ?case using assms(2) by simp
next
  case (open_file s n active opened path rd wr update)
  then show ?case by (auto simp: vfs_open_def split: option.splits)
next
  case (close_file s i r)
  let ?n = "fst (vs_handles s ! i)" and ?hs = "map fst (vs_handles s)"
  have n: "?n \<in># mset ?hs" "map fst (take i (vs_handles s) @ drop (i + 1) (vs_handles s)) = take i ?hs @ drop (i + 1) ?hs"
    using close_file.hyps by (simp_all add: take_map drop_map)
  have m: "mset (map fst (take i (vs_handles s) @ drop (i + 1) (vs_handles s))) = mset ?hs - {#?n#}"
    unfolding n(2) using close_file.hyps drop_nth_mset [of i ?hs] by simp
  have "mset fds + mset ?hs - {#?n#} = mset fds + (mset ?hs - {#?n#})" using n(1) by (rule add_mset_minus)
  then have "mset (remove1 ?n (vs_open s)) = mset fds + mset (map fst (take i (vs_handles s) @ drop (i + 1) (vs_handles s)))"
    unfolding m using close_file.IH by simp
  moreover have "distinct (remove1 ?n (vs_open s))" using close_file.IH by (simp add: distinct_remove1)
  moreover have "set fds \<subseteq> set (remove1 ?n (vs_open s))"
    using calculation(1) by (metis set_mset_mset set_mset_union Un_upper1)
  ultimately show ?case by (simp add: VfsClose_def)
next
  case (move s i n h p)
  then show ?case by (simp add: handle_update_fst)
qed

lemma vfs_descriptors_witness:
  "vs_open (fst (VfsClose 0 (Some 0) (fst (vfs_open 9 (Some (''/rom'', Some 1)) (\<lambda>_ _. None) (Some ''/rom'') True False False
     \<lparr>vs_open = [3, 5], vs_handles = []\<rparr>)))) = [3, 5]"
proof -
  let ?s = "fst (vfs_open 9 (Some (''/rom'', Some 1)) (\<lambda>_ _. None) (Some ''/rom'') True False False \<lparr>vs_open = [3, 5], vs_handles = []\<rparr>)"
  have v: "VfsOpen (Some (''/rom'', Some 1)) (\<lambda>_ _. None) (Some ''/rom'') True False False = Some \<lparr>vh_file = 1, vh_pos = 0, vh_path = ''/rom''\<rparr>"
    by (simp add: VfsOpen_def IsRomPath_def)
  then have s: "?s = \<lparr>vs_open = [9, 3, 5], vs_handles = [(9, \<lparr>vh_file = 1, vh_pos = 0, vh_path = ''/rom''\<rparr>)]\<rparr>"
    unfolding vfs_open_def by simp
  have "vfs_run [3, 5] ?s" by (rule vfs_run.open_file [OF vfs_run.start]) simp
  then have "vfs_run [3, 5] (fst (VfsClose 0 (Some 0) ?s))" by (rule vfs_run.close_file) (simp only: s, simp)
  from vfs_descriptors [OF this] have "distinct (vs_open (fst (VfsClose 0 (Some 0) ?s)))" by simp
  then show ?thesis unfolding s by (simp add: VfsClose_def)
qed

section \<open>The other file functions\<close>

text \<open>\<open>ok\<close>: the kernel does it.  Beyond the end a file is filled with zeros.\<close>

definition VfsTruncate :: "bool \<Rightarrow> int \<Rightarrow> bytes \<Rightarrow> bytes \<times> int" where
  "VfsTruncate ok len content =
     (if ok \<and> 0 \<le> len then (take (nat len) content @ replicate (nat len - length content) 0, 0) else (content, - 1))"

lemma truncate_length: "0 \<le> len \<Longrightarrow> length (fst (VfsTruncate True len content)) = nat len"
  by (simp add: VfsTruncate_def)

text \<open>Writes go to the kernel at once, so there is nothing to flush.\<close>

definition VfsFlush :: "vfs_handle \<Rightarrow> int" where
  "VfsFlush h = 0"

text \<open>A directory can be removed when nothing is in it.\<close>

definition dir_empty :: "string \<Rightarrow> fs \<Rightarrow> bool" where
  "dir_empty p d \<longleftrightarrow> (\<forall>q \<in> set (map fst (fs_files d) @ fs_dirs d). parent_of q \<noteq> p)"

definition VfsRemove :: "bool \<Rightarrow> string \<Rightarrow> fs \<Rightarrow> fs \<times> int" where
  "VfsRemove allowed path d =
     (if allowed \<and> fs_lookup d path \<noteq> None then (fs_unlink path d, 0)
      else if allowed \<and> path \<in> set (fs_dirs d) \<and> dir_empty path d then (d\<lparr>fs_dirs := removeAll path (fs_dirs d)\<rparr>, 0)
      else (d, - 1))"

definition VfsRename :: "bool \<Rightarrow> string \<Rightarrow> string \<Rightarrow> fs \<Rightarrow> fs \<times> int" where
  "VfsRename allowed src dst d = (if allowed \<and> fs_lookup d src \<noteq> None then (fs_rename src dst d, 0) else (d, - 1))"

text \<open>A removal that reports success took exactly the file or directory; otherwise nothing changed.\<close>

lemma VfsRemove_removed:
  "VfsRemove allowed path d = (d', r) \<Longrightarrow>
     (if r = 0 then (\<forall>q. q \<noteq> path \<longrightarrow> fs_lookup d' q = fs_lookup d q \<and> (q \<in> set (fs_dirs d') \<longleftrightarrow> q \<in> set (fs_dirs d))) \<and> FileExistsAt path d else d' = d)"
  by (auto simp: VfsRemove_def FileExistsAt_def fs_lookup_def split: if_splits) (auto simp: fs_unlink_def lookup_filter_neq)

section \<open>Log lines\<close>

text \<open>The levels of libretro are 0 to 3; line ends at the end of a message are dropped.\<close>

definition retro_level :: "int \<Rightarrow> LogLevel" where
  "retro_level n = (if n \<ge> 3 then Error else if n = 2 then Warn else if n = 1 then Info else Debug)"

definition trim_ends :: "string \<Rightarrow> string" where
  "trim_ends s = rev (dropWhile (\<lambda>c. c = newline \<or> c = CHR 0x0D) (rev s))"

definition LogCallback :: "int \<Rightarrow> string \<Rightarrow> log_buffer \<Rightarrow> log_buffer" where
  "LogCallback level text g = LogLine (retro_level level) (''3DS '' @ trim_ends (format_buf text)) g"

lemma trim_ends_last: "trim_ends s \<noteq> [] \<Longrightarrow> last (trim_ends s) \<noteq> newline"
  using hd_dropWhile [of "\<lambda>c. c = newline \<or> c = CHR 0x0D" "rev s"] by (auto simp: trim_ends_def last_rev)

lemma trim_ends_prefix: "\<exists>t. s = trim_ends s @ t \<and> set t \<subseteq> {newline, CHR 0x0D}"
proof -
  let ?P = "\<lambda>c. c = newline \<or> c = CHR 0x0D"
  have "s = rev (takeWhile ?P (rev s) @ dropWhile ?P (rev s))" by simp
  then have "s = trim_ends s @ rev (takeWhile ?P (rev s))" unfolding trim_ends_def rev_append .
  moreover have "set (rev (takeWhile ?P (rev s))) \<subseteq> {newline, CHR 0x0D}" by (auto dest: set_takeWhileD)
  ultimately show ?thesis by blast
qed

section \<open>Sensors and directories\<close>

text \<open>
  Accelerometer in units of gravity, gyroscope as it is; 0 without a core and for other sensors.  \<open>fl\<close>
  rounds to single precision.
\<close>

definition SensorState :: bool where "SensorState = True"

definition SensorInput :: "(rat \<Rightarrow> rat) \<Rightarrow> rat list option \<Rightarrow> int \<Rightarrow> rat" where
  "SensorInput fl motion n =
     (case motion of
        None \<Rightarrow> 0
      | Some m \<Rightarrow> if 0 \<le> n \<and> n \<le> 2 then fl (MotionQuery m n / fl (981 / 100)) else if 3 \<le> n \<and> n \<le> 5 then MotionQuery m n else 0)"

text \<open>A function of OpenGL: from EGL, or from the library when EGL does not know it.\<close>

definition ProcAddress :: "(string \<Rightarrow> nat option) \<Rightarrow> (string \<Rightarrow> nat option) option \<Rightarrow> string \<Rightarrow> nat option" where
  "ProcAddress egl gles name = (case egl name of Some p \<Rightarrow> Some p | None \<Rightarrow> (case gles of None \<Rightarrow> None | Some lib \<Rightarrow> lib name))"

definition td_directories :: "string \<Rightarrow> string list" where
  "td_directories filesDir = [filesDir @ ''/3ds/system'', filesDir @ ''/3ds/saves'']"

definition td_construct :: "'e \<Rightarrow> (string \<Rightarrow> bool) \<Rightarrow> string \<Rightarrow> fs \<Rightarrow> 'e three_ds \<times> fs" where
  "td_construct e deny filesDir d = (td_new e, fold (\<lambda>p d. snd (MakeDirs deny p d)) (td_directories filesDir) d)"

text \<open>The directories made are the ones the engine is told.\<close>

lemma engine_directories:
  "map (\<lambda>cmd. snd (Environment cfg filesDir cmd t)) [GetSystemDirectory, GetSaveDirectory] = map AText (td_directories filesDir)"
  by (simp add: Environment_def td_directories_def)

end
