(* ===== verification/ThreeDsSync.thy ===== *)
theory ThreeDsSync
  imports ThreeDs VkPresenterFrames
begin

text \<open>
  The 3DS engine on the app's Vulkan device, \<^verbatim>\<open>VulkanBridge\<close> of \<^verbatim>\<open>ThreeDsCore.cpp\<close>: the presenter's frame
  slots are the engine's sync indices.  As libretro's interface says, the engine has one image per index,
  \<open>im i\<close> for index \<open>i\<close>; in a frame it asks for the index, waits for it, draws into the index's image and hands
  it over.
\<close>

section \<open>The engine's calls\<close>

definition CurrentSlot :: "vk_presenter \<Rightarrow> nat" where "CurrentSlot v = vp_frameIndex v"
definition SlotCount :: "vk_presenter \<Rightarrow> nat" where "SlotCount v = kFramesInFlight"

text \<open>The slots as \<open>GetSyncIndex\<close> takes them, if there is a presenter.\<close>

definition bridge_slots :: "vk_presenter option \<Rightarrow> (nat \<times> nat) option" where
  "bridge_slots p = map_option (\<lambda>v. (CurrentSlot v, SlotCount v)) p"

text \<open>None when the wait does not end.\<close>

definition WaitSyncIndex :: "vk_presenter option \<Rightarrow> vk_presenter option option" where
  "WaitSyncIndex p = (case p of None \<Rightarrow> Some None | Some v \<Rightarrow> map_option Some (WaitSlot (int (CurrentSlot v)) v))"

lemma sync_index: "vp_frameIndex v < kFramesInFlight \<Longrightarrow> unat (GetSyncIndex (bridge_slots (Some v))) = vp_frameIndex v"
  by (simp add: GetSyncIndex_def bridge_slots_def CurrentSlot_def kFramesInFlight_def unsigned_of_nat take_bit_nat_eq_self)

text \<open>Every index the engine is told is in the mask it is told.\<close>

lemma sync_index_in_mask:
  "vp_frameIndex v < kFramesInFlight \<Longrightarrow> bit (GetSyncIndexMask (bridge_slots (Some v))) (unat (GetSyncIndex (bridge_slots (Some v))))"
  using sync_index [of v]
  by (auto simp: GetSyncIndexMask_def bridge_slots_def SlotCount_def kFramesInFlight_def less_2_cases_iff bit_mask_iff simp flip: mask_eq_decr_exp)

section \<open>Frames of the engine and presentations\<close>

text \<open>
  The presenter, for each slot the engine's image that the slot's last work samples, the image the engine
  handed over last (0: none), and whether it did so since the last presentation.  \<open>repeats\<close>: an image may be
  presented again without a frame of the engine.
\<close>

inductive sync_run :: "(nat \<Rightarrow> nat) \<Rightarrow> bool \<Rightarrow> vk_presenter \<Rightarrow> (nat \<Rightarrow> nat option) \<Rightarrow> nat \<Rightarrow> bool \<Rightarrow> bool" for im repeats where
  start: "vk_run True v \<Longrightarrow> vp_initialized v \<Longrightarrow> sync_run im repeats v (\<lambda>_. None) 0 False"
| engine_frame: "sync_run im repeats v rd img new \<Longrightarrow> WaitSyncIndex (Some v) = Some (Some v1) \<Longrightarrow>
    sync_run im repeats v1 rd (im (unat (GetSyncIndex (bridge_slots (Some v))))) True"
| present: "sync_run im repeats v rd img new \<Longrightarrow> new \<or> repeats \<Longrightarrow> img \<noteq> 0 \<Longrightarrow> pe_submitted e \<Longrightarrow>
    vk_Present e (vk_SetExternalImage img bgra w h v) = Some (v', shown, p) \<Longrightarrow>
    sync_run im repeats v' (if p = None then rd else rd(vp_frameIndex v := Some img)) img (new \<and> p = None)"
| window: "sync_run im repeats v rd img new \<Longrightarrow> sync_run im repeats (vk_SetWindow surface a w v) rd img new"
| release: "sync_run im repeats v rd img new \<Longrightarrow> sync_run im repeats (vk_ReleaseWindow v) rd img new"

text \<open>A run of the two is a run of the presenter.\<close>

lemma sync_run_presenter: "sync_run im repeats v rd img new \<Longrightarrow> vk_run True v"
proof (induction rule: sync_run.induct)
  case (engine_frame v rd img new v1)
  then obtain slot where "WaitSlot slot v = Some v1" by (auto simp: WaitSyncIndex_def)
  with engine_frame.IH show ?case by (rule vk_run.wait)
next
  case (present v rd img new e bgra w h v' shown p)
  then show ?case by (intro vk_run.present [OF vk_run.image [OF present.IH] present(5)]) simp
qed (auto intro: vk_run.set_window vk_run.release_window)

text \<open>Only a presentation moves to the next slot.\<close>

lemma WaitSlot_index: "WaitSlot slot v = Some v' \<Longrightarrow> vp_frameIndex v' = vp_frameIndex v"
  by (auto simp: WaitSlot_def split: if_splits)

lemma SetTargetRefreshRate_index [simp]: "vp_frameIndex (vk_SetTargetRefreshRate hz v) = vp_frameIndex v"
  by (simp add: vk_SetTargetRefreshRate_def Let_def)

lemma DestroySwapchain_index [simp]: "vp_frameIndex (DestroySwapchain v) = vp_frameIndex v"
  by (simp add: DestroySwapchain_def)

lemma CreateSwapchain_index: "CreateSwapchain a v = (v', ok) \<Longrightarrow> vp_frameIndex v' = vp_frameIndex v"
  by (auto simp: CreateSwapchain_def Let_def split: if_splits)

lemma window_index [simp]: "vp_frameIndex (vk_ReleaseWindow v) = vp_frameIndex v" "vp_frameIndex (vk_SetWindow surface a w v) = vp_frameIndex v"
proof -
  show r: "vp_frameIndex (vk_ReleaseWindow v) = vp_frameIndex v" for v by (simp add: vk_ReleaseWindow_def)
  obtain v2 ok where "CreateSwapchain a ((vk_ReleaseWindow v)\<lparr>vp_window := w, vp_surface := True\<rparr>) = (v2, ok)" by force
  with CreateSwapchain_index [OF this] r show "vp_frameIndex (vk_SetWindow surface a w v) = vp_frameIndex v"
    by (simp add: vk_SetWindow_def Let_def)
qed

lemma present_result_index: "present_result r v = (v', b) \<Longrightarrow> vp_frameIndex v' = vp_frameIndex v"
  by (auto simp: present_result_def split: vk_result.splits)

lemma Present_index:
  assumes "vk_Present e v = Some (v', shown, p)" "pe_submitted e"
  shows "vp_frameIndex v' = (if p = None then vp_frameIndex v else (vp_frameIndex v + 1) mod kFramesInFlight)"
proof (cases "vp_swapchain v")
  case True
  obtain w ok where w: "(if vp_needRecreate v then CreateSwapchain (pe_swap e) (DestroySwapchain v) else (v, True)) = (w, ok)" by force
  then have k: "vp_frameIndex w = vp_frameIndex v" using CreateSwapchain_index [of "pe_swap e" "DestroySwapchain v"] by (auto split: if_splits)
  have d: "vp_frameIndex x = (if q = None then vp_frameIndex w else (vp_frameIndex w + 1) mod kFramesInFlight)"
    if "draw_frame e w f = (x, s, q)" for f x s q
    using that assms(2) present_result_index by (fastforce simp: draw_frame_def Let_def split: prod.splits)
  show ?thesis using assms(1) True w k d by (auto simp: vk_Present_def split: if_splits option.splits vk_result.splits)
qed (use assms in \<open>auto simp: vk_Present_def\<close>)

text \<open>The presenter stays started.\<close>

lemma swapchain_initialized: "CreateSwapchain a v = (v', ok) \<Longrightarrow> vp_initialized v' = vp_initialized v"
  using CreateSwapchain_initialized [of a v] by simp

lemma DestroySwapchain_initialized [simp]: "vp_initialized (DestroySwapchain v) = vp_initialized v"
  by (simp add: DestroySwapchain_def)

lemma window_initialized [simp]: "vp_initialized (vk_ReleaseWindow v) = vp_initialized v" "vp_initialized (vk_SetWindow surface a w v) = vp_initialized v"
proof -
  show r: "vp_initialized (vk_ReleaseWindow v) = vp_initialized v" for v by (simp add: vk_ReleaseWindow_def)
  obtain v2 ok where "CreateSwapchain a ((vk_ReleaseWindow v)\<lparr>vp_window := w, vp_surface := True\<rparr>) = (v2, ok)" by force
  with swapchain_initialized [OF this] r show "vp_initialized (vk_SetWindow surface a w v) = vp_initialized v"
    by (simp add: vk_SetWindow_def Let_def)
qed

lemma Present_initialized: "vk_Present e v = Some (v', r) \<Longrightarrow> vp_initialized v' = vp_initialized v"
proof -
  assume P: "vk_Present e v = Some (v', r)"
  obtain w ok where w: "(if vp_needRecreate v then CreateSwapchain (pe_swap e) (DestroySwapchain v) else (v, True)) = (w, ok)" by force
  then have k: "vp_initialized w = vp_initialized v" using swapchain_initialized [of "pe_swap e" "DestroySwapchain v"] by (auto split: if_splits)
  have r: "vp_initialized x = vp_initialized y" if "present_result q y = (x, b)" for q x y b
    using that by (auto simp: present_result_def split: vk_result.splits)
  have d: "vp_initialized x = vp_initialized w" if "draw_frame e w f = (x, q)" for f x q
    using that r by (fastforce simp: draw_frame_def Let_def split: prod.splits if_splits)
  show ?thesis using P w k d by (auto simp: vk_Present_def split: if_splits option.splits vk_result.splits)
qed

lemma sync_run_initialized: "sync_run im repeats v rd img new \<Longrightarrow> vp_initialized v"
proof (induction rule: sync_run.induct)
  case (engine_frame v rd img new v1)
  then show ?case by (auto simp: WaitSyncIndex_def WaitSlot_def split: if_splits)
next
  case (present v rd img new e bgra w h v' shown p)
  then show ?case using Present_initialized [OF present(5)] by (simp add: vk_SetExternalImage_def)
qed auto

section \<open>The engine waits for the slot that reads its image\<close>

text \<open>Without repeats every slot reads its own image, and a new image is the one of the slot that shows it next.\<close>

lemma sync_run_images:
  "sync_run im False v rd img new \<Longrightarrow> (\<forall>k. rd k \<noteq> None \<longrightarrow> rd k = Some (im k)) \<and> (new \<longrightarrow> img = im (vp_frameIndex v))"
proof (induction rule: sync_run.induct)
  case (engine_frame v rd img new v1)
  then obtain slot where w: "WaitSlot slot v = Some v1" by (auto simp: WaitSyncIndex_def)
  have "vp_frameIndex v < kFramesInFlight" using vk_run_ok [OF sync_run_presenter [OF engine_frame(1)]] by (simp add: presenter_ok_def window_ok_def)
  with engine_frame.IH sync_index WaitSlot_index [OF w] show ?case by simp
next
  case (present v rd img new e bgra w h v' shown p)
  have "vp_frameIndex (vk_SetExternalImage img bgra w h v) = vp_frameIndex v" by (simp add: vk_SetExternalImage_def)
  with present Present_index [OF present(5,4)] show ?case by auto
qed auto

lemma image_free:
  assumes "sync_run im False v rd img new" "inj im"
  shows "\<exists>v1. WaitSyncIndex (Some v) = Some (Some v1) \<and>
    (\<forall>k < kFramesInFlight. fs_fence (vp_frames v1 ! k) = Submitted \<longrightarrow> rd k \<noteq> Some (im (unat (GetSyncIndex (bridge_slots (Some v))))))"
proof -
  note ok = vk_run_ok [OF sync_run_presenter [OF assms(1)]]
  have i: "vp_frameIndex v < kFramesInFlight" "length (vp_frames v) = kFramesInFlight" using ok by (simp_all add: presenter_ok_def window_ok_def)
  obtain v1 where w: "WaitSlot (int (CurrentSlot v)) v = Some v1" using presents [OF sync_run_presenter [OF assms(1)]] by blast
  have "rd k \<noteq> Some (im (vp_frameIndex v))" if "k < kFramesInFlight" "fs_fence (vp_frames v1 ! k) = Submitted" for k
  proof
    assume "rd k = Some (im (vp_frameIndex v))"
    with sync_run_images [OF assms(1)] have "im k = im (vp_frameIndex v)" by (metis option.inject option.distinct(1))
    then have k: "k = vp_frameIndex v" using assms(2) by (simp add: inj_eq)
    show False
    proof -
      obtain f where "wait_slot_fence (vp_frames v ! k) = Some f" "v1 = put_slot k f v"
        using w i k sync_run_initialized [OF assms(1)] by (auto simp: WaitSlot_def CurrentSlot_def kFramesInFlight_def)
      then show False using that i k by (auto simp: put_slot_def wait_slot_fence_def split: fence.splits)
    qed
  qed
  with w show ?thesis using sync_index [OF i(1)] by (auto simp: WaitSyncIndex_def)
qed


text \<open>The other way round: after a presentation the slot it used is at work until somebody waits for it.\<close>

lemma present_result_frames: "present_result r v = (v', b) \<Longrightarrow> vp_frames v' = vp_frames v"
  by (auto simp: present_result_def split: vk_result.splits)

lemma Present_submitted:
  assumes "vk_Present e v = Some (v', shown, Some p)" "pe_submitted e" "presenter_ok submits v"
  shows "fs_fence (vp_frames v' ! vp_frameIndex v) = Submitted"
proof -
  have s: "vp_swapchain v" using assms(1) by (auto simp: vk_Present_def split: if_splits)
  obtain w ok where w: "(if vp_needRecreate v then CreateSwapchain (pe_swap e) (DestroySwapchain v) else (v, True)) = (w, ok)" by force
  then have r: "w = v \<or> CreateSwapchain (pe_swap e) (DestroySwapchain v) = (w, ok)" by (auto split: if_splits)
  then have k: "vp_frameIndex w = vp_frameIndex v" using CreateSwapchain_index [of "pe_swap e" "DestroySwapchain v"] by auto
  have l: "vp_frameIndex w < length (vp_frames w)"
    using recreated_presenter_ok [OF assms(3) s r] by (simp add: presenter_ok_def window_ok_def)
  obtain f where "draw_frame e w f = (v', shown, Some p)" using assms(1) s w by (auto simp: vk_Present_def split: if_splits option.splits vk_result.splits)
  then obtain f1 x where "vp_frames v' = (vp_frames w)[vp_frameIndex w := f1]" "fs_fence f1 = Submitted"
    using assms(2) by (auto simp: draw_frame_def Let_def put_slot_def dest!: present_result_frames split: prod.splits)
  then show ?thesis using l k by simp
qed

text \<open>
  An image that is presented twice, as every other refresh in slow motion: the second time another slot
  reads it, and then the index is the image's own again.  The engine's wait ends at once and it draws into
  an image that is being read.
\<close>

theorem repeated_image_read_while_drawn:
  assumes "sync_run im True v rd img True" "img = im (vp_frameIndex v)" "img \<noteq> 0" "pe_submitted e" "pe_submitted e'"
    "vk_Present e (vk_SetExternalImage img bgra w h v) = Some (v1, shown, Some p)"
    "vk_Present e' (vk_SetExternalImage img bgra w h v1) = Some (v2, shown', Some p')"
  shows "\<exists>rd2 v3 k. sync_run im True v2 rd2 img False \<and> WaitSyncIndex (Some v2) = Some (Some v3) \<and> k < kFramesInFlight \<and>
    fs_fence (vp_frames v3 ! k) = Submitted \<and> rd2 k = Some (im (unat (GetSyncIndex (bridge_slots (Some v2)))))"
proof -
  let ?i = "vp_frameIndex v" and ?j = "(vp_frameIndex v + 1) mod kFramesInFlight"
  have r1: "sync_run im True v1 (rd(?i := Some img)) img False"
    using sync_run.present [OF assms(1) _ assms(3,4,6)] by simp
  have r2: "sync_run im True v2 (rd(?i := Some img, vp_frameIndex v1 := Some img)) img False"
    using sync_run.present [OF r1 _ assms(3,5,7)] by simp
  have i: "?i < 2" using vk_run_ok [OF sync_run_presenter [OF assms(1)]] by (simp add: presenter_ok_def window_ok_def kFramesInFlight_def)
  have x: "vp_frameIndex (vk_SetExternalImage img bgra w h y) = vp_frameIndex y" for y by (simp add: vk_SetExternalImage_def)
  have j1: "vp_frameIndex v1 = ?j" using Present_index [OF assms(6,4)] x by simp
  have j2: "vp_frameIndex v2 = ?i" using Present_index [OF assms(7,5)] x j1 i by (auto simp: kFramesInFlight_def less_2_cases_iff)
  have ne: "?j \<noteq> ?i" "?j < kFramesInFlight" using i by (auto simp: kFramesInFlight_def less_2_cases_iff)
  have "vk_run True (vk_SetExternalImage img bgra w h v1)" by (intro vk_run.image sync_run_presenter [OF r1])
  from Present_submitted [OF assms(7,5) vk_run_ok [OF this]] have s: "fs_fence (vp_frames v2 ! ?j) = Submitted" using x j1 by simp
  obtain v3 where v3: "WaitSlot (int (CurrentSlot v2)) v2 = Some v3" using presents [OF sync_run_presenter [OF r2]] by blast
  have "vp_frames v3 ! ?j = vp_frames v2 ! ?j"
    using v3 ne j2 by (auto simp: WaitSlot_def CurrentSlot_def put_slot_def split: if_splits)
  moreover have "unat (GetSyncIndex (bridge_slots (Some v2))) = ?i" using sync_index [of v2] j2 i by (simp add: kFramesInFlight_def)
  ultimately have "fs_fence (vp_frames v3 ! ?j) = Submitted" "(rd(?i := Some img, vp_frameIndex v1 := Some img)) ?j =
      Some (im (unat (GetSyncIndex (bridge_slots (Some v2)))))" using s j1 assms(2) by simp_all
  moreover have "WaitSyncIndex (Some v2) = Some (Some v3)" using v3 by (simp add: WaitSyncIndex_def)
  ultimately show ?thesis using r2 ne(2) by blast
qed

section \<open>Both happen\<close>

lemma all_well_presents:
  assumes "vk_run True v" "vp_swapchain v" "\<not> vp_needRecreate v"
  shows "\<exists>v' p. vk_Present all_well v = Some (v', True, Some p) \<and> vp_swapchain v' \<and> \<not> vp_needRecreate v'"
proof -
  obtain f where "wait_slot_fence (vp_frames v ! vp_frameIndex v) = Some f" using recreated_returns vk_run_ok [OF assms(1)] by blast
  moreover have "pe_acquire all_well = VkSuccess" "pe_submitted all_well" "pe_present all_well = VkSuccess" by (simp_all add: all_well_def)
  ultimately show ?thesis using assms(2,3) by (simp add: vk_Present_def draw_frame_def present_result_def Let_def split_def put_slot_def)
qed

lemma started_ready: "vp_initialized started" "vp_swapchain started" "\<not> vp_needRecreate started" "vp_frameIndex started = 0"
  by (simp_all add: started_simps)

lemma started_sync: "sync_run Suc repeats started (\<lambda>_. None) 0 False"
  by (rule sync_run.start [OF started_run started_ready(1)])


lemma engine_starts:
  obtains v1 where "sync_run Suc repeats v1 (\<lambda>_. None) 1 True" "vp_frameIndex v1 = 0" "vp_swapchain v1" "\<not> vp_needRecreate v1"
proof -
  obtain v1 where w: "WaitSyncIndex (Some started) = Some (Some v1)" using image_free [OF started_sync inj_Suc] by blast
  then have v1: "WaitSlot (int (CurrentSlot started)) started = Some v1" by (simp add: WaitSyncIndex_def)
  have "unat (GetSyncIndex (bridge_slots (Some started))) = 0" using sync_index [of started] started_ready(4) by (simp add: kFramesInFlight_def)
  with sync_run.engine_frame [OF started_sync w] have "sync_run Suc repeats v1 (\<lambda>_. None) 1 True" by simp
  moreover have "vp_swapchain v1" "\<not> vp_needRecreate v1" using v1 started_ready by (auto simp: WaitSlot_def put_slot_def split: if_splits)
  ultimately show thesis using that WaitSlot_index [OF v1] started_ready(4) by simp
qed

lemma repeated_image_read_while_drawn_witness:
  "\<exists>v rd v3 k. sync_run Suc True v rd 1 False \<and> WaitSyncIndex (Some v) = Some (Some v3) \<and> fs_fence (vp_frames v3 ! k) = Submitted \<and>
     rd k = Some (Suc (unat (GetSyncIndex (bridge_slots (Some v)))))"
proof -
  obtain v where v: "sync_run Suc True v (\<lambda>_. None) 1 True" "vp_frameIndex v = 0" "vp_swapchain v" "\<not> vp_needRecreate v" by (rule engine_starts)
  let ?set = "vk_SetExternalImage 1 False 400 480"
  have e: "pe_submitted all_well" by (simp add: all_well_def)
  have x: "vp_swapchain (?set y) = vp_swapchain y" "vp_needRecreate (?set y) = vp_needRecreate y" for y by (simp_all add: vk_SetExternalImage_def)
  obtain v1 p where p1: "vk_Present all_well (?set v) = Some (v1, True, Some p)" "vp_swapchain v1" "\<not> vp_needRecreate v1"
    using all_well_presents [of "?set v"] vk_run.image [OF sync_run_presenter [OF v(1)]] v(3,4) x by auto
  have r1: "vk_run True v1" using vk_run.present [OF vk_run.image [OF sync_run_presenter [OF v(1)]] p1(1)] e by simp
  obtain v2 p' where p2: "vk_Present all_well (?set v1) = Some (v2, True, Some p')"
    using all_well_presents [of "?set v1"] vk_run.image [OF r1] p1(2,3) x by auto
  have "(1 :: nat) = Suc (vp_frameIndex v)" "(1 :: nat) \<noteq> 0" using v(2) by simp_all
  from repeated_image_read_while_drawn [OF v(1) this e e p1(1) p2] show ?thesis by blast
qed

end
