(* ===== verification/Spec2Isabelle.thy ===== *)
theory Spec2Isabelle
  imports Prelude Rewind SaveFiles IoQueue LogRing Config Topology AudioOut Gba DsCore SessionThread ThreeDsLife VkStreamUpload CheatDb GpuFrame Gpu3DFrame Presenters VkContext Platform JavaCalls ThreeDsFiles ThreeDsSync
begin

text \<open>
  DS, GBA and 3DS emulation front end: a model of the native code under \<^verbatim>\<open>src/app/src/main/cpp\<close>.

  \<^bold>\<open>The program.\<close>  The app runs three emulators, melonDS, mGBA and a libretro engine for the 3DS, behind one
  interface, \<^verbatim>\<open>EmuCore\<close>.  \<^verbatim>\<open>EmuSession\<close> owns the running core and the emulation thread: it swaps cores, runs
  frames, paces them, keeps states and the rewind history, and chooses between the two presenters.  The
  presenters draw the screens, with OpenGL ES or with Vulkan on the device of \<^verbatim>\<open>VulkanContext\<close>; the DS
  renderers under \<^verbatim>\<open>vk/\<close> draw the DS screens on the same device through the command layer \<^verbatim>\<open>Stream\<close>.  The
  audio engine takes samples from the core on its own thread; save files and atomic writes go through the
  I/O thread; the app's calls come through \<^verbatim>\<open>JniBridge.cpp\<close>, melonDS's through \<^verbatim>\<open>PlatformAndroid.cpp\<close>.

  \<^bold>\<open>How the model is made.\<close>  A class is a record of its state, a method a function from state to state, with
  its answer beside it; a call that may fail or not return gives an option or a pair with the error text.
  Machine integers keep their width where the code relies on it; floating-point numbers are rationals, and
  where rounding matters it is an argument (\<open>fl\<close>) with the law the lemma needs.  Third-party code (melonDS,
  mGBA, the 3DS engine, LZ4, Oboe, EGL, Vulkan, the kernel) is a parameter: a record of the operations the
  code calls, or the answers of its calls as arguments.  Threads that share state are step relations.

  \<^bold>\<open>Foundations.\<close>  \<open>Prelude\<close> has the machine types, \<^verbatim>\<open>memcpy\<close>, the C conversions and lemmas on lists;
  \<open>Interfaces\<close> the contracts between components as locales (a snapshot history, queues that drop old or new
  samples, save states), interpreted in the theories of their providers; \<open>HexText\<close>, \<open>DecText\<close> and \<open>BitField\<close>
  texts of numbers and sets of dirty bits.

  \<^bold>\<open>Files and settings.\<close>  \<open>Files\<close> (\<^verbatim>\<open>IoWorker.cpp\<close>: reading whole files, atomic writes as traces of the disk),
  \<open>IoQueue\<close> (the I/O thread), \<open>SaveFiles\<close> (\<^verbatim>\<open>SaveFile.cpp\<close>), \<open>Config\<close> (\<^verbatim>\<open>ConfigStore.h\<close>), \<open>LogRing\<close>
  (\<^verbatim>\<open>LogBuffer.cpp\<close>), \<open>Rewind\<close> (\<^verbatim>\<open>RewindBuffer.cpp\<close>).  A target holds its old or its new contents at every
  moment; an idle save file is on disk when writes succeed; the rewind history is a list of states of which
  only the oldest are dropped.

  \<^bold>\<open>Device.\<close>  \<open>Topology\<close> (\<^verbatim>\<open>CpuTopology.cpp\<close>), \<open>Perf\<close> (\<^verbatim>\<open>PerfManager.cpp\<close>), \<open>SampleRings\<close> (the three rings of
  samples) and \<open>AudioOut\<close> (\<^verbatim>\<open>AudioEngine.cpp\<close>).

  \<^bold>\<open>Cores.\<close>  \<open>CoreTypes\<close> (\<^verbatim>\<open>EmuCore.h\<close>), \<open>Gba\<close> (\<^verbatim>\<open>GbaCore.cpp\<close>), \<open>DsProfile\<close> and \<open>DsCore\<close> (\<^verbatim>\<open>DsCore.cpp\<close>),
  \<open>CheatDb\<close> (\<^verbatim>\<open>CheatDb.cpp\<close>), \<open>ThreeDsAudio\<close>, \<open>ThreeDsVfs\<close>, \<open>ThreeDsFiles\<close>, \<open>ThreeDs\<close>, \<open>ThreeDsLife\<close> and \<open>ThreeDsSync\<close>
  (\<^verbatim>\<open>ThreeDsCore.cpp\<close>: sound, file access, the core, its life from preparation to shutdown, and the
  engine's side of the shared Vulkan device).

  \<^bold>\<open>Session.\<close>  \<open>SessionInput\<close>, \<open>Session\<close>, \<open>SessionRewind\<close>, \<open>SessionLoop\<close>, \<open>SessionStates\<close> and \<open>SessionThread\<close>
  translate \<^verbatim>\<open>EmuSession.cpp\<close>: pure helpers, core and output, rewinding with its worker, the loop of the
  thread, states, and posted commands.  \<open>SessionPolicy\<close> (pacing, audio rate, thermal scale), \<open>SessionCores\<close>
  (the DS and GBA cores meet the contract of save states) and \<open>SessionSafety\<close> (one presenter has the window;
  nothing uses a core that is gone) hold the theorems.

  \<^bold>\<open>DS renderers.\<close>  \<open>VkStream\<close>, \<open>VkStreamSpace\<close> and \<open>VkStreamUpload\<close> model the command layer
  \<^verbatim>\<open>vk/VkStream.cpp\<close>; \<open>VkCalls\<close> and \<open>VkPrograms\<close> the calls on it and the programs with their bindings;
  \<open>Gpu2D\<close>, \<open>Gpu2DLayers\<close>, \<open>Gpu2DSprites\<close>, \<open>Gpu2DRender\<close>, \<open>Gpu2DFrame\<close>, \<open>Gpu2DUploads\<close>, \<open>Gpu2DCalls\<close> the 2D engine
  (\<^verbatim>\<open>vk/GPU2D_Vulkan.cpp\<close>); \<open>GpuScreen\<close>, \<open>GpuCapture\<close>, \<open>GpuFrame\<close> both engines, captures and the final pass
  (\<^verbatim>\<open>vk/GPU_Vulkan.cpp\<close>); \<open>Gpu3DSpans\<close>, \<open>Gpu3DRows\<close>, \<open>Gpu3DPolygons\<close>, \<open>Gpu3DTiles\<close>, \<open>Gpu3DVariants\<close>, \<open>Gpu3DCalls\<close>,
  \<open>Gpu3DFrame\<close> the 3D renderer (\<^verbatim>\<open>vk/GPU3D_Vulkan.cpp\<close>).  Every call of a frame is well typed, fits into the
  upload ring and keeps the order the device needs; late compositing equals compositing at once; the rows
  and variants of polygons are found where the shaders look.

  \<^bold>\<open>Presenters.\<close>  \<open>PresentScreens\<close> (\<^verbatim>\<open>Presenter.h\<close> and the vertex shaders), \<open>VkPresenter\<close>, \<open>VkPresenterRuns\<close>,
  \<open>VkPresenterFrames\<close> (\<^verbatim>\<open>VulkanPresenter.cpp\<close>), \<open>GlPresenter\<close>, \<open>GlPresenterRuns\<close> (\<^verbatim>\<open>GLPresenter.cpp\<close>).
  \<open>Presenters\<close> has the contract of a presenter with the session as a locale, interpreted on both: the record
  \<open>presenter\<close> in \<open>Session\<close> is an abstraction of both, by simulation over any sequence of calls.
  \<open>VkContext\<close> is \<^verbatim>\<open>VulkanContext.cpp\<close>.

  \<^bold>\<open>Bridges.\<close>  \<open>PlatformFiles\<close> and \<open>Platform\<close> (\<^verbatim>\<open>PlatformAndroid.cpp\<close>), \<open>JavaBridge\<close> and \<open>JavaCalls\<close>
  (\<^verbatim>\<open>JniBridge.cpp\<close>: strings and arrays, and the calls over the session's operations).

  \<^bold>\<open>Bounds.\<close>  No loop of the code has invented fuel.  Loops over the kernel's answers consume the list of
  answers and give None when it ends before the loop (the call has not returned); loops whose end depends
  on rounding or on wrapped arithmetic are \<open>partial_function (option)\<close>, with theorems that they return.
  Sizes are those of the code: 2000 log lines, rings of 16384 and 32768 samples, three slots of the
  command layer, two frame slots of the presenter.

  \<^bold>\<open>Not modelled.\<close>  What shaders compute, but for the vertices of the presenters and the parts of buffers the
  3D shaders touch; the fixed structures handed to the driver when pipelines and samplers are created; the
  emulators themselves; floating-point errors where a law of \<open>fl\<close> is not named; the Kotlin app and its
  layouts.  The memory model of the processor is taken as sequential.
\<close>

end
